(* ===== verification/Prelude.thy ===== *)
theory Prelude
  imports Complex_Main "HOL-Library.Multiset" "HOL-Library.List_Lexorder" "HOL-Library.Char_ord"
begin

text \<open>
  Shared vocabulary of the development: Python's clock and float values, rounding, truthiness
  of optional strings, JSON values, generic list lemmas, and the transition-system interface
  whose invariant rule the stateful components use.

  Conventions.  A timezone-aware \<open>datetime\<close> is an \<open>int\<close>: microseconds since the epoch, the
  resolution Python itself keeps.  A \<open>float\<close> is a \<open>real\<close>: arithmetic is exact, and the
  rounding of IEEE doubles is not modelled.  A Python \<open>str\<close> is a \<open>string\<close>.
\<close>

named_theorems step_defs \<open>definitions a one-step case analysis unfolds\<close>

type_synonym time = int

definition total_seconds :: "int \<Rightarrow> real" where
  "total_seconds d = real_of_int d / 1000000"

text \<open>Python's \<open>round\<close>: to nearest, ties to even, on integers and on decimals.\<close>

definition round_half_even :: "real \<Rightarrow> int" where
  "round_half_even x =
     (let f = \<lfloor>x\<rfloor>; d = x - real_of_int f
      in if d < 1 / 2 then f
         else if 1 / 2 < d then f + 1
         else if even f then f else f + 1)"

definition py_round :: "nat \<Rightarrow> real \<Rightarrow> real" where
  "py_round n x = real_of_int (round_half_even (x * 10 ^ n)) / 10 ^ n"

text \<open>\<open>timedelta(seconds=x)\<close> keeps whole microseconds.\<close>

definition timedelta :: "real \<Rightarrow> int" where
  "timedelta s = round_half_even (s * 1000000)"

text \<open>Python truthiness of \<open>str | None\<close>, and \<open>a or b\<close> on optional values.\<close>

fun truthy :: "string option \<Rightarrow> bool" where
  "truthy None = False"
| "truthy (Some s) = (s \<noteq> [])"

definition or_else :: "'a option \<Rightarrow> 'a option \<Rightarrow> 'a option" where
  "or_else a b = (case a of None \<Rightarrow> b | Some _ \<Rightarrow> a)"

text \<open>JSON values; a float is kept by its Python \<open>repr\<close>.\<close>

datatype json = JNull | JBool bool | JInt int | JFloat string | JStr string
  | JList "json list" | JObj "(string \<times> json) list"

datatype py_error = ValueError | KeyError | TypeError | ZeroDivisionError | ValidationError
  | IndexError

text \<open>A loop whose body may raise: the first exception ends it.\<close>

fun fold_err :: "('a \<Rightarrow> 's \<Rightarrow> 'e + 's) \<Rightarrow> 'a list \<Rightarrow> 's \<Rightarrow> 'e + 's" where
  "fold_err f [] s = Inr s"
| "fold_err f (x # xs) s = (case f x s of Inl e \<Rightarrow> Inl e | Inr s' \<Rightarrow> fold_err f xs s')"

lemma fold_err_inv:
  assumes "\<And>x s. x \<in> set xs \<Longrightarrow> P s \<Longrightarrow> \<exists>s'. f x s = Inr s' \<and> P s'" and "P s"
  shows "\<exists>s'. fold_err f xs s = Inr s' \<and> P s'"
  using assms
proof (induction xs arbitrary: s)
  case Nil
  then show ?case by simp
next
  case (Cons x xs)
  from Cons.prems(1) [of x s] Cons.prems(2) obtain s' where "f x s = Inr s'" "P s'" by auto
  moreover have "\<exists>s''. fold_err f xs s' = Inr s'' \<and> P s''"
    using Cons.prems(1) \<open>P s'\<close> by (intro Cons.IH) auto
  ultimately show ?case by simp
qed

subsection \<open>Rounding\<close>

lemma total_seconds_0 [simp]: "total_seconds 0 = 0"
  by (simp add: total_seconds_def)

lemma total_seconds_mono: "a \<le> b \<Longrightarrow> total_seconds a \<le> total_seconds b"
  by (simp add: total_seconds_def)

lemma total_seconds_nonneg [simp]: "0 \<le> total_seconds d \<longleftrightarrow> 0 \<le> d"
  by (simp add: total_seconds_def)

lemma total_seconds_add: "total_seconds (a + b) = total_seconds a + total_seconds b"
  by (simp add: total_seconds_def add_divide_distrib)

lemma total_seconds_diff: "total_seconds (a - b) = total_seconds a - total_seconds b"
  by (simp add: total_seconds_def diff_divide_distrib)

lemma round_half_even_of_int [simp]: "round_half_even (real_of_int n) = n"
  by (simp add: round_half_even_def)

lemma round_half_even_0 [simp]: "round_half_even 0 = 0"
  using round_half_even_of_int [of 0] by simp

lemma round_half_even_error: "\<bar>real_of_int (round_half_even x) - x\<bar> \<le> 1 / 2"
  unfolding round_half_even_def Let_def by (auto split: if_splits; linarith)

lemma round_half_even_mono:
  assumes "x \<le> y" shows "round_half_even x \<le> round_half_even y"
proof (cases "\<lfloor>x\<rfloor> = \<lfloor>y\<rfloor>")
  case True
  with assms show ?thesis
    unfolding round_half_even_def Let_def by auto
next
  case False
  with assms have "\<lfloor>x\<rfloor> + 1 \<le> \<lfloor>y\<rfloor>" by (meson floor_mono order_le_neq_trans zless_imp_add1_zle)
  moreover have "round_half_even x \<le> \<lfloor>x\<rfloor> + 1" "\<lfloor>y\<rfloor> \<le> round_half_even y"
    unfolding round_half_even_def Let_def by auto
  ultimately show ?thesis by linarith
qed

lemma py_round_0 [simp]: "py_round n 0 = 0"
  by (simp add: py_round_def)

lemma py_round_mono: "x \<le> y \<Longrightarrow> py_round n x \<le> py_round n y"
  unfolding py_round_def by (intro divide_right_mono) (auto intro!: round_half_even_mono)

lemma py_round_of_int [simp]: "py_round n (real_of_int k) = real_of_int k"
proof -
  have "real_of_int k * 10 ^ n = real_of_int (k * 10 ^ n)" by simp
  then show ?thesis unfolding py_round_def by (simp only: round_half_even_of_int) simp
qed

lemma py_round_1 [simp]: "py_round n 1 = 1"
  using py_round_of_int [of n 1] by simp

lemma py_round_100 [simp]: "py_round n 100 = 100"
  using py_round_of_int [of n 100] by simp

lemma py_round_nonneg: "0 \<le> x \<Longrightarrow> 0 \<le> py_round n x"
  using py_round_mono [of 0 x n] by simp

lemma py_round_le_1: "x \<le> 1 \<Longrightarrow> py_round n x \<le> 1"
  using py_round_mono [of x 1 n] by simp

lemma py_round_le_100: "x \<le> 100 \<Longrightarrow> py_round n x \<le> 100"
  using py_round_mono [of x 100 n] by simp

lemma ratio_le_1:
  fixes a b :: nat
  assumes "a \<le> b" shows "real a / real b \<le> 1"
  using assms by (cases "b = 0") simp_all

lemma percent_le_100:
  fixes a b :: nat
  assumes "a \<le> b" shows "real a / real b * 100 \<le> 100"
  using mult_right_mono [OF ratio_le_1 [OF assms], of 100] by simp

subsection \<open>Lists\<close>

definition count_if :: "('a \<Rightarrow> bool) \<Rightarrow> 'a list \<Rightarrow> nat" where
  "count_if P xs = length (filter P xs)"

lemma count_if_Nil [simp]: "count_if P [] = 0"
  by (simp add: count_if_def)

lemma count_if_Cons [simp]: "count_if P (x # xs) = (if P x then Suc (count_if P xs) else count_if P xs)"
  by (simp add: count_if_def)

lemma count_if_append [simp]: "count_if P (xs @ ys) = count_if P xs + count_if P ys"
  by (simp add: count_if_def)

lemma count_if_le: "count_if P xs \<le> length xs"
  by (simp add: count_if_def)

lemma count_if_mono: "(\<And>x. x \<in> set xs \<Longrightarrow> P x \<Longrightarrow> Q x) \<Longrightarrow> count_if P xs \<le> count_if Q xs"
  by (induction xs) auto

lemma count_if_split: "count_if P xs + count_if (\<lambda>x. \<not> P x) xs = length xs"
  by (induction xs) auto

text \<open>\<open>takeWhile\<close> over the reversed list: the trailing run of a log.\<close>

definition trailing :: "('a \<Rightarrow> bool) \<Rightarrow> 'a list \<Rightarrow> 'a list" where
  "trailing P xs = rev (takeWhile P (rev xs))"

lemma trailing_Nil [simp]: "trailing P [] = []"
  by (simp add: trailing_def)

lemma trailing_snoc [simp]: "trailing P (xs @ [x]) = (if P x then trailing P xs @ [x] else [])"
  by (simp add: trailing_def)

lemma trailing_single [simp]: "trailing P [x] = (if P x then [x] else [])"
  by (simp add: trailing_def)

lemma trailing_length: "length (trailing P xs) \<le> length xs"
  using length_takeWhile_le [of P "rev xs"] by (simp add: trailing_def)

lemma trailing_all: "x \<in> set (trailing P xs) \<Longrightarrow> P x"
  by (auto simp: trailing_def dest: set_takeWhileD)

subsection \<open>Transition systems\<close>

text \<open>
  The interface behind every invariant of the development: a step function over events and a
  predicate every step keeps.  Components interpret it and read off the whole-run theorem.
\<close>

locale transition_system =
  fixes step :: "'e \<Rightarrow> 's \<Rightarrow> 's"
    and inv :: "'s \<Rightarrow> bool"
  assumes step_inv: "inv s \<Longrightarrow> inv (step e s)"
begin

lemma run_inv: "inv s \<Longrightarrow> inv (fold step es s)"
  by (induction es arbitrary: s) (auto intro: step_inv)

lemma prefix_inv: "inv s \<Longrightarrow> inv (fold step (take n es) s)"
  by (rule run_inv)

end

end
