(* ===== verification/Config.thy ===== *)
theory Config
  imports Prelude
begin

text \<open>
  The learning-analytics configuration (\<open>backend/config/config_model.py\<close>): every field of
  \<open>LearningAnalyticsConfig\<close> with the source's defaults, the set of regimes an intervention may
  answer to, and the session capacity limits.
\<close>

record la_config =
  poll_interval :: real
  analysis_interval :: real
  cooldown_period :: real
  la_enabled :: bool
  mrt_enabled :: bool
  mrt_hold_probability :: real
  mrt_t_k_jitter_frac :: real
  evidence_capture_enabled :: bool
  latency_capture_enabled :: bool
  grounding_ablation_enabled :: bool
  single_agent_mode :: bool
  sim_llm_help_enabled :: bool
  error_repeat_threshold :: int
  idle_threshold :: int
  entropy_threshold :: real
  error_freq_threshold :: real
  distinct_actuals_threshold :: int
  unchanged_cycles_threshold :: int
  stuck_time_multiplier :: real
  rate_slope_threshold :: real
  min_latency_floor :: real
  min_idle_for_stuck :: int
  idle_gap_seconds :: real
  rate_window_seconds :: real
  min_rate_windows :: int
  error_freq_window_minutes :: real
  progress_poll_interval :: real
  progress_max_duration_hours :: real
  dedup_max_size :: int
  mcp_actions_limit :: int
  mcp_logs_limit :: int
  dwell_thresholds :: "(string \<times> real) list"
  cost_stuck :: real
  cost_intervention :: real
  cost_false_intervention :: real
  escalation_max_dwell :: real
  mentor_handling_seconds :: real
  l2_intervention_cap :: int
  cohort_horizon_days :: real
  autonomy_intervention_threshold :: int
  eval_t_k_grid :: "real list"
  eval_onset_window_seconds :: real

definition default_la_config :: la_config where
  "default_la_config = \<lparr>
     poll_interval = 5, analysis_interval = 15, cooldown_period = 60, la_enabled = True,
     mrt_enabled = False, mrt_hold_probability = 1 / 2, mrt_t_k_jitter_frac = 1 / 2,
     evidence_capture_enabled = False, latency_capture_enabled = False,
     grounding_ablation_enabled = False, single_agent_mode = False,
     sim_llm_help_enabled = False,
     error_repeat_threshold = 3, idle_threshold = 3, entropy_threshold = 7 / 10,
     error_freq_threshold = 4 / 10, distinct_actuals_threshold = 2,
     unchanged_cycles_threshold = 3, stuck_time_multiplier = 2,
     rate_slope_threshold = - 1 / 2, min_latency_floor = 30, min_idle_for_stuck = 2,
     idle_gap_seconds = 60, rate_window_seconds = 120, min_rate_windows = 3,
     error_freq_window_minutes = 5, progress_poll_interval = 25,
     progress_max_duration_hours = 12, dedup_max_size = 10000, mcp_actions_limit = 50,
     mcp_logs_limit = 100,
     dwell_thresholds = [(''stuck_on_step'', 0), (''repeating_errors'', 0), (''idle'', 0),
       (''trial_and_error'', 0)],
     cost_stuck = 1, cost_intervention = 1, cost_false_intervention = 1 / 2,
     escalation_max_dwell = 180, mentor_handling_seconds = 900, l2_intervention_cap = 0,
     cohort_horizon_days = 30, autonomy_intervention_threshold = 0,
     eval_t_k_grid = [0, 15, 30, 60, 120, 180], eval_onset_window_seconds = 30\<rparr>"

definition BAD_REGIMES :: "string list" where
  "BAD_REGIMES = [''stuck_on_step'', ''repeating_errors'', ''idle'', ''trial_and_error'']"

text \<open>\<open>dwell_thresholds.get(regime, 0.0)\<close>.\<close>

definition threshold_of :: "(string \<times> real) list \<Rightarrow> string \<Rightarrow> real" where
  "threshold_of d r = (case map_of d r of None \<Rightarrow> 0 | Some t \<Rightarrow> t)"

record capacity_config =
  global_cap :: int
  per_lab_caps :: "(string \<times> int) list"
  max_sessions_per_user :: int
  session_max_hours :: real
  queue_ttl_seconds :: int
  mcp_audit_retention_days :: int

text \<open>The bounds pydantic enforces on \<open>CapacityConfig\<close> (\<open>ge\<close>, \<open>gt\<close>).\<close>

definition capacity_valid :: "capacity_config \<Rightarrow> bool" where
  "capacity_valid c \<longleftrightarrow> 1 \<le> global_cap c \<and> 1 \<le> max_sessions_per_user c \<and>
     0 < session_max_hours c \<and> 60 \<le> queue_ttl_seconds c \<and> 1 \<le> mcp_audit_retention_days c"

definition default_capacity :: capacity_config where
  "default_capacity = \<lparr>global_cap = 6, per_lab_caps = [], max_sessions_per_user = 2,
     session_max_hours = 12, queue_ttl_seconds = 900, mcp_audit_retention_days = 90\<rparr>"

lemma default_capacity_valid: "capacity_valid default_capacity"
  by (simp add: capacity_valid_def default_capacity_def)

end
