(* ===== verification/Identifier.thy ===== *)
theory Identifier
  imports Config
begin

text \<open>
  The rule-based identifier (\<open>backend/agents/identifier/\<close>): the feature vector, the struggle
  types and suggested interventions, the ordered rule table, and \<open>identify_regime\<close>.  Pydantic's
  range checks on \<open>success_rate\<close> and \<open>confidence\<close> and the division in the first rule are
  branches of the result, so that "never raises" is a theorem about the code's features.
\<close>

datatype StruggleType = STUCK_ON_STEP | REPEATING_ERRORS | IDLE | TRIAL_AND_ERROR

datatype SuggestedIntervention = HINT | TUTOR | SIMPLIFY | NO_INTERVENTION

fun struggle_value :: "StruggleType \<Rightarrow> string" where
  "struggle_value STUCK_ON_STEP = ''stuck_on_step''"
| "struggle_value REPEATING_ERRORS = ''repeating_errors''"
| "struggle_value IDLE = ''idle''"
| "struggle_value TRIAL_AND_ERROR = ''trial_and_error''"

fun intervention_value :: "SuggestedIntervention \<Rightarrow> string" where
  "intervention_value HINT = ''hint''"
| "intervention_value TUTOR = ''tutor''"
| "intervention_value SIMPLIFY = ''simplify''"
| "intervention_value NO_INTERVENTION = ''none''"

record session_features =
  avg_inter_action_latency :: real
  action_rate_slope :: real
  idle_periods :: int
  total_active_time :: real
  time_on_current_step :: real
  error_repeat_count :: int
  error_repeat_rate :: real
  action_sequence_entropy :: real
  undo_redo_ratio :: real
  error_frequency :: real
  error_frequency_slope :: real
  unique_error_types :: int
  dominant_error :: "string option"
  components_touched :: int
  action_diversity :: real
  events_total :: int
  distinct_failing_actuals :: int
  cycles_failing_unchanged :: int
  sf_session_id :: string
  computed_at :: time

record student_metrics =
  total_attempts :: int
  success_rate :: real
  avg_time_per_step :: real
  struggling_steps :: "string list"

record difficulty_recommendation =
  current_difficulty :: string
  recommended_difficulty :: string
  dr_metrics :: student_metrics

record analytics_result =
  ar_recommendation :: difficulty_recommendation
  struggle_detected :: bool
  struggle_type :: "StruggleType option"
  suggested_intervention :: SuggestedIntervention
  ar_features :: session_features
  confidence :: real

type_synonym struggle_rule =
  "(session_features \<Rightarrow> la_config \<Rightarrow> bool) \<times> StruggleType \<times> SuggestedIntervention \<times>
   (session_features \<Rightarrow> la_config \<Rightarrow> py_error + real)"

definition STRUGGLE_RULES :: "struggle_rule list" where
  "STRUGGLE_RULES = [
     (\<lambda>f c. error_repeat_threshold c \<le> error_repeat_count f,
      REPEATING_ERRORS, HINT,
      \<lambda>f c. if error_repeat_threshold c + 2 = 0 then Inl ZeroDivisionError
            else Inr (min (of_int (error_repeat_count f) / of_int (error_repeat_threshold c + 2)) 1)),
     (\<lambda>f c. distinct_actuals_threshold c < distinct_failing_actuals f,
      TRIAL_AND_ERROR, TUTOR,
      \<lambda>f c. Inr (min (of_int (distinct_failing_actuals f) / 4) 1)),
     (\<lambda>f c. unchanged_cycles_threshold c \<le> cycles_failing_unchanged f,
      STUCK_ON_STEP, HINT, \<lambda>f c. Inr (7 / 10)),
     (\<lambda>f c. entropy_threshold c < action_sequence_entropy f \<and>
            error_freq_threshold c < error_frequency f,
      TRIAL_AND_ERROR, TUTOR, \<lambda>f c. Inr (min (action_sequence_entropy f) 1)),
     (\<lambda>f c. idle_threshold c < idle_periods f \<and> action_rate_slope f < rate_slope_threshold c,
      IDLE, TUTOR, \<lambda>f c. Inr (7 / 10)),
     (\<lambda>f c. stuck_time_multiplier c * max (avg_inter_action_latency f) (min_latency_floor c)
              < time_on_current_step f \<and> min_idle_for_stuck c < idle_periods f,
      STUCK_ON_STEP, HINT, \<lambda>f c. Inr (6 / 10))]"

fun detect_struggle_in ::
  "struggle_rule list \<Rightarrow> session_features \<Rightarrow> la_config \<Rightarrow>
   py_error + (StruggleType option \<times> SuggestedIntervention \<times> real)" where
  "detect_struggle_in [] f c = Inr (None, NO_INTERVENTION, 0)"
| "detect_struggle_in ((predicate, stype, interv, conf_fn) # rules) f c =
     (if predicate f c
      then (case conf_fn f c of Inl e \<Rightarrow> Inl e | Inr x \<Rightarrow> Inr (Some stype, interv, x))
      else detect_struggle_in rules f c)"

definition detect_struggle ::
  "session_features \<Rightarrow> la_config \<Rightarrow> py_error + (StruggleType option \<times> SuggestedIntervention \<times> real)"
  where "detect_struggle f c = detect_struggle_in STRUGGLE_RULES f c"

definition mk_student_metrics :: "int \<Rightarrow> real \<Rightarrow> real \<Rightarrow> py_error + student_metrics" where
  "mk_student_metrics n rate avg =
     (if 0 \<le> rate \<and> rate \<le> 1
      then Inr \<lparr>total_attempts = n, success_rate = rate, avg_time_per_step = avg,
                struggling_steps = []\<rparr>
      else Inl ValidationError)"

definition identify_regime :: "session_features \<Rightarrow> la_config \<Rightarrow> py_error + analytics_result" where
  "identify_regime f c =
     (case mk_student_metrics (events_total f) (1 - error_repeat_rate f)
             (avg_inter_action_latency f) of
        Inl e \<Rightarrow> Inl e
      | Inr metrics \<Rightarrow>
          (case detect_struggle f c of
             Inl e \<Rightarrow> Inl e
           | Inr (stype, interv, conf) \<Rightarrow>
               (if 0 \<le> conf \<and> conf \<le> 1
                then Inr \<lparr>ar_recommendation = \<lparr>current_difficulty = ''intermediate'',
                            recommended_difficulty = ''intermediate'', dr_metrics = metrics\<rparr>,
                          struggle_detected = (stype \<noteq> None), struggle_type = stype,
                          suggested_intervention = interv, ar_features = f,
                          confidence = conf\<rparr>
                else Inl ValidationError)))"

subsection \<open>The rule table is first-match\<close>

lemma detect_struggle_in_none:
  "detect_struggle_in rs f c = Inr (None, i, x) \<Longrightarrow>
     (\<forall>(p, _, _, _) \<in> set rs. \<not> p f c) \<and> i = NO_INTERVENTION \<and> x = 0"
  by (induction rs f c rule: detect_struggle_in.induct) (auto split: if_splits sum.splits)

lemma detect_struggle_in_skip:
  "\<forall>(p, _, _, _) \<in> set rs. \<not> p f c \<Longrightarrow>
     detect_struggle_in (rs @ rs') f c = detect_struggle_in rs' f c"
  by (induction rs) auto

lemma detect_struggle_in_some:
  "detect_struggle_in rs f c = Inr (Some t, i, x) \<Longrightarrow>
     \<exists>pre p k post. rs = pre @ (p, t, i, k) # post \<and> (\<forall>(q, _, _, _) \<in> set pre. \<not> q f c) \<and>
       p f c \<and> k f c = Inr x"
proof (induction rs)
  case Nil
  then show ?case by simp
next
  case (Cons r rules)
  obtain p s j k where r: "r = (p, s, j, k)" by (cases r)
  show ?case
  proof (cases "p f c")
    case True
    with Cons.prems r show ?thesis
      by (intro exI [of _ "[]"]) (auto split: sum.splits)
  next
    case False
    with Cons.prems r have "detect_struggle_in rules f c = Inr (Some t, i, x)" by simp
    from Cons.IH [OF this] obtain pre p' k' post where
      "rules = pre @ (p', t, i, k') # post" "\<forall>(q, _, _, _) \<in> set pre. \<not> q f c" "p' f c"
      "k' f c = Inr x" by blast
    with False r have "r # rules = ((p, s, j, k) # pre) @ (p', t, i, k') # post \<and>
        (\<forall>(q, _, _, _) \<in> set ((p, s, j, k) # pre). \<not> q f c) \<and> p' f c \<and> k' f c = Inr x"
      by simp
    then show ?thesis by blast
  qed
qed

text \<open>The struggle a rule reports is always paired with the intervention the table gives it.\<close>

fun intervention_for :: "StruggleType \<Rightarrow> SuggestedIntervention" where
  "intervention_for STUCK_ON_STEP = HINT"
| "intervention_for REPEATING_ERRORS = HINT"
| "intervention_for IDLE = TUTOR"
| "intervention_for TRIAL_AND_ERROR = TUTOR"

lemma STRUGGLE_RULES_pairing:
  "(p, t, i, k) \<in> set STRUGGLE_RULES \<Longrightarrow> i = intervention_for t"
  by (auto simp: STRUGGLE_RULES_def)

text \<open>Features as the extractor produces them: counters and the repeat rate in range.\<close>

definition features_wf :: "session_features \<Rightarrow> bool" where
  "features_wf f \<longleftrightarrow> 0 \<le> error_repeat_count f \<and> 0 \<le> error_repeat_rate f \<and>
     error_repeat_rate f \<le> 1 \<and> 0 \<le> distinct_failing_actuals f \<and>
     0 \<le> action_sequence_entropy f"

definition confidence_ok :: "py_error + real \<Rightarrow> bool" where
  "confidence_ok r = (case r of Inl _ \<Rightarrow> False | Inr x \<Rightarrow> 0 \<le> x \<and> x \<le> 1)"

lemma detect_struggle_in_confidence:
  assumes "\<forall>(p, t, i, k) \<in> set rs. p f c \<longrightarrow> confidence_ok (k f c)"
  shows "\<exists>t i x. detect_struggle_in rs f c = Inr (t, i, x) \<and> 0 \<le> x \<and> x \<le> 1"
  using assms
  by (induction rs f c rule: detect_struggle_in.induct)
    (auto simp: confidence_ok_def split: sum.splits)

lemma detect_struggle_confidence:
  assumes "features_wf f" and "- 2 < error_repeat_threshold c"
  shows "\<exists>t i x. detect_struggle f c = Inr (t, i, x) \<and> 0 \<le> x \<and> x \<le> 1"
  unfolding detect_struggle_def
proof (rule detect_struggle_in_confidence)
  from assms show "\<forall>(p, t, i, k) \<in> set STRUGGLE_RULES. p f c \<longrightarrow> confidence_ok (k f c)"
    unfolding STRUGGLE_RULES_def features_wf_def confidence_ok_def
    by (simp add: min_le_iff_disj divide_nonneg_pos)
qed

lemma identify_regime_total:
  assumes "features_wf f" and "- 2 < error_repeat_threshold c"
  shows "\<exists>r. identify_regime f c = Inr r"
proof -
  from detect_struggle_confidence [OF assms] obtain t i x
    where d: "detect_struggle f c = Inr (t, i, x)" "0 \<le> x" "x \<le> 1" by blast
  with assms(1) show ?thesis
    by (simp add: identify_regime_def mk_student_metrics_def features_wf_def)
qed

lemma identify_regime_fields:
  assumes "identify_regime f c = Inr r"
  shows "struggle_detected r \<longleftrightarrow> struggle_type r \<noteq> None"
    and "0 \<le> confidence r \<and> confidence r \<le> 1"
    and "ar_features r = f"
    and "detect_struggle f c = Inr (struggle_type r, suggested_intervention r, confidence r)"
  using assms
  by (auto simp: identify_regime_def split: sum.splits prod.splits if_splits)

lemma identify_regime_intervention:
  assumes "identify_regime f c = Inr r" and "struggle_type r = Some t"
  shows "suggested_intervention r = intervention_for t"
  using identify_regime_fields(4) [OF assms(1)] assms(2)
  by (auto simp: detect_struggle_def dest!: detect_struggle_in_some STRUGGLE_RULES_pairing
      simp del: detect_struggle_in.simps)
    (metis STRUGGLE_RULES_pairing in_set_conv_decomp)

lemma identify_regime_no_struggle:
  assumes "identify_regime f c = Inr r"
  shows "\<not> struggle_detected r \<longleftrightarrow> (\<forall>(p, _, _, _) \<in> set STRUGGLE_RULES. \<not> p f c)"
proof
  assume "\<not> struggle_detected r"
  with identify_regime_fields [OF assms] show "\<forall>(p, _, _, _) \<in> set STRUGGLE_RULES. \<not> p f c"
    by (auto simp: detect_struggle_def dest!: detect_struggle_in_none)
next
  assume "\<forall>(p, _, _, _) \<in> set STRUGGLE_RULES. \<not> p f c"
  then have "detect_struggle f c = Inr (None, NO_INTERVENTION, 0)"
    using detect_struggle_in_skip [of STRUGGLE_RULES f c "[]"] by (simp add: detect_struggle_def)
  with identify_regime_fields [OF assms] show "\<not> struggle_detected r" by auto
qed

end
