(* ===== verification/Control.thy ===== *)
theory Control
  imports Identifier
begin

text \<open>
  The controlled process and the control law: \<open>analytics/runtime/process_state.py\<close> (regimes,
  dwell time) and \<open>analytics/runtime/control_law.py\<close> (the one decision function), with the
  study arm of \<open>experiment/assignment.py\<close>.
\<close>

subsection \<open>Regimes and dwell time\<close>

datatype ProcessRegime = PRODUCTIVE | Struggling StruggleType

fun regime_value :: "ProcessRegime \<Rightarrow> string" where
  "regime_value PRODUCTIVE = ''productive''"
| "regime_value (Struggling t) = struggle_value t"

definition all_regimes :: "ProcessRegime list" where
  "all_regimes = [PRODUCTIVE, Struggling STUCK_ON_STEP, Struggling REPEATING_ERRORS,
     Struggling IDLE, Struggling TRIAL_AND_ERROR]"

text \<open>\<open>ProcessRegime(value)\<close>: the member with that value, or \<open>ValueError\<close>.\<close>

definition regime_of_value :: "string \<Rightarrow> py_error + ProcessRegime" where
  "regime_of_value v = (case find (\<lambda>r. regime_value r = v) all_regimes of
     None \<Rightarrow> Inl ValueError | Some r \<Rightarrow> Inr r)"

definition analysis_to_regime :: "analytics_result \<Rightarrow> ProcessRegime" where
  "analysis_to_regime a =
     (if \<not> struggle_detected a then PRODUCTIVE
      else (case struggle_type a of None \<Rightarrow> PRODUCTIVE | Some t \<Rightarrow> Struggling t))"

definition is_bad :: "ProcessRegime \<Rightarrow> bool" where
  "is_bad r \<longleftrightarrow> r \<noteq> PRODUCTIVE"

text \<open>\<open>_regime\<close> and \<open>_since\<close> are always set together, so they are one optional pair.\<close>

type_synonym dwell_tracker = "(ProcessRegime \<times> time) option"

definition dwell_init :: dwell_tracker where
  "dwell_init = None"

definition current_regime :: "dwell_tracker \<Rightarrow> ProcessRegime option" where
  "current_regime d = map_option fst d"

definition observe :: "ProcessRegime \<Rightarrow> time \<Rightarrow> dwell_tracker \<Rightarrow> real \<times> dwell_tracker" where
  "observe r now d =
     (case d of
        None \<Rightarrow> (0, Some (r, now))
      | Some (r0, since) \<Rightarrow>
          if r \<noteq> r0 then (0, Some (r, now)) else (total_seconds (now - since), d))"

subsection \<open>The control law\<close>

datatype ControlArm = OPEN | CLOSED

fun arm_value :: "ControlArm \<Rightarrow> string" where
  "arm_value OPEN = ''open''"
| "arm_value CLOSED = ''closed''"

datatype action = Intervene | Withhold | Skip

record decision =
  action_of :: action
  reason :: string

definition should_intervene ::
  "ProcessRegime \<Rightarrow> real \<Rightarrow> ControlArm \<Rightarrow> time option \<Rightarrow> la_config \<Rightarrow> time \<Rightarrow>
   real option \<Rightarrow> real option \<Rightarrow> decision" where
  "should_intervene regime dwell arm last_intervention_at cfg now mrt_threshold hold_draw =
     (if \<not> is_bad regime then \<lparr>action_of = Skip, reason = ''productive''\<rparr>
      else
        let threshold = (case mrt_threshold of Some t \<Rightarrow> t
              | None \<Rightarrow> threshold_of (dwell_thresholds cfg) (regime_value regime))
        in if dwell < threshold then \<lparr>action_of = Skip, reason = ''dwell_below_threshold''\<rparr>
        else if \<not> la_enabled cfg then \<lparr>action_of = Skip, reason = ''interventions_disabled''\<rparr>
        else if (case last_intervention_at of None \<Rightarrow> False
                 | Some l \<Rightarrow> total_seconds (now - l) < cooldown_period cfg)
        then \<lparr>action_of = Skip, reason = ''cooldown''\<rparr>
        else if arm = OPEN then \<lparr>action_of = Withhold, reason = ''open_arm''\<rparr>
        else if (case hold_draw of None \<Rightarrow> False | Some u \<Rightarrow> u < mrt_hold_probability cfg)
        then \<lparr>action_of = Withhold, reason = ''mrt_hold''\<rparr>
        else \<lparr>action_of = Intervene,
               reason = (if hold_draw \<noteq> None then ''mrt_intervene'' else ''threshold_reached'')\<rparr>)"

subsection \<open>Regime lemmas\<close>

lemma regime_value_inj: "regime_value r = regime_value r' \<longleftrightarrow> r = r'"
proof -
  have "struggle_value s = struggle_value t \<longleftrightarrow> s = t" for s t
    by (cases s; cases t) auto
  moreover have "struggle_value t \<noteq> ''productive''" for t by (cases t) auto
  ultimately show ?thesis by (cases r; cases r') (auto simp: eq_commute)
qed

lemma all_regimes_complete: "r \<in> set all_regimes"
proof (cases r)
  case (Struggling t)
  then show ?thesis by (cases t) (auto simp: all_regimes_def)
qed (simp add: all_regimes_def)

lemma regime_of_value_roundtrip: "regime_of_value (regime_value r) = Inr r"
proof (cases r)
  case (Struggling t)
  then show ?thesis
    by (cases t) (simp_all add: regime_of_value_def all_regimes_def regime_value_inj)
qed (simp add: regime_of_value_def all_regimes_def)

lemma regime_of_value_inverse: "regime_of_value v = Inr r \<Longrightarrow> regime_value r = v"
  by (auto simp: regime_of_value_def find_Some_iff split: option.splits)

lemma BAD_REGIMES_iff: "regime_value r \<in> set BAD_REGIMES \<longleftrightarrow> is_bad r"
proof (cases r)
  case (Struggling t)
  then show ?thesis by (cases t) (auto simp: BAD_REGIMES_def is_bad_def)
qed (simp add: BAD_REGIMES_def is_bad_def)

lemma analysis_to_regime_bad:
  assumes "identify_regime f c = Inr r"
  shows "is_bad (analysis_to_regime r) \<longleftrightarrow> struggle_detected r"
  using identify_regime_fields(1) [OF assms]
  by (auto simp: analysis_to_regime_def is_bad_def split: option.splits)

subsection \<open>Dwell time is the age of the trailing run\<close>

text \<open>Feeding a tracker a log of (regime, time) readings, and the run it should be measuring.\<close>

definition observe_log :: "(ProcessRegime \<times> time) list \<Rightarrow> dwell_tracker" where
  "observe_log xs = fold (\<lambda>(r, t) d. snd (observe r t d)) xs dwell_init"

definition current_run :: "(ProcessRegime \<times> time) list \<Rightarrow> (ProcessRegime \<times> time) list" where
  "current_run xs = trailing (\<lambda>(r, _). r = fst (last xs)) xs"

lemma current_run_snoc_same:
  "xs \<noteq> [] \<Longrightarrow> fst (last xs) = r \<Longrightarrow> current_run (xs @ [(r, t)]) = current_run xs @ [(r, t)]"
  by (simp add: current_run_def)

lemma current_run_snoc_diff:
  "xs = [] \<or> fst (last xs) \<noteq> r \<Longrightarrow> current_run (xs @ [(r, t)]) = [(r, t)]"
proof (cases xs rule: rev_cases)
  case (snoc ys y)
  assume "xs = [] \<or> fst (last xs) \<noteq> r"
  with snoc show ?thesis by (cases y) (simp add: current_run_def flip: append_assoc)
qed (simp add: current_run_def)

lemma current_run_nonempty: "xs \<noteq> [] \<Longrightarrow> current_run xs \<noteq> []"
  by (cases xs rule: rev_cases) (auto simp: current_run_def)

lemma observe_log_spec:
  "xs \<noteq> [] \<Longrightarrow> observe_log xs = Some (fst (last xs), snd (hd (current_run xs)))"
proof (induction xs rule: rev_induct)
  case Nil
  then show ?case by simp
next
  case (snoc x xs)
  obtain r t where x: "x = (r, t)" by (cases x)
  have step: "observe_log (xs @ [x]) = snd (observe r t (observe_log xs))"
    by (simp add: observe_log_def x)
  show ?case
  proof (cases "xs = [] \<or> fst (last xs) \<noteq> r")
    case True
    moreover have "xs = [] \<Longrightarrow> observe_log xs = None" by (simp add: observe_log_def dwell_init_def)
    ultimately show ?thesis
      using snoc.IH step x current_run_snoc_diff [of xs r t]
      by (cases "xs = []") (auto simp: observe_def)
  next
    case False
    with snoc.IH step x current_run_snoc_same [of xs r t] current_run_nonempty [of xs]
    show ?thesis by (auto simp: observe_def)
  qed
qed

lemma observe_dwell_spec:
  "fst (observe r t (observe_log xs)) = total_seconds (t - snd (hd (current_run (xs @ [(r, t)]))))"
proof (cases "xs = [] \<or> fst (last xs) \<noteq> r")
  case True
  then show ?thesis
    using observe_log_spec [of xs] current_run_snoc_diff [of xs r t]
    by (cases "xs = []") (auto simp: observe_log_def observe_def dwell_init_def)
next
  case False
  then show ?thesis
    using observe_log_spec [of xs] current_run_snoc_same [of xs r t] current_run_nonempty [of xs]
    by (auto simp: observe_def)
qed

subsection \<open>The decision function, gate by gate\<close>

definition dwell_reached :: "la_config \<Rightarrow> real option \<Rightarrow> ProcessRegime \<Rightarrow> real \<Rightarrow> bool" where
  "dwell_reached cfg mrt r dwell \<longleftrightarrow>
     (case mrt of Some t \<Rightarrow> t | None \<Rightarrow> threshold_of (dwell_thresholds cfg) (regime_value r)) \<le> dwell"

definition cooled_down :: "la_config \<Rightarrow> time option \<Rightarrow> time \<Rightarrow> bool" where
  "cooled_down cfg prev now \<longleftrightarrow>
     (case prev of None \<Rightarrow> True | Some l \<Rightarrow> cooldown_period cfg \<le> total_seconds (now - l))"

definition decision_point ::
  "la_config \<Rightarrow> real option \<Rightarrow> ProcessRegime \<Rightarrow> real \<Rightarrow> time option \<Rightarrow> time \<Rightarrow> bool" where
  "decision_point cfg mrt r dwell prev now \<longleftrightarrow>
     is_bad r \<and> dwell_reached cfg mrt r dwell \<and> la_enabled cfg \<and> cooled_down cfg prev now"

definition held_back :: "la_config \<Rightarrow> real option \<Rightarrow> bool" where
  "held_back cfg draw \<longleftrightarrow> (case draw of None \<Rightarrow> False | Some u \<Rightarrow> u < mrt_hold_probability cfg)"

lemmas gate_defs = decision_point_def dwell_reached_def cooled_down_def held_back_def

lemma should_intervene_action:
  "action_of (should_intervene r dwell arm prev cfg now mrt draw) =
     (if \<not> decision_point cfg mrt r dwell prev now then Skip
      else if arm = OPEN \<or> held_back cfg draw then Withhold else Intervene)"
  by (auto simp: should_intervene_def gate_defs Let_def split: option.splits)

lemma should_intervene_skip_iff:
  "action_of (should_intervene r dwell arm prev cfg now mrt draw) = Skip \<longleftrightarrow>
     \<not> decision_point cfg mrt r dwell prev now"
  by (simp add: should_intervene_action)

lemma should_intervene_open:
  "action_of (should_intervene r dwell OPEN prev cfg now mrt draw) \<noteq> Intervene"
  by (simp add: should_intervene_action)

lemma should_intervene_withhold_reason:
  "action_of (should_intervene r dwell arm prev cfg now mrt draw) = Withhold \<Longrightarrow>
     reason (should_intervene r dwell arm prev cfg now mrt draw) =
       (if arm = OPEN then ''open_arm'' else ''mrt_hold'')"
  by (auto simp: should_intervene_def Let_def split: option.splits if_splits)

end
