(* ===== verification/Records.thy ===== *)
theory Records
  imports Control
begin

text \<open>
  The rows the program keeps (\<open>backend/models/research.py\<close>, \<open>audit.py\<close>, \<open>learning.py\<close>,
  \<open>identity.py\<close>, \<open>catalog.py\<close>) and the database as one record of tables.  A table is the list
  of its rows in insertion order.  \<open>created_at\<close> columns and columns only the Auth.js adapter
  reads are left out: nothing modelled reads them.
\<close>

record behavioral_event =
  ev_id :: string
  ev_session_id :: string
  ev_user_id :: string
  ev_lab_slug :: string
  ev_timestamp :: time
  ev_type :: string
  ev_component_id :: "string option"
  ev_component_type :: "string option"
  ev_action :: string
  ev_raw_command :: "string option"
  ev_success :: bool
  ev_severity :: "string option"
  ev_message :: "string option"
  ev_extra_data :: "json option"

record process_state_sample =
  ps_session_id :: string
  ps_user_id :: string
  ps_lab_slug :: string
  ps_ts :: time
  ps_regime :: string
  ps_dwell_seconds :: real

record intervention_decision =
  id_id :: string
  id_session_id :: string
  id_user_id :: string
  id_lab_slug :: string
  id_spell_id :: string
  id_ts :: time
  id_regime :: string
  id_dwell_seconds :: real
  id_t_k_applied :: real
  id_assignment :: string
  id_subsequent_exit_ts :: "time option"
  id_censored :: bool

record grounding_comparison =
  gc_session_id :: string
  gc_grounded_text :: string
  gc_ungrounded_text :: string

record latency_sample =
  cl_session_id :: string
  cl_stage :: string
  cl_duration_ms :: real
  cl_ts :: time

record evidence_snapshot =
  es_session_id :: string
  es_user_id :: string
  es_lab_slug :: string
  es_ts :: time
  es_kind :: string
  es_payload :: "behavioral_event list"

record experiment_metrics =
  em_session_id :: string
  em_user_id :: string
  em_lab_slug :: string
  em_experiment_group :: string
  em_agent_backend :: "string option"
  em_total_time_seconds :: real
  em_steps_completed :: int
  em_total_errors :: int
  em_repeated_errors :: int
  em_unique_error_types :: int
  em_interventions_received :: int
  em_interventions_succeeded :: int
  em_interventions_failed :: int
  em_interventions_accepted :: int
  em_control_arm :: "string option"
  em_base_arm :: "string option"
  em_escalations :: int
  em_would_interventions :: int
  em_l1_interventions :: int
  em_l2_unassisted_pass :: "bool option"
  em_final_score :: real
  em_completed :: bool
  em_completed_at :: "time option"

record mcp_audit =
  au_user_id :: string
  au_session_id :: string
  au_tool :: string
  au_kind :: string
  au_ts :: time
  au_success :: bool
  au_error :: "string option"
  au_consent_ref :: "string option"
  au_lab_slug :: "string option"

record consent =
  co_user_id :: string
  co_scope :: string
  co_decision :: string
  co_policy_version :: string
  co_observe :: bool
  co_act :: bool
  co_granted_at :: time
  co_revoked_at :: "time option"
  co_data_policy :: "string option"

record learning_session =
  ls_id :: string
  ls_user_id :: string
  ls_lab_slug :: string
  ls_status :: string
  ls_started_at :: time
  ls_ended_at :: "time option"
  ls_last_seen_at :: time
  ls_paused_at :: "time option"
  ls_expires_at :: "time option"
  ls_meta :: "(string \<times> string) list"
  ls_model_id :: "string option"
  ls_locale :: string

record lab_progress =
  lp_user_id :: string
  lp_lab_slug :: string
  lp_status :: string
  lp_score :: "real option"
  lp_current_step :: "int option"
  lp_started_at :: "time option"
  lp_completed_at :: "time option"
  lp_updated_at :: time

record step_attempt =
  sa_user_id :: string
  sa_lab_slug :: string
  sa_step_slug :: string
  sa_attempt_number :: int
  sa_result :: string
  sa_score :: "real option"

record check_row =
  cr_kind :: string
  cr_params :: "(string \<times> json) list"
  cr_ok :: bool
  cr_expected :: "(string \<times> json) list"
  cr_actual :: "(string \<times> json) list"
  cr_unobserved :: bool

record step_row =
  sr_id :: string
  sr_title :: string
  sr_ok :: bool
  sr_checks :: "check_row list"

record validation_run =
  vr_id :: string
  vr_session_id :: string
  vr_lab_slug :: string
  vr_status :: string
  vr_steps :: "step_row list"
  vr_started_at :: time
  vr_finished_at :: "time option"

record user =
  us_id :: string
  us_email :: "string option"
  us_name :: "string option"
  us_role :: string
  us_experiment_group :: "string option"
  us_control_arm :: "string option"
  us_is_simulated :: bool
  us_is_active :: bool

record lab =
  lab_slug :: string
  lab_title :: "json option"
  lab_enabled :: bool
  lab_environment :: string
  lab_template :: "string option"
  lab_template_iosvl2 :: "string option"
  lab_template_frr :: "string option"
  lab_skill :: "string option"
  lab_steps :: nat

record db =
  events :: "behavioral_event list"
  samples :: "process_state_sample list"
  decisions :: "intervention_decision list"
  comparisons :: "grounding_comparison list"
  latencies :: "latency_sample list"
  snapshots :: "evidence_snapshot list"
  metrics :: "experiment_metrics list"
  audits :: "mcp_audit list"
  consents :: "consent list"
  sessions :: "learning_session list"
  progress :: "lab_progress list"
  attempts :: "step_attempt list"
  runs :: "validation_run list"
  users :: "user list"
  labs :: "lab list"

definition empty_db :: db where
  "empty_db = \<lparr>events = [], samples = [], decisions = [], comparisons = [], latencies = [],
     snapshots = [], metrics = [], audits = [], consents = [], sessions = [], progress = [],
     attempts = [], runs = [], users = [], labs = []\<rparr>"

text \<open>\<open>UPDATE ... WHERE\<close>: rewrite the rows that match, in place.\<close>

definition update_where :: "('a \<Rightarrow> bool) \<Rightarrow> ('a \<Rightarrow> 'a) \<Rightarrow> 'a list \<Rightarrow> 'a list" where
  "update_where P f rows = map (\<lambda>r. if P r then f r else r) rows"

lemma update_where_length [simp]: "length (update_where P f rows) = length rows"
  by (simp add: update_where_def)

lemma update_where_Nil [simp]: "update_where P f [] = []"
  by (simp add: update_where_def)

lemma update_where_Cons [simp]:
  "update_where P f (r # rows) = (if P r then f r else r) # update_where P f rows"
  by (simp add: update_where_def)

lemma in_set_update_where:
  "r \<in> set (update_where P f rows) \<longleftrightarrow>
     (\<exists>r0 \<in> set rows. r = (if P r0 then f r0 else r0))"
  by (auto simp: update_where_def)

lemma update_where_idem:
  "(\<And>r. P r \<Longrightarrow> \<not> P (f r)) \<Longrightarrow> update_where P f (update_where P f rows) = update_where P f rows"
  by (induction rows) auto

lemma map_update_where:
  "(\<And>r. P r \<Longrightarrow> g (f r) = g r) \<Longrightarrow> map g (update_where P f rows) = map g rows"
  by (induction rows) auto

end
