(* ===== verification/Features.thy ===== *)
theory Features
  imports Records
begin

text \<open>
  The feature extractor (\<open>analytics/runtime/features.py\<close>): every private method of
  \<open>FeatureExtractor\<close> and \<open>compute\<close>.  \<open>sorted(events, key=timestamp)\<close> is the stable
  \<open>sort_key\<close>, \<open>Counter(xs).most_common(1)\<close> is the most frequent element, the first seen on a
  tie, and \<open>math.log2\<close> is \<open>log 2\<close>.
\<close>

subsection \<open>Counters\<close>

text \<open>The keys of a \<open>Counter\<close> in insertion order, and its most common element.\<close>

fun first_occurrences :: "'a list \<Rightarrow> 'a list" where
  "first_occurrences [] = []"
| "first_occurrences (x # xs) = x # filter (\<lambda>y. y \<noteq> x) (first_occurrences xs)"

fun argmax_first :: "('a \<Rightarrow> nat) \<Rightarrow> 'a list \<Rightarrow> 'a option" where
  "argmax_first f [] = None"
| "argmax_first f (x # xs) =
     (case argmax_first f xs of None \<Rightarrow> Some x
      | Some y \<Rightarrow> if f y \<le> f x then Some x else Some y)"

definition most_common :: "'a list \<Rightarrow> 'a option" where
  "most_common xs = argmax_first (count_list xs) (first_occurrences xs)"

lemma set_first_occurrences [simp]: "set (first_occurrences xs) = set xs"
  by (induction xs) auto

lemma distinct_first_occurrences [simp]: "distinct (first_occurrences xs)"
  by (induction xs) auto

lemma length_first_occurrences: "length (first_occurrences xs) = card (set xs)"
  using distinct_card [of "first_occurrences xs"] by simp

lemma argmax_first_None [simp]: "argmax_first f xs = None \<longleftrightarrow> xs = []"
  by (cases xs) (auto split: option.splits)

lemma argmax_first_Some:
  "argmax_first f xs = Some x \<Longrightarrow> x \<in> set xs \<and> (\<forall>y \<in> set xs. f y \<le> f x)"
  by (induction xs arbitrary: x) (fastforce split: option.splits if_splits)+

lemma most_common_None [simp]: "most_common xs = None \<longleftrightarrow> xs = []"
  by (cases xs) (auto simp: most_common_def split: option.splits)

lemma most_common_Some:
  "most_common xs = Some x \<Longrightarrow> x \<in> set xs \<and> (\<forall>y. count_list xs y \<le> count_list xs x)"
  unfolding most_common_def
  by (metis argmax_first_Some count_list_0_iff set_first_occurrences zero_le)

subsection \<open>Feature definitions\<close>

definition OBSERVER_ACTIONS :: "string list" where
  "OBSERVER_ACTIONS = [''check_passed'', ''check_regressed'', ''check_failing'', ''check_retry'']"

definition student_events :: "behavioral_event list \<Rightarrow> behavioral_event list" where
  "student_events es = filter (\<lambda>e. ev_action e \<notin> set OBSERVER_ACTIONS) es"

fun adjacent_gaps :: "behavioral_event list \<Rightarrow> real list" where
  "adjacent_gaps [] = []"
| "adjacent_gaps [e] = []"
| "adjacent_gaps (e # e' # es) =
     \<bar>total_seconds (ev_timestamp e' - ev_timestamp e)\<bar> # adjacent_gaps (e' # es)"

definition inter_action_latencies :: "behavioral_event list \<Rightarrow> time option \<Rightarrow> real list" where
  "inter_action_latencies es now =
     (case now of
        None \<Rightarrow> adjacent_gaps es
      | Some t \<Rightarrow> if es = [] then adjacent_gaps es
          else adjacent_gaps es @ [\<bar>total_seconds (t - ev_timestamp (last es))\<bar>])"

text \<open>
  \<open>int(x)\<close> truncates.  A bucket index is checked as Python checks it: a negative one counts
  from the end, and one before the start raises.
\<close>

definition py_int :: "real \<Rightarrow> int" where
  "py_int x = (if 0 \<le> x then \<lfloor>x\<rfloor> else \<lceil>x\<rceil>)"

definition bump_bucket :: "int \<Rightarrow> nat list \<Rightarrow> py_error + nat list" where
  "bump_bucket i bs =
     (if 0 \<le> i then
        let bs' = bs @ replicate (Suc (nat i) - length bs) 0
        in Inr (bs'[nat i := bs' ! nat i + 1])
      else let j = int (length bs) + i
        in if 0 \<le> j then Inr (bs[nat j := bs ! nat j + 1]) else Inl IndexError)"

definition slope_of :: "nat list \<Rightarrow> real" where
  "slope_of buckets =
     (let n = length buckets;
          index_mean = real (\<Sum>i<n. i) / real n;
          value_mean = real (sum_list buckets) / real n;
          numerator = (\<Sum>i<n. (real i - index_mean) * (real (buckets ! i) - value_mean));
          denominator = (\<Sum>i<n. (real i - index_mean) ^ 2)
      in if denominator \<noteq> 0 then numerator / denominator else 0)"

definition action_rate_slope_of :: "la_config \<Rightarrow> behavioral_event list \<Rightarrow> py_error + real" where
  "action_rate_slope_of cfg es =
     (if length es < 2 then Inr 0
      else
        let start = ev_timestamp (hd es);
            total_span = total_seconds (ev_timestamp (last es) - start);
            w = rate_window_seconds cfg
        in if total_span < w * real_of_int (min_rate_windows cfg) then Inr 0
        else if w = 0 then Inl ZeroDivisionError
        else
          (case fold_err
              (\<lambda>e. bump_bucket (py_int (total_seconds (ev_timestamp e - start) / w))) es [] of
             Inl err \<Rightarrow> Inl err
           | Inr buckets \<Rightarrow>
               Inr (if int (length buckets) < min_rate_windows cfg then 0 else slope_of buckets)))"

text \<open>
  The backwards scan stops at the first event of another component; the step began at the
  event after it.
\<close>

fun step_start :: "string option \<Rightarrow> time \<Rightarrow> behavioral_event list \<Rightarrow> time" where
  "step_start c t [] = t"
| "step_start c t (e # es) =
     (if ev_component_id e \<noteq> c then t else step_start c (ev_timestamp e) es)"

definition time_on_current_step_of :: "behavioral_event list \<Rightarrow> time \<Rightarrow> real" where
  "time_on_current_step_of es now =
     (case rev es of
        [] \<Rightarrow> 0
      | e # older \<Rightarrow>
          total_seconds (now - step_start (ev_component_id e) (ev_timestamp e) older))"

text \<open>
  \<open>_current_error_run\<close> over the reversed list.  \<open>last_message\<close> starts as \<open>None\<close> and is
  compared with \<open>is None\<close>, so a leading error without a message restarts the run at one.
\<close>

fun error_run :: "nat \<Rightarrow> string option \<Rightarrow> behavioral_event list \<Rightarrow> nat" where
  "error_run run msg [] = run"
| "error_run run msg (e # es) =
     (if ev_action e = ''check_passed'' then run
      else if ev_type e \<noteq> ''error'' then error_run run msg es
      else if msg = None then error_run 1 (ev_message e) es
      else if ev_message e = msg then error_run (run + 1) msg es
      else run)"

definition current_error_run :: "behavioral_event list \<Rightarrow> nat" where
  "current_error_run es =
     (let run = error_run 0 None (rev es) in if 2 \<le> run then run else 0)"

definition action_entropy :: "behavioral_event list \<Rightarrow> real" where
  "action_entropy es =
     (let names = map ev_action es in
      if names = [] then 0
      else
        let keys = first_occurrences names;
            total = real (length names);
            entropy = - (\<Sum>k\<leftarrow>keys. real (count_list names k) / total *
                            log 2 (real (count_list names k) / total));
            max_entropy = (if 1 < length keys then log 2 (real (length keys)) else 1)
        in if 0 < max_entropy then entropy / max_entropy else 0)"

fun undo_redo_cycles :: "behavioral_event list \<Rightarrow> nat" where
  "undo_redo_cycles (a # b # c # es) =
     (if ev_component_id c = ev_component_id a \<and> ev_action c = ev_action a \<and>
         ev_action c \<noteq> ev_action b then 1 else 0) + undo_redo_cycles (b # c # es)"
| "undo_redo_cycles _ = 0"

definition undo_redo_ratio_of :: "behavioral_event list \<Rightarrow> real" where
  "undo_redo_ratio_of es =
     (if length es < 3 then 0 else real (undo_redo_cycles es) / real (length es))"

definition error_frequency_of ::
  "la_config \<Rightarrow> behavioral_event list \<Rightarrow> behavioral_event list \<Rightarrow> py_error + real" where
  "error_frequency_of cfg errors all =
     (if errors = [] \<or> all = [] then Inr 0
      else
        let session_end = ev_timestamp (last all);
            session_start = ev_timestamp (hd all);
            duration_minutes = max (total_seconds (session_end - session_start) / 60) (1 / 10);
            window_minutes = min (error_freq_window_minutes cfg) duration_minutes;
            window_cutoff = total_seconds session_end - window_minutes * 60;
            recent = count_if (\<lambda>e. window_cutoff \<le> total_seconds (ev_timestamp e)) errors
        in if window_minutes = 0 then Inl ZeroDivisionError
           else Inr (real recent / window_minutes))"

definition error_frequency_slope_of :: "behavioral_event list \<Rightarrow> real" where
  "error_frequency_slope_of errors =
     (if length errors < 4 then 0
      else
        let midpoint = length errors div 2;
            first_half = take midpoint errors;
            second_half = drop midpoint errors;
            first_span = max (total_seconds
              (ev_timestamp (last first_half) - ev_timestamp (hd first_half))) 1;
            second_span = max (total_seconds
              (ev_timestamp (last second_half) - ev_timestamp (hd second_half))) 1
        in real (length second_half) / second_span - real (length first_half) / first_span)"

definition actual_of :: "behavioral_event \<Rightarrow> json" where
  "actual_of e = (case ev_extra_data e of
     Some (JObj d) \<Rightarrow> (case map_of d ''actual'' of Some v \<Rightarrow> v | None \<Rightarrow> JNull)
   | _ \<Rightarrow> JNull)"

text \<open>\<open>json.dumps(v, sort_keys=True)\<close> identifies objects that differ in key order only.\<close>

fun sort_keys :: "json \<Rightarrow> json" where
  "sort_keys (JList vs) = JList (map sort_keys vs)"
| "sort_keys (JObj kvs) = JObj (sort_key fst
     (map (\<lambda>kv. (fst kv, sort_keys (snd kv))) kvs))"
| "sort_keys v = v"

definition distinct_failing_actuals_of :: "behavioral_event list \<Rightarrow> nat" where
  "distinct_failing_actuals_of es =
     (let failing = filter (\<lambda>e. ev_action e \<in> {''check_failing'', ''check_retry''}) es;
          cids = map ev_component_id (filter (\<lambda>e. truthy (ev_component_id e)) failing)
      in case most_common cids of
           None \<Rightarrow> 0
         | Some cid \<Rightarrow> card (set (map (\<lambda>e. sort_keys (actual_of e))
                          (filter (\<lambda>e. ev_component_id e = cid) failing))))"

text \<open>\<open>ref_cid is None\<close> also holds while the run so far has events without a component.\<close>

fun failing_run :: "nat \<Rightarrow> string option \<Rightarrow> behavioral_event list \<Rightarrow> nat" where
  "failing_run run cid [] = run"
| "failing_run run cid (e # es) =
     (if ev_action e \<noteq> ''check_failing'' then run
      else if cid = None then failing_run (run + 1) (ev_component_id e) es
      else if ev_component_id e \<noteq> cid then run
      else failing_run (run + 1) cid es)"

definition cycles_failing_unchanged_of :: "behavioral_event list \<Rightarrow> nat" where
  "cycles_failing_unchanged_of es = failing_run 0 None (rev es)"

definition dominant_error_of :: "behavioral_event list \<Rightarrow> string option" where
  "dominant_error_of errors =
     (case most_common (map ev_message (filter (\<lambda>e. truthy (ev_message e)) errors)) of
        None \<Rightarrow> None | Some m \<Rightarrow> m)"

definition empty_features :: "string \<Rightarrow> time \<Rightarrow> session_features" where
  "empty_features sid now = \<lparr>
     avg_inter_action_latency = 0, action_rate_slope = 0, idle_periods = 0,
     total_active_time = 0, time_on_current_step = 0, error_repeat_count = 0,
     error_repeat_rate = 0, action_sequence_entropy = 0, undo_redo_ratio = 0,
     error_frequency = 0, error_frequency_slope = 0, unique_error_types = 0,
     dominant_error = None, components_touched = 0, action_diversity = 0, events_total = 0,
     distinct_failing_actuals = 0, cycles_failing_unchanged = 0, sf_session_id = sid,
     computed_at = now\<rparr>"

definition features_of ::
  "la_config \<Rightarrow> time \<Rightarrow> string \<Rightarrow> behavioral_event list \<Rightarrow> real \<Rightarrow> real \<Rightarrow> session_features" where
  "features_of cfg now sid evs rate_slope err_freq =
     (let actions = filter (\<lambda>e. ev_type e = ''action'') evs;
          errors = filter (\<lambda>e. ev_type e = ''error'') evs;
          latencies = inter_action_latencies (student_events evs) (Some now);
          idle_gap = idle_gap_seconds cfg;
          max_consec = current_error_run evs
      in \<lparr>
        avg_inter_action_latency = py_round 2
          (if latencies \<noteq> [] then sum_list latencies / real (length latencies) else 0),
        action_rate_slope = py_round 4 rate_slope,
        idle_periods = int (count_if (\<lambda>d. idle_gap < d) latencies),
        total_active_time = py_round 2 (sum_list (filter (\<lambda>d. d \<le> idle_gap) latencies)),
        time_on_current_step = py_round 2 (time_on_current_step_of evs now),
        error_repeat_count = int max_consec,
        error_repeat_rate = py_round 4
          (if errors \<noteq> [] then real max_consec / real (length errors) else 0),
        action_sequence_entropy = py_round 4 (action_entropy evs),
        undo_redo_ratio = py_round 4 (undo_redo_ratio_of actions),
        error_frequency = py_round 4 err_freq,
        error_frequency_slope = py_round 4 (error_frequency_slope_of errors),
        unique_error_types =
          int (card (set (map ev_message (filter (\<lambda>e. truthy (ev_message e)) errors)))),
        dominant_error = dominant_error_of errors,
        components_touched =
          int (card (set (map ev_component_id (filter (\<lambda>e. truthy (ev_component_id e)) evs)))),
        action_diversity = py_round 4
          (real (card (set (map ev_action evs))) / real (length evs)),
        events_total = int (length evs),
        distinct_failing_actuals = int (distinct_failing_actuals_of evs),
        cycles_failing_unchanged = int (cycles_failing_unchanged_of evs),
        sf_session_id = sid,
        computed_at = now\<rparr>)"

definition compute ::
  "la_config \<Rightarrow> time \<Rightarrow> string \<Rightarrow> behavioral_event list \<Rightarrow> py_error + session_features" where
  "compute cfg now sid es =
     (if es = [] then Inr (empty_features sid now)
      else
        let evs = sort_key ev_timestamp es
        in case action_rate_slope_of cfg evs of
             Inl err \<Rightarrow> Inl err
           | Inr rate_slope \<Rightarrow>
               (case error_frequency_of cfg (filter (\<lambda>e. ev_type e = ''error'') evs) evs of
                  Inl err \<Rightarrow> Inl err
                | Inr err_freq \<Rightarrow> Inr (features_of cfg now sid evs rate_slope err_freq)))"

subsection \<open>The extractor never raises on positive windows\<close>

definition windows_positive :: "la_config \<Rightarrow> bool" where
  "windows_positive cfg \<longleftrightarrow> 0 < rate_window_seconds cfg \<and> 0 < error_freq_window_minutes cfg"

lemma action_rate_slope_total:
  assumes "sorted (map ev_timestamp es)" and "0 < rate_window_seconds cfg"
  shows "\<exists>x. action_rate_slope_of cfg es = Inr x"
proof -
  let ?f = "\<lambda>e. bump_bucket (py_int
      (total_seconds (ev_timestamp e - ev_timestamp (hd es)) / rate_window_seconds cfg))"
  have ge: "ev_timestamp (hd es) \<le> ev_timestamp e" if "e \<in> set es" for e
    using assms(1) that by (cases es) auto
  have "\<exists>bs. fold_err ?f es [] = Inr bs \<and> True"
  proof (rule fold_err_inv)
    fix e bs assume "e \<in> set es"
    then have "0 \<le> total_seconds (ev_timestamp e - ev_timestamp (hd es)) / rate_window_seconds cfg"
      using ge [of e] assms(2) by simp
    then show "\<exists>bs'. ?f e bs = Inr bs' \<and> True"
      by (simp add: bump_bucket_def py_int_def Let_def)
  qed simp
  with assms(2) show ?thesis
    by (auto simp: action_rate_slope_of_def Let_def split: sum.splits)
qed

lemma error_frequency_total:
  "0 < error_freq_window_minutes cfg \<Longrightarrow> \<exists>x. error_frequency_of cfg errors all = Inr x"
  by (auto simp: error_frequency_of_def Let_def min_def max_def)

lemma compute_total:
  assumes "windows_positive cfg"
  shows "\<exists>f. compute cfg now sid es = Inr f"
proof -
  have "sorted (map ev_timestamp (sort_key ev_timestamp es))" by simp
  with assms obtain x where "action_rate_slope_of cfg (sort_key ev_timestamp es) = Inr x"
    unfolding windows_positive_def using action_rate_slope_total by blast
  moreover obtain y where "error_frequency_of cfg
      (filter (\<lambda>e. ev_type e = ''error'') (sort_key ev_timestamp es)) (sort_key ev_timestamp es) = Inr y"
    using assms error_frequency_total unfolding windows_positive_def by blast
  ultimately show ?thesis by (simp add: compute_def Let_def)
qed

end
