(* ===== verification/Feature_Facts.thy ===== *)
theory Feature_Facts
  imports Features
begin

text \<open>
  What the feature vector means: ranges, the current error run as a run of the log, ongoing
  silence as an idle period, and independence of the order rows arrive in.
\<close>

subsection \<open>The current error run\<close>

text \<open>Messages of the errors after the last passed check, newest first.\<close>

definition open_error_messages :: "behavioral_event list \<Rightarrow> string option list" where
  "open_error_messages newest_first =
     map ev_message (filter (\<lambda>e. ev_type e = ''error'')
       (takeWhile (\<lambda>e. ev_action e \<noteq> ''check_passed'') newest_first))"

definition equal_run :: "string option list \<Rightarrow> nat" where
  "equal_run ms =
     (case dropWhile (\<lambda>m. m = None) ms of
        [] \<Rightarrow> if ms = [] then 0 else 1
      | m # rest \<Rightarrow> Suc (length (takeWhile (\<lambda>x. x = m) rest)))"

lemma error_run_Some:
  "error_run n (Some m) es = n + length (takeWhile (\<lambda>x. x = Some m) (open_error_messages es))"
  by (induction es arbitrary: n) (auto simp: open_error_messages_def)

lemma error_run_None:
  "error_run n None es =
     (if open_error_messages es = [] then n else equal_run (open_error_messages es))"
proof (induction es arbitrary: n)
  case Nil
  then show ?case by (simp add: open_error_messages_def)
next
  case (Cons e es)
  show ?case
  proof (cases "ev_action e = ''check_passed'' \<or> ev_type e \<noteq> ''error''")
    case True
    with Cons.IH show ?thesis by (auto simp: open_error_messages_def)
  next
    case False
    then have m: "open_error_messages (e # es) = ev_message e # open_error_messages es"
      by (simp add: open_error_messages_def)
    show ?thesis
    proof (cases "ev_message e")
      case None
      with m False Cons.IH show ?thesis
        by (auto simp: equal_run_def split: list.splits)
    next
      case (Some t)
      with m False show ?thesis by (simp add: error_run_Some equal_run_def)
    qed
  qed
qed

lemma current_error_run_spec:
  "current_error_run es =
     (let n = equal_run (open_error_messages (rev es)) in if 2 \<le> n then n else 0)"
  by (auto simp: current_error_run_def error_run_None Let_def equal_run_def)

lemma equal_run_le: "equal_run ms \<le> length ms"
proof -
  have "length (dropWhile (\<lambda>m. m = None) ms) \<le> length ms" by (rule length_dropWhile_le)
  moreover have "length (takeWhile P xs) \<le> length xs" for P and xs :: "string option list"
    by (rule length_takeWhile_le)
  ultimately show ?thesis
    by (cases ms) (auto simp: equal_run_def split: list.splits,
        metis (no_types) le_trans length_Cons not_less_eq_eq)
qed

lemma current_error_run_le:
  "current_error_run es \<le> length (filter (\<lambda>e. ev_type e = ''error'') es)"
proof -
  let ?p = "\<lambda>e. ev_type e = ''error''"
  have "length (filter ?p (takeWhile Q xs)) \<le> length (filter ?p xs)" for Q and xs
    by (induction xs) auto
  from this [of "\<lambda>e. ev_action e \<noteq> ''check_passed''" "rev es"]
  have "length (open_error_messages (rev es)) \<le> length (filter ?p es)"
    by (simp add: open_error_messages_def rev_filter [symmetric])
  with equal_run_le [of "open_error_messages (rev es)"] show ?thesis
    by (simp add: current_error_run_spec Let_def)
qed

lemma current_error_run_passed:
  "ev_action e = ''check_passed'' \<Longrightarrow> current_error_run (es @ [e]) = 0"
  by (simp add: current_error_run_def)

subsection \<open>Normalised entropy lies between zero and one\<close>

lemma sum_counts: "(\<Sum>k\<leftarrow>first_occurrences xs. real (count_list xs k)) = real (length xs)"
proof -
  have "(\<Sum>k\<leftarrow>first_occurrences xs. real (count_list xs k)) = (\<Sum>k\<in>set xs. real (count_list xs k))"
    by (simp add: sum_list_distinct_conv_sum_set)
  also have "\<dots> = real (\<Sum>k\<in>set xs. count_list xs k)" by simp
  also have "(\<Sum>k\<in>set xs. count_list xs k) = length xs"
    by (rule sum_count_set) auto
  finally show ?thesis .
qed

lemma entropy_terms:
  assumes "x \<in> set xs"
  shows "0 < real (count_list xs x) / real (length xs)"
    and "real (count_list xs x) / real (length xs) \<le> 1"
proof -
  from assms have "count_list xs x \<noteq> 0" "length xs \<noteq> 0"
    by (auto simp: count_list_0_iff)
  then show "0 < real (count_list xs x) / real (length xs)" by simp
  have "count_list xs x \<le> length xs" by (rule count_le_length)
  then show "real (count_list xs x) / real (length xs) \<le> 1"
    by (simp add: divide_le_eq_1)
qed

definition shannon :: "'a list \<Rightarrow> real" where
  "shannon xs = - (\<Sum>k\<leftarrow>first_occurrences xs. real (count_list xs k) / real (length xs) *
                     log 2 (real (count_list xs k) / real (length xs)))"

lemma shannon_nonneg: "0 \<le> shannon xs"
proof -
  have "(\<Sum>k\<leftarrow>first_occurrences xs. real (count_list xs k) / real (length xs) *
           log 2 (real (count_list xs k) / real (length xs))) \<le> 0"
  proof (rule sum_list_nonpos)
    fix x
    assume "x \<in> set (map (\<lambda>k. real (count_list xs k) / real (length xs) *
           log 2 (real (count_list xs k) / real (length xs))) (first_occurrences xs))"
    then obtain k where k: "k \<in> set xs" and x: "x = real (count_list xs k) / real (length xs) *
           log 2 (real (count_list xs k) / real (length xs))" by auto
    from entropy_terms [OF k] show "x \<le> 0"
      unfolding x by (intro mult_nonneg_nonpos) auto
  qed
  then show ?thesis by (simp add: shannon_def)
qed

lemma gibbs_term:
  fixes p n :: real
  assumes "0 < p" "0 < n"
  shows "- (p * ln p) - p * ln n \<le> 1 / n - p"
proof -
  have "ln (1 / (p * n)) \<le> 1 / (p * n) - 1"
    using assms by (intro ln_le_minus_one) simp
  moreover have "ln (1 / (p * n)) = - ln p - ln n"
    using assms by (simp add: ln_div ln_mult)
  ultimately have "p * (- ln p - ln n) \<le> p * (1 / (p * n) - 1)"
    using assms by (intro mult_left_mono) auto
  also have "\<dots> = 1 / n - p" using assms by (simp add: field_simps)
  finally show ?thesis by (simp add: algebra_simps)
qed

lemma shannon_le:
  assumes "xs \<noteq> []"
  shows "shannon xs \<le> log 2 (real (card (set xs)))"
proof -
  let ?p = "\<lambda>k. real (count_list xs k) / real (length xs)"
  let ?n = "real (card (set xs))"
  have n: "0 < ?n" using assms by (simp add: card_gt_0_iff)
  have tot: "(\<Sum>k\<in>set xs. ?p k) = 1"
  proof -
    have "(\<Sum>k\<in>set xs. ?p k) = (\<Sum>k\<in>set xs. real (count_list xs k)) / real (length xs)"
      by (simp add: sum_divide_distrib)
    also have "(\<Sum>k\<in>set xs. real (count_list xs k)) = real (length xs)"
      using sum_counts [of xs] by (simp add: sum_list_distinct_conv_sum_set)
    finally show ?thesis using assms by simp
  qed
  have each: "- (?p k * ln (?p k)) - ?p k * ln ?n \<le> 1 / ?n - ?p k" if "k \<in> set xs" for k
    by (rule gibbs_term [OF entropy_terms(1) [OF that] n])
  have "(\<Sum>k\<in>set xs. - (?p k * ln (?p k)) - ?p k * ln ?n) \<le> (\<Sum>k\<in>set xs. 1 / ?n - ?p k)"
    by (rule sum_mono) (rule each)
  also have "\<dots> = 0" using tot n assms by (simp add: sum_subtractf)
  finally have "(\<Sum>k\<in>set xs. - (?p k * ln (?p k))) \<le> (\<Sum>k\<in>set xs. ?p k * ln ?n)"
    by (simp add: sum_subtractf)
  also have "\<dots> = (\<Sum>k\<in>set xs. ?p k) * ln ?n" by (rule sum_distrib_right [symmetric])
  also have "\<dots> = ln ?n" by (simp only: tot mult_1)
  finally have "(\<Sum>k\<in>set xs. - (?p k * ln (?p k))) / ln 2 \<le> ln ?n / ln 2"
    by (intro divide_right_mono) auto
  moreover have "shannon xs = (\<Sum>k\<in>set xs. - (?p k * ln (?p k))) / ln 2"
    by (simp add: shannon_def sum_list_distinct_conv_sum_set log_def sum_divide_distrib
        sum_negf [symmetric])
  ultimately show ?thesis by (simp add: log_def)
qed

lemma action_entropy_shannon:
  "action_entropy es =
     (let xs = map ev_action es; m = card (set xs)
      in if xs = [] then 0 else if 1 < m then shannon xs / log 2 (real m) else shannon xs)"
  by (auto simp: action_entropy_def shannon_def Let_def length_first_occurrences)

lemma action_entropy_bounds: "0 \<le> action_entropy es \<and> action_entropy es \<le> 1"
proof (cases "map ev_action es = []")
  case True
  then show ?thesis by (simp add: action_entropy_def)
next
  case False
  let ?xs = "map ev_action es"
  let ?m = "card (set ?xs)"
  have le: "shannon ?xs \<le> log 2 (real ?m)" by (rule shannon_le [OF False])
  show ?thesis
  proof (cases "1 < ?m")
    case True
    then have "0 < log 2 (real ?m)" by simp
    with True False le shannon_nonneg [of ?xs] show ?thesis
      by (simp add: action_entropy_shannon Let_def divide_le_eq)
  next
    case c: False
    have "0 < ?m" using False by (simp add: card_gt_0_iff)
    with c have "?m = 1" by linarith
    with False le shannon_nonneg [of ?xs] show ?thesis
      by (simp add: action_entropy_shannon Let_def)
  qed
qed

subsection \<open>The vector is well formed\<close>

lemma features_of_wf: "features_wf (features_of cfg now sid evs slope freq)"
proof -
  let ?errs = "filter (\<lambda>e. ev_type e = ''error'') evs"
  have "real (current_error_run evs) / real (length ?errs) \<le> 1" if "?errs \<noteq> []"
    using current_error_run_le [of evs] that by (simp add: divide_le_eq_1)
  then have "0 \<le> py_round 4 (if ?errs \<noteq> [] then real (current_error_run evs) / real (length ?errs) else 0)"
    "py_round 4 (if ?errs \<noteq> [] then real (current_error_run evs) / real (length ?errs) else 0) \<le> 1"
    by (auto intro!: py_round_nonneg py_round_le_1 simp del: filter_False)
  moreover have "0 \<le> py_round 4 (action_entropy evs)"
    using action_entropy_bounds by (intro py_round_nonneg) auto
  ultimately show ?thesis by (simp add: features_wf_def features_of_def Let_def)
qed

lemma empty_features_wf: "features_wf (empty_features sid now)"
  by (simp add: features_wf_def empty_features_def)

lemma compute_wf: "compute cfg now sid es = Inr f \<Longrightarrow> features_wf f"
  by (auto simp: compute_def Let_def features_of_wf empty_features_wf split: if_splits sum.splits)

subsection \<open>Row order does not matter\<close>

lemma sort_key_perm:
  fixes f :: "'a \<Rightarrow> 'b :: linorder"
  assumes "mset xs = mset ys" and "inj_on f (set xs)"
  shows "sort_key f xs = sort_key f ys"
  by (rule sort_key_inj_key_eq) (use assms in auto)

lemma compute_perm:
  assumes "mset es = mset es'" and "inj_on ev_timestamp (set es)"
  shows "compute cfg now sid es = compute cfg now sid es'"
proof -
  have "sort_key ev_timestamp es = sort_key ev_timestamp es'"
    by (rule sort_key_perm [OF assms])
  moreover have "es = [] \<longleftrightarrow> es' = []" using assms(1) by auto
  ultimately show ?thesis by (simp add: compute_def)
qed

subsection \<open>Silence becomes an idle period\<close>

definition is_student :: "behavioral_event \<Rightarrow> bool" where
  "is_student e \<longleftrightarrow> ev_action e \<notin> set OBSERVER_ACTIONS"

lemma features_idle_silence:
  assumes "\<exists>e \<in> set evs. is_student e"
    and "\<forall>e \<in> set evs. is_student e \<longrightarrow> idle_gap_seconds cfg < total_seconds (now - ev_timestamp e)"
  shows "1 \<le> idle_periods (features_of cfg now sid evs slope freq)"
proof -
  let ?s = "student_events evs"
  have ne: "?s \<noteq> []" using assms(1) by (auto simp: student_events_def is_student_def filter_empty_conv)
  then have "last ?s \<in> set ?s" by simp
  with assms(2) have "idle_gap_seconds cfg < total_seconds (now - ev_timestamp (last ?s))"
    unfolding student_events_def is_student_def by auto
  then have "idle_gap_seconds cfg < \<bar>total_seconds (now - ev_timestamp (last ?s))\<bar>"
    by linarith
  with ne show ?thesis
    by (simp add: features_of_def inter_action_latencies_def Let_def)
qed

lemma compute_silence:
  assumes "compute cfg now sid es = Inr f"
    and "\<exists>e \<in> set es. is_student e"
    and "\<forall>e \<in> set es. is_student e \<longrightarrow> idle_gap_seconds cfg < total_seconds (now - ev_timestamp e)"
  shows "1 \<le> idle_periods f"
  using assms
  by (auto simp: compute_def Let_def split: if_splits sum.splits
      intro!: features_idle_silence)

text \<open>The observer's own events change neither the latencies nor the idle count.\<close>

lemma filter_sort_key: "filter P (sort_key f xs) = sort_key f (filter P xs)"
  by (simp add: filter_sort)

lemma features_heartbeat:
  assumes "compute cfg now sid es = Inr f" and "compute cfg now sid (student_events es) = Inr g"
    and "student_events es \<noteq> []"
  shows "idle_periods f = idle_periods g \<and> total_active_time f = total_active_time g \<and>
     avg_inter_action_latency f = avg_inter_action_latency g"
proof -
  have ne: "es \<noteq> []" using assms(3) by (auto simp: student_events_def)
  have "student_events (sort_key ev_timestamp (student_events es)) =
      student_events (sort_key ev_timestamp es)"
    by (simp add: student_events_def filter_sort_key)
  with assms ne show ?thesis
    by (auto simp: compute_def features_of_def Let_def split: sum.splits)
qed

end
