(* ===== verification/Governance.thy ===== *)
theory Governance
  imports Records
begin

text \<open>
  The governed seam (\<open>backend/consent/\<close>): the default-deny tool registry, consent rows and their
  queries, the append-only audit, and \<open>ControlInterface\<close> with its gates.  The database is
  always available here: a failing audit insert is not modelled.  The MCP client is the
  parameter \<open>mcp\<close>: what a tool call returns, or the name of the exception it raises.
\<close>

subsection \<open>Tool registry\<close>

datatype ToolKind = OBSERVE | ACT

definition REGISTRY :: "(string \<times> ToolKind) list" where
  "REGISTRY = [(''list_components'', OBSERVE), (''get_component'', OBSERVE),
     (''list_errors'', OBSERVE), (''get_logs'', OBSERVE), (''list_user_actions'', OBSERVE),
     (''execute_action'', ACT), (''intervention'', ACT)]"

definition classify :: "string \<Rightarrow> ToolKind option" where
  "classify tool = map_of REGISTRY tool"

subsection \<open>Consent\<close>

definition CURRENT_POLICY_VERSION :: string where
  "CURRENT_POLICY_VERSION = ''1''"

definition covers :: "ToolKind \<Rightarrow> consent \<Rightarrow> bool" where
  "covers kind c \<longleftrightarrow> co_scope c = ''study'' \<or>
     (co_scope c = ''product'' \<and> (if kind = OBSERVE then co_observe c else co_act c))"

definition has_consent :: "db \<Rightarrow> string \<Rightarrow> ToolKind \<Rightarrow> bool" where
  "has_consent d user_id kind =
     list_ex (\<lambda>c. co_user_id c = user_id \<and> co_revoked_at c = None \<and> co_decision c = ''granted'' \<and>
       covers kind c) (consents d)"

text \<open>\<open>ORDER BY granted_at DESC LIMIT 1\<close>.\<close>

definition newest_first :: "consent list \<Rightarrow> consent list" where
  "newest_first cs = sort_key (\<lambda>c. - co_granted_at c) cs"

definition study_decision :: "db \<Rightarrow> string \<Rightarrow> string option" where
  "study_decision d user_id =
     (case newest_first (filter (\<lambda>c. co_user_id c = user_id \<and> co_scope c = ''study'' \<and>
              co_policy_version c = CURRENT_POLICY_VERSION \<and> co_revoked_at c = None) (consents d)) of
        [] \<Rightarrow> None | c # _ \<Rightarrow> Some (co_decision c))"

definition may_collect :: "db \<Rightarrow> string \<Rightarrow> bool" where
  "may_collect d user_id \<longleftrightarrow> study_decision d user_id = Some ''granted''"

definition record_consent ::
  "time \<Rightarrow> string \<Rightarrow> string \<Rightarrow> bool \<Rightarrow> bool \<Rightarrow> string option \<Rightarrow> string \<Rightarrow> string \<Rightarrow> db \<Rightarrow> db" where
  "record_consent now user_id scope obs ac data_policy decision policy_version d =
     d\<lparr>consents := consents d @ [\<lparr>co_user_id = user_id, co_scope = scope, co_decision = decision,
        co_policy_version = policy_version, co_observe = (obs \<and> decision = ''granted''),
        co_act = (ac \<and> decision = ''granted''), co_granted_at = now, co_revoked_at = None,
        co_data_policy = data_policy\<rparr>]\<rparr>"

definition grant ::
  "time \<Rightarrow> string \<Rightarrow> string \<Rightarrow> bool \<Rightarrow> bool \<Rightarrow> string option \<Rightarrow> db \<Rightarrow> db" where
  "grant now user_id scope obs ac data_policy d =
     record_consent now user_id scope obs ac data_policy ''granted'' CURRENT_POLICY_VERSION d"

definition revocable :: "string \<Rightarrow> string \<Rightarrow> consent \<Rightarrow> bool" where
  "revocable user_id scope c \<longleftrightarrow>
     co_user_id c = user_id \<and> co_scope c = scope \<and> co_revoked_at c = None"

definition revoke :: "time \<Rightarrow> string \<Rightarrow> string \<Rightarrow> db \<Rightarrow> nat \<times> db" where
  "revoke now user_id scope d =
     (count_if (revocable user_id scope) (consents d),
      d\<lparr>consents := update_where (revocable user_id scope)
          (\<lambda>c. c\<lparr>co_revoked_at := Some now\<rparr>) (consents d)\<rparr>)"

definition list_active :: "db \<Rightarrow> string \<Rightarrow> consent list" where
  "list_active d user_id =
     newest_first (filter (\<lambda>c. co_user_id c = user_id \<and> co_revoked_at c = None) (consents d))"

text \<open>\<open>POST /users/me/consent\<close>: the current policy version is stamped on the answer.\<close>

definition grant_consent ::
  "time \<Rightarrow> string \<Rightarrow> string \<Rightarrow> bool \<Rightarrow> bool \<Rightarrow> string option \<Rightarrow> string \<Rightarrow> db \<Rightarrow> db" where
  "grant_consent now user_id scope obs ac data_policy decision d =
     record_consent now user_id scope obs ac data_policy decision CURRENT_POLICY_VERSION d"

subsection \<open>Owner guard and audit\<close>

definition get_owned_session :: "db \<Rightarrow> string \<Rightarrow> string \<Rightarrow> learning_session option" where
  "get_owned_session d session_id user_id =
     find (\<lambda>s. ls_id s = session_id \<and> ls_user_id s = user_id) (sessions d)"

definition audit_record ::
  "time \<Rightarrow> string \<Rightarrow> string \<Rightarrow> string \<Rightarrow> string \<Rightarrow> bool \<Rightarrow> string option \<Rightarrow> string option \<Rightarrow> db \<Rightarrow> db"
  where
  "audit_record now user_id session_id tool kind success error lab d =
     d\<lparr>audits := audits d @ [\<lparr>au_user_id = user_id, au_session_id = session_id, au_tool = tool,
        au_kind = kind, au_ts = now, au_success = success, au_error = error,
        au_consent_ref = None, au_lab_slug = lab\<rparr>]\<rparr>"

subsection \<open>ControlInterface\<close>

text \<open>
  \<open>Denied reason\<close> is \<open>InterfaceDenied(reason)\<close>; \<open>Raised\<close> carries the type name of the
  exception the MCP call raised.  \<open>act_stamps\<close> is \<open>_last_act_ts\<close>.
\<close>

datatype 'r outcome = Denied string | Raised string | Returned 'r

type_synonym act_stamps = "string \<rightharpoonup> time"

definition seam_observe ::
  "(string \<Rightarrow> 'a \<Rightarrow> string + 'r) \<Rightarrow> time \<Rightarrow> string \<Rightarrow> 'a \<Rightarrow> string \<Rightarrow> string \<Rightarrow> string option \<Rightarrow> db \<Rightarrow>
   'r outcome \<times> db" where
  "seam_observe mcp now tool args user_id session_id lab d =
     (if classify tool \<noteq> Some OBSERVE
      then (Denied ''unclassified'',
            audit_record now user_id session_id tool ''observe'' False (Some ''unclassified'') lab d)
      else if get_owned_session d session_id user_id = None
      then (Denied ''isolation'',
            audit_record now user_id session_id tool ''observe'' False (Some ''isolation'') lab d)
      else if \<not> has_consent d user_id OBSERVE
      then (Denied ''consent'',
            audit_record now user_id session_id tool ''observe'' False (Some ''consent'') lab d)
      else (case mcp tool args of
              Inl exc \<Rightarrow> (Raised exc,
                audit_record now user_id session_id tool ''observe'' False (Some exc) lab d)
            | Inr r \<Rightarrow> (Returned r,
                audit_record now user_id session_id tool ''observe'' True None lab d)))"

definition rate_limited :: "la_config \<Rightarrow> time \<Rightarrow> string \<Rightarrow> act_stamps \<Rightarrow> bool" where
  "rate_limited cfg now session_id acts =
     (case acts session_id of None \<Rightarrow> False
      | Some l \<Rightarrow> total_seconds (now - l) < cooldown_period cfg)"

definition act_denial ::
  "la_config \<Rightarrow> time \<Rightarrow> string \<Rightarrow> string \<Rightarrow> string \<Rightarrow> ControlArm \<Rightarrow> act_stamps \<Rightarrow> db \<Rightarrow> string option" where
  "act_denial cfg now tool user_id session_id arm acts d =
     (if classify tool \<noteq> Some ACT then Some ''unclassified''
      else if get_owned_session d session_id user_id = None then Some ''isolation''
      else if \<not> has_consent d user_id ACT then Some ''consent''
      else if arm = OPEN then Some ''open_arm''
      else if rate_limited cfg now session_id acts then Some ''rate''
      else None)"

definition authorize_act ::
  "la_config \<Rightarrow> time \<Rightarrow> string \<Rightarrow> string \<Rightarrow> string \<Rightarrow> ControlArm \<Rightarrow> string option \<Rightarrow>
   act_stamps \<times> db \<Rightarrow> string option \<times> (act_stamps \<times> db)" where
  "authorize_act cfg now tool user_id session_id arm lab st =
     (case act_denial cfg now tool user_id session_id arm (fst st) (snd st) of
        Some why \<Rightarrow> (Some why, fst st,
          audit_record now user_id session_id tool ''act'' False (Some why) lab (snd st))
      | None \<Rightarrow> (None, st))"

definition record_act ::
  "time \<Rightarrow> string \<Rightarrow> string \<Rightarrow> string \<Rightarrow> bool \<Rightarrow> string option \<Rightarrow> act_stamps \<times> db \<Rightarrow> act_stamps \<times> db" where
  "record_act now tool user_id session_id success lab st =
     ((fst st)(session_id \<mapsto> now),
      audit_record now user_id session_id tool ''act'' success None lab (snd st))"

definition act ::
  "('a \<Rightarrow> string + 'r) \<Rightarrow> la_config \<Rightarrow> time \<Rightarrow> time \<Rightarrow> string \<Rightarrow> 'a \<Rightarrow> string \<Rightarrow> string \<Rightarrow> ControlArm \<Rightarrow>
   string option \<Rightarrow> act_stamps \<times> db \<Rightarrow> 'r outcome \<times> (act_stamps \<times> db)" where
  "act execute cfg now done_at tool args user_id session_id arm lab st =
     (case authorize_act cfg now tool user_id session_id arm lab st of
        (Some why, st') \<Rightarrow> (Denied why, st')
      | (None, st') \<Rightarrow>
          (case execute args of
             Inl exc \<Rightarrow> (Raised exc, record_act done_at tool user_id session_id False lab st')
           | Inr r \<Rightarrow> (Returned r, record_act done_at tool user_id session_id True lab st')))"

subsection \<open>Frame lemmas: who writes what\<close>

lemma audit_record_frame [simp]:
  "consents (audit_record t u s tn k b e l d) = consents d"
  "sessions (audit_record t u s tn k b e l d) = sessions d"
  "events (audit_record t u s tn k b e l d) = events d"
  "has_consent (audit_record t u s tn k b e l d) u' kd = has_consent d u' kd"
  "get_owned_session (audit_record t u s tn k b e l d) s' u' = get_owned_session d s' u'"
  "study_decision (audit_record t u s tn k b e l d) u' = study_decision d u'"
  by (simp_all add: audit_record_def has_consent_def get_owned_session_def study_decision_def)

lemma audit_record_length [simp]:
  "length (audits (audit_record t u s tn k b e l d)) = Suc (length (audits d))"
  by (simp add: audit_record_def)

definition permitted :: "db \<Rightarrow> string \<Rightarrow> string \<Rightarrow> ToolKind \<Rightarrow> bool" where
  "permitted d user_id session_id kind \<longleftrightarrow>
     get_owned_session d session_id user_id \<noteq> None \<and> has_consent d user_id kind"

lemma permitted_audit [simp]:
  "permitted (audit_record t u s tn k b e l d) u' s' kd = permitted d u' s' kd"
  by (simp add: permitted_def)

lemma classify_cases:
  "classify tool = Some ACT \<longleftrightarrow> tool = ''execute_action'' \<or> tool = ''intervention''"
  "classify tool = Some OBSERVE \<longleftrightarrow> tool \<in> {''list_components'', ''get_component'',
     ''list_errors'', ''get_logs'', ''list_user_actions''}"
  by (auto simp: classify_def REGISTRY_def split: if_splits)

lemma act_denial_None:
  "act_denial cfg now tool u s arm acts d = None \<longleftrightarrow>
     classify tool = Some ACT \<and> permitted d u s ACT \<and> arm = CLOSED \<and>
     \<not> rate_limited cfg now s acts"
  by (cases arm) (auto simp: act_denial_def permitted_def)

lemma authorize_act_frame:
  "fst (snd (authorize_act cfg now tool u s arm lab st)) = fst st"
  "permitted (snd (snd (authorize_act cfg now tool u s arm lab st))) u' s' k =
     permitted (snd st) u' s' k"
  by (auto simp: authorize_act_def split: option.splits)

lemma record_act_frame:
  "permitted (snd (record_act now tool u s b lab st)) u' s' k = permitted (snd st) u' s' k"
  by (simp add: record_act_def)

lemma find_None_simp: "find P xs = None \<longleftrightarrow> (\<forall>x \<in> set xs. \<not> P x)"
  by (auto simp: find_None_iff)

text \<open>Consent rows: what each operation does to the answer.\<close>

lemma has_consent_record:
  "has_consent (record_consent now u scope obs ac dp dec ver d) u' kind \<longleftrightarrow>
     has_consent d u' kind \<or>
     (u' = u \<and> dec = ''granted'' \<and>
      (scope = ''study'' \<or> (scope = ''product'' \<and> (if kind = OBSERVE then obs else ac))))"
  by (auto simp: has_consent_def record_consent_def covers_def)

lemma sort_key_head_min:
  "sort_key f xs = y # ys \<Longrightarrow> y \<in> set xs \<and> (\<forall>x \<in> set xs. f y \<le> f x)"
proof -
  assume s: "sort_key f xs = y # ys"
  have "sorted (map f (sort_key f xs))" by simp
  with s have "\<forall>x \<in> set (y # ys). f y \<le> f x" by auto
  moreover have "set (y # ys) = set xs" using s by (metis set_sort)
  ultimately show ?thesis by auto
qed

lemma revoke_row:
  assumes "c \<in> set (consents (snd (revoke t u scope d)))"
  obtains c0 where "c0 \<in> set (consents d)"
    and "c = (if revocable u scope c0 then c0\<lparr>co_revoked_at := Some t\<rparr> else c0)"
  using assms by (auto simp: revoke_def update_where_def)

lemma revoke_not_revocable:
  assumes "c \<in> set (consents (snd (revoke t u scope d)))"
  shows "\<not> revocable u scope c"
  using assms
proof (rule revoke_row)
  fix c0 assume "c = (if revocable u scope c0 then c0\<lparr>co_revoked_at := Some t\<rparr> else c0)"
  then show ?thesis by (cases "revocable u scope c0") (simp_all add: revocable_def)
qed

lemma revoke_keeps_revoked:
  assumes "\<forall>c \<in> set (consents d). \<not> revocable u' scope' c"
    and "c \<in> set (consents (snd (revoke t u scope d)))"
  shows "\<not> revocable u' scope' c"
  using assms(2)
proof (rule revoke_row)
  fix c0 assume "c0 \<in> set (consents d)"
    and "c = (if revocable u scope c0 then c0\<lparr>co_revoked_at := Some t\<rparr> else c0)"
  with assms(1) show ?thesis by (cases "revocable u scope c0") (simp_all add: revocable_def)
qed

lemma has_consent_revocable:
  assumes "has_consent d u kind"
  shows "\<exists>c \<in> set (consents d). revocable u ''study'' c \<or> revocable u ''product'' c"
  using assms unfolding has_consent_def list_ex_iff covers_def revocable_def by blast

lemma has_consent_revoke_both:
  "\<not> has_consent (snd (revoke t2 u ''product'' (snd (revoke t1 u ''study'' d)))) u kind"
proof
  let ?d = "snd (revoke t1 u ''study'' d)"
  assume "has_consent (snd (revoke t2 u ''product'' ?d)) u kind"
  then obtain c where c: "c \<in> set (consents (snd (revoke t2 u ''product'' ?d)))"
    and r: "revocable u ''study'' c \<or> revocable u ''product'' c"
    using has_consent_revocable by blast
  have "\<forall>c \<in> set (consents ?d). \<not> revocable u ''study'' c"
    using revoke_not_revocable by blast
  from revoke_keeps_revoked [OF this c] revoke_not_revocable [OF c] r show False by blast
qed

lemma study_decision_revoke: "study_decision (snd (revoke t u ''study'' d)) u = None"
proof -
  have "filter (\<lambda>c. co_user_id c = u \<and> co_scope c = ''study'' \<and>
      co_policy_version c = CURRENT_POLICY_VERSION \<and> co_revoked_at c = None)
      (consents (snd (revoke t u ''study'' d))) = []"
    using revoke_not_revocable [of _ t u "''study''" d]
    unfolding filter_empty_conv revocable_def by blast
  then show ?thesis by (simp add: study_decision_def newest_first_def)
qed

subsection \<open>The gated call\<close>

text \<open>
  The contract both directions of the seam offer their clients: a call whose subject is not
  permitted is denied, a call never changes who is permitted or the collected data, and an
  audited call leaves exactly one row.
\<close>

locale gated_call =
  fixes call :: "'c \<Rightarrow> db \<Rightarrow> 'r outcome \<times> db"
    and subject :: "string \<times> string"
    and kind :: ToolKind
  assumes denied: "\<not> permitted d (fst subject) (snd subject) kind \<Longrightarrow>
      \<exists>why. fst (call c d) = Denied why"
    and keeps_permission: "permitted (snd (call c d)) u s k = permitted d u s k"
    and keeps_events: "events (snd (call c d)) = events d"
    and one_row: "\<exists>row. audits (snd (call c d)) = audits d @ [row] \<and>
      (au_success row \<longleftrightarrow> (\<exists>r. fst (call c d) = Returned r))"
begin

definition calls :: "'c list \<Rightarrow> db \<Rightarrow> db" where
  "calls cs d = fold (\<lambda>c d. snd (call c d)) cs d"

lemma calls_frame:
  "permitted (calls cs d) u s k = permitted d u s k"
  "events (calls cs d) = events d"
  "length (audits (calls cs d)) = length (audits d) + length cs"
proof (induction cs arbitrary: d)
  case (Cons c cs)
  { case 1 show ?case using Cons.IH by (simp add: calls_def keeps_permission) }
  { case 2 show ?case using Cons.IH by (simp add: calls_def keeps_events) }
  { case 3
    from one_row [of c d] obtain row where "audits (snd (call c d)) = audits d @ [row]" by blast
    with Cons.IH(3) [of "snd (call c d)"] show ?case by (simp add: calls_def) }
qed (simp_all add: calls_def)

lemma denied_forever:
  "\<not> permitted d (fst subject) (snd subject) kind \<Longrightarrow>
     \<exists>why. fst (call c (calls cs d)) = Denied why"
  by (rule denied) (simp add: calls_frame)

end

lemma seam_observe_db:
  "\<exists>b e. snd (seam_observe mcp now tool args u s lab d) =
     audit_record now u s tool ''observe'' b e lab d \<and>
     (b \<longleftrightarrow> (\<exists>r. fst (seam_observe mcp now tool args u s lab d) = Returned r))"
proof (cases "classify tool = Some OBSERVE \<and> get_owned_session d s u \<noteq> None \<and> has_consent d u OBSERVE")
  case True
  then show ?thesis
  proof (cases "mcp tool args")
    case (Inl exc)
    with True have "seam_observe mcp now tool args u s lab d =
        (Raised exc, audit_record now u s tool ''observe'' False (Some exc) lab d)"
      by (simp add: seam_observe_def)
    then show ?thesis by (intro exI [of _ False] exI [of _ "Some exc"]) simp
  next
    case (Inr r)
    with True have "seam_observe mcp now tool args u s lab d =
        (Returned r, audit_record now u s tool ''observe'' True None lab d)"
      by (simp add: seam_observe_def)
    then show ?thesis by (intro exI [of _ True] exI [of _ None]) simp
  qed
next
  case False
  then obtain why where "seam_observe mcp now tool args u s lab d =
      (Denied why, audit_record now u s tool ''observe'' False (Some why) lab d)"
    by (cases "classify tool = Some OBSERVE"; cases "get_owned_session d s u = None")
      (simp_all add: seam_observe_def)
  then show ?thesis by (intro exI [of _ False] exI [of _ "Some why"]) simp
qed

lemma seam_observe_denied:
  "\<not> permitted d u s OBSERVE \<Longrightarrow>
     \<exists>why. fst (seam_observe mcp now tool args u s lab d) = Denied why"
  by (auto simp: seam_observe_def permitted_def)

lemma seam_observe_returned:
  "fst (seam_observe mcp now tool args u s lab d) = Returned r \<Longrightarrow>
     permitted d u s OBSERVE \<and> classify tool = Some OBSERVE \<and> mcp tool args = Inr r"
  by (auto simp: seam_observe_def permitted_def split: if_splits sum.splits)

abbreviation seam_call ::
  "(string \<Rightarrow> 'a \<Rightarrow> string + 'r) \<Rightarrow> string \<Rightarrow> string \<Rightarrow> string option \<Rightarrow> time \<times> string \<times> 'a \<Rightarrow> db \<Rightarrow>
   'r outcome \<times> db" where
  "seam_call mcp u s lab c d \<equiv> seam_observe mcp (fst c) (fst (snd c)) (snd (snd c)) u s lab d"

lemma seam_observe_frame:
  "permitted (snd (seam_observe mcp now tool args u s lab d)) u' s' k = permitted d u' s' k"
  "events (snd (seam_observe mcp now tool args u s lab d)) = events d"
  "\<exists>row. audits (snd (seam_observe mcp now tool args u s lab d)) = audits d @ [row] \<and>
      (au_success row \<longleftrightarrow> (\<exists>r. fst (seam_observe mcp now tool args u s lab d) = Returned r))"
proof -
  obtain b e where eq: "snd (seam_observe mcp now tool args u s lab d) =
      audit_record now u s tool ''observe'' b e lab d"
    and b: "b \<longleftrightarrow> (\<exists>r. fst (seam_observe mcp now tool args u s lab d) = Returned r)"
    using seam_observe_db [of mcp now tool args u s lab d] by (elim exE conjE) (rule that)
  show "permitted (snd (seam_observe mcp now tool args u s lab d)) u' s' k = permitted d u' s' k"
    "events (snd (seam_observe mcp now tool args u s lab d)) = events d"
    by (simp_all add: eq)
  show "\<exists>row. audits (snd (seam_observe mcp now tool args u s lab d)) = audits d @ [row] \<and>
      (au_success row \<longleftrightarrow> (\<exists>r. fst (seam_observe mcp now tool args u s lab d) = Returned r))"
    by (simp add: eq b [symmetric] audit_record_def)
qed

interpretation observing: gated_call "seam_call mcp u s lab" "(u, s)" OBSERVE
  for mcp u s lab
  by unfold_locales (simp_all add: seam_observe_denied seam_observe_frame)

end
