(* ===== verification/Py_Strings.thy ===== *)
theory Py_Strings
  imports Prelude
begin

text \<open>
  The Python string methods the program uses, on lists of characters: \<open>strip\<close>, \<open>lower\<close>, the pieces
  of \<open>split\<close>, \<open>splitlines\<close>, \<open>startswith\<close>, \<open>endswith\<close>, \<open>in\<close> and \<open>isdigit\<close>.  A character is a byte
  below 256; white space, digits and line breaks are those of Latin-1, and the case of a letter is
  changed for ASCII only.
\<close>

definition is_space :: "char \<Rightarrow> bool" where
  "is_space c \<longleftrightarrow> of_char c \<in> {9, 10, 11, 12, 13, 28, 29, 30, 31, 32, 133, 160 :: nat}"

definition lstrip :: "string \<Rightarrow> string" where
  "lstrip s = dropWhile is_space s"

definition rstrip :: "string \<Rightarrow> string" where
  "rstrip s = rev (dropWhile is_space (rev s))"

definition strip :: "string \<Rightarrow> string" where
  "strip s = rstrip (lstrip s)"

definition lower_char :: "char \<Rightarrow> char" where
  "lower_char c = (let n = of_char c :: nat in if 65 \<le> n \<and> n \<le> 90 then char_of (n + 32) else c)"

definition lower :: "string \<Rightarrow> string" where
  "lower s = map lower_char s"

definition is_digit :: "char \<Rightarrow> bool" where
  "is_digit c \<longleftrightarrow> 48 \<le> (of_char c :: nat) \<and> (of_char c :: nat) \<le> 57"

text \<open>\<open>s.split(c)\<close> for a single character.\<close>

fun split_on :: "char \<Rightarrow> string \<Rightarrow> string list" where
  "split_on c [] = [[]]"
| "split_on c (x # xs) =
     (if x = c then [] # split_on c xs
      else case split_on c xs of [] \<Rightarrow> [[x]] | p # ps \<Rightarrow> (x # p) # ps)"

text \<open>\<open>s.split()\<close>: the runs of characters between white space.\<close>

fun words_from :: "string \<Rightarrow> string \<Rightarrow> string list" where
  "words_from acc [] = (if acc = [] then [] else [rev acc])"
| "words_from acc (x # xs) =
     (if is_space x then (if acc = [] then words_from [] xs else rev acc # words_from [] xs)
      else words_from (x # acc) xs)"

definition words :: "string \<Rightarrow> string list" where
  "words s = words_from [] s"

definition starts_with :: "string \<Rightarrow> string \<Rightarrow> bool" where
  "starts_with s pre \<longleftrightarrow> take (length pre) s = pre"

definition ends_with :: "string \<Rightarrow> string \<Rightarrow> bool" where
  "ends_with s suf \<longleftrightarrow> length suf \<le> length s \<and> drop (length s - length suf) s = suf"

fun contains :: "string \<Rightarrow> string \<Rightarrow> bool" where
  "contains sub [] = (sub = [])"
| "contains sub (x # xs) = (starts_with (x # xs) sub \<or> contains sub xs)"

text \<open>\<open>str.splitlines\<close>; a carriage return and the line feed after it are one break.\<close>

definition line_break :: "char \<Rightarrow> bool" where
  "line_break c \<longleftrightarrow> of_char c \<in> {10, 11, 12, 13, 28, 29, 30, 133 :: nat}"

fun splitlines_from :: "bool \<Rightarrow> string \<Rightarrow> string \<Rightarrow> string list" where
  "splitlines_from cr acc [] = (if acc = [] then [] else [rev acc])"
| "splitlines_from cr acc (c # cs) =
     (if cr \<and> of_char c = (10 :: nat) then splitlines_from False acc cs
      else if line_break c then rev acc # splitlines_from (of_char c = (13 :: nat)) [] cs
      else splitlines_from False (c # acc) cs)"

definition splitlines :: "string \<Rightarrow> string list" where
  "splitlines s = splitlines_from False [] s"

fun join :: "string \<Rightarrow> string list \<Rightarrow> string" where
  "join sep [] = []"
| "join sep [x] = x"
| "join sep (x # y # xs) = x @ sep @ join sep (y # xs)"

subsection \<open>Laws\<close>

lemma split_on_nonempty [simp]: "split_on c s \<noteq> []"
  by (induction s) (auto split: list.splits)

lemma join_split_on: "join [c] (split_on c s) = s"
proof (induction s)
  case (Cons x xs)
  obtain p ps where p: "split_on c xs = p # ps" by (cases "split_on c xs") auto
  with Cons show ?case by (cases ps) auto
qed simp

lemma split_on_pieces: "p \<in> set (split_on c s) \<Longrightarrow> c \<notin> set p"
proof (induction s arbitrary: p)
  case (Cons x xs)
  obtain q qs where q: "split_on c xs = q # qs" by (cases "split_on c xs") auto
  have "c \<notin> set q" by (rule Cons.IH) (simp add: q)
  moreover have "c \<notin> set r" if "r \<in> set qs" for r by (rule Cons.IH) (simp add: q that)
  ultimately show ?case using Cons.prems q by (auto split: if_splits)
qed simp

lemma hd_split_on: "hd (split_on c s) = takeWhile (\<lambda>x. x \<noteq> c) s"
  by (induction s) (auto split: list.splits)

lemma words_from_no_space:
  "list_all (\<lambda>x. \<not> is_space x) acc \<Longrightarrow>
     list_all (\<lambda>w. w \<noteq> [] \<and> list_all (\<lambda>x. \<not> is_space x) w) (words_from acc s)"
  by (induction acc s rule: words_from.induct) simp_all

lemma words_no_space: "list_all (\<lambda>w. w \<noteq> [] \<and> list_all (\<lambda>x. \<not> is_space x) w) (words s)"
  unfolding words_def by (rule words_from_no_space) simp

lemma lower_char_idem [simp]: "lower_char (lower_char c) = lower_char c"
proof (cases "65 \<le> (of_char c :: nat) \<and> (of_char c :: nat) \<le> 90")
  case True
  then have "(of_char (char_of (of_char c + 32 :: nat)) :: nat) = of_char c + 32" by simp
  with True show ?thesis by (simp add: lower_char_def Let_def)
next
  case False
  then have "lower_char c = c" by (auto simp: lower_char_def Let_def)
  then show ?thesis by simp
qed

lemma lower_idem [simp]: "lower (lower s) = lower s"
  by (simp add: lower_def)

lemma lower_eq_length: "lower a = lower b \<Longrightarrow> length a = length b"
  unfolding lower_def by (rule map_eq_imp_length_eq)

lemma starts_with_iff: "starts_with s pre \<longleftrightarrow> (\<exists>post. s = pre @ post)"
  unfolding starts_with_def by (metis append_eq_conv_conj append_take_drop_id)

lemma contains_spec: "contains sub s \<longleftrightarrow> (\<exists>pre post. s = pre @ sub @ post)"
proof (induction s)
  case (Cons x xs)
  show ?case
  proof
    assume "contains sub (x # xs)"
    then consider "starts_with (x # xs) sub" | "contains sub xs" by auto
    then show "\<exists>pre post. x # xs = pre @ sub @ post"
    proof cases
      case 1
      then obtain post where "x # xs = [] @ sub @ post" unfolding starts_with_iff by auto
      then show ?thesis by blast
    next
      case 2
      with Cons obtain pre post where "x # xs = (x # pre) @ sub @ post" by auto
      then show ?thesis by blast
    qed
  next
    assume "\<exists>pre post. x # xs = pre @ sub @ post"
    then obtain pre post where e: "x # xs = pre @ sub @ post" by blast
    show "contains sub (x # xs)"
    proof (cases pre)
      case Nil
      with e have "starts_with (x # xs) sub" unfolding starts_with_iff by auto
      then show ?thesis by simp
    next
      case (Cons y ys)
      with e have "xs = ys @ sub @ post" by simp
      with Cons.IH have "contains sub xs" by blast
      then show ?thesis by simp
    qed
  qed
qed simp

end
