(* ===== verification/I18n.thy ===== *)
theory I18n
  imports Py_Strings
begin

text \<open>
  Localisation (\<open>i18n/\<close>): negotiation of a locale, localized content, and the checks on message
  catalogues.  A catalogue is the flat dictionary of dotted keys; the YAML files and
  \<open>str.format\<close> are the library's, and rendering a message stays the parameter \<open>msg\<close>.
\<close>

definition LOCALES :: "string list" where
  "LOCALES = [''en'', ''ru'']"

definition DEFAULT_LOCALE :: string where
  "DEFAULT_LOCALE = ''en''"

definition negotiate :: "string option \<Rightarrow> string" where
  "negotiate raw =
     (if \<not> truthy raw then DEFAULT_LOCALE
      else
        let tag = lower (hd (split_on (CHR ''-'')
              (hd (split_on (CHR '';'') (hd (split_on (CHR '','') (strip (the raw)))))))) 
        in case find (\<lambda>l. tag = l) LOCALES of Some l \<Rightarrow> l | None \<Rightarrow> DEFAULT_LOCALE)"

fun nonempty_text :: "json option \<Rightarrow> string option" where
  "nonempty_text (Some (JStr s)) = (if s = [] then None else Some s)"
| "nonempty_text _ = None"

definition resolve_localized :: "json option \<Rightarrow> string \<Rightarrow> string" where
  "resolve_localized v locale =
     (case v of
        Some (JStr s) \<Rightarrow> s
      | Some (JObj kvs) \<Rightarrow>
          (case or_else (nonempty_text (map_of kvs locale))
                  (or_else (nonempty_text (map_of kvs DEFAULT_LOCALE))
                     (Option.bind (find (\<lambda>(_, x). nonempty_text (Some x) \<noteq> None) kvs)
                        (\<lambda>(_, x). nonempty_text (Some x)))) of
             Some s \<Rightarrow> s | None \<Rightarrow> [])
      | _ \<Rightarrow> [])"

definition as_locale_map :: "json option \<Rightarrow> (string \<times> json) list option" where
  "as_locale_map v =
     (case v of
        Some (JStr s) \<Rightarrow> Some [(DEFAULT_LOCALE, JStr s)]
      | Some (JObj kvs) \<Rightarrow> Some (filter (\<lambda>(_, x). nonempty_text (Some x) \<noteq> None) kvs)
      | _ \<Rightarrow> None)"

text \<open>The lookup of \<open>t\<close> before formatting: the locale's catalogue, then the default one.\<close>

definition lookup_message ::
  "(string \<Rightarrow> (string \<times> string) list) \<Rightarrow> string \<Rightarrow> string \<Rightarrow> py_error + string" where
  "lookup_message catalog key locale =
     (case map_of (catalog locale) key of
        Some m \<Rightarrow> Inr m
      | None \<Rightarrow> (case map_of (catalog DEFAULT_LOCALE) key of Some m \<Rightarrow> Inr m | None \<Rightarrow> Inl KeyError))"

text \<open>\<open>validate_catalogs\<close>; \<open>fields\<close> gives the names of the format fields in a message.\<close>

definition catalog_ok ::
  "(string \<Rightarrow> string set) \<Rightarrow> (string \<times> string) list \<Rightarrow> (string \<times> string) list \<Rightarrow> bool" where
  "catalog_ok fields reference catalog \<longleftrightarrow>
     set (map fst reference) = set (map fst catalog) \<and>
     list_all (\<lambda>(key, m). map_option fields (map_of reference key) = Some (fields m)) catalog"

definition validate_catalogs ::
  "(string \<Rightarrow> string set) \<Rightarrow> (string \<Rightarrow> (string \<times> string) list) \<Rightarrow> py_error + unit" where
  "validate_catalogs fields catalog =
     (if list_all (\<lambda>l. l = DEFAULT_LOCALE \<or> catalog_ok fields (catalog DEFAULT_LOCALE) (catalog l)) LOCALES
      then Inr () else Inl ValueError)"

subsection \<open>Facts\<close>

lemma negotiate_supported: "negotiate raw \<in> set LOCALES"
  by (auto simp: negotiate_def Let_def LOCALES_def DEFAULT_LOCALE_def)

lemma negotiate_locale: "l \<in> set LOCALES \<Longrightarrow> negotiate (Some l) = l"
  by (auto simp: negotiate_def Let_def LOCALES_def strip_def lstrip_def rstrip_def is_space_def
      lower_def lower_char_def)

lemma negotiate_idem: "negotiate (Some (negotiate raw)) = negotiate raw"
  by (rule negotiate_locale [OF negotiate_supported])

text \<open>Once the catalogues validate, a key every page uses renders in every locale.\<close>

lemma validated_lookup:
  assumes "validate_catalogs fields catalog = Inr ()" and "l \<in> set LOCALES"
    and "map_of (catalog DEFAULT_LOCALE) key = Some m0"
  shows "\<exists>m. map_of (catalog l) key = Some m \<and> lookup_message catalog key l = Inr m"
proof (cases "l = DEFAULT_LOCALE")
  case True
  with assms(3) show ?thesis by (simp add: lookup_message_def)
next
  case False
  from assms(1) have "list_all (\<lambda>l. l = DEFAULT_LOCALE \<or>
      catalog_ok fields (catalog DEFAULT_LOCALE) (catalog l)) LOCALES"
    by (simp add: validate_catalogs_def split: if_splits)
  with assms(2) False have "catalog_ok fields (catalog DEFAULT_LOCALE) (catalog l)"
    by (auto simp: list_all_iff)
  then have "set (map fst (catalog l)) = set (map fst (catalog DEFAULT_LOCALE))"
    by (simp add: catalog_ok_def)
  moreover from assms(3) have "key \<in> set (map fst (catalog DEFAULT_LOCALE))"
    by (metis list.set_map map_of_eq_None_iff option.distinct(1))
  ultimately have "key \<in> set (map fst (catalog l))" by blast
  then obtain m where "map_of (catalog l) key = Some m"
    by (metis list.set_map map_of_eq_None_iff not_None_eq)
  then show ?thesis by (simp add: lookup_message_def)
qed

end
