(* ===== verification/Validation.thy ===== *)
theory Validation
  imports Governance I18n
begin

text \<open>
  Lab validation: the spec runner (\<open>validation/runner.py\<close>), its service
  (\<open>validation/service.py\<close>, \<open>repository.py\<close>) and the lab progress it feeds
  (\<open>progress/service.py\<close>).  The check handlers talk to devices and are the parameter
  \<open>handlers\<close>: for a registered kind, what the handler returns or the message of the exception
  it raises.  YAML loading is the library's; a spec is its parsed value.  \<open>msg\<close> is the message
  catalogue.
\<close>

type_synonym dict = "(string \<times> json) list"

definition without :: "string list \<Rightarrow> dict \<Rightarrow> dict" where
  "without ks d = filter (\<lambda>(k, _). k \<notin> set ks) d"

definition dict_str :: "string \<Rightarrow> dict \<Rightarrow> string" where
  "dict_str k d = (case map_of d k of Some (JStr s) \<Rightarrow> s | _ \<Rightarrow> [])"

definition dict_obj :: "string \<Rightarrow> dict \<Rightarrow> dict" where
  "dict_obj k d = (case map_of d k of Some (JObj o') \<Rightarrow> o' | _ \<Rightarrow> [])"

subsection \<open>Checks\<close>

record check_result =
  res_ok :: bool
  res_expected :: dict
  res_actual :: dict
  res_log :: string
  res_observed :: bool
  res_error_key :: string
  res_error_params :: dict

type_synonym check_handlers = "string \<Rightarrow> (dict \<Rightarrow> dict \<Rightarrow> string + check_result) option"

type_synonym catalogue = "string \<Rightarrow> string \<Rightarrow> dict \<Rightarrow> string"

record spec_step =
  sp_id :: string
  sp_title :: "json option"
  sp_checks :: "dict list"

definition failed_result :: "dict \<Rightarrow> string \<Rightarrow> check_result" where
  "failed_result expect err = \<lparr>res_ok = False, res_expected = expect,
     res_actual = [(''error'', JStr err)], res_log = [], res_observed = True,
     res_error_key = [], res_error_params = []\<rparr>"

definition eval_check :: "check_handlers \<Rightarrow> dict \<Rightarrow> check_result" where
  "eval_check handlers check =
     (let kind = dict_str ''kind'' check;
          params = without [''kind'', ''expect''] check;
          expect = dict_obj ''expect'' check
      in case handlers kind of
           None \<Rightarrow> failed_result expect (''unknown check kind: '' @ kind)
         | Some handler \<Rightarrow>
             (case handler params expect of
                Inl exc \<Rightarrow> failed_result expect exc
              | Inr r \<Rightarrow> r))"

definition check_record ::
  "catalogue \<Rightarrow> string \<Rightarrow> dict \<Rightarrow> check_result \<Rightarrow> string \<Rightarrow> check_row" where
  "check_record msg kind params r locale =
     \<lparr>cr_kind = kind, cr_params = params, cr_ok = res_ok r, cr_expected = res_expected r,
      cr_actual = (if res_observed r then res_actual r
        else without [''error''] (res_actual r) @
          [(''error'', JStr (if res_error_key r \<noteq> [] then msg (res_error_key r) locale (res_error_params r)
                             else []))]),
      cr_unobserved = (\<not> res_observed r)\<rparr>"

definition run_check :: "check_handlers \<Rightarrow> catalogue \<Rightarrow> string \<Rightarrow> dict \<Rightarrow> check_row" where
  "run_check handlers msg locale check =
     check_record msg (dict_str ''kind'' check) (without [''kind'', ''expect''] check)
       (eval_check handlers check) locale"

definition evaluate_step :: "check_handlers \<Rightarrow> catalogue \<Rightarrow> string \<Rightarrow> spec_step \<Rightarrow> step_row" where
  "evaluate_step handlers msg locale s =
     \<lparr>sr_id = sp_id s, sr_title = resolve_localized (sp_title s) locale,
      sr_ok = list_all (\<lambda>c. res_ok (eval_check handlers c)) (sp_checks s),
      sr_checks = map (run_check handlers msg locale) (sp_checks s)\<rparr>"

definition evaluate_spec ::
  "check_handlers \<Rightarrow> catalogue \<Rightarrow> spec_step list \<Rightarrow> string \<Rightarrow> step_row list" where
  "evaluate_spec handlers msg spec locale = map (evaluate_step handlers msg locale) spec"

subsection \<open>The event stream\<close>

datatype vevent =
    RunStart nat
  | StepStart string string nat
  | CheckStart string nat string dict
  | CheckLog string nat string
  | CheckDone string nat bool dict dict bool
  | StepResult string string bool
  | RunFinish bool

definition check_events ::
  "check_handlers \<Rightarrow> catalogue \<Rightarrow> string \<Rightarrow> string \<Rightarrow> nat \<Rightarrow> dict \<Rightarrow> vevent list" where
  "check_events handlers msg locale step_id idx check =
     (let r = eval_check handlers check; row = run_check handlers msg locale check
      in CheckStart step_id idx (cr_kind row) (cr_params row) #
         map (CheckLog step_id idx) (splitlines (res_log r)) @
         [CheckDone step_id idx (cr_ok row) (cr_expected row) (cr_actual row) (cr_unobserved row)])"

text \<open>The record kept for the database leaves the \<open>observed\<close> mark out.\<close>

definition stored_row :: "check_row \<Rightarrow> check_row" where
  "stored_row r = r\<lparr>cr_unobserved := False\<rparr>"

fun check_loop ::
  "check_handlers \<Rightarrow> catalogue \<Rightarrow> string \<Rightarrow> string \<Rightarrow> nat \<Rightarrow> dict list \<Rightarrow> check_row list \<Rightarrow> bool \<Rightarrow>
   vevent list \<times> check_row list \<times> bool" where
  "check_loop handlers msg locale sid idx [] acc step_ok = ([], acc, step_ok)"
| "check_loop handlers msg locale sid idx (c # cs) acc step_ok =
     (let row = run_check handlers msg locale c;
          (es, acc', ok') = check_loop handlers msg locale sid (Suc idx) cs (acc @ [stored_row row])
             (if res_ok (eval_check handlers c) then step_ok else False)
      in (check_events handlers msg locale sid idx c @ es, acc', ok'))"

fun step_loop ::
  "check_handlers \<Rightarrow> catalogue \<Rightarrow> string \<Rightarrow> spec_step list \<Rightarrow> step_row list \<Rightarrow>
   vevent list \<times> step_row list" where
  "step_loop handlers msg locale [] acc = ([], acc)"
| "step_loop handlers msg locale (s # ss) acc =
     (let title = resolve_localized (sp_title s) locale;
          (ces, rows, ok) = check_loop handlers msg locale (sp_id s) 0 (sp_checks s) [] True;
          (es, acc') = step_loop handlers msg locale ss
             (acc @ [\<lparr>sr_id = sp_id s, sr_title = title, sr_ok = ok, sr_checks = rows\<rparr>])
      in (StepStart (sp_id s) title (length (sp_checks s)) # ces @
          StepResult (sp_id s) title ok # es, acc'))"

text \<open>The whole stream, and the steps accumulated when \<open>run.finish\<close> is yielded.\<close>

definition run_validation ::
  "check_handlers \<Rightarrow> catalogue \<Rightarrow> spec_step list \<Rightarrow> string \<Rightarrow> vevent list \<times> step_row list" where
  "run_validation handlers msg spec locale =
     (let (es, steps) = step_loop handlers msg locale spec []
      in (RunStart (length spec) # es @ [RunFinish (list_all sr_ok steps)], steps))"

subsection \<open>Progress\<close>

definition score_from_steps :: "step_row list \<Rightarrow> real \<times> bool" where
  "score_from_steps steps =
     (let checks = concat (map sr_checks steps);
          total = length checks;
          passed = count_if cr_ok checks
      in (if total \<noteq> 0 then py_round 1 (real passed / real total * 100) else 0,
          steps \<noteq> [] \<and> list_all sr_ok steps))"

definition progress_of :: "string \<Rightarrow> string \<Rightarrow> lab_progress \<Rightarrow> bool" where
  "progress_of user_id lab lp \<longleftrightarrow> lp_user_id lp = user_id \<and> lp_lab_slug lp = lab"

text \<open>A new row's \<open>status\<close> is the column default until it is assigned below.\<close>

definition new_progress :: "string \<Rightarrow> string \<Rightarrow> time \<Rightarrow> lab_progress" where
  "new_progress user_id lab now = \<lparr>lp_user_id = user_id, lp_lab_slug = lab,
     lp_status = ''not_started'', lp_score = None, lp_current_step = None,
     lp_started_at = Some now, lp_completed_at = None, lp_updated_at = now\<rparr>"

definition apply_validation :: "step_row list \<Rightarrow> time \<Rightarrow> lab_progress \<Rightarrow> lab_progress" where
  "apply_validation steps now lp =
     (let (score, all_passed) = score_from_steps steps;
          lp1 = lp\<lparr>lp_started_at := (case lp_started_at lp of None \<Rightarrow> Some now | s \<Rightarrow> s),
                   lp_score := Some (max (case lp_score lp of None \<Rightarrow> 0 | Some x \<Rightarrow> x) score),
                   lp_updated_at := now\<rparr>
      in if all_passed
         then (if lp_status lp1 \<noteq> ''completed''
               then lp1\<lparr>lp_status := ''completed'', lp_completed_at := Some now\<rparr> else lp1)
         else if lp_status lp1 \<noteq> ''completed'' then lp1\<lparr>lp_status := ''in_progress''\<rparr>
         else lp1)"

definition record_lab_validation ::
  "time \<Rightarrow> string \<Rightarrow> string \<Rightarrow> step_row list \<Rightarrow> db \<Rightarrow> db" where
  "record_lab_validation now user_id lab steps d =
     (if find (progress_of user_id lab) (progress d) = None
      then d\<lparr>progress := progress d @ [apply_validation steps now (new_progress user_id lab now)]\<rparr>
      else d\<lparr>progress := update_where (progress_of user_id lab) (apply_validation steps now)
                (progress d)\<rparr>)"

definition start_lab :: "time \<Rightarrow> string \<Rightarrow> string \<Rightarrow> db \<Rightarrow> lab_progress \<times> db" where
  "start_lab now user_id lab d =
     (case find (progress_of user_id lab) (progress d) of
        Some lp \<Rightarrow> (lp, d)
      | None \<Rightarrow>
          (let lp = (new_progress user_id lab now)\<lparr>lp_status := ''in_progress''\<rparr>
           in (lp, d\<lparr>progress := progress d @ [lp]\<rparr>)))"

text \<open>\<open>record_step_attempt\<close>: the number is one past the largest; a unique index rejects a loser.\<close>

definition ATTEMPT_RETRIES :: nat where
  "ATTEMPT_RETRIES = 3"

definition attempt_of :: "string \<Rightarrow> string \<Rightarrow> string \<Rightarrow> step_attempt \<Rightarrow> bool" where
  "attempt_of u lab step a \<longleftrightarrow> sa_user_id a = u \<and> sa_lab_slug a = lab \<and> sa_step_slug a = step"

definition next_number :: "string \<Rightarrow> string \<Rightarrow> string \<Rightarrow> db \<Rightarrow> int" where
  "next_number u lab step d =
     fold max (map sa_attempt_number (filter (attempt_of u lab step) (attempts d))) 0 + 1"

text \<open>
  \<open>rivals\<close> holds, for each try, the rows other transactions commit between this try's
  read of the maximum and its insert.
\<close>

fun attempt_loop ::
  "step_attempt list list \<Rightarrow> (int \<Rightarrow> step_attempt) \<Rightarrow> string \<Rightarrow> string \<Rightarrow> string \<Rightarrow> db \<Rightarrow>
   step_attempt option \<times> db" where
  "attempt_loop [] mk u lab step d = (None, d)"
| "attempt_loop (rs # rivals) mk u lab step d =
     (let n = next_number u lab step d; d' = d\<lparr>attempts := attempts d @ rs\<rparr>
      in if list_ex (\<lambda>a. attempt_of u lab step a \<and> sa_attempt_number a = n) (attempts d')
         then attempt_loop rivals mk u lab step d'
         else (Some (mk n), d'\<lparr>attempts := attempts d' @ [mk n]\<rparr>))"

definition record_step_attempt ::
  "(nat \<Rightarrow> step_attempt list) \<Rightarrow> string \<Rightarrow> string \<Rightarrow> string \<Rightarrow> string \<Rightarrow> real option \<Rightarrow> db \<Rightarrow>
   step_attempt option \<times> db" where
  "record_step_attempt rivals user_id lab step result score d =
     attempt_loop (map rivals [0..<ATTEMPT_RETRIES])
       (\<lambda>n. \<lparr>sa_user_id = user_id, sa_lab_slug = lab, sa_step_slug = step, sa_attempt_number = n,
             sa_result = result, sa_score = score\<rparr>) user_id lab step d"

subsection \<open>The service\<close>

datatype validation_error = SessionNotFound | LabSpecNotFound | GNS3SessionMissing

definition prepare_validation ::
  "(string \<Rightarrow> spec_step list option) \<Rightarrow> db \<Rightarrow> string \<Rightarrow> string \<Rightarrow> string \<Rightarrow>
   validation_error + (spec_step list \<times> string)" where
  "prepare_validation load_lab_spec d session_id lab user_id =
     (case get_owned_session d session_id user_id of
        None \<Rightarrow> Inl SessionNotFound
      | Some s \<Rightarrow>
          (case load_lab_spec lab of
             None \<Rightarrow> Inl LabSpecNotFound
           | Some spec \<Rightarrow>
               (case map_of (ls_meta s) ''gns3_service_session_id'' of
                  None \<Rightarrow> Inl GNS3SessionMissing
                | Some sid \<Rightarrow> if sid = [] then Inl GNS3SessionMissing else Inr (spec, sid))))"

definition create_run :: "string \<Rightarrow> time \<Rightarrow> string \<Rightarrow> string \<Rightarrow> db \<Rightarrow> db" where
  "create_run new_id now session_id lab d =
     d\<lparr>runs := runs d @ [\<lparr>vr_id = new_id, vr_session_id = session_id, vr_lab_slug = lab,
        vr_status = ''running'', vr_steps = [], vr_started_at = now, vr_finished_at = None\<rparr>]\<rparr>"

definition finish_run :: "string \<Rightarrow> string \<Rightarrow> step_row list \<Rightarrow> time \<Rightarrow> db \<Rightarrow> db" where
  "finish_run run_id status steps now d =
     d\<lparr>runs := update_where (\<lambda>r. vr_id r = run_id)
        (\<lambda>r. r\<lparr>vr_status := status, vr_steps := steps, vr_finished_at := Some now\<rparr>) (runs d)\<rparr>"

text \<open>
  \<open>stream_validation\<close> when the client reads \<open>n\<close> events before it goes away; the \<open>finally\<close>
  block runs in any case.
\<close>

definition stream_validation ::
  "check_handlers \<Rightarrow> catalogue \<Rightarrow> string \<Rightarrow> time \<Rightarrow> time \<Rightarrow> string \<Rightarrow> string \<Rightarrow> string \<Rightarrow>
   spec_step list \<Rightarrow> nat \<Rightarrow> db \<Rightarrow> vevent list \<times> db" where
  "stream_validation handlers msg run_id t0 t1 session_id lab user_id spec n d =
     (let d1 = create_run run_id t0 session_id lab d;
          locale = (case get_owned_session d1 session_id user_id of
                      Some s \<Rightarrow> negotiate (Some (ls_locale s)) | None \<Rightarrow> DEFAULT_LOCALE);
          (es, steps) = run_validation handlers msg spec locale;
          seen = take n es;
          finished = find (\<lambda>e. case e of RunFinish _ \<Rightarrow> True | _ \<Rightarrow> False) seen;
          status = (case finished of Some (RunFinish True) \<Rightarrow> ''passed'' | _ \<Rightarrow> ''failed'');
          final_steps = (if finished = None then [] else steps);
          d2 = finish_run run_id status final_steps t1 d1
      in (seen, if final_steps \<noteq> [] then record_lab_validation t1 user_id lab final_steps d2
                else d2))"

end
