(* ===== verification/Validation_Facts.thy ===== *)
theory Validation_Facts
  imports Validation
begin

text \<open>
  The two runners agree, the score is a percentage, a completed lab stays completed and keeps
  the best score over every sequence of runs, and attempt numbers never collide.
\<close>

subsection \<open>The streaming runner and the snapshot runner agree\<close>

lemma check_loop_spec:
  "snd (check_loop handlers msg locale sid idx cs acc ok) =
     (acc @ map (stored_row \<circ> run_check handlers msg locale) cs,
      ok \<and> list_all (\<lambda>c. res_ok (eval_check handlers c)) cs)"
  by (induction cs arbitrary: idx acc ok) (auto simp: Let_def case_prod_beta)

definition stored_step :: "step_row \<Rightarrow> step_row" where
  "stored_step s = s\<lparr>sr_checks := map stored_row (sr_checks s)\<rparr>"

lemma step_loop_spec:
  "snd (step_loop handlers msg locale spec acc) =
     acc @ map stored_step (evaluate_spec handlers msg spec locale)"
proof (induction spec arbitrary: acc)
  case (Cons s ss)
  have "snd (check_loop handlers msg locale (sp_id s) 0 (sp_checks s) [] True) =
      (map (stored_row \<circ> run_check handlers msg locale) (sp_checks s),
       list_all (\<lambda>c. res_ok (eval_check handlers c)) (sp_checks s))"
    by (simp add: check_loop_spec)
  then obtain ces where "check_loop handlers msg locale (sp_id s) 0 (sp_checks s) [] True =
      (ces, map (stored_row \<circ> run_check handlers msg locale) (sp_checks s),
       list_all (\<lambda>c. res_ok (eval_check handlers c)) (sp_checks s))"
    by (metis prod.collapse)
  with Cons.IH show ?case
    by (simp add: Let_def case_prod_beta evaluate_spec_def evaluate_step_def stored_step_def)
qed (simp add: evaluate_spec_def)

lemma run_validation_steps:
  "snd (run_validation handlers msg spec locale) =
     map stored_step (evaluate_spec handlers msg spec locale)"
  by (simp add: run_validation_def case_prod_beta Let_def step_loop_spec)

lemma run_validation_verdict:
  "last (fst (run_validation handlers msg spec locale)) =
     RunFinish (list_all sr_ok (evaluate_spec handlers msg spec locale))"
  by (simp add: run_validation_def case_prod_beta Let_def step_loop_spec list_all_iff
      stored_step_def)

fun is_finish :: "vevent \<Rightarrow> bool" where
  "is_finish (RunFinish b) = True"
| "is_finish _ = False"

lemma check_events_no_finish: "e \<in> set (check_events handlers msg locale sid idx c) \<Longrightarrow> \<not> is_finish e"
  by (auto simp: check_events_def Let_def)

lemma check_loop_no_finish:
  "e \<in> set (fst (check_loop handlers msg locale sid idx cs acc ok)) \<Longrightarrow> \<not> is_finish e"
proof (induction cs arbitrary: idx acc ok)
  case (Cons c cs)
  then have "e \<in> set (check_events handlers msg locale sid idx c) \<or>
      (\<exists>idx acc ok. e \<in> set (fst (check_loop handlers msg locale sid idx cs acc ok)))"
    by (auto simp: Let_def case_prod_beta simp del: if_split)
  with Cons.IH show ?case by (blast dest: check_events_no_finish)
qed simp

lemma step_loop_no_finish:
  "e \<in> set (fst (step_loop handlers msg locale spec acc)) \<Longrightarrow> \<not> is_finish e"
proof (induction spec arbitrary: acc)
  case (Cons s ss)
  then have "(\<exists>n t k. e = StepStart n t k) \<or> (\<exists>n t b. e = StepResult n t b) \<or>
      e \<in> set (fst (check_loop handlers msg locale (sp_id s) 0 (sp_checks s) [] True)) \<or>
      (\<exists>acc. e \<in> set (fst (step_loop handlers msg locale ss acc)))"
    by (auto simp: Let_def case_prod_beta)
  with Cons.IH show ?case by (auto dest: check_loop_no_finish)
qed simp

lemma run_validation_finish_last:
  assumes "n < length (fst (run_validation handlers msg spec locale))"
  shows "\<forall>e \<in> set (take n (fst (run_validation handlers msg spec locale))). \<not> is_finish e"
proof -
  let ?es = "RunStart (length spec) # fst (step_loop handlers msg locale spec [])"
  have eq: "fst (run_validation handlers msg spec locale) =
      ?es @ [RunFinish (list_all sr_ok (snd (step_loop handlers msg locale spec [])))]"
    by (simp add: run_validation_def case_prod_beta Let_def)
  with assms have "set (take n (fst (run_validation handlers msg spec locale))) \<subseteq> set ?es"
    by (simp del: set_simps append_Cons) (metis set_take_subset)
  then show ?thesis using step_loop_no_finish [of _ handlers msg "locale" spec "[]"] by fastforce
qed

subsection \<open>The score\<close>

lemma score_bounds: "0 \<le> fst (score_from_steps steps) \<and> fst (score_from_steps steps) \<le> 100"
proof -
  let ?c = "concat (map sr_checks steps)"
  have "real (count_if cr_ok ?c) / real (length ?c) * 100 \<le> 100"
    by (rule percent_le_100 [OF count_if_le])
  then show ?thesis
    by (auto simp: score_from_steps_def Let_def intro!: py_round_nonneg py_round_le_100
        simp del: length_concat)
qed

lemma count_if_all: "list_all P xs \<Longrightarrow> count_if P xs = length xs"
  by (induction xs) auto

text \<open>On the records of a run, a step passes exactly when each of its checks does.\<close>

definition steps_consistent :: "step_row list \<Rightarrow> bool" where
  "steps_consistent steps = list_all (\<lambda>s. sr_ok s = list_all cr_ok (sr_checks s)) steps"

lemma evaluate_spec_consistent: "steps_consistent (evaluate_spec handlers msg spec locale)"
  by (simp add: steps_consistent_def evaluate_spec_def list_all_iff evaluate_step_def
      run_check_def check_record_def)

lemma stored_consistent:
  "steps_consistent (map stored_step (evaluate_spec handlers msg spec locale))"
  using evaluate_spec_consistent [of handlers msg spec "locale"]
  by (simp add: steps_consistent_def list_all_iff stored_step_def stored_row_def)

lemma score_full:
  assumes "steps_consistent steps" and "snd (score_from_steps steps)"
    and "\<exists>s \<in> set steps. sr_checks s \<noteq> []"
  shows "fst (score_from_steps steps) = 100"
proof -
  let ?c = "concat (map sr_checks steps)"
  from assms have "list_all cr_ok ?c"
    by (auto simp: score_from_steps_def steps_consistent_def list_all_iff Let_def)
  moreover have "?c \<noteq> []" using assms(3) by auto
  ultimately show ?thesis
    by (simp add: score_from_steps_def Let_def count_if_all del: length_concat)
qed

subsection \<open>Progress over a sequence of runs\<close>

definition apply_runs :: "(step_row list \<times> time) list \<Rightarrow> lab_progress \<Rightarrow> lab_progress" where
  "apply_runs rs lp = fold (\<lambda>(steps, now). apply_validation steps now) rs lp"

lemma apply_runs_Nil [simp]: "apply_runs [] lp = lp"
  by (simp add: apply_runs_def)

lemma apply_runs_Cons [simp]:
  "apply_runs (r # rs) lp = apply_runs rs (apply_validation (fst r) (snd r) lp)"
  by (simp add: apply_runs_def case_prod_beta)

lemma apply_validation_fields:
  "lp_score (apply_validation steps now lp) =
     Some (max (case lp_score lp of None \<Rightarrow> 0 | Some x \<Rightarrow> x) (fst (score_from_steps steps)))"
  "lp_status (apply_validation steps now lp) =
     (if snd (score_from_steps steps) \<or> lp_status lp = ''completed'' then ''completed''
      else ''in_progress'')"
  "lp_completed_at (apply_validation steps now lp) =
     (if snd (score_from_steps steps) \<and> lp_status lp \<noteq> ''completed'' then Some now
      else lp_completed_at lp)"
  by (auto simp: apply_validation_def Let_def case_prod_beta)

lemma apply_runs_score:
  "rs \<noteq> [] \<Longrightarrow> lp_score (apply_runs rs lp) =
     Some (fold max (map (\<lambda>r. fst (score_from_steps (fst r))) rs)
       (case lp_score lp of None \<Rightarrow> 0 | Some x \<Rightarrow> x))"
proof (induction rs arbitrary: lp)
  case (Cons r rs)
  show ?case
    by (cases "rs = []") (simp_all add: Cons.IH apply_validation_fields max.commute)
qed simp

lemma apply_runs_completed:
  "lp_status lp = ''completed'' \<Longrightarrow> lp_status (apply_runs rs lp) = ''completed'' \<and>
     lp_completed_at (apply_runs rs lp) = lp_completed_at lp"
  by (induction rs arbitrary: lp) (simp_all add: apply_validation_fields)

lemma apply_runs_status:
  assumes "lp_status lp \<noteq> ''completed''"
  shows "(lp_status (apply_runs rs lp) = ''completed'') =
      list_ex (\<lambda>r. snd (score_from_steps (fst r))) rs"
    and "lp_completed_at (apply_runs rs lp) =
      (case find (\<lambda>r. snd (score_from_steps (fst r))) rs of
         None \<Rightarrow> lp_completed_at lp | Some r \<Rightarrow> Some (snd r))"
proof -
  have "(lp_status (apply_runs rs lp) = ''completed'') =
      list_ex (\<lambda>r. snd (score_from_steps (fst r))) rs \<and>
    lp_completed_at (apply_runs rs lp) =
      (case find (\<lambda>r. snd (score_from_steps (fst r))) rs of
         None \<Rightarrow> lp_completed_at lp | Some r \<Rightarrow> Some (snd r))"
    using assms
  proof (induction rs arbitrary: lp)
    case (Cons r rs)
    let ?lp = "apply_validation (fst r) (snd r) lp"
    show ?case
    proof (cases "snd (score_from_steps (fst r))")
      case True
      then have "lp_status ?lp = ''completed''" "lp_completed_at ?lp = Some (snd r)"
        using Cons.prems by (simp_all add: apply_validation_fields)
      with True show ?thesis by (simp add: apply_runs_completed)
    next
      case False
      then have "lp_status ?lp \<noteq> ''completed''" "lp_completed_at ?lp = lp_completed_at lp"
        using Cons.prems by (simp_all add: apply_validation_fields)
      with False Cons.IH [of ?lp] show ?thesis by (simp split: option.split)
    qed
  qed simp
  then show "(lp_status (apply_runs rs lp) = ''completed'') =
      list_ex (\<lambda>r. snd (score_from_steps (fst r))) rs"
    and "lp_completed_at (apply_runs rs lp) =
      (case find (\<lambda>r. snd (score_from_steps (fst r))) rs of
         None \<Rightarrow> lp_completed_at lp | Some r \<Rightarrow> Some (snd r))" by auto
qed

subsection \<open>Attempt numbers\<close>

lemma fold_max_bound: "(x :: int) \<in> set xs \<Longrightarrow> x \<le> fold max xs a"
proof (induction xs arbitrary: a)
  case (Cons y xs)
  have ge: "b \<le> fold max xs b" for b :: int
    by (induction xs arbitrary: b) (simp, simp, metis max.cobounded2 max.cobounded1 order_trans)
  from Cons show ?case using ge [of "max y a"] by auto
qed simp

lemma next_number_fresh:
  "a \<in> set (attempts d) \<Longrightarrow> attempt_of u lab step a \<Longrightarrow> sa_attempt_number a < next_number u lab step d"
  unfolding next_number_def
  using fold_max_bound [of "sa_attempt_number a"
      "map sa_attempt_number (filter (attempt_of u lab step) (attempts d))" 0]
  by simp

text \<open>The unique index \<open>uq_step_attempts_number\<close>.\<close>

definition attempts_unique :: "step_attempt list \<Rightarrow> bool" where
  "attempts_unique as = distinct (map (\<lambda>a. (sa_user_id a, sa_lab_slug a, sa_step_slug a,
     sa_attempt_number a)) as)"

lemma attempt_loop_result:
  assumes "attempt_loop rivals mk u lab step d = (Some a, d')"
    and "\<And>n. attempt_of u lab step (mk n) \<and> sa_attempt_number (mk n) = n"
  shows "\<exists>others. attempts d' = attempts d @ others @ [a] \<and> attempt_of u lab step a \<and>
     (\<forall>b \<in> set (attempts d @ others). attempt_of u lab step b \<longrightarrow>
        sa_attempt_number b \<noteq> sa_attempt_number a) \<and>
     (\<forall>b \<in> set (attempts d). attempt_of u lab step b \<longrightarrow>
        sa_attempt_number b < sa_attempt_number a)"
  using assms
proof (induction rivals arbitrary: d)
  case (Cons rs rivals)
  let ?n = "next_number u lab step d" and ?d = "d\<lparr>attempts := attempts d @ rs\<rparr>"
  show ?case
  proof (cases "list_ex (\<lambda>a. attempt_of u lab step a \<and> sa_attempt_number a = ?n) (attempts ?d)")
    case True
    with Cons.prems(1) have "attempt_loop rivals mk u lab step ?d = (Some a, d')"
      by (simp add: Let_def)
    from Cons.IH [OF this Cons.prems(2)] obtain others where
      "attempts d' = (attempts d @ rs) @ others @ [a]" "attempt_of u lab step a"
      "\<forall>b \<in> set ((attempts d @ rs) @ others). attempt_of u lab step b \<longrightarrow>
         sa_attempt_number b \<noteq> sa_attempt_number a"
      "\<forall>b \<in> set (attempts d @ rs). attempt_of u lab step b \<longrightarrow>
         sa_attempt_number b < sa_attempt_number a"
      by auto
    then show ?thesis by (intro exI [of _ "rs @ others"]) auto
  next
    case False
    with Cons.prems(1) have a: "a = mk ?n" and d': "d' = ?d\<lparr>attempts := attempts ?d @ [mk ?n]\<rparr>"
      by (auto simp: Let_def)
    from False have "\<forall>b \<in> set (attempts d @ rs). attempt_of u lab step b \<longrightarrow>
        sa_attempt_number b \<noteq> ?n"
      by (auto simp: list_ex_iff)
    with a d' Cons.prems(2) show ?thesis
      by (intro exI [of _ rs]) (auto dest: next_number_fresh)
  qed
qed simp

lemma attempt_loop_quiet:
  assumes "rivals \<noteq> []" and "hd rivals = []"
  shows "\<exists>d'. attempt_loop rivals mk u lab step d = (Some (mk (next_number u lab step d)), d')"
proof -
  from assms obtain rest where "rivals = [] # rest" by (cases rivals) auto
  moreover have "\<not> list_ex (\<lambda>a. attempt_of u lab step a \<and>
      sa_attempt_number a = next_number u lab step d) (attempts d)"
    by (auto simp: list_ex_iff dest: next_number_fresh)
  ultimately show ?thesis by (simp add: Let_def)
qed

subsection \<open>The service\<close>

lemma find_finish:
  "\<forall>e \<in> set es. \<not> is_finish e \<Longrightarrow>
     find (\<lambda>e. case e of RunFinish _ \<Rightarrow> True | _ \<Rightarrow> False) es = None"
  by (auto simp: find_None_iff split: vevent.splits)

lemma create_run_frame [simp]:
  "get_owned_session (create_run i t s l d) s' u = get_owned_session d s' u"
  "progress (create_run i t s l d) = progress d"
  by (simp_all add: create_run_def get_owned_session_def)

lemma finish_run_frame [simp]: "progress (finish_run i st steps t d) = progress d"
  by (simp add: finish_run_def)

lemma stream_validation_abandoned:
  assumes "n < length (fst (run_validation handlers msg spec
      (case get_owned_session d sid u of Some s \<Rightarrow> negotiate (Some (ls_locale s))
       | None \<Rightarrow> DEFAULT_LOCALE)))"
  shows "progress (snd (stream_validation handlers msg rid t0 t1 sid lab u spec n d)) =
      progress d"
    and "\<exists>r \<in> set (runs (snd (stream_validation handlers msg rid t0 t1 sid lab u spec n d))).
      vr_id r = rid \<and> vr_status r = ''failed'' \<and> vr_steps r = []"
  using find_finish [OF run_validation_finish_last [OF assms]]
  by (auto simp: stream_validation_def Let_def case_prod_beta finish_run_def create_run_def
      get_owned_session_def update_where_def)

end
