(* ===== verification/Observer.thy ===== *)
theory Observer
  imports Validation_Facts Features
begin

text \<open>
  The progress observer (\<open>analytics/runtime/progress_observer.py\<close>) and the liveness stamps it
  shares with the request path (\<open>sessions/activity.py\<close>).  \<open>json.dumps(params, sort_keys=True)\<close>
  is the parameter \<open>dumps\<close>; a snapshot is what \<open>evaluate_spec\<close> returns.
\<close>

subsection \<open>Liveness stamps\<close>

definition TOUCH_THROTTLE_SEC :: int where
  "TOUCH_THROTTLE_SEC = 30"

definition seconds :: "int \<Rightarrow> time" where
  "seconds n = n * 1000000"

definition touch_session :: "time \<Rightarrow> string \<Rightarrow> string \<Rightarrow> db \<Rightarrow> db" where
  "touch_session now session_id user_id d =
     d\<lparr>sessions := update_where
        (\<lambda>s. ls_id s = session_id \<and> ls_user_id s = user_id \<and>
             ls_last_seen_at s < now - seconds TOUCH_THROTTLE_SEC)
        (\<lambda>s. s\<lparr>ls_last_seen_at := now\<rparr>) (sessions d)\<rparr>"

definition touch_observed_session :: "time \<Rightarrow> string \<Rightarrow> db \<Rightarrow> db" where
  "touch_observed_session now session_id d =
     d\<lparr>sessions := update_where
        (\<lambda>s. ls_id s = session_id \<and> ls_last_seen_at s < now - seconds TOUCH_THROTTLE_SEC)
        (\<lambda>s. s\<lparr>ls_last_seen_at := now\<rparr>) (sessions d)\<rparr>"

subsection \<open>The current step\<close>

record progress_state =
  pg_step_id :: "string option"
  pg_step_title :: string
  pg_failing :: "check_row list"

definition derive_current_step :: "step_row list \<Rightarrow> progress_state" where
  "derive_current_step snapshot =
     (case find (\<lambda>s. \<not> sr_ok s) snapshot of
        None \<Rightarrow> \<lparr>pg_step_id = None, pg_step_title = [], pg_failing = []\<rparr>
      | Some s \<Rightarrow> \<lparr>pg_step_id = Some (sr_id s), pg_step_title = sr_title s,
                  pg_failing = filter (\<lambda>c. \<not> cr_ok c) (sr_checks s)\<rparr>)"

subsection \<open>Differences between snapshots\<close>

text \<open>Python's equality of dictionaries and lists: the order of keys is irrelevant.\<close>

fun py_eq :: "json \<Rightarrow> json \<Rightarrow> bool"
  and py_eq_list :: "json list \<Rightarrow> json list \<Rightarrow> bool"
  and py_sub_obj :: "(string \<times> json) list \<Rightarrow> (string \<times> json) list \<Rightarrow> bool" where
  "py_eq JNull y = (y = JNull)"
| "py_eq (JBool b) y = (case y of JBool c \<Rightarrow> b = c | JInt i \<Rightarrow> i = of_bool b | _ \<Rightarrow> False)"
| "py_eq (JInt i) y = (case y of JInt j \<Rightarrow> i = j | JBool b \<Rightarrow> i = of_bool b | _ \<Rightarrow> False)"
| "py_eq (JFloat x) y = (y = JFloat x)"
| "py_eq (JStr s) y = (y = JStr s)"
| "py_eq (JList xs) y = (case y of JList ys \<Rightarrow> py_eq_list xs ys | _ \<Rightarrow> False)"
| "py_eq (JObj kvs) y =
     (case y of JObj lvs \<Rightarrow> length kvs = length lvs \<and> py_sub_obj kvs lvs | _ \<Rightarrow> False)"
| "py_eq_list [] ys = (ys = [])"
| "py_eq_list (x # xs) ys = (case ys of [] \<Rightarrow> False | y # ys' \<Rightarrow> py_eq x y \<and> py_eq_list xs ys')"
| "py_sub_obj [] lvs = True"
| "py_sub_obj ((k, x) # kvs) lvs =
     ((case map_of lvs k of None \<Rightarrow> False | Some y \<Rightarrow> py_eq x y) \<and> py_sub_obj kvs lvs)"

definition dict_eq :: "dict \<Rightarrow> dict \<Rightarrow> bool" where
  "dict_eq a b = py_eq (JObj a) (JObj b)"

definition check_key :: "(dict \<Rightarrow> string) \<Rightarrow> check_row \<Rightarrow> string" where
  "check_key dumps c = cr_kind c @ ''@'' @ dumps (cr_params c)"

definition check_component :: "check_row \<Rightarrow> string" where
  "check_component c = (let n = dict_str ''node'' (cr_params c) in if n \<noteq> [] then n else cr_kind c)"

record delta_event =
  de_type :: string
  de_action :: string
  de_component :: string
  de_message :: string
  de_success :: bool
  de_extra :: "json option"

text \<open>\<open>prev_index\<close>: the last check with a key wins.\<close>

definition prev_index :: "(dict \<Rightarrow> string) \<Rightarrow> step_row list \<Rightarrow> string \<Rightarrow> check_row option" where
  "prev_index dumps prev =
     map_of (rev (map (\<lambda>c. (check_key dumps c, c)) (concat (map sr_checks prev))))"

definition diff_check :: "(dict \<Rightarrow> string) \<Rightarrow> check_row \<Rightarrow> check_row \<Rightarrow> delta_event list" where
  "diff_check dumps pc c =
     (let e = \<lambda>ty ac b x. \<lparr>de_type = ty, de_action = ac, de_component = check_component c,
                de_message = check_key dumps c, de_success = b, de_extra = x\<rparr>
      in if \<not> cr_ok pc \<and> cr_ok c then [e ''action'' ''check_passed'' True None]
         else if cr_ok pc \<and> \<not> cr_ok c
         then [e ''error'' ''check_regressed'' False (Some (JObj [(''actual'', JObj (cr_actual c))]))]
         else if \<not> cr_ok pc \<and> \<not> cr_ok c
         then (if dict_eq (cr_actual pc) (cr_actual c)
               then [e ''error'' ''check_failing'' False (Some (JObj [(''actual'', JObj (cr_actual c))]))]
               else [e ''error'' ''check_retry'' False (Some (JObj [
                 (''prev_actual'', JObj (cr_actual pc)), (''actual'', JObj (cr_actual c))]))])
         else [])"

definition diff_snapshots ::
  "(dict \<Rightarrow> string) \<Rightarrow> step_row list option \<Rightarrow> step_row list \<Rightarrow> delta_event list" where
  "diff_snapshots dumps prev cur =
     (case prev of
        None \<Rightarrow> []
      | Some p \<Rightarrow>
          concat (map (\<lambda>c. case prev_index dumps p (check_key dumps c) of
                             None \<Rightarrow> [] | Some pc \<Rightarrow> diff_check dumps pc c)
            (concat (map sr_checks cur))))"

subsection \<open>The observer\<close>

record observer =
  ob_session :: string
  ob_user :: string
  ob_lab :: string
  ob_state :: "progress_state option"
  ob_prev :: "step_row list option"
  ob_deadline :: time

record observer_env =
  oe_now :: time
  oe_spec :: "spec_step list option"
  oe_handlers :: check_handlers
  oe_msg :: catalogue
  oe_dumps :: "dict \<Rightarrow> string"
  oe_uuid :: "nat \<Rightarrow> string"

definition observer_start ::
  "la_config \<Rightarrow> string \<Rightarrow> string \<Rightarrow> string \<Rightarrow> time option \<Rightarrow> time \<Rightarrow> observer" where
  "observer_start cfg session_id user_id lab started_at now =
     \<lparr>ob_session = session_id, ob_user = user_id, ob_lab = lab, ob_state = None, ob_prev = None,
      ob_deadline = (case started_at of Some t \<Rightarrow> t | None \<Rightarrow> now) +
        timedelta (progress_max_duration_hours cfg * 3600)\<rparr>"

definition observed_event :: "observer \<Rightarrow> time \<Rightarrow> string \<Rightarrow> delta_event \<Rightarrow> behavioral_event" where
  "observed_event ob now new_id e = \<lparr>ev_id = new_id, ev_session_id = ob_session ob,
     ev_user_id = ob_user ob, ev_lab_slug = ob_lab ob, ev_timestamp = now, ev_type = de_type e,
     ev_component_id = Some (de_component e), ev_component_type = None, ev_action = de_action e,
     ev_raw_command = None, ev_success = de_success e, ev_severity = None,
     ev_message = Some (de_message e), ev_extra_data = de_extra e\<rparr>"

definition observer_persist :: "observer \<Rightarrow> behavioral_event list \<Rightarrow> db \<Rightarrow> db" where
  "observer_persist ob es d =
     (if may_collect d (ob_user ob) then d\<lparr>events := events d @ es\<rparr> else d)"

definition cycle_locale :: "observer_env \<Rightarrow> observer \<Rightarrow> db \<Rightarrow> string" where
  "cycle_locale env ob d =
     (case get_owned_session d (ob_session ob) (ob_user ob) of
        Some s \<Rightarrow> negotiate (Some (ls_locale s)) | None \<Rightarrow> DEFAULT_LOCALE)"

definition observer_cycle :: "observer_env \<Rightarrow> observer \<times> db \<Rightarrow> observer \<times> db" where
  "observer_cycle env st =
     (case oe_spec env of
        None \<Rightarrow> st
      | Some spec \<Rightarrow>
          (let (ob, d) = st;
               snapshot = evaluate_spec (oe_handlers env) (oe_msg env) spec (cycle_locale env ob d);
               deltas = diff_snapshots (oe_dumps env) (ob_prev ob) snapshot;
               ob' = ob\<lparr>ob_state := Some (derive_current_step snapshot), ob_prev := Some snapshot\<rparr>
           in (ob',
               if deltas = [] then d
               else observer_persist ob
                 (map (\<lambda>(i, e). observed_event ob (oe_now env) (oe_uuid env i) e)
                    (enumerate 0 deltas))
                 (touch_observed_session (oe_now env) (ob_session ob) d))))"

text \<open>The loop stops for good at the deadline.\<close>

fun observer_loop :: "observer_env list \<Rightarrow> observer \<times> db \<Rightarrow> observer \<times> db" where
  "observer_loop [] st = st"
| "observer_loop (env # envs) st =
     (if ob_deadline (fst st) \<le> oe_now env then st else observer_loop envs (observer_cycle env st))"

subsection \<open>The current step\<close>

lemma derive_current_step_none:
  "pg_step_id (derive_current_step snapshot) = None \<longleftrightarrow> list_all sr_ok snapshot"
proof (cases "find (\<lambda>s. \<not> sr_ok s) snapshot")
  case None
  then have "list_all sr_ok snapshot" by (auto simp: find_None_iff list_all_iff)
  with None show ?thesis by (simp add: derive_current_step_def)
next
  case (Some s)
  then have "s \<in> set snapshot" "\<not> sr_ok s" by (auto simp: find_Some_iff)
  with Some show ?thesis by (auto simp: derive_current_step_def list_all_iff)
qed

lemma derive_current_step_first:
  assumes "\<not> list_all sr_ok snapshot"
  shows "\<exists>pre s post. snapshot = pre @ s # post \<and> list_all sr_ok pre \<and> \<not> sr_ok s \<and>
    pg_step_id (derive_current_step snapshot) = Some (sr_id s) \<and>
    pg_failing (derive_current_step snapshot) = filter (\<lambda>c. \<not> cr_ok c) (sr_checks s)"
  using assms
proof (induction snapshot)
  case (Cons s ss)
  show ?case
  proof (cases "sr_ok s")
    case True
    with Cons obtain pre s' post where "ss = pre @ s' # post" "list_all sr_ok pre" "\<not> sr_ok s'"
      "pg_step_id (derive_current_step ss) = Some (sr_id s')"
      "pg_failing (derive_current_step ss) = filter (\<lambda>c. \<not> cr_ok c) (sr_checks s')" by auto
    with True show ?thesis
      by (intro exI [of _ "s # pre"]) (auto simp: derive_current_step_def)
  next
    case False
    then show ?thesis by (intro exI [of _ "[]"]) (simp add: derive_current_step_def)
  qed
qed simp

lemma derive_current_step_failing:
  assumes "steps_consistent snapshot" and "\<not> list_all sr_ok snapshot"
  shows "pg_failing (derive_current_step snapshot) \<noteq> []"
proof -
  from derive_current_step_first [OF assms(2)] obtain pre s post where
    "snapshot = pre @ s # post" "\<not> sr_ok s"
    "pg_failing (derive_current_step snapshot) = filter (\<lambda>c. \<not> cr_ok c) (sr_checks s)" by blast
  with assms(1) show ?thesis by (auto simp: steps_consistent_def filter_empty_conv list_all_iff)
qed

subsection \<open>Differences\<close>

lemma py_sub_obj_refl:
  assumes "distinct (map fst lvs)" and "set kvs \<subseteq> set lvs"
    and "\<And>k v. (k, v) \<in> set kvs \<Longrightarrow> py_eq v v"
  shows "py_sub_obj kvs lvs"
  using assms(2,3)
proof (induction kvs)
  case (Cons kv kvs)
  obtain k v where kv: "kv = (k, v)" by (cases kv)
  with Cons.prems assms(1) have "map_of lvs k = Some v" by auto
  with Cons kv show ?case by auto
qed simp

text \<open>JSON whose objects have distinct keys, as every Python dictionary has.\<close>

fun json_wf :: "json \<Rightarrow> bool" where
  "json_wf (JList xs) = list_all json_wf xs"
| "json_wf (JObj kvs) = (distinct (map fst kvs) \<and> list_all (\<lambda>(_, v). json_wf v) kvs)"
| "json_wf _ = True"

lemma py_eq_refl: "json_wf j \<Longrightarrow> py_eq j j"
proof (induction j)
  case (JList xs)
  then show ?case by (induction xs) auto
next
  case (JObj kvs)
  then have "py_sub_obj kvs kvs"
    by (intro py_sub_obj_refl) (fastforce simp: list_all_iff)+
  then show ?case by simp
qed auto

lemma diff_snapshots_source:
  assumes "e \<in> set (diff_snapshots dumps (Some prev) cur)"
  obtains c pc where "c \<in> set (concat (map sr_checks cur))"
    and "prev_index dumps prev (check_key dumps c) = Some pc" and "e \<in> set (diff_check dumps pc c)"
proof -
  from assms obtain c where "c \<in> set (concat (map sr_checks cur))"
    and "e \<in> set (case prev_index dumps prev (check_key dumps c) of
        None \<Rightarrow> [] | Some pc \<Rightarrow> diff_check dumps pc c)"
    unfolding diff_snapshots_def option.case set_concat [of "map _ _"] set_map by blast
  then show ?thesis
    by (cases "prev_index dumps prev (check_key dumps c)") (simp, rule that, simp_all)
qed

lemma diff_check_passed:
  assumes "e \<in> set (diff_check dumps pc c)"
  shows "(de_success e \<longleftrightarrow> de_action e = ''check_passed'') \<and>
    de_action e \<in> set OBSERVER_ACTIONS \<and> (de_type e = ''error'' \<longleftrightarrow> \<not> de_success e) \<and>
    (de_success e \<longleftrightarrow> cr_ok c)"
  using assms
  by (cases "cr_ok pc"; cases "cr_ok c"; cases "dict_eq (cr_actual pc) (cr_actual c)")
    (simp_all add: diff_check_def OBSERVER_ACTIONS_def Let_def)

lemma diff_snapshots_passed:
  assumes "e \<in> set (diff_snapshots dumps (Some prev) cur)"
  shows "(de_success e \<longleftrightarrow> de_action e = ''check_passed'') \<and>
    de_action e \<in> set OBSERVER_ACTIONS \<and> (de_type e = ''error'' \<longleftrightarrow> \<not> de_success e)"
  using assms by (rule diff_snapshots_source) (use diff_check_passed in blast)

lemma diff_check_empty: "diff_check dumps pc c = [] \<longleftrightarrow> cr_ok pc \<and> cr_ok c"
  by (simp add: diff_check_def Let_def)

text \<open>A snapshot compared with itself is silent exactly when the lab passes.\<close>

lemma prev_index_self:
  assumes "inj_on (check_key dumps) (set (concat (map sr_checks s)))"
    and "c \<in> set (concat (map sr_checks s))"
  shows "prev_index dumps s (check_key dumps c) = Some c"
proof -
  let ?cs = "rev (concat (map sr_checks s))"
  have "inj_on (check_key dumps) (set cs) \<Longrightarrow> c \<in> set cs \<Longrightarrow>
      map_of (map (\<lambda>c. (check_key dumps c, c)) cs) (check_key dumps c) = Some c" for cs
    by (induction cs) (auto simp: inj_on_def)
  from this [of ?cs] assms show ?thesis
    unfolding prev_index_def by (simp add: rev_map)
qed

lemma diff_self:
  assumes "inj_on (check_key dumps) (set (concat (map sr_checks s)))"
  shows "diff_snapshots dumps (Some s) s = [] \<longleftrightarrow> list_all cr_ok (concat (map sr_checks s))"
  using prev_index_self [OF assms]
  by (auto simp: diff_snapshots_def list_all_iff diff_check_empty split: option.splits)

lemma diff_self_failing:
  assumes "inj_on (check_key dumps) (set (concat (map sr_checks s)))"
    and "\<forall>c \<in> set (concat (map sr_checks s)). json_wf (JObj (cr_actual c))"
    and "e \<in> set (diff_snapshots dumps (Some s) s)"
  shows "de_action e = ''check_failing''"
proof -
  from assms(3) obtain c pc where c: "c \<in> set (concat (map sr_checks s))"
    and pc: "prev_index dumps s (check_key dumps c) = Some pc"
    and e: "e \<in> set (diff_check dumps pc c)" by (rule diff_snapshots_source)
  from c assms(2) have "dict_eq (cr_actual c) (cr_actual c)"
    unfolding dict_eq_def by (intro py_eq_refl) blast
  moreover have "pc = c" using pc prev_index_self [OF assms(1) c] by simp
  ultimately show ?thesis using e by (cases "cr_ok c") (simp_all add: diff_check_def Let_def)
qed

subsection \<open>What a cycle writes\<close>

lemma touch_observed_frame [simp]:
  "events (touch_observed_session t s d) = events d"
  "consents (touch_observed_session t s d) = consents d"
  "may_collect (touch_observed_session t s d) u = may_collect d u"
  by (simp_all add: touch_observed_session_def may_collect_def study_decision_def)

lemma observer_cycle_no_consent:
  assumes "\<not> may_collect (snd st) (ob_user (fst st))"
  shows "events (snd (observer_cycle env st)) = events (snd st) \<and>
    consents (snd (observer_cycle env st)) = consents (snd st) \<and>
    ob_user (fst (observer_cycle env st)) = ob_user (fst st)"
  using assms
  by (cases st) (simp add: observer_cycle_def observer_persist_def Let_def split: option.split)

lemma observer_cycle_ids: "map ls_id (sessions (snd (observer_cycle env st))) = map ls_id (sessions (snd st))"
  by (cases st) (simp add: observer_cycle_def observer_persist_def touch_observed_session_def
      map_update_where Let_def split: option.split)

lemma observer_loop_no_consent:
  assumes "\<not> may_collect (snd st) (ob_user (fst st))"
  shows "events (snd (observer_loop envs st)) = events (snd st)"
  using assms
proof (induction envs arbitrary: st)
  case (Cons env envs)
  note one = observer_cycle_no_consent [OF Cons.prems, of env]
  then have "\<not> may_collect (snd (observer_cycle env st)) (ob_user (fst (observer_cycle env st)))"
    using Cons.prems by (simp add: may_collect_def study_decision_def)
  with Cons.IH one show ?case by simp
qed simp

end
