(* ===== verification/Orchestrator.thy ===== *)
theory Orchestrator
  imports Observer
begin

text \<open>
  From a struggle to a text: \<open>agents/orchestrator/\<close>, the hint and tutor agents, the prompt
  context (\<open>analytics/runtime/context.py\<close>) and model resolution (\<open>clients/llm.py\<close>,
  \<open>AgentsConfig\<close>).  The language model is the parameter \<open>ox_llm\<close>: the text it returns for a
  model, a system prompt and a prompt, or the message of the exception the call raises.
\<close>

subsection \<open>Models\<close>

record provider_creds =
  pc_provider :: string
  pc_base_url :: "string option"
  pc_api_key :: "string option"
  pc_yandex_folder :: "string option"

record model_entry =
  me_id :: string
  me_label :: string
  me_provider_ref :: string
  me_model :: string
  me_tools :: bool

record agents_config =
  ag_providers :: "(string \<times> provider_creds) list"
  ag_catalog :: "model_entry list"
  ag_chat_model :: string
  ag_intervention_model :: string
  ag_follow_session :: bool

definition get_entry :: "agents_config \<Rightarrow> string \<Rightarrow> model_entry option" where
  "get_entry cfg model_id = find (\<lambda>m. me_id m = model_id) (ag_catalog cfg)"

text \<open>\<open>AgentsConfig.validate_refs\<close>; it also fills in the local Ollama URL.\<close>

definition creds_ok :: "provider_creds \<Rightarrow> bool" where
  "creds_ok c \<longleftrightarrow>
     (pc_provider c \<in> {''anthropic'', ''openai''} \<longrightarrow> truthy (pc_api_key c)) \<and>
     (pc_provider c = ''yandex'' \<longrightarrow> truthy (pc_api_key c) \<and> truthy (pc_yandex_folder c))"

definition fill_base_url :: "provider_creds \<Rightarrow> provider_creds" where
  "fill_base_url c =
     (if pc_provider c = ''ollama'' \<and> \<not> truthy (pc_base_url c)
      then c\<lparr>pc_base_url := Some ''http://localhost:11434/v1''\<rparr> else c)"

definition validate_refs :: "agents_config \<Rightarrow> py_error + agents_config" where
  "validate_refs cfg =
     (if list_all (\<lambda>m. map_of (ag_providers cfg) (me_provider_ref m) \<noteq> None) (ag_catalog cfg) \<and>
         get_entry cfg (ag_chat_model cfg) \<noteq> None \<and>
         get_entry cfg (ag_intervention_model cfg) \<noteq> None \<and>
         list_all (\<lambda>(_, c). creds_ok c) (ag_providers cfg)
      then Inr (cfg\<lparr>ag_providers := map (\<lambda>(r, c). (r, fill_base_url c)) (ag_providers cfg)\<rparr>)
      else Inl ValueError)"

definition resolve_model :: "agents_config \<Rightarrow> string \<Rightarrow> string + (provider_creds \<times> model_entry)" where
  "resolve_model cfg model_id =
     (case get_entry cfg model_id of
        None \<Rightarrow> Inl (''Unknown model_id: '' @ model_id)
      | Some e \<Rightarrow>
          (case map_of (ag_providers cfg) (me_provider_ref e) of
             None \<Rightarrow> Inl (me_provider_ref e) | Some c \<Rightarrow> Inr (c, e)))"

definition model_uri :: "agents_config \<Rightarrow> string \<Rightarrow> string + string" where
  "model_uri cfg model_id =
     (case resolve_model cfg model_id of
        Inl e \<Rightarrow> Inl e
      | Inr (c, e) \<Rightarrow>
          Inr (if pc_provider c = ''yandex'' \<and> truthy (pc_yandex_folder c)
               then ''gpt://'' @ the (pc_yandex_folder c) @ ''/'' @ me_model e else me_model e))"

definition build_model :: "agents_config \<Rightarrow> string \<Rightarrow> string + string" where
  "build_model cfg model_id =
     (case resolve_model cfg model_id of
        Inl e \<Rightarrow> Inl e
      | Inr (c, _) \<Rightarrow>
          (if pc_provider c = ''yandex'' \<and> \<not> truthy (pc_yandex_folder c)
           then Inl (''yandex_folder required for YANDEX provider, model '' @ model_id)
           else model_uri cfg model_id))"

subsection \<open>The prompt context\<close>

record agent_context =
  ac_topology :: string
  ac_errors :: "string list"
  ac_actions :: "string list"
  ac_struggle :: "string option"
  ac_dominant :: "string option"
  ac_summary :: string

text \<open>The dash between a struggle and its error, in UTF-8.\<close>

definition em_dash :: string where
  "em_dash = [CHR 0x20, CHR 0xE2, CHR 0x80, CHR 0x94, CHR 0x20]"

definition to_prompt :: "catalogue \<Rightarrow> agent_context \<Rightarrow> string \<Rightarrow> string" where
  "to_prompt msg c locale =
     join [CHR 0x0A]
       ([msg ''prompt.context.header'' locale []] @
        (if ac_topology c \<noteq> [] then [msg ''prompt.context.topology'' locale
           [(''value'', JStr (ac_topology c))]] else []) @
        (if ac_actions c \<noteq> [] then [msg ''prompt.context.recent_actions'' locale
           [(''value'', JStr (join '', '' (ac_actions c)))]] else []) @
        (if ac_errors c \<noteq> [] then [msg ''prompt.context.recent_errors'' locale
           [(''value'', JStr (join '', '' (ac_errors c)))]] else []) @
        (if truthy (ac_struggle c) then [msg ''prompt.context.struggle'' locale
           [(''value'', JStr (the (ac_struggle c) @
              (if truthy (ac_dominant c) then em_dash @ the (ac_dominant c) else [])))]] else []) @
        (if ac_summary c \<noteq> [] then [msg ''prompt.context.metrics'' locale
           [(''value'', JStr (ac_summary c))]] else []))"

record mcp_component =
  cm_name :: string
  cm_status :: string

definition summarize_topology :: "catalogue \<Rightarrow> mcp_component list \<Rightarrow> string \<Rightarrow> string" where
  "summarize_topology msg cs locale =
     (if cs = [] then []
      else msg ''prompt.context.components_summary'' locale
        [(''count'', JInt (int (length cs))),
         (''detail'', JStr (join ''; ''
            (map (\<lambda>st. join '', '' (map cm_name (filter (\<lambda>c. cm_status c = st) cs)) @ '' ('' @ st @ '')'')
               (first_occurrences (map cm_status cs)))))])"

text \<open>The three MCP reads; each failure becomes an empty list.\<close>

definition safe :: "string + 'a list \<Rightarrow> 'a list" where
  "safe r = (case r of Inl _ \<Rightarrow> [] | Inr xs \<Rightarrow> xs)"

definition build_context ::
  "catalogue \<Rightarrow> (real \<Rightarrow> string) \<Rightarrow> string + mcp_component list \<Rightarrow>
   string + (string \<times> string option) list \<Rightarrow> string + string list \<Rightarrow> session_features \<Rightarrow>
   string option \<Rightarrow> string option \<Rightarrow> string \<Rightarrow> agent_context" where
  "build_context msg repr components actions errors f struggle dominant locale =
     \<lparr>ac_topology = summarize_topology msg (safe components) locale,
      ac_errors = safe errors,
      ac_actions = map (\<lambda>(a, c). a @ ''('' @ (case c of None \<Rightarrow> [] | Some x \<Rightarrow> x) @ '')'') (safe actions),
      ac_struggle = struggle, ac_dominant = dominant,
      ac_summary = msg ''prompt.context.features_summary'' locale
        [(''events'', JInt (events_total f)), (''repeats'', JInt (error_repeat_count f)),
         (''entropy'', JFloat (repr (action_sequence_entropy f)))]\<rparr>"

subsection \<open>Agents\<close>

text \<open>
  \<open>AgentContext | None\<close> in an agent's input: a full dump validates, an absent value is None, and
  an empty dictionary lacks the required fields.
\<close>

datatype context_arg = CtxFull agent_context | CtxNone | CtxEmpty

record int_context =
  ic_struggle :: "string option"
  ic_dominant :: "string option"
  ic_lab :: string
  ic_step_slug :: string
  ic_step_title :: string
  ic_failing :: "check_row option"
  ic_attempts :: int
  ic_last_error :: "string option"
  ic_question :: string
  ic_agent_context :: context_arg
  ic_session_model :: "string option"

record intervention_input =
  ii_session :: string
  ii_user :: string
  ii_type :: string
  ii_context :: int_context
  ii_locale :: string

record response =
  rs_agent :: string
  rs_success :: bool
  rs_data :: dict
  rs_error :: "string option"
  rs_metadata :: dict

record orchestrator_env =
  ox_agents :: agents_config
  ox_llm :: "string \<Rightarrow> string \<Rightarrow> string \<Rightarrow> string + string"
  ox_msg :: catalogue
  ox_validation_message :: string

definition MAX_HINTS :: int where
  "MAX_HINTS = 3"

definition get_hint_level :: "int \<Rightarrow> int" where
  "get_hint_level attempts_count =
     (if attempts_count \<le> 1 then 1 else if attempts_count \<le> 3 then 2 else 3)"

definition get_remaining_hints :: "int \<Rightarrow> int" where
  "get_remaining_hints level = max 0 (MAX_HINTS - level)"

definition format_failing_check :: "catalogue \<Rightarrow> check_row \<Rightarrow> string \<Rightarrow> string" where
  "format_failing_check msg c locale =
     (let node = dict_str ''node'' (cr_params c);
          clause = (if node \<noteq> [] then msg ''prompt.failing_check_node'' locale [(''node'', JStr node)]
                    else [])
      in msg ''prompt.failing_check'' locale
           [(''kind'', JStr (cr_kind c)), (''node'', JStr clause),
            (''expected'', JObj (cr_expected c)), (''actual'', JObj (cr_actual c))])"

definition system_prompt :: "catalogue \<Rightarrow> string \<Rightarrow> string \<Rightarrow> string" where
  "system_prompt msg key locale =
     msg key locale [] @ [CHR 0x0A, CHR 0x0A] @ msg ''prompt.language_directive'' locale []"

definition ask :: "orchestrator_env \<Rightarrow> string \<Rightarrow> string \<Rightarrow> string \<Rightarrow> string + string" where
  "ask env model_id sys prompt =
     (case build_model (ox_agents env) model_id of
        Inl e \<Rightarrow> Inl e | Inr uri \<Rightarrow> ox_llm env uri sys prompt)"

definition run_hint :: "orchestrator_env \<Rightarrow> int_context \<Rightarrow> string \<Rightarrow> string \<Rightarrow> string + dict" where
  "run_hint env c locale model_id =
     (let msg = ox_msg env in
      case ic_agent_context c of
        CtxEmpty \<Rightarrow> Inl (ox_validation_message env)
      | CtxNone \<Rightarrow> Inl (if ic_attempts c < 0 then ox_validation_message env
                      else ''hint requires agent_context'')
      | CtxFull ac \<Rightarrow>
          (if ic_attempts c < 0 then Inl (ox_validation_message env)
           else
             let level = get_hint_level (ic_attempts c);
                 ls = (case ic_failing c of None \<Rightarrow> []
                          | Some f \<Rightarrow> [format_failing_check msg f locale]) @
                   [msg ''prompt.hint.level_line'' locale [(''level'', JInt level)],
                    msg ''prompt.hint.step_line'' locale [(''step'', JStr (ic_step_slug c))],
                    msg ''prompt.hint.last_error_line'' locale
                      [(''error'', (case ic_last_error c of None \<Rightarrow> JNull | Some e \<Rightarrow> JStr e))],
                    [], to_prompt msg ac locale]
             in case ask env model_id (system_prompt msg ''prompt.hint.system'' locale)
                       (join [CHR 0x0A] ls) of
                  Inl e \<Rightarrow> Inl e
                | Inr text \<Rightarrow> Inr [(''hint'', JStr text), (''hint_level'', JInt level),
                    (''remaining_hints'', JInt (get_remaining_hints level))]))"

definition run_tutor :: "orchestrator_env \<Rightarrow> int_context \<Rightarrow> string \<Rightarrow> string \<Rightarrow> string + dict" where
  "run_tutor env c locale model_id =
     (let msg = ox_msg env in
      if ic_agent_context c = CtxEmpty then Inl (ox_validation_message env)
      else
        let parts = (case ic_failing c of None \<Rightarrow> [] | Some f \<Rightarrow> [format_failing_check msg f locale]) @
              [msg ''prompt.tutor.question_prefix'' locale [(''question'', JStr (ic_question c))]] @
              (case ic_agent_context c of CtxFull ac \<Rightarrow> [to_prompt msg ac locale] | _ \<Rightarrow> [])
        in case ask env model_id (system_prompt msg ''prompt.tutor.intervention_system'' locale)
                  (join [CHR 0x0A, CHR 0x0A] parts) of
             Inl e \<Rightarrow> Inl e
           | Inr text \<Rightarrow> Inr [(''answer'', JStr text), (''follow_up_questions'', JList []),
               (''references'', JList [])])"

subsection \<open>Routing\<close>

definition INTENT_TO_AGENT :: "(string \<times> string) list" where
  "INTENT_TO_AGENT = [(''hint'', ''hint''), (''intervene_hint'', ''hint''),
     (''intervene_tutor'', ''tutor'')]"

definition resolve_agent :: "string \<Rightarrow> string option" where
  "resolve_agent intent = map_of INTENT_TO_AGENT intent"

definition resolve_intervention_model :: "agents_config \<Rightarrow> string option \<Rightarrow> string" where
  "resolve_intervention_model cfg sid =
     (if ag_follow_session cfg \<and> truthy sid \<and> get_entry cfg (the sid) \<noteq> None then the sid
      else ag_intervention_model cfg)"

text \<open>Both registered agents are LLM agents, so the branch without a model is never taken.\<close>

definition intervene ::
  "la_config \<Rightarrow> orchestrator_env \<Rightarrow> intervention_input \<Rightarrow> response" where
  "intervene cfg env i =
     (let agent_name = (if single_agent_mode cfg then ''intervene_tutor''
                        else ''intervene_'' @ ii_type i)
      in case resolve_agent agent_name of
           None \<Rightarrow> \<lparr>rs_agent = agent_name, rs_success = False, rs_data = [],
                   rs_error = Some (''No route for intervention: '' @ agent_name),
                   rs_metadata = []\<rparr>
         | Some agent \<Rightarrow>
             let model_id = resolve_intervention_model (ox_agents env)
                   (ic_session_model (ii_context i));
                 run = (if agent = ''hint'' then run_hint else run_tutor)
             in case run env (ii_context i) (ii_locale i) model_id of
                  Inl e \<Rightarrow> \<lparr>rs_agent = agent, rs_success = False, rs_data = [],
                     rs_error = Some e, rs_metadata = []\<rparr>
                | Inr data \<Rightarrow> \<lparr>rs_agent = agent, rs_success = True, rs_data = data,
                     rs_error = None,
                     rs_metadata = (''model'', JStr model_id) #
                       (case resolve_model (ox_agents env) model_id of
                          Inl _ \<Rightarrow> [] | Inr (c, _) \<Rightarrow> [(''provider'', JStr (pc_provider c))])\<rparr>)"

subsection \<open>What a response can be\<close>

lemma resolve_agent_cases:
  "resolve_agent intent = Some a \<Longrightarrow> a = ''hint'' \<or> a = ''tutor''"
  by (auto simp: resolve_agent_def INTENT_TO_AGENT_def split: if_splits)

lemma intervene_failure:
  "\<not> rs_success (intervene cfg env i) \<Longrightarrow>
     rs_data (intervene cfg env i) = [] \<and> rs_error (intervene cfg env i) \<noteq> None"
proof -
  let ?name = "if single_agent_mode cfg then ''intervene_tutor'' else ''intervene_'' @ ii_type i"
  let ?m = "resolve_intervention_model (ox_agents env) (ic_session_model (ii_context i))"
  assume f: "\<not> rs_success (intervene cfg env i)"
  show ?thesis
  proof (cases "resolve_agent ?name")
    case None
    then show ?thesis by (simp add: intervene_def Let_def del: append.simps)
  next
    case (Some a)
    with f show ?thesis
      by (cases "(if a = ''hint'' then run_hint else run_tutor) env (ii_context i) (ii_locale i) ?m")
        (simp_all add: intervene_def Let_def del: append.simps)
  qed
qed

lemma hint_level_range: "1 \<le> get_hint_level n \<and> get_hint_level n \<le> 3"
  by (simp add: get_hint_level_def)

lemma hint_level_remaining: "get_hint_level n + get_remaining_hints (get_hint_level n) = MAX_HINTS"
  by (simp add: get_hint_level_def get_remaining_hints_def MAX_HINTS_def)

lemma run_hint_data:
  "run_hint env c locale m = Inr data \<Longrightarrow>
     \<exists>text. data = [(''hint'', JStr text), (''hint_level'', JInt (get_hint_level (ic_attempts c))),
       (''remaining_hints'', JInt (get_remaining_hints (get_hint_level (ic_attempts c))))]"
  unfolding run_hint_def Let_def by (simp split: context_arg.splits if_splits sum.splits) blast

lemma run_tutor_data:
  "run_tutor env c locale m = Inr data \<Longrightarrow>
     \<exists>text. data = [(''answer'', JStr text), (''follow_up_questions'', JList []),
       (''references'', JList [])]"
  unfolding run_tutor_def Let_def by (simp split: if_splits sum.splits)  blast

text \<open>Without MCP context no agent can be built: the call fails whatever the model says.\<close>

lemma intervene_without_context:
  assumes "ic_agent_context (ii_context i) = CtxEmpty"
  shows "\<not> rs_success (intervene cfg env i)"
  using assms
  by (simp add: intervene_def run_hint_def run_tutor_def Let_def split: option.split)

text \<open>After validation the intervention model always resolves.\<close>

lemma find_in_set: "find P xs = Some x \<Longrightarrow> x \<in> set xs \<and> P x"
  by (auto simp: find_Some_iff)

lemma validated_model_resolves:
  assumes "validate_refs cfg0 = Inr cfg"
  shows "\<exists>c e. resolve_model cfg (resolve_intervention_model cfg sid) = Inr (c, e)"
proof -
  from assms have v: "list_all (\<lambda>m. map_of (ag_providers cfg0) (me_provider_ref m) \<noteq> None) (ag_catalog cfg0)"
    "get_entry cfg0 (ag_intervention_model cfg0) \<noteq> None"
    and cfg: "cfg = cfg0\<lparr>ag_providers := map (\<lambda>(r, c). (r, fill_base_url c)) (ag_providers cfg0)\<rparr>"
    by (auto simp: validate_refs_def split: if_splits)
  have "get_entry cfg (resolve_intervention_model cfg sid) \<noteq> None"
    using v(2) cfg by (auto simp: resolve_intervention_model_def get_entry_def)
  then obtain e where e: "get_entry cfg (resolve_intervention_model cfg sid) = Some e" by blast
  then have "e \<in> set (ag_catalog cfg0)" using cfg by (simp add: get_entry_def find_in_set)
  with v(1) obtain c where "map_of (ag_providers cfg0) (me_provider_ref e) = Some c"
    by (auto simp: list_all_iff)
  moreover have "map_of (map (\<lambda>(r, c). (r, fill_base_url c)) ps) k = map_option fill_base_url (map_of ps k)"
    for ps and k :: string by (induction ps) auto
  ultimately have "map_of (ag_providers cfg) (me_provider_ref e) = Some (fill_base_url c)"
    using cfg by (simp del: map_of_map)
  with e show ?thesis by (simp add: resolve_model_def)
qed

end
