(* ===== verification/Monitor.thy ===== *)
theory Monitor
  imports Feature_Facts Orchestrator
begin

text \<open>
  The session monitor (\<open>analytics/runtime/monitor.py\<close>): one analysis cycle from the event log
  to a delivered, withheld or denied intervention, its micro-randomized branch, and the rows it
  writes.  Everything the cycle reads from outside (clock readings in the order of the code,
  random draws, fresh ids, MCP reads, the agents) is one record \<open>cycle_env\<close>; what it writes is
  the record \<open>world\<close>.  Failing database writes, which the code logs and ignores, are not
  modelled.
\<close>

record monitor =
  mo_session :: string
  mo_user :: string
  mo_lab :: string
  mo_model :: "string option"
  mo_arm :: ControlArm
  mo_last_intervention :: "time option"
  mo_last_event :: "time option"
  mo_last_events :: "behavioral_event list"
  mo_dwell :: dwell_tracker
  mo_escalated :: bool
  mo_spell_id :: "string option"
  mo_spell_tk :: "real option"
  mo_open :: "string list"

datatype activity =
    StruggleSeen string real
  | CooldownSkip int
  | AgentInvoked string string string
  | HintGenerated json string string
  | Dispatched string string
  | ActivityError string string

record world =
  w_db :: db
  w_acts :: act_stamps
  w_sent :: "(string \<times> dict) list"
  w_activity :: "activity list"

record cycle_env =
  t_compute :: time
  t_state :: time
  t_escalation :: time
  t_now :: time
  t_would :: time
  t_trigger :: time
  t_elapsed :: time
  t_authorize :: time
  t_dispatched :: time
  t_logged :: time
  t_recorded :: time
  t_latency :: time
  analysis_ms :: real
  hold_roll :: real
  jitter_roll :: real
  uuid_escalation :: string
  uuid_spell :: string
  uuid_decision :: string
  uuid_event :: string
  has_interface :: bool
  has_gateway :: bool
  has_activity :: bool
  progress_view :: "progress_state option"
  read_components :: "string + mcp_component list"
  read_actions :: "string + (string \<times> string option) list"
  read_errors :: "string + string list"
  orch :: orchestrator_env
  show_float :: "real \<Rightarrow> string"
  show_dict :: "dict \<Rightarrow> string"

type_synonym mw = "monitor \<times> world"

definition on_db :: "(db \<Rightarrow> db) \<Rightarrow> world \<Rightarrow> world" where
  "on_db f w = w\<lparr>w_db := f (w_db w)\<rparr>"

definition add_event :: "behavioral_event \<Rightarrow> db \<Rightarrow> db" where
  "add_event e d = d\<lparr>events := events d @ [e]\<rparr>"

definition emit :: "cycle_env \<Rightarrow> activity \<Rightarrow> world \<Rightarrow> world" where
  "emit env a w = (if has_activity env then w\<lparr>w_activity := w_activity w @ [a]\<rparr> else w)"

subsection \<open>Starting and loading\<close>

definition latest_of :: "behavioral_event list \<Rightarrow> time option" where
  "latest_of es = (case es of [] \<Rightarrow> None
     | e # rest \<Rightarrow> Some (fold max (map ev_timestamp rest) (ev_timestamp e)))"

definition start_session ::
  "string \<Rightarrow> string \<Rightarrow> string \<Rightarrow> ControlArm \<Rightarrow> db \<Rightarrow> monitor" where
  "start_session session_id user_id lab arm d =
     \<lparr>mo_session = session_id, mo_user = user_id, mo_lab = lab,
      mo_model = (case find (\<lambda>s. ls_id s = session_id) (sessions d) of
                    None \<Rightarrow> None | Some s \<Rightarrow> ls_model_id s),
      mo_arm = arm, mo_last_intervention = None,
      mo_last_event = latest_of (filter (\<lambda>e. ev_session_id e = session_id) (events d)),
      mo_last_events = [], mo_dwell = dwell_init, mo_escalated = False,
      mo_spell_id = None, mo_spell_tk = None, mo_open = []\<rparr>"

definition own_rows :: "monitor \<Rightarrow> db \<Rightarrow> behavioral_event list" where
  "own_rows m d =
     filter (\<lambda>e. ev_session_id e = mo_session m \<and> ev_type e \<noteq> ''intervention'') (events d)"

definition load_new_events :: "monitor \<Rightarrow> db \<Rightarrow> behavioral_event list" where
  "load_new_events m d =
     (case latest_of (own_rows m d) of
        None \<Rightarrow> []
      | Some latest \<Rightarrow>
          if (case mo_last_event m of None \<Rightarrow> False | Some t \<Rightarrow> latest \<le> t) then []
          else rev (take 500 (sort_key (\<lambda>e. - ev_timestamp e) (own_rows m d))))"

definition take_events :: "behavioral_event list \<Rightarrow> monitor \<Rightarrow> behavioral_event list \<times> monitor" where
  "take_events es m =
     (if es \<noteq> [] then (es, m\<lparr>mo_last_event := Some (ev_timestamp (last es)), mo_last_events := es\<rparr>)
      else (mo_last_events m, m))"

subsection \<open>Process state, escalation, latency\<close>

definition log_process_state ::
  "analytics_result \<Rightarrow> time \<Rightarrow> mw \<Rightarrow> ProcessRegime \<times> real \<times> mw" where
  "log_process_state a now mw =
     (let (m, w) = mw; regime = analysis_to_regime a; (dwell, dt) = observe regime now (mo_dwell m)
      in (regime, dwell, m\<lparr>mo_dwell := dt\<rparr>,
          on_db (\<lambda>d. d\<lparr>samples := samples d @ [\<lparr>ps_session_id = mo_session m, ps_user_id = mo_user m,
            ps_lab_slug = mo_lab m, ps_ts = now, ps_regime = regime_value regime,
            ps_dwell_seconds = dwell\<rparr>]\<rparr>) w))"

definition record_latency :: "cycle_env \<Rightarrow> monitor \<Rightarrow> string \<Rightarrow> real \<Rightarrow> world \<Rightarrow> world" where
  "record_latency env m stage ms w =
     on_db (\<lambda>d. d\<lparr>latencies := latencies d @ [\<lparr>cl_session_id = mo_session m, cl_stage = stage,
       cl_duration_ms = ms, cl_ts = t_latency env\<rparr>]\<rparr>) w"

text \<open>The Russian "mentor needed", in UTF-8.\<close>

definition MENTOR_NEEDED :: string where
  "MENTOR_NEEDED =
    [CHR 0xD0, CHR 0xBD, CHR 0xD1, CHR 0x83, CHR 0xD0, CHR 0xB6, CHR 0xD0, CHR 0xB5,
     CHR 0xD0, CHR 0xBD, CHR 0x20, CHR 0xD0, CHR 0xBD, CHR 0xD0, CHR 0xB0, CHR 0xD1,
     CHR 0x81, CHR 0xD1, CHR 0x82, CHR 0xD0, CHR 0xB0, CHR 0xD0, CHR 0xB2, CHR 0xD0,
     CHR 0xBD, CHR 0xD0, CHR 0xB8, CHR 0xD0, CHR 0xBA]"

definition record_escalation ::
  "string \<Rightarrow> time \<Rightarrow> string \<Rightarrow> string \<Rightarrow> string \<Rightarrow> string \<Rightarrow> db \<Rightarrow> db" where
  "record_escalation new_id now session_id user_id lab source d =
     add_event \<lparr>ev_id = new_id, ev_session_id = session_id, ev_user_id = user_id,
       ev_lab_slug = lab, ev_timestamp = now, ev_type = ''escalation'', ev_component_id = None,
       ev_component_type = None, ev_action = source, ev_raw_command = None, ev_success = False,
       ev_severity = Some ''warn'', ev_message = Some MENTOR_NEEDED, ev_extra_data = None\<rparr> d"

definition is_escalation :: "la_config \<Rightarrow> real \<Rightarrow> bool" where
  "is_escalation cfg dwell \<longleftrightarrow> escalation_max_dwell cfg \<le> dwell"

definition escalate :: "la_config \<Rightarrow> cycle_env \<Rightarrow> ProcessRegime \<Rightarrow> real \<Rightarrow> mw \<Rightarrow> mw" where
  "escalate cfg env regime dwell mw =
     (let (m, w) = mw
      in if is_bad regime
         then (if is_escalation cfg dwell \<and> \<not> mo_escalated m
               then (m\<lparr>mo_escalated := True\<rparr>,
                     on_db (record_escalation (uuid_escalation env) (t_escalation env)
                       (mo_session m) (mo_user m) (mo_lab m) ''objective'') w)
               else (m, w))
         else (m\<lparr>mo_escalated := False\<rparr>, w))"

subsection \<open>Logging a decision\<close>

definition struggle_json :: "analytics_result \<Rightarrow> json" where
  "struggle_json a = (case struggle_type a of None \<Rightarrow> JNull | Some t \<Rightarrow> JStr (struggle_value t))"

definition would_event :: "cycle_env \<Rightarrow> monitor \<Rightarrow> analytics_result \<Rightarrow> string \<Rightarrow> behavioral_event" where
  "would_event env m a why = \<lparr>ev_id = uuid_event env, ev_session_id = mo_session m,
     ev_user_id = mo_user m, ev_lab_slug = mo_lab m, ev_timestamp = t_would env,
     ev_type = ''would_intervene'', ev_component_id = None, ev_component_type = None,
     ev_action = intervention_value (suggested_intervention a), ev_raw_command = None,
     ev_success = False, ev_severity = None, ev_message = None,
     ev_extra_data = Some (JObj [(''struggle_type'', struggle_json a),
       (''confidence'', JFloat (show_float env (confidence a))),
       (''control_arm'', JStr (arm_value (mo_arm m))), (''withheld_because'', JStr why)])\<rparr>"

definition log_would_intervene ::
  "cycle_env \<Rightarrow> analytics_result \<Rightarrow> string \<Rightarrow> monitor \<Rightarrow> world \<Rightarrow> world" where
  "log_would_intervene env a why m w = on_db (add_event (would_event env m a why)) w"

definition intervention_event ::
  "cycle_env \<Rightarrow> monitor \<Rightarrow> analytics_result \<Rightarrow> response \<Rightarrow> behavioral_event" where
  "intervention_event env m a r = \<lparr>ev_id = uuid_event env, ev_session_id = mo_session m,
     ev_user_id = mo_user m, ev_lab_slug = mo_lab m, ev_timestamp = t_logged env,
     ev_type = ''intervention'', ev_component_id = None, ev_component_type = None,
     ev_action = ''intervene_'' @ intervention_value (suggested_intervention a),
     ev_raw_command = None, ev_success = rs_success r, ev_severity = None,
     ev_message = (if rs_data r \<noteq> [] then Some (show_dict env (rs_data r)) else rs_error r),
     ev_extra_data = Some (JObj [(''struggle_type'', struggle_json a),
       (''confidence'', JFloat (show_float env (confidence a))),
       (''agent_used'', JStr (rs_agent r)), (''agent_backend'', JNull),
       (''experiment_group'', JNull), (''latency_ms'', JNull), (''error_code'', JNull),
       (''model'', (case map_of (rs_metadata r) ''model'' of None \<Rightarrow> JNull | Some x \<Rightarrow> x)),
       (''provider'', (case map_of (rs_metadata r) ''provider'' of None \<Rightarrow> JNull | Some x \<Rightarrow> x))])\<rparr>"

subsection \<open>Deciding, authorizing, dispatching\<close>

record pending =
  pn_analysis :: analytics_result
  pn_features :: session_features
  pn_payload :: intervention_input

definition should_trigger :: "la_config \<Rightarrow> time \<Rightarrow> monitor \<Rightarrow> bool" where
  "should_trigger cfg now m \<longleftrightarrow> la_enabled cfg \<and> cooled_down cfg (mo_last_intervention m) now"

definition mk_payload ::
  "cycle_env \<Rightarrow> analytics_result \<Rightarrow> session_features \<Rightarrow> monitor \<Rightarrow> db \<Rightarrow> intervention_input" where
  "mk_payload env a f m d =
     (let locale = negotiate
            (map_option ls_locale (find (\<lambda>s. ls_id s = mo_session m) (sessions d)));
          struggle = map_option struggle_value (struggle_type a);
          msg = ox_msg (orch env);
          key = (case struggle of None \<Rightarrow> ''prompt.struggle.fallback''
                 | Some s \<Rightarrow> ''prompt.struggle.'' @ s);
          question = msg key locale [] @
            (if truthy (dominant_error f)
             then msg ''prompt.struggle.last_error_suffix'' locale
                    [(''error'', JStr (the (dominant_error f)))] else []);
          st = progress_view env
      in \<lparr>ii_session = mo_session m, ii_user = mo_user m,
          ii_type = intervention_value (suggested_intervention a),
          ii_context = \<lparr>ic_struggle = struggle, ic_dominant = dominant_error f,
            ic_lab = mo_lab m,
            ic_step_slug = (case st of None \<Rightarrow> ''current''
              | Some p \<Rightarrow> if truthy (pg_step_id p) then the (pg_step_id p) else ''current''),
            ic_step_title = (case st of None \<Rightarrow> [] | Some p \<Rightarrow> pg_step_title p),
            ic_failing = (case st of None \<Rightarrow> None
              | Some p \<Rightarrow> (case pg_failing p of [] \<Rightarrow> None | c # _ \<Rightarrow> Some c)),
            ic_attempts = error_repeat_count f, ic_last_error = dominant_error f,
            ic_question = question,
            ic_agent_context = CtxFull (build_context msg (show_float env) (read_components env)
              (read_actions env) (read_errors env) f struggle (dominant_error f) locale),
            ic_session_model = mo_model m\<rparr>,
          ii_locale = locale\<rparr>)"

definition decide_intervention ::
  "la_config \<Rightarrow> cycle_env \<Rightarrow> analytics_result \<Rightarrow> session_features \<Rightarrow> mw \<Rightarrow> pending option \<times> world" where
  "decide_intervention cfg env a f mw =
     (let (m, w) = mw
      in if \<not> struggle_detected a then (None, w)
         else
           let w1 = emit env (StruggleSeen
                 (case struggle_type a of None \<Rightarrow> ''unknown'' | Some t \<Rightarrow> struggle_value t)
                 (confidence a)) w
           in if \<not> should_trigger cfg (t_trigger env) m
              then
                let elapsed = (case mo_last_intervention m of None \<Rightarrow> 0
                      | Some l \<Rightarrow> total_seconds (t_elapsed env - l))
                in (None, emit env (CooldownSkip (py_int (max 0 (cooldown_period cfg - elapsed)))) w1)
              else (Some \<lparr>pn_analysis = a, pn_features = f,
                          pn_payload = mk_payload env a f m (w_db w1)\<rparr>, w1))"

definition authorize_dispatch :: "la_config \<Rightarrow> cycle_env \<Rightarrow> mw \<Rightarrow> bool \<times> world" where
  "authorize_dispatch cfg env mw =
     (let (m, w) = mw
      in if \<not> has_interface env then (True, w)
         else
           let (denied, acts, d) = authorize_act cfg (t_authorize env) ''intervention'' (mo_user m)
                 (mo_session m) (mo_arm m) (Some (mo_lab m)) (w_acts w, w_db w)
           in (denied = None, w\<lparr>w_acts := acts, w_db := d\<rparr>))"

definition record_dispatch :: "cycle_env \<Rightarrow> response \<Rightarrow> monitor \<Rightarrow> world \<Rightarrow> world" where
  "record_dispatch env r m w =
     (if \<not> has_interface env then w
      else
        let (acts, d) = record_act (t_recorded env) ''intervention'' (mo_user m) (mo_session m)
              (rs_success r) (Some (mo_lab m)) (w_acts w, w_db w)
        in w\<lparr>w_acts := acts, w_db := d\<rparr>)"

definition grounding_ablation :: "la_config \<Rightarrow> cycle_env \<Rightarrow> pending \<Rightarrow> response \<Rightarrow> monitor \<Rightarrow> world \<Rightarrow> world" where
  "grounding_ablation cfg env p r m w =
     (if \<not> grounding_ablation_enabled cfg \<or> \<not> rs_success r then w
      else
        let payload = pn_payload p;
            bare = payload\<lparr>ii_context := (ii_context payload)\<lparr>ic_agent_context := CtxEmpty\<rparr>\<rparr>;
            r2 = intervene cfg (orch env) bare
        in on_db (\<lambda>d. d\<lparr>comparisons := comparisons d @ [\<lparr>gc_session_id = mo_session m,
             gc_grounded_text = dict_str ''hint'' (rs_data r),
             gc_ungrounded_text = dict_str ''hint'' (rs_data r2)\<rparr>]\<rparr>) w)"

definition model_name :: "response \<Rightarrow> string" where
  "model_name r = (case map_of (rs_metadata r) ''model'' of Some (JStr s) \<Rightarrow> s | _ \<Rightarrow> ''unknown'')"

definition get_or :: "json \<Rightarrow> string \<Rightarrow> dict \<Rightarrow> json" where
  "get_or dflt k d = (case map_of d k of None \<Rightarrow> dflt | Some x \<Rightarrow> x)"

text \<open>\<open>data.get("hint") or data.get("answer", "")\<close>: an empty hint falls through too.\<close>

definition sent_message :: "analytics_result \<Rightarrow> response \<Rightarrow> dict" where
  "sent_message a r =
     [(''intervention_type'', JStr (intervention_value (suggested_intervention a))),
      (''content'', (if dict_str ''hint'' (rs_data r) \<noteq> [] then JStr (dict_str ''hint'' (rs_data r))
                     else get_or (JStr []) ''answer'' (rs_data r))),
      (''hint_level'', get_or JNull ''hint_level'' (rs_data r)),
      (''struggle_type'', struggle_json a), (''dismissible'', JBool True)]"

definition dispatch_intervention :: "la_config \<Rightarrow> cycle_env \<Rightarrow> pending \<Rightarrow> mw \<Rightarrow> response \<times> mw" where
  "dispatch_intervention cfg env p mw =
     (let (m, w) = mw; ty = ii_type (pn_payload p);
          r = intervene cfg (orch env) (pn_payload p);
          agent = (if rs_agent r \<noteq> [] then rs_agent r else ''orchestrator'');
          m1 = m\<lparr>mo_last_intervention := Some (t_dispatched env)\<rparr>;
          w1 = emit env (AgentInvoked agent (model_name r) ty) w;
          w2 = (if rs_success r
                then emit env (Dispatched ty agent)
                       (emit env (HintGenerated (get_or (JInt 1) ''hint_level'' (rs_data r)) ty
                         (model_name r)) w1)
                else emit env (ActivityError (if truthy (rs_error r) then the (rs_error r)
                       else ''unknown error'') (rs_agent r)) w1);
          w3 = (if rs_success r \<and> has_gateway env
                then w2\<lparr>w_sent := w_sent w2 @ [(mo_session m, sent_message (pn_analysis p) r)]\<rparr>
                else w2)
      in (r, m1, grounding_ablation cfg env p r m1 w3))"

definition persist_intervention :: "cycle_env \<Rightarrow> pending \<Rightarrow> response \<Rightarrow> monitor \<Rightarrow> world \<Rightarrow> world" where
  "persist_intervention env p r m w =
     on_db (add_event (intervention_event env m (pn_analysis p) r)) w"

subsection \<open>The micro-randomized branch\<close>

definition mrt_open_spell :: "la_config \<Rightarrow> cycle_env \<Rightarrow> string \<Rightarrow> monitor \<Rightarrow> monitor" where
  "mrt_open_spell cfg env regime m =
     (let base = threshold_of (dwell_thresholds cfg) regime; j = mrt_t_k_jitter_frac cfg
      in m\<lparr>mo_spell_tk := Some (base * ((1 - j) + ((1 + j) - (1 - j)) * jitter_roll env)),
           mo_spell_id := Some (uuid_spell env), mo_open := []\<rparr>)"

definition mrt_close_spell :: "time \<Rightarrow> mw \<Rightarrow> mw" where
  "mrt_close_spell now mw =
     (let (m, w) = mw; ids = mo_open m;
          m1 = m\<lparr>mo_spell_id := None, mo_spell_tk := None, mo_open := []\<rparr>
      in (m1, if ids = [] then w
              else on_db (\<lambda>d. d\<lparr>decisions := update_where (\<lambda>r. id_id r \<in> set ids)
                     (\<lambda>r. r\<lparr>id_subsequent_exit_ts := Some now\<rparr>) (decisions d)\<rparr>) w))"

definition mrt_record_decision ::
  "cycle_env \<Rightarrow> string \<Rightarrow> real \<Rightarrow> real \<Rightarrow> string \<Rightarrow> time \<Rightarrow> mw \<Rightarrow> mw" where
  "mrt_record_decision env regime dwell tk assignment now mw =
     (let (m, w) = mw
      in (m\<lparr>mo_open := mo_open m @ [uuid_decision env]\<rparr>,
          on_db (\<lambda>d. d\<lparr>decisions := decisions d @ [\<lparr>id_id = uuid_decision env,
            id_session_id = mo_session m, id_user_id = mo_user m, id_lab_slug = mo_lab m,
            id_spell_id = (case mo_spell_id m of None \<Rightarrow> [] | Some s \<Rightarrow> s), id_ts = now,
            id_regime = regime, id_dwell_seconds = dwell, id_t_k_applied = tk,
            id_assignment = assignment, id_subsequent_exit_ts = None, id_censored = False\<rparr>]\<rparr>) w))"

text \<open>The spell bookkeeping of \<open>_mrt_step\<close>: a zero dwell closes the spell and may open one.\<close>

definition mrt_spells :: "la_config \<Rightarrow> cycle_env \<Rightarrow> ProcessRegime \<Rightarrow> real \<Rightarrow> time \<Rightarrow> mw \<Rightarrow> mw" where
  "mrt_spells cfg env regime dwell now mw =
     (if dwell = 0
      then
        let (m, w) = (if mo_spell_id (fst mw) \<noteq> None then mrt_close_spell now mw else mw)
        in (if is_bad regime then mrt_open_spell cfg env (regime_value regime) m else m, w)
      else mw)"

definition mrt_step ::
  "la_config \<Rightarrow> cycle_env \<Rightarrow> analytics_result \<Rightarrow> session_features \<Rightarrow> ProcessRegime \<Rightarrow> real \<Rightarrow> time \<Rightarrow>
   mw \<Rightarrow> mw" where
  "mrt_step cfg env a f regime dwell now mw0 =
     (let mw = mrt_spells cfg env regime dwell now mw0; m = fst mw
      in case (mo_spell_id m, mo_spell_tk m) of
           (Some _, Some tk) \<Rightarrow>
             (let dec = should_intervene regime dwell (mo_arm m) (mo_last_intervention m) cfg now
                    (Some tk) (Some (hold_roll env))
              in if action_of dec = Skip then mw
                 else
                   let (m1, w1) = mrt_record_decision env (regime_value regime) dwell tk
                         (if action_of dec = Intervene then ''intervene'' else ''withhold'') now mw
                   in if action_of dec = Withhold
                      then (m1\<lparr>mo_last_intervention := Some now\<rparr>,
                            log_would_intervene env a (reason dec) m1 w1)
                      else (case decide_intervention cfg env a f (m1, w1) of
                              (None, w2) \<Rightarrow> (m1, w2)
                            | (Some p, w2) \<Rightarrow>
                                (case dispatch_intervention cfg env p (m1, w2) of
                                   (r, m3, w3) \<Rightarrow>
                                     (m3\<lparr>mo_last_intervention := Some now\<rparr>,
                                      persist_intervention env p r m3 w3))))
         | _ \<Rightarrow> mw)"

subsection \<open>The cycle\<close>

text \<open>The arm-controlled branch of \<open>_run_analysis\<close>.\<close>

definition arm_step ::
  "la_config \<Rightarrow> cycle_env \<Rightarrow> analytics_result \<Rightarrow> session_features \<Rightarrow> ProcessRegime \<Rightarrow> real \<Rightarrow> time \<Rightarrow>
   mw \<Rightarrow> mw" where
  "arm_step cfg env a f regime dwell now mw =
     (let (m, w) = mw;
          dec = should_intervene regime dwell (mo_arm m) (mo_last_intervention m) cfg now None None
      in if action_of dec = Skip then (m, w)
         else if action_of dec = Withhold
         then (m\<lparr>mo_last_intervention := Some now\<rparr>, log_would_intervene env a (reason dec) m w)
         else (case decide_intervention cfg env a f (m, w) of
                 (None, w1) \<Rightarrow> (m, w1)
               | (Some p, w1) \<Rightarrow>
                   (case authorize_dispatch cfg env (m, w1) of
                      (False, w2) \<Rightarrow> (m, w2)
                    | (True, w2) \<Rightarrow>
                        (case dispatch_intervention cfg env p (m, w2) of
                           (r, m3, w3) \<Rightarrow>
                             (m3, record_dispatch env r m3 (persist_intervention env p r m3 w3))))))"

definition run_analysis :: "la_config \<Rightarrow> cycle_env \<Rightarrow> mw \<Rightarrow> py_error option \<times> mw" where
  "run_analysis cfg env mw =
     (let (es, m1) = take_events (load_new_events (fst mw) (w_db (snd mw))) (fst mw);
          w = snd mw
      in if es = [] then (None, (m1, w))
         else case compute cfg (t_compute env) (mo_session m1) es of
           Inl e \<Rightarrow> (Some e, (m1, w))
         | Inr f \<Rightarrow>
             (case identify_regime f cfg of
                Inl e \<Rightarrow> (Some e, (m1, w))
              | Inr a \<Rightarrow>
                  (case log_process_state a (t_state env) (m1, w) of
                     (regime, dwell, m2, w2) \<Rightarrow>
                       (let w3 = (if latency_capture_enabled cfg
                              then record_latency env m2 ''analysis'' (analysis_ms env) w2 else w2);
                            mw4 = escalate cfg env regime dwell (m2, w3)
                        in (None, (if mrt_enabled cfg then mrt_step else arm_step)
                                    cfg env a f regime dwell (t_now env) mw4)))))"

text \<open>The loop logs a cycle's exception and goes on.\<close>

definition analysis_loop :: "la_config \<Rightarrow> cycle_env list \<Rightarrow> mw \<Rightarrow> mw" where
  "analysis_loop cfg envs mw = fold (\<lambda>env mw. snd (run_analysis cfg env mw)) envs mw"

end
