(* ===== verification/Monitor_Facts.thy ===== *)
theory Monitor_Facts
  imports Monitor
begin

text \<open>
  What the monitor guarantees: when it delivers, whom it asks first, what it records, and how
  micro-randomized spells open and close.  The first group says what each operation leaves
  alone, so that every later proof is a case analysis on the control law's verdict.
\<close>

subsection \<open>Frames\<close>

lemma on_db_fields [simp]:
  "w_db (on_db f w) = f (w_db w)" "w_acts (on_db f w) = w_acts w"
  "w_sent (on_db f w) = w_sent w" "w_activity (on_db f w) = w_activity w"
  by (simp_all add: on_db_def)

lemma emit_fields [simp]:
  "w_db (emit env a w) = w_db w" "w_acts (emit env a w) = w_acts w" "w_sent (emit env a w) = w_sent w"
  by (simp_all add: emit_def)

lemma add_event_fields [simp]:
  "events (add_event e d) = events d @ [e]" "samples (add_event e d) = samples d"
  "decisions (add_event e d) = decisions d" "audits (add_event e d) = audits d"
  "consents (add_event e d) = consents d" "sessions (add_event e d) = sessions d"
  "comparisons (add_event e d) = comparisons d" "permitted (add_event e d) u s k = permitted d u s k"
  by (simp_all add: add_event_def permitted_def has_consent_def get_owned_session_def)

lemma audit_record_tables [simp]:
  "samples (audit_record t u s tn k b e l d) = samples d"
  "decisions (audit_record t u s tn k b e l d) = decisions d"
  "comparisons (audit_record t u s tn k b e l d) = comparisons d"
  by (simp_all add: audit_record_def)

lemma decide_frame [simp]:
  "w_db (snd (decide_intervention cfg env a f mw)) = w_db (snd mw)"
  "w_acts (snd (decide_intervention cfg env a f mw)) = w_acts (snd mw)"
  "w_sent (snd (decide_intervention cfg env a f mw)) = w_sent (snd mw)"
  by (simp_all add: decide_intervention_def case_prod_beta Let_def)

lemma decide_Some:
  "fst (decide_intervention cfg env a f mw) = Some p \<Longrightarrow>
     struggle_detected a \<and> should_trigger cfg (t_trigger env) (fst mw) \<and>
     p = \<lparr>pn_analysis = a, pn_features = f, pn_payload = mk_payload env a f (fst mw) (w_db (snd mw))\<rparr>"
  by (auto simp: decide_intervention_def case_prod_beta Let_def split: if_splits)

lemma authorize_frame [simp]:
  "w_sent (snd (authorize_dispatch cfg env mw)) = w_sent (snd mw)"
  "w_acts (snd (authorize_dispatch cfg env mw)) = w_acts (snd mw)"
  "events (w_db (snd (authorize_dispatch cfg env mw))) = events (w_db (snd mw))"
  "samples (w_db (snd (authorize_dispatch cfg env mw))) = samples (w_db (snd mw))"
  "decisions (w_db (snd (authorize_dispatch cfg env mw))) = decisions (w_db (snd mw))"
  "permitted (w_db (snd (authorize_dispatch cfg env mw))) u s k = permitted (w_db (snd mw)) u s k"
  by (simp_all add: authorize_dispatch_def authorize_act_def case_prod_beta Let_def split: option.split)

lemma authorize_True:
  assumes "fst (authorize_dispatch cfg env mw)" and "has_interface env"
  shows "permitted (w_db (snd mw)) (mo_user (fst mw)) (mo_session (fst mw)) ACT \<and>
    mo_arm (fst mw) = CLOSED \<and>
    \<not> rate_limited cfg (t_authorize env) (mo_session (fst mw)) (w_acts (snd mw))"
  using assms
  by (auto simp: authorize_dispatch_def authorize_act_def case_prod_beta Let_def act_denial_None
      split: option.splits)

lemma record_dispatch_frame [simp]:
  "w_sent (record_dispatch env r m w) = w_sent w"
  "events (w_db (record_dispatch env r m w)) = events (w_db w)"
  "samples (w_db (record_dispatch env r m w)) = samples (w_db w)"
  "decisions (w_db (record_dispatch env r m w)) = decisions (w_db w)"
  "permitted (w_db (record_dispatch env r m w)) u s k = permitted (w_db w) u s k"
  by (simp_all add: record_dispatch_def record_act_def case_prod_beta Let_def)

lemma permitted_comparisons [simp]:
  "permitted (d\<lparr>comparisons := x\<rparr>) u s k = permitted d u s k"
  "permitted (d\<lparr>samples := y\<rparr>) u s k = permitted d u s k"
  "permitted (d\<lparr>decisions := z\<rparr>) u s k = permitted d u s k"
  "permitted (d\<lparr>latencies := q\<rparr>) u s k = permitted d u s k"
  by (simp_all add: permitted_def has_consent_def get_owned_session_def)

lemma grounding_frame [simp]:
  "w_sent (grounding_ablation cfg env p r m w) = w_sent w"
  "w_acts (grounding_ablation cfg env p r m w) = w_acts w"
  "events (w_db (grounding_ablation cfg env p r m w)) = events (w_db w)"
  "samples (w_db (grounding_ablation cfg env p r m w)) = samples (w_db w)"
  "decisions (w_db (grounding_ablation cfg env p r m w)) = decisions (w_db w)"
  "audits (w_db (grounding_ablation cfg env p r m w)) = audits (w_db w)"
  "permitted (w_db (grounding_ablation cfg env p r m w)) u s k = permitted (w_db w) u s k"
  by (simp_all add: grounding_ablation_def Let_def)

lemma dispatch_frame [simp]:
  "w_acts (snd (snd (dispatch_intervention cfg env p mw))) = w_acts (snd mw)"
  "events (w_db (snd (snd (dispatch_intervention cfg env p mw)))) = events (w_db (snd mw))"
  "samples (w_db (snd (snd (dispatch_intervention cfg env p mw)))) = samples (w_db (snd mw))"
  "decisions (w_db (snd (snd (dispatch_intervention cfg env p mw)))) = decisions (w_db (snd mw))"
  "audits (w_db (snd (snd (dispatch_intervention cfg env p mw)))) = audits (w_db (snd mw))"
  "permitted (w_db (snd (snd (dispatch_intervention cfg env p mw)))) u s k =
     permitted (w_db (snd mw)) u s k"
  "fst (snd (dispatch_intervention cfg env p mw)) =
     (fst mw)\<lparr>mo_last_intervention := Some (t_dispatched env)\<rparr>"
  by (simp_all add: dispatch_intervention_def case_prod_beta Let_def)

lemma dispatch_response:
  "fst (dispatch_intervention cfg env p mw) = intervene cfg (orch env) (pn_payload p)"
  by (simp add: dispatch_intervention_def case_prod_beta Let_def)

lemma dispatch_sent:
  "w_sent (snd (snd (dispatch_intervention cfg env p mw))) = w_sent (snd mw) @
     (if rs_success (fst (dispatch_intervention cfg env p mw)) \<and> has_gateway env
      then [(mo_session (fst mw),
             sent_message (pn_analysis p) (fst (dispatch_intervention cfg env p mw)))] else [])"
  by (simp add: dispatch_intervention_def case_prod_beta Let_def)

lemma would_frame [simp]:
  "w_sent (log_would_intervene env a y m w) = w_sent w"
  "w_acts (log_would_intervene env a y m w) = w_acts w"
  "samples (w_db (log_would_intervene env a y m w)) = samples (w_db w)"
  "decisions (w_db (log_would_intervene env a y m w)) = decisions (w_db w)"
  "audits (w_db (log_would_intervene env a y m w)) = audits (w_db w)"
  "permitted (w_db (log_would_intervene env a y m w)) u s k = permitted (w_db w) u s k"
  by (simp_all add: log_would_intervene_def)

lemma persist_frame [simp]:
  "w_sent (persist_intervention env p r m w) = w_sent w"
  "w_acts (persist_intervention env p r m w) = w_acts w"
  "samples (w_db (persist_intervention env p r m w)) = samples (w_db w)"
  "decisions (w_db (persist_intervention env p r m w)) = decisions (w_db w)"
  "audits (w_db (persist_intervention env p r m w)) = audits (w_db w)"
  "permitted (w_db (persist_intervention env p r m w)) u s k = permitted (w_db w) u s k"
  by (simp_all add: persist_intervention_def)

subsection \<open>The verdict decides the branch\<close>

abbreviation arm_verdict :: "la_config \<Rightarrow> ProcessRegime \<Rightarrow> real \<Rightarrow> time \<Rightarrow> monitor \<Rightarrow> decision" where
  "arm_verdict cfg regime dwell now m \<equiv>
     should_intervene regime dwell (mo_arm m) (mo_last_intervention m) cfg now None None"

lemma arm_step_skip:
  "action_of (arm_verdict cfg regime dwell now (fst mw)) = Skip \<Longrightarrow>
     arm_step cfg env a f regime dwell now mw = mw"
  by (simp add: arm_step_def case_prod_beta Let_def)

lemma arm_step_withhold:
  "action_of (arm_verdict cfg regime dwell now (fst mw)) = Withhold \<Longrightarrow>
     arm_step cfg env a f regime dwell now mw =
       ((fst mw)\<lparr>mo_last_intervention := Some now\<rparr>, log_would_intervene env a
          (reason (arm_verdict cfg regime dwell now (fst mw))) (fst mw) (snd mw))"
  by (simp add: arm_step_def case_prod_beta Let_def)

lemma arm_step_intervene:
  assumes "action_of (arm_verdict cfg regime dwell now (fst mw)) = Intervene"
  shows "arm_step cfg env a f regime dwell now mw =
    (let dw = decide_intervention cfg env a f mw
     in case fst dw of None \<Rightarrow> (fst mw, snd dw)
        | Some p \<Rightarrow>
            let au = authorize_dispatch cfg env (fst mw, snd dw)
            in if \<not> fst au then (fst mw, snd au)
               else let di = dispatch_intervention cfg env p (fst mw, snd au)
                    in (fst (snd di), record_dispatch env (fst di) (fst (snd di))
                          (persist_intervention env p (fst di) (fst (snd di)) (snd (snd di)))))"
  using assms
  by (simp add: arm_step_def case_prod_beta Let_def split: option.split)

lemma arm_step_monitor:
  "fst (arm_step cfg env a f regime dwell now mw) =
     (fst mw)\<lparr>mo_last_intervention := mo_last_intervention (fst (arm_step cfg env a f regime dwell now mw))\<rparr>"
proof (cases "action_of (arm_verdict cfg regime dwell now (fst mw))")
  case Intervene
  then show ?thesis by (simp add: arm_step_intervene Let_def split: option.split)
next
  case Withhold
  then show ?thesis by (simp add: arm_step_withhold)
next
  case Skip
  then show ?thesis by (simp add: arm_step_skip)
qed

lemma arm_step_tables:
  "samples (w_db (snd (arm_step cfg env a f regime dwell now mw))) = samples (w_db (snd mw))"
  "decisions (w_db (snd (arm_step cfg env a f regime dwell now mw))) = decisions (w_db (snd mw))"
  "permitted (w_db (snd (arm_step cfg env a f regime dwell now mw))) u s k =
     permitted (w_db (snd mw)) u s k"
  by (cases "action_of (arm_verdict cfg regime dwell now (fst mw))";
      simp add: arm_step_intervene arm_step_withhold arm_step_skip Let_def split: option.split)+

text \<open>A delivery needs the control law's go-ahead and, behind the interface, every act gate.\<close>

lemma arm_step_sent:
  assumes "w_sent (snd (arm_step cfg env a f regime dwell now mw)) \<noteq> w_sent (snd mw)"
  shows "decision_point cfg None regime dwell (mo_last_intervention (fst mw)) now \<and>
    mo_arm (fst mw) = CLOSED \<and> struggle_detected a \<and>
    (has_interface env \<longrightarrow>
       permitted (w_db (snd mw)) (mo_user (fst mw)) (mo_session (fst mw)) ACT \<and>
       \<not> rate_limited cfg (t_authorize env) (mo_session (fst mw)) (w_acts (snd mw)))"
proof (cases "action_of (arm_verdict cfg regime dwell now (fst mw))")
  case Intervene
  note eq = arm_step_intervene [OF Intervene, of env a f]
  let ?dw = "decide_intervention cfg env a f mw"
  from assms eq obtain p where p: "fst ?dw = Some p" by (cases "fst ?dw") (auto simp: Let_def)
  let ?au = "authorize_dispatch cfg env (fst mw, snd ?dw)"
  from assms eq p have au: "fst ?au" by (auto simp: Let_def split: if_splits)
  from decide_Some [OF p] have "struggle_detected a" by simp
  moreover from Intervene have "decision_point cfg None regime dwell (mo_last_intervention (fst mw)) now"
    "mo_arm (fst mw) = CLOSED"
    by (cases "mo_arm (fst mw)"; simp add: should_intervene_action split: if_splits)+
  ultimately show ?thesis using authorize_True [OF au] by simp
qed (use assms in \<open>simp_all add: arm_step_withhold arm_step_skip\<close>)

subsection \<open>Micro-randomization\<close>

abbreviation mrt_verdict ::
  "la_config \<Rightarrow> cycle_env \<Rightarrow> ProcessRegime \<Rightarrow> real \<Rightarrow> time \<Rightarrow> real \<Rightarrow> monitor \<Rightarrow> decision" where
  "mrt_verdict cfg env regime dwell now tk m \<equiv>
     should_intervene regime dwell (mo_arm m) (mo_last_intervention m) cfg now (Some tk)
       (Some (hold_roll env))"

lemma mrt_step_no_spell:
  "mo_spell_id (fst (mrt_spells cfg env regime dwell now mw)) = None \<or>
   mo_spell_tk (fst (mrt_spells cfg env regime dwell now mw)) = None \<Longrightarrow>
     mrt_step cfg env a f regime dwell now mw = mrt_spells cfg env regime dwell now mw"
  by (auto simp: mrt_step_def Let_def split: option.split)

lemma mrt_step_spell:
  assumes "mrt_spells cfg env regime dwell now mw0 = mw"
    and "mo_spell_id (fst mw) = Some sid" and "mo_spell_tk (fst mw) = Some tk"
  shows "mrt_step cfg env a f regime dwell now mw0 =
    (let v = mrt_verdict cfg env regime dwell now tk (fst mw);
         mw1 = mrt_record_decision env (regime_value regime) dwell tk
           (if action_of v = Intervene then ''intervene'' else ''withhold'') now mw
     in case action_of v of
          Skip \<Rightarrow> mw
        | Withhold \<Rightarrow> ((fst mw1)\<lparr>mo_last_intervention := Some now\<rparr>,
            log_would_intervene env a (reason v) (fst mw1) (snd mw1))
        | Intervene \<Rightarrow>
            (let dw = decide_intervention cfg env a f mw1
             in case fst dw of None \<Rightarrow> (fst mw1, snd dw)
                | Some p \<Rightarrow>
                    let di = dispatch_intervention cfg env p (fst mw1, snd dw)
                    in ((fst (snd di))\<lparr>mo_last_intervention := Some now\<rparr>,
                        persist_intervention env p (fst di) (fst (snd di)) (snd (snd di)))))"
  using assms
  by (cases "action_of (mrt_verdict cfg env regime dwell now tk (fst mw))")
    (simp_all add: mrt_step_def Let_def case_prod_beta split: option.split)

lemma mrt_record_fields [simp]:
  "fst (mrt_record_decision env r dw tk asg now mw) =
     (fst mw)\<lparr>mo_open := mo_open (fst mw) @ [uuid_decision env]\<rparr>"
  "w_sent (snd (mrt_record_decision env r dw tk asg now mw)) = w_sent (snd mw)"
  "w_acts (snd (mrt_record_decision env r dw tk asg now mw)) = w_acts (snd mw)"
  "audits (w_db (snd (mrt_record_decision env r dw tk asg now mw))) = audits (w_db (snd mw))"
  "samples (w_db (snd (mrt_record_decision env r dw tk asg now mw))) = samples (w_db (snd mw))"
  "events (w_db (snd (mrt_record_decision env r dw tk asg now mw))) = events (w_db (snd mw))"
  "permitted (w_db (snd (mrt_record_decision env r dw tk asg now mw))) u s k =
     permitted (w_db (snd mw)) u s k"
  by (simp_all add: mrt_record_decision_def case_prod_beta)

lemma mrt_close_fields [simp]:
  "fst (mrt_close_spell now mw) =
     (fst mw)\<lparr>mo_spell_id := None, mo_spell_tk := None, mo_open := []\<rparr>"
  "w_sent (snd (mrt_close_spell now mw)) = w_sent (snd mw)"
  "w_acts (snd (mrt_close_spell now mw)) = w_acts (snd mw)"
  "audits (w_db (snd (mrt_close_spell now mw))) = audits (w_db (snd mw))"
  "samples (w_db (snd (mrt_close_spell now mw))) = samples (w_db (snd mw))"
  "events (w_db (snd (mrt_close_spell now mw))) = events (w_db (snd mw))"
  "permitted (w_db (snd (mrt_close_spell now mw))) u s k = permitted (w_db (snd mw)) u s k"
  by (simp_all add: mrt_close_spell_def case_prod_beta Let_def)

lemma mrt_spells_fields [simp]:
  "w_sent (snd (mrt_spells cfg env regime dwell now mw)) = w_sent (snd mw)"
  "w_acts (snd (mrt_spells cfg env regime dwell now mw)) = w_acts (snd mw)"
  "audits (w_db (snd (mrt_spells cfg env regime dwell now mw))) = audits (w_db (snd mw))"
  "samples (w_db (snd (mrt_spells cfg env regime dwell now mw))) = samples (w_db (snd mw))"
  "events (w_db (snd (mrt_spells cfg env regime dwell now mw))) = events (w_db (snd mw))"
  "permitted (w_db (snd (mrt_spells cfg env regime dwell now mw))) u s k =
     permitted (w_db (snd mw)) u s k"
  "mo_arm (fst (mrt_spells cfg env regime dwell now mw)) = mo_arm (fst mw)"
  "mo_last_intervention (fst (mrt_spells cfg env regime dwell now mw)) = mo_last_intervention (fst mw)"
  "mo_session (fst (mrt_spells cfg env regime dwell now mw)) = mo_session (fst mw)"
  "mo_user (fst (mrt_spells cfg env regime dwell now mw)) = mo_user (fst mw)"
  "mo_dwell (fst (mrt_spells cfg env regime dwell now mw)) = mo_dwell (fst mw)"
  by (simp_all add: mrt_spells_def mrt_open_spell_def case_prod_beta Let_def)

lemma mrt_record_decisions:
  "decisions (w_db (snd (mrt_record_decision env r dw tk asg now mw))) = decisions (w_db (snd mw)) @
     [\<lparr>id_id = uuid_decision env, id_session_id = mo_session (fst mw),
        id_user_id = mo_user (fst mw), id_lab_slug = mo_lab (fst mw),
        id_spell_id = (case mo_spell_id (fst mw) of None \<Rightarrow> [] | Some s \<Rightarrow> s), id_ts = now,
        id_regime = r, id_dwell_seconds = dw, id_t_k_applied = tk, id_assignment = asg,
        id_subsequent_exit_ts = None, id_censored = False\<rparr>]"
  by (simp add: mrt_record_decision_def case_prod_beta)

text \<open>The decision rows one step writes.\<close>

lemma mrt_step_decisions:
  assumes "mrt_spells cfg env regime dwell now mw0 = (m, w)"
    and "mo_spell_id m = Some sid" and "mo_spell_tk m = Some tk"
  shows "decisions (w_db (snd (mrt_step cfg env a f regime dwell now mw0))) = decisions (w_db w) @
    (if decision_point cfg (Some tk) regime dwell (mo_last_intervention m) now
     then [\<lparr>id_id = uuid_decision env, id_session_id = mo_session m, id_user_id = mo_user m,
        id_lab_slug = mo_lab m, id_spell_id = sid, id_ts = now, id_regime = regime_value regime,
        id_dwell_seconds = dwell, id_t_k_applied = tk,
        id_assignment = (if mo_arm m = CLOSED \<and> mrt_hold_probability cfg \<le> hold_roll env
                         then ''intervene'' else ''withhold''),
        id_subsequent_exit_ts = None, id_censored = False\<rparr>]
     else [])"
proof -
  have v: "action_of (mrt_verdict cfg env regime dwell now tk m) =
      (if \<not> decision_point cfg (Some tk) regime dwell (mo_last_intervention m) now then Skip
       else if mo_arm m = CLOSED \<and> mrt_hold_probability cfg \<le> hold_roll env then Intervene
       else Withhold)"
    by (cases "mo_arm m") (simp_all add: should_intervene_action held_back_def not_less)
  have "mo_spell_id (fst (m, w)) = Some sid" "mo_spell_tk (fst (m, w)) = Some tk"
    using assms(2,3) by simp_all
  note step = mrt_step_spell [OF assms(1) this, of a f]
  show ?thesis
  proof (cases "action_of (mrt_verdict cfg env regime dwell now tk m)")
    case Skip
    with v show ?thesis by (subst step) (simp add: Let_def split: if_splits)
  next
    case Withhold
    with v show ?thesis
      by (subst step) (simp add: Let_def mrt_record_decisions assms(2) split: if_splits)
  next
    case Intervene
    with v show ?thesis
      by (subst step)
        (simp add: Let_def mrt_record_decisions assms(2) split: if_splits option.split)
  qed
qed

subsection \<open>Spells\<close>

definition spell_inv :: "mw \<Rightarrow> bool" where
  "spell_inv mw \<longleftrightarrow>
     (mo_spell_id (fst mw) = None \<longleftrightarrow> mo_spell_tk (fst mw) = None) \<and>
     (mo_spell_id (fst mw) = None \<longrightarrow> mo_open (fst mw) = []) \<and>
     (\<forall>r \<in> set (decisions (w_db (snd mw))). id_session_id r = mo_session (fst mw) \<and>
        id_subsequent_exit_ts r = None \<longrightarrow> id_id r \<in> set (mo_open (fst mw)))"

lemma spell_inv_cong:
  assumes "spell_inv (m, w)" and "mo_spell_id m' = mo_spell_id m" and "mo_spell_tk m' = mo_spell_tk m"
    and "mo_open m' = mo_open m" and "mo_session m' = mo_session m"
    and "decisions (w_db w') = decisions (w_db w)"
  shows "spell_inv (m', w')"
  using assms by (simp add: spell_inv_def)

lemma update_exit_row:
  assumes "r \<in> set (update_where (\<lambda>r. id_id r \<in> ids) (\<lambda>r. r\<lparr>id_subsequent_exit_ts := Some now\<rparr>) rows)"
    and "id_subsequent_exit_ts r = None"
  shows "r \<in> set rows \<and> id_id r \<notin> ids"
proof -
  from assms(1) obtain r0 where r0: "r0 \<in> set rows"
    "r = (if id_id r0 \<in> ids then r0\<lparr>id_subsequent_exit_ts := Some now\<rparr> else r0)"
    by (auto simp: in_set_update_where)
  with assms(2) show ?thesis by (cases "id_id r0 \<in> ids") simp_all
qed

lemma mrt_close_inv: "spell_inv mw \<Longrightarrow> spell_inv (mrt_close_spell now mw)"
proof -
  assume i: "spell_inv mw"
  obtain m w where mw: "mw = (m, w)" by (cases mw)
  show ?thesis
  proof (cases "mo_open m = []")
    case True
    with i mw show ?thesis by (simp add: spell_inv_def mrt_close_spell_def Let_def)
  next
    case False
    with i mw show ?thesis
      by (auto simp: spell_inv_def mrt_close_spell_def Let_def dest!: update_exit_row)
  qed
qed

lemma mrt_open_inv:
  "spell_inv (m, w) \<Longrightarrow> mo_open m = [] \<Longrightarrow> spell_inv (mrt_open_spell cfg env r m, w)"
  by (simp add: spell_inv_def mrt_open_spell_def Let_def)

lemma mrt_spells_inv:
  assumes "spell_inv mw" shows "spell_inv (mrt_spells cfg env regime dwell now mw)"
proof (cases "dwell = 0")
  case True
  define mw1 where "mw1 = (if mo_spell_id (fst mw) \<noteq> None then mrt_close_spell now mw else mw)"
  have "spell_inv mw1" using assms by (simp add: mw1_def mrt_close_inv)
  moreover have "mo_open (fst mw1) = []" using assms by (auto simp: mw1_def spell_inv_def)
  moreover have "mrt_spells cfg env regime dwell now mw =
      (if is_bad regime then mrt_open_spell cfg env (regime_value regime) (fst mw1) else fst mw1,
       snd mw1)"
    using True by (simp add: mrt_spells_def mw1_def case_prod_beta Let_def)
  ultimately show ?thesis
    using mrt_open_inv [of "fst mw1" "snd mw1"] by (cases "is_bad regime") simp_all
qed (simp add: mrt_spells_def assms)

lemma mrt_record_inv:
  assumes "spell_inv mw" and "mo_spell_id (fst mw) \<noteq> None"
  shows "spell_inv (mrt_record_decision env r dw tk asg now mw)"
  using assms by (auto simp: spell_inv_def mrt_record_decisions)

lemma mrt_step_inv:
  assumes "spell_inv mw" shows "spell_inv (mrt_step cfg env a f regime dwell now mw)"
proof -
  obtain m w where mw: "mrt_spells cfg env regime dwell now mw = (m, w)"
    by (cases "mrt_spells cfg env regime dwell now mw")
  have i: "spell_inv (m, w)" using mrt_spells_inv [OF assms, of cfg env regime dwell now] mw by simp
  show ?thesis
  proof (cases "mo_spell_id m = None \<or> mo_spell_tk m = None")
    case True
    then show ?thesis using i mw by (simp add: mrt_step_no_spell)
  next
    case False
    then obtain sid tk where s: "mo_spell_id m = Some sid" "mo_spell_tk m = Some tk" by auto
    let ?v = "mrt_verdict cfg env regime dwell now tk m"
    let ?mw1 = "mrt_record_decision env (regime_value regime) dwell tk
      (if action_of ?v = Intervene then ''intervene'' else ''withhold'') now (m, w)"
    have i1: "spell_inv (fst ?mw1, snd ?mw1)"
      unfolding prod.collapse by (rule mrt_record_inv [OF i]) (simp add: s)
    show ?thesis
    proof (cases "action_of ?v")
      case Skip
      then show ?thesis using i s mrt_step_spell [OF mw, of sid tk a f] by simp
    next
      case Withhold
      then show ?thesis
        using s mrt_step_spell [OF mw, of sid tk a f] i1 by (auto intro!: spell_inv_cong [OF i1])
    next
      case Intervene
      then show ?thesis
        using s mrt_step_spell [OF mw, of sid tk a f]
        by (auto simp: Let_def intro!: spell_inv_cong [OF i1] split: option.split)
    qed
  qed
qed

lemma mrt_step_frame:
  "audits (w_db (snd (mrt_step cfg env a f regime dwell now mw))) = audits (w_db (snd mw))"
  "w_acts (snd (mrt_step cfg env a f regime dwell now mw)) = w_acts (snd mw)"
  "samples (w_db (snd (mrt_step cfg env a f regime dwell now mw))) = samples (w_db (snd mw))"
  "permitted (w_db (snd (mrt_step cfg env a f regime dwell now mw))) u s k =
     permitted (w_db (snd mw)) u s k"
  "mo_arm (fst (mrt_step cfg env a f regime dwell now mw)) = mo_arm (fst mw)"
  "mo_session (fst (mrt_step cfg env a f regime dwell now mw)) = mo_session (fst mw)"
  "mo_user (fst (mrt_step cfg env a f regime dwell now mw)) = mo_user (fst mw)"
  "mo_dwell (fst (mrt_step cfg env a f regime dwell now mw)) = mo_dwell (fst mw)"
proof -
  obtain m w where mw: "mrt_spells cfg env regime dwell now mw = (m, w)"
    by (cases "mrt_spells cfg env regime dwell now mw")
  note sp = mrt_spells_fields [of cfg env regime dwell now mw, unfolded mw, simplified]
  let ?r = "mrt_step cfg env a f regime dwell now mw"
  have "audits (w_db (snd ?r)) = audits (w_db w) \<and> w_acts (snd ?r) = w_acts w \<and>
      samples (w_db (snd ?r)) = samples (w_db w) \<and>
      permitted (w_db (snd ?r)) u s k = permitted (w_db w) u s k \<and> mo_arm (fst ?r) = mo_arm m \<and>
      mo_session (fst ?r) = mo_session m \<and> mo_user (fst ?r) = mo_user m \<and>
      mo_dwell (fst ?r) = mo_dwell m"
  proof (cases "mo_spell_id m = None \<or> mo_spell_tk m = None")
    case True
    then show ?thesis using mw by (simp add: mrt_step_no_spell)
  next
    case False
    then obtain sid tk where "mo_spell_id (fst (m, w)) = Some sid" "mo_spell_tk (fst (m, w)) = Some tk"
      by auto
    note step = mrt_step_spell [OF mw this, of a f]
    show ?thesis
      by (subst step)+ (cases "action_of (mrt_verdict cfg env regime dwell now tk m)";
        simp add: Let_def split: option.split)
  qed
  with sp show "audits (w_db (snd ?r)) = audits (w_db (snd mw))" "w_acts (snd ?r) = w_acts (snd mw)"
    "samples (w_db (snd ?r)) = samples (w_db (snd mw))"
    "permitted (w_db (snd ?r)) u s k = permitted (w_db (snd mw)) u s k"
    "mo_arm (fst ?r) = mo_arm (fst mw)" "mo_session (fst ?r) = mo_session (fst mw)"
    "mo_user (fst ?r) = mo_user (fst mw)" "mo_dwell (fst ?r) = mo_dwell (fst mw)"
    by simp_all
qed

lemma mrt_step_sent:
  assumes "w_sent (snd (mrt_step cfg env a f regime dwell now mw)) \<noteq> w_sent (snd mw)"
  shows "\<exists>tk. decision_point cfg (Some tk) regime dwell (mo_last_intervention (fst mw)) now \<and>
    mo_arm (fst mw) = CLOSED \<and> struggle_detected a \<and> mrt_hold_probability cfg \<le> hold_roll env"
proof -
  obtain m w where mw: "mrt_spells cfg env regime dwell now mw = (m, w)"
    by (cases "mrt_spells cfg env regime dwell now mw")
  note sp = mrt_spells_fields [of cfg env regime dwell now mw, unfolded mw, simplified]
  have "\<not> (mo_spell_id m = None \<or> mo_spell_tk m = None)"
  proof
    assume "mo_spell_id m = None \<or> mo_spell_tk m = None"
    then have "mrt_step cfg env a f regime dwell now mw = (m, w)"
      using mw mrt_step_no_spell [of cfg env regime dwell now mw a f] by simp
    with assms sp show False by simp
  qed
  then obtain sid tk where s: "mo_spell_id (fst (m, w)) = Some sid" "mo_spell_tk (fst (m, w)) = Some tk"
    by auto
  note step = mrt_step_spell [OF mw s, of a f]
  let ?v = "mrt_verdict cfg env regime dwell now tk m"
  have v: "action_of ?v = Intervene"
  proof (cases "action_of ?v")
    case Withhold
    with assms sp show ?thesis by (simp add: step Let_def)
  next
    case Skip
    with assms sp show ?thesis by (simp add: step Let_def)
  qed
  let ?mw1 = "mrt_record_decision env (regime_value regime) dwell tk ''intervene'' now (m, w)"
  from assms v sp obtain p where "fst (decide_intervention cfg env a f ?mw1) = Some p"
    by (cases "fst (decide_intervention cfg env a f ?mw1)") (auto simp: step Let_def)
  with v sp show ?thesis
    by (cases "mo_arm m")
      (auto simp: should_intervene_action held_back_def dest!: decide_Some split: if_splits)
qed

subsection \<open>The cycle as observation, then control\<close>

definition observed ::
  "la_config \<Rightarrow> cycle_env \<Rightarrow> analytics_result \<Rightarrow> mw \<Rightarrow> mw" where
  "observed cfg env a mw =
     (case log_process_state a (t_state env) mw of
        (regime, dwell, m2, w2) \<Rightarrow>
          escalate cfg env regime dwell
            (m2, if latency_capture_enabled cfg
                 then record_latency env m2 ''analysis'' (analysis_ms env) w2 else w2))"

abbreviation dwell_of :: "cycle_env \<Rightarrow> analytics_result \<Rightarrow> monitor \<Rightarrow> real" where
  "dwell_of env a m \<equiv> fst (observe (analysis_to_regime a) (t_state env) (mo_dwell m))"

definition control ::
  "la_config \<Rightarrow> cycle_env \<Rightarrow> analytics_result \<Rightarrow> session_features \<Rightarrow> real \<Rightarrow> mw \<Rightarrow> mw" where
  "control cfg env a f dwell mw =
     (if mrt_enabled cfg then mrt_step else arm_step) cfg env a f (analysis_to_regime a) dwell
       (t_now env) mw"

lemma observed_fields [simp]:
  "w_sent (snd (observed cfg env a mw)) = w_sent (snd mw)"
  "w_acts (snd (observed cfg env a mw)) = w_acts (snd mw)"
  "decisions (w_db (snd (observed cfg env a mw))) = decisions (w_db (snd mw))"
  "audits (w_db (snd (observed cfg env a mw))) = audits (w_db (snd mw))"
  "permitted (w_db (snd (observed cfg env a mw))) u s k = permitted (w_db (snd mw)) u s k"
  "samples (w_db (snd (observed cfg env a mw))) = samples (w_db (snd mw)) @
     [\<lparr>ps_session_id = mo_session (fst mw), ps_user_id = mo_user (fst mw),
       ps_lab_slug = mo_lab (fst mw), ps_ts = t_state env,
       ps_regime = regime_value (analysis_to_regime a), ps_dwell_seconds = dwell_of env a (fst mw)\<rparr>]"
  "fst (observed cfg env a mw) =
     (fst mw)\<lparr>mo_dwell := snd (observe (analysis_to_regime a) (t_state env) (mo_dwell (fst mw))),
              mo_escalated := is_bad (analysis_to_regime a) \<and> (mo_escalated (fst mw) \<or>
                is_escalation cfg (dwell_of env a (fst mw)))\<rparr>"
  by (auto simp: observed_def log_process_state_def escalate_def record_latency_def
      record_escalation_def case_prod_beta Let_def)

lemma observed_monitor [simp]:
  "mo_arm (fst (observed cfg env a mw)) = mo_arm (fst mw)"
  "mo_session (fst (observed cfg env a mw)) = mo_session (fst mw)"
  "mo_user (fst (observed cfg env a mw)) = mo_user (fst mw)"
  "mo_last_intervention (fst (observed cfg env a mw)) = mo_last_intervention (fst mw)"
  "mo_spell_id (fst (observed cfg env a mw)) = mo_spell_id (fst mw)"
  "mo_spell_tk (fst (observed cfg env a mw)) = mo_spell_tk (fst mw)"
  "mo_open (fst (observed cfg env a mw)) = mo_open (fst mw)"
  "mo_dwell (fst (observed cfg env a mw)) =
     snd (observe (analysis_to_regime a) (t_state env) (mo_dwell (fst mw)))"
  by simp_all

abbreviation loaded :: "mw \<Rightarrow> behavioral_event list \<times> monitor" where
  "loaded mw \<equiv> take_events (load_new_events (fst mw) (w_db (snd mw))) (fst mw)"

lemma loaded_monitor [simp]:
  "mo_arm (snd (loaded mw)) = mo_arm (fst mw)" "mo_session (snd (loaded mw)) = mo_session (fst mw)"
  "mo_user (snd (loaded mw)) = mo_user (fst mw)"
  "mo_last_intervention (snd (loaded mw)) = mo_last_intervention (fst mw)"
  "mo_spell_id (snd (loaded mw)) = mo_spell_id (fst mw)"
  "mo_spell_tk (snd (loaded mw)) = mo_spell_tk (fst mw)"
  "mo_open (snd (loaded mw)) = mo_open (fst mw)" "mo_dwell (snd (loaded mw)) = mo_dwell (fst mw)"
  by (simp_all add: take_events_def)

lemma run_analysis_cases:
  obtains (quiet) e where "run_analysis cfg env mw = (e, snd (loaded mw), snd mw)"
  | (cycle) f a where "compute cfg (t_compute env) (mo_session (fst mw)) (fst (loaded mw)) = Inr f"
      and "identify_regime f cfg = Inr a"
      and "run_analysis cfg env mw = (None, control cfg env a f (dwell_of env a (fst mw))
        (observed cfg env a (snd (loaded mw), snd mw)))"
proof (cases "fst (loaded mw) = []")
  case True
  then show ?thesis using quiet [of None] by (simp add: run_analysis_def case_prod_beta Let_def)
next
  case ne: False
  show ?thesis
  proof (cases "compute cfg (t_compute env) (mo_session (fst mw)) (fst (loaded mw))")
    case (Inl e)
    with ne show ?thesis using quiet [of "Some e"]
      by (simp add: run_analysis_def case_prod_beta Let_def)
  next
    case f: (Inr f)
    show ?thesis
    proof (cases "identify_regime f cfg")
      case (Inl e)
      with ne f show ?thesis using quiet [of "Some e"]
        by (simp add: run_analysis_def case_prod_beta Let_def)
    next
      case (Inr a)
      with ne f show ?thesis using cycle [OF f Inr]
        by (simp add: run_analysis_def control_def observed_def log_process_state_def
            case_prod_beta Let_def)
    qed
  qed
qed

subsection \<open>Whole runs\<close>

lemma arm_step_monitor_fields:
  "mo_arm (fst (arm_step cfg env a f regime dwell now mw)) = mo_arm (fst mw)"
  "mo_session (fst (arm_step cfg env a f regime dwell now mw)) = mo_session (fst mw)"
  "mo_user (fst (arm_step cfg env a f regime dwell now mw)) = mo_user (fst mw)"
  "mo_dwell (fst (arm_step cfg env a f regime dwell now mw)) = mo_dwell (fst mw)"
  "mo_spell_id (fst (arm_step cfg env a f regime dwell now mw)) = mo_spell_id (fst mw)"
  "mo_spell_tk (fst (arm_step cfg env a f regime dwell now mw)) = mo_spell_tk (fst mw)"
  "mo_open (fst (arm_step cfg env a f regime dwell now mw)) = mo_open (fst mw)"
  by (subst arm_step_monitor, simp)+

lemma control_fields [simp]:
  "mo_arm (fst (control cfg env a f dwell mw)) = mo_arm (fst mw)"
  "mo_session (fst (control cfg env a f dwell mw)) = mo_session (fst mw)"
  "mo_user (fst (control cfg env a f dwell mw)) = mo_user (fst mw)"
  "mo_dwell (fst (control cfg env a f dwell mw)) = mo_dwell (fst mw)"
  "samples (w_db (snd (control cfg env a f dwell mw))) = samples (w_db (snd mw))"
  "permitted (w_db (snd (control cfg env a f dwell mw))) u s k = permitted (w_db (snd mw)) u s k"
  by (simp_all add: control_def mrt_step_frame arm_step_monitor_fields arm_step_tables)

abbreviation next_state :: "la_config \<Rightarrow> cycle_env \<Rightarrow> mw \<Rightarrow> mw" where
  "next_state cfg env mw \<equiv> snd (run_analysis cfg env mw)"

lemma run_analysis_frame:
  "mo_arm (fst (next_state cfg env mw)) = mo_arm (fst mw)"
  "mo_session (fst (next_state cfg env mw)) = mo_session (fst mw)"
  "mo_user (fst (next_state cfg env mw)) = mo_user (fst mw)"
  "permitted (w_db (snd (next_state cfg env mw))) u s k = permitted (w_db (snd mw)) u s k"
  by (cases cfg env mw rule: run_analysis_cases; simp)+

text \<open>What a delivery in one cycle presupposes.\<close>

lemma run_analysis_sent:
  assumes "w_sent (snd (next_state cfg env mw)) \<noteq> w_sent (snd mw)"
  shows "\<exists>mrt regime dwell. is_bad regime \<and>
    decision_point cfg mrt regime dwell (mo_last_intervention (fst mw)) (t_now env)"
    and "mo_arm (fst mw) = CLOSED"
    and "\<not> mrt_enabled cfg \<Longrightarrow> has_interface env \<Longrightarrow>
      permitted (w_db (snd mw)) (mo_user (fst mw)) (mo_session (fst mw)) ACT \<and>
      \<not> rate_limited cfg (t_authorize env) (mo_session (fst mw)) (w_acts (snd mw))"
proof -
  have "(\<exists>mrt regime dwell. decision_point cfg mrt regime dwell (mo_last_intervention (fst mw))
          (t_now env)) \<and>
      mo_arm (fst mw) = CLOSED \<and> (\<not> mrt_enabled cfg \<longrightarrow> has_interface env \<longrightarrow>
        permitted (w_db (snd mw)) (mo_user (fst mw)) (mo_session (fst mw)) ACT \<and>
        \<not> rate_limited cfg (t_authorize env) (mo_session (fst mw)) (w_acts (snd mw)))"
  proof (cases cfg env mw rule: run_analysis_cases)
    case (quiet e)
    with assms show ?thesis by simp
  next
    case (cycle f a)
    let ?o = "observed cfg env a (snd (loaded mw), snd mw)"
    from assms cycle(3) have sent: "w_sent (snd (control cfg env a f (dwell_of env a (fst mw)) ?o)) \<noteq>
        w_sent (snd ?o)" by simp
    show ?thesis
    proof (cases "mrt_enabled cfg")
      case True
      with sent mrt_step_sent [of cfg env a f _ _ _ ?o] show ?thesis
        by (fastforce simp: control_def)
    next
      case False
      with sent arm_step_sent [of cfg env a f _ _ _ ?o] show ?thesis
        by (fastforce simp: control_def)
    qed
  qed
  then show "\<exists>mrt regime dwell. is_bad regime \<and>
      decision_point cfg mrt regime dwell (mo_last_intervention (fst mw)) (t_now env)"
    and "mo_arm (fst mw) = CLOSED"
    and "\<not> mrt_enabled cfg \<Longrightarrow> has_interface env \<Longrightarrow>
      permitted (w_db (snd mw)) (mo_user (fst mw)) (mo_session (fst mw)) ACT \<and>
      \<not> rate_limited cfg (t_authorize env) (mo_session (fst mw)) (w_acts (snd mw))"
    by (auto simp: decision_point_def)
qed

lemma analysis_loop_Nil [simp]: "analysis_loop cfg [] mw = mw"
  by (simp add: analysis_loop_def)

lemma analysis_loop_Cons [simp]:
  "analysis_loop cfg (env # envs) mw = analysis_loop cfg envs (next_state cfg env mw)"
  by (simp add: analysis_loop_def)

interpretation open_arm: transition_system "next_state cfg"
  "\<lambda>mw. mo_arm (fst mw) = OPEN \<and> w_sent (snd mw) = sent"
  for cfg sent
proof unfold_locales
  fix mw :: mw and env
  assume "mo_arm (fst mw) = OPEN \<and> w_sent (snd mw) = sent"
  then show "mo_arm (fst (next_state cfg env mw)) = OPEN \<and> w_sent (snd (next_state cfg env mw)) = sent"
    using run_analysis_sent(2) [of cfg env mw] by (auto simp: run_analysis_frame)
qed

lemma analysis_loop_open:
  "mo_arm (fst mw) = OPEN \<Longrightarrow> w_sent (snd (analysis_loop cfg envs mw)) = w_sent (snd mw)"
  using open_arm.run_inv [of mw "w_sent (snd mw)" cfg envs] by (simp add: analysis_loop_def)

lemma analysis_loop_unpermitted:
  assumes "\<not> mrt_enabled cfg" and "\<forall>env \<in> set envs. has_interface env"
    and "\<not> permitted (w_db (snd mw)) (mo_user (fst mw)) (mo_session (fst mw)) ACT"
  shows "w_sent (snd (analysis_loop cfg envs mw)) = w_sent (snd mw)"
  using assms(2,3)
proof (induction envs arbitrary: mw)
  case (Cons env envs)
  then have "w_sent (snd (next_state cfg env mw)) = w_sent (snd mw)"
    using run_analysis_sent(3) [OF _ assms(1), of env mw] by auto
  moreover have "w_sent (snd (analysis_loop cfg envs (next_state cfg env mw))) =
      w_sent (snd (next_state cfg env mw))"
    using Cons.prems by (intro Cons.IH) (simp_all add: run_analysis_frame)
  ultimately show ?case by simp
qed simp

subsection \<open>Spells over a run\<close>

lemma control_spell_inv: "spell_inv mw \<Longrightarrow> spell_inv (control cfg env a f dwell mw)"
proof (cases "mrt_enabled cfg")
  case False
  assume "spell_inv mw"
  then have "spell_inv (fst mw, snd mw)" by simp
  from spell_inv_cong [OF this, of "fst (control cfg env a f dwell mw)"
      "snd (control cfg env a f dwell mw)"] False
  show ?thesis by (simp add: control_def arm_step_monitor_fields arm_step_tables)
qed (simp add: control_def mrt_step_inv)

interpretation spells: transition_system "next_state cfg" spell_inv
  for cfg
proof unfold_locales
  fix mw env assume i: "spell_inv mw"
  then have l: "spell_inv (snd (loaded mw), snd mw)"
    using spell_inv_cong [of "fst mw" "snd mw" "snd (loaded mw)" "snd mw"] by simp
  show "spell_inv (next_state cfg env mw)"
  proof (cases cfg env mw rule: run_analysis_cases)
    case (quiet e)
    with l show ?thesis by simp
  next
    case (cycle f a)
    let ?o = "observed cfg env a (snd (loaded mw), snd mw)"
    have "spell_inv (fst ?o, snd ?o)" by (rule spell_inv_cong [OF l]) simp_all
    then have "spell_inv ?o" unfolding prod.collapse .
    from control_spell_inv [OF this] show ?thesis unfolding cycle(3) snd_conv .
  qed
qed

lemma analysis_loop_spells: "spell_inv mw \<Longrightarrow> spell_inv (analysis_loop cfg envs mw)"
  unfolding analysis_loop_def by (rule spells.run_inv)

subsection \<open>The sample log measures its own runs\<close>

text \<open>
  A sample's dwell is the age, at its timestamp, of the oldest sample in the unbroken run of
  equal regimes that ends with it.
\<close>

definition run_start :: "process_state_sample list \<Rightarrow> process_state_sample" where
  "run_start S = hd (trailing (\<lambda>s. ps_regime s = ps_regime (last S)) S)"

definition dwell_consistent :: "process_state_sample list \<Rightarrow> bool" where
  "dwell_consistent S \<longleftrightarrow> (\<forall>i < length S. ps_dwell_seconds (S ! i) =
     total_seconds (ps_ts (S ! i) - ps_ts (run_start (take (Suc i) S))))"

lemma dwell_consistent_Nil [simp]: "dwell_consistent []"
  by (simp add: dwell_consistent_def)

lemma dwell_consistent_snoc:
  "dwell_consistent (S @ [s]) \<longleftrightarrow> dwell_consistent S \<and>
     ps_dwell_seconds s = total_seconds (ps_ts s - ps_ts (run_start (S @ [s])))"
  by (auto simp: dwell_consistent_def less_Suc_eq nth_append)

lemma trailing_map: "trailing P (map g xs) = map g (trailing (P \<circ> g) xs)"
  by (simp add: trailing_def rev_map takeWhile_map)

definition sample_log :: "process_state_sample list \<Rightarrow> (ProcessRegime \<times> time) list \<Rightarrow> bool" where
  "sample_log S R \<longleftrightarrow> map (\<lambda>s. (ps_regime s, ps_ts s)) S = map (\<lambda>(r, t). (regime_value r, t)) R"

lemma sample_log_run_start:
  assumes "sample_log S R" and "S \<noteq> []"
  shows "ps_ts (run_start S) = snd (hd (current_run R))"
proof -
  let ?f = "\<lambda>s. (ps_regime s, ps_ts s)" and ?g = "\<lambda>(r, t). (regime_value r, t :: time)"
  from assms have ne: "R \<noteq> []" by (auto simp: sample_log_def)
  have "?f (last S) = ?g (last R)"
    using assms ne by (metis (no_types, lifting) sample_log_def last_map)
  then have l: "ps_regime (last S) = regime_value (fst (last R))"
    by (simp add: case_prod_beta)
  let ?P = "\<lambda>p. fst p = ps_regime (last S)"
  have S: "map ?f (trailing (\<lambda>s. ps_regime s = ps_regime (last S)) S) = trailing ?P (map ?f S)"
    by (simp add: trailing_map comp_def)
  have "trailing ?P (map ?g R) = map ?g (trailing (?P \<circ> ?g) R)" by (rule trailing_map)
  moreover have "?P \<circ> ?g = (\<lambda>(r, _). r = fst (last R))"
    by (auto simp: l regime_value_inj fun_eq_iff)
  ultimately have R: "trailing ?P (map ?g R) = map ?g (current_run R)"
    by (simp add: current_run_def)
  have eq: "map ?f (trailing (\<lambda>s. ps_regime s = ps_regime (last S)) S) = map ?g (current_run R)"
    using S R assms(1) by (simp add: sample_log_def)
  have "current_run R \<noteq> []" by (rule current_run_nonempty [OF ne])
  with eq have "?f (run_start S) = ?g (hd (current_run R))"
    unfolding run_start_def by (metis (no_types, lifting) hd_map map_is_Nil_conv)
  then show ?thesis by (simp add: case_prod_beta)
qed

definition sampling :: "process_state_sample list \<Rightarrow> mw \<Rightarrow> bool" where
  "sampling S0 mw \<longleftrightarrow> (\<exists>S R. samples (w_db (snd mw)) = S0 @ S \<and> sample_log S R \<and>
     mo_dwell (fst mw) = observe_log R \<and> dwell_consistent S)"

lemma observe_log_snoc: "observe_log (R @ [(r, t)]) = snd (observe r t (observe_log R))"
  by (simp add: observe_log_def)

interpretation sampler: transition_system "next_state cfg" "sampling S0"
  for cfg S0
proof unfold_locales
  fix mw :: mw and env
  assume "sampling S0 mw"
  then obtain S R where S: "samples (w_db (snd mw)) = S0 @ S" "sample_log S R"
    "mo_dwell (fst mw) = observe_log R" "dwell_consistent S"
    unfolding sampling_def by blast
  show "sampling S0 (next_state cfg env mw)"
  proof (cases cfg env mw rule: run_analysis_cases)
    case (quiet e)
    with S show ?thesis unfolding sampling_def by auto
  next
    case (cycle f a)
    let ?r = "analysis_to_regime a" and ?t = "t_state env"
    define s where "s = \<lparr>ps_session_id = mo_session (fst mw), ps_user_id = mo_user (fst mw),
       ps_lab_slug = mo_lab (snd (loaded mw)), ps_ts = ?t, ps_regime = regime_value ?r,
       ps_dwell_seconds = dwell_of env a (fst mw)\<rparr>"
    have log: "sample_log (S @ [s]) (R @ [(?r, ?t)])"
      using S(2) by (simp add: sample_log_def s_def)
    from sample_log_run_start [OF log] observe_dwell_spec [of ?r ?t R] S(3)
    have "ps_dwell_seconds s = total_seconds (ps_ts s - ps_ts (run_start (S @ [s])))"
      by (simp add: s_def)
    with S(4) have "dwell_consistent (S @ [s])" by (simp add: dwell_consistent_snoc)
    moreover have "samples (w_db (snd (next_state cfg env mw))) = S0 @ (S @ [s])"
      using cycle(3) S(1) by (simp add: s_def)
    moreover have "mo_dwell (fst (next_state cfg env mw)) = observe_log (R @ [(?r, ?t)])"
      using cycle(3) S(3) by (simp add: observe_log_snoc)
    ultimately show ?thesis using log unfolding sampling_def by blast
  qed
qed

lemma analysis_loop_dwell:
  assumes "mo_dwell (fst mw) = dwell_init"
  shows "\<exists>S. samples (w_db (snd (analysis_loop cfg envs mw))) = samples (w_db (snd mw)) @ S \<and>
    dwell_consistent S"
proof -
  have "sampling (samples (w_db (snd mw))) mw"
    unfolding sampling_def using assms
    by (intro exI [of _ "[]"]) (simp add: sample_log_def observe_log_def)
  then have "sampling (samples (w_db (snd mw))) (analysis_loop cfg envs mw)"
    unfolding analysis_loop_def by (rule sampler.run_inv)
  then show ?thesis unfolding sampling_def by blast
qed

subsection \<open>Interventions are spaced by the cooldown\<close>

lemma arm_step_last:
  "(mo_last_intervention (fst (arm_step cfg env a f regime dwell now mw)) =
      mo_last_intervention (fst mw) \<and>
    w_sent (snd (arm_step cfg env a f regime dwell now mw)) = w_sent (snd mw)) \<or>
   mo_last_intervention (fst (arm_step cfg env a f regime dwell now mw)) \<in>
      {Some now, Some (t_dispatched env)}"
proof (cases "action_of (arm_verdict cfg regime dwell now (fst mw))")
  case Intervene
  then show ?thesis by (simp add: arm_step_intervene Let_def split: option.split)
qed (simp_all add: arm_step_withhold arm_step_skip)

lemma mrt_step_last:
  "(mo_last_intervention (fst (mrt_step cfg env a f regime dwell now mw)) =
      mo_last_intervention (fst mw) \<and>
    w_sent (snd (mrt_step cfg env a f regime dwell now mw)) = w_sent (snd mw)) \<or>
   mo_last_intervention (fst (mrt_step cfg env a f regime dwell now mw)) = Some now"
proof -
  obtain m w where mw: "mrt_spells cfg env regime dwell now mw = (m, w)"
    by (cases "mrt_spells cfg env regime dwell now mw")
  note sp = mrt_spells_fields [of cfg env regime dwell now mw, unfolded mw, simplified]
  show ?thesis
  proof (cases "mo_spell_id m = None \<or> mo_spell_tk m = None")
    case True
    then have "mrt_step cfg env a f regime dwell now mw = (m, w)"
      using mw mrt_step_no_spell [of cfg env regime dwell now mw a f] by simp
    with sp show ?thesis by simp
  next
    case False
    then obtain sid tk where s: "mo_spell_id (fst (m, w)) = Some sid"
      "mo_spell_tk (fst (m, w)) = Some tk" by auto
    note step = mrt_step_spell [OF mw s, of a f]
    show ?thesis
      using sp by (cases "action_of (mrt_verdict cfg env regime dwell now tk m)")
        (simp_all add: step Let_def split: option.split)
  qed
qed

lemma run_analysis_last:
  "(mo_last_intervention (fst (next_state cfg env mw)) = mo_last_intervention (fst mw) \<and>
    w_sent (snd (next_state cfg env mw)) = w_sent (snd mw)) \<or>
   mo_last_intervention (fst (next_state cfg env mw)) \<in> {Some (t_now env), Some (t_dispatched env)}"
proof (cases cfg env mw rule: run_analysis_cases)
  case (quiet e)
  then show ?thesis by simp
next
  case (cycle f a)
  let ?o = "observed cfg env a (snd (loaded mw), snd mw)"
  show ?thesis
    using cycle(3) arm_step_last [of cfg env a f "analysis_to_regime a" "dwell_of env a (fst mw)" "t_now env" ?o]
      mrt_step_last [of cfg env a f "analysis_to_regime a" "dwell_of env a (fst mw)" "t_now env" ?o]
    by (cases "mrt_enabled cfg") (simp_all add: control_def, auto)
qed

text \<open>The cycles of a run that deliver something.\<close>

fun sends :: "la_config \<Rightarrow> cycle_env list \<Rightarrow> mw \<Rightarrow> cycle_env list" where
  "sends cfg [] mw = []"
| "sends cfg (env # envs) mw =
     (let mw' = next_state cfg env mw
      in if w_sent (snd mw') \<noteq> w_sent (snd mw) then env # sends cfg envs mw'
         else sends cfg envs mw')"

definition acted_since :: "time \<Rightarrow> mw \<Rightarrow> bool" where
  "acted_since T mw \<longleftrightarrow> (\<exists>l. mo_last_intervention (fst mw) = Some l \<and> T \<le> l)"

lemma acted_since_step:
  assumes "acted_since T mw" and "T \<le> t_now env" and "t_now env \<le> t_dispatched env"
  shows "acted_since T (next_state cfg env mw)"
  using assms run_analysis_last [of cfg env mw] by (auto simp: acted_since_def)

lemma sends_after:
  assumes "acted_since T mw" and "\<forall>env \<in> set envs. T \<le> t_now env \<and> t_now env \<le> t_dispatched env"
    and "env \<in> set (sends cfg envs mw)"
  shows "cooldown_period cfg \<le> total_seconds (t_now env - T)"
  using assms
proof (induction envs arbitrary: mw)
  case (Cons e envs)
  let ?mw' = "next_state cfg e mw"
  have a: "acted_since T ?mw'" using Cons.prems by (intro acted_since_step) auto
  show ?case
  proof (cases "env \<in> set (sends cfg envs ?mw')")
    case True
    with Cons.IH [OF a] Cons.prems show ?thesis by auto
  next
    case False
    with Cons.prems(3) have "w_sent (snd ?mw') \<noteq> w_sent (snd mw)" and env: "env = e"
      by (auto simp: Let_def split: if_splits)
    from run_analysis_sent(1) [OF this(1)] Cons.prems(1) obtain l where "T \<le> l"
      "cooldown_period cfg \<le> total_seconds (t_now env - l)"
      by (auto simp: acted_since_def decision_point_def cooled_down_def env)
    moreover from \<open>T \<le> l\<close> have "total_seconds (t_now env - l) \<le> total_seconds (t_now env - T)"
      by (intro total_seconds_mono) simp
    ultimately show ?thesis by linarith
  qed
qed simp

lemma sends_spaced:
  assumes "sorted (map t_now envs)" and "\<forall>env \<in> set envs. t_now env \<le> t_dispatched env"
  shows "sorted_wrt (\<lambda>x y. cooldown_period cfg \<le> total_seconds (t_now y - t_now x))
    (sends cfg envs mw)"
  using assms
proof (induction envs arbitrary: mw)
  case (Cons e envs)
  let ?mw' = "next_state cfg e mw"
  have rest: "sorted_wrt (\<lambda>x y. cooldown_period cfg \<le> total_seconds (t_now y - t_now x))
      (sends cfg envs ?mw')"
    using Cons by auto
  show ?case
  proof (cases "w_sent (snd ?mw') \<noteq> w_sent (snd mw)")
    case True
    have "acted_since (t_now e) ?mw'"
      using True run_analysis_last [of cfg e mw] Cons.prems(2) by (auto simp: acted_since_def)
    moreover have "\<forall>env \<in> set envs. t_now e \<le> t_now env \<and> t_now env \<le> t_dispatched env"
      using Cons.prems by auto
    ultimately have "\<forall>y \<in> set (sends cfg envs ?mw').
        cooldown_period cfg \<le> total_seconds (t_now y - t_now e)"
      using sends_after by blast
    with True rest show ?thesis by (simp add: Let_def)
  qed (use rest in \<open>simp add: Let_def\<close>)
qed simp

subsection \<open>The cycle never raises\<close>

lemma run_analysis_total:
  assumes "windows_positive cfg" and "- 2 < error_repeat_threshold cfg"
  shows "fst (run_analysis cfg env mw) = None"
proof (cases "fst (loaded mw) = []")
  case True
  then show ?thesis by (simp add: run_analysis_def case_prod_beta Let_def)
next
  case False
  obtain f where f: "compute cfg (t_compute env) (mo_session (snd (loaded mw))) (fst (loaded mw)) = Inr f"
    using compute_total [OF assms(1)] by blast
  obtain a where "identify_regime f cfg = Inr a"
    using identify_regime_total [OF compute_wf [OF f] assms(2)] by blast
  with False f show ?thesis by (simp add: run_analysis_def case_prod_beta Let_def)
qed

subsection \<open>Which rows wake the monitor\<close>

lemma own_rows_add:
  "own_rows m (add_event e d) = own_rows m d @
     (if ev_session_id e = mo_session m \<and> ev_type e \<noteq> ''intervention'' then [e] else [])"
  by (simp add: own_rows_def)

text \<open>A delivered intervention never looks like a new event.\<close>

lemma load_ignores_interventions:
  assumes "ev_type e = ''intervention''"
  shows "load_new_events m (add_event e d) = load_new_events m d"
proof -
  have "own_rows m (add_event e d) = own_rows m d" using assms by (simp add: own_rows_add)
  then show ?thesis unfolding load_new_events_def by (rule ssubst) (rule refl)
qed

lemma sort_key_Nil [simp]: "sort_key g xs = [] \<longleftrightarrow> xs = []"
  by (metis length_0_conv length_sort)

lemma latest_of_snoc_ge: "\<exists>t. latest_of (es @ [e]) = Some t \<and> ev_timestamp e \<le> t"
  by (cases es) (simp_all add: latest_of_def)

lemma load_sees_new:
  assumes "ev_session_id e = mo_session m" and "ev_type e \<noteq> ''intervention''"
    and "\<forall>t. mo_last_event m = Some t \<longrightarrow> t < ev_timestamp e"
  shows "load_new_events m (add_event e d) \<noteq> []"
proof -
  obtain t where "latest_of (own_rows m (add_event e d)) = Some t" "ev_timestamp e \<le> t"
    using assms(1,2) latest_of_snoc_ge [of "own_rows m d" e] by (auto simp: own_rows_add)
  with assms show ?thesis
    by (auto simp: load_new_events_def own_rows_add split: option.split)
qed

text \<open>A withheld one does, and the feature extractor then takes it for the student's own action.\<close>

lemma would_event_is_student:
  "is_student (would_event env m a y)"
  by (cases "suggested_intervention a") (simp_all add: is_student_def would_event_def OBSERVER_ACTIONS_def)

lemma would_event_wakes:
  assumes "\<forall>t. mo_last_event m = Some t \<longrightarrow> t < t_would env"
  shows "load_new_events m (w_db (log_would_intervene env a y m w)) \<noteq> []"
  using assms
  unfolding log_would_intervene_def on_db_fields
  by (intro load_sees_new) (simp_all add: would_event_def)

subsection \<open>The grounding pair\<close>

lemma grounding_ungrounded_empty:
  "\<exists>rows. comparisons (w_db (grounding_ablation cfg env p r m w)) = comparisons (w_db w) @ rows \<and>
     length rows = (if grounding_ablation_enabled cfg \<and> rs_success r then 1 else 0) \<and>
     (\<forall>g \<in> set rows. gc_ungrounded_text g = [])"
proof (cases "grounding_ablation_enabled cfg \<and> rs_success r")
  case True
  let ?bare = "(pn_payload p)\<lparr>ii_context := (ii_context (pn_payload p))\<lparr>ic_agent_context := CtxEmpty\<rparr>\<rparr>"
  have "rs_data (intervene cfg (orch env) ?bare) = []"
    using intervene_failure [OF intervene_without_context, of ?bare cfg "orch env"] by simp
  with True show ?thesis by (simp add: grounding_ablation_def Let_def dict_str_def)
qed (simp add: grounding_ablation_def)

subsection \<open>The micro-randomized branch does not ask for consent\<close>

definition set_consents :: "consent list \<Rightarrow> world \<Rightarrow> world" where
  "set_consents cs w = on_db (\<lambda>d. d\<lparr>consents := cs\<rparr>) w"

lemma set_consents_fields [simp]:
  "w_sent (set_consents cs w) = w_sent w"
  "sessions (w_db (set_consents cs w)) = sessions (w_db w)"
  "fst (set_consents cs w, w') = set_consents cs w"
  by (simp_all add: set_consents_def)

lemma set_consents_decide:
  "decide_intervention cfg env a f (fst mw, set_consents cs (snd mw)) =
     (fst (decide_intervention cfg env a f mw),
      set_consents cs (snd (decide_intervention cfg env a f mw)))"
  by (cases mw) (simp add: decide_intervention_def mk_payload_def emit_def set_consents_def on_db_def Let_def)

lemma set_consents_dispatch:
  "dispatch_intervention cfg env p (m, set_consents cs w) =
     (fst (dispatch_intervention cfg env p (m, w)), fst (snd (dispatch_intervention cfg env p (m, w))),
      set_consents cs (snd (snd (dispatch_intervention cfg env p (m, w)))))"
  by (simp add: dispatch_intervention_def grounding_ablation_def emit_def set_consents_def
      on_db_def Let_def)

lemma set_consents_spells:
  "mrt_spells cfg env regime dwell now (m, set_consents cs w) =
     (fst (mrt_spells cfg env regime dwell now (m, w)),
      set_consents cs (snd (mrt_spells cfg env regime dwell now (m, w))))"
  by (simp add: mrt_spells_def mrt_close_spell_def set_consents_def on_db_def Let_def case_prod_beta)

lemma set_consents_record:
  "mrt_record_decision env r dw tk asg now (m, set_consents cs w) =
     (fst (mrt_record_decision env r dw tk asg now (m, w)),
      set_consents cs (snd (mrt_record_decision env r dw tk asg now (m, w))))"
  by (simp add: mrt_record_decision_def set_consents_def on_db_def)

lemma set_consents_logs:
  "log_would_intervene env a y m (set_consents cs w) = set_consents cs (log_would_intervene env a y m w)"
  "persist_intervention env p r m (set_consents cs w) = set_consents cs (persist_intervention env p r m w)"
  by (simp_all add: log_would_intervene_def persist_intervention_def set_consents_def on_db_def
      add_event_def)

lemma mrt_step_consents:
  "mrt_step cfg env a f regime dwell now (m, set_consents cs w) =
     (fst (mrt_step cfg env a f regime dwell now (m, w)),
      set_consents cs (snd (mrt_step cfg env a f regime dwell now (m, w))))"
proof -
  obtain m1 w1 where mw: "mrt_spells cfg env regime dwell now (m, w) = (m1, w1)"
    by (cases "mrt_spells cfg env regime dwell now (m, w)")
  then have mw': "mrt_spells cfg env regime dwell now (m, set_consents cs w) = (m1, set_consents cs w1)"
    by (simp add: set_consents_spells)
  show ?thesis
  proof (cases "mo_spell_id m1 = None \<or> mo_spell_tk m1 = None")
    case True
    then show ?thesis using mw mw'
      by (simp add: mrt_step_no_spell)
  next
    case False
    then obtain sid tk where s: "mo_spell_id m1 = Some sid" "mo_spell_tk m1 = Some tk" by auto
    show ?thesis
      using s mrt_step_spell [OF mw, of sid tk a f] mrt_step_spell [OF mw', of sid tk a f]
      by (cases "action_of (mrt_verdict cfg env regime dwell now tk m1)")
        (simp_all add: Let_def set_consents_record set_consents_logs set_consents_dispatch
          set_consents_decide split: option.split del: mrt_record_fields(1))
  qed
qed

subsection \<open>A permitted intervention is delivered, logged and audited\<close>

lemma arm_step_delivers:
  assumes "action_of (arm_verdict cfg regime dwell now m) = Intervene" and "struggle_detected a"
    and "should_trigger cfg (t_trigger env) m" and "has_interface env" and "has_gateway env"
    and "act_denial cfg (t_authorize env) ''intervention'' (mo_user m) (mo_session m) (mo_arm m)
      (w_acts w) (w_db w) = None"
    and "r = intervene cfg (orch env) (mk_payload env a f m (w_db w))"
    and "arm_step cfg env a f regime dwell now (m, w) = (m', w')"
  shows "w_sent w' = w_sent w @ (if rs_success r then [(mo_session m, sent_message a r)] else [])"
    and "events (w_db w') = events (w_db w) @ [intervention_event env m' a r]"
    and "w_acts w' = (w_acts w)(mo_session m \<mapsto> t_recorded env)"
    and "\<exists>row. audits (w_db w') = audits (w_db w) @ [row] \<and> au_success row = rs_success r \<and>
      au_kind row = ''act'' \<and> au_user_id row = mo_user m"
    and "mo_last_intervention m' = Some (t_dispatched env)"
proof -
  let ?dw = "decide_intervention cfg env a f (m, w)"
  define p where "p = \<lparr>pn_analysis = a, pn_features = f, pn_payload = mk_payload env a f m (w_db w)\<rparr>"
  have dec: "fst ?dw = Some p"
    using assms(2,3) by (simp add: decide_intervention_def p_def Let_def)
  let ?au = "authorize_dispatch cfg env (m, snd ?dw)"
  have au: "fst ?au" "audits (w_db (snd ?au)) = audits (w_db w)"
    using assms(4,6) by (simp_all add: authorize_dispatch_def authorize_act_def Let_def)
  let ?di = "dispatch_intervention cfg env p (m, snd ?au)"
  have r: "fst ?di = r" by (simp add: dispatch_response p_def assms(7))
  have eq: "m' = fst (snd ?di)"
    "w' = record_dispatch env r m' (persist_intervention env p r m' (snd (snd ?di)))"
    using assms(8) arm_step_intervene [where mw = "(m, w)" and env = env and a = a and f = f,
        unfolded fst_conv snd_conv, OF assms(1)] dec au r
    by (auto simp: Let_def)
  then have m': "mo_user m' = mo_user m" "mo_session m' = mo_session m" by simp_all
  show "w_sent w' = w_sent w @ (if rs_success r then [(mo_session m, sent_message a r)] else [])"
    using assms(5) by (simp add: eq(2) dispatch_sent r) (simp add: p_def)
  show "events (w_db w') = events (w_db w) @ [intervention_event env m' a r]"
    by (simp add: eq(2) persist_intervention_def) (simp add: p_def)
  show "w_acts w' = (w_acts w)(mo_session m \<mapsto> t_recorded env)"
    using assms(4) by (simp add: eq(2) record_dispatch_def record_act_def m' del: eq(1))
  show "\<exists>row. audits (w_db w') = audits (w_db w) @ [row] \<and> au_success row = rs_success r \<and>
      au_kind row = ''act'' \<and> au_user_id row = mo_user m"
    using assms(4) au(2) m' by (simp add: eq(2) record_dispatch_def record_act_def audit_record_def)
  show "mo_last_intervention m' = Some (t_dispatched env)" by (simp add: eq(1))
qed

end
