(* ===== verification/Collector.thy ===== *)
theory Collector
  imports Governance Features
begin

text \<open>
  The behavioral collector (\<open>analytics/runtime/collector.py\<close>, \<open>evidence.py\<close>): one poll cycle
  fetches actions, logs and errors through the seam, deduplicates, normalises and stores them.
  The MCP server, MD5, \<open>isoformat\<close> and \<open>uuid4\<close> are parameters collected in \<open>env\<close>; the asyncio
  loop around the cycle is a fold over the environments of its iterations.
\<close>

subsection \<open>MCP models (\<open>mcp_sdk/models.py\<close>)\<close>

datatype LogLevel = DEBUG | INFO | WARNING | ERROR | ALL_LEVELS

fun level_value :: "LogLevel \<Rightarrow> string" where
  "level_value DEBUG = ''debug''"
| "level_value INFO = ''info''"
| "level_value WARNING = ''warning''"
| "level_value ERROR = ''error''"
| "level_value ALL_LEVELS = ''all''"

record user_action =
  ua_timestamp :: time
  ua_component_id :: "string option"
  ua_action :: string
  ua_raw_command :: "string option"
  ua_success :: bool

record log_entry =
  le_timestamp :: time
  le_level :: LogLevel
  le_source :: string
  le_message :: string

record error_entry =
  ee_timestamp :: time
  ee_level :: LogLevel
  ee_component_id :: "string option"
  ee_message :: string
  ee_details :: "string option"

datatype mcp_result = Actions "user_action list" | Logs "log_entry list" | Errors "error_entry list"

datatype mcp_args = LimitArg int | LevelLimitArg LogLevel int | SinceArg "time option"

record collector_env =
  mcp_call :: "string \<Rightarrow> mcp_args \<Rightarrow> string + mcp_result"
  get_component :: "string \<Rightarrow> string option"
  md5 :: "string \<Rightarrow> string"
  isoformat :: "time \<Rightarrow> string"
  uuid :: "nat \<Rightarrow> string"
  clock :: time
  governed :: bool
  evidence_ok :: bool
  persist_ok :: bool

record collector =
  co_session :: string
  co_user :: string
  co_lab :: string
  seen :: "string list"
  component_types :: "string \<rightharpoonup> string"
  last_error_poll :: "time option"
  next_uuid :: nat

subsection \<open>Deduplication\<close>

definition dedup_key :: "collector_env \<Rightarrow> time \<Rightarrow> string \<Rightarrow> string option \<Rightarrow> string" where
  "dedup_key env ts action cid =
     md5 env (isoformat env ts @ '':'' @ action @ '':'' @ (case cid of None \<Rightarrow> [] | Some c \<Rightarrow> c))"

text \<open>
  \<open>_seen\<close> is an \<open>OrderedDict\<close> used as a bounded FIFO of keys, oldest first.  With a negative bound
  \<open>popitem\<close> empties it and raises.
\<close>

definition is_new :: "la_config \<Rightarrow> string \<Rightarrow> string list \<Rightarrow> (py_error + bool) \<times> string list" where
  "is_new cfg key ks =
     (if key \<in> set ks then (Inr False, ks)
      else if dedup_max_size cfg < 0 then (Inl KeyError, [])
      else let ks' = ks @ [key] in (Inr True, drop (length ks' - nat (dedup_max_size cfg)) ks'))"

subsection \<open>Normalisation\<close>

definition normalize_user_action ::
  "string \<Rightarrow> user_action \<Rightarrow> string \<Rightarrow> string \<Rightarrow> string \<Rightarrow> (string \<rightharpoonup> string) \<Rightarrow> behavioral_event" where
  "normalize_user_action new_id a session_id user_id lab types = \<lparr>
     ev_id = new_id, ev_session_id = session_id, ev_user_id = user_id, ev_lab_slug = lab,
     ev_timestamp = ua_timestamp a, ev_type = ''action'', ev_component_id = ua_component_id a,
     ev_component_type = Option.bind (ua_component_id a) types, ev_action = ua_action a,
     ev_raw_command = ua_raw_command a, ev_success = ua_success a, ev_severity = None,
     ev_message = None, ev_extra_data = None\<rparr>"

definition normalize_log_entry ::
  "string \<Rightarrow> log_entry \<Rightarrow> string \<Rightarrow> string \<Rightarrow> string \<Rightarrow> behavioral_event" where
  "normalize_log_entry new_id l session_id user_id lab = \<lparr>
     ev_id = new_id, ev_session_id = session_id, ev_user_id = user_id, ev_lab_slug = lab,
     ev_timestamp = le_timestamp l, ev_type = ''log'', ev_component_id = Some (le_source l),
     ev_component_type = None, ev_action = ''log_'' @ level_value (le_level l),
     ev_raw_command = None, ev_success = True, ev_severity = Some (level_value (le_level l)),
     ev_message = Some (le_message l), ev_extra_data = None\<rparr>"

definition normalize_error_entry ::
  "string \<Rightarrow> error_entry \<Rightarrow> string \<Rightarrow> string \<Rightarrow> string \<Rightarrow> behavioral_event" where
  "normalize_error_entry new_id e session_id user_id lab = \<lparr>
     ev_id = new_id, ev_session_id = session_id, ev_user_id = user_id, ev_lab_slug = lab,
     ev_timestamp = ee_timestamp e, ev_type = ''error'', ev_component_id = ee_component_id e,
     ev_component_type = None, ev_action = ''error'', ev_raw_command = None, ev_success = False,
     ev_severity = Some (level_value (ee_level e)), ev_message = Some (ee_message e),
     ev_extra_data = (if truthy (ee_details e)
       then Some (JObj [(''details'', JStr (the (ee_details e)))]) else None)\<rparr>"

text \<open>\<open>_resolve_type\<close> asks the MCP client directly and swallows every exception.\<close>

definition resolve_type :: "collector_env \<Rightarrow> string option \<Rightarrow> (string \<rightharpoonup> string) \<Rightarrow> (string \<rightharpoonup> string)" where
  "resolve_type env cid types =
     (case cid of
        None \<Rightarrow> types
      | Some c \<Rightarrow>
          if c = [] \<or> types c \<noteq> None then types
          else (case get_component env c of None \<Rightarrow> types | Some ty \<Rightarrow> types(c \<mapsto> ty)))"

subsection \<open>Fetching\<close>

definition call_observe ::
  "collector_env \<Rightarrow> string \<Rightarrow> mcp_args \<Rightarrow> collector \<Rightarrow> db \<Rightarrow> mcp_result outcome \<times> db" where
  "call_observe env tool args c d =
     (if governed env
      then seam_observe (mcp_call env) (clock env) tool args (co_user c) (co_session c)
             (Some (co_lab c)) d
      else if tool \<in> {''list_user_actions'', ''get_logs'', ''list_errors''}
      then (case mcp_call env tool args of Inl exc \<Rightarrow> Raised exc | Inr r \<Rightarrow> Returned r, d)
      else (Raised ''ValueError'', d))"

fun collect_actions ::
  "la_config \<Rightarrow> collector_env \<Rightarrow> user_action list \<Rightarrow> collector \<Rightarrow> behavioral_event list \<times> collector" where
  "collect_actions cfg env [] c = ([], c)"
| "collect_actions cfg env (a # as) c =
     (case is_new cfg (dedup_key env (ua_timestamp a) (ua_action a) (ua_component_id a)) (seen c) of
        (Inl _, ks) \<Rightarrow> ([], c\<lparr>seen := ks\<rparr>)
      | (Inr False, ks) \<Rightarrow> collect_actions cfg env as (c\<lparr>seen := ks\<rparr>)
      | (Inr True, ks) \<Rightarrow>
          (let types = resolve_type env (ua_component_id a) (component_types c);
               e = normalize_user_action (uuid env (next_uuid c)) a (co_session c) (co_user c)
                     (co_lab c) types;
               (es, c') = collect_actions cfg env as
                 (c\<lparr>seen := ks, component_types := types, next_uuid := Suc (next_uuid c)\<rparr>)
           in (e # es, c')))"

definition fetch_actions ::
  "la_config \<Rightarrow> collector_env \<Rightarrow> collector \<Rightarrow> db \<Rightarrow> behavioral_event list \<times> collector \<times> db" where
  "fetch_actions cfg env c d =
     (case call_observe env ''list_user_actions'' (LimitArg (mcp_actions_limit cfg)) c d of
        (Returned (Actions as), d') \<Rightarrow>
          (let (es, c') = collect_actions cfg env as c in (es, c', d'))
      | (_, d') \<Rightarrow> ([], c, d'))"

fun collect_logs ::
  "la_config \<Rightarrow> collector_env \<Rightarrow> log_entry list \<Rightarrow> collector \<Rightarrow> behavioral_event list \<times> collector" where
  "collect_logs cfg env [] c = ([], c)"
| "collect_logs cfg env (l # ls) c =
     (case is_new cfg (dedup_key env (le_timestamp l) ''log'' (Some (le_source l))) (seen c) of
        (Inl _, ks) \<Rightarrow> ([], c\<lparr>seen := ks\<rparr>)
      | (Inr False, ks) \<Rightarrow> collect_logs cfg env ls (c\<lparr>seen := ks\<rparr>)
      | (Inr True, ks) \<Rightarrow>
          (let e = normalize_log_entry (uuid env (next_uuid c)) l (co_session c) (co_user c) (co_lab c);
               (es, c') = collect_logs cfg env ls (c\<lparr>seen := ks, next_uuid := Suc (next_uuid c)\<rparr>)
           in (e # es, c')))"

definition fetch_logs ::
  "la_config \<Rightarrow> collector_env \<Rightarrow> collector \<Rightarrow> db \<Rightarrow> behavioral_event list \<times> collector \<times> db" where
  "fetch_logs cfg env c d =
     (case call_observe env ''get_logs'' (LevelLimitArg ALL_LEVELS (mcp_logs_limit cfg)) c d of
        (Returned (Logs ls), d') \<Rightarrow> (let (es, c') = collect_logs cfg env ls c in (es, c', d'))
      | (_, d') \<Rightarrow> ([], c, d'))"

fun collect_errors ::
  "collector_env \<Rightarrow> error_entry list \<Rightarrow> collector \<Rightarrow> behavioral_event list \<times> collector" where
  "collect_errors env [] c = ([], c)"
| "collect_errors env (x # xs) c =
     (let e = normalize_error_entry (uuid env (next_uuid c)) x (co_session c) (co_user c) (co_lab c);
          (es, c') = collect_errors env xs (c\<lparr>next_uuid := Suc (next_uuid c)\<rparr>)
      in (e # es, c'))"

definition fetch_errors ::
  "collector_env \<Rightarrow> collector \<Rightarrow> db \<Rightarrow> behavioral_event list \<times> collector \<times> db" where
  "fetch_errors env c d =
     (case call_observe env ''list_errors'' (SinceArg (last_error_poll c)) c d of
        (Returned (Errors xs), d') \<Rightarrow>
          (let (es, c') = collect_errors env xs (c\<lparr>last_error_poll := Some (clock env)\<rparr>)
           in (es, c', d'))
      | (_, d') \<Rightarrow> ([], c, d'))"

subsection \<open>The poll cycle\<close>

definition capture_evidence ::
  "collector_env \<Rightarrow> collector \<Rightarrow> behavioral_event list \<Rightarrow> db \<Rightarrow> db" where
  "capture_evidence env c es d =
     (if evidence_ok env
      then d\<lparr>snapshots := snapshots d @ [\<lparr>es_session_id = co_session c, es_user_id = co_user c,
              es_lab_slug = co_lab c, es_ts = clock env, es_kind = ''mcp_events'',
              es_payload = es\<rparr>]\<rparr>
      else d)"

definition persist_events :: "collector_env \<Rightarrow> behavioral_event list \<Rightarrow> db \<Rightarrow> db" where
  "persist_events env es d = (if persist_ok env then d\<lparr>events := events d @ es\<rparr> else d)"

definition poll_cycle :: "la_config \<Rightarrow> collector_env \<Rightarrow> collector \<times> db \<Rightarrow> collector \<times> db" where
  "poll_cycle cfg env cd =
     (let (as, c1, d1) = fetch_actions cfg env (fst cd) (snd cd);
          (ls, c2, d2) = fetch_logs cfg env c1 d1;
          (xs, c3, d3) = fetch_errors env c2 d2;
          evs = as @ ls @ xs;
          d4 = (if evs = [] then d3
                else persist_events env evs
                  (if evidence_capture_enabled cfg then capture_evidence env c3 evs d3 else d3))
      in (c3, d4))"

definition poll_loop :: "la_config \<Rightarrow> collector_env list \<Rightarrow> collector \<times> db \<Rightarrow> collector \<times> db" where
  "poll_loop cfg envs cd = fold (poll_cycle cfg) envs cd"

end
