(* ===== verification/Collector_Facts.thy ===== *)
theory Collector_Facts
  imports Collector
begin

text \<open>
  The collector's deduplication window (bounded, without repetitions, idempotent under
  redelivery) and its behaviour behind the seam: one audit row per fetch, nothing stored for a
  learner the seam denies.
\<close>

subsection \<open>The deduplication window\<close>

definition window_ok :: "la_config \<Rightarrow> string list \<Rightarrow> bool" where
  "window_ok cfg ks \<longleftrightarrow> distinct ks \<and> int (length ks) \<le> dedup_max_size cfg"

lemma is_new_window:
  assumes "window_ok cfg ks"
  shows "window_ok cfg (snd (is_new cfg key ks))" and "\<exists>b. fst (is_new cfg key ks) = Inr b"
proof -
  have "distinct (drop n (ks @ [key]))" if "key \<notin> set ks" for n
    using that assms by (intro distinct_drop) (simp add: window_ok_def)
  then show "window_ok cfg (snd (is_new cfg key ks))"
    using assms by (auto simp: is_new_def window_ok_def Let_def simp del: drop_append)
  show "\<exists>b. fst (is_new cfg key ks) = Inr b"
    using assms by (auto simp: is_new_def window_ok_def Let_def)
qed

lemma is_new_seen [simp]: "key \<in> set ks \<Longrightarrow> is_new cfg key ks = (Inr False, ks)"
  by (simp add: is_new_def)

lemma is_new_room:
  assumes "key \<notin> set ks" and "int (length ks) < dedup_max_size cfg"
  shows "is_new cfg key ks = (Inr True, ks @ [key])"
  using assms by (simp add: is_new_def Let_def)

lemma collect_actions_window:
  "window_ok cfg (seen c) \<Longrightarrow> window_ok cfg (seen (snd (collect_actions cfg env as c)))"
proof (induction as arbitrary: c)
  case (Cons a as)
  let ?k = "dedup_key env (ua_timestamp a) (ua_action a) (ua_component_id a)"
  from is_new_window [OF Cons.prems, of ?k] obtain b ks
    where n: "is_new cfg ?k (seen c) = (Inr b, ks)" and ks: "window_ok cfg ks"
    by (metis prod.collapse)
  from n ks show ?case by (cases b) (simp_all add: Let_def case_prod_beta Cons.IH)
qed simp

lemma collect_logs_window:
  "window_ok cfg (seen c) \<Longrightarrow> window_ok cfg (seen (snd (collect_logs cfg env ls c)))"
proof (induction ls arbitrary: c)
  case (Cons l ls)
  let ?k = "dedup_key env (le_timestamp l) ''log'' (Some (le_source l))"
  from is_new_window [OF Cons.prems, of ?k] obtain b ks
    where n: "is_new cfg ?k (seen c) = (Inr b, ks)" and ks: "window_ok cfg ks"
    by (metis prod.collapse)
  from n ks show ?case by (cases b) (simp_all add: Let_def case_prod_beta Cons.IH)
qed simp

lemma collect_errors_seen [simp]: "seen (snd (collect_errors env xs c)) = seen c"
  by (induction xs arbitrary: c) (simp_all add: Let_def case_prod_beta)

lemma fetch_actions_window:
  "window_ok cfg (seen c) \<Longrightarrow> window_ok cfg (seen (fst (snd (fetch_actions cfg env c d))))"
  by (auto simp: fetch_actions_def case_prod_beta collect_actions_window
      split: prod.split outcome.split mcp_result.split)

lemma fetch_logs_window:
  "window_ok cfg (seen c) \<Longrightarrow> window_ok cfg (seen (fst (snd (fetch_logs cfg env c d))))"
  by (auto simp: fetch_logs_def case_prod_beta collect_logs_window
      split: prod.split outcome.split mcp_result.split)

lemma fetch_errors_window:
  "window_ok cfg (seen c) \<Longrightarrow> window_ok cfg (seen (fst (snd (fetch_errors env c d))))"
  by (auto simp: fetch_errors_def case_prod_beta
      split: prod.split outcome.split mcp_result.split)

lemma poll_cycle_window:
  "window_ok cfg (seen (fst cd)) \<Longrightarrow> window_ok cfg (seen (fst (poll_cycle cfg env cd)))"
  by (simp add: poll_cycle_def case_prod_beta Let_def fetch_actions_window fetch_logs_window
      fetch_errors_window)

interpretation poll: transition_system "poll_cycle cfg" "\<lambda>cd. window_ok cfg (seen (fst cd))"
  for cfg
  by unfold_locales (rule poll_cycle_window)

lemma poll_loop_window:
  "window_ok cfg (seen (fst cd)) \<Longrightarrow> window_ok cfg (seen (fst (poll_loop cfg envs cd)))"
  unfolding poll_loop_def by (rule poll.run_inv)

subsection \<open>Redelivered actions are dropped\<close>

abbreviation action_key :: "collector_env \<Rightarrow> user_action \<Rightarrow> string" where
  "action_key env a \<equiv> dedup_key env (ua_timestamp a) (ua_action a) (ua_component_id a)"

lemma collect_actions_known:
  "\<forall>a \<in> set as. action_key env a \<in> set (seen c) \<Longrightarrow> collect_actions cfg env as c = ([], c)"
  by (induction as) simp_all

text \<open>With room in the window, a batch adds each of its keys exactly once.\<close>

lemma collect_actions_room:
  assumes "int (length (seen c) + length as) \<le> dedup_max_size cfg" and "distinct (seen c)"
  shows "\<exists>new. seen (snd (collect_actions cfg env as c)) = seen c @ new \<and>
      set new = action_key env ` set as - set (seen c) \<and>
      length (fst (collect_actions cfg env as c)) = length new \<and>
      distinct (seen c @ new)"
  using assms
proof (induction as arbitrary: c)
  case Nil
  then show ?case by simp
next
  case (Cons a as)
  let ?k = "action_key env a"
  show ?case
  proof (cases "?k \<in> set (seen c)")
    case True
    with Cons.prems have "\<exists>new. seen (snd (collect_actions cfg env as c)) = seen c @ new \<and>
        set new = action_key env ` set as - set (seen c) \<and>
        length (fst (collect_actions cfg env as c)) = length new \<and> distinct (seen c @ new)"
      by (intro Cons.IH) auto
    with True show ?thesis by (auto simp: insert_absorb)
  next
    case False
    define c' where "c' = c\<lparr>seen := seen c @ [?k],
      component_types := resolve_type env (ua_component_id a) (component_types c),
      next_uuid := Suc (next_uuid c)\<rparr>"
    have new: "is_new cfg ?k (seen c) = (Inr True, seen c @ [?k])"
      using Cons.prems False by (intro is_new_room) auto
    have "\<exists>new. seen (snd (collect_actions cfg env as c')) = seen c' @ new \<and>
        set new = action_key env ` set as - set (seen c') \<and>
        length (fst (collect_actions cfg env as c')) = length new \<and> distinct (seen c' @ new)"
      using Cons.prems False by (intro Cons.IH) (auto simp: c'_def)
    then obtain new where n: "seen (snd (collect_actions cfg env as c')) = seen c' @ new"
      "set new = action_key env ` set as - set (seen c')"
      "length (fst (collect_actions cfg env as c')) = length new" "distinct (seen c' @ new)"
      by blast
    have step: "snd (collect_actions cfg env (a # as) c) = snd (collect_actions cfg env as c')"
      "length (fst (collect_actions cfg env (a # as) c)) =
         Suc (length (fst (collect_actions cfg env as c')))"
      using new by (simp_all add: Let_def case_prod_beta c'_def)
    have "seen (snd (collect_actions cfg env (a # as) c)) = seen c @ ?k # new \<and>
        set (?k # new) = action_key env ` set (a # as) - set (seen c) \<and>
        length (fst (collect_actions cfg env (a # as) c)) = length (?k # new) \<and>
        distinct (seen c @ ?k # new)"
      using n False by (simp only: step) (auto simp: c'_def)
    then show ?thesis by blast
  qed
qed

lemma collect_actions_replay:
  assumes "int (length (seen c) + length as) \<le> dedup_max_size cfg" and "distinct (seen c)"
  shows "collect_actions cfg env as (snd (collect_actions cfg env as c)) =
     ([], snd (collect_actions cfg env as c))"
proof (rule collect_actions_known)
  from collect_actions_room [OF assms, of env] obtain new where
    "seen (snd (collect_actions cfg env as c)) = seen c @ new"
    "set new = action_key env ` set as - set (seen c)" by blast
  then show "\<forall>a \<in> set as. action_key env a \<in> set (seen (snd (collect_actions cfg env as c)))"
    by auto
qed

subsection \<open>Behind the seam\<close>

text \<open>A fetch is one gated call followed by normalisation that leaves the database alone.\<close>

abbreviation identity_of :: "collector \<Rightarrow> string \<times> string \<times> string" where
  "identity_of c \<equiv> (co_user c, co_session c, co_lab c)"

lemma collect_identity:
  "identity_of (snd (collect_actions cfg env as c)) = identity_of c"
  "identity_of (snd (collect_logs cfg env ls c)) = identity_of c"
  "identity_of (snd (collect_errors env xs c)) = identity_of c"
proof -
  show "identity_of (snd (collect_actions cfg env as c)) = identity_of c"
    by (induction as arbitrary: c)
      (simp_all add: Let_def case_prod_beta split: sum.split bool.split)
  show "identity_of (snd (collect_logs cfg env ls c)) = identity_of c"
    by (induction ls arbitrary: c)
      (simp_all add: Let_def case_prod_beta split: sum.split bool.split)
  show "identity_of (snd (collect_errors env xs c)) = identity_of c"
    by (induction xs arbitrary: c) (simp_all add: Let_def case_prod_beta)
qed

abbreviation fetch_call ::
  "collector_env \<Rightarrow> string \<Rightarrow> mcp_args \<Rightarrow> collector \<Rightarrow> db \<Rightarrow> mcp_result outcome \<times> db" where
  "fetch_call env tool args c d \<equiv> seam_observe (mcp_call env) (clock env) tool args (co_user c)
     (co_session c) (Some (co_lab c)) d"

lemma fetch_db:
  assumes "governed env"
  shows "snd (snd (fetch_actions cfg env c d)) =
      snd (fetch_call env ''list_user_actions'' (LimitArg (mcp_actions_limit cfg)) c d)"
    and "snd (snd (fetch_logs cfg env c d)) =
      snd (fetch_call env ''get_logs'' (LevelLimitArg ALL_LEVELS (mcp_logs_limit cfg)) c d)"
    and "snd (snd (fetch_errors env c d)) =
      snd (fetch_call env ''list_errors'' (SinceArg (last_error_poll c)) c d)"
  using assms
  by (simp_all add: fetch_actions_def fetch_logs_def fetch_errors_def call_observe_def
      case_prod_beta split: outcome.split mcp_result.split)

lemma fetch_identity:
  "identity_of (fst (snd (fetch_actions cfg env c d))) = identity_of c"
  "identity_of (fst (snd (fetch_logs cfg env c d))) = identity_of c"
  "identity_of (fst (snd (fetch_errors env c d))) = identity_of c"
  using collect_identity(1) [of cfg env _ c] collect_identity(2) [of cfg env _ c]
    collect_identity(3) [of env _ "c\<lparr>last_error_poll := Some (clock env)\<rparr>"]
  by (simp_all add: fetch_actions_def fetch_logs_def fetch_errors_def
      case_prod_beta split: outcome.split mcp_result.split)

lemma fetch_denied:
  assumes "governed env" and "\<not> permitted d (co_user c) (co_session c) OBSERVE"
  shows "fst (fetch_actions cfg env c d) = []" and "fst (snd (fetch_actions cfg env c d)) = c"
    and "fst (fetch_logs cfg env c d) = []" and "fst (snd (fetch_logs cfg env c d)) = c"
    and "fst (fetch_errors env c d) = []" and "fst (snd (fetch_errors env c d)) = c"
proof -
  have "\<exists>why. fst (fetch_call env tool args c d) = Denied why" for tool args
    by (rule seam_observe_denied) (rule assms(2))
  then obtain why where w: "fst (fetch_call env tool args c d) = Denied (why tool args)" for tool args
    by metis
  show "fst (fetch_actions cfg env c d) = []" "fst (snd (fetch_actions cfg env c d)) = c"
    "fst (fetch_logs cfg env c d) = []" "fst (snd (fetch_logs cfg env c d)) = c"
    "fst (fetch_errors env c d) = []" "fst (snd (fetch_errors env c d)) = c"
    using w assms(1)
    by (simp_all add: fetch_actions_def fetch_logs_def fetch_errors_def call_observe_def
        case_prod_beta)
qed

lemma capture_evidence_frame [simp]:
  "audits (capture_evidence env c es d) = audits d"
  "events (capture_evidence env c es d) = events d"
  "permitted (capture_evidence env c es d) u s k = permitted d u s k"
  by (simp_all add: capture_evidence_def permitted_def has_consent_def get_owned_session_def)

lemma persist_events_frame [simp]:
  "audits (persist_events env es d) = audits d"
  "permitted (persist_events env es d) u s k = permitted d u s k"
  by (simp_all add: persist_events_def permitted_def has_consent_def get_owned_session_def)

lemma poll_cycle_identity: "identity_of (fst (poll_cycle cfg env cd)) = identity_of (fst cd)"
  using fetch_identity by (simp add: poll_cycle_def case_prod_beta Let_def)

lemma seam_audits_length:
  "length (audits (snd (seam_observe mcp now tool args u s lab d))) = Suc (length (audits d))"
  using observing.calls_frame(3) [of mcp u s lab "[(now, tool, args)]" d]
  by (simp add: observing.calls_def)

lemma poll_cycle_audits:
  assumes "governed env"
  shows "length (audits (snd (poll_cycle cfg env cd))) = length (audits (snd cd)) + 3"
  using assms by (simp add: poll_cycle_def case_prod_beta Let_def fetch_db seam_audits_length)

lemma poll_cycle_permitted:
  assumes "governed env"
  shows "permitted (snd (poll_cycle cfg env cd)) u s k = permitted (snd cd) u s k"
  using assms by (simp add: poll_cycle_def case_prod_beta Let_def fetch_db seam_observe_frame)

lemma poll_cycle_denied:
  assumes "governed env"
    and "\<not> permitted (snd cd) (co_user (fst cd)) (co_session (fst cd)) OBSERVE"
  shows "events (snd (poll_cycle cfg env cd)) = events (snd cd)" and "fst (poll_cycle cfg env cd) = fst cd"
  using assms
  by (simp_all add: poll_cycle_def case_prod_beta Let_def fetch_denied fetch_db seam_observe_frame)

lemma poll_loop_governed:
  assumes "\<forall>env \<in> set envs. governed env"
  shows "length (audits (snd (poll_loop cfg envs cd))) = length (audits (snd cd)) + 3 * length envs"
  using assms
proof (induction envs arbitrary: cd)
  case (Cons env envs)
  then show ?case using poll_cycle_audits [of env cfg cd] by (simp add: poll_loop_def)
qed (simp add: poll_loop_def)

lemma poll_loop_denied:
  assumes "\<forall>env \<in> set envs. governed env"
    and "\<not> permitted (snd cd) (co_user (fst cd)) (co_session (fst cd)) OBSERVE"
  shows "events (snd (poll_loop cfg envs cd)) = events (snd cd) \<and> fst (poll_loop cfg envs cd) = fst cd"
  using assms
proof (induction envs arbitrary: cd)
  case (Cons env envs)
  then have g: "governed env" by simp
  note one = poll_cycle_denied [OF g Cons.prems(2)]
  from Cons.prems have "\<not> permitted (snd (poll_cycle cfg env cd)) (co_user (fst (poll_cycle cfg env cd)))
      (co_session (fst (poll_cycle cfg env cd))) OBSERVE"
    by (simp add: one poll_cycle_permitted [OF g])
  with Cons.IH [of "poll_cycle cfg env cd"] Cons.prems show ?case
    by (simp add: poll_loop_def one)
qed (simp add: poll_loop_def)

end
