(* ===== verification/Queue.thy ===== *)
theory Queue
  imports Observer
begin

text \<open>
  Admission (\<open>sessions/queue.py\<close>) and one-time tickets (\<open>sessions/services/ticket.py\<close>).  Redis
  is its keys: a cell holds a value and the time it expires.  The Lua scripts run atomically,
  so each is one function of the store.
\<close>

subsection \<open>Cells\<close>

type_synonym 'a cell = "('a \<times> time) option"

definition live :: "time \<Rightarrow> 'a cell \<Rightarrow> 'a option" where
  "live now c = (case c of None \<Rightarrow> None | Some (v, expiry) \<Rightarrow> if now < expiry then Some v else None)"

definition count_of :: "time \<Rightarrow> int cell \<Rightarrow> int" where
  "count_of now c = (case live now c of None \<Rightarrow> 0 | Some n \<Rightarrow> n)"

definition items_of :: "time \<Rightarrow> string list cell \<Rightarrow> string list" where
  "items_of now c = (case live now c of None \<Rightarrow> [] | Some xs \<Rightarrow> xs)"

text \<open>\<open>DECR\<close> and \<open>LREM\<close> keep the expiry; an emptied list is no key.\<close>

definition set_value :: "'a \<Rightarrow> 'a cell \<Rightarrow> 'a cell" where
  "set_value v c = map_option (\<lambda>(_, expiry). (v, expiry)) c"

record redis =
  active_sessions :: "string \<Rightarrow> int cell"
  active_total :: "int cell"
  queues :: "string \<Rightarrow> string list cell"
  provision_seconds :: "real list cell"
  tickets :: "string \<Rightarrow> (string \<times> string) cell"

definition empty_redis :: redis where
  "empty_redis = \<lparr>active_sessions = (\<lambda>_. None), active_total = None, queues = (\<lambda>_. None),
     provision_seconds = None, tickets = (\<lambda>_. None)\<rparr>"

definition ACTIVE_TTL :: int where
  "ACTIVE_TTL = 7 * 24 * 3600"

definition QUEUE_AVG_PROVISION_SEC :: real where
  "QUEUE_AVG_PROVISION_SEC = 30"

definition PROVISION_SAMPLES :: nat where
  "PROVISION_SAMPLES = 20"

subsection \<open>Slots\<close>

definition caps :: "capacity_config \<Rightarrow> string \<Rightarrow> int \<times> int" where
  "caps cfg lab =
     ((case map_of (per_lab_caps cfg) lab of None \<Rightarrow> global_cap cfg | Some c \<Rightarrow> c), global_cap cfg)"

definition lua_try_acquire :: "int \<Rightarrow> int \<Rightarrow> time \<Rightarrow> string \<Rightarrow> redis \<Rightarrow> bool \<times> redis" where
  "lua_try_acquire lab_cap gl_cap now lab r =
     (let curr_lab = count_of now (active_sessions r lab); curr_total = count_of now (active_total r);
          expiry = now + seconds ACTIVE_TTL
      in if lab_cap \<le> curr_lab \<or> gl_cap \<le> curr_total then (False, r)
         else (True, r\<lparr>active_sessions := (active_sessions r)(lab := Some (curr_lab + 1, expiry)),
                       active_total := Some (curr_total + 1, expiry)\<rparr>))"

definition dequeue :: "time \<Rightarrow> string \<Rightarrow> string \<Rightarrow> redis \<Rightarrow> nat \<times> redis" where
  "dequeue now user_id lab r =
     (let xs = items_of now (queues r lab); ys = filter (\<lambda>x. x \<noteq> user_id) xs
      in (length xs - length ys,
          r\<lparr>queues := (queues r)(lab := (if ys = [] then None else set_value ys (queues r lab)))\<rparr>))"

definition try_acquire ::
  "capacity_config \<Rightarrow> time \<Rightarrow> string \<Rightarrow> string \<Rightarrow> redis \<Rightarrow> bool \<times> redis" where
  "try_acquire cfg now user_id lab r =
     (let (per_lab_cap, gcap) = caps cfg lab;
          (acquired, r') = lua_try_acquire per_lab_cap gcap now lab r
      in (acquired, if acquired then snd (dequeue now user_id lab r') else r'))"

definition release :: "time \<Rightarrow> string \<Rightarrow> redis \<Rightarrow> redis" where
  "release now lab r =
     (let l = count_of now (active_sessions r lab); t = count_of now (active_total r);
          r1 = (if 0 < l then r\<lparr>active_sessions := (active_sessions r)(lab :=
                  set_value (l - 1) (active_sessions r lab))\<rparr> else r)
      in if 0 < t then r1\<lparr>active_total := set_value (t - 1) (active_total r1)\<rparr> else r1)"

definition has_free_slot :: "capacity_config \<Rightarrow> time \<Rightarrow> string \<Rightarrow> redis \<Rightarrow> bool" where
  "has_free_slot cfg now lab r =
     (let (per_lab_cap, gcap) = caps cfg lab
      in count_of now (active_sessions r lab) < per_lab_cap \<and> count_of now (active_total r) < gcap)"

subsection \<open>The waiting queue\<close>

fun index_from :: "nat \<Rightarrow> string \<Rightarrow> string list \<Rightarrow> nat option" where
  "index_from i u [] = None"
| "index_from i u (x # xs) = (if x = u then Some i else index_from (Suc i) u xs)"

definition position :: "time \<Rightarrow> string \<Rightarrow> string \<Rightarrow> redis \<Rightarrow> nat option" where
  "position now user_id lab r = index_from 1 user_id (items_of now (queues r lab))"

definition queue_depth :: "time \<Rightarrow> string \<Rightarrow> redis \<Rightarrow> nat" where
  "queue_depth now lab r = length (items_of now (queues r lab))"

definition enqueue :: "capacity_config \<Rightarrow> time \<Rightarrow> string \<Rightarrow> string \<Rightarrow> redis \<Rightarrow> nat \<times> redis" where
  "enqueue cfg now user_id lab r =
     (let xs = items_of now (queues r lab); expiry = now + seconds (queue_ttl_seconds cfg)
      in case index_from 1 user_id xs of
           Some i \<Rightarrow> (i, r\<lparr>queues := (queues r)(lab := Some (xs, expiry))\<rparr>)
         | None \<Rightarrow> (Suc (length xs), r\<lparr>queues := (queues r)(lab := Some (xs @ [user_id], expiry))\<rparr>))"

subsection \<open>Provisioning times\<close>

definition provision_list :: "time \<Rightarrow> redis \<Rightarrow> real list" where
  "provision_list now r = (case live now (provision_seconds r) of None \<Rightarrow> [] | Some xs \<Rightarrow> xs)"

definition record_provision_seconds :: "time \<Rightarrow> real \<Rightarrow> redis \<Rightarrow> redis" where
  "record_provision_seconds now x r =
     r\<lparr>provision_seconds := Some (take PROVISION_SAMPLES (x # provision_list now r),
         now + seconds ACTIVE_TTL)\<rparr>"

definition avg_provision_seconds :: "time \<Rightarrow> redis \<Rightarrow> real" where
  "avg_provision_seconds now r =
     (let values = provision_list now r
      in if values = [] then QUEUE_AVG_PROVISION_SEC
         else sum_list values / real (length values))"

subsection \<open>Tickets\<close>

text \<open>\<open>token_urlsafe\<close> is the parameter \<open>fresh\<close>.\<close>

definition TICKET_TTL_SEC :: int where
  "TICKET_TTL_SEC = 120"

definition issue :: "time \<Rightarrow> string \<Rightarrow> string \<Rightarrow> string \<Rightarrow> redis \<Rightarrow> string \<times> redis" where
  "issue now fresh session_id user_id r =
     (fresh, r\<lparr>tickets := (tickets r)(fresh := Some ((session_id, user_id),
        now + seconds TICKET_TTL_SEC))\<rparr>)"

definition redeem :: "time \<Rightarrow> string \<Rightarrow> redis \<Rightarrow> (string \<times> string) option \<times> redis" where
  "redeem now ticket r =
     (if ticket = [] then (None, r)
      else case live now (tickets r ticket) of
             None \<Rightarrow> (None, r)
           | Some payload \<Rightarrow> (Some payload, r\<lparr>tickets := (tickets r)(ticket := None)\<rparr>))"

subsection \<open>What the operations do to the counters\<close>

lemma live_simps [simp]:
  "live now None = None" "live now (Some (v, e)) = (if now < e then Some v else None)"
  by (simp_all add: live_def)

lemma live_set_value: "live now (set_value v c) = map_option (\<lambda>_. v) (live now c)"
  by (cases c) (auto simp: set_value_def live_def)

lemma count_of_set_value:
  "0 < count_of now c \<Longrightarrow> count_of now (set_value v c) = v"
  by (auto simp: count_of_def live_set_value split: option.splits)

text \<open>A later reading of a cell is the same reading or, after expiry, zero.\<close>

lemma count_of_later: "now \<le> t \<Longrightarrow> count_of t c = count_of now c \<or> count_of t c = 0"
  by (cases c) (auto simp: count_of_def live_def)

lemma seconds_pos [simp]: "0 < seconds n \<longleftrightarrow> 0 < n"
  by (simp add: seconds_def)

lemma try_acquire_verdict: "fst (try_acquire cfg now u lab r) = has_free_slot cfg now lab r"
  by (auto simp: try_acquire_def has_free_slot_def lua_try_acquire_def Let_def case_prod_beta)

lemma try_acquire_counts:
  "count_of now (active_sessions (snd (try_acquire cfg now u lab r)) lab') =
     count_of now (active_sessions r lab') +
     (if has_free_slot cfg now lab r \<and> lab' = lab then 1 else 0)"
  "count_of now (active_total (snd (try_acquire cfg now u lab r))) =
     count_of now (active_total r) + (if has_free_slot cfg now lab r then 1 else 0)"
  by (auto simp: try_acquire_def has_free_slot_def lua_try_acquire_def dequeue_def Let_def
      case_prod_beta count_of_def [of now "Some _"] ACTIVE_TTL_def seconds_def)

lemma release_counts:
  "count_of now (active_sessions (release now lab r) lab') =
     (if lab' = lab then max 0 (count_of now (active_sessions r lab) - 1) + min 0 (count_of now (active_sessions r lab))
      else count_of now (active_sessions r lab'))"
  "count_of now (active_total (release now lab r)) =
     max 0 (count_of now (active_total r) - 1) + min 0 (count_of now (active_total r))"
  by (auto simp: release_def Let_def count_of_set_value)

lemma acquire_release:
  assumes "has_free_slot cfg now lab r"
    and "0 \<le> count_of now (active_sessions r lab)" and "0 \<le> count_of now (active_total r)"
  shows "count_of now (active_sessions (release now lab (snd (try_acquire cfg now u lab r))) lab') =
      count_of now (active_sessions r lab')"
    and "count_of now (active_total (release now lab (snd (try_acquire cfg now u lab r)))) =
      count_of now (active_total r)"
  using assms by (auto simp: release_counts try_acquire_counts)

subsection \<open>The caps bound every run\<close>

datatype queue_op =
    Acquire string string
  | Release string
  | Enqueue string string
  | Dequeue string string
  | Provisioned real
  | Issue string string string
  | Redeem string

fun queue_step :: "capacity_config \<Rightarrow> time \<times> queue_op \<Rightarrow> redis \<Rightarrow> redis" where
  "queue_step cfg (now, Acquire u lab) r = snd (try_acquire cfg now u lab r)"
| "queue_step cfg (now, Release lab) r = release now lab r"
| "queue_step cfg (now, Enqueue u lab) r = snd (enqueue cfg now u lab r)"
| "queue_step cfg (now, Dequeue u lab) r = snd (dequeue now u lab r)"
| "queue_step cfg (now, Provisioned x) r = record_provision_seconds now x r"
| "queue_step cfg (now, Issue f s u) r = snd (issue now f s u r)"
| "queue_step cfg (now, Redeem t) r = snd (redeem now t r)"

text \<open>What a cell holds, whether or not it has expired, respects the bounds.\<close>

definition cell_within :: "int \<Rightarrow> int cell \<Rightarrow> bool" where
  "cell_within cap c = (case c of None \<Rightarrow> True | Some (n, _) \<Rightarrow> 0 \<le> n \<and> n \<le> max 0 cap)"

definition within_caps :: "capacity_config \<Rightarrow> redis \<Rightarrow> bool" where
  "within_caps cfg r \<longleftrightarrow> (\<forall>lab. cell_within (fst (caps cfg lab)) (active_sessions r lab)) \<and>
     cell_within (global_cap cfg) (active_total r)"

lemma cell_within_count: "cell_within cap c \<Longrightarrow> 0 \<le> count_of now c \<and> count_of now c \<le> max 0 cap"
  by (cases c) (auto simp: cell_within_def count_of_def)

lemma cell_within_decr:
  "cell_within cap c \<Longrightarrow> 0 < count_of now c \<Longrightarrow> cell_within cap (set_value (count_of now c - 1) c)"
  by (cases c) (auto simp: cell_within_def count_of_def set_value_def split: if_splits)

lemma within_caps_frame:
  "active_sessions r' = active_sessions r \<Longrightarrow> active_total r' = active_total r \<Longrightarrow>
     within_caps cfg r' = within_caps cfg r"
  by (simp add: within_caps_def)

lemma lua_try_acquire_within:
  assumes "within_caps cfg r"
  shows "within_caps cfg (snd (lua_try_acquire (fst (caps cfg lab)) (global_cap cfg) now lab r))"
proof (cases "fst (caps cfg lab) \<le> count_of now (active_sessions r lab) \<or>
    global_cap cfg \<le> count_of now (active_total r)")
  case True
  then have "snd (lua_try_acquire (fst (caps cfg lab)) (global_cap cfg) now lab r) = r"
    by (simp add: lua_try_acquire_def Let_def)
  with assms show ?thesis by simp
next
  case False
  let ?r = "snd (lua_try_acquire (fst (caps cfg lab)) (global_cap cfg) now lab r)"
  let ?e = "now + seconds ACTIVE_TTL"
  have eq: "active_sessions ?r = (active_sessions r)(lab :=
      Some (count_of now (active_sessions r lab) + 1, ?e))"
    "active_total ?r = Some (count_of now (active_total r) + 1, ?e)"
    using False by (simp_all add: lua_try_acquire_def Let_def)
  have old: "cell_within (fst (caps cfg lab')) (active_sessions r lab')" for lab'
    using assms by (simp add: within_caps_def)
  have tot: "cell_within (global_cap cfg) (active_total r)" using assms by (simp add: within_caps_def)
  have "0 \<le> count_of now (active_sessions r lab)" "0 \<le> count_of now (active_total r)"
    using cell_within_count [OF old [of lab], of now] cell_within_count [OF tot, of now] by simp_all
  with False have "cell_within (fst (caps cfg lab)) (active_sessions ?r lab)"
    "cell_within (global_cap cfg) (active_total ?r)"
    unfolding eq by (simp_all add: cell_within_def)
  moreover have "cell_within (fst (caps cfg lab')) (active_sessions ?r lab')" if "lab' \<noteq> lab" for lab'
    using old [of lab'] that by (simp add: eq)
  ultimately show ?thesis unfolding within_caps_def by metis
qed

lemma release_within:
  assumes "within_caps cfg r" shows "within_caps cfg (release now lab r)"
  using assms by (auto simp: release_def Let_def within_caps_def intro: cell_within_decr)

lemma queue_step_within:
  assumes "within_caps cfg r" shows "within_caps cfg (queue_step cfg e r)"
proof -
  obtain now ev where e: "e = (now, ev)" by (cases e)
  show ?thesis
  proof (cases ev)
    case (Acquire u lab)
    let ?r = "snd (lua_try_acquire (fst (caps cfg lab)) (global_cap cfg) now lab r)"
    have "within_caps cfg ?r" by (rule lua_try_acquire_within [OF assms])
    moreover have "snd (caps cfg lab) = global_cap cfg" by (simp add: caps_def)
    then have "active_sessions (queue_step cfg e r) = active_sessions ?r"
      "active_total (queue_step cfg e r) = active_total ?r"
      by (simp_all add: e Acquire try_acquire_def dequeue_def Let_def case_prod_beta)
    then have "within_caps cfg (queue_step cfg e r) = within_caps cfg ?r"
      by (rule within_caps_frame)
    ultimately show ?thesis by simp
  next
    case (Release lab)
    with assms show ?thesis by (simp add: e release_within)
  next
    case (Redeem t)
    have "active_sessions (snd (redeem now t r)) = active_sessions r"
      "active_total (snd (redeem now t r)) = active_total r"
      by (simp_all add: redeem_def split: option.split)
    then have "within_caps cfg (snd (redeem now t r)) = within_caps cfg r"
      by (rule within_caps_frame)
    with assms show ?thesis by (simp add: e Redeem)
  qed (use assms in \<open>auto simp: e enqueue_def dequeue_def record_provision_seconds_def issue_def
        Let_def within_caps_def split: option.split\<close>)
qed

interpretation admission: transition_system "queue_step cfg" "within_caps cfg"
  for cfg
  by unfold_locales (rule queue_step_within)

lemma empty_redis_within: "within_caps cfg empty_redis"
  by (simp add: within_caps_def empty_redis_def cell_within_def)

lemma admission_bounded:
  assumes "capacity_valid cfg" and "r = fold (queue_step cfg) es empty_redis"
  shows "0 \<le> count_of now (active_sessions r lab) \<and>
    count_of now (active_sessions r lab) \<le> max 0 (fst (caps cfg lab)) \<and>
    0 \<le> count_of now (active_total r) \<and> count_of now (active_total r) \<le> global_cap cfg"
proof -
  have w: "within_caps cfg r"
    unfolding assms(2) by (rule admission.run_inv [OF empty_redis_within])
  with cell_within_count [of "fst (caps cfg lab)" "active_sessions r lab" now]
    cell_within_count [of "global_cap cfg" "active_total r" now] assms(1)
  show ?thesis by (simp add: within_caps_def capacity_valid_def)
qed

subsection \<open>The queue keeps its order\<close>

lemma index_from_None [simp]: "index_from i u xs = None \<longleftrightarrow> u \<notin> set xs"
  by (induction xs arbitrary: i) auto

lemma index_from_Some:
  "index_from i u xs = Some k \<Longrightarrow> i \<le> k \<and> k - i < length xs \<and> xs ! (k - i) = u"
  by (induction xs arbitrary: i k) (fastforce simp: nth_Cons' split: if_splits)+

lemma index_from_Some_in: "index_from i u xs = Some k \<Longrightarrow> u \<in> set xs"
  by (metis index_from_None option.distinct(1))

lemma index_from_append:
  "index_from i u (xs @ ys) = (if u \<in> set xs then index_from i u xs else index_from (i + length xs) u ys)"
  by (induction xs arbitrary: i) auto

lemma enqueue_items:
  assumes "0 < queue_ttl_seconds cfg"
  shows "items_of now (queues (snd (enqueue cfg now u lab r)) lab) =
    (if u \<in> set (items_of now (queues r lab)) then items_of now (queues r lab)
     else items_of now (queues r lab) @ [u])"
  using assms
  by (auto simp: enqueue_def items_of_def [of now "Some _"] Let_def dest: index_from_Some_in
      split: option.splits)

lemma enqueue_position:
  assumes "0 < queue_ttl_seconds cfg"
  shows "position now u lab (snd (enqueue cfg now u lab r)) = Some (fst (enqueue cfg now u lab r))"
proof (cases "index_from 1 u (items_of now (queues r lab))")
  case None
  then have "u \<notin> set (items_of now (queues r lab))" by simp
  moreover from None have "fst (enqueue cfg now u lab r) = Suc (length (items_of now (queues r lab)))"
    by (simp only: enqueue_def Let_def option.case fst_conv)
  ultimately show ?thesis
    by (simp add: position_def enqueue_items [OF assms] index_from_append)
next
  case (Some k)
  then have "u \<in> set (items_of now (queues r lab))"
    by (metis index_from_None option.distinct(1))
  with Some show ?thesis
    by (simp add: position_def enqueue_items [OF assms]) (simp add: enqueue_def Let_def)
qed

text \<open>Joining, or polling again, never moves anybody who is already waiting.\<close>

lemma enqueue_keeps_positions:
  assumes "0 < queue_ttl_seconds cfg" and "position now v lab r = Some k"
  shows "position now v lab (snd (enqueue cfg now u lab r)) = Some k"
proof -
  have "v \<in> set (items_of now (queues r lab))"
    using assms(2) unfolding position_def by (metis index_from_None option.distinct(1))
  with assms(2) show ?thesis
    by (simp add: position_def enqueue_items [OF assms(1)] index_from_append)
qed

lemma dequeue_items:
  "items_of now (queues (snd (dequeue now u lab r)) lab) =
     filter (\<lambda>x. x \<noteq> u) (items_of now (queues r lab))"
proof (cases "live now (queues r lab)")
  case None
  then show ?thesis by (simp add: dequeue_def Let_def items_of_def)
next
  case (Some xs)
  then show ?thesis by (simp add: dequeue_def Let_def items_of_def live_set_value)
qed

text \<open>Admission looks at the counters only: it asks nothing of the queue.\<close>

lemma try_acquire_ignores_queue:
  "fst (try_acquire cfg now u lab (r\<lparr>queues := q\<rparr>)) = fst (try_acquire cfg now v lab r)"
  by (simp add: try_acquire_verdict has_free_slot_def)

subsection \<open>Tickets are single use\<close>

lemma redeem_consumes:
  assumes "fst (redeem now t r) = Some p"
  shows "tickets (snd (redeem now t r)) t = None"
  using assms by (auto simp: redeem_def split: if_splits option.splits)

fun issues :: "string \<Rightarrow> time \<times> queue_op \<Rightarrow> bool" where
  "issues t (_, Issue f _ _) = (f = t)"
| "issues t _ = False"

lemma queue_step_ticket:
  assumes "tickets r t = None" and "\<not> issues t e"
  shows "tickets (queue_step cfg e r) t = None"
proof -
  obtain now ev where e: "e = (now, ev)" by (cases e)
  have "tickets (snd (lua_try_acquire a b now lab r)) = tickets r" for a b lab
    by (simp add: lua_try_acquire_def Let_def)
  with assms show ?thesis
    by (cases ev) (auto simp: e try_acquire_def release_def enqueue_def dequeue_def
        record_provision_seconds_def issue_def redeem_def Let_def case_prod_beta
        split: option.split)
qed

lemma redeem_once:
  assumes "fst (redeem now t r) = Some p" and "\<forall>e \<in> set es. \<not> issues t e"
  shows "fst (redeem later t (fold (queue_step cfg) es (snd (redeem now t r)))) = None"
proof -
  have "tickets (fold (queue_step cfg) es (snd (redeem now t r))) t = None"
    using redeem_consumes [OF assms(1)] assms(2)
    by (induction es arbitrary: r rule: rev_induct) (auto intro: queue_step_ticket)
  then show ?thesis by (simp add: redeem_def [of later])
qed

lemma issue_redeem:
  assumes "fresh \<noteq> []" and "now \<le> t"
  shows "fst (redeem t fresh (snd (issue now fresh s u r))) =
    (if t < now + seconds TICKET_TTL_SEC then Some (s, u) else None)"
  using assms by (simp add: issue_def redeem_def)

end
