(* ===== verification/Experiment.thy ===== *)
theory Experiment
  imports Validation_Facts Control
begin

text \<open>
  The study's bookkeeping: arm assignment and the L2 holdout (\<open>experiment/assignment.py\<close>), the
  metrics row of a finished session (\<open>experiment/finalizer.py\<close>,
  \<open>sessions/services/lifecycle._finalize_experiment_metrics\<close>) and censoring
  (\<open>analytics/runtime/mrt.py\<close>).  The coin of \<open>random.choice\<close> is a parameter.
\<close>

subsection \<open>Arms\<close>

datatype experiment_error = UserNotFound | BadArm

definition control_arm_of :: "string \<Rightarrow> experiment_error + ControlArm" where
  "control_arm_of s = (if s = ''open'' then Inr OPEN else if s = ''closed'' then Inr CLOSED
     else Inl BadArm)"

definition assign_arm :: "bool \<Rightarrow> ControlArm" where
  "assign_arm coin = (if coin then OPEN else CLOSED)"

definition find_user :: "db \<Rightarrow> string \<Rightarrow> user option" where
  "find_user d u = find (\<lambda>x. us_id x = u) (users d)"

definition find_lab :: "db \<Rightarrow> string \<Rightarrow> lab option" where
  "find_lab d slug = find (\<lambda>l. lab_slug l = slug) (labs d)"

definition resolve_control_arm ::
  "bool \<Rightarrow> db \<Rightarrow> string \<Rightarrow> (experiment_error + ControlArm) \<times> db" where
  "resolve_control_arm coin d u =
     (case find_user d u of
        None \<Rightarrow> (Inl UserNotFound, d)
      | Some x \<Rightarrow>
          if \<not> truthy (us_control_arm x)
          then (Inr (assign_arm coin), d\<lparr>users := update_where (\<lambda>y. us_id y = u)
                  (\<lambda>y. y\<lparr>us_control_arm := Some (arm_value (assign_arm coin))\<rparr>) (users d)\<rparr>)
          else (control_arm_of (the (us_control_arm x)), d))"

definition is_l2_session :: "db \<Rightarrow> string \<Rightarrow> string \<Rightarrow> bool" where
  "is_l2_session d u slug =
     (case Option.bind (find_lab d slug) lab_skill of
        None \<Rightarrow> False
      | Some skill \<Rightarrow> skill \<noteq> [] \<and>
          list_ex (\<lambda>p. lp_user_id p = u \<and> lp_status p = ''completed'' \<and> lp_lab_slug p \<noteq> slug \<and>
             (case find_lab d (lp_lab_slug p) of None \<Rightarrow> False | Some l \<Rightarrow> lab_skill l = Some skill))
            (progress d))"

definition effective_arm ::
  "bool \<Rightarrow> db \<Rightarrow> string \<Rightarrow> string \<Rightarrow> (experiment_error + ControlArm) \<times> db" where
  "effective_arm coin d u slug =
     (if is_l2_session d u slug then (Inr OPEN, d) else resolve_control_arm coin d u)"

subsection \<open>Session metrics\<close>

fun max_run :: "nat \<Rightarrow> nat \<Rightarrow> string option \<Rightarrow> behavioral_event list \<Rightarrow> nat" where
  "max_run best run prev [] = best"
| "max_run best run prev (e # es) =
     (if ev_message e = prev \<and> prev \<noteq> None
      then max_run (max best (run + 1)) (run + 1) (ev_message e) es
      else max_run best 1 (ev_message e) es)"

definition max_consecutive_errors :: "behavioral_event list \<Rightarrow> nat" where
  "max_consecutive_errors es = max_run 0 1 None es"

definition compute_session_metrics ::
  "behavioral_event list \<Rightarrow> time \<Rightarrow> time \<Rightarrow> int \<Rightarrow> int \<Rightarrow> string \<Rightarrow> string option \<Rightarrow> string option \<Rightarrow>
   int \<Rightarrow> bool \<Rightarrow> string \<Rightarrow> string \<Rightarrow> string \<Rightarrow> experiment_metrics" where
  "compute_session_metrics es started ended steps n_steps grp arm base cap is_l2 sid u slug =
     (let errs = filter (\<lambda>e. ev_type e = ''error'') es;
          ints = filter (\<lambda>e. ev_type e = ''intervention'') es;
          received = int (length ints);
          succeeded = int (length (filter ev_success ints));
          completed = (n_steps \<le> steps)
      in \<lparr>em_session_id = sid, em_user_id = u, em_lab_slug = slug, em_experiment_group = grp,
          em_agent_backend = None, em_total_time_seconds = total_seconds (ended - started),
          em_steps_completed = steps, em_total_errors = int (length errs),
          em_repeated_errors = int (max_consecutive_errors errs),
          em_unique_error_types = int (card (set (filter truthy (map ev_message errs)))),
          em_interventions_received = received, em_interventions_succeeded = succeeded,
          em_interventions_failed = received - succeeded, em_interventions_accepted = 0,
          em_control_arm = arm, em_base_arm = base,
          em_escalations = int (count_if (\<lambda>e. ev_type e = ''escalation'') es),
          em_would_interventions = int (count_if (\<lambda>e. ev_type e = ''would_intervene'') es),
          em_l1_interventions = received,
          em_l2_unassisted_pass = (if is_l2 then Some (completed \<and> received \<le> cap) else None),
          em_final_score = py_round 1 (if 0 < n_steps then of_int steps / of_int n_steps * 100 else 0),
          em_completed = completed, em_completed_at = (if completed then Some ended else None)\<rparr>)"

text \<open>\<open>spec_steps\<close> is the length of the YAML spec's step list, 0 without a spec.\<close>

definition finalize_experiment_metrics ::
  "la_config \<Rightarrow> (string \<Rightarrow> nat) \<Rightarrow> bool \<Rightarrow> time \<Rightarrow> learning_session \<Rightarrow> db \<Rightarrow> db" where
  "finalize_experiment_metrics cfg spec_steps coin now s d =
     (let es = filter (\<lambda>e. ev_session_id e = ls_id s) (events d);
          (arm, d1) = effective_arm coin d (ls_user_id s) (ls_lab_slug s)
      in case arm of
           Inl _ \<Rightarrow> d1
         | Inr a \<Rightarrow>
             (let l2 = is_l2_session d1 (ls_user_id s) (ls_lab_slug s);
                  usr = find_user d1 (ls_user_id s);
                  grp = (case Option.bind usr us_experiment_group of
                           Some g \<Rightarrow> if g = [] then ''unknown'' else g | None \<Rightarrow> ''unknown'');
                  steps = (case find (progress_of (ls_user_id s) (ls_lab_slug s)) (progress d1) of
                             None \<Rightarrow> 0
                           | Some lp \<Rightarrow> (case lp_current_step lp of None \<Rightarrow> 0 | Some n \<Rightarrow> n));
                  from_spec = spec_steps (ls_lab_slug s);
                  from_rows = (case find_lab d1 (ls_lab_slug s) of None \<Rightarrow> 0 | Some l \<Rightarrow> lab_steps l);
                  n_steps = (if from_spec \<noteq> 0 then from_spec
                           else if from_rows \<noteq> 0 then from_rows else 1)
              in d1\<lparr>metrics := metrics d1 @ [compute_session_metrics es (ls_started_at s)
                   (case ls_ended_at s of Some t \<Rightarrow> t | None \<Rightarrow> now) steps (int n_steps) grp
                   (Some (arm_value a)) (Option.bind usr us_control_arm)
                   (l2_intervention_cap cfg) l2 (ls_id s) (ls_user_id s) (ls_lab_slug s)]\<rparr>))"

definition censor_open_decisions :: "string \<Rightarrow> db \<Rightarrow> nat \<times> db" where
  "censor_open_decisions sid d =
     (let open_row = (\<lambda>r. id_session_id r = sid \<and> id_subsequent_exit_ts r = None)
      in (count_if open_row (decisions d),
          d\<lparr>decisions := update_where open_row (\<lambda>r. r\<lparr>id_censored := True\<rparr>) (decisions d)\<rparr>))"

subsection \<open>Assignment is sticky, the holdout is open\<close>

lemma control_arm_roundtrip [simp]: "control_arm_of (arm_value a) = Inr a"
  by (cases a) (simp_all add: control_arm_of_def)

lemma find_update_where:
  assumes "\<And>x. P (f x) = P x" and "\<And>x. P x \<Longrightarrow> Q x"
  shows "find P (update_where Q f xs) = map_option f (find P xs)"
  using assms by (induction xs) (auto simp: update_where_def)

lemma resolve_control_arm_sticky:
  assumes "resolve_control_arm coin d u = (Inr a, d')"
  shows "resolve_control_arm coin' d' u = (Inr a, d')"
proof -
  from assms obtain x where x: "find_user d u = Some x"
    by (cases "find_user d u") (auto simp: resolve_control_arm_def)
  show ?thesis
  proof (cases "truthy (us_control_arm x)")
    case True
    with assms x show ?thesis by (auto simp: resolve_control_arm_def)
  next
    case False
    with assms x have a: "a = assign_arm coin"
      and d': "d' = d\<lparr>users := update_where (\<lambda>y. us_id y = u)
        (\<lambda>y. y\<lparr>us_control_arm := Some (arm_value (assign_arm coin))\<rparr>) (users d)\<rparr>"
      by (auto simp: resolve_control_arm_def)
    have "find_user d' u = Some (x\<lparr>us_control_arm := Some (arm_value (assign_arm coin))\<rparr>)"
      using x by (simp add: d' find_user_def find_update_where)
    then show ?thesis
      by (cases "assign_arm coin") (simp_all add: resolve_control_arm_def a control_arm_of_def)
  qed
qed

lemma effective_arm_l2: "is_l2_session d u slug \<Longrightarrow> effective_arm coin d u slug = (Inr OPEN, d)"
  by (simp add: effective_arm_def)

subsection \<open>The longest run\<close>

text \<open>Adjacent blocks of one message.\<close>

definition has_block :: "nat \<Rightarrow> string option list \<Rightarrow> bool" where
  "has_block n ms \<longleftrightarrow> (\<exists>pre m post. ms = pre @ replicate n (Some m) @ post)"

lemma has_block_Cons: "has_block n ms \<Longrightarrow> has_block n (m # ms)"
  unfolding has_block_def by (metis append_Cons)

text \<open>
  \<open>max_run\<close> with a current run of \<open>run\<close> copies of \<open>prev\<close> behind it: the best of what was
  found and what the rest, with that run in front, contains.
\<close>

lemma max_run_ge: "best \<le> max_run best run prev es"
  by (induction best run prev es rule: max_run.induct) (auto intro: order_trans [rotated])

lemma replicate_front: "replicate n x @ x # ys = replicate (Suc n) x @ ys"
  by (simp add: replicate_app_Cons_same)

lemma max_run_sound:
  assumes "best = 0 \<or> 2 \<le> best \<and> has_block best (pre @ replicate run prev)" and "1 \<le> run"
    and "r = max_run best run prev es" and "ms = pre @ replicate run prev @ map ev_message es"
  shows "r = 0 \<or> 2 \<le> r \<and> has_block r ms"
  using assms
proof (induction es arbitrary: best run prev pre ms)
  case Nil
  then show ?case by auto
next
  case (Cons e es)
  show ?case
  proof (cases "ev_message e = prev \<and> prev \<noteq> None")
    case True
    then obtain m where m: "prev = Some m" by auto
    have "has_block (run + 1) (pre @ replicate (run + 1) prev)"
      unfolding has_block_def m by (intro exI [of _ pre] exI [of _ m] exI [of _ "[]"]) simp
    moreover have "has_block best (pre @ replicate (run + 1) prev)" if "best \<noteq> 0"
    proof -
      have "has_block best (pre @ replicate run prev)" using Cons.prems(1) that by auto
      then obtain p q x where "pre @ replicate run prev = p @ replicate best (Some x) @ q"
        unfolding has_block_def by blast
      moreover have "pre @ replicate (run + 1) prev = (pre @ replicate run prev) @ [prev]"
        by (simp add: replicate_append_same)
      ultimately have "pre @ replicate (run + 1) prev = p @ replicate best (Some x) @ (q @ [prev])"
        by simp
      then show ?thesis unfolding has_block_def by blast
    qed
    ultimately have b: "max best (run + 1) = 0 \<or> 2 \<le> max best (run + 1) \<and>
        has_block (max best (run + 1)) (pre @ replicate (run + 1) prev)"
      using Cons.prems(1,2) by (auto simp: max_def)
    have "ms = pre @ replicate (run + 1) prev @ map ev_message es"
      using Cons.prems(4) True by (simp add: replicate_front)
    moreover have "r = max_run (max best (run + 1)) (run + 1) prev es"
      using Cons.prems(3) True by simp
    ultimately show ?thesis using Cons.IH [OF b] by simp
  next
    case False
    let ?pre = "pre @ replicate run prev"
    have a: "best = 0 \<or> 2 \<le> best \<and> has_block best (?pre @ replicate 1 (ev_message e))"
    proof (cases "best = 0")
      case False
      with Cons.prems(1) obtain p m q where "?pre = p @ replicate best (Some m) @ q" "2 \<le> best"
        unfolding has_block_def by blast
      then have "?pre @ replicate 1 (ev_message e) =
          p @ replicate best (Some m) @ (q @ [ev_message e])" by simp
      with \<open>2 \<le> best\<close> show ?thesis unfolding has_block_def by blast
    qed simp
    have b: "r = max_run best 1 (ev_message e) es"
      using Cons.prems(3) False by (simp only: max_run.simps if_False)
    have c: "ms = ?pre @ replicate 1 (ev_message e) @ map ev_message es"
      using Cons.prems(4) by simp
    show ?thesis by (rule Cons.IH [OF a _ b c]) simp
  qed
qed

lemma max_run_Some_block:
  assumes "map ev_message es = replicate n (Some m) @ post" and "prev = Some m"
  shows "run + n \<le> max_run (max best run) run prev es"
  using assms
proof (induction n arbitrary: es run best prev)
  case 0
  then show ?case using max_run_ge [of "max best run" run prev es] by simp
next
  case (Suc n)
  then obtain e es' where es: "es = e # es'" "ev_message e = Some m"
    "map ev_message es' = replicate n (Some m) @ post" by (cases es) auto
  have "max (max best run) (run + 1) = max best (run + 1)" by simp
  with Suc.IH [OF es(3), of "Some m" "run + 1" best] Suc.prems(2) es show ?case by simp
qed

lemma max_run_complete:
  assumes "map ev_message es = pre @ replicate n (Some m) @ post" and "2 \<le> n"
  shows "n \<le> max_run best run prev es"
  using assms(1)
proof (induction pre arbitrary: es best run prev)
  case Nil
  from assms(2) obtain k where n: "n = Suc (Suc k)" by (metis add_2_eq_Suc le_Suc_ex)
  with Nil obtain e1 e2 es' where es: "es = e1 # e2 # es'" "ev_message e1 = Some m"
    "ev_message e2 = Some m" "map ev_message es' = replicate k (Some m) @ post"
    by (auto simp: Cons_eq_append_conv map_eq_Cons_conv)
  have two: "2 + k \<le> max_run (max b 2) 2 (Some m) es'" for b
    using max_run_Some_block [OF es(4), of "Some m" 2 b] by simp
  show ?case
  proof (cases "prev = Some m")
    case False
    then have "max_run best run prev es = max_run (max best 2) 2 (Some m) es'"
      using es by (auto simp: numeral_2_eq_2)
    with two [of best] n show ?thesis by simp
  next
    case True
    then have "max_run best run prev es =
        max_run (max (max best (run + 1)) (run + 2)) (run + 2) (Some m) es'"
      using es by simp
    moreover have "run + 2 + k \<le> max_run (max (max best (run + 1)) (run + 2)) (run + 2) (Some m) es'"
      by (rule max_run_Some_block [OF es(4) refl])
    ultimately show ?thesis using n by simp
  qed
next
  case (Cons p pre)
  then obtain e es' where es: "es = e # es'" "map ev_message es' = pre @ replicate n (Some m) @ post"
    by (cases es) auto
  then show ?case using Cons.IH [OF es(2)] by (simp add: es(1))
qed

lemma max_consecutive_errors_spec:
  "max_consecutive_errors es = 0 \<and> (\<forall>n \<ge> 2. \<not> has_block n (map ev_message es)) \<or>
   2 \<le> max_consecutive_errors es \<and> has_block (max_consecutive_errors es) (map ev_message es) \<and>
   (\<forall>n. 2 \<le> n \<and> has_block n (map ev_message es) \<longrightarrow> n \<le> max_consecutive_errors es)"
proof -
  have c: "n \<le> max_consecutive_errors es" if "2 \<le> n" "has_block n (map ev_message es)" for n
    using that max_run_complete unfolding has_block_def max_consecutive_errors_def by blast
  have "max_consecutive_errors es = 0 \<or> 2 \<le> max_consecutive_errors es \<and>
      has_block (max_consecutive_errors es) (map ev_message es)"
  proof (cases es)
    case Nil
    then show ?thesis by (simp add: max_consecutive_errors_def)
  next
    case (Cons e es')
    have "max_consecutive_errors es = max_run 0 1 (ev_message e) es'"
      by (simp add: max_consecutive_errors_def Cons)
    from max_run_sound [OF _ _ this, of "[]"] show ?thesis by (simp add: Cons)
  qed
  with c show ?thesis by fastforce
qed

subsection \<open>What the metrics row says of a completed lab\<close>

text \<open>Nothing on the learner's path writes \<open>current_step\<close>.\<close>

definition no_current_step :: "db \<Rightarrow> bool" where
  "no_current_step d \<longleftrightarrow> list_all (\<lambda>lp. lp_current_step lp = None) (progress d)"

lemma apply_validation_step [simp]:
  "lp_current_step (apply_validation steps now lp) = lp_current_step lp"
  by (simp add: apply_validation_def Let_def case_prod_beta)

lemma record_lab_validation_step:
  "no_current_step d \<Longrightarrow> no_current_step (record_lab_validation now u slug steps d)"
  by (auto simp: no_current_step_def record_lab_validation_def list_all_iff new_progress_def
      update_where_def)

lemma start_lab_step: "no_current_step d \<Longrightarrow> no_current_step (snd (start_lab now u slug d))"
  by (auto simp: no_current_step_def start_lab_def list_all_iff new_progress_def Let_def
      split: option.split)

lemma find_no_step:
  "no_current_step d \<Longrightarrow> find P (progress d) = Some lp \<Longrightarrow> lp_current_step lp = None"
  by (auto simp: no_current_step_def list_all_iff find_Some_iff)

lemma resolve_control_arm_progress [simp]:
  "progress (snd (resolve_control_arm coin d u)) = progress d"
  "labs (snd (resolve_control_arm coin d u)) = labs d"
  "metrics (snd (resolve_control_arm coin d u)) = metrics d"
  "sessions (snd (resolve_control_arm coin d u)) = sessions d"
  by (auto simp: resolve_control_arm_def split: option.split)

lemma effective_arm_frame [simp]:
  "progress (snd (effective_arm coin d u slug)) = progress d"
  "metrics (snd (effective_arm coin d u slug)) = metrics d"
  "sessions (snd (effective_arm coin d u slug)) = sessions d"
  by (auto simp: effective_arm_def)

lemma finalize_never_completed:
  assumes "no_current_step d"
  shows "\<forall>row \<in> set (drop (length (metrics d)) (metrics (finalize_experiment_metrics cfg spec coin now s d))).
    em_steps_completed row = 0 \<and> \<not> em_completed row \<and> em_final_score row = 0"
proof -
  obtain arm d1 where e: "effective_arm coin d (ls_user_id s) (ls_lab_slug s) = (arm, d1)"
    by (cases "effective_arm coin d (ls_user_id s) (ls_lab_slug s)")
  then have p: "progress d1 = progress d" "metrics d1 = metrics d"
    using effective_arm_frame [of coin d "ls_user_id s" "ls_lab_slug s"] by simp_all
  have "(case find (progress_of (ls_user_id s) (ls_lab_slug s)) (progress d1) of None \<Rightarrow> 0
      | Some lp \<Rightarrow> (case lp_current_step lp of None \<Rightarrow> 0 | Some n \<Rightarrow> n)) = (0 :: int)"
    using find_no_step [OF assms] by (auto simp: p split: option.split)
  then show ?thesis
    by (cases arm) (simp_all add: finalize_experiment_metrics_def e Let_def p
        compute_session_metrics_def)
qed

end
