(* ===== verification/Sessions.thy ===== *)
theory Sessions
  imports Queue Experiment "HOL-Library.AList"
begin

text \<open>
  The life of a lab session: readiness (\<open>labs/readiness.py\<close>), launching
  (\<open>sessions/services/launch.py\<close>, \<open>sessions/routers/commands.py\<close>), ending
  (\<open>sessions/services/lifecycle.py\<close>, \<open>state.py\<close>) and the background workers
  (\<open>worker/\<close>).  GNS3 is outside: what it answers is an argument.  A launch spans three
  transactions, and each is one function, so other requests may come in between.
\<close>

subsection \<open>Lab readiness\<close>

definition template_column_for :: "lab \<Rightarrow> (lab \<Rightarrow> string option) \<times> string" where
  "template_column_for l =
     (if ends_with (lab_slug l) ''-ccna'' then (lab_template_iosvl2, ''error.lab.iosvl2_missing'')
      else if ends_with (lab_slug l) ''-frr'' then (lab_template_frr, ''error.lab.no_template'')
      else (lab_template, ''error.lab.no_template_project''))"

definition resolve_template_id :: "lab \<Rightarrow> string + string" where
  "resolve_template_id l =
     (let (column, code) = template_column_for l
      in if truthy (column l) then Inr (the (column l)) else Inl code)"

definition launch_blocker :: "lab \<Rightarrow> string option" where
  "launch_blocker l =
     (if lab_environment l \<noteq> ''gns3'' then None
      else case resolve_template_id l of Inl code \<Rightarrow> Some code | Inr _ \<Rightarrow> None)"

definition is_launchable :: "lab \<Rightarrow> bool" where
  "is_launchable l \<longleftrightarrow> launch_blocker l = None"

text \<open>The blocker code is raised as it is.\<close>

definition template_project_id_for :: "lab \<Rightarrow> string + string" where
  "template_project_id_for l = resolve_template_id l"

datatype lab_problem = EnabledButUnlaunchable string | NoTemplate string | SpecMissing string
  | SpecOrphan string

definition audit_labs :: "lab list \<Rightarrow> string list \<Rightarrow> lab_problem list" where
  "audit_labs ls slugs =
     concat (map (\<lambda>l.
       (if launch_blocker l \<noteq> None
        then [if lab_enabled l then EnabledButUnlaunchable (lab_slug l) else NoTemplate (lab_slug l)]
        else []) @
       (if lab_environment l = ''gns3'' \<and> lab_slug l \<notin> set slugs then [SpecMissing (lab_slug l)]
        else [])) ls) @
     map SpecOrphan (sort (filter (\<lambda>s. s \<notin> set (map lab_slug ls)) (remdups slugs)))"

subsection \<open>Session rows\<close>

record platform =
  pl_db :: db
  pl_redis :: redis
  pl_gauge :: "string \<Rightarrow> int"
  pl_monitors :: "string list"

definition live_status :: "string \<Rightarrow> bool" where
  "live_status s \<longleftrightarrow> s = ''active'' \<or> s = ''provisioning''"

definition get_active_session :: "db \<Rightarrow> string \<Rightarrow> string \<Rightarrow> learning_session option" where
  "get_active_session d u slug =
     find (\<lambda>s. ls_user_id s = u \<and> ls_lab_slug s = slug \<and> ls_status s = ''active'') (sessions d)"

definition get_user_sessions :: "db \<Rightarrow> string \<Rightarrow> learning_session list" where
  "get_user_sessions d u =
     sort_key (\<lambda>s. - ls_started_at s) (filter (\<lambda>s. ls_user_id s = u) (sessions d))"

definition count_active_sessions :: "db \<Rightarrow> string \<Rightarrow> int" where
  "count_active_sessions d u =
     int (count_if (\<lambda>s. ls_user_id s = u \<and> live_status (ls_status s)) (sessions d))"

text \<open>The partial unique index \<open>uq_learning_sessions_one_live\<close>.\<close>

definition one_live :: "learning_session list \<Rightarrow> bool" where
  "one_live ss = distinct (map (\<lambda>s. (ls_user_id s, ls_lab_slug s))
     (filter (\<lambda>s. live_status (ls_status s)) ss))"

definition set_session :: "string \<Rightarrow> (learning_session \<Rightarrow> learning_session) \<Rightarrow> db \<Rightarrow> db" where
  "set_session sid f d = d\<lparr>sessions := update_where (\<lambda>s. ls_id s = sid) f (sessions d)\<rparr>"

definition find_session :: "db \<Rightarrow> string \<Rightarrow> learning_session option" where
  "find_session d sid = find (\<lambda>s. ls_id s = sid) (sessions d)"

subsection \<open>Launching\<close>

definition create_provisioning_row ::
  "capacity_config \<Rightarrow> bool \<Rightarrow> time \<Rightarrow> string \<Rightarrow> string \<Rightarrow> string \<Rightarrow> string \<Rightarrow> db \<Rightarrow>
   string + (learning_session \<times> db)" where
  "create_provisioning_row cap postgres now new_id u slug loc d =
     (if postgres \<and> max_sessions_per_user cap \<le> count_active_sessions d u
      then Inl ''error.session.limit_reached''
      else
        let row = \<lparr>ls_id = new_id, ls_user_id = u, ls_lab_slug = slug,
              ls_status = ''provisioning'', ls_started_at = now, ls_ended_at = None,
              ls_last_seen_at = now, ls_paused_at = None,
              ls_expires_at = Some (now + timedelta (session_max_hours cap * 3600)),
              ls_meta = [], ls_model_id = None, ls_locale = loc\<rparr>
        in if \<not> one_live (sessions d @ [row]) then Inl ''error.session.already_launching''
           else Inr (row, d\<lparr>sessions := sessions d @ [row]\<rparr>))"

definition finalize_session_row ::
  "string \<Rightarrow> string \<Rightarrow> (string \<times> string) list option \<Rightarrow> db \<Rightarrow> string + (learning_session option \<times> db)"
  where
  "finalize_session_row sid status meta d =
     (if find_session d sid = None then Inr (None, d)
      else
        let d' = set_session sid (\<lambda>s. s\<lparr>ls_status := status,
              ls_meta := (case meta of None \<Rightarrow> ls_meta s | Some m \<Rightarrow> m)\<rparr>) d
        in if \<not> one_live (sessions d') then Inl ''IntegrityError''
           else Inr (find_session d' sid, d'))"

definition session_credentials :: "learning_session \<Rightarrow> string + string" where
  "session_credentials s =
     (case map_of (ls_meta s) ''gns3_username'' of
        None \<Rightarrow> Inl ''error.session.incomplete''
      | Some n \<Rightarrow> if n = [] then Inl ''error.session.incomplete'' else Inr n)"

datatype launch_start = Resumed learning_session | Provisioning learning_session string

text \<open>\<open>launch_session\<close> up to the GNS3 call.\<close>

definition launch_prepare ::
  "capacity_config \<Rightarrow> bool \<Rightarrow> time \<Rightarrow> string \<Rightarrow> string \<Rightarrow> string \<Rightarrow> string \<Rightarrow> string \<Rightarrow> platform \<Rightarrow>
   (string + launch_start) \<times> platform" where
  "launch_prepare cap postgres now new_id token u slug loc pl =
     (let d = pl_db pl
      in case get_active_session d u slug of
           Some s \<Rightarrow>
             (let r = snd (issue now token (ls_id s) u (pl_redis pl))
              in case session_credentials s of
                   Inl e \<Rightarrow> (Inl e, pl\<lparr>pl_redis := r\<rparr>)
                 | Inr _ \<Rightarrow> (Inr (Resumed s), pl\<lparr>pl_redis := r,
                     pl_db := set_session (ls_id s) (\<lambda>x. x\<lparr>ls_locale := loc\<rparr>) d\<rparr>))
         | None \<Rightarrow>
             if max_sessions_per_user cap \<le> count_active_sessions d u
             then (Inl ''error.session.limit_reached'', pl)
             else case find_lab d slug of
               None \<Rightarrow> (Inl ''error.lab.not_found'', pl)
             | Some l \<Rightarrow>
                 if \<not> lab_enabled l then (Inl ''error.lab.disabled'', pl)
                 else case template_project_id_for l of
                   Inl e \<Rightarrow> (Inl e, pl)
                 | Inr template \<Rightarrow>
                     (case create_provisioning_row cap postgres now new_id u slug loc d of
                        Inl e \<Rightarrow> (Inl e, pl)
                      | Inr (row, d') \<Rightarrow> (Inr (Provisioning row template), pl\<lparr>pl_db := d'\<rparr>)))"

text \<open>
  The rest of it, once GNS3 has answered with the session's metadata or failed.  Starting the
  nodes is best-effort and outside.
\<close>

definition launch_complete ::
  "time \<Rightarrow> string \<Rightarrow> learning_session \<Rightarrow> string + (string \<times> string) list \<Rightarrow> platform \<Rightarrow>
   (string + learning_session) \<times> platform" where
  "launch_complete now token row answer pl =
     (case answer of
        Inl exc \<Rightarrow>
          (case finalize_session_row (ls_id row) ''error'' None (pl_db pl) of
             Inl e \<Rightarrow> (Inl e, pl)
           | Inr (_, d) \<Rightarrow> (Inl exc, pl\<lparr>pl_db := d\<rparr>))
      | Inr meta \<Rightarrow>
          (case finalize_session_row (ls_id row) ''active'' (Some meta) (pl_db pl) of
             Inl e \<Rightarrow> (Inl e, pl)
           | Inr (None, d) \<Rightarrow> (Inl ''error.session.not_found'', pl\<lparr>pl_db := d\<rparr>)
           | Inr (Some s, d) \<Rightarrow>
               (let pl1 = pl\<lparr>pl_db := d,
                      pl_redis := snd (issue now token (ls_id s) (ls_user_id s) (pl_redis pl))\<rparr>
                in case session_credentials s of Inl e \<Rightarrow> (Inl e, pl1) | Inr _ \<Rightarrow> (Inr s, pl1))))"

datatype launch_reply = Refused string | QueuedAt nat nat int | Opened string string bool

datatype admission = Turned launch_reply | Admitted bool

text \<open>The endpoint before it calls \<open>launch_session\<close>; the flag is \<open>is_new_launch\<close>.\<close>

definition admit ::
  "capacity_config \<Rightarrow> time \<Rightarrow> string \<Rightarrow> string \<Rightarrow> platform \<Rightarrow> admission \<times> platform" where
  "admit cap now u slug pl =
     (if study_decision (pl_db pl) u = None then (Turned (Refused ''error.consent.required''), pl)
      else if get_active_session (pl_db pl) u slug \<noteq> None then (Admitted False, pl)
      else
        let (acquired, r) = try_acquire cap now u slug (pl_redis pl)
        in if acquired then (Admitted True, pl\<lparr>pl_redis := r\<rparr>)
           else
             let (pos, r') = enqueue cap now u slug r; depth = queue_depth now slug r'
             in (Turned (QueuedAt pos depth
                   (round_half_even (of_nat depth * avg_provision_seconds now r'))),
                 pl\<lparr>pl_redis := r'\<rparr>))"

definition give_back :: "bool \<Rightarrow> time \<Rightarrow> string \<Rightarrow> platform \<Rightarrow> platform" where
  "give_back is_new now slug pl =
     (if is_new then pl\<lparr>pl_redis := release now slug (pl_redis pl)\<rparr> else pl)"

definition start_monitor :: "string \<Rightarrow> platform \<Rightarrow> platform" where
  "start_monitor sid pl =
     (if sid \<in> set (pl_monitors pl) then pl else pl\<lparr>pl_monitors := sid # pl_monitors pl\<rparr>)"

definition stop_monitor :: "string \<Rightarrow> platform \<Rightarrow> platform" where
  "stop_monitor sid pl = pl\<lparr>pl_monitors := filter (\<lambda>m. m \<noteq> sid) (pl_monitors pl)\<rparr>"

definition open_phase ::
  "capacity_config \<Rightarrow> bool \<Rightarrow> time \<Rightarrow> string \<Rightarrow> string \<Rightarrow> string \<Rightarrow> string \<Rightarrow> string \<Rightarrow> bool \<Rightarrow> platform \<Rightarrow>
   (launch_reply + learning_session \<times> string) \<times> platform" where
  "open_phase cap postgres now new_id token u slug loc is_new pl =
     (case launch_prepare cap postgres now new_id token u slug loc pl of
        (Inl e, pl') \<Rightarrow> (Inl (Refused e), give_back is_new now slug pl')
      | (Inr (Resumed s), pl') \<Rightarrow>
          (Inl (Opened (ls_id s) (ls_status s) False), give_back is_new now slug pl')
      | (Inr (Provisioning row template), pl') \<Rightarrow> (Inr (row, template), pl'))"

definition close_phase ::
  "time \<Rightarrow> string \<Rightarrow> bool \<Rightarrow> bool \<Rightarrow> learning_session \<Rightarrow> string + (string \<times> string) list \<Rightarrow> platform \<Rightarrow>
   launch_reply \<times> platform" where
  "close_phase now token is_new monitor_ok row answer pl =
     (case launch_complete now token row answer pl of
        (Inl e, pl') \<Rightarrow> (Refused e, give_back is_new now (ls_lab_slug row) pl')
      | (Inr s, pl') \<Rightarrow>
          (Opened (ls_id s) (ls_status s) True,
           if ls_status s = ''active''
           then (if monitor_ok then start_monitor (ls_id s) pl' else pl')
                  \<lparr>pl_gauge := (pl_gauge pl')(ls_lab_slug row := pl_gauge pl' (ls_lab_slug row) + 1)\<rparr>
           else pl'))"

text \<open>
  The whole request when no other one comes in between; \<open>gns3\<close> is what GNS3 answers for a
  template.
\<close>

definition launch_endpoint ::
  "capacity_config \<Rightarrow> bool \<Rightarrow> time \<Rightarrow> string \<Rightarrow> string \<Rightarrow> (string \<Rightarrow> string + (string \<times> string) list) \<Rightarrow>
   bool \<Rightarrow> string \<Rightarrow> string \<Rightarrow> string \<Rightarrow> platform \<Rightarrow> launch_reply \<times> platform" where
  "launch_endpoint cap postgres now new_id token gns3 monitor_ok u slug loc pl =
     (case admit cap now u slug pl of
        (Turned reply, pl1) \<Rightarrow> (reply, pl1)
      | (Admitted is_new, pl1) \<Rightarrow>
          (case open_phase cap postgres now new_id token u slug loc is_new pl1 of
             (Inl reply, pl2) \<Rightarrow> (reply, pl2)
           | (Inr (row, template), pl2) \<Rightarrow>
               close_phase now token is_new monitor_ok row (gns3 template) pl2))"

subsection \<open>Ending\<close>

record end_env =
  ee_cfg :: la_config
  ee_spec_steps :: "string \<Rightarrow> nat"
  ee_coin :: bool
  ee_now :: time

definition release_slot :: "time \<Rightarrow> string \<Rightarrow> bool \<Rightarrow> platform \<Rightarrow> platform" where
  "release_slot now slug was_active pl =
     (let pl1 = pl\<lparr>pl_redis := release now slug (pl_redis pl)\<rparr>
      in if \<not> was_active then pl1
         else pl1\<lparr>pl_gauge := (pl_gauge pl1)(slug := pl_gauge pl1 slug - 1)\<rparr>)"

definition mark_ended_and_finalize ::
  "end_env \<Rightarrow> learning_session \<Rightarrow> string \<Rightarrow> platform \<Rightarrow> platform" where
  "mark_ended_and_finalize env s status pl =
     (if ls_ended_at s \<noteq> None then pl
      else
        let ended = s\<lparr>ls_status := status, ls_ended_at := Some (ee_now env)\<rparr>;
            d1 = set_session (ls_id s) (\<lambda>x. x\<lparr>ls_status := status, ls_ended_at := Some (ee_now env)\<rparr>)
                   (pl_db pl);
            d2 = finalize_experiment_metrics (ee_cfg env) (ee_spec_steps env) (ee_coin env)
                   (ee_now env) ended d1;
            d3 = snd (censor_open_decisions (ls_id s) d2)
        in release_slot (ee_now env) (ls_lab_slug s) (ls_status s = ''active'') (pl\<lparr>pl_db := d3\<rparr>))"

definition end_session ::
  "end_env \<Rightarrow> string \<Rightarrow> string \<Rightarrow> string \<Rightarrow> platform \<Rightarrow> bool \<times> platform" where
  "end_session env sid u status pl =
     (case get_owned_session (pl_db pl) sid u of
        None \<Rightarrow> (False, pl) | Some s \<Rightarrow> (True, mark_ended_and_finalize env s status pl))"

definition end_lab :: "end_env \<Rightarrow> string \<Rightarrow> string \<Rightarrow> platform \<Rightarrow> bool \<times> platform" where
  "end_lab env sid u pl =
     (case get_owned_session (pl_db pl) sid u of
        None \<Rightarrow> (False, pl)
      | Some s \<Rightarrow> (True, mark_ended_and_finalize env s ''ended'' (stop_monitor sid pl)))"

text \<open>The orphan branch of \<open>get_session_state\<close>: GNS3 answered 404.\<close>

definition orphan_sweep :: "end_env \<Rightarrow> string \<Rightarrow> string \<Rightarrow> platform \<Rightarrow> platform" where
  "orphan_sweep env sid u pl =
     (case get_owned_session (pl_db pl) sid u of
        None \<Rightarrow> pl
      | Some s \<Rightarrow>
          if map_of (ls_meta s) ''gns3_service_session_id'' \<in> {None, Some []} then pl
          else mark_ended_and_finalize env s ''ended'' pl)"

definition restart_resume :: "string \<Rightarrow> string \<Rightarrow> platform \<Rightarrow> bool \<times> platform" where
  "restart_resume sid u pl =
     (case get_owned_session (pl_db pl) sid u of
        None \<Rightarrow> (False, pl)
      | Some s \<Rightarrow> (True, pl\<lparr>pl_db := set_session sid (\<lambda>x. x\<lparr>ls_paused_at := None\<rparr>) (pl_db pl)\<rparr>))"

text \<open>\<open>reset_lab\<close>, with the id of the project GNS3 recreated.\<close>

definition reset_lab :: "string \<Rightarrow> string \<Rightarrow> string \<Rightarrow> platform \<Rightarrow> (string + bool) \<times> platform" where
  "reset_lab new_project sid u pl =
     (case get_owned_session (pl_db pl) sid u of
        None \<Rightarrow> (Inr False, pl)
      | Some s \<Rightarrow>
          (case find_lab (pl_db pl) (ls_lab_slug s) of
             None \<Rightarrow> (Inl ''error.lab.not_found'', pl)
           | Some l \<Rightarrow>
               (case template_project_id_for l of
                  Inl e \<Rightarrow> (Inl e, pl)
                | Inr _ \<Rightarrow>
                    if map_of (ls_meta s) ''gns3_service_session_id'' \<in> {None, Some []}
                    then (Inl ''error.session.incomplete'', pl)
                    else (Inr True, pl\<lparr>pl_db := set_session sid
                      (\<lambda>x. x\<lparr>ls_meta := AList.update ''gns3_project_id'' new_project (ls_meta x)\<rparr>)
                      (pl_db pl)\<rparr>))))"

subsection \<open>Workers\<close>

definition STALE_PROVISIONING_MIN :: int where
  "STALE_PROVISIONING_MIN = 15"

definition reapable :: "time \<Rightarrow> learning_session \<Rightarrow> bool" where
  "reapable now s \<longleftrightarrow> live_status (ls_status s) \<and>
     ((case ls_expires_at s of None \<Rightarrow> False | Some t \<Rightarrow> t < now) \<or>
      (ls_status s = ''provisioning'' \<and> ls_started_at s < now - seconds (STALE_PROVISIONING_MIN * 60)))"

definition end_one :: "end_env \<Rightarrow> string \<Rightarrow> platform \<Rightarrow> platform" where
  "end_one env sid pl =
     (let pl1 = stop_monitor sid pl
      in case find_session (pl_db pl1) sid of
           None \<Rightarrow> pl1 | Some row \<Rightarrow> mark_ended_and_finalize env row ''ended'' pl1)"

definition reap_expired_sessions :: "end_env \<Rightarrow> platform \<Rightarrow> nat \<times> platform" where
  "reap_expired_sessions env pl =
     (let rows = filter (reapable (ee_now env)) (sessions (pl_db pl))
      in (length rows, fold (end_one env) (map ls_id rows) pl))"

definition IDLE_THRESHOLD_MIN :: int where
  "IDLE_THRESHOLD_MIN = 30"

text \<open>\<open>gns3_activity\<close> is \<open>_last_activity_at\<close>; \<open>stopped\<close> says that saving and stopping the nodes
  did not raise.\<close>

definition reclaimable :: "time \<Rightarrow> (string \<Rightarrow> time option) \<Rightarrow> learning_session \<Rightarrow> bool" where
  "reclaimable now gns3_activity s \<longleftrightarrow>
     (let cutoff = now - seconds (IDLE_THRESHOLD_MIN * 60)
      in ls_status s = ''active'' \<and> ls_paused_at s = None \<and> ls_last_seen_at s < cutoff \<and>
         \<not> (case gns3_activity (ls_id s) of None \<Rightarrow> False | Some t \<Rightarrow> cutoff < t) \<and>
         map_of (ls_meta s) ''gns3_service_session_id'' \<notin> {None, Some []})"

definition reclaim_idle_sessions ::
  "time \<Rightarrow> (string \<Rightarrow> time option) \<Rightarrow> (string \<Rightarrow> bool) \<Rightarrow> platform \<Rightarrow> platform" where
  "reclaim_idle_sessions now gns3_activity stopped pl =
     fold (\<lambda>sid pl. pl\<lparr>pl_db := set_session sid (\<lambda>x. x\<lparr>ls_paused_at := Some now\<rparr>) (pl_db pl)\<rparr>)
       (map ls_id (filter (\<lambda>s. reclaimable now gns3_activity s \<and> stopped (ls_id s))
         (sessions (pl_db pl)))) pl"

definition restore_session_monitors :: "la_config \<Rightarrow> time \<Rightarrow> platform \<Rightarrow> platform" where
  "restore_session_monitors cfg now pl =
     fold start_monitor
       (map ls_id (filter (\<lambda>s. ls_status s = ''active'' \<and>
          now - timedelta (progress_max_duration_hours cfg * 3600) \<le> ls_started_at s)
          (sessions (pl_db pl)))) pl"

definition BATCH_SIZE :: nat where
  "BATCH_SIZE = 10000"

text \<open>One batch: the first \<open>BATCH_SIZE\<close> old rows go.\<close>

fun drop_first :: "('a \<Rightarrow> bool) \<Rightarrow> nat \<Rightarrow> 'a list \<Rightarrow> 'a list" where
  "drop_first P n [] = []"
| "drop_first P n (x # xs) =
     (if P x \<and> 0 < n then drop_first P (n - 1) xs else x # drop_first P n xs)"

lemma length_drop_first: "length (drop_first P n xs) + min n (count_if P xs) = length xs"
  by (induction P n xs rule: drop_first.induct) auto

function sweep_rows :: "time \<Rightarrow> mcp_audit list \<Rightarrow> nat \<Rightarrow> nat \<times> mcp_audit list" where
  "sweep_rows cutoff rows removed =
     (let rows' = drop_first (\<lambda>a. au_ts a < cutoff) BATCH_SIZE rows;
          batch = length rows - length rows'
      in if batch < BATCH_SIZE then (removed + batch, rows')
         else sweep_rows cutoff rows' (removed + batch))"
  by pat_completeness auto
termination
  by (relation "measure (\<lambda>(_, rows, _). length rows)") (auto simp: BATCH_SIZE_def)

definition sweep_mcp_audit :: "capacity_config \<Rightarrow> time \<Rightarrow> db \<Rightarrow> nat \<times> db" where
  "sweep_mcp_audit cap now d =
     (let (n, rows) = sweep_rows (now - seconds (mcp_audit_retention_days cap * 86400)) (audits d) 0
      in (n, d\<lparr>audits := rows\<rparr>))"

end
