(* ===== verification/Session_Facts.thy ===== *)
theory Session_Facts
  imports Sessions
begin

text \<open>
  One live session per learner and lab in every reachable state, slots given back by every
  refused launch, ending once, and the two ways the counters and the rows come apart.
\<close>

subsection \<open>Rows and tables\<close>

lemma set_session_fields [simp]:
  "sessions (set_session sid f d) = update_where (\<lambda>s. ls_id s = sid) f (sessions d)"
  "consents (set_session sid f d) = consents d" "labs (set_session sid f d) = labs d"
  "progress (set_session sid f d) = progress d" "decisions (set_session sid f d) = decisions d"
  by (simp_all add: set_session_def)

lemma find_session_set:
  "(\<And>s. ls_id (f s) = ls_id s) \<Longrightarrow>
     find_session (set_session sid f d) sid = map_option f (find_session d sid)"
  by (simp add: find_session_def find_update_where)

lemma find_conj_update:
  "(\<And>s. P (f s) = P s) \<Longrightarrow> (\<And>s. Q (f s) = Q s) \<Longrightarrow>
     find (\<lambda>s. P s \<and> Q s) (update_where P f ss) = map_option f (find (\<lambda>s. P s \<and> Q s) ss)"
  by (induction ss) auto

lemma get_owned_set:
  "(\<And>s. ls_id (f s) = ls_id s \<and> ls_user_id (f s) = ls_user_id s) \<Longrightarrow>
     get_owned_session (set_session sid f d) sid u = map_option f (get_owned_session d sid u)"
  by (simp add: get_owned_session_def find_conj_update)

lemma finalize_metrics_sessions [simp]:
  "sessions (finalize_experiment_metrics cfg spec coin now s d) = sessions d"
  using effective_arm_frame(3) [of coin d "ls_user_id s" "ls_lab_slug s"]
  by (simp add: finalize_experiment_metrics_def case_prod_beta Let_def split: sum.split)

lemma censor_sessions [simp]: "sessions (snd (censor_open_decisions sid d)) = sessions d"
  by (simp add: censor_open_decisions_def Let_def)

lemma release_slot_db [simp]:
  "pl_db (release_slot now slug b pl) = pl_db pl"
  "pl_redis (release_slot now slug b pl) = release now slug (pl_redis pl)"
  by (simp_all add: release_slot_def Let_def)

lemma stop_monitor_fields [simp]:
  "pl_db (stop_monitor sid pl) = pl_db pl" "pl_redis (stop_monitor sid pl) = pl_redis pl"
  by (simp_all add: stop_monitor_def)

lemma start_monitor_fields [simp]:
  "pl_db (start_monitor sid pl) = pl_db pl" "pl_redis (start_monitor sid pl) = pl_redis pl"
  "pl_gauge (start_monitor sid pl) = pl_gauge pl"
  by (simp_all add: start_monitor_def)

lemma give_back_fields [simp]:
  "pl_db (give_back b now slug pl) = pl_db pl"
  "pl_redis (give_back b now slug pl) =
     (if b then release now slug (pl_redis pl) else pl_redis pl)"
  by (simp_all add: give_back_def)

lemma mark_ended_sessions:
  "sessions (pl_db (mark_ended_and_finalize env s status pl)) =
     (if ls_ended_at s \<noteq> None then sessions (pl_db pl)
      else update_where (\<lambda>x. ls_id x = ls_id s)
        (\<lambda>x. x\<lparr>ls_status := status, ls_ended_at := Some (ee_now env)\<rparr>) (sessions (pl_db pl)))"
  by (simp add: mark_ended_and_finalize_def Let_def)

lemma mark_ended_redis:
  "pl_redis (mark_ended_and_finalize env s status pl) =
     (if ls_ended_at s \<noteq> None then pl_redis pl
      else release (ee_now env) (ls_lab_slug s) (pl_redis pl))"
  by (simp add: mark_ended_and_finalize_def Let_def)

subsection \<open>One live session per learner and lab\<close>

lemma one_live_update:
  assumes "one_live ss"
    and "\<And>s. ls_user_id (f s) = ls_user_id s \<and> ls_lab_slug (f s) = ls_lab_slug s \<and>
      (live_status (ls_status (f s)) \<longrightarrow> live_status (ls_status s))"
  shows "one_live (update_where P f ss)"
proof -
  let ?g = "\<lambda>s. (ls_user_id s, ls_lab_slug s)" and ?p = "\<lambda>s. live_status (ls_status s)"
  have sub: "set (map ?g (filter ?p (update_where P f ss))) \<subseteq> set (map ?g (filter ?p ss))" for ss
    using assms(2) by (induction ss) auto
  show ?thesis
    using assms(1) unfolding one_live_def
  proof (induction ss)
    case (Cons s ss)
    then show ?case using sub [of ss] assms(2) [of s] by (auto split: if_splits)
  qed simp
qed

lemma mark_ended_one_live:
  assumes "one_live (sessions (pl_db pl))" and "\<not> live_status status"
  shows "one_live (sessions (pl_db (mark_ended_and_finalize env s status pl)))"
  using assms by (simp add: mark_ended_sessions one_live_update)

lemma ended_not_live [simp]: "\<not> live_status ''ended''"
  by (simp add: live_status_def)

lemma find_session_some_row:
  "create_provisioning_row cap pg now i u slug loc d = Inr (row, d') \<Longrightarrow>
     one_live (sessions d') \<and> sessions d' = sessions d @ [row] \<and> ls_id row = i \<and>
     ls_user_id row = u \<and> ls_lab_slug row = slug \<and> ls_status row = ''provisioning'' \<and>
     ls_ended_at row = None \<and> consents d' = consents d"
  by (auto simp: create_provisioning_row_def Let_def split: if_splits)

lemma finalize_row_one_live:
  "finalize_session_row sid st meta d = Inr (r, d') \<Longrightarrow> one_live (sessions d) \<Longrightarrow>
     one_live (sessions d')"
  by (auto simp: finalize_session_row_def Let_def split: if_splits)

lemma launch_prepare_one_live:
  assumes "one_live (sessions (pl_db pl))"
  shows "one_live (sessions (pl_db (snd (launch_prepare cap pg now i tok u slug loc pl))))"
  using assms
  by (auto simp: launch_prepare_def Let_def one_live_update dest: find_session_some_row
      split: option.split sum.split)

lemma launch_complete_one_live:
  assumes "one_live (sessions (pl_db pl))"
  shows "one_live (sessions (pl_db (snd (launch_complete now tok row answer pl))))"
  using assms
  by (auto simp: launch_complete_def Let_def dest: finalize_row_one_live
      split: option.split sum.split)

text \<open>Everything that writes session rows, in any order.\<close>

inductive session_step :: "capacity_config \<Rightarrow> platform \<Rightarrow> platform \<Rightarrow> bool" for cap where
  admit: "session_step cap pl (snd (admit cap now u slug pl))"
| open_phase: "session_step cap pl (snd (open_phase cap pg now i tok u slug loc is_new pl))"
| close_phase: "session_step cap pl (snd (close_phase now tok is_new ok row answer pl))"
| end_lab: "session_step cap pl (snd (end_lab env sid u pl))"
| end_session: "\<not> live_status st \<Longrightarrow> session_step cap pl (snd (end_session env sid u st pl))"
| orphan: "session_step cap pl (orphan_sweep env sid u pl)"
| resume: "session_step cap pl (snd (restart_resume sid u pl))"
| reset: "session_step cap pl (snd (reset_lab proj sid u pl))"
| reap: "session_step cap pl (snd (reap_expired_sessions env pl))"
| reclaim: "session_step cap pl (reclaim_idle_sessions now seen stopped pl)"
| touch: "session_step cap pl (pl\<lparr>pl_db := touch_session now sid u (pl_db pl)\<rparr>)"
| observed: "session_step cap pl (pl\<lparr>pl_db := touch_observed_session now sid (pl_db pl)\<rparr>)"

inductive reachable :: "capacity_config \<Rightarrow> platform \<Rightarrow> bool" for cap where
  init: "sessions (pl_db pl) = [] \<Longrightarrow> reachable cap pl"
| step: "reachable cap pl \<Longrightarrow> session_step cap pl pl' \<Longrightarrow> reachable cap pl'"

inductive_cases session_stepE: "session_step cap pl pl'"

lemma fold_keeps:
  "P pl \<Longrightarrow> (\<And>x pl. P pl \<Longrightarrow> P (f x pl)) \<Longrightarrow> P (fold f xs pl)"
  by (induction xs arbitrary: pl) auto

abbreviation one_live_in :: "platform \<Rightarrow> bool" where
  "one_live_in pl \<equiv> one_live (sessions (pl_db pl))"

lemma end_one_one_live:
  "one_live_in pl \<Longrightarrow> one_live_in (end_one env sid pl)"
  by (simp add: end_one_def Let_def mark_ended_one_live split: option.split)

lemma reap_one_live:
  "one_live_in pl \<Longrightarrow> one_live_in (snd (reap_expired_sessions env pl))"
  unfolding reap_expired_sessions_def Let_def snd_conv
  by (rule fold_keeps [of one_live_in]) (simp_all add: end_one_one_live)

lemma reclaim_one_live:
  "one_live_in pl \<Longrightarrow> one_live_in (reclaim_idle_sessions now seen stopped pl)"
  unfolding reclaim_idle_sessions_def
  by (rule fold_keeps [of one_live_in]) (simp_all add: one_live_update)

lemma end_lab_one_live:
  "one_live_in pl \<Longrightarrow> one_live_in (snd (end_lab env sid u pl))"
  by (simp add: end_lab_def mark_ended_one_live split: option.split)

lemma orphan_one_live:
  "one_live_in pl \<Longrightarrow> one_live_in (orphan_sweep env sid u pl)"
  by (simp add: orphan_sweep_def mark_ended_one_live split: option.split)

lemma reset_one_live:
  "one_live_in pl \<Longrightarrow> one_live_in (snd (reset_lab proj sid u pl))"
  by (simp add: reset_lab_def one_live_update split: option.split sum.split)

lemma admit_one_live:
  "one_live_in pl \<Longrightarrow> one_live_in (snd (admit cap now u slug pl))"
  by (simp add: admit_def Let_def case_prod_beta)

lemma open_phase_one_live:
  assumes "one_live_in pl"
  shows "one_live_in (snd (open_phase cap pg now i tok u slug loc is_new pl))"
  using launch_prepare_one_live [OF assms, of cap pg now i tok u slug loc]
  by (auto simp: open_phase_def split: prod.split sum.split launch_start.split)

lemma close_phase_one_live:
  assumes "one_live_in pl"
  shows "one_live_in (snd (close_phase now tok is_new ok row answer pl))"
  using launch_complete_one_live [OF assms, of now tok row answer]
  by (auto simp: close_phase_def split: prod.split sum.split)

lemma touch_one_live:
  "one_live_in pl \<Longrightarrow> one_live (sessions (touch_session now sid u (pl_db pl)))"
  "one_live_in pl \<Longrightarrow> one_live (sessions (touch_observed_session now sid (pl_db pl)))"
  by (simp_all add: touch_session_def touch_observed_session_def one_live_update)

lemma one_live_step:
  assumes "session_step cap pl pl'" and "one_live_in pl"
  shows "one_live_in pl'"
  using assms
proof cases
  case (end_session st env sid u)
  with assms(2) show ?thesis by (simp add: end_session_def mark_ended_one_live split: option.split)
next
  case (resume sid u)
  with assms(2) show ?thesis by (simp add: restart_resume_def one_live_update split: option.split)
qed (simp_all add: admit_one_live open_phase_one_live close_phase_one_live end_lab_one_live
      orphan_one_live reset_one_live reap_one_live reclaim_one_live touch_one_live)

lemma reachable_one_live: "reachable cap pl \<Longrightarrow> one_live (sessions (pl_db pl))"
proof (induction rule: reachable.induct)
  case (init pl)
  then show ?case by (simp add: one_live_def)
qed (rule one_live_step)

lemma one_live_count:
  assumes "one_live ss"
  shows "count_if (\<lambda>s. (ls_user_id s = u \<and> ls_lab_slug s = slug) \<and> live_status (ls_status s)) ss \<le> 1"
  using assms unfolding one_live_def
proof (induction ss)
  case (Cons s ss)
  show ?case
  proof (cases "(ls_user_id s = u \<and> ls_lab_slug s = slug) \<and> live_status (ls_status s)")
    case True
    with Cons.prems have "\<forall>x \<in> set ss. live_status (ls_status x) \<longrightarrow>
        \<not> (ls_user_id x = u \<and> ls_lab_slug x = slug)"
      by (simp add: image_iff) metis
    then have "count_if (\<lambda>s. (ls_user_id s = u \<and> ls_lab_slug s = slug) \<and> live_status (ls_status s)) ss = 0"
      unfolding count_if_def length_0_conv filter_empty_conv by blast
    with True show ?thesis by simp
  next
    case False
    with Cons show ?thesis by (auto split: if_splits)
  qed
qed simp

subsection \<open>What a launch does to the counters\<close>

abbreviation lab_count :: "time \<Rightarrow> platform \<Rightarrow> string \<Rightarrow> int" where
  "lab_count now pl slug \<equiv> count_of now (active_sessions (pl_redis pl) slug)"

abbreviation total_count :: "time \<Rightarrow> platform \<Rightarrow> int" where
  "total_count now pl \<equiv> count_of now (active_total (pl_redis pl))"

text \<open>A call whose Redis part is tickets leaves both counters alone.\<close>

definition same_counts :: "platform \<Rightarrow> platform \<Rightarrow> bool" where
  "same_counts pl pl' \<longleftrightarrow> active_sessions (pl_redis pl') = active_sessions (pl_redis pl) \<and>
     active_total (pl_redis pl') = active_total (pl_redis pl)"

lemma issue_counts [simp]:
  "active_sessions (snd (issue now t s u r)) = active_sessions r"
  "active_total (snd (issue now t s u r)) = active_total r"
  by (simp_all add: issue_def)

lemma launch_prepare_counts:
  "same_counts pl (snd (launch_prepare cap pg now i tok u slug loc pl))"
  by (simp add: same_counts_def launch_prepare_def Let_def split: option.split sum.split)

lemma launch_complete_counts:
  "same_counts pl (snd (launch_complete now tok row answer pl))"
  by (simp add: same_counts_def launch_complete_def Let_def split: option.split sum.split)

lemma launch_prepare_row:
  "launch_prepare cap pg now i tok u slug loc pl = (Inr (Provisioning row t), pl') \<Longrightarrow>
     ls_lab_slug row = slug \<and> ls_user_id row = u \<and> ls_id row = i"
  by (auto simp: launch_prepare_def Let_def dest: find_session_some_row
      split: option.splits sum.splits if_splits)

text \<open>
  The request keeps the slot it took exactly when it answers with a session it created.
\<close>

definition keeps_slot :: "launch_reply \<Rightarrow> bool" where
  "keeps_slot reply = (case reply of Opened _ _ created \<Rightarrow> created | _ \<Rightarrow> False)"

lemma open_phase_counts:
  "open_phase cap pg now i tok u slug loc is_new pl = (Inl reply, pl') \<Longrightarrow>
     \<not> keeps_slot reply \<and> same_counts (give_back is_new now slug pl) pl'"
  using launch_prepare_counts [of pl cap pg now i tok u slug loc]
  by (auto simp: open_phase_def keeps_slot_def same_counts_def release_def Let_def
      split: prod.splits sum.splits launch_start.splits)

lemma open_phase_continues:
  "open_phase cap pg now i tok u slug loc is_new pl = (Inr (row, t), pl') \<Longrightarrow>
     same_counts pl pl' \<and> ls_lab_slug row = slug"
  using launch_prepare_counts [of pl cap pg now i tok u slug loc]
  by (auto simp: open_phase_def dest: launch_prepare_row
      split: prod.splits sum.splits launch_start.splits)

lemma close_phase_counts:
  "close_phase now tok is_new ok row answer pl = (reply, pl') \<Longrightarrow>
     same_counts (if keeps_slot reply then pl else give_back is_new now (ls_lab_slug row) pl) pl'"
  using launch_complete_counts [of pl now tok row answer]
  by (auto simp: close_phase_def keeps_slot_def same_counts_def release_def Let_def
      split: prod.splits sum.splits)

lemma admit_turned_counts:
  "admit cap now u slug pl = (Turned reply, pl') \<Longrightarrow> same_counts pl pl' \<and> \<not> keeps_slot reply"

  by (auto simp: admit_def Let_def case_prod_beta same_counts_def keeps_slot_def enqueue_def
      try_acquire_def lua_try_acquire_def split: if_splits option.splits)

lemma admit_admitted:
  "admit cap now u slug pl = (Admitted is_new, pl') \<Longrightarrow>
     study_decision (pl_db pl) u \<noteq> None \<and> pl_db pl' = pl_db pl \<and>
     (is_new \<longleftrightarrow> get_active_session (pl_db pl) u slug = None) \<and>
     (if is_new then has_free_slot cap now slug (pl_redis pl) \<and>
        pl_redis pl' = snd (try_acquire cap now u slug (pl_redis pl)) else pl' = pl)"
  by (auto simp: admit_def Let_def case_prod_beta try_acquire_verdict split: if_splits)

lemma give_back_counts:
  assumes "within_caps cap (pl_redis pl)" and "admit cap now u slug pl = (Admitted is_new, pl1)"
    and "same_counts pl1 pl2" and "same_counts (give_back is_new now slug pl2) pl3"
  shows "lab_count now pl3 s = lab_count now pl s \<and> total_count now pl3 = total_count now pl"
proof -
  have 0: "0 \<le> lab_count now pl slug" "0 \<le> total_count now pl"
    using assms(1) cell_within_count [of "fst (caps cap slug)" "active_sessions (pl_redis pl) slug" now]
      cell_within_count [of "global_cap cap" "active_total (pl_redis pl)" now]
    by (simp_all add: within_caps_def)
  show ?thesis
    using admit_admitted [OF assms(2)] assms(3,4) 0
    by (auto simp: same_counts_def release_counts try_acquire_counts split: if_splits)
qed

lemma resumes_when_active:
  "get_active_session (pl_db pl) u slug \<noteq> None \<Longrightarrow>
     \<exists>reply pl'. open_phase cap pg now i tok u slug loc is_new pl = (Inl reply, pl')"
  by (auto simp: open_phase_def launch_prepare_def Let_def split: sum.splits)

lemma same_counts_trans: "same_counts a b \<Longrightarrow> same_counts b c \<Longrightarrow> same_counts a c"
  by (simp add: same_counts_def)

lemma same_counts_refl [simp]: "same_counts a a"
  by (simp add: same_counts_def)

lemma same_counts_read:
  "same_counts pl pl' \<Longrightarrow> lab_count now pl' s = lab_count now pl s \<and>
     total_count now pl' = total_count now pl"
  by (simp add: same_counts_def)

lemma launch_accounting:
  assumes w: "within_caps cap (pl_redis pl)"
    and run: "launch_endpoint cap pg now i tok gns3 ok u slug loc pl = (reply, pl')"
  shows "lab_count now pl' s = lab_count now pl s + (if keeps_slot reply \<and> s = slug then 1 else 0) \<and>
    total_count now pl' = total_count now pl + (if keeps_slot reply then 1 else 0)"
proof (cases "admit cap now u slug pl")
  case (Pair verdict pl1)
  show ?thesis
  proof (cases verdict)
    case (Turned r)
    with Pair run have "r = reply" "pl1 = pl'" by (simp_all add: launch_endpoint_def)
    with Pair Turned admit_turned_counts [of cap now u slug pl reply pl'] same_counts_read
    show ?thesis by simp
  next
    case (Admitted is_new)
    note adm = Pair [unfolded Admitted]
    show ?thesis
    proof (cases "open_phase cap pg now i tok u slug loc is_new pl1")
      case (Pair res pl2)
      show ?thesis
      proof (cases res)
        case (Inl r)
        with Pair adm run have "r = reply" "pl2 = pl'" by (simp_all add: launch_endpoint_def)
        with Pair Inl open_phase_counts [of cap pg now i tok u slug loc is_new pl1 reply pl']
          give_back_counts [OF w adm same_counts_refl, of pl' s]
        show ?thesis by simp
      next
        case (Inr rt)
        obtain row t where rt: "rt = (row, t)" by (cases rt)
        have cl: "close_phase now tok is_new ok row (gns3 t) pl2 = (reply, pl')"
          using Pair adm run by (simp add: launch_endpoint_def Inr rt)
        have op: "same_counts pl1 pl2" "ls_lab_slug row = slug"
          using open_phase_continues [OF Pair [unfolded Inr rt]] by simp_all
        have new: is_new
          using admit_admitted [OF adm] resumes_when_active [of pl1 u slug cap pg now i tok loc is_new]
            Pair by (auto simp: Inr)
        note cc = close_phase_counts [OF cl, unfolded op(2)]
        show ?thesis
        proof (cases "keeps_slot reply")
          case True
          with cc have "same_counts pl2 pl'" by simp
          from same_counts_read [OF same_counts_trans [OF op(1) this], of now] True new
            admit_admitted [OF adm]
          show ?thesis by (simp add: try_acquire_counts)
        next
          case False
          with cc give_back_counts [OF w adm op(1), of pl' s] show ?thesis by simp
        qed
      qed
    qed
  qed
qed

lemma launch_needs_decision:
  "study_decision (pl_db pl) u = None \<Longrightarrow>
     launch_endpoint cap pg now i tok gns3 ok u slug loc pl =
       (Refused ''error.consent.required'', pl)"
  by (simp add: launch_endpoint_def admit_def)

subsection \<open>Ending\<close>

lemma get_owned_frame: "sessions d = sessions d' \<Longrightarrow> get_owned_session d = get_owned_session d'"
  by (intro ext) (simp add: get_owned_session_def)

lemma mark_ended_owned:
  assumes "get_owned_session (pl_db pl) sid u = Some s"
  shows "\<exists>s'. get_owned_session (pl_db (mark_ended_and_finalize env s status pl)) sid u = Some s' \<and>
    ls_ended_at s' \<noteq> None"
proof (cases "ls_ended_at s")
  case None
  let ?f = "\<lambda>x. x\<lparr>ls_status := status, ls_ended_at := Some (ee_now env)\<rparr>"
  have "ls_id s = sid"
    using assms by (auto simp: get_owned_session_def find_Some_iff)
  then have "sessions (pl_db (mark_ended_and_finalize env s status pl)) =
      sessions (set_session sid ?f (pl_db pl))"
    by (simp add: mark_ended_sessions None)
  from get_owned_frame [OF this] assms show ?thesis by (simp add: get_owned_set)
next
  case (Some t)
  with assms show ?thesis by (simp add: mark_ended_and_finalize_def)
qed

text \<open>An ended row: nothing that ends sessions touches the store again.\<close>

lemma end_lab_ended:
  assumes "get_owned_session (pl_db pl) sid u = Some s" and "ls_ended_at s \<noteq> None"
  shows "end_lab env sid u pl = (True, stop_monitor sid pl)"
  using assms by (simp add: end_lab_def mark_ended_and_finalize_def)

lemma end_lab_redis:
  assumes "get_owned_session (pl_db pl) sid u = Some s" and "ls_ended_at s = None"
  shows "pl_redis (snd (end_lab env sid u pl)) = release (ee_now env) (ls_lab_slug s) (pl_redis pl)"
  using assms by (simp add: end_lab_def mark_ended_redis)

lemma stop_monitor_idem [simp]: "stop_monitor sid (stop_monitor sid pl) = stop_monitor sid pl"
  by (simp add: stop_monitor_def)

lemma mark_ended_monitors [simp]:
  "pl_monitors (mark_ended_and_finalize env s status pl) = pl_monitors pl"
  by (simp add: mark_ended_and_finalize_def release_slot_def Let_def)

lemma stop_after_end:
  "stop_monitor sid (mark_ended_and_finalize env s status (stop_monitor sid pl)) =
     mark_ended_and_finalize env s status (stop_monitor sid pl)"
proof -
  let ?r = "mark_ended_and_finalize env s status (stop_monitor sid pl)"
  have "filter (\<lambda>m. m \<noteq> sid) (pl_monitors ?r) = pl_monitors ?r"
    by (simp add: stop_monitor_def)
  then show ?thesis by (simp add: stop_monitor_def)
qed

lemma end_lab_twice:
  assumes "end_lab env sid u pl = (True, pl')"
  shows "end_lab env' sid u pl' = (True, pl')"
proof -
  from assms obtain s where s: "get_owned_session (pl_db pl) sid u = Some s"
    and pl': "pl' = mark_ended_and_finalize env s ''ended'' (stop_monitor sid pl)"
    by (auto simp: end_lab_def split: option.splits)
  from s mark_ended_owned [of "stop_monitor sid pl" sid u s env "''ended''"] obtain s'
    where "get_owned_session (pl_db pl') sid u = Some s'" "ls_ended_at s' \<noteq> None"
    by (auto simp: pl')
  from end_lab_ended [OF this, of env'] show ?thesis by (simp add: pl' stop_after_end)
qed

lemma find_conj_found: "find (\<lambda>s. P s \<and> Q s) ss = Some x \<Longrightarrow> \<exists>y. find P ss = Some y"
  by (induction ss) (auto split: if_splits)

lemma owned_found:
  "get_owned_session d sid u = Some s \<Longrightarrow> \<exists>y. find_session d sid = Some y"
  unfolding get_owned_session_def find_session_def by (rule find_conj_found)

text \<open>The two ways the row and the slot come apart.\<close>

lemma failed_launch_released_twice:
  assumes "get_owned_session (pl_db pl) (ls_id row) u = Some row" and "ls_ended_at row = None"
    and "one_live_in pl"
    and close: "close_phase now tok True ok row (Inl exc) pl = (reply, pl')"
  shows "reply = Refused exc \<and> pl_redis (snd (end_lab env (ls_id row) u pl')) =
    release (ee_now env) (ls_lab_slug row) (release now (ls_lab_slug row) (pl_redis pl))"
proof -
  let ?f = "\<lambda>s. s\<lparr>ls_status := ''error'', ls_meta := ls_meta s\<rparr>"
  let ?d = "set_session (ls_id row) ?f (pl_db pl)"
  have ol: "one_live (sessions ?d)"
    using assms(3) by (simp add: one_live_update live_status_def)
  obtain y where "find_session (pl_db pl) (ls_id row) = Some y"
    using owned_found [OF assms(1)] by blast
  then have "finalize_session_row (ls_id row) ''error'' None (pl_db pl) =
      Inr (find_session ?d (ls_id row), ?d)"
    using ol by (simp add: finalize_session_row_def Let_def)
  then have eq: "reply = Refused exc" "pl' = give_back True now (ls_lab_slug row) (pl\<lparr>pl_db := ?d\<rparr>)"
    using close by (simp_all add: close_phase_def launch_complete_def)
  have "get_owned_session (pl_db pl') (ls_id row) u = Some (?f row)"
    using assms(1) by (simp add: eq get_owned_set)
  from end_lab_redis [OF this] assms(2) show ?thesis by (simp add: eq)
qed

lemma ended_launch_revives:
  assumes "get_owned_session (pl_db pl) (ls_id row) u = Some s" and "ls_ended_at s \<noteq> None"
    and close: "close_phase now tok is_new ok row (Inr meta) pl = (Opened sid st created, pl')"
  shows "\<exists>z. get_owned_session (pl_db pl') (ls_id row) u = Some z \<and> ls_status z = ''active'' \<and>
    ls_ended_at z = ls_ended_at s \<and>
    pl_db (snd (end_lab env (ls_id row) u pl')) = pl_db pl' \<and>
    pl_redis (snd (end_lab env (ls_id row) u pl')) = pl_redis pl'"
proof -
  let ?f = "\<lambda>s. s\<lparr>ls_status := ''active'', ls_meta := meta\<rparr>"
  have "pl_db pl' = set_session (ls_id row) ?f (pl_db pl)"
    using close owned_found [OF assms(1)]
    by (auto simp: close_phase_def launch_complete_def finalize_session_row_def Let_def
        split: sum.splits option.splits if_splits)
  then have z: "get_owned_session (pl_db pl') (ls_id row) u = Some (?f s)"
    using assms(1) by (simp add: get_owned_set)
  from end_lab_ended [OF this] assms(2) z show ?thesis by simp
qed

subsection \<open>What the learner's path writes into a progress row\<close>

datatype progress_op =
    StartLab time string string
  | Validated time string string "step_row list"

fun progress_step :: "progress_op \<Rightarrow> db \<Rightarrow> db" where
  "progress_step (StartLab now u slug) d = snd (start_lab now u slug d)"
| "progress_step (Validated now u slug steps) d = record_lab_validation now u slug steps d"

interpretation no_step: transition_system progress_step no_current_step
proof unfold_locales
  show "no_current_step d \<Longrightarrow> no_current_step (progress_step e d)" for e d
    by (cases e) (simp_all add: start_lab_step record_lab_validation_step)
qed

subsection \<open>Workers\<close>

definition open_rows :: "platform \<Rightarrow> learning_session list" where
  "open_rows pl = filter (\<lambda>s. ls_ended_at s = None) (sessions (pl_db pl))"

lemma mark_ended_ids [simp]:
  "map ls_id (sessions (pl_db (mark_ended_and_finalize env s status pl))) =
     map ls_id (sessions (pl_db pl))"
  by (simp add: mark_ended_sessions map_update_where)

lemma end_one_ids [simp]:
  "map ls_id (sessions (pl_db (end_one env sid pl))) = map ls_id (sessions (pl_db pl))"
  by (simp add: end_one_def Let_def split: option.split)

lemma filter_update_where_out:
  "(\<And>x. P x \<Longrightarrow> \<not> Q (f x)) \<Longrightarrow>
     filter Q (update_where P f xs) = filter (\<lambda>x. \<not> P x) (filter Q xs)"
  by (induction xs) auto

lemma find_unique:
  "distinct (map g xs) \<Longrightarrow> find (\<lambda>x. g x = k) xs = Some y \<Longrightarrow> x \<in> set xs \<Longrightarrow> g x = k \<Longrightarrow> x = y"
  by (induction xs) (auto split: if_splits simp: image_iff find_Some_iff)

lemma end_one_open:
  assumes "distinct (map ls_id (sessions (pl_db pl)))"
  shows "open_rows (end_one env sid pl) = filter (\<lambda>s. ls_id s \<noteq> sid) (open_rows pl)"
proof (cases "find_session (pl_db pl) sid")
  case None
  then have "\<forall>s \<in> set (sessions (pl_db pl)). ls_id s \<noteq> sid"
    by (auto simp: find_session_def find_None_iff)
  with None show ?thesis
    by (auto simp: end_one_def Let_def open_rows_def intro!: filter_cong)
next
  case (Some s)
  then have id: "ls_id s = sid" by (auto simp: find_session_def find_Some_iff)
  show ?thesis
  proof (cases "ls_ended_at s")
    case None
    with Some id show ?thesis
      by (simp add: end_one_def Let_def open_rows_def mark_ended_sessions filter_update_where_out)
  next
    case ended: (Some t)
    have "x = s" if "x \<in> set (sessions (pl_db pl))" "ls_id x = sid" for x
      using find_unique [OF assms Some [unfolded find_session_def] that] .
    with Some ended show ?thesis
      by (auto simp: end_one_def Let_def open_rows_def mark_ended_sessions intro!: filter_cong)
  qed
qed

lemma end_all_open:
  assumes "distinct (map ls_id (sessions (pl_db pl)))"
  shows "open_rows (fold (end_one env) sids pl) = filter (\<lambda>s. ls_id s \<notin> set sids) (open_rows pl)"
  using assms
proof (induction sids arbitrary: pl)
  case (Cons sid sids)
  from Cons.prems have "distinct (map ls_id (sessions (pl_db (end_one env sid pl))))" by simp
  from Cons.IH [OF this] end_one_open [OF Cons.prems] show ?case
    by (simp add: conj_commute)
qed simp

lemma reaper_leaves_none:
  assumes "distinct (map ls_id (sessions (pl_db pl)))"
  shows "open_rows (snd (reap_expired_sessions env pl)) =
    filter (\<lambda>s. \<not> reapable (ee_now env) s) (open_rows pl)"
proof -
  let ?ss = "sessions (pl_db pl)"
  let ?ids = "map ls_id (filter (reapable (ee_now env)) ?ss)"
  have "ls_id s \<in> set ?ids \<longleftrightarrow> reapable (ee_now env) s" if "s \<in> set ?ss" for s
    using that assms by (auto simp: distinct_map inj_on_def)
  then have "filter (\<lambda>s. ls_id s \<notin> set ?ids) (open_rows pl) =
      filter (\<lambda>s. \<not> reapable (ee_now env) s) (open_rows pl)"
    by (intro filter_cong) (auto simp: open_rows_def)
  then show ?thesis
    unfolding reap_expired_sessions_def Let_def snd_conv end_all_open [OF assms] .
qed

text \<open>Retention: batches of any size add up to one filter.\<close>

lemma drop_first_spec:
  "filter (\<lambda>x. \<not> P x) (drop_first P n xs) = filter (\<lambda>x. \<not> P x) xs"
  "count_if P (drop_first P n xs) = count_if P xs - n"
  by (induction P n xs rule: drop_first.induct) auto

lemma drop_first_all: "count_if P xs \<le> n \<Longrightarrow> drop_first P n xs = filter (\<lambda>x. \<not> P x) xs"
  by (induction P n xs rule: drop_first.induct) auto

lemma sweep_rows_spec:
  "sweep_rows cutoff rows removed =
     (removed + count_if (\<lambda>a. au_ts a < cutoff) rows, filter (\<lambda>a. \<not> au_ts a < cutoff) rows)"
proof (induction cutoff rows removed rule: sweep_rows.induct)
  case (1 cutoff rows removed)
  let ?P = "\<lambda>a. au_ts a < cutoff"
  let ?r = "drop_first ?P BATCH_SIZE rows"
  have len: "length rows - length ?r = min BATCH_SIZE (count_if ?P rows)"
    using length_drop_first [of ?P BATCH_SIZE rows] by simp
  show ?case
  proof (cases "count_if ?P rows < BATCH_SIZE")
    case True
    then have "length rows - length ?r = count_if ?P rows" using len by simp
    with True drop_first_all [of ?P rows BATCH_SIZE] show ?thesis
      by (subst sweep_rows.simps) (simp add: Let_def)
  next
    case False
    then have "length rows - length ?r = BATCH_SIZE" using len by simp
    with 1 [OF refl refl] False show ?thesis
      by (subst sweep_rows.simps) (simp add: Let_def drop_first_spec)
  qed
qed

text \<open>Idle reclaim spares whoever was seen within the threshold.\<close>

lemma pause_fold_keeps:
  "s \<in> set (sessions (pl_db pl)) \<Longrightarrow> ls_id s \<notin> set sids \<Longrightarrow>
     s \<in> set (sessions (pl_db (fold (\<lambda>sid pl. pl\<lparr>pl_db := set_session sid f (pl_db pl)\<rparr>) sids pl)))"
proof (induction sids arbitrary: pl)
  case (Cons sid sids)
  then show ?case by (auto simp: in_set_update_where intro!: Cons.IH)
qed simp

lemma reclaim_spares:
  assumes "s \<in> set (sessions (pl_db pl))" and "\<not> reclaimable now seen s"
    and "distinct (map ls_id (sessions (pl_db pl)))"
  shows "s \<in> set (sessions (pl_db (reclaim_idle_sessions now seen stopped pl)))"
proof -
  let ?ids = "map ls_id (filter (\<lambda>s. reclaimable now seen s \<and> stopped (ls_id s)) (sessions (pl_db pl)))"
  have "inj_on ls_id (set (sessions (pl_db pl)))" using assms(3) by (simp add: distinct_map)
  with assms(1,2) have "ls_id s \<notin> set ?ids" by (auto dest: inj_onD)
  from pause_fold_keeps [OF assms(1) this] show ?thesis
    unfolding reclaim_idle_sessions_def .
qed

lemma seen_not_reclaimable:
  "now - seconds (IDLE_THRESHOLD_MIN * 60) \<le> ls_last_seen_at s \<Longrightarrow> \<not> reclaimable now seen s"
  by (simp add: reclaimable_def Let_def)

lemma touch_observed_seen:
  assumes "s \<in> set (sessions (touch_observed_session now sid d))" and "ls_id s = sid"
  shows "now - seconds TOUCH_THROTTLE_SEC \<le> ls_last_seen_at s"
proof -
  let ?P = "\<lambda>s. ls_id s = sid \<and> ls_last_seen_at s < now - seconds TOUCH_THROTTLE_SEC"
  have "sessions (touch_observed_session now sid d) =
      update_where ?P (\<lambda>s. s\<lparr>ls_last_seen_at := now\<rparr>) (sessions d)"
    by (simp add: touch_observed_session_def)
  with assms(1) in_set_update_where [of s ?P "\<lambda>s. s\<lparr>ls_last_seen_at := now\<rparr>" "sessions d"]
  obtain s0 where "s = (if ?P s0 then s0\<lparr>ls_last_seen_at := now\<rparr> else s0)" by metis
  moreover have "0 \<le> seconds TOUCH_THROTTLE_SEC" by (simp add: TOUCH_THROTTLE_SEC_def seconds_def)
  ultimately show ?thesis using assms(2) by (cases "?P s0") simp_all
qed

text \<open>A failing lab that nobody touches counts as activity in every observer cycle.\<close>

lemma unchanged_failing_touches:
  assumes "oe_spec env = Some spec"
    and snap: "snap = evaluate_spec (oe_handlers env) (oe_msg env) spec (cycle_locale env ob d)"
    and "ob_prev ob = Some snap"
    and "inj_on (check_key (oe_dumps env)) (set (concat (map sr_checks snap)))"
    and "\<not> list_all cr_ok (concat (map sr_checks snap))"
    and s: "s \<in> set (sessions (snd (observer_cycle env (ob, d))))" "ls_id s = ob_session ob"
  shows "\<not> reclaimable (oe_now env) seen s"
proof (rule seen_not_reclaimable)
  have "diff_snapshots (oe_dumps env) (Some snap) snap \<noteq> []"
    using diff_self [OF assms(4)] assms(5) by simp
  with assms have "s \<in> set (sessions (touch_observed_session (oe_now env) (ob_session ob) d))"
    by (simp add: observer_cycle_def Let_def observer_persist_def split: if_splits)
  from touch_observed_seen [OF this s(2)]
  show "oe_now env - seconds (IDLE_THRESHOLD_MIN * 60) \<le> ls_last_seen_at s"
    by (simp add: seconds_def TOUCH_THROTTLE_SEC_def IDLE_THRESHOLD_MIN_def)
qed

end
