(* ===== verification/Samples.thy ===== *)
theory Samples
  imports Monitor_Facts Collector_Facts Session_Facts
begin

text \<open>
  One small concrete deployment: a learner, a lab, an open session with study consent, the
  monitor that watches it and the environments of one cycle.  The witnesses of the properties
  are evaluated on these values.
\<close>

definition sample_consent :: consent where
  "sample_consent = \<lparr>co_user_id = ''u'', co_scope = ''study'', co_decision = ''granted'',
     co_policy_version = ''1'', co_observe = True, co_act = True, co_granted_at = 0,
     co_revoked_at = None, co_data_policy = None\<rparr>"

definition sample_session :: learning_session where
  "sample_session = \<lparr>ls_id = ''s'', ls_user_id = ''u'', ls_lab_slug = ''vlan'', ls_status = ''active'',
     ls_started_at = 0, ls_ended_at = None, ls_last_seen_at = 0, ls_paused_at = None,
     ls_expires_at = Some 100, ls_meta = [(''gns3_username'', ''g'')], ls_model_id = None,
     ls_locale = ''en''\<rparr>"

definition sample_lab :: lab where
  "sample_lab = \<lparr>lab_slug = ''vlan'', lab_title = None, lab_enabled = True, lab_environment = ''gns3'',
     lab_template = Some ''tpl'', lab_template_iosvl2 = None, lab_template_frr = None,
     lab_skill = None, lab_steps = 1\<rparr>"

definition sample_db :: db where
  "sample_db = empty_db\<lparr>sessions := [sample_session], consents := [sample_consent],
     labs := [sample_lab]\<rparr>"

text \<open>The same deployment before the learner launches, and after consent is withdrawn.\<close>

definition lobby_db :: db where
  "lobby_db = sample_db\<lparr>sessions := []\<rparr>"

definition silent_db :: db where
  "silent_db = sample_db\<lparr>consents := []\<rparr>"

definition sample_agents :: agents_config where
  "sample_agents = \<lparr>ag_providers = [(''p'', \<lparr>pc_provider = ''openai'', pc_base_url = None,
       pc_api_key = Some ''k'', pc_yandex_folder = None\<rparr>)],
     ag_catalog = [\<lparr>me_id = ''m'', me_label = ''M'', me_provider_ref = ''p'', me_model = ''gpt'', me_tools = True\<rparr>],
     ag_chat_model = ''m'', ag_intervention_model = ''m'', ag_follow_session = False\<rparr>"

definition sample_orch :: orchestrator_env where
  "sample_orch = \<lparr>ox_agents = sample_agents, ox_llm = (\<lambda>_ _ _. Inr ''check the trunk''),
     ox_msg = (\<lambda>key _ _. key), ox_validation_message = ''invalid''\<rparr>"

definition sample_env :: "time \<Rightarrow> cycle_env" where
  "sample_env t = \<lparr>t_compute = t, t_state = t, t_escalation = t, t_now = t, t_would = t,
     t_trigger = t, t_elapsed = t, t_authorize = t, t_dispatched = t, t_logged = t,
     t_recorded = t, t_latency = t, analysis_ms = 0, hold_roll = 1 / 2, jitter_roll = 1 / 2,
     uuid_escalation = ''x'', uuid_spell = ''y'', uuid_decision = ''z'', uuid_event = ''e'',
     has_interface = True, has_gateway = True, has_activity = False, progress_view = None,
     read_components = Inr [], read_actions = Inr [], read_errors = Inr [],
     orch = sample_orch, show_float = (\<lambda>_. ''0.0''), show_dict = (\<lambda>_. ''d'')\<rparr>"

definition sample_monitor :: "ControlArm \<Rightarrow> monitor" where
  "sample_monitor arm = start_session ''s'' ''u'' ''vlan'' arm sample_db"

definition sample_world :: "db \<Rightarrow> world" where
  "sample_world d = \<lparr>w_db = d, w_acts = (\<lambda>_. None), w_sent = [], w_activity = []\<rparr>"

definition sample_event :: behavioral_event where
  "sample_event = \<lparr>ev_id = ''b'', ev_session_id = ''s'', ev_user_id = ''u'', ev_lab_slug = ''vlan'',
     ev_timestamp = 5, ev_type = ''error'', ev_component_id = None, ev_component_type = None,
     ev_action = ''ping'', ev_raw_command = None, ev_success = False, ev_severity = None,
     ev_message = Some ''unreachable'', ev_extra_data = None\<rparr>"

definition sample_metrics :: student_metrics where
  "sample_metrics = \<lparr>total_attempts = 1, success_rate = 1, avg_time_per_step = 0,
     struggling_steps = []\<rparr>"

definition stuck_analysis :: analytics_result where
  "stuck_analysis = \<lparr>ar_recommendation = \<lparr>current_difficulty = ''intermediate'',
       recommended_difficulty = ''intermediate'', dr_metrics = sample_metrics\<rparr>,
     struggle_detected = True, struggle_type = Some STUCK_ON_STEP, suggested_intervention = HINT,
     ar_features = empty_features ''s'' 0, confidence = 7 / 10\<rparr>"

definition sample_poll :: collector_env where
  "sample_poll = \<lparr>mcp_call = (\<lambda>_ _. Inr (Actions [])), get_component = (\<lambda>_. None), md5 = id,
     isoformat = (\<lambda>_. ''t''), uuid = (\<lambda>_. ''id''), clock = 0, governed = True, evidence_ok = True,
     persist_ok = True\<rparr>"

definition sample_collector :: collector where
  "sample_collector = \<lparr>co_session = ''s'', co_user = ''u'', co_lab = ''vlan'', seen = [],
     component_types = (\<lambda>_. None), last_error_poll = None, next_uuid = 0\<rparr>"

definition sample_platform :: "db \<Rightarrow> platform" where
  "sample_platform d = \<lparr>pl_db = d, pl_redis = empty_redis, pl_gauge = (\<lambda>_. 0), pl_monitors = []\<rparr>"

definition sample_end :: end_env where
  "sample_end = \<lparr>ee_cfg = default_la_config, ee_spec_steps = (\<lambda>_. 1), ee_coin = True, ee_now = 200\<rparr>"

lemmas sample_defs = sample_consent_def sample_session_def sample_lab_def sample_db_def lobby_db_def
  silent_db_def sample_agents_def sample_orch_def sample_env_def sample_monitor_def
  sample_world_def sample_event_def sample_metrics_def stuck_analysis_def sample_poll_def
  sample_collector_def sample_platform_def sample_end_def empty_db_def

lemma sample_permitted:
  "permitted sample_db ''u'' ''s'' k" "\<not> permitted silent_db ''u'' ''s'' k"
  by (simp_all add: permitted_def get_owned_session_def has_consent_def covers_def sample_defs)

lemma sample_monitor_fields [simp]:
  "mo_session (sample_monitor arm) = ''s''" "mo_user (sample_monitor arm) = ''u''"
  "mo_arm (sample_monitor arm) = arm" "mo_dwell (sample_monitor arm) = dwell_init"
  "mo_last_intervention (sample_monitor arm) = None" "mo_spell_id (sample_monitor arm) = None"
  "mo_spell_tk (sample_monitor arm) = None" "mo_open (sample_monitor arm) = []"
  by (simp_all add: sample_monitor_def start_session_def)

lemma sample_env_fields [simp]:
  "has_interface (sample_env t)" "has_gateway (sample_env t)" "t_now (sample_env t) = t"
  "t_trigger (sample_env t) = t" "t_authorize (sample_env t) = t"
  "t_dispatched (sample_env t) = t" "t_would (sample_env t) = t" "hold_roll (sample_env t) = 1 / 2"
  by (simp_all add: sample_env_def)

lemma sample_world_fields [simp]:
  "w_db (sample_world d) = d" "w_sent (sample_world d) = []" "w_acts (sample_world d) = (\<lambda>_. None)"
  by (simp_all add: sample_world_def)

end
