(* ===== verification/Loop_Properties.thy ===== *)
theory Loop_Properties
  imports Samples
begin

text \<open>
  Properties of the control loop: what may be delivered and when, what a delivery leaves behind,
  the control law and the identifier's rules, the state samples, the micro-randomized decision
  rows, and the features the loop decides on.
\<close>

subsection \<open>Deliveries\<close>

definition struggling_db :: db where
  "struggling_db = silent_db\<lparr>events := replicate 3 sample_event\<rparr>"

lemma struggling_rows [simp]: "samples struggling_db = []" "decisions struggling_db = []"
  by (simp_all add: struggling_db_def sample_defs)

lemma struggling_not_permitted: "\<not> permitted struggling_db ''u'' ''s'' k"
  by (simp add: struggling_db_def permitted_def get_owned_session_def has_consent_def sample_defs)

text \<open>C1. Under the arm-controlled loop with the governed seam in place, a learner who does not own
  the session or has given no consent to acts is never sent an intervention, whatever the events,
  clocks, models and agents of any number of cycles do.\<close>

theorem no_intervention_without_permission:
  assumes "\<not> mrt_enabled cfg" and "\<forall>env \<in> set envs. has_interface env"
    and "\<not> permitted (w_db (snd mw)) (mo_user (fst mw)) (mo_session (fst mw)) ACT"
  shows "w_sent (snd (analysis_loop cfg envs mw)) = w_sent (snd mw)"
  using assms by (rule analysis_loop_unpermitted)

theorem no_intervention_without_permission_witness:
  "w_sent (snd (analysis_loop default_la_config [sample_env 10, sample_env 20]
     (sample_monitor CLOSED, sample_world struggling_db))) = []"
  using no_intervention_without_permission [of default_la_config "[sample_env 10, sample_env 20]"
      "(sample_monitor CLOSED, sample_world struggling_db)"]
  by (simp add: struggling_not_permitted default_la_config_def)

text \<open>C6. In the open arm nothing is ever delivered: neither the control law, nor the
  micro-randomized branch, nor a missing interface lets an intervention through.\<close>

theorem open_arm_never_delivered:
  assumes "mo_arm (fst mw) = OPEN"
  shows "w_sent (snd (analysis_loop cfg envs mw)) = w_sent (snd mw)"
  using assms by (rule analysis_loop_open)

theorem open_arm_never_delivered_witness:
  "w_sent (snd (analysis_loop (default_la_config\<lparr>mrt_enabled := True\<rparr>) [sample_env 10]
     (sample_monitor OPEN, sample_world struggling_db))) = []"
  using open_arm_never_delivered [of "(sample_monitor OPEN, sample_world struggling_db)"
      "default_la_config\<lparr>mrt_enabled := True\<rparr>" "[sample_env 10]"] by simp




lemma sample_verdict:
  "action_of (should_intervene (Struggling STUCK_ON_STEP) 0 CLOSED None default_la_config 9 None None) =
     Intervene"
  by (simp add: should_intervene_def is_bad_def threshold_of_def default_la_config_def)

lemma sample_act_allowed:
  "act_denial default_la_config t ''intervention'' ''u'' ''s'' CLOSED (\<lambda>_. None) sample_db = None"
  by (simp add: act_denial_None sample_permitted rate_limited_def classify_cases)

lemma sample_hint_succeeds:
  "ii_type i = ''hint'' \<Longrightarrow> ic_agent_context (ii_context i) = CtxFull c \<Longrightarrow>
     0 \<le> ic_attempts (ii_context i) \<Longrightarrow> rs_success (intervene default_la_config sample_orch i)"
  by (simp add: intervene_def default_la_config_def resolve_agent_def INTENT_TO_AGENT_def run_hint_def
      ask_def build_model_def resolve_model_def model_uri_def get_entry_def
      resolve_intervention_model_def sample_orch_def sample_agents_def Let_def)


subsection \<open>The decision\<close>

text \<open>The identifier is first-match: a reported struggle comes from the earliest rule of the table
  whose condition holds on the features, with that rule's intervention and confidence, and with no
  rule holding there is no struggle.\<close>

theorem identifier_first_match:
  assumes "identify_regime f c = Inr r"
  shows "case struggle_type r of
      None \<Rightarrow> \<not> struggle_detected r \<and> (\<forall>(p, _, _, _) \<in> set STRUGGLE_RULES. \<not> p f c) \<and>
        suggested_intervention r = NO_INTERVENTION \<and> confidence r = 0
    | Some t \<Rightarrow> struggle_detected r \<and> (\<exists>pre p k post.
        STRUGGLE_RULES = pre @ (p, t, suggested_intervention r, k) # post \<and>
        (\<forall>(q, _, _, _) \<in> set pre. \<not> q f c) \<and> p f c \<and> k f c = Inr (confidence r))"
proof (cases "struggle_type r")
  case None
  with identify_regime_fields [OF assms] detect_struggle_in_none [of STRUGGLE_RULES f c] show ?thesis
    by (simp add: detect_struggle_def)
next
  case (Some t)
  with identify_regime_fields [OF assms] detect_struggle_in_some [of STRUGGLE_RULES f c] show ?thesis
    by (simp add: detect_struggle_def)
qed

lemma sample_identified:
  "identify_regime (empty_features ''s'' 0) default_la_config \<noteq> Inl e"
  using identify_regime_total [of "empty_features ''s'' 0" default_la_config] empty_features_wf
  by (auto simp: default_la_config_def)

theorem identifier_first_match_witness:
  "\<exists>r. identify_regime (empty_features ''s'' 0) default_la_config = Inr r \<and> struggle_type r = None \<and>
     suggested_intervention r = NO_INTERVENTION"
proof (cases "identify_regime (empty_features ''s'' 0) default_la_config")
  case (Inl e)
  with sample_identified show ?thesis by blast
next
  case (Inr r)
  have "\<forall>(p, _, _, _) \<in> set STRUGGLE_RULES. \<not> p (empty_features ''s'' 0) default_la_config"
    by (simp add: STRUGGLE_RULES_def empty_features_def default_la_config_def)
  with identify_regime_no_struggle [OF Inr] identify_regime_fields(1) [OF Inr]
  have "struggle_type r = None" by auto
  with Inr identifier_first_match [OF Inr] show ?thesis by auto
qed



subsection \<open>What the loop records\<close>

text \<open>C11. The dwell stored with every process-state sample is the age, at the sample's time, of the
  oldest sample in its unbroken run of equal regimes; so the stored rows alone determine it.\<close>

theorem samples_measure_their_runs:
  assumes "mo_dwell (fst mw) = dwell_init"
  shows "\<exists>S. samples (w_db (snd (analysis_loop cfg envs mw))) = samples (w_db (snd mw)) @ S \<and>
    (\<forall>i < length S. ps_dwell_seconds (S ! i) =
       total_seconds (ps_ts (S ! i) - ps_ts (run_start (take (Suc i) S))))"
  using analysis_loop_dwell [OF assms, of cfg envs] by (simp add: dwell_consistent_def)

theorem samples_measure_their_runs_witness:
  "\<exists>S. samples (w_db (snd (analysis_loop default_la_config [sample_env 10, sample_env 20]
        (sample_monitor CLOSED, sample_world struggling_db)))) = S \<and>
     (\<forall>i < length S. ps_dwell_seconds (S ! i) =
        total_seconds (ps_ts (S ! i) - ps_ts (run_start (take (Suc i) S))))"
  using samples_measure_their_runs [of "(sample_monitor CLOSED, sample_world struggling_db)"
      default_la_config "[sample_env 10, sample_env 20]"] by simp

text \<open>C12. While a spell is open the randomized branch writes exactly one decision row at a decision
  point and none elsewhere; the row carries the spell, the jittered threshold that was applied,
  and the assignment the draw gave, which the open arm always turns into a withhold.\<close>

theorem decision_rows_at_decision_points:
  assumes "mrt_spells cfg env regime dwell now mw0 = (m, w)"
    and "mo_spell_id m = Some sid" and "mo_spell_tk m = Some tk"
  shows "decisions (w_db (snd (mrt_step cfg env a f regime dwell now mw0))) = decisions (w_db w) @
    (if regime \<noteq> PRODUCTIVE \<and> tk \<le> dwell \<and> la_enabled cfg \<and>
        (\<forall>l. mo_last_intervention m = Some l \<longrightarrow> cooldown_period cfg \<le> total_seconds (now - l))
     then [\<lparr>id_id = uuid_decision env, id_session_id = mo_session m, id_user_id = mo_user m,
        id_lab_slug = mo_lab m, id_spell_id = sid, id_ts = now, id_regime = regime_value regime,
        id_dwell_seconds = dwell, id_t_k_applied = tk,
        id_assignment = (if mo_arm m = CLOSED \<and> mrt_hold_probability cfg \<le> hold_roll env
                         then ''intervene'' else ''withhold''),
        id_subsequent_exit_ts = None, id_censored = False\<rparr>]
     else [])"
proof -
  have "decision_point cfg (Some tk) regime dwell (mo_last_intervention m) now \<longleftrightarrow>
      regime \<noteq> PRODUCTIVE \<and> tk \<le> dwell \<and> la_enabled cfg \<and>
        (\<forall>l. mo_last_intervention m = Some l \<longrightarrow> cooldown_period cfg \<le> total_seconds (now - l))"
    by (auto simp: gate_defs is_bad_def split: option.splits)
  with mrt_step_decisions [OF assms, of a f] show ?thesis by simp
qed

abbreviation spell_monitor :: monitor where
  "spell_monitor \<equiv> (sample_monitor CLOSED)\<lparr>mo_spell_id := Some ''k'', mo_spell_tk := Some 0\<rparr>"

theorem decision_rows_at_decision_points_witness:
  "length (decisions (w_db (snd (mrt_step default_la_config (sample_env 9) stuck_analysis
     (empty_features ''s'' 0) (Struggling STUCK_ON_STEP) 1 9 (spell_monitor, sample_world sample_db))))) = 1"
proof -
  have "mrt_spells default_la_config (sample_env 9) (Struggling STUCK_ON_STEP) 1 9
      (spell_monitor, sample_world sample_db) = (spell_monitor, sample_world sample_db)"
    by (simp add: mrt_spells_def)
  from decision_rows_at_decision_points [OF this, of "''k''" 0 stuck_analysis "empty_features ''s'' 0"]
  show ?thesis by (simp add: default_la_config_def) (simp add: sample_defs)
qed

text \<open>Every decision row of the session that is still waiting for its spell to end belongs to the
  spell the monitor has open: closing a spell stamps all of its rows, and with no spell open no
  row is left waiting.\<close>

lemma analysis_loop_session: "mo_session (fst (analysis_loop cfg envs mw)) = mo_session (fst mw)"
  by (induction envs arbitrary: mw) (simp_all add: run_analysis_frame)

theorem waiting_rows_belong_to_the_spell:
  assumes "m = start_session s u l arm d" and "\<forall>r \<in> set (decisions (w_db w)). id_session_id r \<noteq> s"
    and "analysis_loop cfg envs (m, w) = (m', w')"
  shows "\<forall>r \<in> set (decisions (w_db w')). id_session_id r = s \<and> id_subsequent_exit_ts r = None \<longrightarrow>
    mo_spell_id m' \<noteq> None \<and> id_id r \<in> set (mo_open m')"
proof -
  have "spell_inv (m, w)"
    using assms(1,2) by (auto simp: spell_inv_def start_session_def)
  from analysis_loop_spells [OF this, of cfg envs] have "spell_inv (m', w')" by (simp add: assms(3))
  moreover have "mo_session m' = s"
    using analysis_loop_session [of cfg envs "(m, w)"] assms(1,3) by (simp add: start_session_def)
  ultimately show ?thesis by (auto simp: spell_inv_def)
qed

theorem waiting_rows_belong_to_the_spell_witness:
  "\<exists>m' w'. analysis_loop (default_la_config\<lparr>mrt_enabled := True\<rparr>) [sample_env 10, sample_env 20]
      (sample_monitor CLOSED, sample_world struggling_db) = (m', w') \<and>
     (\<forall>r \<in> set (decisions (w_db w')). id_session_id r = ''s'' \<and> id_subsequent_exit_ts r = None \<longrightarrow>
        mo_spell_id m' \<noteq> None)"
proof -
  obtain m' w' where e: "analysis_loop (default_la_config\<lparr>mrt_enabled := True\<rparr>)
      [sample_env 10, sample_env 20] (sample_monitor CLOSED, sample_world struggling_db) = (m', w')"
    by (rule prod.exhaust)
  have "\<forall>r \<in> set (decisions (w_db (sample_world struggling_db))). id_session_id r \<noteq> ''s''" by simp
  from waiting_rows_belong_to_the_spell [OF sample_monitor_def this e] e show ?thesis by blast
qed

subsection \<open>Features\<close>

text \<open>The feature vector does not depend on the order the rows were stored in: two logs with the
  same rows at distinct times give the same features.\<close>

theorem features_ignore_row_order:
  assumes "mset es = mset es'" and "inj_on ev_timestamp (set es)"
  shows "compute cfg now sid es = compute cfg now sid es'"
  using assms by (rule compute_perm)

abbreviation later_event :: behavioral_event where
  "later_event \<equiv> sample_event\<lparr>ev_timestamp := 8, ev_action := ''show''\<rparr>"

theorem features_ignore_row_order_witness:
  "compute default_la_config 9 ''s'' [sample_event, later_event] =
   compute default_la_config 9 ''s'' [later_event, sample_event]"
  by (rule features_ignore_row_order) (simp_all add: sample_event_def)

text \<open>Silence is visible: if the last thing the student did lies further back than the idle gap,
  the features report an idle period, and the observer's heartbeat events in between change
  neither that count nor the active time.\<close>

theorem ongoing_silence_is_idle:
  assumes "compute cfg now sid es = Inr f" and "compute cfg now sid (student_events es) = Inr g"
    and "student_events es \<noteq> []"
    and "\<forall>e \<in> set (student_events es). idle_gap_seconds cfg < total_seconds (now - ev_timestamp e)"
  shows "1 \<le> idle_periods f \<and> idle_periods f = idle_periods g \<and> total_active_time f = total_active_time g"
proof -
  have "\<exists>e \<in> set es. is_student e"
    "\<forall>e \<in> set es. is_student e \<longrightarrow> idle_gap_seconds cfg < total_seconds (now - ev_timestamp e)"
    using assms(3,4) by (auto simp: student_events_def is_student_def filter_empty_conv)
  from compute_silence [OF assms(1) this] features_heartbeat [OF assms(1,2,3)] show ?thesis by simp
qed

lemma sample_student: "student_events [sample_event] = [sample_event]"
  by (simp add: student_events_def sample_event_def OBSERVER_ACTIONS_def)

theorem ongoing_silence_is_idle_witness:
  "\<exists>f. compute default_la_config 100000000 ''s'' [sample_event] = Inr f \<and> 1 \<le> idle_periods f"
proof -
  have "windows_positive default_la_config" by (simp add: windows_positive_def default_la_config_def)
  from compute_total [OF this, of 100000000 "''s''" "[sample_event]"] obtain f
    where f: "compute default_la_config 100000000 ''s'' [sample_event] = Inr f" by blast
  have "idle_gap_seconds default_la_config < total_seconds (100000000 - ev_timestamp sample_event)"
    by (simp add: default_la_config_def sample_event_def total_seconds_def)
  with ongoing_silence_is_idle [OF f, unfolded sample_student, OF f] f show ?thesis by simp
qed

lemma equal_run_known:
  "(if 2 \<le> equal_run ms then equal_run ms else 0) =
     (if 2 \<le> (if dropWhile (\<lambda>m. m = None) ms = [] then 0
             else length (takeWhile (\<lambda>m. m = hd (dropWhile (\<lambda>m. m = None) ms)) (dropWhile (\<lambda>m. m = None) ms)))
      then if dropWhile (\<lambda>m. m = None) ms = [] then 0
             else length (takeWhile (\<lambda>m. m = hd (dropWhile (\<lambda>m. m = None) ms)) (dropWhile (\<lambda>m. m = None) ms))
      else 0)"
  by (cases "dropWhile (\<lambda>m. m = None) ms") (simp_all add: equal_run_def del: dropWhile_eq_Nil_conv)

text \<open>The repeated-error count is a property of the log alone: the length of the newest run of
  equal error messages since the last passed check, where the newest errors that carry no message
  are skipped, and zero unless something repeats.\<close>

theorem error_repeat_is_newest_run:
  "current_error_run es =
     (let ms = map ev_message (filter (\<lambda>e. ev_type e = ''error'')
                 (takeWhile (\<lambda>e. ev_action e \<noteq> ''check_passed'') (rev es)));
          known = dropWhile (\<lambda>m. m = None) ms;
          n = (if known = [] then 0 else length (takeWhile (\<lambda>m. m = hd known) known))
      in if 2 \<le> n then n else 0)"
  unfolding current_error_run_spec open_error_messages_def Let_def equal_run_known ..

text \<open>The action entropy is Shannon's entropy of the actions divided by its maximum, the
  logarithm of the number of different actions; so it lies between 0 and 1.\<close>

theorem entropy_normalised:
  "action_entropy es =
     (let xs = map ev_action es; m = card (set xs)
      in if xs = [] then 0 else if 1 < m then shannon xs / log 2 (real m) else shannon xs) \<and>
   0 \<le> action_entropy es \<and> action_entropy es \<le> 1"
  using action_entropy_shannon [of es] action_entropy_bounds [of es] by blast

end
