(* ===== verification/Data_Properties.thy ===== *)
theory Data_Properties
  imports Samples Validation_Facts
begin

text \<open>
  Properties of what the platform writes about a learner: collection under consent, the audit
  of the governed seam, the validation runner against its plain reference, lab progress, step
  attempts and the progress observer.
\<close>

subsection \<open>Consent and the governed seam\<close>



text \<open>Every poll cycle leaves exactly three rows in the audit, one for each of its reads, whether
  they were allowed, denied or failed.\<close>

theorem every_read_is_audited:
  assumes "\<forall>env \<in> set envs. governed env"
  shows "length (audits (snd (poll_loop cfg envs cd))) = length (audits (snd cd)) + 3 * length envs"
  using assms by (rule poll_loop_governed)

theorem every_read_is_audited_witness:
  "length (audits (snd (poll_loop default_la_config [sample_poll, sample_poll] (sample_collector, silent_db)))) = 6"
  using every_read_is_audited [of "[sample_poll, sample_poll]" default_la_config "(sample_collector, silent_db)"]
  by (simp add: sample_defs)

text \<open>C16. The act gate lets a call through exactly when its tool is registered as an act, the learner
  owns the session and consents to acts, the arm is closed and the last act is a cooldown back;
  letting it through changes nothing, and a refusal leaves one failed audit row with its reason.\<close>

theorem act_gate:
  "case authorize_act cfg now tool u s arm lab (acts, d) of (why, acts', d') \<Rightarrow>
     (why = None \<longleftrightarrow> tool \<in> {''execute_action'', ''intervention''} \<and>
        get_owned_session d s u \<noteq> None \<and> has_consent d u ACT \<and> arm = CLOSED \<and>
        (case acts s of None \<Rightarrow> True | Some l \<Rightarrow> cooldown_period cfg \<le> total_seconds (now - l))) \<and>
     acts' = acts \<and>
     (if why = None then d' = d
      else \<exists>row. d' = d\<lparr>audits := audits d @ [row]\<rparr> \<and> \<not> au_success row \<and> au_error row = why \<and>
        au_user_id row = u \<and> au_session_id row = s)"
proof -
  have none: "act_denial cfg now tool u s arm acts d = None \<longleftrightarrow>
      tool \<in> {''execute_action'', ''intervention''} \<and>
        get_owned_session d s u \<noteq> None \<and> has_consent d u ACT \<and> arm = CLOSED \<and>
        (case acts s of None \<Rightarrow> True | Some l \<Rightarrow> cooldown_period cfg \<le> total_seconds (now - l))"
    unfolding act_denial_None classify_cases permitted_def rate_limited_def
    by (auto split: option.split)
  show ?thesis
  proof (cases "act_denial cfg now tool u s arm acts d")
    case None
    with none show ?thesis by (simp add: authorize_act_def)
  next
    case (Some why)
    obtain row where row: "audit_record now u s tool ''act'' False (Some why) lab d =
        d\<lparr>audits := audits d @ [row]\<rparr>" and "\<not> au_success row" "au_error row = Some why"
      "au_user_id row = u" "au_session_id row = s"
      by (rule that [of "\<lparr>au_user_id = u, au_session_id = s, au_tool = tool, au_kind = ''act'',
          au_ts = now, au_success = False, au_error = Some why, au_consent_ref = None,
          au_lab_slug = lab\<rparr>"]) (simp_all add: audit_record_def)
    moreover have "authorize_act cfg now tool u s arm lab (acts, d) =
        (Some why, acts, d\<lparr>audits := audits d @ [row]\<rparr>)"
      by (simp add: authorize_act_def Some row)
    moreover have "(Some why = None) = (act_denial cfg now tool u s arm acts d = None)"
      by (simp add: Some)
    ultimately show ?thesis unfolding none
      by (simp only: prod.case option.distinct if_False simp_thms) blast
  qed
qed


text \<open>The deduplication window remembers what one poll brought: if the window has room for it,
  the same answer polled again stores nothing and changes nothing.\<close>

theorem polled_actions_are_stored_once:
  assumes "int (length (seen c) + length as) \<le> dedup_max_size cfg" and "distinct (seen c)"
    and "collect_actions cfg env as c = (es, c')"
  shows "collect_actions cfg env as c' = ([], c') \<and> length es \<le> length as \<and> distinct (seen c')"
proof -
  from collect_actions_room [OF assms(1,2), of env] obtain new where
    new: "seen (snd (collect_actions cfg env as c)) = seen c @ new"
      "set new = action_key env ` set as - set (seen c)"
      "length (fst (collect_actions cfg env as c)) = length new" "distinct (seen c @ new)" by blast
  from new(4) have "length new = card (set new)" by (simp add: distinct_card)
  also have "\<dots> \<le> card (action_key env ` set as)" unfolding new(2) by (intro card_mono) auto
  also have "\<dots> \<le> length as" by (meson card_image_le card_length le_trans finite_set)
  finally show ?thesis
    using collect_actions_replay [OF assms(1,2), of env] assms(3) new by simp
qed

abbreviation sample_action :: user_action where
  "sample_action \<equiv> \<lparr>ua_timestamp = 3, ua_component_id = None, ua_action = ''ping'',
     ua_raw_command = None, ua_success = True\<rparr>"

theorem polled_actions_are_stored_once_witness:
  "\<exists>c'. collect_actions default_la_config sample_poll [sample_action] c' = ([], c')"
proof -
  obtain es c' where "collect_actions default_la_config sample_poll [sample_action] sample_collector = (es, c')"
    by (rule prod.exhaust)
  from polled_actions_are_stored_once [OF _ _ this] show ?thesis
    by (intro exI [of _ c']) (simp add: sample_collector_def default_la_config_def)
qed

subsection \<open>Validation and progress\<close>

text \<open>C8. The streaming runner computes what the plain evaluator computes: the steps it accumulates are
  the evaluator's with the observed mark dropped, and its event stream ends in a single finish
  event that carries the conjunction of the steps' verdicts.\<close>

theorem runner_equals_evaluator:
  "snd (run_validation handlers msg spec locale) =
     map (\<lambda>s. s\<lparr>sr_checks := map stored_row (sr_checks s)\<rparr>) (evaluate_spec handlers msg spec locale) \<and>
   (\<exists>es. fst (run_validation handlers msg spec locale) =
       es @ [RunFinish (list_all sr_ok (evaluate_spec handlers msg spec locale))] \<and>
     (\<forall>b. RunFinish b \<notin> set es))"
proof -
  let ?es = "fst (run_validation handlers msg spec locale)"
  have ne: "?es \<noteq> []" by (simp add: run_validation_def case_prod_beta Let_def)
  have "RunFinish b \<notin> set (butlast ?es)" for b
    using run_validation_finish_last [of "length ?es - 1" handlers msg spec "locale"] ne
    by (fastforce simp: butlast_conv_take)
  moreover have "?es = butlast ?es @ [RunFinish (list_all sr_ok (evaluate_spec handlers msg spec locale))]"
    using append_butlast_last_id [OF ne] unfolding run_validation_verdict by simp
  ultimately show ?thesis
    using run_validation_steps [of handlers msg spec "locale"] unfolding stored_step_def by blast
qed

text \<open>A validation the client abandons before its last event is stored as a failed run without
  steps and leaves the learner's progress as it was.\<close>

theorem abandoned_run_counts_for_nothing:
  assumes "n < length (fst (run_validation handlers msg spec
      (case get_owned_session d sid u of Some s \<Rightarrow> negotiate (Some (ls_locale s))
       | None \<Rightarrow> DEFAULT_LOCALE)))"
  shows "progress (snd (stream_validation handlers msg rid t0 t1 sid lab u spec n d)) =
      progress d \<and>
    (\<exists>r \<in> set (runs (snd (stream_validation handlers msg rid t0 t1 sid lab u spec n d))).
      vr_id r = rid \<and> vr_status r = ''failed'' \<and> vr_steps r = [])"
  using stream_validation_abandoned [OF assms] by blast

theorem abandoned_run_counts_for_nothing_witness:
  "progress (snd (stream_validation (\<lambda>_. None) (\<lambda>k _ _. k) ''r'' 0 1 ''s'' ''vlan'' ''u''
     [\<lparr>sp_id = ''1'', sp_title = None, sp_checks = []\<rparr>] 1 sample_db)) = []"
proof -
  have "1 < length (fst (run_validation (\<lambda>_. None) (\<lambda>k _ _. k)
      [\<lparr>sp_id = ''1'', sp_title = None, sp_checks = []\<rparr>] l))" for l
    by (simp add: run_validation_def Let_def)
  from abandoned_run_counts_for_nothing [OF this, of "''r''" 0 1 "''s''" "''vlan''" "''u''" sample_db] show ?thesis
    by (simp add: sample_db_def empty_db_def)
qed

text \<open>C15. Over any series of finished validation runs the stored score is the best one seen, the lab is
  completed from the first run that passes every step on, and the completion time is that run's.\<close>

theorem progress_keeps_the_best:
  assumes "rs \<noteq> []" and "lp_status lp \<noteq> ''completed''"
    and "lp' = fold (\<lambda>(steps, now). apply_validation steps now) rs lp"
  shows "lp_score lp' = Some (fold max (map (\<lambda>r. fst (score_from_steps (fst r))) rs)
      (case lp_score lp of None \<Rightarrow> 0 | Some x \<Rightarrow> x)) \<and>
    (lp_status lp' = ''completed'' \<longleftrightarrow> (\<exists>r \<in> set rs. snd (score_from_steps (fst r)))) \<and>
    lp_completed_at lp' = (case find (\<lambda>r. snd (score_from_steps (fst r))) rs of
      None \<Rightarrow> lp_completed_at lp | Some r \<Rightarrow> Some (snd r))"
  using apply_runs_score [OF assms(1), of lp] apply_runs_status [OF assms(2), of rs] assms(3)
  by (simp add: apply_runs_def list_ex_iff)

abbreviation passed_step :: step_row where
  "passed_step \<equiv> \<lparr>sr_id = ''1'', sr_title = [], sr_ok = True, sr_checks = []\<rparr>"

theorem progress_keeps_the_best_witness:
  "lp_completed_at (fold (\<lambda>(steps, now). apply_validation steps now)
     [([], 1), ([passed_step], 2), ([passed_step], 3)] (new_progress ''u'' ''vlan'' 0)) = Some 2"
  using progress_keeps_the_best [of "[([], 1), ([passed_step], 2), ([passed_step], 3)]"
      "new_progress ''u'' ''vlan'' 0", OF _ _ refl]
  by (simp add: new_progress_def score_from_steps_def)

text \<open>A recorded step attempt gets a number above every attempt the learner had at that step, and
  different from every attempt a concurrent transaction committed meanwhile; at most three
  collisions are survived.\<close>

theorem attempt_numbers_fresh:
  assumes "record_step_attempt rivals u lab step result score d = (Some a, d')"
  shows "attempt_of u lab step a \<and> (\<exists>others. attempts d' = attempts d @ others @ [a] \<and>
     (\<forall>b \<in> set (attempts d @ others). attempt_of u lab step b \<longrightarrow>
        sa_attempt_number b \<noteq> sa_attempt_number a)) \<and>
     (\<forall>b \<in> set (attempts d). attempt_of u lab step b \<longrightarrow> sa_attempt_number b < sa_attempt_number a)"
proof -
  let ?mk = "\<lambda>n. \<lparr>sa_user_id = u, sa_lab_slug = lab, sa_step_slug = step, sa_attempt_number = n,
    sa_result = result, sa_score = score\<rparr>"
  have "attempt_of u lab step (?mk n) \<and> sa_attempt_number (?mk n) = n" for n
    by (simp add: attempt_of_def)
  from attempt_loop_result [OF assms [unfolded record_step_attempt_def] this] show ?thesis by blast
qed

theorem attempt_numbers_fresh_witness:
  "\<exists>a d'. record_step_attempt (\<lambda>_. []) ''u'' ''vlan'' ''1'' ''passed'' None sample_db = (Some a, d') \<and>
     attempt_of ''u'' ''vlan'' ''1'' a"
proof -
  have "[0..<ATTEMPT_RETRIES] = [0, 1, 2]" by (simp add: ATTEMPT_RETRIES_def upt_rec)
  then obtain a d' where "record_step_attempt (\<lambda>_. []) ''u'' ''vlan'' ''1'' ''passed'' None sample_db =
      (Some a, d')"
    by (simp add: record_step_attempt_def sample_defs Let_def)
  with attempt_numbers_fresh [OF this] show ?thesis by blast
qed

subsection \<open>The progress observer\<close>

text \<open>The current step the agents are told about is the first step of the snapshot that fails:
  everything before it passes, and the checks shown as failing are exactly its failing ones, of
  which there is at least one whenever the snapshot comes from the evaluator.\<close>

theorem current_step_is_first_failing:
  assumes "snapshot = evaluate_spec handlers msg spec locale" and "\<not> list_all sr_ok snapshot"
  shows "\<exists>pre s post. snapshot = pre @ s # post \<and> list_all sr_ok pre \<and> \<not> sr_ok s \<and>
    pg_step_id (derive_current_step snapshot) = Some (sr_id s) \<and>
    pg_failing (derive_current_step snapshot) = filter (\<lambda>c. \<not> cr_ok c) (sr_checks s) \<and>
    pg_failing (derive_current_step snapshot) \<noteq> []"
proof -
  have "steps_consistent snapshot"
    unfolding assms(1) by (rule evaluate_spec_consistent)
  then have ne: "pg_failing (derive_current_step snapshot) \<noteq> []"
    using assms(2) by (rule derive_current_step_failing)
  from derive_current_step_first [OF assms(2)] obtain pre s post where
    "snapshot = pre @ s # post \<and> list_all sr_ok pre \<and> \<not> sr_ok s \<and>
      pg_step_id (derive_current_step snapshot) = Some (sr_id s) \<and>
      pg_failing (derive_current_step snapshot) = filter (\<lambda>c. \<not> cr_ok c) (sr_checks s)"
    by (elim exE) (rule that)
  with ne show ?thesis by blast
qed

abbreviation broken_spec :: "spec_step list" where
  "broken_spec \<equiv> [\<lparr>sp_id = ''1'', sp_title = None, sp_checks = []\<rparr>,
     \<lparr>sp_id = ''2'', sp_title = None, sp_checks = [[(''kind'', JStr ''x'')]]\<rparr>]"

theorem current_step_is_first_failing_witness:
  "pg_failing (derive_current_step (evaluate_spec (\<lambda>_. None) (\<lambda>k _ _. k) broken_spec ''en'')) \<noteq> []"
  using current_step_is_first_failing [OF refl, of "\<lambda>_. None" "\<lambda>k _ _. k" broken_spec "''en''"]
  by (fastforce simp: evaluate_spec_def evaluate_step_def eval_check_def failed_result_def Let_def)

text \<open>Without the learner's consent to the study the progress observer stores no event in any
  number of cycles, whatever the checks find.\<close>

theorem observer_needs_consent:
  assumes "study_decision (snd st) (ob_user (fst st)) \<noteq> Some ''granted''"
  shows "events (snd (observer_loop envs st)) = events (snd st)"
  by (rule observer_loop_no_consent) (use assms in \<open>simp add: may_collect_def\<close>)

abbreviation sample_observer :: observer where
  "sample_observer \<equiv> observer_start default_la_config ''s'' ''u'' ''vlan'' None 0"

abbreviation observing_env :: observer_env where
  "observing_env \<equiv> \<lparr>oe_now = 9, oe_spec = Some broken_spec, oe_handlers = (\<lambda>_. None),
     oe_msg = (\<lambda>k _ _. k), oe_dumps = (\<lambda>_. []), oe_uuid = (\<lambda>_. ''i'')\<rparr>"

theorem observer_needs_consent_witness:
  "events (snd (observer_loop [observing_env, observing_env] (sample_observer, silent_db))) = []"
  using observer_needs_consent [of "(sample_observer, silent_db)" "[observing_env, observing_env]"]
  by (simp add: study_decision_def newest_first_def sample_defs)

end
