(* ===== verification/Session_Properties.thy ===== *)
theory Session_Properties
  imports Samples
begin

text \<open>
  Properties of the session lifecycle: one live session per learner and lab, what a launch does
  to the admission counters, the queue and its tickets, ending, the background workers, and the
  experiment's arms and metrics.
\<close>

abbreviation sample_gns3 :: "string \<Rightarrow> string + (string \<times> string) list" where
  "sample_gns3 \<equiv> \<lambda>_. Inr [(''gns3_username'', ''g''), (''gns3_service_session_id'', ''p'')]"

subsection \<open>Launching\<close>

text \<open>C2. However launches, ends, resumes, resets, sweeps and heartbeats interleave, a learner has at
  most one session of a lab that is being provisioned or active.\<close>

theorem one_live_session:
  assumes "reachable cap pl"
  shows "count_if (\<lambda>s. (ls_user_id s = u \<and> ls_lab_slug s = slug) \<and> live_status (ls_status s))
    (sessions (pl_db pl)) \<le> 1"
  by (rule one_live_count [OF reachable_one_live [OF assms]])

theorem one_live_session_witness:
  "count_if (\<lambda>s. (ls_user_id s = ''u'' \<and> ls_lab_slug s = ''vlan'') \<and> live_status (ls_status s))
     (sessions (pl_db (snd (open_phase default_capacity True 5 ''s'' ''t'' ''u'' ''vlan'' ''en'' True
       (sample_platform lobby_db))))) \<le> 1"
  by (rule one_live_session [of default_capacity],
      rule reachable.step [OF reachable.init session_step.open_phase])
    (simp add: sample_defs)


abbreviation sample_launch :: "launch_reply \<times> platform" where
  "sample_launch \<equiv> launch_endpoint default_capacity True 5 ''s'' ''t'' sample_gns3 True ''u'' ''vlan'' ''en''
     (sample_platform lobby_db)"


text \<open>A learner who has not decided on the study is refused before anything else happens.\<close>

theorem launch_needs_study_decision:
  assumes "study_decision (pl_db pl) u = None"
  shows "launch_endpoint cap pg now i tok gns3 ok u slug loc pl =
    (Refused ''error.consent.required'', pl)"
  using assms by (rule launch_needs_decision)

theorem launch_needs_study_decision_witness:
  "fst (launch_endpoint default_capacity True 5 ''s'' ''t'' sample_gns3 True ''u'' ''vlan'' ''en''
     (sample_platform silent_db)) = Refused ''error.consent.required''"
  by (subst launch_needs_study_decision)
    (simp_all add: sample_platform_def study_decision_def newest_first_def silent_db_def)

subsection \<open>Admission and the queue\<close>

text \<open>C9. In any run of the queue's operations from an empty store both counters stay between zero
  and their caps, at any later reading.\<close>

theorem counters_within_caps:
  assumes "capacity_valid cfg" and "r = fold (queue_step cfg) es empty_redis"
  shows "0 \<le> count_of now (active_sessions r lab) \<and>
    count_of now (active_sessions r lab) \<le> max 0 (fst (caps cfg lab)) \<and>
    0 \<le> count_of now (active_total r) \<and> count_of now (active_total r) \<le> global_cap cfg"
  using assms by (rule admission_bounded)

theorem counters_within_caps_witness:
  "count_of 9 (active_total (fold (queue_step default_capacity)
     (replicate 8 (3, Acquire ''u'' ''vlan'')) empty_redis)) \<le> 6"
  using counters_within_caps [OF default_capacity_valid refl,
      where now = 9 and es = "replicate 8 (3, Acquire ''u'' ''vlan'')"]
  by (simp add: default_capacity_def)

text \<open>Whoever waits keeps the place while others, or the learner again, join the queue of the
  lab: joining appends, and asking twice does not.\<close>

theorem waiting_keeps_place:
  assumes "0 < queue_ttl_seconds cfg" and "position now v lab r = Some k"
  shows "position now v lab (fold (\<lambda>u r. snd (enqueue cfg now u lab r)) us r) = Some k"
  using assms(2)
proof (induction us arbitrary: r)
  case (Cons u us)
  from Cons.IH [OF enqueue_keeps_positions [OF assms(1) Cons.prems]] show ?case by simp
qed simp

theorem waiting_keeps_place_witness:
  "position 5 ''v'' ''vlan'' (fold (\<lambda>u r. snd (enqueue default_capacity 5 u ''vlan'' r)) [''w'', ''v'']
     (snd (enqueue default_capacity 5 ''v'' ''vlan'' empty_redis))) = Some 1"
  by (rule waiting_keeps_place)
    (simp_all add: default_capacity_def enqueue_def position_def empty_redis_def items_of_def seconds_def)

text \<open>A free slot goes to whoever asks first: the verdict depends on the counters alone, not on
  the queue nor on the learner's place in it.\<close>

theorem admission_ignores_queue:
  "fst (try_acquire cfg now u lab (r\<lparr>queues := q\<rparr>)) = fst (try_acquire cfg now v lab r)"
  by (rule try_acquire_ignores_queue)

text \<open>A ticket is redeemed at most once: after a successful redemption every later one fails,
  whatever the queue does in between, unless the same ticket is issued anew.\<close>

theorem ticket_single_use:
  assumes "fst (redeem now t r) = Some p" and "\<forall>e \<in> set es. \<not> issues t e"
  shows "fst (redeem later t (fold (queue_step cfg) es (snd (redeem now t r)))) = None"
  using assms by (rule redeem_once)

theorem ticket_single_use_witness:
  "fst (redeem 7 ''t'' (fold (queue_step default_capacity) [(6, Issue ''x'' ''s'' ''u'')]
     (snd (redeem 5 ''t'' (snd (issue 4 ''t'' ''s'' ''u'' empty_redis)))))) = None"
  by (rule ticket_single_use) (simp_all add: issue_redeem TICKET_TTL_SEC_def seconds_def)

subsection \<open>Ending\<close>

text \<open>Ending a session is idempotent: a second request answers like the first and changes
  nothing, the counters included.\<close>

theorem ending_twice_is_ending_once:
  assumes "end_lab env sid u pl = (True, pl')"
  shows "end_lab env' sid u pl' = (True, pl')"
  using assms by (rule end_lab_twice)

lemma sample_owned: "get_owned_session sample_db ''s'' ''u'' = Some sample_session"
  by (simp add: get_owned_session_def sample_defs)

theorem ending_twice_is_ending_once_witness:
  "let pl = snd (end_lab sample_end ''s'' ''u'' (sample_platform sample_db))
   in end_lab sample_end ''s'' ''u'' pl = (True, pl)"
  unfolding Let_def
  by (rule ending_twice_is_ending_once [of sample_end "''s''" "''u''" "sample_platform sample_db"])
    (simp add: end_lab_def sample_platform_def sample_owned)

text \<open>A launch that GNS3 refuses gives its slot back, but leaves a row that still counts as open;
  ending that session later gives a slot back a second time.\<close>

theorem failed_launch_frees_two_slots:
  assumes "get_owned_session (pl_db pl) (ls_id row) u = Some row" and "ls_ended_at row = None"
    and "one_live (sessions (pl_db pl))"
    and "close_phase now tok True ok row (Inl exc) pl = (reply, pl')"
  shows "reply = Refused exc \<and> pl_redis (snd (end_lab env (ls_id row) u pl')) =
    release (ee_now env) (ls_lab_slug row) (release now (ls_lab_slug row) (pl_redis pl))"
  using assms by (rule failed_launch_released_twice)

theorem failed_launch_frees_two_slots_witness:
  "fst (close_phase 6 ''t'' True True sample_session (Inl ''boom'') (sample_platform sample_db)) =
     Refused ''boom''"
proof -
  have "one_live (sessions (pl_db (sample_platform sample_db)))"
    by (simp add: sample_platform_def one_live_def sample_db_def empty_db_def)
  moreover have "get_owned_session (pl_db (sample_platform sample_db)) (ls_id sample_session) ''u'' =
      Some sample_session"
    using sample_owned by (simp add: sample_platform_def sample_session_def)
  moreover have "ls_ended_at sample_session = None" by (simp add: sample_session_def)
  ultimately show ?thesis
    using failed_launch_frees_two_slots [OF _ _ _ surjective_pairing] by blast
qed

text \<open>A session that is ended while GNS3 still prepares it is answered as active afterwards: it
  keeps its end time, so ending it again writes nothing and gives no slot back.\<close>

theorem ended_launch_becomes_unendable:
  assumes "get_owned_session (pl_db pl) (ls_id row) u = Some s" and "ls_ended_at s \<noteq> None"
    and "close_phase now tok fresh ok row (Inr meta) pl = (Opened sid st created, pl')"
  shows "\<exists>z. get_owned_session (pl_db pl') (ls_id row) u = Some z \<and> ls_status z = ''active'' \<and>
    ls_ended_at z = ls_ended_at s \<and>
    pl_db (snd (end_lab env (ls_id row) u pl')) = pl_db pl' \<and>
    pl_redis (snd (end_lab env (ls_id row) u pl')) = pl_redis pl'"
  using assms by (rule ended_launch_revives)

abbreviation zombie_db :: db where
  "zombie_db \<equiv> sample_db\<lparr>sessions :=
     [sample_session\<lparr>ls_status := ''ended'', ls_ended_at := Some 4\<rparr>]\<rparr>"

theorem ended_launch_becomes_unendable_witness:
  "\<exists>z. get_owned_session (pl_db (snd (close_phase 6 ''t'' True True sample_session (sample_gns3 [])
     (sample_platform zombie_db)))) ''s'' ''u'' = Some z \<and> ls_status z = ''active'' \<and>
     ls_ended_at z = Some 4"
proof -
  let ?s = "sample_session\<lparr>ls_status := ''ended'', ls_ended_at := Some 4\<rparr>"
  have own: "get_owned_session (pl_db (sample_platform zombie_db)) (ls_id sample_session) ''u'' = Some ?s"
    by (simp add: sample_platform_def get_owned_session_def sample_session_def)
  have "fst (close_phase 6 ''t'' True True sample_session (sample_gns3 []) (sample_platform zombie_db)) =
      Opened ''s'' ''active'' True"
    by (simp add: close_phase_def launch_complete_def finalize_session_row_def find_session_def
        set_session_def one_live_def session_credentials_def sample_platform_def sample_session_def Let_def)
  then obtain pl' where run: "close_phase 6 ''t'' True True sample_session (sample_gns3 [])
      (sample_platform zombie_db) = (Opened ''s'' ''active'' True, pl')" by (metis prod.collapse)
  from ended_launch_becomes_unendable [OF own _ this] show ?thesis
    unfolding run by (auto simp: sample_session_def)
qed

subsection \<open>Workers\<close>

text \<open>A reaper pass ends exactly the sessions that are past their deadline or stuck in
  provisioning: the open rows that remain are the others, unchanged.\<close>

theorem reaper_ends_the_reapable:
  assumes "distinct (map ls_id (sessions (pl_db pl)))"
  shows "open_rows (snd (reap_expired_sessions env pl)) =
    filter (\<lambda>s. \<not> reapable (ee_now env) s) (open_rows pl)"
  using assms by (rule reaper_leaves_none)

theorem reaper_ends_the_reapable_witness:
  "open_rows (snd (reap_expired_sessions sample_end (sample_platform sample_db))) = []"
  using reaper_ends_the_reapable [of "sample_platform sample_db" sample_end]
  by (simp add: sample_platform_def sample_db_def empty_db_def open_rows_def sample_session_def
      reapable_def live_status_def sample_end_def)

text \<open>The retention sweep removes every audit row older than the cutoff and no other, in batches
  of any number, and reports how many it removed.\<close>

theorem retention_removes_the_old:
  "sweep_mcp_audit cap now d =
     (count_if (\<lambda>a. au_ts a < now - seconds (mcp_audit_retention_days cap * 86400)) (audits d),
      d\<lparr>audits := filter (\<lambda>a. now - seconds (mcp_audit_retention_days cap * 86400) \<le> au_ts a)
        (audits d)\<rparr>)"
  unfolding sweep_mcp_audit_def sweep_rows_spec by (simp add: not_less)

text \<open>The idle reclaim pauses no session the learner was seen in within the threshold.\<close>

theorem reclaim_spares_the_seen:
  assumes "s \<in> set (sessions (pl_db pl))" and "distinct (map ls_id (sessions (pl_db pl)))"
    and "now - seconds (IDLE_THRESHOLD_MIN * 60) \<le> ls_last_seen_at s"
  shows "s \<in> set (sessions (pl_db (reclaim_idle_sessions now gns3 stopped pl)))"
  using assms(1) seen_not_reclaimable [OF assms(3)] assms(2) by (rule reclaim_spares)

theorem reclaim_spares_the_seen_witness:
  "sample_session \<in> set (sessions (pl_db (reclaim_idle_sessions 5 (\<lambda>_. None) (\<lambda>_. True)
     (sample_platform sample_db))))"
  by (rule reclaim_spares_the_seen)
    (simp_all add: sample_platform_def sample_db_def sample_session_def IDLE_THRESHOLD_MIN_def seconds_def)

subsection \<open>The experiment\<close>

abbreviation subject_db :: db where
  "subject_db \<equiv> sample_db\<lparr>users := [\<lparr>us_id = ''u'', us_email = None, us_name = None,
     us_role = ''student'', us_experiment_group = None, us_control_arm = None,
     us_is_simulated = False, us_is_active = True\<rparr>]\<rparr>"

text \<open>A learner's arm is drawn once: whatever the coin says later, the arm stays.\<close>

theorem arm_is_sticky:
  assumes "resolve_control_arm coin d u = (Inr a, d')"
  shows "resolve_control_arm coin' d' u = (Inr a, d')"
  using assms by (rule resolve_control_arm_sticky)

theorem arm_is_sticky_witness:
  "fst (resolve_control_arm False (snd (resolve_control_arm True subject_db ''u'')) ''u'') =
     fst (resolve_control_arm True subject_db ''u'')"
proof -
  have "fst (resolve_control_arm True subject_db ''u'') = Inr (assign_arm True)"
    by (simp add: resolve_control_arm_def find_user_def)
  then have run: "resolve_control_arm True subject_db ''u'' =
      (Inr (assign_arm True), snd (resolve_control_arm True subject_db ''u''))" by (metis prod.collapse)
  from arm_is_sticky [OF run, of False] run show ?thesis by simp
qed

text \<open>The number of repeated errors in the metrics is the length of the longest block of
  neighbouring errors with one message, and zero when no message occurs twice in a row.\<close>

theorem repeated_errors_is_longest_block:
  "max_consecutive_errors es = 0 \<and> (\<forall>n \<ge> 2. \<not> has_block n (map ev_message es)) \<or>
   2 \<le> max_consecutive_errors es \<and> has_block (max_consecutive_errors es) (map ev_message es) \<and>
   (\<forall>n. 2 \<le> n \<and> has_block n (map ev_message es) \<longrightarrow> n \<le> max_consecutive_errors es)"
  by (rule max_consecutive_errors_spec)

theorem repeated_errors_is_longest_block_witness:
  "2 \<le> max_consecutive_errors [sample_event, sample_event]"
proof -
  have "has_block 2 (map ev_message [sample_event, sample_event])"
    unfolding has_block_def
    by (intro exI [of _ "[]"] exI [of _ "''unreachable''"]) (simp add: sample_event_def numeral_2_eq_2)
  with repeated_errors_is_longest_block [of "[sample_event, sample_event]"] show ?thesis by auto
qed

text \<open>However often a learner starts labs and passes validations, no progress row ever carries a
  current step, so every metrics row a session leaves reports zero steps, an incomplete lab and a
  score of zero.\<close>

theorem metrics_never_completed:
  assumes "progress d0 = []" and "d = fold progress_step ops d0"
  shows "\<forall>row \<in> set (drop (length (metrics d)) (metrics (finalize_experiment_metrics cfg spec coin now s d))).
    em_steps_completed row = 0 \<and> \<not> em_completed row \<and> em_final_score row = 0"
proof (rule finalize_never_completed)
  have "no_current_step d0" using assms(1) by (simp add: no_current_step_def)
  then show "no_current_step d" unfolding assms(2) by (rule no_step.run_inv)
qed

abbreviation full_marks :: "step_row list" where
  "full_marks \<equiv> [\<lparr>sr_id = ''1'', sr_title = [], sr_ok = True, sr_checks = []\<rparr>]"

theorem metrics_never_completed_witness:
  "let d = fold progress_step [StartLab 1 ''u'' ''vlan'', Validated 2 ''u'' ''vlan'' full_marks] sample_db
   in list_all (\<lambda>row. em_final_score row = 0) (drop (length (metrics d))
     (metrics (finalize_experiment_metrics default_la_config (\<lambda>_. 1) True 200 sample_session d)))"
proof -
  have "progress sample_db = []" by (simp add: sample_db_def empty_db_def)
  from metrics_never_completed [OF this refl] show ?thesis
    unfolding Let_def list_all_iff by blast
qed

end
