(* ===== verification/Py_Stats.thy ===== *)
theory Py_Stats
  imports Prelude
begin

text \<open>
  The parts of Python's \<open>statistics\<close> and \<open>bisect\<close> the evaluation uses, the percentile convention
  of \<open>analytics/metrics/stats.py\<close> and Cohen's kappa (\<open>analytics/metrics/real_loader.py\<close>).
\<close>

subsection \<open>The standard library\<close>

text \<open>\<open>statistics.median\<close> of a list that is not empty.\<close>

definition median :: "real list \<Rightarrow> real" where
  "median xs =
     (let ys = sort xs; n = length ys
      in if odd n then ys ! (n div 2) else (ys ! (n div 2 - 1) + ys ! (n div 2)) / 2)"

text \<open>\<open>statistics.quantiles(data, n=n, method='inclusive')\<close> of at least two values.\<close>

definition quantile_at :: "real list \<Rightarrow> nat \<Rightarrow> nat \<Rightarrow> real" where
  "quantile_at ys n i =
     (let m = length ys - 1; j = (i * m) div n; delta = (i * m) mod n
      in (ys ! j * real (n - delta) + ys ! (j + 1) * real delta) / real n)"

definition quantiles :: "real list \<Rightarrow> nat \<Rightarrow> real list" where
  "quantiles data n = map (quantile_at (sort data) n) [1..<n]"

text \<open>\<open>xs[i]\<close> of a Python list: negative indices count from the end.\<close>

definition py_index :: "'a list \<Rightarrow> int \<Rightarrow> py_error + 'a" where
  "py_index xs i =
     (let n = int (length xs); k = (if i < 0 then i + n else i)
      in if 0 \<le> k \<and> k < n then Inr (xs ! nat k) else Inl IndexError)"

text \<open>\<open>bisect.bisect_right\<close>.\<close>

function bisect_loop :: "real list \<Rightarrow> real \<Rightarrow> nat \<Rightarrow> nat \<Rightarrow> nat" where
  "bisect_loop a x lo hi =
     (if lo < hi
      then let mid = (lo + hi) div 2
           in if x < a ! mid then bisect_loop a x lo mid else bisect_loop a x (Suc mid) hi
      else lo)"
  by pat_completeness auto
termination
  by (relation "measure (\<lambda>(_, _, lo, hi). hi - lo)") auto

declare bisect_loop.simps [simp del]

definition bisect_right :: "real list \<Rightarrow> real \<Rightarrow> nat" where
  "bisect_right a x = bisect_loop a x 0 (length a)"

subsection \<open>Percentiles and agreement\<close>

text \<open>\<open>int(p)\<close> truncates towards zero.\<close>

definition percentile :: "real list \<Rightarrow> real \<Rightarrow> py_error + real" where
  "percentile data p =
     (case data of
        [] \<Rightarrow> Inr 0
      | [x] \<Rightarrow> Inr x
      | _ \<Rightarrow> py_index (quantiles data 100) ((if 0 \<le> p then \<lfloor>p\<rfloor> else \<lceil>p\<rceil>) - 1))"

definition cohens_kappa :: "string list \<Rightarrow> string list \<Rightarrow> real" where
  "cohens_kappa labeler_a labeler_b =
     (let n = length labeler_a
      in if n = 0 \<or> n \<noteq> length labeler_b then 0
         else
           let po = real (count_if (\<lambda>(x, y). x = y) (zip labeler_a labeler_b)) / real n;
               pe = (\<Sum>c\<leftarrow>remdups (labeler_a @ labeler_b).
                 (real (count_list labeler_a c) / real n) * (real (count_list labeler_b c) / real n))
           in if 1 - pe = 0 then 1 else (po - pe) / (1 - pe))"

subsection \<open>Bisection\<close>

lemma bisect_loop_spec:
  assumes "sorted a" and "lo \<le> hi" and "hi \<le> length a"
    and "\<forall>i < lo. a ! i \<le> x" and "\<forall>i. hi \<le> i \<and> i < length a \<longrightarrow> x < a ! i"
  shows "(\<forall>i < bisect_loop a x lo hi. a ! i \<le> x) \<and>
    (\<forall>i. bisect_loop a x lo hi \<le> i \<and> i < length a \<longrightarrow> x < a ! i) \<and>
    bisect_loop a x lo hi \<le> length a"
  using assms(2-)
proof (induction "hi - lo" arbitrary: lo hi rule: less_induct)
  case less
  let ?mid = "(lo + hi) div 2"
  show ?case
  proof (cases "lo < hi")
    case True
    then have mid: "lo \<le> ?mid" "?mid < hi" by simp_all
    show ?thesis
    proof (cases "x < a ! ?mid")
      case True
      have "\<forall>i. ?mid \<le> i \<and> i < length a \<longrightarrow> x < a ! i"
        using True assms(1) by (meson less_le_trans sorted_nth_mono)
      with less.hyps [of ?mid lo] less.prems mid \<open>lo < hi\<close> True show ?thesis
        by (subst (1 2 3) bisect_loop.simps) (simp add: Let_def)
    next
      case False
      have "\<forall>i < Suc ?mid. a ! i \<le> x"
      proof (intro allI impI)
        fix i assume "i < Suc ?mid"
        moreover have "?mid < length a" using mid less.prems(2) by simp
        ultimately have "a ! i \<le> a ! ?mid" using assms(1) by (intro sorted_nth_mono) simp_all
        with False show "a ! i \<le> x" by simp
      qed
      with less.hyps [of hi "Suc ?mid"] less.prems mid \<open>lo < hi\<close> False show ?thesis
        by (subst (1 2 3) bisect_loop.simps) (simp add: Let_def)
    qed
  next
    case False
    with less.prems show ?thesis by (subst (1 2 3) bisect_loop.simps) simp
  qed
qed

lemma bisect_right_spec:
  assumes "sorted a"
  shows "i < bisect_right a x \<Longrightarrow> a ! i \<le> x"
    and "bisect_right a x \<le> i \<Longrightarrow> i < length a \<Longrightarrow> x < a ! i"
    and "bisect_right a x \<le> length a"
  using bisect_loop_spec [OF assms, of 0 "length a" x] unfolding bisect_right_def by simp_all

text \<open>On a sorted list, the number of elements up to \<open>x\<close>.\<close>

lemma bisect_right_count:
  assumes "sorted a" shows "bisect_right a x = count_if (\<lambda>y. y \<le> x) a"
proof -
  let ?k = "bisect_right a x"
  note k = bisect_right_spec [OF assms, where x = x]
  have "filter (\<lambda>y. y \<le> x) (take ?k a) = take ?k a"
    using k by (auto simp: filter_id_conv in_set_conv_nth)
  moreover have "filter (\<lambda>y. y \<le> x) (drop ?k a) = []"
    using k(2) by (auto simp: filter_empty_conv in_set_conv_nth not_le)
  ultimately have "filter (\<lambda>y. y \<le> x) a = take ?k a"
    by (metis append.right_neutral append_take_drop_id filter_append)
  with k(3) show ?thesis by (simp add: count_if_def)
qed

subsection \<open>Percentiles\<close>

text \<open>The interpolated value at position \<open>k / n\<close> of the sorted list.\<close>

definition interpolated :: "real list \<Rightarrow> nat \<Rightarrow> nat \<Rightarrow> real" where
  "interpolated ys n k =
     (ys ! (k div n) * real (n - k mod n) + ys ! (k div n + 1) * real (k mod n)) / real n"

lemma quantile_interpolated: "quantile_at ys n i = interpolated ys n (i * (length ys - 1))"
  by (simp add: quantile_at_def interpolated_def Let_def)

lemma interpolated_range:
  assumes "sorted ys" and "0 < n" and "k div n + 1 < length ys"
  shows "ys ! (k div n) \<le> interpolated ys n k \<and> interpolated ys n k \<le> ys ! (k div n + 1)"
proof -
  let ?a = "ys ! (k div n)" and ?b = "ys ! (k div n + 1)" and ?d = "real (k mod n)"
  have le: "?a \<le> ?b" using assms(1,3) by (simp add: sorted_nth_mono)
  have d: "0 \<le> ?d" "?d \<le> real n" "real (n - k mod n) = real n - ?d"
    using assms(2) by (simp_all add: of_nat_diff less_imp_le)
  have "interpolated ys n k * real n = ?a * (real n - ?d) + ?b * ?d"
    using assms(2) by (simp add: interpolated_def d(3))
  also have "\<dots> = ?a * real n + (?b - ?a) * ?d" by (simp add: algebra_simps)
  finally have eq: "interpolated ys n k * real n = ?a * real n + (?b - ?a) * ?d" .
  moreover have "0 \<le> (?b - ?a) * ?d" using le d by simp
  moreover have "(?b - ?a) * ?d \<le> (?b - ?a) * real n" using le d by (intro mult_left_mono) simp_all
  ultimately have "?a * real n \<le> interpolated ys n k * real n"
    "interpolated ys n k * real n \<le> ?b * real n" by (simp_all add: algebra_simps)
  with assms(2) show ?thesis by simp
qed

lemma interpolated_step:
  assumes "sorted ys" and "0 < n" and "k div n + 1 < length ys" and "Suc k div n + 1 < length ys"
  shows "interpolated ys n k \<le> interpolated ys n (Suc k)"
proof (cases "Suc (k mod n) = n")
  case True
  then have "Suc k div n = k div n + 1" "Suc k mod n = 0"
    using assms(2) by (simp_all add: div_Suc mod_Suc)
  with interpolated_range [OF assms(1-3)] assms(2) show ?thesis
    by (simp add: interpolated_def [of ys n "Suc k"])
next
  case False
  then have e: "Suc k div n = k div n" "Suc k mod n = Suc (k mod n)"
    using assms(2) by (simp_all add: div_Suc mod_Suc)
  have "k mod n < n" using assms(2) by simp
  then have "real (n - Suc (k mod n)) = real n - real (k mod n) - 1" "real (n - k mod n) = real n - real (k mod n)"
    by (simp_all add: of_nat_diff)
  moreover have "ys ! (k div n) \<le> ys ! (k div n + 1)" using assms(1,3) by (simp add: sorted_nth_mono)
  ultimately show ?thesis
    unfolding interpolated_def e using assms(2) by (intro divide_right_mono) (simp_all add: algebra_simps)
qed

lemma interpolated_mono:
  assumes "sorted ys" and "0 < n" and "k' div n + 1 < length ys" and "k \<le> k'"
  shows "interpolated ys n k \<le> interpolated ys n k'"
  using assms(4,3)
proof (induction k' rule: dec_induct)
  case (step m)
  have "m div n \<le> Suc m div n" by (rule div_le_mono) simp
  with step interpolated_step [OF assms(1,2), of m] show ?case by simp
qed simp

lemma quantile_position:
  assumes "i < n" and "2 \<le> length ys"
  shows "(i * (length ys - 1)) div n + 1 < length ys"
proof -
  have "i * (length ys - 1) < n * (length ys - 1)" using assms by simp
  then have "(i * (length ys - 1)) div n < length ys - 1"
    by (simp add: less_mult_imp_div_less mult.commute)
  then show ?thesis by simp
qed

lemma percentile_value:
  assumes "2 \<le> length data" and "1 \<le> p" and "p < 100"
  shows "percentile data p = Inr (quantile_at (sort data) 100 (nat \<lfloor>p\<rfloor>))"
proof -
  from assms(1) obtain x y xs where d: "data = x # y # xs" by (cases data; cases "tl data") auto
  define k where "k = nat \<lfloor>p\<rfloor>"
  have "1 \<le> \<lfloor>p\<rfloor>" "\<lfloor>p\<rfloor> < 100" using assms(2,3) by linarith+
  then have k: "\<lfloor>p\<rfloor> = int k" "1 \<le> k" "k < 100" unfolding k_def by linarith+
  have "[1..<100] ! nat (int k - 1) = k"
    using k(2,3) by (subst nth_upt) (simp_all add: nat_diff_distrib)
  then show ?thesis
    using assms(2) k unfolding k_def [symmetric]
    by (simp add: percentile_def d py_index_def quantiles_def Let_def del: upt.simps sort_key_simps)
qed

lemma percentile_spec:
  assumes "2 \<le> length data" and "1 \<le> i" and "i \<le> j" and "j < 100"
  shows "\<exists>x y. percentile data (real i) = Inr x \<and> percentile data (real j) = Inr y \<and> x \<le> y \<and>
      Min (set data) \<le> x \<and> y \<le> Max (set data)"
proof -
  let ?ys = "sort data" and ?m = "length data - 1"
  have len: "2 \<le> length ?ys" using assms(1) by simp
  have pos: "(k * ?m) div 100 + 1 < length ?ys" if "k < 100" for k
    using quantile_position [OF that len] by simp
  have val: "percentile data (real k) = Inr (interpolated ?ys 100 (k * ?m))" if "1 \<le> k" "k < 100" for k
    using percentile_value [OF assms(1), of "real k"] that by (simp add: quantile_interpolated)
  have le: "interpolated ?ys 100 (i * ?m) \<le> interpolated ?ys 100 (j * ?m)"
    using assms(3,4) by (intro interpolated_mono pos) simp_all
  have in_data: "Min (set data) \<le> ?ys ! k" "?ys ! k \<le> Max (set data)" if "k < length ?ys" for k
    using nth_mem [OF that] by simp_all
  have "Min (set data) \<le> interpolated ?ys 100 (i * ?m)"
    using interpolated_range [of ?ys 100 "i * ?m"] pos [of i] in_data(1) [of "(i * ?m) div 100"] assms(3,4)
    by fastforce
  moreover have "interpolated ?ys 100 (j * ?m) \<le> Max (set data)"
    using interpolated_range [of ?ys 100 "j * ?m"] pos [of j] in_data(2) [of "(j * ?m) div 100 + 1"] assms(4)
    by fastforce
  ultimately show ?thesis using val [of i] val [of j] le assms(2-4) by auto
qed

lemma percentile_ends:
  assumes "2 \<le> length data"
  shows "percentile data 100 = Inl IndexError" and "percentile data 0 = percentile data 99"
proof -
  from assms obtain x y xs where d: "data = x # y # xs" by (cases data; cases "tl data") auto
  show "percentile data 100 = Inl IndexError" "percentile data 0 = percentile data 99"
    by (simp_all add: percentile_def d py_index_def quantiles_def Let_def del: upt.simps sort_key_simps)
qed

end
