(* ===== verification/Criterion.thy ===== *)
theory Criterion
  imports Control Py_Stats
begin

text \<open>
  The control criterion J (\<open>analytics/criterion.py\<close>) and the offline choice of dwell thresholds
  (\<open>analytics/thresholds.py\<close>).  A sample's \<open>ts\<close> is in seconds, after \<open>_to_sec\<close>.  A session is its
  samples and the optional detections; a dictionary of thresholds is an association list.
\<close>

subsection \<open>The criterion\<close>

record costs =
  c_stuck :: real
  c_intervention :: real
  c_false :: real

record j_result =
  jr_J :: real
  jr_bad_duration :: real
  jr_n_interventions :: nat
  jr_n_false :: nat

definition costs_from_config :: "la_config \<Rightarrow> costs" where
  "costs_from_config cfg = \<lparr>c_stuck = cost_stuck cfg, c_intervention = cost_intervention cfg,
     c_false = cost_false_intervention cfg\<rparr>"

record sample =
  sm_ts :: real
  sm_regime :: string
  sm_dwell :: real

definition is_bad_regime :: "string \<Rightarrow> bool" where
  "is_bad_regime r \<longleftrightarrow> r \<in> set BAD_REGIMES"

abbreviation bad :: "sample \<Rightarrow> bool" where
  "bad s \<equiv> is_bad_regime (sm_regime s)"

definition interventions_outside_bad_regime :: "sample list \<Rightarrow> real list \<Rightarrow> nat" where
  "interventions_outside_bad_regime samples intervention_ts =
     count_if (\<lambda>ivt.
       let idx = bisect_right (map sm_ts samples) ivt
       in idx \<noteq> 0 \<and> \<not> bad (samples ! (idx - 1))) intervention_ts"

text \<open>The end of the run of bad samples that starts at \<open>j\<close>, and the spells.\<close>

function run_end :: "sample list \<Rightarrow> nat \<Rightarrow> nat" where
  "run_end ss j = (if j < length ss - 1 \<and> bad (ss ! j) then run_end ss (Suc j) else j)"
  by pat_completeness auto
termination
  by (relation "measure (\<lambda>(ss, j). length ss - j)") auto

declare run_end.simps [simp del]

lemma run_end_ge: "j \<le> run_end ss j"
proof (induction ss j rule: run_end.induct)
  case (1 ss j)
  then show ?case by (subst run_end.simps) force
qed

lemma run_end_gt: "j < length ss - 1 \<Longrightarrow> bad (ss ! j) \<Longrightarrow> j < run_end ss j"
  using run_end_ge [of "Suc j" ss] by (subst run_end.simps) simp

record spell =
  sl_start :: real
  sl_end :: real
  sl_recovered :: bool
  sl_had_iv :: bool

definition sl_duration :: "spell \<Rightarrow> real" where
  "sl_duration sp = sl_end sp - sl_start sp"

function spells_from :: "sample list \<Rightarrow> real list \<Rightarrow> nat \<Rightarrow> spell list" where
  "spells_from ss intervention_ts i =
     (if i < length ss - 1
      then if bad (ss ! i)
        then let j = run_end ss i; spell_start = sm_ts (ss ! i); spell_end = sm_ts (ss ! j)
          in \<lparr>sl_start = spell_start, sl_end = spell_end, sl_recovered = (\<not> bad (ss ! j)),
              sl_had_iv = list_ex (\<lambda>ivt. spell_start \<le> ivt \<and> ivt < spell_end) intervention_ts\<rparr>
             # spells_from ss intervention_ts j
        else spells_from ss intervention_ts (Suc i)
      else [])"
  by pat_completeness auto
termination
  by (relation "measure (\<lambda>(ss, _, i). length ss - i)") (use run_end_gt in force)+

declare spells_from.simps [simp del]

definition count_false :: "sample list \<Rightarrow> real list \<Rightarrow> nat" where
  "count_false samples interventions =
     (if interventions = [] then 0
      else
        let intervention_ts = sort interventions;
            n_false = interventions_outside_bad_regime samples intervention_ts;
            spells = spells_from samples intervention_ts 0;
            clean = map sl_duration (filter (\<lambda>sp. \<not> sl_had_iv sp \<and> sl_recovered sp) spells)
        in if clean = [] then n_false
           else n_false + count_if (\<lambda>sp. sl_had_iv sp \<and> sl_recovered sp \<and> sl_duration sp < median clean)
                  spells)"

fun bad_duration :: "sample list \<Rightarrow> real" where
  "bad_duration (s # s' # ss) =
     (if bad s then sm_ts s' - sm_ts s else 0) + bad_duration (s' # ss)"
| "bad_duration _ = 0"

definition compute_J :: "sample list \<Rightarrow> real list \<Rightarrow> costs \<Rightarrow> sample list option \<Rightarrow> j_result" where
  "compute_J samples interventions costs bad_duration_samples =
     (let dur_samples = (case bad_duration_samples of None \<Rightarrow> samples | Some d \<Rightarrow> d);
          bad_time = bad_duration dur_samples;
          n_interventions = length interventions;
          n_false = count_false samples interventions
      in \<lparr>jr_J = c_stuck costs * bad_time + c_intervention costs * real n_interventions +
            c_false costs * real n_false,
          jr_bad_duration = bad_time, jr_n_interventions = n_interventions, jr_n_false = n_false\<rparr>)"

subsection \<open>Simulated interventions\<close>

type_synonym thresholds = "(string \<times> real) list"

fun simulate_loop :: "sample list \<Rightarrow> thresholds \<Rightarrow> real \<Rightarrow> real option \<Rightarrow> real list" where
  "simulate_loop [] dwell_thr cooldown last_fire = []"
| "simulate_loop (s # ss) dwell_thr cooldown last_fire =
     (if \<not> bad s then simulate_loop ss dwell_thr cooldown last_fire
      else case map_of dwell_thr (sm_regime s) of
        None \<Rightarrow> simulate_loop ss dwell_thr cooldown last_fire
      | Some threshold \<Rightarrow>
          if sm_dwell s < threshold then simulate_loop ss dwell_thr cooldown last_fire
          else if (case last_fire of None \<Rightarrow> False | Some l \<Rightarrow> sm_ts s - l < cooldown)
          then simulate_loop ss dwell_thr cooldown last_fire
          else sm_ts s # simulate_loop ss dwell_thr cooldown (Some (sm_ts s)))"

definition simulate_interventions :: "sample list \<Rightarrow> thresholds \<Rightarrow> real \<Rightarrow> real list" where
  "simulate_interventions samples dwell_thr cooldown = simulate_loop samples dwell_thr cooldown None"

definition truncate_at_interventions :: "sample list \<Rightarrow> real list \<Rightarrow> sample list" where
  "truncate_at_interventions samples interventions =
     (if interventions = [] then samples
      else map (\<lambda>s. if bad s \<and> list_ex (\<lambda>iv_t. iv_t \<le> sm_ts s) (sort interventions)
             then s\<lparr>sm_regime := ''productive'', sm_dwell := 0\<rparr> else s) samples)"

definition no_effect_counterfactual :: "sample list \<Rightarrow> real list \<Rightarrow> sample list" where
  "no_effect_counterfactual samples interventions = samples"

record trial_session =
  ts_samples :: "sample list"
  ts_detections :: "sample list"

text \<open>\<open>s.get("detections") or s["samples"]\<close>: an empty list of detections counts as absent.\<close>

definition session_J ::
  "costs \<Rightarrow> thresholds \<Rightarrow> real \<Rightarrow> (sample list \<Rightarrow> real list \<Rightarrow> sample list) \<Rightarrow> trial_session \<Rightarrow> real" where
  "session_J costs dwell_thr cooldown counterfactual s =
     (let firing = (if ts_detections s \<noteq> [] then ts_detections s else ts_samples s);
          ivs = simulate_interventions firing dwell_thr cooldown;
          truncated = counterfactual (ts_samples s) ivs
      in jr_J (compute_J (ts_samples s) ivs costs (Some truncated)))"

definition total_J ::
  "trial_session list \<Rightarrow> costs \<Rightarrow> thresholds \<Rightarrow> real \<Rightarrow>
   (sample list \<Rightarrow> real list \<Rightarrow> sample list) \<Rightarrow> real" where
  "total_J sessions costs dwell_thr cooldown counterfactual =
     (\<Sum>s\<leftarrow>sessions. session_J costs dwell_thr cooldown counterfactual s)"

subsection \<open>The choice of thresholds\<close>

text \<open>One regime: the first candidate of the least cost.  \<open>None\<close> stands for infinity.\<close>

fun best_candidate :: "(real \<Rightarrow> real) \<Rightarrow> real list \<Rightarrow> real \<times> real option \<Rightarrow> real \<times> real option" where
  "best_candidate J [] best = best"
| "best_candidate J (tk # tks) (best_tk, best_j) =
     (if (case best_j of None \<Rightarrow> True | Some b \<Rightarrow> J tk < b) then best_candidate J tks (tk, Some (J tk))
      else best_candidate J tks (best_tk, best_j))"

text \<open>\<open>{**d, k: v}\<close> and \<open>d[k] = v\<close>.\<close>

definition dict_set :: "'k \<Rightarrow> 'v \<Rightarrow> ('k \<times> 'v) list \<Rightarrow> ('k \<times> 'v) list" where
  "dict_set k v d = (if k \<in> set (map fst d) then map (\<lambda>(k', v'). (k', if k' = k then v else v')) d
     else d @ [(k, v)])"

fun derive_loop ::
  "(thresholds \<Rightarrow> real) \<Rightarrow> (string \<times> real list) list \<Rightarrow> thresholds \<Rightarrow> thresholds \<Rightarrow> py_error + thresholds"
  where
  "derive_loop J [] current res = Inr res"
| "derive_loop J ((regime, candidates) # grid) current res =
     (case candidates of
        [] \<Rightarrow> Inl IndexError
      | c # _ \<Rightarrow>
          let best = fst (best_candidate (\<lambda>tk. J (dict_set regime tk current)) candidates (c, None))
          in derive_loop J grid (dict_set regime best current) (dict_set regime best res))"

definition initial_thresholds :: "(string \<times> real list) list \<Rightarrow> thresholds" where
  "initial_thresholds grid =
     List.map_filter (\<lambda>(regime, candidates).
       case candidates of [] \<Rightarrow> None | c # _ \<Rightarrow> Some (regime, c)) grid"

definition derive_T_k ::
  "trial_session list \<Rightarrow> costs \<Rightarrow> (string \<times> real list) list \<Rightarrow> real \<Rightarrow>
   (sample list \<Rightarrow> real list \<Rightarrow> sample list) \<Rightarrow> py_error + thresholds" where
  "derive_T_k sessions costs grid cooldown counterfactual =
     derive_loop (\<lambda>thr. total_J sessions costs thr cooldown counterfactual) grid
       (initial_thresholds grid) []"

fun sensitivity_curve ::
  "trial_session list \<Rightarrow> real list \<Rightarrow> (string \<times> real list) list \<Rightarrow> real \<Rightarrow> real \<Rightarrow> real \<Rightarrow> real \<Rightarrow>
   (sample list \<Rightarrow> real list \<Rightarrow> sample list) \<Rightarrow> py_error + (real \<times> thresholds \<times> real) list" where
  "sensitivity_curve sessions [] grid base c_f cooldown time_unit cf = Inr []"
| "sensitivity_curve sessions (ratio # ratios) grid base c_f cooldown time_unit cf =
     (if time_unit = 0 then Inl ZeroDivisionError
      else
        let costs = \<lparr>c_stuck = ratio * base / time_unit, c_intervention = base, c_false = c_f\<rparr>
        in case derive_T_k sessions costs grid cooldown cf of
             Inl e \<Rightarrow> Inl e
           | Inr tk \<Rightarrow>
               (case sensitivity_curve sessions ratios grid base c_f cooldown time_unit cf of
                  Inl e \<Rightarrow> Inl e
                | Inr rest \<Rightarrow> Inr ((ratio, tk, total_J sessions costs tk cooldown cf) # rest)))"

end
