(* ===== verification/Evaluation.thy ===== *)
theory Evaluation
  imports Criterion Records
begin

text \<open>
  Evaluation of the identifier (\<open>analytics/metrics/\<close>): labelled scenarios and their synthetic
  fixture (\<open>scenarios.py\<close>), the identifier run over a scenario (\<open>harness.py\<close>), detection metrics,
  confusion matrix and operating curve (\<open>metrics.py\<close>), the comparison of the arms
  (\<open>arm_analysis.py\<close>) and the annotation agreement (\<open>annotation.py\<close>, \<open>help_dependence.py\<close>).
  The random choices of the bootstrap and \<open>math.erfc\<close> are parameters.
\<close>

subsection \<open>Scenarios\<close>

record snapshot =
  sn_ts :: real
  sn_features :: session_features

record scenario =
  sc_snapshots :: "snapshot list"
  sc_onset_ts :: "real option"
  sc_onset_window :: real
  sc_truth_regime :: ProcessRegime
  sc_duration_seconds :: real
  sc_source :: string

definition is_normal :: "scenario \<Rightarrow> bool" where
  "is_normal s \<longleftrightarrow> sc_truth_regime s = PRODUCTIVE"

definition EPOCH :: time where
  "EPOCH = 1767225600000000"

definition benign_features :: "nat \<Rightarrow> session_features" where
  "benign_features ts_index = \<lparr>
     avg_inter_action_latency = 5, action_rate_slope = 0, idle_periods = 0,
     total_active_time = 10, time_on_current_step = 10, error_repeat_count = 0,
     error_repeat_rate = 0, action_sequence_entropy = 0, undo_redo_ratio = 0,
     error_frequency = 0, error_frequency_slope = 0, unique_error_types = 0,
     dominant_error = None, components_touched = 1, action_diversity = 1 / 2,
     events_total = int ts_index + 1, distinct_failing_actuals = 0,
     cycles_failing_unchanged = 0, sf_session_id = ''syn'', computed_at = EPOCH\<rparr>"

definition synthetic_features :: "nat \<Rightarrow> ProcessRegime \<Rightarrow> bool \<Rightarrow> session_features" where
  "synthetic_features ts_index regime fired =
     (let base = benign_features ts_index
      in if \<not> fired then base
         else case regime of
           Struggling REPEATING_ERRORS \<Rightarrow>
             base\<lparr>error_repeat_count := 5, error_repeat_rate := 6 / 10, error_frequency := 6 / 10\<rparr>
         | Struggling TRIAL_AND_ERROR \<Rightarrow>
             base\<lparr>distinct_failing_actuals := 5, action_sequence_entropy := 9 / 10,
                  error_frequency := 6 / 10\<rparr>
         | Struggling STUCK_ON_STEP \<Rightarrow> base\<lparr>cycles_failing_unchanged := 4\<rparr>
         | Struggling IDLE \<Rightarrow>
             base\<lparr>idle_periods := 4, avg_inter_action_latency := 120, action_rate_slope := - 1\<rparr>
         | PRODUCTIVE \<Rightarrow> base)"

definition make_normal_scenario ::
  "nat \<Rightarrow> real \<Rightarrow> string \<Rightarrow> nat list \<Rightarrow> ProcessRegime \<Rightarrow> scenario" where
  "make_normal_scenario n step source blip_indices blip_regime =
     \<lparr>sc_snapshots = map (\<lambda>i. \<lparr>sn_ts = real i * step,
        sn_features = synthetic_features i blip_regime (i \<in> set blip_indices)\<rparr>) [0..<n],
      sc_onset_ts = None, sc_onset_window = 0, sc_truth_regime = PRODUCTIVE,
      sc_duration_seconds = real n * step, sc_source = source\<rparr>"

definition make_struggle_scenario ::
  "ProcessRegime \<Rightarrow> nat \<Rightarrow> nat \<Rightarrow> real \<Rightarrow> real \<Rightarrow> string \<Rightarrow> nat \<Rightarrow> scenario" where
  "make_struggle_scenario regime onset_index n step window source detect_delay =
     (let fire_from = onset_index + detect_delay
      in \<lparr>sc_snapshots = map (\<lambda>i. \<lparr>sn_ts = real i * step,
            sn_features = synthetic_features i regime (fire_from \<le> i)\<rparr>) [0..<n],
          sc_onset_ts = Some (real onset_index * step), sc_onset_window = window,
          sc_truth_regime = regime, sc_duration_seconds = real n * step, sc_source = source\<rparr>)"

definition build_synthetic_scenarios :: "scenario list" where
  "build_synthetic_scenarios =
     concat (map (\<lambda>regime. map (\<lambda>(onset, delay).
         make_struggle_scenario regime onset 14 15 (14 * 15) ''synthetic'' delay)
         [(4, 0), (5, 1), (6, 2)])
       [Struggling REPEATING_ERRORS, Struggling TRIAL_AND_ERROR, Struggling STUCK_ON_STEP,
        Struggling IDLE]) @
     map (\<lambda>blips. make_normal_scenario 14 15 ''synthetic'' blips (Struggling REPEATING_ERRORS))
       [[], [], [], [3, 4], [7, 8, 9]]"

text \<open>The T-k sweep's sessions: samples every \<open>t_step\<close> up to \<open>spell_len\<close>, then a productive one.\<close>

definition synthetic_session :: "nat \<Rightarrow> string \<Rightarrow> nat \<Rightarrow> trial_session" where
  "synthetic_session spell_len regime t_step =
     (let k = spell_len div t_step + 1
      in \<lparr>ts_samples = map (\<lambda>i. \<lparr>sm_ts = real (i * t_step), sm_regime = regime,
            sm_dwell = real (i * t_step)\<rparr>) [0..<k] @
            [\<lparr>sm_ts = real (k * t_step), sm_regime = ''productive'', sm_dwell = 0\<rparr>],
          ts_detections = []\<rparr>)"

definition build_synthetic_sessions :: "trial_session list" where
  "build_synthetic_sessions = map (\<lambda>n. synthetic_session n ''stuck_on_step'' 15)
     [30, 30, 60, 120, 180, 300, 600]"

subsection \<open>The identifier over a scenario\<close>

record detection =
  dt_detected :: bool
  dt_detected_ts :: "real option"
  dt_detected_regime :: "ProcessRegime option"

fun trace_loop :: "la_config \<Rightarrow> snapshot list \<Rightarrow> dwell_tracker \<Rightarrow> py_error + sample list" where
  "trace_loop cfg [] tracker = Inr []"
| "trace_loop cfg (snap # snaps) tracker =
     (case identify_regime (sn_features snap) cfg of
        Inl e \<Rightarrow> Inl e
      | Inr result \<Rightarrow>
          (let regime = analysis_to_regime result;
               (dwell, tracker') = observe regime (EPOCH + timedelta (sn_ts snap)) tracker
           in case trace_loop cfg snaps tracker' of
                Inl e \<Rightarrow> Inl e
              | Inr rest \<Rightarrow> Inr (\<lparr>sm_ts = sn_ts snap, sm_regime = regime_value regime,
                  sm_dwell = dwell\<rparr> # rest)))"

definition identifier_trace :: "scenario \<Rightarrow> la_config \<Rightarrow> py_error + sample list" where
  "identifier_trace scn cfg = trace_loop cfg (sc_snapshots scn) dwell_init"

text \<open>\<open>ProcessRegime(sample["regime"])\<close> never fails on a trace, whose regimes are members' values.\<close>

definition first_detection :: "real \<Rightarrow> sample list \<Rightarrow> detection" where
  "first_detection t_k trace =
     (case find (\<lambda>s. bad s \<and> t_k \<le> sm_dwell s) trace of
        Some s \<Rightarrow> \<lparr>dt_detected = True, dt_detected_ts = Some (sm_ts s),
          dt_detected_regime = (case regime_of_value (sm_regime s) of Inl _ \<Rightarrow> None | Inr r \<Rightarrow> Some r)\<rparr>
      | None \<Rightarrow> \<lparr>dt_detected = False, dt_detected_ts = None, dt_detected_regime = None\<rparr>)"

definition run_identifier :: "scenario \<Rightarrow> real \<Rightarrow> la_config \<Rightarrow> py_error + detection" where
  "run_identifier scn t_k cfg =
     (case identifier_trace scn cfg of Inl e \<Rightarrow> Inl e | Inr trace \<Rightarrow> Inr (first_detection t_k trace))"

subsection \<open>Detection metrics\<close>

definition in_window :: "scenario \<Rightarrow> detection \<Rightarrow> bool" where
  "in_window scn d \<longleftrightarrow> dt_detected d \<and>
     (case (dt_detected_ts d, sc_onset_ts scn) of
        (Some t, Some onset) \<Rightarrow> onset \<le> t \<and> t \<le> onset + sc_onset_window scn
      | _ \<Rightarrow> False)"

definition detection_latencies :: "(scenario \<times> detection) list \<Rightarrow> real list" where
  "detection_latencies pairs =
     map (\<lambda>(scn, d). the (dt_detected_ts d) - the (sc_onset_ts scn))
       (filter (\<lambda>(scn, d). \<not> is_normal scn \<and> in_window scn d) pairs)"

text \<open>\<open>choice i k\<close> is the k-th draw of resample \<open>i\<close>.\<close>

definition bootstrap_ci ::
  "(nat \<Rightarrow> nat \<Rightarrow> nat) \<Rightarrow> real list \<Rightarrow> nat \<Rightarrow> (real \<times> real) option" where
  "bootstrap_ci choice values n_resamples =
     (if length values < 2 then None
      else
        let meds = sort (map (\<lambda>i. median (map (\<lambda>k. values ! (choice i k mod length values))
              [0..<length values])) [0..<n_resamples])
        in Some (meds ! nat \<lfloor>25 / 1000 * (real n_resamples - 1)\<rfloor>,
                 meds ! min (n_resamples - 1) (nat \<lfloor>975 / 1000 * (real n_resamples - 1)\<rfloor>)))"

definition p90 :: "real list \<Rightarrow> py_error + real option" where
  "p90 values =
     (if values = [] then Inr None
      else case percentile values 90 of Inl e \<Rightarrow> Inl e | Inr x \<Rightarrow> Inr (Some x))"

record detection_metrics =
  dm_latency_median :: "real option"
  dm_latency_p90 :: "real option"
  dm_latency_ci :: "(real \<times> real) option"
  dm_false_per_hour :: real
  dm_recall :: real
  dm_n_struggle :: nat
  dm_n_normal :: nat
  dm_n_tp :: nat
  dm_n_misses :: nat

definition evaluate ::
  "(nat \<Rightarrow> nat \<Rightarrow> nat) \<Rightarrow> (scenario \<times> detection) list \<Rightarrow> py_error + detection_metrics" where
  "evaluate choice pairs =
     (let struggle = filter (\<lambda>(scn, _). \<not> is_normal scn) pairs;
          normal = filter (\<lambda>(scn, _). is_normal scn) pairs;
          lat = detection_latencies pairs;
          n_tp = length lat; n_struggle = length struggle;
          n_false = count_if (\<lambda>(_, d). dt_detected d) normal;
          normal_hours = (\<Sum>(scn, _)\<leftarrow>normal. sc_duration_seconds scn) / 3600
      in case p90 lat of
           Inl e \<Rightarrow> Inl e
         | Inr p \<Rightarrow> Inr \<lparr>dm_latency_median = (if lat \<noteq> [] then Some (median lat) else None),
             dm_latency_p90 = p, dm_latency_ci = bootstrap_ci choice lat 1000,
             dm_false_per_hour = (if 0 < normal_hours then real n_false / normal_hours else 0),
             dm_recall = (if n_struggle \<noteq> 0 then real n_tp / real n_struggle else 0),
             dm_n_struggle = n_struggle, dm_n_normal = length normal, dm_n_tp = n_tp,
             dm_n_misses = n_struggle - n_tp\<rparr>)"

definition detected_or_productive :: "detection \<Rightarrow> ProcessRegime" where
  "detected_or_productive d =
     (case dt_detected_regime d of
        Some r \<Rightarrow> if dt_detected d then r else PRODUCTIVE
      | None \<Rightarrow> PRODUCTIVE)"

definition confusion_matrix ::
  "(scenario \<times> detection) list \<Rightarrow> ProcessRegime \<Rightarrow> ProcessRegime \<Rightarrow> nat" where
  "confusion_matrix pairs =
     fold (\<lambda>(scn, d) cm truth detected.
         if truth = sc_truth_regime scn \<and> detected = detected_or_productive d
         then cm truth detected + 1 else cm truth detected)
       pairs (\<lambda>_ _. 0)"

record operating_point =
  op_t_k :: real
  op_latency_median :: "real option"
  op_false_per_hour :: real
  op_recall :: real
  op_J :: real

definition truth_samples :: "scenario \<Rightarrow> sample list" where
  "truth_samples scn = map (\<lambda>snap.
     case sc_onset_ts scn of
       Some onset \<Rightarrow>
         if onset \<le> sn_ts snap
         then \<lparr>sm_ts = sn_ts snap, sm_regime = regime_value (sc_truth_regime scn),
               sm_dwell = max 0 (sn_ts snap - onset)\<rparr>
         else \<lparr>sm_ts = sn_ts snap, sm_regime = ''productive'', sm_dwell = 0\<rparr>
     | None \<Rightarrow> \<lparr>sm_ts = sn_ts snap, sm_regime = ''productive'', sm_dwell = 0\<rparr>) (sc_snapshots scn)"

fun map_err :: "('a \<Rightarrow> 'e + 'b) \<Rightarrow> 'a list \<Rightarrow> 'e + 'b list" where
  "map_err f [] = Inr []"
| "map_err f (x # xs) =
     (case f x of Inl e \<Rightarrow> Inl e
      | Inr y \<Rightarrow> (case map_err f xs of Inl e \<Rightarrow> Inl e | Inr ys \<Rightarrow> Inr (y # ys)))"

definition point_at ::
  "(nat \<Rightarrow> nat \<Rightarrow> nat) \<Rightarrow> scenario list \<Rightarrow> trial_session list \<Rightarrow> la_config \<Rightarrow> costs \<Rightarrow> real \<Rightarrow>
   py_error + operating_point" where
  "point_at choice scenarios trials cfg costs t_k =
     (case map_err (\<lambda>scn. run_identifier scn t_k cfg) scenarios of
        Inl e \<Rightarrow> Inl e
      | Inr ds \<Rightarrow>
          (case evaluate choice (zip scenarios ds) of
             Inl e \<Rightarrow> Inl e
           | Inr m \<Rightarrow> Inr \<lparr>op_t_k = t_k, op_latency_median = dm_latency_median m,
               op_false_per_hour = dm_false_per_hour m, op_recall = dm_recall m,
               op_J = total_J trials costs (map (\<lambda>r. (r, t_k)) BAD_REGIMES)
                 (cooldown_period cfg) truncate_at_interventions\<rparr>))"

definition operating_curve ::
  "(nat \<Rightarrow> nat \<Rightarrow> nat) \<Rightarrow> scenario list \<Rightarrow> real list \<Rightarrow> la_config \<Rightarrow> costs \<Rightarrow>
   py_error + operating_point list" where
  "operating_curve choice scenarios t_k_grid cfg costs =
     (case map_err (\<lambda>scn. case identifier_trace scn cfg of Inl e \<Rightarrow> Inl e
              | Inr tr \<Rightarrow> Inr \<lparr>ts_samples = truth_samples scn, ts_detections = tr\<rparr>) scenarios of
        Inl e \<Rightarrow> Inl e
      | Inr trials \<Rightarrow> map_err (point_at choice scenarios trials cfg costs) t_k_grid)"

text \<open>\<open>min(curve, key=...)\<close>: the first point of least J; an empty curve raises.\<close>

fun least_J :: "operating_point \<Rightarrow> operating_point list \<Rightarrow> operating_point" where
  "least_J p [] = p"
| "least_J p (q # qs) = (if op_J q < op_J p then least_J q qs else least_J p qs)"

definition j_optimal :: "operating_point list \<Rightarrow> py_error + operating_point" where
  "j_optimal curve = (case curve of [] \<Rightarrow> Inl ValueError | p # ps \<Rightarrow> Inr (least_J p ps))"

definition n_match :: "session_features \<Rightarrow> la_config \<Rightarrow> nat" where
  "n_match f cfg = count_if (\<lambda>(pred, _). pred f cfg) STRUGGLE_RULES"

definition first_match_diagnostics :: "scenario list \<Rightarrow> la_config \<Rightarrow> nat \<times> real \<times> real" where
  "first_match_diagnostics scenarios cfg =
     (let snaps = concat (map sc_snapshots scenarios);
          firing = count_if (\<lambda>s. 1 \<le> n_match (sn_features s) cfg) snaps;
          multi = count_if (\<lambda>s. 2 \<le> n_match (sn_features s) cfg) snaps;
          rate = (if firing \<noteq> 0 then real multi / real firing else 0)
      in (firing, rate, rate))"

subsection \<open>Comparing the arms\<close>

definition mean :: "real list \<Rightarrow> real" where
  "mean xs = sum_list xs / real (length xs)"

definition sample_variance :: "real list \<Rightarrow> real" where
  "sample_variance values =
     (if length values < 2 then 0
      else (\<Sum>x\<leftarrow>values. (x - mean values)\<^sup>2) / (real (length values) - 1))"

definition cohens_d :: "real list \<Rightarrow> real list \<Rightarrow> real" where
  "cohens_d g1 g2 =
     (let n1 = int (length g1); n2 = int (length g2);
          var1 = (\<Sum>x\<leftarrow>g1. (x - mean g1)\<^sup>2) / of_int (max (n1 - 1) 1);
          var2 = (\<Sum>x\<leftarrow>g2. (x - mean g2)\<^sup>2) / of_int (max (n2 - 1) 1);
          pooled_std = sqrt ((of_int (n1 - 1) * var1 + of_int (n2 - 1) * var2) /
            of_int (max (n1 + n2 - 2) 1))
      in if 0 < pooled_std then \<bar>mean g1 - mean g2\<bar> / pooled_std else 0)"

definition welch_ttest_normal_approx ::
  "(real \<Rightarrow> real) \<Rightarrow> real list \<Rightarrow> real list \<Rightarrow> real \<times> real" where
  "welch_ttest_normal_approx erfc g1 g2 =
     (let m1 = mean g1; m2 = mean g2;
          standard_error = sqrt (sample_variance g1 / real (length g1) +
            sample_variance g2 / real (length g2))
      in if standard_error = 0 then (if m1 = m2 then (0, 1) else (1000000, 0))
         else let t_stat = (m1 - m2) / standard_error in (t_stat, erfc (\<bar>t_stat\<bar> / sqrt 2)))"

record group_comparison =
  gp_mean_a :: real
  gp_mean_b :: real
  gp_reduction_percent :: real
  gp_t_statistic :: real
  gp_p_value :: real
  gp_cohens_d :: real
  gp_significant :: bool

definition compare_groups :: "(real \<Rightarrow> real) \<Rightarrow> real list \<Rightarrow> real list \<Rightarrow> group_comparison" where
  "compare_groups erfc a b =
     (let ma = mean a; mb = mean b; (t_stat, p_value) = welch_ttest_normal_approx erfc a b
      in \<lparr>gp_mean_a = py_round 2 ma, gp_mean_b = py_round 2 mb,
          gp_reduction_percent = py_round 1 (if ma \<noteq> 0 then (ma - mb) / ma * 100 else 0),
          gp_t_statistic = py_round 4 t_stat, gp_p_value = py_round 4 p_value,
          gp_cohens_d = py_round 4 (cohens_d a b), gp_significant = (p_value < 5 / 100)\<rparr>)"

record arm_analysis =
  aa_l2_open :: real
  aa_l2_closed :: real
  aa_esc_open :: real
  aa_esc_closed :: real
  aa_repeated_errors :: "group_comparison option"
  aa_mentor_hours_saved :: real

definition l2_pass_rate :: "experiment_metrics list \<Rightarrow> real" where
  "l2_pass_rate ms =
     (let eligible = List.map_filter em_l2_unassisted_pass ms
      in if eligible = [] then 0 else real (count_if (\<lambda>x. x) eligible) / real (length eligible))"

definition esc_mean :: "experiment_metrics list \<Rightarrow> real" where
  "esc_mean ms = (if ms = [] then 0 else of_int (\<Sum>m\<leftarrow>ms. em_escalations m) / real (length ms))"

definition compute_arm_analysis :: "(real \<Rightarrow> real) \<Rightarrow> experiment_metrics list \<Rightarrow> real \<Rightarrow> arm_analysis" where
  "compute_arm_analysis erfc all_metrics mentor_seconds =
     (let open_arm = filter (\<lambda>m. em_base_arm m = Some ''open'') all_metrics;
          closed_arm = filter (\<lambda>m. em_base_arm m = Some ''closed'') all_metrics;
          open_errors = map (real_of_int \<circ> em_repeated_errors) open_arm;
          closed_errors = map (real_of_int \<circ> em_repeated_errors) closed_arm
      in \<lparr>aa_l2_open = l2_pass_rate open_arm, aa_l2_closed = l2_pass_rate closed_arm,
          aa_esc_open = esc_mean open_arm, aa_esc_closed = esc_mean closed_arm,
          aa_repeated_errors = (if 2 \<le> length open_errors \<and> 2 \<le> length closed_errors
            then Some (compare_groups erfc open_errors closed_errors) else None),
          aa_mentor_hours_saved = of_int ((\<Sum>m\<leftarrow>open_arm. em_escalations m) -
            (\<Sum>m\<leftarrow>closed_arm. em_escalations m)) * mentor_seconds / 3600\<rparr>)"

subsection \<open>Annotations and help\<close>

record regime_annotation =
  rg_session_id :: string
  rg_coder_id :: string
  rg_window_index :: int
  rg_regime_label :: string
  rg_is_gold :: bool

definition SIM_TRUTH_CODER :: string where
  "SIM_TRUTH_CODER = ''sim-truth''"

text \<open>The dict keeps the last row of a window.\<close>

definition labels_by_window :: "regime_annotation list \<Rightarrow> string \<Rightarrow> string \<Rightarrow> int \<Rightarrow> string option" where
  "labels_by_window rows session coder =
     (if coder = SIM_TRUTH_CODER then (\<lambda>_. None)
      else map_of (rev (map (\<lambda>r. (rg_window_index r, rg_regime_label r))
        (filter (\<lambda>r. rg_session_id r = session \<and> rg_coder_id r = coder) rows))))"

definition inter_rater_kappa :: "regime_annotation list \<Rightarrow> string \<Rightarrow> string \<Rightarrow> string \<Rightarrow> real" where
  "inter_rater_kappa rows session coder_a coder_b =
     (let a = labels_by_window rows session coder_a; b = labels_by_window rows session coder_b;
          shared = sort (remdups (filter (\<lambda>i. a i \<noteq> None \<and> b i \<noteq> None) (map rg_window_index rows)))
      in cohens_kappa (map (the \<circ> a) shared) (map (the \<circ> b) shared))"

definition gold_label_count :: "regime_annotation list \<Rightarrow> string option \<Rightarrow> nat" where
  "gold_label_count rows session =
     count_if (\<lambda>r. rg_is_gold r \<and> rg_coder_id r \<noteq> SIM_TRUTH_CODER \<and>
       (case session of None \<Rightarrow> True | Some s \<Rightarrow> rg_session_id r = s)) rows"

definition is_declining :: "int list \<Rightarrow> bool" where
  "is_declining counts \<longleftrightarrow> 2 \<le> length counts \<and> last counts < hd counts"

end
