(* ===== verification/Criterion_Facts.thy ===== *)
theory Criterion_Facts
  imports Criterion
begin

text \<open>
  The offline simulation is the live control law on a closed arm; the criterion counts no
  intervention as false twice and never goes negative; the choice of thresholds is a descent.
\<close>

subsection \<open>Simulation and control law\<close>

text \<open>The live law replayed over a log of regimes, dwells and times on a closed arm.\<close>

fun replay :: "la_config \<Rightarrow> time option \<Rightarrow> (ProcessRegime \<times> real \<times> time) list \<Rightarrow> time list" where
  "replay cfg last_at [] = []"
| "replay cfg last_at ((r, dw, t) # xs) =
     (if action_of (should_intervene r dw CLOSED last_at cfg t None None) = Intervene
      then t # replay cfg (Some t) xs else replay cfg last_at xs)"

definition sample_of :: "ProcessRegime \<times> real \<times> time \<Rightarrow> sample" where
  "sample_of x = (case x of (r, dw, t) \<Rightarrow>
     \<lparr>sm_ts = total_seconds t, sm_regime = regime_value r, sm_dwell = dw\<rparr>)"

lemma bad_regime_value: "is_bad_regime (regime_value r) \<longleftrightarrow> is_bad r"
  by (simp add: is_bad_regime_def BAD_REGIMES_iff)

lemma simulate_is_replay:
  assumes "la_enabled cfg" and "list_all (\<lambda>r. map_of (dwell_thresholds cfg) r \<noteq> None) BAD_REGIMES"
  shows "simulate_loop (map sample_of xs) (dwell_thresholds cfg) (cooldown_period cfg)
      (map_option total_seconds last_at) = map total_seconds (replay cfg last_at xs)"
proof (induction xs arbitrary: last_at)
  case (Cons x xs)
  obtain r dw t where x: "x = (r, dw, t)" by (cases x)
  show ?case
  proof (cases "is_bad r")
    case False
    with Cons.IH show ?thesis
      by (simp add: x sample_of_def bad_regime_value should_intervene_def)
  next
    case True
    then have "regime_value r \<in> set BAD_REGIMES" using bad_regime_value is_bad_regime_def by blast
    then obtain thr where thr: "map_of (dwell_thresholds cfg) (regime_value r) = Some thr"
      using assms(2) by (auto simp: list_all_iff)
    have fire: "action_of (should_intervene r dw CLOSED last_at cfg t None None) = Intervene \<longleftrightarrow>
        thr \<le> dw \<and> \<not> (case last_at of None \<Rightarrow> False
          | Some l \<Rightarrow> total_seconds (t - l) < cooldown_period cfg)"
      using True assms(1) thr by (simp add: should_intervene_def threshold_of_def Let_def not_less)
    show ?thesis
      using True thr Cons.IH [of last_at] Cons.IH [of "Some t"] fire
      by (cases last_at) (auto simp: x sample_of_def bad_regime_value not_less total_seconds_diff)
  qed
qed simp

subsection \<open>The choice is a descent\<close>

lemma best_candidate_Some:
  assumes "best_candidate J tks (b, Some (J b)) = (tk, j)"
  shows "tk \<in> set (b # tks) \<and> j = Some (J tk) \<and> (\<forall>c \<in> set (b # tks). J tk \<le> J c)"
  using assms
proof (induction tks arbitrary: b)
  case (Cons c tks)
  show ?case
  proof (cases "J c < J b")
    case True
    with Cons.IH [of c] Cons.prems show ?thesis by fastforce
  next
    case False
    with Cons.IH [of b] Cons.prems show ?thesis by fastforce
  qed
qed auto

lemma best_candidate_least:
  assumes "candidates \<noteq> []"
  shows "fst (best_candidate J candidates (b, None)) \<in> set candidates \<and>
    (\<forall>c \<in> set candidates. J (fst (best_candidate J candidates (b, None))) \<le> J c)"
proof -
  obtain c cs where c: "candidates = c # cs" using assms by (cases candidates) auto
  obtain tk j where "best_candidate J cs (c, Some (J c)) = (tk, j)" by fastforce
  with best_candidate_Some [OF this] show ?thesis by (simp add: c)
qed

lemma dict_set_middle:
  assumes "k \<notin> set (map fst d)" and "k \<notin> set (map fst e)"
  shows "dict_set k v (d @ (k, w) # e) = d @ (k, v) # e" and "dict_set k v d = d @ [(k, v)]"
proof -
  have "map (\<lambda>(k', v'). (k', if k' = k then v else v')) xs = xs" if "k \<notin> set (map fst xs)"
    for xs using that by (induction xs) auto
  with assms show "dict_set k v (d @ (k, w) # e) = d @ (k, v) # e" by (simp add: dict_set_def)
qed (use assms in \<open>simp add: dict_set_def\<close>)

lemma initial_thresholds_simps [simp]:
  "initial_thresholds [] = []"
  "initial_thresholds ((r, c # cs) # grid) = (r, c) # initial_thresholds grid"
  by (simp_all add: initial_thresholds_def)

lemma initial_keys:
  "list_all (\<lambda>(r, cs). cs \<noteq> []) grid \<Longrightarrow> map fst (initial_thresholds grid) = map fst grid"
proof (induction grid)
  case (Cons g grid)
  then obtain r c cs where "g = (r, c # cs)" by (cases g; cases "snd g") auto
  with Cons show ?case by simp
qed simp

lemma derive_loop_descends:
  assumes "list_all (\<lambda>(r, cs). cs \<noteq> []) grid" and "distinct (map fst res @ map fst grid)"
  shows "\<exists>final. derive_loop J grid (res @ initial_thresholds grid) res = Inr final \<and>
    J final \<le> J (res @ initial_thresholds grid) \<and>
    (\<exists>tks. final = res @ tks \<and> list_all2 (\<lambda>(r, cs) (r', tk). r' = r \<and> tk \<in> set cs) grid tks)"
  using assms
proof (induction grid arbitrary: res)
  case (Cons g grid)
  then obtain r c cs where g: "g = (r, c # cs)" by (cases g; cases "snd g") auto
  let ?ini = "initial_thresholds grid"
  let ?J = "\<lambda>tk. J (dict_set r tk (res @ (r, c) # ?ini))"
  let ?b = "fst (best_candidate ?J (c # cs) (c, None))"
  have "map fst ?ini = map fst grid" using Cons.prems(1) by (intro initial_keys) simp
  then have out: "r \<notin> set (map fst res)" "r \<notin> set (map fst ?ini)"
    using Cons.prems(2) by (auto simp: g)
  have best: "?b \<in> set (c # cs)" "?J ?b \<le> ?J c"
    using best_candidate_least [of "c # cs" ?J c] by simp_all
  have J: "?J tk = J ((res @ [(r, tk)]) @ ?ini)" for tk
    by (simp add: dict_set_middle(1) [OF out])
  have "\<exists>final. derive_loop J grid ((res @ [(r, ?b)]) @ ?ini) (res @ [(r, ?b)]) = Inr final \<and>
    J final \<le> J ((res @ [(r, ?b)]) @ ?ini) \<and>
    (\<exists>tks. final = (res @ [(r, ?b)]) @ tks \<and> list_all2 (\<lambda>(r, cs) (r', tk). r' = r \<and> tk \<in> set cs) grid tks)"
    using Cons.prems by (intro Cons.IH) (auto simp: g)
  then obtain final tks where f: "derive_loop J grid ((res @ [(r, ?b)]) @ ?ini) (res @ [(r, ?b)]) = Inr final"
    "J final \<le> J ((res @ [(r, ?b)]) @ ?ini)" "final = (res @ [(r, ?b)]) @ tks"
    "list_all2 (\<lambda>(r, cs) (r', tk). r' = r \<and> tk \<in> set cs) grid tks" by blast
  have "derive_loop J (g # grid) (res @ initial_thresholds (g # grid)) res = Inr final"
    using f(1) dict_set_middle [OF out] by (simp add: g Let_def)
  moreover have "J final \<le> J (res @ initial_thresholds (g # grid))"
    using f(2) best(2) unfolding J by (simp add: g)
  moreover have "list_all2 (\<lambda>(r, cs) (r', tk). r' = r \<and> tk \<in> set cs) (g # grid) ((r, ?b) # tks)"
    using f(4) best(1) by (simp add: g)
  ultimately show ?case using f(3) by (intro exI [of _ final]) auto
qed simp

lemma derive_one_optimal:
  assumes "cs \<noteq> []" and "tk \<in> set cs"
  shows "\<exists>final. derive_T_k sessions costs [(r, cs)] cooldown cf = Inr final \<and>
    total_J sessions costs final cooldown cf \<le> total_J sessions costs [(r, tk)] cooldown cf"
proof -
  obtain c cs' where cs: "cs = c # cs'" using assms(1) by (cases cs) auto
  let ?J = "\<lambda>tk. total_J sessions costs [(r, tk)] cooldown cf"
  let ?b = "fst (best_candidate ?J cs (c, None))"
  have "derive_T_k sessions costs [(r, cs)] cooldown cf = Inr [(r, ?b)]"
    by (simp add: derive_T_k_def cs Let_def dict_set_def)
  with best_candidate_least [OF assms(1), of ?J c] assms(2) show ?thesis by auto
qed

subsection \<open>The two kinds of false intervention are disjoint\<close>

abbreviation chronological :: "sample list \<Rightarrow> bool" where
  "chronological ss \<equiv> sorted (map sm_ts ss)"

lemma run_end_spec:
  "j < length ss \<Longrightarrow> run_end ss j < length ss \<and> (\<forall>k. j \<le> k \<and> k < run_end ss j \<longrightarrow> bad (ss ! k))"
proof (induction ss j rule: run_end.induct)
  case (1 ss j)
  show ?case
  proof (cases "j < length ss - 1 \<and> bad (ss ! j)")
    case True
    with 1 have IH: "run_end ss (Suc j) < length ss"
      "\<And>k. Suc j \<le> k \<Longrightarrow> k < run_end ss (Suc j) \<Longrightarrow> bad (ss ! k)" by auto
    moreover have "bad (ss ! k)" if "j \<le> k" "k < run_end ss (Suc j)" for k
      using IH(2) [of k] True that by (cases "k = j") auto
    ultimately show ?thesis using True by (subst (1 2) run_end.simps) auto
  next
    case False
    with 1 show ?thesis by (subst (1 2) run_end.simps) auto
  qed
qed

text \<open>A spell covers a run of bad samples; the spells of a log follow each other.\<close>

definition covers :: "sample list \<Rightarrow> nat \<Rightarrow> nat \<Rightarrow> spell \<Rightarrow> bool" where
  "covers ss a b sp \<longleftrightarrow> a < b \<and> b < length ss \<and> sl_start sp = sm_ts (ss ! a) \<and>
     sl_end sp = sm_ts (ss ! b) \<and> (\<forall>k. a \<le> k \<and> k < b \<longrightarrow> bad (ss ! k))"

lemma spells_from_bad:
  assumes "i < length ss - 1" and "bad (ss ! i)"
  shows "spells_from ss ivs i =
    \<lparr>sl_start = sm_ts (ss ! i), sl_end = sm_ts (ss ! run_end ss i),
     sl_recovered = (\<not> bad (ss ! run_end ss i)),
     sl_had_iv = list_ex (\<lambda>iv. sm_ts (ss ! i) \<le> iv \<and> iv < sm_ts (ss ! run_end ss i)) ivs\<rparr>
    # spells_from ss ivs (run_end ss i)"
  using assms by (subst spells_from.simps) (simp add: Let_def)

lemma spells_from_good:
  assumes "i < length ss - 1" and "\<not> bad (ss ! i)"
  shows "spells_from ss ivs i = spells_from ss ivs (Suc i)"
  using assms by (subst spells_from.simps) simp

lemma spells_from_covers:
  "sp \<in> set (spells_from ss ivs i) \<Longrightarrow>
     \<exists>a b. i \<le> a \<and> covers ss a b sp \<and>
       sl_had_iv sp = list_ex (\<lambda>iv. sl_start sp \<le> iv \<and> iv < sl_end sp) ivs"
proof (induction ss ivs i rule: spells_from.induct)
  case (1 ss ivs i)
  show ?case
  proof (cases "i < length ss - 1")
    case True
    show ?thesis
    proof (cases "bad (ss ! i)")
      case True
      let ?j = "run_end ss i"
      have j: "i < ?j" "?j < length ss" "\<forall>k. i \<le> k \<and> k < ?j \<longrightarrow> bad (ss ! k)"
        using run_end_gt [OF \<open>i < length ss - 1\<close> True] run_end_spec [of i ss] \<open>i < length ss - 1\<close>
        by auto
      from 1(3) \<open>i < length ss - 1\<close> True consider
        (here) "sp = \<lparr>sl_start = sm_ts (ss ! i), sl_end = sm_ts (ss ! ?j),
          sl_recovered = (\<not> bad (ss ! ?j)),
          sl_had_iv = list_ex (\<lambda>iv. sm_ts (ss ! i) \<le> iv \<and> iv < sm_ts (ss ! ?j)) ivs\<rparr>"
        | (later) "sp \<in> set (spells_from ss ivs ?j)"
        by (simp only: spells_from_bad [OF \<open>i < length ss - 1\<close> True] list.set insert_iff) blast
      then show ?thesis
      proof cases
        case here
        with j show ?thesis by (intro exI [of _ i] exI [of _ ?j]) (simp add: covers_def)
      next
        case later
        with 1(1) [OF \<open>i < length ss - 1\<close> True refl refl refl] j(1) show ?thesis
          by (meson less_imp_le order_trans)
      qed
    next
      case False
      have "sp \<in> set (spells_from ss ivs (Suc i))"
        using 1(3) unfolding spells_from_good [OF \<open>i < length ss - 1\<close> False] .
      with 1(2) [OF \<open>i < length ss - 1\<close> False] show ?thesis by (meson Suc_leD)
    qed
  next
    case False
    with 1(3) show ?thesis by (simp add: spells_from.simps [of ss ivs i])
  qed
qed

lemma chronological_nth: "chronological ss \<Longrightarrow> a \<le> b \<Longrightarrow> b < length ss \<Longrightarrow> sm_ts (ss ! a) \<le> sm_ts (ss ! b)"
  using sorted_nth_mono [of "map sm_ts ss" a b] by simp

lemma spells_from_ordered:
  assumes "chronological ss"
  shows "sorted_wrt (\<lambda>x y. sl_end x \<le> sl_start y) (spells_from ss ivs i)"
  using assms
proof (induction ss ivs i rule: spells_from.induct)
  case (1 ss ivs i)
  show ?case
  proof (cases "i < length ss - 1")
    case True
    show ?thesis
    proof (cases "bad (ss ! i)")
      case bad: True
      let ?j = "run_end ss i"
      have "sm_ts (ss ! ?j) \<le> sl_start sp" if "sp \<in> set (spells_from ss ivs ?j)" for sp
        using spells_from_covers [OF that] 1(3) chronological_nth by (fastforce simp: covers_def)
      with 1(1) [OF True bad refl refl refl 1(3)] True bad show ?thesis
        by (subst spells_from.simps) (simp add: Let_def)
    next
      case False
      with 1(2) [OF True False 1(3)] True show ?thesis by (subst spells_from.simps) simp
    qed
  next
    case False
    then show ?thesis by (subst spells_from.simps) simp
  qed
qed

abbreviation outside :: "sample list \<Rightarrow> real \<Rightarrow> bool" where
  "outside ss iv \<equiv> (let idx = bisect_right (map sm_ts ss) iv in idx \<noteq> 0 \<and> \<not> bad (ss ! (idx - 1)))"

lemma inside_not_outside:
  assumes "chronological ss" and "covers ss a b sp" and "sl_start sp \<le> iv" and "iv < sl_end sp"
  shows "\<not> outside ss iv"
proof -
  let ?idx = "bisect_right (map sm_ts ss) iv"
  note idx = bisect_right_spec [OF assms(1), where x = iv, unfolded length_map]
  have ab: "a < length ss" "b < length ss" "a < b" using assms(2) by (auto simp: covers_def)
  have "\<not> ?idx \<le> a"
  proof
    assume "?idx \<le> a"
    with idx(2) [where i = a] ab have "iv < sm_ts (ss ! a)" by simp
    with assms(2,3) show False by (simp add: covers_def)
  qed
  moreover have "\<not> b < ?idx"
  proof
    assume "b < ?idx"
    with idx(1) [where i = b] ab have "sm_ts (ss ! b) \<le> iv" by simp
    with assms(2,4) show False by (simp add: covers_def)
  qed
  ultimately have "a \<le> ?idx - 1" "?idx - 1 < b" by simp_all
  with assms(2) show ?thesis by (simp add: covers_def Let_def)
qed

text \<open>Spells that follow each other each claim interventions of their own.\<close>

lemma spells_claim:
  assumes "sorted_wrt (\<lambda>x y. sl_end x \<le> sl_start y) sps"
    and "\<forall>sp \<in> set sps. sl_start sp \<le> sl_end sp"
    and "\<forall>sp \<in> set sps. sl_had_iv sp \<longrightarrow> (\<exists>iv \<in> set ivs. sl_start sp \<le> iv \<and> iv < sl_end sp)"
    and "\<forall>sp \<in> set sps. \<forall>iv. sl_start sp \<le> iv \<and> iv < sl_end sp \<longrightarrow> P iv"
  shows "count_if sl_had_iv sps \<le> count_if P ivs"
  using assms
proof (induction sps arbitrary: ivs)
  case (Cons sp sps)
  let ?in = "\<lambda>iv. sl_start sp \<le> iv \<and> iv < sl_end sp"
  let ?rest = "filter (\<lambda>iv. \<not> ?in iv) ivs"
  have "count_if sl_had_iv sps \<le> count_if P ?rest"
  proof (rule Cons.IH)
    show "\<forall>x \<in> set sps. sl_had_iv x \<longrightarrow> (\<exists>iv \<in> set ?rest. sl_start x \<le> iv \<and> iv < sl_end x)"
    proof (intro ballI impI)
      fix x assume x: "x \<in> set sps" "sl_had_iv x"
      with Cons.prems(3) obtain iv where iv: "iv \<in> set ivs" "sl_start x \<le> iv" "iv < sl_end x" by auto
      moreover have "sl_end sp \<le> sl_start x" using Cons.prems(1) x(1) by simp
      ultimately show "\<exists>iv \<in> set ?rest. sl_start x \<le> iv \<and> iv < sl_end x"
        by (intro bexI [of _ iv]) auto
    qed
  qed (use Cons.prems in auto)
  moreover have "count_if P ivs = count_if P ?rest + count_if ?in ivs"
    using Cons.prems(4) by (induction ivs) auto
  moreover have "0 < count_if ?in ivs" if "sl_had_iv sp"
    using that Cons.prems(3) by (auto simp: count_if_def filter_empty_conv)
  ultimately show ?case by (cases "sl_had_iv sp") auto
qed simp

lemma count_false_le:
  assumes "chronological ss"
  shows "count_false ss ivs \<le> length ivs"
proof -
  let ?ivs = "sort ivs" and ?sps = "spells_from ss (sort ivs) 0"
  have claim: "count_if sl_had_iv ?sps \<le> count_if (\<lambda>iv. \<not> outside ss iv) ?ivs"
  proof (rule spells_claim [OF spells_from_ordered [OF assms]]; intro ballI allI impI)
    fix sp assume "sp \<in> set ?sps"
    from spells_from_covers [OF this] obtain a b where cov: "covers ss a b sp"
      and iv: "sl_had_iv sp = list_ex (\<lambda>iv. sl_start sp \<le> iv \<and> iv < sl_end sp) ?ivs" by blast
    then show "sl_start sp \<le> sl_end sp"
      using chronological_nth [OF assms, of a b] by (simp add: covers_def)
    show "\<exists>iv \<in> set ?ivs. sl_start sp \<le> iv \<and> iv < sl_end sp" if "sl_had_iv sp"
      using that iv by (simp add: list_ex_iff)
    show "\<not> outside ss iv" if "sl_start sp \<le> iv \<and> iv < sl_end sp" for iv
      using that inside_not_outside [OF assms cov] by blast
  qed
  have later: "count_if (\<lambda>sp. sl_had_iv sp \<and> sl_recovered sp \<and> sl_duration sp < m) ?sps \<le>
      count_if sl_had_iv ?sps" for m by (rule count_if_mono) simp
  have total: "count_if (outside ss) ?ivs + count_if (\<lambda>iv. \<not> outside ss iv) ?ivs = length ivs"
    using count_if_split [of "outside ss" ?ivs] by simp
  have "count_if (outside ss) ?ivs +
      count_if (\<lambda>sp. sl_had_iv sp \<and> sl_recovered sp \<and> sl_duration sp < m) ?sps \<le> length ivs" for m
    using claim later [of m] total by linarith
  then show ?thesis
    using total unfolding count_false_def Let_def interventions_outside_bad_regime_def
    by (simp split: if_splits)
qed

subsection \<open>Time in bad regimes\<close>

lemma bad_duration_range:
  assumes "chronological ss" and "ss \<noteq> []"
  shows "0 \<le> bad_duration ss \<and> bad_duration ss \<le> sm_ts (last ss) - sm_ts (hd ss)"
  using assms by (induction ss rule: bad_duration.induct) force+

lemma productive_good [simp]: "\<not> is_bad_regime ''productive''"
  by (simp add: is_bad_regime_def BAD_REGIMES_def)

text \<open>The stipulation that an intervention ends the struggle never adds time.\<close>

lemma bad_duration_weaken:
  assumes "chronological ss" and "\<And>s. sm_ts (f s) = sm_ts s" and "\<And>s. bad (f s) \<Longrightarrow> bad s"
  shows "bad_duration (map f ss) \<le> bad_duration ss"
  using assms(1)
proof (induction ss rule: bad_duration.induct)
  case (1 s s' ss)
  then have "bad_duration (map f (s' # ss)) \<le> bad_duration (s' # ss)" "sm_ts s \<le> sm_ts s'" by auto
  then show ?case using assms(3) [of s] by (auto simp: assms(2))
qed simp_all

lemma truncate_shorter:
  assumes "chronological ss"
  shows "bad_duration (truncate_at_interventions ss ivs) \<le> bad_duration ss"
  unfolding truncate_at_interventions_def
  by (auto intro!: bad_duration_weaken [OF assms] split: if_splits)

lemma truncate_chronological: "chronological (truncate_at_interventions ss ivs) = chronological ss"
proof -
  have "map sm_ts (truncate_at_interventions ss ivs) = map sm_ts ss"
    by (simp add: truncate_at_interventions_def)
  then show ?thesis by simp
qed

lemma compute_J_nonneg:
  assumes "chronological d" and "0 \<le> c_stuck c" "0 \<le> c_intervention c" "0 \<le> c_false c"
  shows "0 \<le> jr_J (compute_J ss ivs c (Some d))"
proof -
  have "0 \<le> bad_duration d" using bad_duration_range [OF assms(1)] by (cases "d = []") auto
  with assms show ?thesis by (simp add: compute_J_def Let_def)
qed

end
