(* ===== verification/Evaluation_Facts.thy ===== *)
theory Evaluation_Facts
  imports Evaluation Criterion_Facts
begin

text \<open>
  The evaluation's own consistency: counts that add up, rates between zero and one, an interval
  inside the data, a later threshold that never detects earlier, a synthetic fixture that is
  detected where it says, and Cohen's kappa at its maximum exactly on identical labels.
\<close>

subsection \<open>Detection and thresholds\<close>

lemma find_weaken:
  assumes "find P xs = Some x" and "\<And>y. P y \<Longrightarrow> Q y"
  shows "\<exists>pre y post. find Q xs = Some y \<and> xs = pre @ y # post \<and> (\<forall>z \<in> set pre. \<not> Q z) \<and> x \<in> set (y # post)"
  using assms(1)
proof (induction xs)
  case (Cons a xs)
  show ?case
  proof (cases "Q a")
    case True
    from Cons.prems have "x \<in> set (a # xs)" by (auto simp: find_Some_iff split: if_splits)
    with True show ?thesis by (intro exI [of _ "[]"] exI [of _ a] exI [of _ xs]) simp
  next
    case False
    with assms(2) have "\<not> P a" by blast
    with Cons obtain pre y post where "find Q xs = Some y" "xs = pre @ y # post"
      "\<forall>z \<in> set pre. \<not> Q z" "x \<in> set (y # post)" by auto
    with False show ?thesis by (intro exI [of _ "a # pre"] exI [of _ y] exI [of _ post]) simp
  qed
qed simp

text \<open>A higher threshold detects no scenario the lower one misses, and never earlier.\<close>

lemma first_detection_mono:
  assumes "chronological trace" and "t \<le> t'" and "dt_detected_ts (first_detection t' trace) = Some late"
  shows "\<exists>early. dt_detected_ts (first_detection t trace) = Some early \<and> early \<le> late"
proof -
  from assms(3) obtain x where x: "find (\<lambda>s. bad s \<and> t' \<le> sm_dwell s) trace = Some x" "late = sm_ts x"
    by (auto simp: first_detection_def split: option.splits)
  from find_weaken [OF x(1), of "\<lambda>s. bad s \<and> t \<le> sm_dwell s"] assms(2) obtain pre y post
    where y: "find (\<lambda>s. bad s \<and> t \<le> sm_dwell s) trace = Some y" "trace = pre @ y # post"
      "x \<in> set (y # post)" by auto
  then have "sm_ts y \<le> sm_ts x" using assms(1) by (auto simp: sorted_append)
  with y(1) x(2) show ?thesis by (simp add: first_detection_def)
qed

lemma trace_loop_times:
  "trace_loop cfg snaps tracker = Inr tr \<Longrightarrow> map sm_ts tr = map sn_ts snaps"
  by (induction snaps arbitrary: tracker tr)
    (auto simp: Let_def case_prod_beta split: sum.splits)

lemma run_identifier_mono:
  assumes "sorted (map sn_ts (sc_snapshots scn))" and "t \<le> t'"
    and "run_identifier scn t cfg = Inr d" and "run_identifier scn t' cfg = Inr d'"
    and "dt_detected_ts d' = Some late"
  shows "\<exists>early. dt_detected_ts d = Some early \<and> early \<le> late"
proof -
  from assms(3) obtain tr where tr: "trace_loop cfg (sc_snapshots scn) dwell_init = Inr tr"
    and d: "d = first_detection t tr"
    by (auto simp: run_identifier_def identifier_trace_def split: sum.splits)
  with assms(4) have d': "d' = first_detection t' tr"
    by (simp add: run_identifier_def identifier_trace_def)
  have "chronological tr" using trace_loop_times [OF tr] assms(1) by simp
  from first_detection_mono [OF this assms(2)] assms(5) show ?thesis by (simp add: d d')
qed

subsection \<open>Counts and rates\<close>

lemma confusion_matrix_fold:
  "fold (\<lambda>(scn, d) cm truth detected.
      if truth = sc_truth_regime scn \<and> detected = detected_or_productive d
      then cm truth detected + 1 else cm truth detected) pairs cm r c =
   cm r c + count_if (\<lambda>(scn, d). r = sc_truth_regime scn \<and> c = detected_or_productive d) pairs"
proof (induction pairs arbitrary: cm)
  case (Cons p pairs)
  obtain scn d where p: "p = (scn, d)" by (cases p)
  show ?case unfolding p fold_simps prod.case Cons.IH by simp
qed simp

lemma confusion_matrix_count:
  "confusion_matrix pairs r c =
     count_if (\<lambda>(scn, d). r = sc_truth_regime scn \<and> c = detected_or_productive d) pairs"
  unfolding confusion_matrix_def by (subst confusion_matrix_fold) simp

lemma sum_indicator:
  "distinct xs \<Longrightarrow> a \<in> set xs \<Longrightarrow> (\<Sum>x\<leftarrow>xs. if x = a then f x else 0) = (f a :: nat)"
proof (induction xs)
  case (Cons x xs)
  have "(\<Sum>y\<leftarrow>xs. if y = a then f y else 0) = 0" if "a \<notin> set xs"
    using that by (induction xs) auto
  with Cons show ?case by auto
qed simp

lemma all_regimes_distinct: "distinct all_regimes"
  by (simp add: all_regimes_def)

lemma confusion_matrix_total:
  "(\<Sum>r\<leftarrow>all_regimes. \<Sum>c\<leftarrow>all_regimes. confusion_matrix pairs r c) = length pairs"
proof (induction pairs)
  case (Cons p pairs)
  obtain scn d where p: "p = (scn, d)" by (cases p)
  let ?hit = "\<lambda>r c. if r = sc_truth_regime scn then (if c = detected_or_productive d then 1 else 0) else 0 :: nat"
  have "confusion_matrix (p # pairs) r c = ?hit r c + confusion_matrix pairs r c" for r c
    by (simp add: confusion_matrix_count p)
  moreover have "(\<Sum>c\<leftarrow>all_regimes. ?hit r c) = (if r = sc_truth_regime scn then 1 else 0)" for r
    using sum_indicator [OF all_regimes_distinct all_regimes_complete, where f = "\<lambda>_. 1"] by simp
  then have "(\<Sum>r\<leftarrow>all_regimes. \<Sum>c\<leftarrow>all_regimes. ?hit r c) = 1"
    using sum_indicator [OF all_regimes_distinct all_regimes_complete, where f = "\<lambda>_. 1"] by simp
  ultimately show ?case using Cons.IH by (simp add: sum_list_addf)
qed (simp add: confusion_matrix_count)

lemma detection_latencies_count:
  "length (detection_latencies pairs) =
     count_if (\<lambda>(scn, d). in_window scn d) (filter (\<lambda>(scn, _). \<not> is_normal scn) pairs)"
  by (induction pairs) (auto simp: detection_latencies_def)

lemma percentile_90_total: "\<exists>x. percentile data 90 = Inr x"
proof (cases "length data < 2")
  case True
  then show ?thesis by (cases data; cases "tl data") (auto simp: percentile_def)
next
  case False
  then show ?thesis using percentile_value [of data 90] by simp
qed

lemma evaluate_total: "\<exists>m. evaluate choice pairs = Inr m"
proof -
  have "\<exists>p. p90 (detection_latencies pairs) = Inr p"
    using percentile_90_total [of "detection_latencies pairs"] by (auto simp: p90_def)
  then obtain p where "p90 (detection_latencies pairs) = Inr p" by blast
  then show ?thesis by (simp add: evaluate_def Let_def)
qed

lemma evaluate_counts:
  assumes "evaluate choice pairs = Inr m"
  shows "dm_n_tp m + dm_n_misses m = dm_n_struggle m"
    and "dm_n_struggle m + dm_n_normal m = length pairs"
    and "0 \<le> dm_recall m \<and> dm_recall m \<le> 1"
    and "dm_n_tp m = count_if (\<lambda>(scn, d). \<not> is_normal scn \<and> in_window scn d) pairs"
proof -
  let ?s = "filter (\<lambda>(scn, _). \<not> is_normal scn) pairs"
  have tp: "length (detection_latencies pairs) \<le> length ?s"
    unfolding detection_latencies_count by (rule count_if_le)
  from assms have m: "dm_n_tp m = length (detection_latencies pairs)" "dm_n_struggle m = length ?s"
    "dm_n_misses m = length ?s - length (detection_latencies pairs)"
    "dm_n_normal m = length (filter (\<lambda>(scn, _). is_normal scn) pairs)"
    "dm_recall m = (if length ?s \<noteq> 0 then real (length (detection_latencies pairs)) / real (length ?s) else 0)"
    by (auto simp: evaluate_def Let_def split: sum.splits)
  show "dm_n_tp m + dm_n_misses m = dm_n_struggle m" using tp by (simp add: m)
  show "dm_n_struggle m + dm_n_normal m = length pairs"
    unfolding m by (induction pairs) auto
  show "0 \<le> dm_recall m \<and> dm_recall m \<le> 1"
    unfolding m using ratio_le_1 [OF tp] by simp
  show "dm_n_tp m = count_if (\<lambda>(scn, d). \<not> is_normal scn \<and> in_window scn d) pairs"
    unfolding m by (induction pairs) (auto simp: detection_latencies_def)
qed

subsection \<open>The bootstrap interval\<close>

lemma median_range:
  assumes "xs \<noteq> []" and "\<forall>x \<in> set xs. lo \<le> x \<and> x \<le> hi"
  shows "lo \<le> median xs \<and> median xs \<le> hi"
proof -
  have nth: "lo \<le> sort xs ! i" "sort xs ! i \<le> hi" if "i < length xs" for i
    using assms(2) nth_mem [of i "sort xs"] that by simp_all
  have half: "length xs div 2 < length xs" using assms(1) by auto
  then have "length xs div 2 - 1 < length xs" by (rule le_less_trans [OF diff_le_self])
  note b = nth [OF half] nth [OF this]
  have "lo \<le> (x + y) / 2 \<and> (x + y) / 2 \<le> hi" if "lo \<le> x" "x \<le> hi" "lo \<le> y" "y \<le> hi" for x y :: real
    using that by simp
  with b show ?thesis unfolding median_def Let_def length_sort by presburger
qed

lemma bootstrap_range:
  assumes "bootstrap_ci choice values n = Some (lo, hi)" and "0 < n"
    and "\<forall>v \<in> set values. a \<le> v \<and> v \<le> b"
  shows "a \<le> lo \<and> lo \<le> hi \<and> hi \<le> b"
proof -
  let ?meds = "map (\<lambda>i. median (map (\<lambda>k. values ! (choice i k mod length values)) [0..<length values])) [0..<n]"
  let ?l = "nat \<lfloor>25 / 1000 * (real n - 1)\<rfloor>" and ?h = "min (n - 1) (nat \<lfloor>975 / 1000 * (real n - 1)\<rfloor>)"
  from assms(1) have len: "2 \<le> length values" and eq: "lo = sort ?meds ! ?l" "hi = sort ?meds ! ?h"
    by (auto simp: bootstrap_ci_def Let_def split: if_splits)
  have "0 < length values" using len by linarith
  have in_range: "\<forall>m \<in> set ?meds. a \<le> m \<and> m \<le> b"
  proof
    fix m assume "m \<in> set ?meds"
    then obtain i where "m = median (map (\<lambda>k. values ! (choice i k mod length values)) [0..<length values])"
      by auto
    moreover have "\<forall>x \<in> set (map (\<lambda>k. values ! (choice i k mod length values)) [0..<length values]). a \<le> x \<and> x \<le> b"
      using assms(3) \<open>0 < length values\<close> by simp
    ultimately show "a \<le> m \<and> m \<le> b"
      using median_range [of "map (\<lambda>k. values ! (choice i k mod length values)) [0..<length values]" a b]
        \<open>0 < length values\<close> by fastforce
  qed
  have "25 / 1000 * (real n - 1) \<le> real (n - 1)" "0 \<le> real n - 1" using assms(2) by (simp_all add: of_nat_diff)
  then have "\<lfloor>25 / 1000 * (real n - 1)\<rfloor> \<le> int (n - 1)" by linarith
  then have "?l \<le> n - 1" by (simp add: nat_le_iff)
  moreover have "?l \<le> nat \<lfloor>975 / 1000 * (real n - 1)\<rfloor>"
    using \<open>0 \<le> real n - 1\<close> by (intro nat_mono floor_mono mult_right_mono) simp_all
  ultimately have "?l \<le> n - 1" "?l \<le> nat \<lfloor>975 / 1000 * (real n - 1)\<rfloor>" by simp_all
  then have order: "?l \<le> ?h" "?h < n" using assms(2) by linarith+
  define l h ms where lh: "l = ?l" "h = ?h" and ms: "ms = sort ?meds"
  have "length ms = n" "sorted ms" "\<forall>m \<in> set ms. a \<le> m \<and> m \<le> b"
    using in_range by (simp_all add: ms)
  then have "ms ! l \<le> ms ! h" "ms ! l \<in> set ms" "ms ! h \<in> set ms"
    using order unfolding lh [symmetric] by (simp_all add: sorted_nth_mono)
  then show ?thesis
    using \<open>\<forall>m \<in> set ms. a \<le> m \<and> m \<le> b\<close> unfolding eq lh [symmetric] ms [symmetric] by blast
qed

subsection \<open>The least point of the curve\<close>

lemma least_J_spec: "least_J p ps \<in> set (p # ps) \<and> (\<forall>q \<in> set (p # ps). op_J (least_J p ps) \<le> op_J q)"
proof (induction ps arbitrary: p)
  case (Cons q qs)
  show ?case
  proof (cases "op_J q < op_J p")
    case True
    from Cons.IH [of q] have "op_J (least_J q qs) \<le> op_J q" by simp
    with True have "op_J (least_J q qs) \<le> op_J p" by simp
    with True Cons.IH [of q] show ?thesis by simp
  next
    case False
    from Cons.IH [of p] have "op_J (least_J p qs) \<le> op_J p" by simp
    with False have "op_J (least_J p qs) \<le> op_J q" by simp
    with False Cons.IH [of p] show ?thesis by auto
  qed
qed simp

subsection \<open>The synthetic fixture\<close>

lemma synthetic_wf: "features_wf (synthetic_features i r fired)"
  by (auto simp: features_wf_def synthetic_features_def benign_features_def Let_def
      split: ProcessRegime.split StruggleType.split)

lemma synthetic_detect:
  "case detect_struggle (synthetic_features i (Struggling t) fired) default_la_config of
     Inl _ \<Rightarrow> False | Inr (t', _) \<Rightarrow> t' = (if fired then Some t else None)"
  by (cases t; cases fired)
    (simp_all add: detect_struggle_def STRUGGLE_RULES_def synthetic_features_def benign_features_def
      default_la_config_def Let_def)

definition identifies :: "la_config \<Rightarrow> snapshot \<Rightarrow> ProcessRegime \<Rightarrow> bool" where
  "identifies cfg snap r \<longleftrightarrow>
     (case identify_regime (sn_features snap) cfg of Inl _ \<Rightarrow> False | Inr a \<Rightarrow> analysis_to_regime a = r)"

lemma synthetic_identifies:
  assumes "sn_features snap = synthetic_features i (Struggling t) fired"
  shows "identifies default_la_config snap (if fired then Struggling t else PRODUCTIVE)"
proof -
  have "- 2 < error_repeat_threshold default_la_config" by (simp add: default_la_config_def)
  from identify_regime_total [OF synthetic_wf this] obtain a where
    a: "identify_regime (synthetic_features i (Struggling t) fired) default_la_config = Inr a" by blast
  from synthetic_detect [where i = i and t = t and fired = fired] identify_regime_fields(1,4) [OF a]
  have "analysis_to_regime a = (if fired then Struggling t else PRODUCTIVE)"
    by (auto simp: analysis_to_regime_def)
  with a show ?thesis by (simp add: identifies_def assms)
qed

lemma trace_loop_total:
  assumes "\<forall>s \<in> set snaps. \<exists>r. identifies cfg s r"
  shows "\<exists>tr. trace_loop cfg snaps tracker = Inr tr"
  using assms
proof (induction snaps arbitrary: tracker)
  case (Cons s snaps)
  then obtain a where a: "identify_regime (sn_features s) cfg = Inr a"
    by (cases "identify_regime (sn_features s) cfg") (auto simp: identifies_def)
  from Cons obtain tr where "trace_loop cfg snaps
      (snd (observe (analysis_to_regime a) (EPOCH + timedelta (sn_ts s)) tracker)) = Inr tr" by force
  with a show ?case by (simp add: Let_def case_prod_beta)
qed simp

text \<open>A run of productive snapshots, then a bad one: that one is what is detected.\<close>

lemma trace_loop_first:
  assumes "\<forall>s \<in> set pre. identifies cfg s PRODUCTIVE" and "identifies cfg x r" and "is_bad r"
    and "\<forall>s \<in> set post. \<exists>r. identifies cfg s r"
    and "\<forall>r' t. tracker = Some (r', t) \<longrightarrow> r' = PRODUCTIVE"
  shows "\<exists>tr. trace_loop cfg (pre @ x # post) tracker = Inr tr \<and>
    find (\<lambda>s. bad s \<and> 0 \<le> sm_dwell s) tr =
      Some \<lparr>sm_ts = sn_ts x, sm_regime = regime_value r, sm_dwell = 0\<rparr>"
  using assms(1,5)
proof (induction pre arbitrary: tracker)
  case Nil
  from assms(2) obtain a where a: "identify_regime (sn_features x) cfg = Inr a" "analysis_to_regime a = r"
    by (auto simp: identifies_def split: sum.splits)
  let ?o = "observe r (EPOCH + timedelta (sn_ts x)) tracker"
  obtain tr where "trace_loop cfg post (snd ?o) = Inr tr" using trace_loop_total [OF assms(4)] by blast
  moreover have "fst ?o = 0"
    using Nil(2) assms(3) by (auto simp: observe_def is_bad_def split: option.split)
  ultimately show ?case using a assms(3) by (simp add: Let_def case_prod_beta bad_regime_value)
next
  case (Cons s pre)
  from Cons.prems(1) obtain a where a: "identify_regime (sn_features s) cfg = Inr a"
    "analysis_to_regime a = PRODUCTIVE" by (auto simp: identifies_def split: sum.splits)
  let ?o = "observe PRODUCTIVE (EPOCH + timedelta (sn_ts s)) tracker"
  have "\<forall>r' t. snd ?o = Some (r', t) \<longrightarrow> r' = PRODUCTIVE"
    using Cons.prems(2) by (auto simp: observe_def split: option.split)
  with Cons.IH [of "snd ?o"] Cons.prems(1) obtain tr where
    "trace_loop cfg (pre @ x # post) (snd ?o) = Inr tr"
    "find (\<lambda>s. bad s \<and> 0 \<le> sm_dwell s) tr =
      Some \<lparr>sm_ts = sn_ts x, sm_regime = regime_value r, sm_dwell = 0\<rparr>" by auto
  with a show ?case by (simp add: Let_def case_prod_beta bad_regime_value is_bad_def)
qed

lemma struggle_scenario_detected:
  assumes "onset + delay < n"
  shows "run_identifier (make_struggle_scenario (Struggling t) onset n step window src delay) 0
      default_la_config =
    Inr \<lparr>dt_detected = True, dt_detected_ts = Some (real (onset + delay) * step),
      dt_detected_regime = Some (Struggling t)\<rparr>"
proof -
  let ?snap = "\<lambda>i. \<lparr>sn_ts = real i * step,
    sn_features = synthetic_features i (Struggling t) (onset + delay \<le> i)\<rparr>"
  have split: "[0..<n] = [0..<onset + delay] @ (onset + delay) # [Suc (onset + delay)..<n]"
    using assms upt_add_eq_append [of 0 "onset + delay" "n - (onset + delay)"] by (simp add: upt_conv_Cons)
  have ident: "identifies default_la_config (?snap i)
      (if onset + delay \<le> i then Struggling t else PRODUCTIVE)" for i
    by (rule synthetic_identifies) simp
  have "\<exists>tr. trace_loop default_la_config (map ?snap [0..<onset + delay] @ ?snap (onset + delay) #
      map ?snap [Suc (onset + delay)..<n]) dwell_init = Inr tr \<and>
    find (\<lambda>s. bad s \<and> 0 \<le> sm_dwell s) tr =
      Some \<lparr>sm_ts = sn_ts (?snap (onset + delay)), sm_regime = regime_value (Struggling t), sm_dwell = 0\<rparr>"
  proof (rule trace_loop_first)
    show "\<forall>s \<in> set (map ?snap [0..<onset + delay]). identifies default_la_config s PRODUCTIVE"
    proof
      fix s assume "s \<in> set (map ?snap [0..<onset + delay])"
      then obtain i where "i < onset + delay" "s = ?snap i" by auto
      with ident [of i] show "identifies default_la_config s PRODUCTIVE" by simp
    qed
    show "identifies default_la_config (?snap (onset + delay)) (Struggling t)"
      using ident [of "onset + delay"] by simp
    show "\<forall>s \<in> set (map ?snap [Suc (onset + delay)..<n]). \<exists>r. identifies default_la_config s r"
    proof
      fix s assume "s \<in> set (map ?snap [Suc (onset + delay)..<n])"
      then obtain i where "s = ?snap i" unfolding set_map by (rule imageE)
      with ident [of i] show "\<exists>r. identifies default_la_config s r" by blast
    qed
  qed (simp_all add: is_bad_def dwell_init_def)
  then obtain tr where tr: "trace_loop default_la_config (map ?snap [0..<n]) dwell_init = Inr tr"
    "find (\<lambda>s. bad s \<and> 0 \<le> sm_dwell s) tr =
      Some \<lparr>sm_ts = real (onset + delay) * step, sm_regime = regime_value (Struggling t), sm_dwell = 0\<rparr>"
    unfolding split by auto
  then show ?thesis
    using regime_of_value_roundtrip [of "Struggling t"]
    by (simp add: run_identifier_def identifier_trace_def make_struggle_scenario_def Let_def
        first_detection_def)
qed

subsection \<open>Agreement\<close>

lemma kappa_parts:
  fixes a b :: "string list"
  assumes "length a = length b" and "a \<noteq> []"
  defines "p \<equiv> \<lambda>xs c. real (count_list xs c) / real (length a)"
  shows "(\<Sum>c\<leftarrow>remdups (a @ b). p a c * p b c) \<le> 1"
    and "(\<Sum>c\<leftarrow>remdups (a @ b). p a c * p b c) = 1 \<Longrightarrow> a = b"
proof -
  let ?C = "set (a @ b)"
  have n: "0 < real (length a)" using assms(2) by simp
  have range: "0 \<le> p xs c \<and> p xs c \<le> 1" if "length xs = length a" for xs c
    using count_le_length [of xs c] that n by (simp add: p_def divide_le_eq)
  have one: "(\<Sum>c \<in> ?C. p xs c) = 1" if "length xs = length a" "set xs \<subseteq> ?C" for xs
  proof -
    have "(\<Sum>c \<in> ?C. real (count_list xs c)) = real (length xs)"
      using sum_count_set [OF that(2)] by (metis List.finite_set of_nat_sum)
    then show ?thesis using that(1) n by (simp add: p_def sum_divide_distrib [symmetric])
  qed
  have eq: "(\<Sum>c\<leftarrow>remdups (a @ b). p a c * p b c) = (\<Sum>c \<in> ?C. p a c * p b c)"
    by (subst sum_list_distinct_conv_sum_set) simp_all
  have le: "p a c * p b c \<le> p a c" for c
    using range [of a c] range [of b c] assms(1) by (simp add: mult_left_le)
  show "(\<Sum>c\<leftarrow>remdups (a @ b). p a c * p b c) \<le> 1"
    unfolding eq using sum_mono [of ?C "\<lambda>c. p a c * p b c" "p a"] le one [of a] by simp
  show "a = b" if "(\<Sum>c\<leftarrow>remdups (a @ b). p a c * p b c) = 1"
  proof -
    have "(\<Sum>c \<in> ?C. p a c - p a c * p b c) = 0"
      using that one [of a] unfolding eq by (simp add: sum_subtractf)
    moreover have "0 \<le> p a c - p a c * p b c" for c using le by simp
    ultimately have "\<forall>c \<in> ?C. p a c - p a c * p b c = 0"
      using sum_nonneg_eq_0_iff [of ?C "\<lambda>c. p a c - p a c * p b c"] by blast
    then have all: "p b c = 1" if "c \<in> set a" for c
    proof -
      have "p a c \<noteq> 0" using that n count_list_0_iff [of a c] by (simp add: p_def)
      moreover have "p a c - p a c * p b c = 0" using \<open>\<forall>c \<in> ?C. p a c - p a c * p b c = 0\<close> that by simp
      then have "p a c * (1 - p b c) = 0" by (simp add: algebra_simps)
      ultimately show ?thesis by simp
    qed
    have b: "\<forall>x \<in> set b. x = c" if "c \<in> set a" for c
    proof -
      have "count_list b c = length b" using all [OF that] n assms(1) by (simp add: p_def)
      then have "length (filter ((=) c) b) = length b" by (simp add: count_list_eq_length_filter)
      then show ?thesis using length_filter_less [of _ b "(=) c"] by fastforce
    qed
    have "b \<noteq> []" using assms(1,2) by (metis length_0_conv)
    then have h: "hd a \<in> set a" "hd b \<in> set b" using assms(2) by simp_all
    have "c = hd b" if "c \<in> set a" for c using bspec [OF b [OF that] h(2)] by simp
    then have "\<forall>c \<in> set a. c = hd b" ..
    then have "replicate (length a) (hd b) = a" by (rule replicate_length_same)
    moreover have "x = hd b" if "x \<in> set b" for x
      using bspec [OF b [OF h(1)] that] bspec [OF b [OF h(1)] h(2)] by simp
    then have "\<forall>x \<in> set b. x = hd b" ..
    then have "replicate (length b) (hd b) = b" by (rule replicate_length_same)
    ultimately show ?thesis using assms(1) by metis
  qed
qed

lemma observed_agreement:
  assumes "length a = length b" and "a \<noteq> []"
  shows "real (count_if (\<lambda>(x, y). x = y) (zip a b)) / real (length a) \<le> 1"
    and "real (count_if (\<lambda>(x, y). x = y) (zip a b)) / real (length a) = 1 \<longleftrightarrow> a = b"
proof -
  have le: "count_if (\<lambda>(x, y). x = y) (zip a b) \<le> length a"
    using count_if_le [of "\<lambda>(x, y). x = y" "zip a b"] assms(1) by simp
  then show "real (count_if (\<lambda>(x, y). x = y) (zip a b)) / real (length a) \<le> 1" by (rule ratio_le_1)
  have all: "count_if (\<lambda>(x, y). x = y) (zip a b) = length a \<longleftrightarrow> a = b"
    using assms(1)
  proof (induction a b rule: list_induct2)
    case (Cons x xs y ys)
    have "count_if (\<lambda>(x, y). x = y) (zip xs ys) \<le> length xs"
      using count_if_le [of "\<lambda>(x, y). x = y" "zip xs ys"] Cons.hyps by simp
    with Cons.IH show ?case by auto
  qed simp
  show "real (count_if (\<lambda>(x, y). x = y) (zip a b)) / real (length a) = 1 \<longleftrightarrow> a = b"
    unfolding all [symmetric] using assms(2) by auto
qed

lemma kappa_max:
  assumes "length a = length b" and "a \<noteq> []"
  shows "cohens_kappa a b \<le> 1" and "cohens_kappa a b = 1 \<longleftrightarrow> a = b"
proof -
  define po where "po = real (count_if (\<lambda>(x, y). x = y) (zip a b)) / real (length a)"
  define pe where "pe = (\<Sum>c\<leftarrow>remdups (a @ b).
    (real (count_list a c) / real (length a)) * (real (count_list b c) / real (length a)))"
  have k: "cohens_kappa a b = (if 1 - pe = 0 then 1 else (po - pe) / (1 - pe))"
    using assms unfolding cohens_kappa_def po_def pe_def Let_def by simp
  have po: "po \<le> 1" "po = 1 \<longleftrightarrow> a = b" unfolding po_def by (rule observed_agreement [OF assms])+
  have pe: "pe \<le> 1" "pe = 1 \<Longrightarrow> a = b" unfolding pe_def using kappa_parts [OF assms] by blast+
  show "cohens_kappa a b \<le> 1" unfolding k using po(1) pe(1) by (auto simp: divide_le_eq)
  show "cohens_kappa a b = 1 \<longleftrightarrow> a = b"
    unfolding k po(2) [symmetric] using pe po by (auto simp: divide_eq_eq)
qed

end
