(* ===== verification/Cohort.thy ===== *)
theory Cohort
  imports Prelude
begin

text \<open>
  Cohort metrics (\<open>analytics/cohort/metrics.py\<close>): the Kaplan-Meier curve of the time to competence,
  its median, the reach rate and the restricted mean, and their aggregation over skills and arms.
\<close>

subsection \<open>The survival curve\<close>

fun survival_loop :: "(real \<times> bool) list \<Rightarrow> real list \<Rightarrow> int \<Rightarrow> real \<Rightarrow> (real \<times> real) list" where
  "survival_loop paired [] n_at_risk surv = []"
| "survival_loop paired (t # ts) n_at_risk surv =
     (let d_i = count_if (\<lambda>(tt, ev). tt = t \<and> ev) paired;
          c_i = count_if (\<lambda>(tt, ev). tt = t) paired;
          surv' = (if 0 < n_at_risk \<and> 0 < d_i
            then surv * (1 - real d_i / real_of_int n_at_risk) else surv)
      in (t, surv') # survival_loop paired ts (n_at_risk - int c_i) surv')"

definition survival_steps :: "real list \<Rightarrow> bool list \<Rightarrow> (real \<times> real) list" where
  "survival_steps durations events =
     (if durations = [] then []
      else let paired = sort_key fst (zip durations events)
           in survival_loop paired (sort (remdups (map fst paired))) (int (length paired)) 1)"

definition kaplan_meier_median :: "real list \<Rightarrow> bool list \<Rightarrow> real option \<Rightarrow> real option" where
  "kaplan_meier_median durations events reach_rate =
     (if events = [] then None
      else
        let r = (case reach_rate of Some r \<Rightarrow> r
              | None \<Rightarrow> real (count_if (\<lambda>e. e) events) / real (length events))
        in if r < 1 / 2 then None
           else map_option fst (find (\<lambda>(t, s). s < 1 / 2) (survival_steps durations events)))"

fun survival_at :: "real \<Rightarrow> (real \<times> real) list \<Rightarrow> real \<Rightarrow> real" where
  "survival_at horizon [] surv = surv"
| "survival_at horizon ((t, s) # steps) surv =
     (if t \<le> horizon then survival_at horizon steps s else surv)"

definition reach_rate_at :: "real list \<Rightarrow> bool list \<Rightarrow> real \<Rightarrow> real" where
  "reach_rate_at durations events horizon =
     (let steps = survival_steps durations events
      in if steps = [] then 0 else 1 - survival_at horizon steps 1)"

fun area_loop :: "real \<Rightarrow> (real \<times> real) list \<Rightarrow> real \<Rightarrow> real \<Rightarrow> real \<Rightarrow> real" where
  "area_loop horizon [] area prev_t prev_s = area + prev_s * (horizon - prev_t)"
| "area_loop horizon ((t, s) # steps) area prev_t prev_s =
     (let seg_t = min t horizon; area' = area + prev_s * (seg_t - prev_t)
      in if horizon \<le> t then area' else area_loop horizon steps area' seg_t s)"

definition restricted_mean :: "real list \<Rightarrow> bool list \<Rightarrow> real \<Rightarrow> real" where
  "restricted_mean durations events horizon =
     (let steps = survival_steps durations events
      in if steps = [] then 0 else area_loop horizon steps 0 0 1)"

subsection \<open>Learner outcomes\<close>

record learner_outcome =
  lo_user_id :: string
  lo_skill :: string
  lo_arm :: "string option"
  lo_reached_l2 :: bool
  lo_time_to_l2 :: "real option"
  lo_active :: "real option"
  lo_sessions_to_l2 :: "int option"
  lo_l1_interventions :: int
  lo_l2_interventions :: "int option"
  lo_l1_escalations :: int
  lo_l2_escalations :: "int option"
  lo_l1_repeated_errors :: int
  lo_l2_repeated_errors :: "int option"
  lo_observation :: real
  lo_censored :: bool

record time_to_competence =
  tc_median_calendar :: "real option"
  tc_median_active :: "real option"
  tc_reach_rate :: real
  tc_reach_rate_at_horizon :: real
  tc_restricted_mean :: real
  tc_n :: nat
  tc_censored :: nat

text \<open>The pairs the curve is built from; a reached outcome without a time is left out.\<close>

definition outcome_pair :: "bool \<Rightarrow> learner_outcome \<Rightarrow> (real \<times> bool) option" where
  "outcome_pair active r =
     (if lo_reached_l2 r
      then map_option (\<lambda>v. (v, True)) (if active then lo_active r else lo_time_to_l2 r)
      else Some (lo_observation r, False))"

definition durations_events :: "learner_outcome list \<Rightarrow> bool \<Rightarrow> real list \<times> bool list" where
  "durations_events records active =
     (let ps = List.map_filter (outcome_pair active) records in (map fst ps, map snd ps))"

definition time_to_competence_of :: "learner_outcome list \<Rightarrow> real \<Rightarrow> time_to_competence" where
  "time_to_competence_of records horizon =
     (let n = length records;
          (cal_d, cal_e) = durations_events records False;
          (act_d, act_e) = durations_events records True;
          reached = count_if lo_reached_l2 records;
          reach = (if n \<noteq> 0 then real reached / real n else 0)
      in \<lparr>tc_median_calendar = kaplan_meier_median cal_d cal_e (Some reach),
          tc_median_active = kaplan_meier_median act_d act_e (Some reach),
          tc_reach_rate = reach,
          tc_reach_rate_at_horizon = reach_rate_at cal_d cal_e horizon,
          tc_restricted_mean = restricted_mean cal_d cal_e horizon,
          tc_n = n,
          tc_censored = count_if (\<lambda>r. \<not> lo_reached_l2 r) records\<rparr>)"

definition mean_of :: "real list \<Rightarrow> real option" where
  "mean_of vals = (if vals = [] then None else Some (sum_list vals / real (length vals)))"

text \<open>\<open>_mean(...) or 0.0\<close>, and the mean over the recorded values of the reached.\<close>

definition mean_or_0 :: "real list \<Rightarrow> real" where
  "mean_or_0 vals = (case mean_of vals of None \<Rightarrow> 0 | Some m \<Rightarrow> m)"

definition l2_mean :: "(learner_outcome \<Rightarrow> int option) \<Rightarrow> learner_outcome list \<Rightarrow> real option" where
  "l2_mean f records =
     mean_of (map real_of_int (List.map_filter f (filter lo_reached_l2 records)))"

record autonomy_metrics =
  am_mean_l1_interventions :: real
  am_mean_l2_interventions :: "real option"
  am_mean_sessions_to_l2 :: "real option"

definition autonomy_metrics_of :: "learner_outcome list \<Rightarrow> autonomy_metrics" where
  "autonomy_metrics_of records =
     \<lparr>am_mean_l1_interventions = mean_or_0 (map (real_of_int \<circ> lo_l1_interventions) records),
      am_mean_l2_interventions = l2_mean lo_l2_interventions records,
      am_mean_sessions_to_l2 = l2_mean lo_sessions_to_l2 records\<rparr>"

record org_effect_trend =
  ot_l1_escalations :: real
  ot_l2_escalations :: "real option"
  ot_l1_repeated_errors :: real
  ot_l2_repeated_errors :: "real option"

definition org_effect_trend_of :: "learner_outcome list \<Rightarrow> org_effect_trend" where
  "org_effect_trend_of records =
     \<lparr>ot_l1_escalations = mean_or_0 (map (real_of_int \<circ> lo_l1_escalations) records),
      ot_l2_escalations = l2_mean lo_l2_escalations records,
      ot_l1_repeated_errors = mean_or_0 (map (real_of_int \<circ> lo_l1_repeated_errors) records),
      ot_l2_repeated_errors = l2_mean lo_l2_repeated_errors records\<rparr>"

record cohort_cell =
  cc_skill :: "string option"
  cc_arm :: "string option"
  cc_n :: nat
  cc_time :: time_to_competence
  cc_autonomy :: autonomy_metrics
  cc_org_effect :: org_effect_trend

definition cell :: "learner_outcome list \<Rightarrow> real \<Rightarrow> string option \<Rightarrow> string option \<Rightarrow> cohort_cell" where
  "cell records horizon skill arm =
     \<lparr>cc_skill = skill, cc_arm = arm, cc_n = length records,
      cc_time = time_to_competence_of records horizon,
      cc_autonomy = autonomy_metrics_of records, cc_org_effect = org_effect_trend_of records\<rparr>"

record cohort =
  co_by_skill :: "cohort_cell list"
  co_pooled :: cohort_cell
  co_by_arm :: "cohort_cell list option"
  co_headline_arm :: string

definition aggregate_cohort :: "learner_outcome list \<Rightarrow> real \<Rightarrow> bool \<Rightarrow> cohort" where
  "aggregate_cohort records horizon by_arm =
     \<lparr>co_by_skill = map (\<lambda>skill. cell (filter (\<lambda>r. lo_skill r = skill) records) horizon (Some skill) None)
        (sort (remdups (map lo_skill records))),
      co_pooled = cell records horizon None None,
      co_by_arm = (if by_arm
        then Some (map (\<lambda>arm. cell (filter (\<lambda>r. lo_arm r = Some arm) records) horizon None (Some arm))
               (sort (remdups (List.map_filter (\<lambda>r. if truthy (lo_arm r) then lo_arm r else None) records))))
        else None),
      co_headline_arm = ''closed''\<rparr>"

record retention_metric =
  rm_retest_count :: nat
  rm_retest_pass_rate :: "real option"

definition retention_metric_of :: "bool list \<Rightarrow> retention_metric" where
  "retention_metric_of retests =
     (let n = length retests
      in \<lparr>rm_retest_count = n,
          rm_retest_pass_rate = (if n \<noteq> 0 then Some (real (count_if (\<lambda>x. x) retests) / real n)
            else None)\<rparr>)"

end
