(* ===== verification/Cohort_Facts.thy ===== *)
theory Cohort_Facts
  imports Cohort
begin

text \<open>
  The survival curve against its textbook reading: it falls from one towards zero, and without
  censoring it is the plain fraction of learners still under way, so that the reach rate, the median
  and the restricted mean are the empirical ones.
\<close>

subsection \<open>What remains at risk\<close>

text \<open>The loop runs over distinct times; at every point the counter is the number of pairs ahead.\<close>

definition ahead :: "(real \<times> bool) list \<Rightarrow> real list \<Rightarrow> nat" where
  "ahead paired ts = count_if (\<lambda>p. fst p \<in> set ts) paired"

lemma ahead_Cons:
  "t \<notin> set ts \<Longrightarrow> ahead paired (t # ts) = count_if (\<lambda>(tt, ev). tt = t) paired + ahead paired ts"
  unfolding ahead_def by (induction paired) (auto split: prod.split)

lemma exits_le: "count_if (\<lambda>(tt, ev). tt = t \<and> ev) paired \<le> count_if (\<lambda>(tt, ev). tt = t) paired"
  by (rule count_if_mono) auto

lemma ahead_all: "ahead paired (sort (remdups (map fst paired))) = length paired"
  unfolding ahead_def count_if_def by (simp add: filter_id_conv)

lemma survival_loop_times: "map fst (survival_loop paired ts n s) = ts"
  by (induction ts arbitrary: n s) (simp_all add: Let_def)

text \<open>One drop of the curve keeps it between zero and where it was.\<close>

lemma survival_drop:
  assumes "0 \<le> (s :: real)" and "d \<le> n"
  shows "0 \<le> (if 0 < int n \<and> 0 < d then s * (1 - real d / real_of_int (int n)) else s)"
    and "(if 0 < int n \<and> 0 < d then s * (1 - real d / real_of_int (int n)) else s) \<le> s"
proof -
  have "0 \<le> 1 - real d / real n" "1 - real d / real n \<le> 1"
    using assms(2) by (simp_all add: divide_le_eq)
  with assms(1) show "0 \<le> (if 0 < int n \<and> 0 < d then s * (1 - real d / real_of_int (int n)) else s)"
    and "(if 0 < int n \<and> 0 < d then s * (1 - real d / real_of_int (int n)) else s) \<le> s"
    by (auto intro: mult_left_le)
qed

lemma survival_loop_step:
  assumes "t \<notin> set ts"
    and "s' = (let d = count_if (\<lambda>(tt, ev). tt = t \<and> ev) paired; n = int (ahead paired (t # ts))
      in if 0 < n \<and> 0 < d then s * (1 - real d / real_of_int n) else s)"
  shows "survival_loop paired (t # ts) (int (ahead paired (t # ts))) s =
    (t, s') # survival_loop paired ts (int (ahead paired ts)) s'"
  unfolding assms(2) by (simp add: Let_def ahead_Cons [OF assms(1)])

lemma survival_loop_bounds:
  assumes "distinct ts" and "0 \<le> s"
  shows "(\<forall>y \<in> set (map snd (survival_loop paired ts (int (ahead paired ts)) s)). 0 \<le> y \<and> y \<le> s) \<and>
    sorted_wrt (\<ge>) (map snd (survival_loop paired ts (int (ahead paired ts)) s))"
  using assms
proof (induction ts arbitrary: s)
  case (Cons t ts)
  let ?d = "count_if (\<lambda>(tt, ev). tt = t \<and> ev) paired" and ?n = "ahead paired (t # ts)"
  let ?s = "if 0 < int ?n \<and> 0 < ?d then s * (1 - real ?d / real_of_int (int ?n)) else s"
  let ?rest = "survival_loop paired ts (int (ahead paired ts)) ?s"
  have t: "t \<notin> set ts" using Cons.prems(1) by simp
  have eq: "survival_loop paired (t # ts) (int ?n) s = (t, ?s) # ?rest"
    by (rule survival_loop_step [OF t]) (simp only: Let_def)
  have "?d \<le> ?n" using exits_le [of t paired] ahead_Cons [OF t, of paired] by simp
  note s = survival_drop [OF Cons.prems(2) this]
  have "(\<forall>y \<in> set (map snd ?rest). 0 \<le> y \<and> y \<le> ?s) \<and> sorted_wrt (\<ge>) (map snd ?rest)"
    using Cons.prems by (intro Cons.IH s(1)) simp
  with s show ?case unfolding eq by (auto intro: order_trans)
qed simp

lemma survival_steps_bounds:
  "list_all (\<lambda>y. 0 \<le> y \<and> y \<le> 1) (map snd (survival_steps durations events))"
  "sorted_wrt (\<ge>) (map snd (survival_steps durations events))"
  "sorted_wrt (<) (map fst (survival_steps durations events))"
proof -
  let ?p = "sort_key fst (zip durations events)"
  let ?ts = "sort (remdups (map fst ?p))"
  have d: "distinct ?ts" by simp
  from survival_loop_bounds [OF d, of 1 ?p] ahead_all [of ?p]
  show "list_all (\<lambda>y. 0 \<le> y \<and> y \<le> 1) (map snd (survival_steps durations events))"
    "sorted_wrt (\<ge>) (map snd (survival_steps durations events))"
    by (simp_all add: survival_steps_def Let_def list_all_iff)
  have "sorted_wrt (<) ?ts" using d unfolding strict_sorted_iff by simp
  then show "sorted_wrt (<) (map fst (survival_steps durations events))"
    by (simp add: survival_steps_def Let_def survival_loop_times)
qed

subsection \<open>Without censoring\<close>

text \<open>Every pair is an event: one step takes the share still ahead to the share ahead after it.\<close>

lemma uncensored_step:
  assumes "t \<notin> set ts" and "\<forall>p \<in> set paired. snd p" and "0 < (N :: real)"
  shows "survival_loop paired (t # ts) (int (ahead paired (t # ts))) (real (ahead paired (t # ts)) / N) =
    (t, real (ahead paired ts) / N) #
      survival_loop paired ts (int (ahead paired ts)) (real (ahead paired ts) / N)"
proof (rule survival_loop_step [OF assms(1)])
  let ?d = "count_if (\<lambda>(tt, ev). tt = t \<and> ev) paired" and ?n = "ahead paired (t # ts)"
  have "?d = count_if (\<lambda>(tt, ev). tt = t) paired"
    unfolding count_if_def by (intro arg_cong [of _ _ length] filter_cong) (use assms(2) in auto)
  then have n: "?n = ?d + ahead paired ts" using ahead_Cons [OF assms(1), of paired] by simp
  show "real (ahead paired ts) / N = (let d = ?d; n = int ?n
      in if 0 < n \<and> 0 < d then real ?n / N * (1 - real d / real_of_int n) else real ?n / N)"
  proof (cases "0 < ?d")
    case True
    with n have "1 - real ?d / real ?n = real (ahead paired ts) / real ?n" "0 < ?n"
      by (simp_all add: field_simps)
    with True assms(3) show ?thesis by (simp add: Let_def)
  next
    case False
    with n show ?thesis by (simp add: Let_def)
  qed
qed

text \<open>A pair is either still ahead or behind every time the loop has left.\<close>

definition split_by :: "(real \<times> bool) list \<Rightarrow> real list \<Rightarrow> bool" where
  "split_by paired ts \<longleftrightarrow>
     (\<forall>p \<in> set paired. fst p \<in> set ts \<or> (\<forall>t \<in> set ts. fst p < t)) \<and> sorted_wrt (<) ts"

lemma split_by_tail: "split_by paired (t # ts) \<Longrightarrow> split_by paired ts \<and> t \<notin> set ts"
  by (auto simp: split_by_def)

lemma ahead_beyond:
  assumes "split_by paired (t # ts)"
  shows "ahead paired ts = count_if (\<lambda>p. t < fst p) paired"
proof -
  have "fst p \<in> set ts \<longleftrightarrow> t < fst p" if "p \<in> set paired" for p
    using assms that unfolding split_by_def by fastforce
  then show ?thesis unfolding ahead_def count_if_def by (metis (mono_tags, lifting) filter_cong)
qed

lemma uncensored_loop:
  assumes "split_by paired ts" and "\<forall>p \<in> set paired. snd p" and "0 < N"
  shows "survival_loop paired ts (int (ahead paired ts)) (real (ahead paired ts) / N) =
    map (\<lambda>t. (t, real (count_if (\<lambda>p. t < fst p) paired) / N)) ts"
  using assms(1)
proof (induction ts)
  case (Cons t ts)
  from split_by_tail [OF Cons.prems] have tl: "split_by paired ts" "t \<notin> set ts" by simp_all
  from uncensored_step [OF tl(2) assms(2,3)] Cons.IH [OF tl(1)] ahead_beyond [OF Cons.prems]
  show ?case by simp
qed simp

definition times_of :: "(real \<times> bool) list \<Rightarrow> real list" where
  "times_of paired = sort (remdups (map fst paired))"

lemma split_by_times: "split_by paired (times_of paired)"
proof -
  have "sorted_wrt (<) (times_of paired)" unfolding times_of_def strict_sorted_iff by simp
  then show ?thesis by (simp add: split_by_def times_of_def)
qed

lemma survival_steps_uncensored:
  assumes "length ds = length es" and "list_all (\<lambda>e. e) es" and "ds \<noteq> []"
  shows "survival_steps ds es =
    map (\<lambda>t. (t, real (count_if (\<lambda>d. t < d) ds) / real (length ds))) (sort (remdups ds))"
proof -
  let ?p = "sort_key fst (zip ds es)"
  have all: "\<forall>p \<in> set ?p. snd p" using assms(2) by (auto simp: list_all_iff dest: set_zip_rightD)
  have "mset (map fst ?p) = mset (map fst (zip ds es))" by simp
  then have ms: "mset (map fst ?p) = mset ds" using assms(1) by (simp del: mset_map)
  have cnt: "count_if (\<lambda>p. t < fst p) ?p = count_if (\<lambda>d. t < d) ds" for t
  proof -
    have "size (filter_mset ((<) t) (mset (map fst ?p))) = size (filter_mset ((<) t) (mset ds))"
      unfolding ms by simp
    then show ?thesis
      by (simp add: count_if_def filter_map comp_def mset_filter [symmetric] del: mset_filter mset_map)
  qed
  have ts: "times_of ?p = sort (remdups ds)"
    using mset_eq_setD [OF ms] unfolding times_of_def sorted_list_of_set_sort_remdups [symmetric] by simp
  have "survival_steps ds es = survival_loop ?p (times_of ?p) (int (length ?p)) 1"
    using assms(3) by (simp add: survival_steps_def Let_def times_of_def)
  also have "\<dots> = survival_loop ?p (times_of ?p) (int (ahead ?p (times_of ?p)))
      (real (ahead ?p (times_of ?p)) / real (length ds))"
    using assms(1,3) by (simp add: times_of_def ahead_all)
  also have "\<dots> = map (\<lambda>t. (t, real (count_if (\<lambda>p. t < fst p) ?p) / real (length ds))) (times_of ?p)"
    using assms(3) by (intro uncensored_loop split_by_times all) simp
  finally show ?thesis unfolding cnt ts .
qed

subsection \<open>The empirical reach rate, median and mean\<close>

lemma sum_map_sort_zip:
  assumes "length ds = length es"
  shows "(\<Sum>p\<leftarrow>sort_key fst (zip ds es). f (fst p)) = (\<Sum>d\<leftarrow>ds. f d :: real)"
proof -
  have "mset (map f (map fst (sort_key fst (zip ds es)))) = mset (map f (map fst (zip ds es)))" by simp
  then have "sum_mset (mset (map f (map fst (sort_key fst (zip ds es))))) =
      sum_mset (mset (map f (map fst (zip ds es))))" by (rule arg_cong)
  with assms show ?thesis unfolding sum_mset_sum_list by (simp add: comp_def)
qed

lemma count_sum: "real (count_if P xs) = (\<Sum>x\<leftarrow>xs. of_bool (P x))"
  by (induction xs) simp_all

lemma survival_at_uncensored:
  assumes "split_by paired ts"
  shows "survival_at h (map (\<lambda>t. (t, real (count_if (\<lambda>p. t < fst p) paired) / N)) ts)
      (real (ahead paired ts) / N) =
    real (count_if (\<lambda>p. fst p \<in> set ts \<and> h < fst p) paired) / N"
  using assms
proof (induction ts)
  case (Cons t ts)
  from split_by_tail [OF Cons.prems] have tl: "split_by paired ts" "t \<notin> set ts" by simp_all
  show ?case
  proof (cases "t \<le> h")
    case True
    then have "(fst p \<in> set (t # ts) \<and> h < fst p) = (fst p \<in> set ts \<and> h < fst p)" for p :: "real \<times> bool"
      by auto
    with True Cons.IH [OF tl(1)] ahead_beyond [OF Cons.prems] show ?thesis by simp
  next
    case False
    then have "(fst p \<in> set (t # ts) \<and> h < fst p) = (fst p \<in> set (t # ts))" for p :: "real \<times> bool"
      using Cons.prems by (auto simp: split_by_def)
    with False show ?thesis by (simp add: ahead_def)
  qed
qed (simp add: ahead_def count_if_def)

lemma area_shift:
  assumes "t \<notin> set ts" and "t \<le> h"
  shows "(\<Sum>p\<leftarrow>filter (\<lambda>p. fst p \<in> set (t # ts)) paired. min (fst p) h - prev) =
    real (ahead paired (t # ts)) * (t - prev) +
    (\<Sum>p\<leftarrow>filter (\<lambda>p. fst p \<in> set ts) paired. min (fst p) h - t)"
  using assms unfolding ahead_def by (induction paired) (auto simp: algebra_simps)

lemma area_beyond:
  assumes "\<forall>p \<in> set ps. h \<le> fst p"
  shows "(\<Sum>p\<leftarrow>ps. min (fst p) h - prev) = real (length ps) * (h - prev)"
  using assms by (induction ps) (auto simp: algebra_simps)

lemma area_uncensored:
  assumes "split_by paired ts" and "\<forall>p \<in> set paired. snd p" and "0 < N" and "prev \<le> h"
    and "\<forall>t \<in> set ts. prev \<le> t"
  shows "area_loop h (survival_loop paired ts (int (ahead paired ts)) (real (ahead paired ts) / N))
      area prev (real (ahead paired ts) / N) =
    area + (\<Sum>p\<leftarrow>filter (\<lambda>p. fst p \<in> set ts) paired. min (fst p) h - prev) / N"
  using assms(1,4,5)
proof (induction ts arbitrary: area prev)
  case (Cons t ts)
  from split_by_tail [OF Cons.prems(1)] have tl: "split_by paired ts" "t \<notin> set ts" by simp_all
  show ?case
  proof (cases "h \<le> t")
    case True
    then have "\<forall>p \<in> set (filter (\<lambda>p. fst p \<in> set (t # ts)) paired). h \<le> fst p"
      using Cons.prems(1) by (auto simp: split_by_def intro: order_trans less_imp_le)
    from area_beyond [OF this, of prev] True show ?thesis
      unfolding uncensored_step [OF tl(2) assms(2,3)]
      by (simp add: Let_def ahead_def count_if_def)
  next
    case False
    then have "area_loop h (survival_loop paired ts (int (ahead paired ts)) (real (ahead paired ts) / N))
        (area + real (ahead paired (t # ts)) / N * (t - prev)) t (real (ahead paired ts) / N) =
      area + real (ahead paired (t # ts)) / N * (t - prev) +
        (\<Sum>p\<leftarrow>filter (\<lambda>p. fst p \<in> set ts) paired. min (fst p) h - t) / N"
      using Cons.prems(1) by (intro Cons.IH tl(1)) (auto simp: split_by_def intro: less_imp_le)
    with False show ?thesis
      unfolding uncensored_step [OF tl(2) assms(2,3)]
        area_shift [OF tl(2) less_imp_le [OF False [unfolded not_le]]]
      by (simp add: Let_def add_divide_distrib)
  qed
qed (simp add: ahead_def count_if_def)

text \<open>Complete data: a duration and an event for every learner.\<close>

definition complete :: "real list \<Rightarrow> bool list \<Rightarrow> bool" where
  "complete ds es \<longleftrightarrow> length ds = length es \<and> list_all (\<lambda>e. e) es \<and> ds \<noteq> []"

lemma complete_loop:
  assumes "complete ds es"
  defines "ps \<equiv> sort_key fst (zip ds es)"
  shows "survival_steps ds es = survival_loop ps (times_of ps) (int (ahead ps (times_of ps)))
      (real (ahead ps (times_of ps)) / real (length ds))"
    and "real (ahead ps (times_of ps)) / real (length ds) = 1"
    and "\<forall>p \<in> set ps. snd p" and "filter (\<lambda>p. fst p \<in> set (times_of ps)) ps = ps"
    and "survival_steps ds es \<noteq> []"
proof -
  have len: "length ps = length ds" and ne: "ds \<noteq> []"
    using assms by (simp_all add: complete_def)
  have "ahead ps (times_of ps) = length ps" unfolding times_of_def by (rule ahead_all)
  with len ne show one: "real (ahead ps (times_of ps)) / real (length ds) = 1" by simp
  show "survival_steps ds es = survival_loop ps (times_of ps) (int (ahead ps (times_of ps)))
      (real (ahead ps (times_of ps)) / real (length ds))"
    unfolding one using ne ahead_all [of ps]
    by (simp add: survival_steps_def Let_def times_of_def ps_def [symmetric])
  show "\<forall>p \<in> set ps. snd p"
    using assms by (auto simp: complete_def list_all_iff dest: set_zip_rightD)
  show "filter (\<lambda>p. fst p \<in> set (times_of ps)) ps = ps"
    by (simp add: times_of_def filter_id_conv)
  show "survival_steps ds es \<noteq> []"
  proof
    assume "survival_steps ds es = []"
    then have "set (sort (remdups ds)) = {}"
      using assms(1) survival_steps_uncensored [of ds es] by (simp add: complete_def)
    then show False using ne by simp
  qed
qed

lemma reach_rate_complete:
  assumes "complete ds es"
  shows "reach_rate_at ds es h = real (count_if (\<lambda>d. d \<le> h) ds) / real (length ds)"
proof -
  let ?ps = "sort_key fst (zip ds es)"
  note c = complete_loop [OF assms]
  have "survival_at h (survival_steps ds es) 1 =
      real (count_if (\<lambda>p. fst p \<in> set (times_of ?ps) \<and> h < fst p) ?ps) / real (length ds)"
    using survival_at_uncensored [OF split_by_times, where h = h and N = "real (length ds)" and paired = ?ps]
      uncensored_loop [OF split_by_times c(3), where N = "real (length ds)"] c(1,2) assms
    by (simp add: complete_def)
  also have "count_if (\<lambda>p. fst p \<in> set (times_of ?ps) \<and> h < fst p) ?ps = count_if (\<lambda>p. h < fst p) ?ps"
    unfolding count_if_def times_of_def by (intro arg_cong [of _ _ length] filter_cong) auto
  also have "real \<dots> = (\<Sum>p\<leftarrow>?ps. of_bool (h < fst p))" by (rule count_sum)
  also have "\<dots> = (\<Sum>d\<leftarrow>ds. of_bool (h < d))"
    using assms by (intro sum_map_sort_zip) (simp add: complete_def)
  also have "\<dots> = real (count_if (\<lambda>d. h < d) ds)" by (rule count_sum [symmetric])
  also have "\<dots> = real (length ds) - real (count_if (\<lambda>d. d \<le> h) ds)"
    using count_if_split [of "\<lambda>d. d \<le> h" ds] by (simp add: not_le)
  finally show ?thesis
    using c(5) assms by (simp add: reach_rate_at_def Let_def complete_def diff_divide_distrib)
qed

lemma median_complete:
  assumes "complete ds es"
  shows "kaplan_meier_median ds es None =
    find (\<lambda>t. real (count_if (\<lambda>d. t < d) ds) / real (length ds) < 1 / 2) (sort (remdups ds))"
proof -
  have "length ds = length es" "ds \<noteq> []" "list_all (\<lambda>e. e) es"
    using assms by (simp_all add: complete_def)
  then have "es \<noteq> []" "count_if (\<lambda>e. e) es = length es"
    by (auto simp: count_if_def list_all_iff filter_id_conv)
  moreover have "map_option fst (find (\<lambda>(t, s). s < 1 / 2) (map (\<lambda>t. (t, g t)) ts)) =
      find (\<lambda>t. g t < 1 / 2) ts" for g :: "real \<Rightarrow> real" and ts by (induction ts) auto
  ultimately show ?thesis
    using assms by (simp add: kaplan_meier_median_def survival_steps_uncensored complete_def)
qed

lemma restricted_mean_complete:
  assumes "complete ds es" and "list_all (\<lambda>d. 0 \<le> d) ds" and "0 \<le> h"
  shows "restricted_mean ds es h = (\<Sum>d\<leftarrow>ds. min d h) / real (length ds)"
proof -
  let ?ps = "sort_key fst (zip ds es)"
  note c = complete_loop [OF assms(1)]
  have "ds \<noteq> []" using assms(1) by (simp add: complete_def)
  then have "0 < real (length ds)" by simp
  moreover have "\<forall>t \<in> set (times_of ?ps). 0 \<le> t"
    using assms(2) by (auto simp: times_of_def list_all_iff dest: set_zip_leftD)
  ultimately have "area_loop h (survival_steps ds es) 0 0 1 =
      (\<Sum>p\<leftarrow>?ps. min (fst p) h) / real (length ds)"
    using area_uncensored [OF split_by_times c(3) _ assms(3), where N = "real (length ds)" and area = 0]
      c(1,2,4) by simp
  also have "(\<Sum>p\<leftarrow>?ps. min (fst p) h) = (\<Sum>d\<leftarrow>ds. min d h)"
    using assms(1) by (intro sum_map_sort_zip) (simp add: complete_def)
  finally show ?thesis using c(5) by (simp add: restricted_mean_def Let_def)
qed

subsection \<open>With censoring\<close>

lemma survival_at_in: "survival_at h steps s = s \<or> survival_at h steps s \<in> set (map snd steps)"
proof (induction steps arbitrary: s)
  case (Cons p steps)
  from Cons.IH [of "snd p"] show ?case by (cases p) auto
qed simp

lemma survival_at_range:
  assumes "list_all (\<lambda>y. 0 \<le> y \<and> y \<le> 1) (map snd steps)" and "0 \<le> s \<and> s \<le> 1"
  shows "0 \<le> survival_at h steps s \<and> survival_at h steps s \<le> 1"
  using survival_at_in [of h steps s] assms unfolding list_all_iff by metis

lemma survival_at_below:
  assumes "\<forall>x \<in> set (map snd steps). x \<le> z" and "y \<le> z"
  shows "survival_at h steps y \<le> z"
  using survival_at_in [of h steps y] assms by metis

lemma survival_at_mono:
  assumes "sorted_wrt (\<ge>) (s # map snd steps)" and "sorted_wrt (<) (map fst steps)" and "h \<le> h'"
  shows "survival_at h' steps s \<le> survival_at h steps s"
  using assms
proof (induction steps arbitrary: s)
  case (Cons p steps)
  obtain t y where p: "p = (t, y)" by (cases p)
  from Cons.prems have sorted: "sorted_wrt (\<ge>) (y # map snd steps)" "sorted_wrt (<) (map fst steps)"
    and "y \<le> s" by (simp_all add: p)
  have "survival_at h' steps y \<le> s"
    using sorted(1) \<open>y \<le> s\<close> by (intro survival_at_below) auto
  with Cons.IH [OF sorted assms(3)] assms(3) show ?case by (simp add: p)
qed simp

lemma reach_rate_range: "0 \<le> reach_rate_at ds es h \<and> reach_rate_at ds es h \<le> 1"
  using survival_at_range [OF survival_steps_bounds(1), of 1 h ds es]
  by (simp add: reach_rate_at_def Let_def)

lemma reach_rate_mono:
  assumes "h \<le> h'" shows "reach_rate_at ds es h \<le> reach_rate_at ds es h'"
proof -
  have "sorted_wrt (\<ge>) (1 # map snd (survival_steps ds es))"
    using survival_steps_bounds(1,2) [of ds es] by (simp add: list_all_iff)
  from survival_at_mono [OF this survival_steps_bounds(3) assms] show ?thesis
    by (simp add: reach_rate_at_def Let_def)
qed

lemma area_range:
  assumes "list_all (\<lambda>y. 0 \<le> y \<and> y \<le> 1) (map snd steps)" and "sorted_wrt (<) (map fst steps)"
    and "\<forall>t \<in> set (map fst steps). prev \<le> t" and "prev \<le> h" and "0 \<le> s \<and> s \<le> 1"
  shows "area \<le> area_loop h steps area prev s \<and> area_loop h steps area prev s \<le> area + (h - prev)"
  using assms
proof (induction steps arbitrary: area prev s)
  case Nil
  then show ?case using mult_right_mono [of s 1 "h - prev"] by simp
next
  case (Cons p steps)
  obtain t y where p: "p = (t, y)" by (cases p)
  let ?seg = "min t h"
  have seg: "0 \<le> ?seg - prev" using Cons.prems(3,4) by (simp add: p)
  with Cons.prems(5) have inc: "0 \<le> s * (?seg - prev)" "s * (?seg - prev) \<le> ?seg - prev"
    using mult_right_mono [of s 1 "?seg - prev"] by simp_all
  show ?case
  proof (cases "h \<le> t")
    case True
    with inc show ?thesis by (simp add: p Let_def)
  next
    case False
    have "area + s * (?seg - prev) \<le> area_loop h steps (area + s * (?seg - prev)) ?seg y \<and>
      area_loop h steps (area + s * (?seg - prev)) ?seg y \<le> area + s * (?seg - prev) + (h - ?seg)"
      using Cons.prems(1,2) False by (intro Cons.IH) (auto simp: p intro: less_imp_le)
    with inc False show ?thesis by (simp add: p Let_def)
  qed
qed

lemma restricted_mean_range:
  assumes "list_all (\<lambda>d. 0 \<le> d) ds" and "0 \<le> h"
  shows "0 \<le> restricted_mean ds es h \<and> restricted_mean ds es h \<le> h"
proof -
  have "map fst (survival_steps ds es) =
      (if ds = [] then [] else sort (remdups (map fst (sort_key fst (zip ds es)))))"
    by (simp add: survival_steps_def Let_def survival_loop_times)
  then have "set (map fst (survival_steps ds es)) \<subseteq> set ds"
    by (auto dest: set_zip_leftD)
  then have "\<forall>t \<in> set (map fst (survival_steps ds es)). 0 \<le> t"
    using assms(1) by (auto simp: list_all_iff)
  then show ?thesis
    using area_range [OF survival_steps_bounds(1) survival_steps_bounds(3) _ assms(2), of ds es 1 0] assms(2)
    by (auto simp: restricted_mean_def Let_def)
qed

subsection \<open>The cells\<close>

lemma cells_partition:
  "sum_list (map cc_n (co_by_skill (aggregate_cohort records h by_arm))) =
     cc_n (co_pooled (aggregate_cohort records h by_arm))"
proof -
  have "(\<Sum>k\<leftarrow>sort (remdups (map lo_skill records)). length (filter (\<lambda>r. lo_skill r = k) records)) =
      (\<Sum>k \<in> set (map lo_skill records). length (filter (\<lambda>r. lo_skill r = k) records))"
    by (subst sum_list_distinct_conv_sum_set) simp_all
  also have "\<dots> = length records"
  proof -
    have "(\<Sum>k \<in> K. length (filter (\<lambda>r. lo_skill r = k) rs)) = length rs"
      if "finite K" "set (map lo_skill rs) \<subseteq> K" for K and rs :: "learner_outcome list"
      using that(2)
    proof (induction rs)
      case (Cons r rs)
      have "(\<Sum>k \<in> K. length (filter (\<lambda>x. lo_skill x = k) (r # rs))) =
          (\<Sum>k \<in> K. (if lo_skill r = k then 1 else 0) + length (filter (\<lambda>x. lo_skill x = k) rs))"
        by (intro sum.cong) auto
      also have "\<dots> = Suc (length rs)" using Cons that(1) by (simp add: sum.distrib)
      finally show ?case by simp
    qed simp
    from this [of "set (map lo_skill records)" records] show ?thesis by simp
  qed
  finally show ?thesis by (simp add: aggregate_cohort_def cell_def comp_def)
qed

end
