(* ===== verification/Evaluation_Properties.thy ===== *)
theory Evaluation_Properties
  imports Evaluation_Facts Cohort_Facts
begin

text \<open>
  Properties of the offline side: cohort curves, the criterion and the choice of thresholds, the
  evaluation of the identifier, and the statistics behind them.
\<close>

subsection \<open>Cohorts\<close>

text \<open>When every learner of a stratum has reached the goal, the estimators are the plain ones:
  the restricted mean is the average of the durations cut off at the horizon, the reach rate at a
  horizon is the share of durations up to it, and the curve is the share of learners still under
  way.\<close>

theorem uncensored_cohort_is_empirical:
  assumes "length ds = length es" and "list_all (\<lambda>e. e) es" and "ds \<noteq> []" and "list_all (\<lambda>d. 0 \<le> d) ds"
    and "0 \<le> h"
  shows "restricted_mean ds es h = (\<Sum>d\<leftarrow>ds. min d h) / real (length ds) \<and>
    reach_rate_at ds es h = real (count_if (\<lambda>d. d \<le> h) ds) / real (length ds) \<and>
    survival_steps ds es =
      map (\<lambda>t. (t, real (count_if (\<lambda>d. t < d) ds) / real (length ds))) (sort (remdups ds))"
proof -
  have "complete ds es" using assms(1-3) by (simp add: complete_def)
  then show ?thesis
    using restricted_mean_complete [OF _ assms(4,5)] reach_rate_complete
      survival_steps_uncensored [OF assms(1-3)] by blast
qed

theorem uncensored_cohort_is_empirical_witness:
  "restricted_mean [10, 4, 4] [True, True, True] 8 = 16 / 3"
  using uncensored_cohort_is_empirical [of "[10, 4, 4]" "[True, True, True]" 8] by simp

text \<open>With any censoring the survival curve stays between zero and one and never rises, at
  increasing times; the reach rate is a rate that grows with the horizon, and the restricted mean
  lies between zero and the horizon.\<close>

theorem survival_curve_is_a_curve:
  assumes "list_all (\<lambda>d. 0 \<le> d) ds" and "0 \<le> h" and "h \<le> h'"
  shows "list_all (\<lambda>y. 0 \<le> y \<and> y \<le> 1) (map snd (survival_steps ds es)) \<and>
    sorted_wrt (\<ge>) (map snd (survival_steps ds es)) \<and> sorted_wrt (<) (map fst (survival_steps ds es)) \<and>
    0 \<le> reach_rate_at ds es h \<and> reach_rate_at ds es h \<le> reach_rate_at ds es h' \<and>
    reach_rate_at ds es h' \<le> 1 \<and> 0 \<le> restricted_mean ds es h \<and> restricted_mean ds es h \<le> h"
  using survival_steps_bounds [of ds es] reach_rate_range [of ds es] reach_rate_mono [OF assms(3)]
    restricted_mean_range [OF assms(1,2)] by blast

theorem survival_curve_is_a_curve_witness:
  "reach_rate_at [5, 7] [True, False] 5 \<le> reach_rate_at [5, 7] [True, False] 9"
  using survival_curve_is_a_curve [of "[5, 7]" 5 9 "[True, False]"] by simp

subsection \<open>Criterion and thresholds\<close>



text \<open>The criterion counts no intervention as false twice, is never negative for costs that are
  not, and the stipulation that an intervention ends the struggle only ever shortens the time it
  charges.\<close>

theorem criterion_sound:
  assumes "sorted (map sm_ts ss)" and "0 \<le> c_stuck c" and "0 \<le> c_intervention c" and "0 \<le> c_false c"
  shows "count_false ss ivs \<le> length ivs \<and>
    bad_duration (truncate_at_interventions ss ivs) \<le> bad_duration ss \<and>
    0 \<le> jr_J (compute_J ss ivs c (Some (truncate_at_interventions ss ivs)))"
  using count_false_le [OF assms(1)] truncate_shorter [OF assms(1)]
    compute_J_nonneg [OF _ assms(2-4)] truncate_chronological [of ss ivs] assms(1) by blast

abbreviation short_log :: "sample list" where
  "short_log \<equiv> [\<lparr>sm_ts = 0, sm_regime = ''idle'', sm_dwell = 0\<rparr>,
     \<lparr>sm_ts = 15, sm_regime = ''idle'', sm_dwell = 15\<rparr>,
     \<lparr>sm_ts = 30, sm_regime = ''productive'', sm_dwell = 0\<rparr>]"

theorem criterion_sound_witness:
  "count_false short_log [15] \<le> 1 \<and>
   0 \<le> jr_J (compute_J short_log [15] (costs_from_config default_la_config)
     (Some (truncate_at_interventions short_log [15])))"
  using criterion_sound [of short_log "costs_from_config default_la_config" "[15]"]
  by (simp add: costs_from_config_def default_la_config_def)

text \<open>The choice of thresholds is a descent: it answers for every grid without an empty list of
  candidates, with one threshold per regime from its own list, and the total cost is no larger than
  with the first candidates.  A grid with one regime is solved optimally.\<close>

theorem threshold_choice_descends:
  assumes "list_all (\<lambda>(r, cs). cs \<noteq> []) grid" and "distinct (map fst grid)"
  shows "\<exists>final. derive_T_k trials costs grid cooldown cf = Inr final \<and>
    total_J trials costs final cooldown cf \<le> total_J trials costs (initial_thresholds grid) cooldown cf \<and>
    list_all2 (\<lambda>(r, cs) (r', tk). r' = r \<and> tk \<in> set cs) grid final \<and>
    (\<forall>r cs tk. grid = [(r, cs)] \<and> tk \<in> set cs \<longrightarrow>
      total_J trials costs final cooldown cf \<le> total_J trials costs [(r, tk)] cooldown cf)"
proof -
  let ?J = "\<lambda>thr. total_J trials costs thr cooldown cf"
  obtain final where f: "derive_T_k trials costs grid cooldown cf = Inr final"
    "?J final \<le> ?J (initial_thresholds grid)"
    "list_all2 (\<lambda>(r, cs) (r', tk). r' = r \<and> tk \<in> set cs) grid final"
    using derive_loop_descends [OF assms(1), of "[]" ?J] assms(2) by (auto simp: derive_T_k_def)
  moreover have "?J final \<le> ?J [(r, tk)]" if "grid = [(r, cs)]" "tk \<in> set cs" for r cs tk
    using derive_one_optimal [of cs tk trials costs r cooldown cf] that f(1) by fastforce
  ultimately show ?thesis by blast
qed

theorem threshold_choice_descends_witness:
  "\<exists>final. derive_T_k build_synthetic_sessions (costs_from_config default_la_config)
     [(''idle'', [0, 15]), (''stuck_on_step'', [0, 30, 60])] 0 truncate_at_interventions = Inr final \<and>
   length final = 2"
proof -
  let ?grid = "[(''idle'', [0, 15]), (''stuck_on_step'', [0, 30, 60])] :: (string \<times> real list) list"
  have "list_all (\<lambda>(r, cs). cs \<noteq> []) ?grid" "distinct (map fst ?grid)" by simp_all
  from threshold_choice_descends [OF this, of build_synthetic_sessions
      "costs_from_config default_la_config" 0 truncate_at_interventions] obtain final
    where "derive_T_k build_synthetic_sessions (costs_from_config default_la_config) ?grid 0
      truncate_at_interventions = Inr final"
      "list_all2 (\<lambda>(r, cs) (r', tk). r' = r \<and> tk \<in> set cs) ?grid final" by blast
  moreover from this(2) have "length final = 2" by (auto dest: list_all2_lengthD)
  ultimately show ?thesis by blast
qed

subsection \<open>Evaluating the identifier\<close>

text \<open>Every synthetic struggle is found where it was put: with the default configuration and no
  dwell threshold, the identifier reports the scenario's own regime at the first snapshot whose
  features show it.\<close>

theorem synthetic_struggle_found:
  assumes "onset + delay < n"
  shows "run_identifier (make_struggle_scenario (Struggling t) onset n step window src delay) 0
      default_la_config =
    Inr \<lparr>dt_detected = True, dt_detected_ts = Some (real (onset + delay) * step),
      dt_detected_regime = Some (Struggling t)\<rparr>"
  using assms by (rule struggle_scenario_detected)

theorem synthetic_struggle_found_witness:
  "run_identifier (make_struggle_scenario (Struggling IDLE) 5 14 15 210 ''synthetic'' 1) 0 default_la_config =
     Inr \<lparr>dt_detected = True, dt_detected_ts = Some 90, dt_detected_regime = Some (Struggling IDLE)\<rparr>"
  using synthetic_struggle_found [of 5 1 14 IDLE 15 210 "''synthetic''"] by simp

text \<open>Raising the dwell threshold never finds a struggle the lower threshold misses, and never
  finds it earlier.\<close>

theorem higher_threshold_detects_later:
  assumes "sorted (map sn_ts (sc_snapshots scn))" and "t \<le> t'"
    and "run_identifier scn t cfg = Inr d" and "run_identifier scn t' cfg = Inr d'"
    and "dt_detected_ts d' = Some late"
  shows "\<exists>early. dt_detected_ts d = Some early \<and> early \<le> late"
  using assms by (rule run_identifier_mono)

theorem higher_threshold_detects_later_witness:
  "\<exists>early. dt_detected_ts \<lparr>dt_detected = True, dt_detected_ts = Some 90,
     dt_detected_regime = Some (Struggling IDLE)\<rparr> = Some early \<and> early \<le> 90"
proof (rule higher_threshold_detects_later)
  let ?scn = "make_struggle_scenario (Struggling IDLE) 5 14 15 210 ''synthetic'' 1"
  show "sorted (map sn_ts (sc_snapshots ?scn))"
    by (simp add: make_struggle_scenario_def Let_def comp_def sorted_iff_nth_mono)
  show "run_identifier ?scn 0 default_la_config = Inr \<lparr>dt_detected = True, dt_detected_ts = Some 90,
      dt_detected_regime = Some (Struggling IDLE)\<rparr>"
    using struggle_scenario_detected [of 5 1 14 IDLE 15 210 "''synthetic''"] by simp
  then show "run_identifier ?scn 0 default_la_config = Inr \<lparr>dt_detected = True, dt_detected_ts = Some 90,
      dt_detected_regime = Some (Struggling IDLE)\<rparr>" .
qed simp_all

text \<open>The evaluation accounts for every scenario once: it always answers, hits and misses make up
  the struggle sessions, struggle and normal sessions make up the input, recall is a rate, and the
  cells of the confusion matrix add up to the number of scenarios.\<close>

theorem evaluation_accounts_for_all:
  "\<exists>m. evaluate choice pairs = Inr m \<and>
     dm_n_tp m = count_if (\<lambda>(scn, d). \<not> is_normal scn \<and> in_window scn d) pairs \<and>
     dm_n_tp m + dm_n_misses m = dm_n_struggle m \<and> dm_n_struggle m + dm_n_normal m = length pairs \<and>
     0 \<le> dm_recall m \<and> dm_recall m \<le> 1 \<and>
     (\<Sum>r\<leftarrow>all_regimes. \<Sum>c\<leftarrow>all_regimes. confusion_matrix pairs r c) = length pairs"
proof -
  obtain m where m: "evaluate choice pairs = Inr m" using evaluate_total by blast
  show ?thesis
    using evaluate_counts [OF m] confusion_matrix_total [of pairs] m by blast
qed

subsection \<open>Statistics\<close>

text \<open>A bootstrap interval lies within the data and its ends are in order, whatever the random
  choices.\<close>

theorem bootstrap_within_data:
  assumes "bootstrap_ci choice values n = Some (lo, hi)" and "0 < n"
    and "list_all (\<lambda>v. a \<le> v \<and> v \<le> b) values"
  shows "a \<le> lo \<and> lo \<le> hi \<and> hi \<le> b"
  using bootstrap_range [OF assms(1,2)] assms(3) unfolding list_all_iff by blast

theorem bootstrap_within_data_witness:
  "\<exists>lo hi. bootstrap_ci (\<lambda>i k. i + k) [3, 5] 4 = Some (lo, hi) \<and> 3 \<le> lo \<and> lo \<le> hi \<and> hi \<le> 5"
proof -
  obtain lo hi where ci: "bootstrap_ci (\<lambda>i k. i + k) [3, 5] 4 = Some (lo, hi)"
    by (auto simp: bootstrap_ci_def Let_def)
  from bootstrap_within_data [OF ci, of 3 5] ci show ?thesis by auto
qed

text \<open>Two annotators' kappa is at most one, and one exactly when their labels are the same.\<close>

theorem kappa_one_iff_same:
  assumes "length a = length b" and "a \<noteq> []"
  shows "cohens_kappa a b \<le> 1 \<and> (cohens_kappa a b = 1 \<longleftrightarrow> a = b)"
  using kappa_max [OF assms] by blast

theorem kappa_one_iff_same_witness:
  "cohens_kappa [''idle'', ''idle''] [''idle'', ''productive''] \<noteq> 1"
  using kappa_one_iff_same [of "[''idle'', ''idle'']" "[''idle'', ''productive'']"] by simp

text \<open>Percentiles interpolate between neighbours of the sorted data and grow with the percentage;
  but the ends of the documented range are not what they say: the 100th raises, and the 0th is the
  99th.\<close>

theorem percentile_behaviour:
  assumes "2 \<le> length data" and "1 \<le> i" and "i \<le> j" and "j < 100"
  shows "(\<exists>x y. percentile data (real i) = Inr x \<and> percentile data (real j) = Inr y \<and> x \<le> y \<and>
      Min (set data) \<le> x \<and> y \<le> Max (set data)) \<and>
    percentile data 100 = Inl IndexError \<and> percentile data 0 = percentile data 99"
  using percentile_spec [OF assms] percentile_ends [OF assms(1)] by blast

theorem percentile_behaviour_witness:
  "percentile [3, 1, 2] 100 = Inl IndexError \<and> percentile [3, 1, 2] 0 = percentile [3, 1, 2] 99"
  using percentile_behaviour [of "[3, 1, 2]" 1 1] by simp

end
