(* ===== verification/Console_Text.thy ===== *)
theory Console_Text
  imports Py_Strings "HOL-Library.Word"
begin

text \<open>
  Reading device output: the patterns and parsers of \<open>validation/checks/vpcs.py\<close>, \<open>frr.py\<close> and
  \<open>cisco.py\<close>, and the part of Python's \<open>ipaddress\<close> they use.  Each regular expression is written
  out as the function that finds its match; none of them needs backtracking, because every
  repetition is followed by a character it cannot contain.  IPv6 addresses are left to the
  parameter \<open>ip6\<close>.
\<close>

unbundle bit_operations_syntax

definition upper_char :: "char \<Rightarrow> char" where
  "upper_char c = (let n = of_char c :: nat in if 97 \<le> n \<and> n \<le> 122 then char_of (n - 32) else c)"

definition upper :: "string \<Rightarrow> string" where
  "upper s = map upper_char s"

text \<open>A run of characters, and decimal numbers.\<close>

definition digit_value :: "char \<Rightarrow> nat" where
  "digit_value c = of_char c - 48"

definition nat_of_digits :: "string \<Rightarrow> nat" where
  "nat_of_digits ds = fold (\<lambda>c n. 10 * n + digit_value c) ds 0"

definition digits :: "string \<Rightarrow> string" where
  "digits s = takeWhile is_digit s"

definition after_digits :: "string \<Rightarrow> string" where
  "after_digits s = dropWhile is_digit s"

definition is_number :: "string \<Rightarrow> bool" where
  "is_number s \<longleftrightarrow> s \<noteq> [] \<and> list_all is_digit s"

definition nonspace :: "string \<Rightarrow> string" where
  "nonspace s = takeWhile (\<lambda>c. \<not> is_space c) s"

text \<open>\<open>\w\<close>, over Latin-1.\<close>

definition is_word_char :: "char \<Rightarrow> bool" where
  "is_word_char c \<longleftrightarrow>
     (let n = of_char c :: nat
      in 48 \<le> n \<and> n \<le> 57 \<or> 65 \<le> n \<and> n \<le> 90 \<or> n = 95 \<or> 97 \<le> n \<and> n \<le> 122 \<or>
         n \<in> {170, 178, 179, 181, 185, 186, 188, 189, 190} \<or>
         192 \<le> n \<and> n \<noteq> 215 \<and> n \<noteq> 247)"

definition prefix_ci :: "string \<Rightarrow> string \<Rightarrow> bool" where
  "prefix_ci label s \<longleftrightarrow> lower (take (length label) s) = lower label"

subsection \<open>The VPCS console\<close>

text \<open>\<open>label \s* : \s* (\S+)\<close>, searched from the left, ignoring case.\<close>

definition field_here :: "string \<Rightarrow> string \<Rightarrow> string option" where
  "field_here label s =
     (if \<not> prefix_ci label s then None
      else case lstrip (drop (length label) s) of
        [] \<Rightarrow> None
      | c # rest \<Rightarrow>
          if c \<noteq> CHR '':'' then None
          else let v = nonspace (lstrip rest) in if v = [] then None else Some v)"

fun field :: "string \<Rightarrow> string \<Rightarrow> string option" where
  "field label [] = field_here label []"
| "field label (c # cs) =
     (case field_here label (c # cs) of Some v \<Rightarrow> Some v | None \<Rightarrow> field label cs)"

record show_ip =
  si_ip :: string
  si_gateway :: string

definition or_empty :: "string option \<Rightarrow> string" where
  "or_empty v = (case v of None \<Rightarrow> [] | Some s \<Rightarrow> s)"

definition parse_show_ip :: "string \<Rightarrow> show_ip" where
  "parse_show_ip text = \<lparr>si_ip = or_empty (field ''IP/MASK'' text),
     si_gateway = or_empty (field ''GATEWAY'' text)\<rparr>"

text \<open>\<open>_PING_REPLY_RE\<close> at the start of a line: what is left after a match.\<close>

definition skip1 :: "(char \<Rightarrow> bool) \<Rightarrow> string \<Rightarrow> string option" where
  "skip1 P s = (case s of [] \<Rightarrow> None | c # cs \<Rightarrow> if P c then Some (dropWhile P cs) else None)"

definition skip_word :: "string \<Rightarrow> string \<Rightarrow> string option" where
  "skip_word w s = (if starts_with s w then Some (drop (length w) s) else None)"

definition reply_here :: "string \<Rightarrow> string option" where
  "reply_here s =
     Option.bind (skip1 is_digit (lstrip s)) (\<lambda>s.
     Option.bind (skip1 is_space s) (\<lambda>s.
     Option.bind (skip_word ''bytes'' s) (\<lambda>s.
     Option.bind (skip1 is_space s) (\<lambda>s.
     Option.bind (skip_word ''from'' s) (\<lambda>s.
     Option.bind (skip1 is_space s) (skip1 (\<lambda>c. \<not> is_space c)))))))"

lemma skip1_shorter: "skip1 P s = Some r \<Longrightarrow> length r < length s"
  by (cases s) (auto simp: skip1_def split: if_splits intro: le_imp_less_Suc length_dropWhile_le)

lemma skip_word_le: "skip_word w s = Some r \<Longrightarrow> length r \<le> length s"
  by (auto simp: skip_word_def split: if_splits)

lemma lstrip_le: "length (lstrip s) \<le> length s"
  by (simp add: lstrip_def length_dropWhile_le)

lemma reply_here_shorter:
  assumes "reply_here s = Some r" shows "length r < length s"
proof -
  from assms obtain a b c d e f where
    "skip1 is_digit (lstrip s) = Some a" "skip1 is_space a = Some b" "skip_word ''bytes'' b = Some c"
    "skip1 is_space c = Some d" "skip_word ''from'' d = Some e" "skip1 is_space e = Some f"
    "skip1 (\<lambda>c. \<not> is_space c) f = Some r"
    unfolding reply_here_def bind_eq_Some_conv by blast
  then show ?thesis
    using skip1_shorter skip_word_le lstrip_le [of s] by (meson le_trans less_le_trans less_imp_le)
qed

function count_replies :: "bool \<Rightarrow> string \<Rightarrow> nat" where
  "count_replies line_start [] = 0"
| "count_replies line_start (c # cs) =
     (case (if line_start then reply_here (c # cs) else None) of
        Some rest \<Rightarrow> 1 + count_replies False rest
      | None \<Rightarrow> count_replies (c = CHR 0x0A) cs)"
  by pat_completeness auto
termination
  by (relation "measure (\<lambda>(_, s). length s)") (auto dest: reply_here_shorter split: if_splits)

text \<open>\<open>\bttl=(\d+)\<close>: all values, from the left.\<close>

function ttls_from :: "bool \<Rightarrow> string \<Rightarrow> string list" where
  "ttls_from word_before [] = []"
| "ttls_from word_before (c # cs) =
     (let tail = drop 4 (c # cs)
      in if \<not> word_before \<and> prefix_ci ''ttl='' (c # cs) \<and> digits tail \<noteq> []
         then digits tail # ttls_from True (after_digits tail)
         else ttls_from (is_word_char c) cs)"
  by pat_completeness auto
termination
  by (relation "measure (\<lambda>(_, s). length s)")
    (auto simp: after_digits_def intro: le_less_trans [OF length_dropWhile_le])

record ping_stats =
  pg_received :: nat
  pg_ttl :: "nat option"

definition parse_ping :: "string \<Rightarrow> ping_stats" where
  "parse_ping text =
     (let ttls = ttls_from False text
      in \<lparr>pg_received = count_replies True text,
          pg_ttl = (if ttls = [] then None else Some (nat_of_digits (last ttls)))\<rparr>)"

definition says_unreachable :: "string \<Rightarrow> bool" where
  "says_unreachable text \<longleftrightarrow> contains ''not reachable'' (lower text) \<or>
     contains ''timeout'' (lower text) \<or> contains ''host unreachable'' (lower text)"

fun after_first :: "string \<Rightarrow> string \<Rightarrow> string option" where
  "after_first w [] = (if w = [] then Some [] else None)"
| "after_first w (c # cs) =
     (if starts_with (c # cs) w then Some (drop (length w) (c # cs)) else after_first w cs)"

definition save_confirmed :: "string \<Rightarrow> bool" where
  "save_confirmed text =
     (case after_first ''saving startup configuration'' (lower text) of
        None \<Rightarrow> False | Some rest \<Rightarrow> contains ''done'' rest)"

subsection \<open>Expected numbers\<close>

text \<open>\<open>_COMPARE_RE\<close>: the operator and what follows it.\<close>

definition split_operator :: "string \<Rightarrow> string \<times> string" where
  "split_operator s =
     (case find (starts_with s) [''>='', ''<='', ''=='', ''='', ''>'', ''<''] of
        Some oper \<Rightarrow> (oper, drop (length oper) s) | None \<Rightarrow> (''='', s))"

definition parse_comparison :: "string \<Rightarrow> (string \<times> nat) option" where
  "parse_comparison expected =
     (let (oper, rest) = split_operator (lstrip expected); s = lstrip rest
      in if digits s \<noteq> [] \<and> lstrip (after_digits s) = [] then Some (oper, nat_of_digits (digits s))
         else None)"

definition compare_op :: "string \<Rightarrow> nat \<Rightarrow> nat \<Rightarrow> bool" where
  "compare_op oper actual target =
     (if oper = ''>='' then target \<le> actual else if oper = ''<='' then actual \<le> target
      else if oper = ''>'' then target < actual else if oper = ''<'' then actual < target
      else actual = target)"

text \<open>A Boolean is an \<open>int\<close> in Python.\<close>

definition matches :: "nat option \<Rightarrow> json option \<Rightarrow> bool" where
  "matches actual expected =
     (case actual of
        None \<Rightarrow> False
      | Some n \<Rightarrow>
          (case expected of
             Some (JInt i) \<Rightarrow> int n = i
           | Some (JBool b) \<Rightarrow> n = (if b then 1 else 0)
           | Some (JStr s) \<Rightarrow>
               (case parse_comparison s of None \<Rightarrow> False | Some (oper, target) \<Rightarrow> compare_op oper n target)
           | _ \<Rightarrow> False))"

subsection \<open>IPv4 addresses\<close>

text \<open>\<open>IPv4Address\<close>: four decimal octets without leading zeros.\<close>

definition parse_octet :: "string \<Rightarrow> nat option" where
  "parse_octet s =
     (if is_number s \<and> length s \<le> 3 \<and> (length s = 1 \<or> hd s \<noteq> CHR ''0'') \<and> nat_of_digits s \<le> 255
      then Some (nat_of_digits s) else None)"

definition ipv4_of_octets :: "nat \<Rightarrow> nat \<Rightarrow> nat \<Rightarrow> nat \<Rightarrow> 32 word" where
  "ipv4_of_octets a b c d = of_nat (((a * 256 + b) * 256 + c) * 256 + d)"

definition parse_ipv4 :: "string \<Rightarrow> 32 word option" where
  "parse_ipv4 s =
     (case map parse_octet (split_on (CHR ''.'') s) of
        [Some a, Some b, Some c, Some d] \<Rightarrow> Some (ipv4_of_octets a b c d)
      | _ \<Rightarrow> None)"

definition netmask :: "nat \<Rightarrow> 32 word" where
  "netmask p = push_bit (32 - p) (- 1)"

definition hostmask :: "nat \<Rightarrow> 32 word" where
  "hostmask p = NOT (netmask p)"

text \<open>The part after the slash: a prefix length, a netmask or a host mask.\<close>

definition parse_prefix :: "string \<Rightarrow> nat option" where
  "parse_prefix s =
     (if is_number s then (if nat_of_digits s \<le> 32 then Some (nat_of_digits s) else None)
      else case parse_ipv4 s of
        None \<Rightarrow> None
      | Some w \<Rightarrow>
          or_else (find (\<lambda>p. netmask p = w) [0..<33]) (find (\<lambda>p. hostmask p = w) [0..<33]))"

definition parse_network4 :: "string \<Rightarrow> (32 word \<times> nat) option" where
  "parse_network4 s =
     (case split_on (CHR ''/'') s of
        [a] \<Rightarrow> map_option (\<lambda>w. (w, 32)) (parse_ipv4 a)
      | [a, m] \<Rightarrow> Option.bind (parse_ipv4 a) (\<lambda>w. map_option (\<lambda>p. (w AND netmask p, p)) (parse_prefix m))
      | _ \<Rightarrow> None)"

definition in_network :: "32 word \<Rightarrow> 32 word \<times> nat \<Rightarrow> bool" where
  "in_network w n \<longleftrightarrow> w AND netmask (snd n) = fst n"

text \<open>An IPv4 address is in no IPv6 network; \<open>ip6\<close> answers for addresses that are not IPv4.\<close>

definition ip_in_subnet :: "(string \<Rightarrow> string \<Rightarrow> bool) \<Rightarrow> string \<Rightarrow> string \<Rightarrow> bool" where
  "ip_in_subnet ip6 ip_with_mask subnet =
     (let addr = strip (hd (split_on (CHR ''/'') ip_with_mask))
      in if addr = [] then False
         else case parse_ipv4 addr of
           None \<Rightarrow> ip6 addr subnet
         | Some w \<Rightarrow> (case parse_network4 subnet of None \<Rightarrow> False | Some n \<Rightarrow> in_network w n))"

subsection \<open>Router tables\<close>

text \<open>\<open>^\s*(\S+)\s+\d+\s+(\S+)\<close>.\<close>

definition neighbor_line :: "string \<Rightarrow> (string \<times> string) option" where
  "neighbor_line line =
     (case words line of
        nid # pri # state # _ \<Rightarrow> if is_number pri then Some (nid, state) else None
      | _ \<Rightarrow> None)"

fun first_line :: "(string \<Rightarrow> bool) \<Rightarrow> (string \<Rightarrow> (string \<times> 'a) option) \<Rightarrow> string \<Rightarrow> string list \<Rightarrow> 'a option" where
  "first_line skip parse key [] = None"
| "first_line skip parse key (raw # ls) =
     (let line = rstrip raw
      in if line = [] \<or> skip (lstrip line) then first_line skip parse key ls
         else case parse line of
           None \<Rightarrow> first_line skip parse key ls
         | Some (k, v) \<Rightarrow> if k = key then Some v else first_line skip parse key ls)"

definition parse_neighbor_state :: "string \<Rightarrow> string \<Rightarrow> string option" where
  "parse_neighbor_state stdout neighbor_id =
     first_line (\<lambda>l. starts_with l ''Neighbor ID'') neighbor_line neighbor_id (splitlines stdout)"

text \<open>\<open>\d+\.\d+\.\d+\.\d+/\d+\b\<close> at the start of a word: the text it matches.\<close>

definition take_number :: "char \<Rightarrow> string \<Rightarrow> (string \<times> string) option" where
  "take_number sep s =
     (case after_digits s of
        c # rest \<Rightarrow> if digits s \<noteq> [] \<and> c = sep then Some (digits s @ [sep], rest) else None
      | [] \<Rightarrow> None)"

definition prefix_token :: "string \<Rightarrow> string option" where
  "prefix_token s =
     Option.bind (take_number (CHR ''.'') s) (\<lambda>(a, s).
     Option.bind (take_number (CHR ''.'') s) (\<lambda>(b, s).
     Option.bind (take_number (CHR ''.'') s) (\<lambda>(c, s).
     Option.bind (take_number (CHR ''/'') s) (\<lambda>(d, s).
       if digits s \<noteq> [] \<and> (case after_digits s of [] \<Rightarrow> True | x # _ \<Rightarrow> \<not> is_word_char x)
       then Some (a @ b @ c @ d @ digits s) else None))))"

definition is_capital :: "char \<Rightarrow> bool" where
  "is_capital c \<longleftrightarrow> 65 \<le> (of_char c :: nat) \<and> (of_char c :: nat) \<le> 90"

definition route_line :: "char list \<Rightarrow> string \<Rightarrow> (string \<times> string \<times> string) option" where
  "route_line marks line =
     (case words line of
        code # tok # _ \<Rightarrow>
          if is_capital (hd code) \<and> list_all (\<lambda>c. is_capital c \<or> c \<in> set marks) code
          then map_option (\<lambda>p. (p, code, strip line)) (prefix_token tok) else None
      | _ \<Rightarrow> None)"

definition parse_route :: "string \<Rightarrow> string \<Rightarrow> (string \<times> string) option" where
  "parse_route stdout prefix =
     first_line (\<lambda>_. False) (route_line ''>*'') prefix (splitlines stdout)"

definition parse_cisco_neighbor :: "string \<Rightarrow> string \<Rightarrow> string option" where
  "parse_cisco_neighbor stdout neighbor_id =
     first_line (\<lambda>l. starts_with l ''Neighbor ID'') neighbor_line neighbor_id (splitlines stdout)"

definition parse_cisco_route :: "string \<Rightarrow> string \<Rightarrow> (string \<times> string) option" where
  "parse_cisco_route stdout prefix =
     first_line (\<lambda>l. starts_with l ''Codes:'' \<or> starts_with l ''Gateway of last resort'')
       (route_line ''*'') prefix (splitlines stdout)"

record iface =
  if_interface :: string
  if_ip :: string
  if_status :: string
  if_protocol :: string

definition interface_line :: "string \<Rightarrow> (string \<times> iface) option" where
  "interface_line line =
     (let parts = words line; n = length parts
      in if n < 6 then None
         else Some (parts ! 0, \<lparr>if_interface = parts ! 0, if_ip = parts ! 1,
           if_status = (if n = 6 then parts ! 4
             else if n = 7 then parts ! 4 @ '' '' @ parts ! 5 else parts ! (n - 2)),
           if_protocol = (if n = 6 then parts ! 5 else if n = 7 then parts ! 6 else parts ! (n - 1))\<rparr>))"

definition parse_cisco_interface :: "string \<Rightarrow> string \<Rightarrow> iface option" where
  "parse_cisco_interface stdout interface =
     first_line (\<lambda>_. False) interface_line interface (splitlines stdout)"

end
