(* ===== verification/Console.thy ===== *)
theory Console
  imports Console_Text
begin

text \<open>
  A telnet console (\<open>validation/checks/vpcs.py\<close>, \<open>cisco.py\<close>): opening it, writing to it and reading
  what the node answers.  A node is known by what it sends after each line written to it, given
  all the lines so far; what has been sent and not yet read is a list of arrivals, each with the
  seconds since the one before.  An arrival is a piece of text, empty at the end of the stream, or
  the loss of the connection, which raises at the read that meets it.
\<close>

datatype chunk = Bytes string | Lost string

type_synonym arrivals = "(real \<times> chunk) list"

type_synonym device = "string list \<Rightarrow> arrivals"

record console =
  co_device :: device
  co_written :: "string list"
  co_pending :: arrivals

definition opened :: "device \<Rightarrow> console" where
  "opened dev = \<lparr>co_device = dev, co_written = [], co_pending = dev []\<rparr>"

definition send :: "string \<Rightarrow> console \<Rightarrow> console" where
  "send line c =
     (let ls = co_written c @ [line]
      in c\<lparr>co_written := ls, co_pending := co_pending c @ co_device c ls\<rparr>)"

definition crlf :: string where
  "crlf = [CHR 0x0D, CHR 0x0A]"

text \<open>\<open>asyncio.sleep\<close>: what arrives meanwhile is there at once afterwards.\<close>

fun elapse :: "real \<Rightarrow> arrivals \<Rightarrow> arrivals" where
  "elapse t [] = []"
| "elapse t ((d, x) # es) = (if d \<le> t then (0, x) # elapse (t - d) es else (d - t, x) # es)"

definition sleep :: "real \<Rightarrow> console \<Rightarrow> console" where
  "sleep t c = c\<lparr>co_pending := elapse t (co_pending c)\<rparr>"

subsection \<open>Reading\<close>

text \<open>\<open>_drain_idle\<close>, with \<open>left\<close> seconds until the deadline.\<close>

fun drain_idle :: "real \<Rightarrow> real \<Rightarrow> arrivals \<Rightarrow> string + string \<times> arrivals" where
  "drain_idle idle left [] = Inr ([], [])"
| "drain_idle idle left ((d, x) # es) =
     (let remaining = min idle left
      in if remaining \<le> 0 then Inr ([], (d, x) # es)
         else if remaining < d then Inr ([], (d - remaining, x) # es)
         else case x of
           Lost e \<Rightarrow> Inl e
         | Bytes s \<Rightarrow>
             if s = [] then Inr ([], (0, x) # es)
             else case drain_idle idle (left - d) es of
               Inl e \<Rightarrow> Inl e | Inr (buf, rest) \<Rightarrow> Inr (s @ buf, rest))"

text \<open>\<open>_drain_until_prompt\<close>: a prompt counts wherever it stands in what has been read.\<close>

fun drain_prompt :: "real \<Rightarrow> string \<Rightarrow> arrivals \<Rightarrow> string + string \<times> arrivals" where
  "drain_prompt left buf [] = Inr (buf, [])"
| "drain_prompt left buf ((d, x) # es) =
     (if left < d then Inr (buf, (d - left, x) # es)
      else case x of
        Lost e \<Rightarrow> Inl e
      | Bytes s \<Rightarrow>
          if s = [] then Inr (buf, (0, x) # es)
          else if contains ''> '' (buf @ s) then Inr (buf @ s, es)
          else drain_prompt (left - d) (buf @ s) es)"

text \<open>The Cisco variant looks at the last three characters and then takes what follows within a
  fifth of a second, still before the deadline.\<close>

definition cisco_prompt :: "string \<Rightarrow> bool" where
  "cisco_prompt buf =
     (let tail = drop (length buf - 3) buf
      in CHR ''#'' \<in> set tail \<or> contains ''> '' tail \<or> last tail = CHR ''>'')"

fun drain_tail :: "real \<Rightarrow> string \<Rightarrow> arrivals \<Rightarrow> string + string \<times> arrivals" where
  "drain_tail left buf [] = Inr (buf, [])"
| "drain_tail left buf ((d, x) # es) =
     (let wait = min (2 / 10) left
      in if wait < d then Inr (buf, (d - wait, x) # es)
         else case x of
           Lost e \<Rightarrow> Inl e
         | Bytes s \<Rightarrow> if s = [] then Inr (buf, (0, x) # es) else drain_tail (left - d) (buf @ s) es)"

fun drain_cisco :: "real \<Rightarrow> string \<Rightarrow> arrivals \<Rightarrow> string + string \<times> arrivals" where
  "drain_cisco left buf [] = Inr (buf, [])"
| "drain_cisco left buf ((d, x) # es) =
     (if left < d then Inr (buf, (d - left, x) # es)
      else case x of
        Lost e \<Rightarrow> Inl e
      | Bytes s \<Rightarrow>
          if s = [] then Inr (buf, (0, x) # es)
          else if cisco_prompt (buf @ s)
          then (let left' = left - d
                in if left' < 1 / 10 then Inr (buf @ s, elapse left' es)
                   else drain_tail (left' - 1 / 10) (buf @ s) (elapse (1 / 10) es))
          else drain_cisco (left - d) (buf @ s) es)"

text \<open>Reading from a console: the text, and the console without it.\<close>

definition reading ::
  "(arrivals \<Rightarrow> string + string \<times> arrivals) \<Rightarrow> console \<Rightarrow> string + string \<times> console" where
  "reading drain c =
     (case drain (co_pending c) of
        Inl e \<Rightarrow> Inl e | Inr (buf, rest) \<Rightarrow> Inr (buf, c\<lparr>co_pending := rest\<rparr>))"

subsection \<open>Opening\<close>

text \<open>What the n-th attempt to connect answers; a handler counts its attempts.\<close>

type_synonym connector = "nat \<Rightarrow> string + device"

definition CONNECT_ATTEMPTS :: nat where
  "CONNECT_ATTEMPTS = 4"

fun open_loop :: "connector \<Rightarrow> nat \<Rightarrow> nat \<Rightarrow> string \<Rightarrow> (string + console) \<times> nat" where
  "open_loop connect 0 n last_exc = (Inl last_exc, n)"
| "open_loop connect (Suc k) n last_exc =
     (case connect n of
        Inr dev \<Rightarrow> (Inr (opened dev), Suc n)
      | Inl exc \<Rightarrow> open_loop connect k (Suc n) exc)"

definition open_console :: "connector \<Rightarrow> nat \<Rightarrow> (string + console) \<times> nat" where
  "open_console connect n = open_loop connect CONNECT_ATTEMPTS n ''console connect failed''"

text \<open>The beginning of every VPCS session: wake the console and discard its banner.\<close>

definition wake_up :: "console \<Rightarrow> string + console" where
  "wake_up c = map_sum id snd (reading (drain_idle (3 / 10) 2) (sleep (3 / 10) (send crlf c)))"

subsection \<open>\<open>show ip\<close>\<close>

text \<open>\<open>decode\<close> is the decoding of bytes as UTF-8 with replacement.\<close>

definition ask_show_ip :: "console \<Rightarrow> string + string \<times> console" where
  "ask_show_ip c = reading (drain_idle (4 / 10) 3) (send (''show ip'' @ crlf) c)"

definition reply_show_ip :: "(string \<Rightarrow> string) \<Rightarrow> console \<Rightarrow> string + string" where
  "reply_show_ip decode c =
     (case ask_show_ip c of
        Inl e \<Rightarrow> Inl e
      | Inr (raw, c1) \<Rightarrow>
          if si_ip (parse_show_ip (decode raw)) \<noteq> [] then Inr raw
          else case reading (drain_idle (3 / 10) 1) c1 of
            Inl e \<Rightarrow> Inl e
          | Inr (_, c2) \<Rightarrow> map_sum id fst (ask_show_ip c2))"

definition show_ip_once ::
  "(string \<Rightarrow> string) \<Rightarrow> connector \<Rightarrow> nat \<Rightarrow> (string + show_ip \<times> string) \<times> nat" where
  "show_ip_once decode connect n =
     (case open_console connect n of
        (Inl e, n') \<Rightarrow> (Inl e, n')
      | (Inr c, n') \<Rightarrow>
          (case wake_up c of
             Inl e \<Rightarrow> Inl e
           | Inr c1 \<Rightarrow> map_sum id (\<lambda>raw. (parse_show_ip (decode raw), decode raw)) (reply_show_ip decode c1),
           n'))"

definition READ_ATTEMPTS :: nat where
  "READ_ATTEMPTS = 3"

fun show_ip_loop ::
  "(string \<Rightarrow> string) \<Rightarrow> connector \<Rightarrow> nat \<Rightarrow> nat \<Rightarrow> string \<Rightarrow> (show_ip option \<times> string) \<times> nat" where
  "show_ip_loop decode connect 0 n lg = ((None, lg), n)"
| "show_ip_loop decode connect (Suc k) n lg =
     (case show_ip_once decode connect n of
        (Inl exc, n') \<Rightarrow> show_ip_loop decode connect k n' (''connect failed: '' @ exc)
      | (Inr (parsed, text), n') \<Rightarrow>
          if si_ip parsed \<noteq> [] then ((Some parsed, text), n')
          else show_ip_loop decode connect k n' text)"

definition read_show_ip ::
  "(string \<Rightarrow> string) \<Rightarrow> connector \<Rightarrow> nat \<Rightarrow> (show_ip option \<times> string) \<times> nat" where
  "read_show_ip decode connect n = show_ip_loop decode connect READ_ATTEMPTS n []"

subsection \<open>Ping and save\<close>

definition ping_once :: "string \<Rightarrow> console \<Rightarrow> string + string \<times> console" where
  "ping_once target c = reading (drain_prompt 8 []) (send (''ping '' @ target @ crlf) c)"

text \<open>The first ping fills the ARP cache; the reply of the second counts.\<close>

definition ping_session :: "connector \<Rightarrow> nat \<Rightarrow> string \<Rightarrow> string + string" where
  "ping_session connect n target =
     (case fst (open_console connect n) of
        Inl e \<Rightarrow> Inl e
      | Inr c \<Rightarrow>
          (case wake_up c of
             Inl e \<Rightarrow> Inl e
           | Inr c1 \<Rightarrow>
               (case ping_once target c1 of
                  Inl e \<Rightarrow> Inl e
                | Inr (_, c2) \<Rightarrow> map_sum id fst (ping_once target c2))))"

definition save_startup_config :: "(string \<Rightarrow> string) \<Rightarrow> connector \<Rightarrow> bool \<times> string" where
  "save_startup_config decode connect =
     (case (case fst (open_console connect 0) of
              Inl e \<Rightarrow> Inl e
            | Inr c \<Rightarrow>
                (case wake_up c of
                   Inl e \<Rightarrow> Inl e
                 | Inr c1 \<Rightarrow> reading (drain_prompt 15 []) (send (''save'' @ crlf) c1))) of
        Inl e \<Rightarrow> (False, ''connect failed: '' @ e)
      | Inr (raw, _) \<Rightarrow> (save_confirmed (decode raw), decode raw))"

end
