(* ===== verification/Check_Handlers.thy ===== *)
theory Check_Handlers
  imports Validation Console
begin

text \<open>
  The check handlers (\<open>validation/checks/vpcs.py\<close>, \<open>frr.py\<close>, \<open>cisco.py\<close>), the context they run in
  (\<open>registry.py\<close>, \<open>context.py\<close>) and their registry, which is the parameter \<open>handlers\<close> of the
  validation runner.  Specs and node states are parsed JSON.  What is Python's or the network's is
  in \<open>check_env\<close>: \<open>repr\<close> and \<open>str\<close> of a value, the decoding of bytes, the consoles behind a host
  and a port, \<open>exec_vtysh\<close> of the gns3-service client, the text of an exception raised by a spec
  value of the wrong type, and addresses that are not IPv4 text.
\<close>

record check_env =
  ce_repr :: "json \<Rightarrow> string"
  ce_str :: "json \<Rightarrow> string"
  ce_decode :: "string \<Rightarrow> string"
  ce_connect :: "string \<Rightarrow> json \<Rightarrow> connector"
  ce_vtysh :: "string \<Rightarrow> json \<Rightarrow> string \<Rightarrow> string + dict"
  ce_raised :: string
  ce_other_net :: "string \<Rightarrow> json option \<Rightarrow> bool"

record check_context =
  cx_gns3_host :: string
  cx_nodes :: dict
  cx_project_id :: string
  cx_frr_client :: bool

subsection \<open>Values\<close>

fun is_true :: "json option \<Rightarrow> bool" where
  "is_true None = False"
| "is_true (Some JNull) = False"
| "is_true (Some (JBool b)) = b"
| "is_true (Some (JInt i)) = (i \<noteq> 0)"
| "is_true (Some (JFloat s)) = (s \<notin> {''0.0'', ''-0.0''})"
| "is_true (Some (JStr s)) = (s \<noteq> [])"
| "is_true (Some (JList xs)) = (xs \<noteq> [])"
| "is_true (Some (JObj d)) = (d \<noteq> [])"

definition or_json :: "json option \<Rightarrow> json option \<Rightarrow> json option" where
  "or_json a b = (if is_true a then a else b)"

definition json_or_null :: "json option \<Rightarrow> json" where
  "json_or_null v = (case v of None \<Rightarrow> JNull | Some j \<Rightarrow> j)"

definition text_of :: "check_env \<Rightarrow> json \<Rightarrow> string" where
  "text_of env j = (case j of JStr s \<Rightarrow> s | _ \<Rightarrow> ce_str env j)"

text \<open>A value that cannot be looked up in a dictionary.\<close>

definition unhashable :: "json option \<Rightarrow> bool" where
  "unhashable v = (case v of Some (JList _) \<Rightarrow> True | Some (JObj _) \<Rightarrow> True | _ \<Rightarrow> False)"

subsection \<open>The context\<close>

text \<open>\<open>nodes_by_name.get(name)\<close>: the state of a node; every key is a text.\<close>

definition node_of :: "check_context \<Rightarrow> json \<Rightarrow> dict option" where
  "node_of ctx name =
     (case name of
        JStr s \<Rightarrow> (case map_of (cx_nodes ctx) s of Some (JObj node) \<Rightarrow> if node \<noteq> [] then Some node else None
                   | _ \<Rightarrow> None)
      | _ \<Rightarrow> None)"

definition node_console_port :: "check_context \<Rightarrow> json \<Rightarrow> json option" where
  "node_console_port ctx name = Option.bind (node_of ctx name) (\<lambda>node. map_of node ''console'')"

definition node_console_host :: "check_env \<Rightarrow> check_context \<Rightarrow> json \<Rightarrow> string" where
  "node_console_host env ctx name =
     (case node_of ctx name of
        None \<Rightarrow> cx_gns3_host ctx
      | Some node \<Rightarrow>
          (let host = or_json (map_of node ''console_host'') (map_of node ''consoleHost'')
           in if \<not> is_true host then cx_gns3_host ctx
              else let h = text_of env (the host)
                   in if h \<in> {''0.0.0.0'', ''::''} then cx_gns3_host ctx else h))"

definition node_type :: "check_env \<Rightarrow> check_context \<Rightarrow> json \<Rightarrow> string" where
  "node_type env ctx name =
     (case node_of ctx name of
        None \<Rightarrow> []
      | Some node \<Rightarrow>
          (let t = or_json (map_of node ''node_type'') (map_of node ''nodeType'')
           in if is_true t then text_of env (the t) else []))"

definition node_status :: "check_env \<Rightarrow> check_context \<Rightarrow> json \<Rightarrow> string" where
  "node_status env ctx name =
     (let s = Option.bind (node_of ctx name) (\<lambda>node. map_of node ''status'')
      in if is_true s then text_of env (the s) else [])"

definition node_id :: "check_context \<Rightarrow> json \<Rightarrow> json option" where
  "node_id ctx name = Option.bind (node_of ctx name) (\<lambda>node. map_of node ''id'')"

text \<open>\<open>build_check_context\<close>: a later node of a name replaces an earlier one.  \<open>hostname\<close> is
  \<open>urlparse(url).hostname\<close>.\<close>

definition gns3_host_from_settings ::
  "(string \<Rightarrow> string option) \<Rightarrow> (string \<times> string \<times> string) option \<Rightarrow> py_error + string" where
  "gns3_host_from_settings hostname gns3 =
     (case gns3 of
        None \<Rightarrow> Inl ValueError
      | Some (node_host, internal_url, public_url) \<Rightarrow>
          if node_host \<noteq> [] then Inr node_host
          else case List.find (\<lambda>h. h \<noteq> [] \<and> h \<noteq> ''gns3-server'')
                 (map (\<lambda>url. case hostname url of None \<Rightarrow> [] | Some h \<Rightarrow> h)
                   (filter (\<lambda>url. url \<noteq> []) [internal_url, public_url])) of
            Some h \<Rightarrow> Inr h
          | None \<Rightarrow> Inl ValueError)"

definition nodes_by_name :: "dict list \<Rightarrow> dict" where
  "nodes_by_name nodes =
     rev (List.map_filter (\<lambda>n. case map_of n ''name'' of
       Some (JStr s) \<Rightarrow> if s \<noteq> [] then Some (s, JObj n) else None | _ \<Rightarrow> None) nodes)"

definition build_check_context ::
  "(string \<Rightarrow> string option) \<Rightarrow> (string \<times> string \<times> string) option \<Rightarrow> dict list \<Rightarrow> string \<Rightarrow>
   py_error + check_context" where
  "build_check_context hostname gns3 nodes project_id =
     map_sum id (\<lambda>host. \<lparr>cx_gns3_host = host, cx_nodes = nodes_by_name nodes,
       cx_project_id = project_id, cx_frr_client = True\<rparr>) (gns3_host_from_settings hostname gns3)"

subsection \<open>Results\<close>

text \<open>A check that was made.  One that could not be made (\<open>failed_result\<close>) carries an error.\<close>

definition verdict :: "bool \<Rightarrow> dict \<Rightarrow> dict \<Rightarrow> string \<Rightarrow> check_result" where
  "verdict ok expect actual log_text = \<lparr>res_ok = ok, res_expected = expect, res_actual = actual,
     res_log = log_text, res_observed = True, res_error_key = [], res_error_params = []\<rparr>"

definition unreadable :: "dict \<Rightarrow> string \<Rightarrow> json \<Rightarrow> nat \<Rightarrow> check_result" where
  "unreadable expect log_text node n = \<lparr>res_ok = False, res_expected = expect,
     res_actual = [], res_log = log_text, res_observed = False,
     res_error_key = ''error.validation.console_unreadable'',
     res_error_params = [(''node'', node), (''attempts'', JInt (int n))]\<rparr>"

definition no_console :: "check_env \<Rightarrow> json \<Rightarrow> string" where
  "no_console env name = ''node '' @ ce_repr env name @ '' not found or no console port''"

text \<open>The node of a spec and its console, for the handlers that read one.\<close>

definition console_of :: "check_env \<Rightarrow> check_context \<Rightarrow> json \<Rightarrow> (string \<times> json) option" where
  "console_of env ctx name =
     (let port = node_console_port ctx name
      in if is_true port then Some (node_console_host env ctx name, the port) else None)"

subsection \<open>VPCS\<close>

definition missing_param :: "string \<Rightarrow> dict \<Rightarrow> check_result" where
  "missing_param name expect =
     failed_result expect (''param '' @ [CHR 0x27] @ name @ [CHR 0x27] @ '' missing'')"

definition read_node_ip ::
  "check_env \<Rightarrow> check_context \<Rightarrow> string \<Rightarrow> dict \<Rightarrow> dict \<Rightarrow> (json \<Rightarrow> show_ip \<Rightarrow> string \<Rightarrow> nat \<Rightarrow> string + check_result) \<Rightarrow>
   string + check_result" where
  "read_node_ip env ctx param params expect use_ip =
     (let node = map_of params param
      in if \<not> is_true node
         then Inr (missing_param param expect)
         else if unhashable node then Inl (ce_raised env)
         else case console_of env ctx (the node) of
           None \<Rightarrow> Inr (failed_result expect (no_console env (the node)))
         | Some (host, port) \<Rightarrow>
             (case read_show_ip (ce_decode env) (ce_connect env host port) 0 of
                ((None, lg), _) \<Rightarrow> Inr (unreadable expect lg (the node) READ_ATTEMPTS)
              | ((Some parsed, lg), n) \<Rightarrow> use_ip (the node) parsed lg n))"

definition actual_show_ip :: "show_ip \<Rightarrow> dict" where
  "actual_show_ip p = [(''ip'', JStr (si_ip p)), (''gateway'', JStr (si_gateway p))]"

definition vpcs_show_ip :: "check_env \<Rightarrow> check_context \<Rightarrow> dict \<Rightarrow> dict \<Rightarrow> string + check_result" where
  "vpcs_show_ip env ctx params expect =
     read_node_ip env ctx ''node'' params expect (\<lambda>_ parsed lg _.
       Inr (verdict (map_of expect ''ip'' = Some (JStr (si_ip parsed)) \<and>
                     map_of expect ''gateway'' = Some (JStr (si_gateway parsed)))
              expect (actual_show_ip parsed) lg))"

definition expected_subnet_ok :: "check_env \<Rightarrow> string \<Rightarrow> json option \<Rightarrow> bool" where
  "expected_subnet_ok env ip subnet =
     (case subnet of
        None \<Rightarrow> ip_in_subnet (\<lambda>a s. ce_other_net env a (Some (JStr s))) ip []
      | Some (JStr s) \<Rightarrow> ip_in_subnet (\<lambda>a s. ce_other_net env a (Some (JStr s))) ip s
      | Some j \<Rightarrow>
          (let addr = strip (hd (split_on (CHR ''/'') ip))
           in addr \<noteq> [] \<and> ce_other_net env addr (Some j)))"

definition vpcs_ip_in_subnet :: "check_env \<Rightarrow> check_context \<Rightarrow> dict \<Rightarrow> dict \<Rightarrow> string + check_result" where
  "vpcs_ip_in_subnet env ctx params expect =
     read_node_ip env ctx ''node'' params expect (\<lambda>_ parsed lg _.
       Inr (verdict (expected_subnet_ok env (si_ip parsed) (map_of expect ''subnet'') \<and>
                     map_of expect ''gateway'' = Some (JStr (si_gateway parsed)))
              expect (actual_show_ip parsed) lg))"

definition ping_actual :: "ping_stats \<Rightarrow> dict" where
  "ping_actual p = (''received'', JInt (int (pg_received p))) #
     (case pg_ttl p of None \<Rightarrow> [] | Some t \<Rightarrow> [(''ttl'', JInt (int t))])"

definition ping_ok :: "dict \<Rightarrow> ping_stats \<Rightarrow> bool" where
  "ping_ok expect p \<longleftrightarrow> matches (Some (pg_received p)) (map_of expect ''received'') \<and>
     (''ttl'' \<in> fst ` set expect \<longrightarrow> matches (pg_ttl p) (map_of expect ''ttl''))"

text \<open>\<open>n\<close> attempts to connect were made before this ping.\<close>

definition vpcs_ping_from ::
  "check_env \<Rightarrow> check_context \<Rightarrow> nat \<Rightarrow> dict \<Rightarrow> dict \<Rightarrow> string + check_result" where
  "vpcs_ping_from env ctx n params expect =
     (let src = map_of params ''from''; target = map_of params ''to''
      in if \<not> is_true src \<or> \<not> is_true target
         then Inr (failed_result expect
           (''params '' @ [CHR 0x27] @ ''from'' @ [CHR 0x27] @ '' and '' @ [CHR 0x27] @ ''to'' @
            [CHR 0x27] @ '' are required''))
         else if unhashable src then Inl (ce_raised env)
         else case console_of env ctx (the src) of
           None \<Rightarrow> Inr (failed_result expect (no_console env (the src)))
         | Some (host, port) \<Rightarrow>
             (case ping_session (ce_connect env host port) n (text_of env (the target)) of
                Inl exc \<Rightarrow> Inr (failed_result expect (''connect failed: '' @ exc))
              | Inr raw \<Rightarrow>
                  (let text = ce_decode env raw; parsed = parse_ping text
                   in if pg_received parsed = 0 \<and> \<not> says_unreachable text
                      then Inr (unreadable expect text (the src) 1)
                      else Inr (verdict (ping_ok expect parsed) expect (ping_actual parsed) text))))"

definition vpcs_ping :: "check_env \<Rightarrow> check_context \<Rightarrow> dict \<Rightarrow> dict \<Rightarrow> string + check_result" where
  "vpcs_ping env ctx params expect = vpcs_ping_from env ctx 0 params expect"

definition vpcs_ping_node :: "check_env \<Rightarrow> check_context \<Rightarrow> dict \<Rightarrow> dict \<Rightarrow> string + check_result" where
  "vpcs_ping_node env ctx params expect =
     read_node_ip env ctx ''to_node'' params expect (\<lambda>target parsed lg n.
       let address = strip (hd (split_on (CHR ''/'') (si_ip parsed)))
       in if address = [] then Inr (unreadable expect lg target READ_ATTEMPTS)
          else vpcs_ping_from env ctx n
            [(''from'', json_or_null (map_of params ''from'')), (''to'', JStr address)] expect)"

subsection \<open>Routers\<close>

text \<open>What the router handlers share: the node and two expectations must be there; \<open>run\<close> gives the
  text of a command or the result to return instead.\<close>

definition router_check ::
  "check_env \<Rightarrow> string \<Rightarrow> string \<Rightarrow> dict \<Rightarrow> dict \<Rightarrow> (json \<Rightarrow> string + (check_result + string)) \<Rightarrow>
   (json \<Rightarrow> json \<Rightarrow> string \<Rightarrow> string + check_result) \<Rightarrow> string + check_result" where
  "router_check env key1 key2 params expect run judge =
     (let node = map_of params ''node''; v1 = map_of expect key1; v2 = map_of expect key2;
          q = [CHR 0x27]
      in if \<not> is_true node then Inr (missing_param ''node'' expect)
         else if \<not> is_true v1 \<or> \<not> is_true v2
         then Inr (failed_result expect
           (''expect must contain '' @ q @ key1 @ q @ '' and '' @ q @ key2 @ q))
         else if unhashable node then Inl (ce_raised env)
         else case run (the node) of
           Inl exc \<Rightarrow> Inl exc
         | Inr (Inl r) \<Rightarrow> Inr r
         | Inr (Inr out) \<Rightarrow> judge (the v1) (the v2) out)"

text \<open>\<open>s.startswith(v)\<close> of a spec value: anything but text raises.\<close>

definition starts_with_value :: "(string \<Rightarrow> string) \<Rightarrow> string \<Rightarrow> json \<Rightarrow> bool option" where
  "starts_with_value fold_case s v =
     (case v of JStr t \<Rightarrow> Some (starts_with (fold_case s) (fold_case t)) | _ \<Rightarrow> None)"

definition neighbor_verdict ::
  "check_env \<Rightarrow> (string \<Rightarrow> string) \<Rightarrow> (string \<Rightarrow> string \<Rightarrow> string option) \<Rightarrow> dict \<Rightarrow>
   json \<Rightarrow> json \<Rightarrow> string \<Rightarrow> string + check_result" where
  "neighbor_verdict env fold_case parse expect neighbor_id expected_state out =
     (let state = (case neighbor_id of JStr n \<Rightarrow> parse out n | _ \<Rightarrow> None);
          actual = [(''neighbor_id'', neighbor_id),
            (''state'', case state of None \<Rightarrow> JNull | Some s \<Rightarrow> JStr s)]
      in case state of
           None \<Rightarrow> Inr (verdict False expect actual out)
         | Some s \<Rightarrow>
             (case starts_with_value fold_case s expected_state of
                None \<Rightarrow> Inl (ce_raised env)
              | Some ok \<Rightarrow> Inr (verdict ok expect actual out)))"

definition route_verdict ::
  "check_env \<Rightarrow> (string \<Rightarrow> string \<Rightarrow> (string \<times> string) option) \<Rightarrow> dict \<Rightarrow>
   json \<Rightarrow> json \<Rightarrow> string \<Rightarrow> string + check_result" where
  "route_verdict env parse expect prefix protocol out =
     (case (case prefix of JStr p \<Rightarrow> parse out p | _ \<Rightarrow> None) of
        None \<Rightarrow> Inr (verdict False expect
          [(''prefix'', prefix), (''protocol'', JNull), (''route'', JNull)] out)
      | Some (code, line) \<Rightarrow>
          (case starts_with_value id code protocol of
             None \<Rightarrow> Inl (ce_raised env)
           | Some ok \<Rightarrow> Inr (verdict ok expect
               [(''prefix'', prefix), (''protocol'', JStr code), (''route'', JStr line)] out)))"

text \<open>\<open>frr._exec_or_error\<close>.\<close>

definition frr_exec ::
  "check_env \<Rightarrow> check_context \<Rightarrow> string \<Rightarrow> dict \<Rightarrow> json \<Rightarrow> string + (check_result + string)" where
  "frr_exec env ctx command expect node =
     (let nid = node_id ctx node
      in if \<not> is_true nid
         then Inr (Inl (failed_result expect (''node '' @ ce_repr env node @ '' not found'')))
         else if cx_project_id ctx = [] \<or> \<not> cx_frr_client ctx
         then Inr (Inl (failed_result expect ''frr_client/project_id not configured in CheckContext''))
         else case ce_vtysh env (cx_project_id ctx) (the nid) command of
           Inl exc \<Rightarrow> Inr (Inl (failed_result expect (''exec_vtysh failed: '' @ exc)))
         | Inr result \<Rightarrow>
             (case map_of result ''stdout'' of
                None \<Rightarrow> Inr (Inr [])
              | Some (JStr out) \<Rightarrow> Inr (Inr out)
              | Some _ \<Rightarrow> Inl (ce_raised env)))"

definition frr_ospf_neighbor :: "check_env \<Rightarrow> check_context \<Rightarrow> dict \<Rightarrow> dict \<Rightarrow> string + check_result" where
  "frr_ospf_neighbor env ctx params expect =
     router_check env ''neighbor_id'' ''state'' params expect
       (frr_exec env ctx ''show ip ospf neighbor'' expect)
       (neighbor_verdict env id parse_neighbor_state expect)"

definition frr_route_in_table :: "check_env \<Rightarrow> check_context \<Rightarrow> dict \<Rightarrow> dict \<Rightarrow> string + check_result" where
  "frr_route_in_table env ctx params expect =
     router_check env ''prefix'' ''protocol'' params expect
       (frr_exec env ctx ''show ip route ospf'' expect) (route_verdict env parse_route expect)"

text \<open>\<open>cisco._exec_cisco\<close>: one attempt to connect; an error after it is raised.\<close>

definition cisco_ask :: "real \<Rightarrow> string \<Rightarrow> console \<Rightarrow> string + string \<times> console" where
  "cisco_ask timeout line c = reading (drain_cisco timeout []) (send (line @ crlf) c)"

definition cisco_session :: "string \<Rightarrow> device \<Rightarrow> string + string" where
  "cisco_session command dev =
     (case reading (drain_cisco 1 []) (sleep (3 / 10) (send crlf (opened dev))) of
        Inl e \<Rightarrow> Inl e
      | Inr (_, c1) \<Rightarrow>
          (case cisco_ask (15 / 10) ''enable'' c1 of
             Inl e \<Rightarrow> Inl e
           | Inr (_, c2) \<Rightarrow>
               (case cisco_ask (15 / 10) ''terminal length 0'' c2 of
                  Inl e \<Rightarrow> Inl e
                | Inr (_, c3) \<Rightarrow> map_sum id fst (cisco_ask 6 command c3))))"

definition cisco_exec ::
  "check_env \<Rightarrow> check_context \<Rightarrow> string \<Rightarrow> dict \<Rightarrow> json \<Rightarrow> string + (check_result + string)" where
  "cisco_exec env ctx command expect node =
     (case console_of env ctx node of
        None \<Rightarrow> Inr (Inl (failed_result expect (no_console env node)))
      | Some (host, port) \<Rightarrow>
          (case ce_connect env host port 0 of
             Inl exc \<Rightarrow> Inr (Inl (failed_result expect (''connect failed: '' @ exc)))
           | Inr dev \<Rightarrow> map_sum id (\<lambda>raw. Inr (ce_decode env raw)) (cisco_session command dev)))"

definition cisco_ospf_neighbor :: "check_env \<Rightarrow> check_context \<Rightarrow> dict \<Rightarrow> dict \<Rightarrow> string + check_result" where
  "cisco_ospf_neighbor env ctx params expect =
     router_check env ''neighbor_id'' ''state'' params expect
       (cisco_exec env ctx ''show ip ospf neighbor'' expect)
       (neighbor_verdict env upper parse_cisco_neighbor expect)"

definition cisco_route_in_table :: "check_env \<Rightarrow> check_context \<Rightarrow> dict \<Rightarrow> dict \<Rightarrow> string + check_result" where
  "cisco_route_in_table env ctx params expect =
     router_check env ''prefix'' ''protocol'' params expect
       (cisco_exec env ctx ''show ip route ospf'' expect) (route_verdict env parse_cisco_route expect)"

text \<open>Without an expected status or address the interface only has to be there; a status that is
  not text raises.\<close>

definition interface_verdict ::
  "check_env \<Rightarrow> dict \<Rightarrow> string \<Rightarrow> iface \<Rightarrow> string + check_result" where
  "interface_verdict env expect out p =
     (let status = map_of expect ''status''; ip = map_of expect ''ip'';
          result = (\<lambda>status_ok. Inr (verdict
            (status_ok \<and> (is_true ip \<longrightarrow> ip = Some (JStr (if_ip p)))) expect
            [(''ip'', JStr (if_ip p)), (''status'', JStr (if_status p))] out))
      in if \<not> is_true status then result True
         else case the status of
           JStr s \<Rightarrow> result (lower (if_status p) = lower s)
         | _ \<Rightarrow> Inl (ce_raised env))"

definition cisco_interface_brief :: "check_env \<Rightarrow> check_context \<Rightarrow> dict \<Rightarrow> dict \<Rightarrow> string + check_result" where
  "cisco_interface_brief env ctx params expect =
     (let node = map_of params ''node''; interface = map_of params ''interface''
      in if \<not> is_true node then Inr (missing_param ''node'' expect)
         else if \<not> is_true interface then Inr (missing_param ''interface'' expect)
         else if unhashable node then Inl (ce_raised env)
         else case cisco_exec env ctx ''show ip interface brief'' expect (the node) of
           Inl exc \<Rightarrow> Inl exc
         | Inr (Inl r) \<Rightarrow> Inr r
         | Inr (Inr out) \<Rightarrow>
             (case (case the interface of JStr i \<Rightarrow> parse_cisco_interface out i | _ \<Rightarrow> None) of
                None \<Rightarrow> Inr ((failed_result expect
                  (''interface '' @ ce_repr env (the interface) @ '' not found''))\<lparr>res_log := out\<rparr>)
              | Some p \<Rightarrow> interface_verdict env expect out p))"

subsection \<open>The registry\<close>

definition registry ::
  "(string \<times> (check_env \<Rightarrow> check_context \<Rightarrow> dict \<Rightarrow> dict \<Rightarrow> string + check_result)) list" where
  "registry = [(''vpcs.show_ip'', vpcs_show_ip), (''vpcs.ping'', vpcs_ping),
     (''vpcs.ip_in_subnet'', vpcs_ip_in_subnet), (''vpcs.ping_node'', vpcs_ping_node),
     (''frr.ospf_neighbor'', frr_ospf_neighbor), (''frr.route_in_table'', frr_route_in_table),
     (''cisco.ospf_neighbor'', cisco_ospf_neighbor), (''cisco.route_in_table'', cisco_route_in_table),
     (''cisco.interface_brief'', cisco_interface_brief)]"

definition get_handler :: "check_env \<Rightarrow> check_context \<Rightarrow> check_handlers" where
  "get_handler env ctx kind = map_option (\<lambda>h. h env ctx) (map_of registry kind)"

end
