(* ===== verification/Check_Facts.thy ===== *)
theory Check_Facts
  imports Check_Handlers
begin

text \<open>
  Facts about the check handlers: what a console read keeps, what a field and a comparison mean,
  which part of an address a subnet fixes, and the contract between the handlers and the
  validation runner.
\<close>

subsection \<open>Reads\<close>

fun bytes :: "arrivals \<Rightarrow> string" where
  "bytes [] = []"
| "bytes ((_, Bytes s) # es) = s @ bytes es"
| "bytes ((_, Lost _) # es) = bytes es"

lemma bytes_append [simp]: "bytes (es @ fs) = bytes es @ bytes fs"
  by (induction es rule: bytes.induct) simp_all

lemma bytes_elapse [simp]: "bytes (elapse t es) = bytes es"
proof (induction t es rule: elapse.induct)
  case (2 t d x es)
  then show ?case by (cases x) simp_all
qed simp

definition conserving :: "string \<Rightarrow> (arrivals \<Rightarrow> string + string \<times> arrivals) \<Rightarrow> bool" where
  "conserving buf drain \<longleftrightarrow>
     (\<forall>es out rest. drain es = Inr (out, rest) \<longrightarrow> out @ bytes rest = buf @ bytes es)"

lemma drain_idle_conserves: "drain_idle idle left es = Inr (out, rest) \<Longrightarrow> out @ bytes rest = bytes es"
proof (induction idle left es arbitrary: out rest rule: drain_idle.induct)
  case (2 idle left d x es)
  then show ?case
    by (cases x) (auto simp: Let_def split: if_splits sum.splits prod.splits)
qed simp

lemma drain_prompt_conserves:
  "drain_prompt left buf es = Inr (out, rest) \<Longrightarrow> out @ bytes rest = buf @ bytes es"
proof (induction left buf es arbitrary: out rest rule: drain_prompt.induct)
  case (2 left buf d x es)
  then show ?case by (cases x) (auto split: if_splits)
qed simp

lemma drain_tail_conserves:
  "drain_tail left buf es = Inr (out, rest) \<Longrightarrow> out @ bytes rest = buf @ bytes es"
proof (induction left buf es arbitrary: out rest rule: drain_tail.induct)
  case (2 left buf d x es)
  then show ?case by (cases x) (auto simp: Let_def split: if_splits)
qed simp

lemma drain_cisco_conserves:
  "drain_cisco left buf es = Inr (out, rest) \<Longrightarrow> out @ bytes rest = buf @ bytes es"
proof (induction left buf es arbitrary: out rest rule: drain_cisco.induct)
  case (2 left buf d x es)
  then show ?case
    by (cases x) (auto simp: Let_def split: if_splits dest: drain_tail_conserves)
qed simp

lemmas drains_conserve = drain_idle_conserves drain_prompt_conserves drain_cisco_conserves

lemma drain_prompt_cases:
  assumes "drain_prompt left buf ((d, x) # es) = Inr (out, rest)"
  obtains "out = buf"
    | s where "x = Bytes s" "contains ''> '' (buf @ s)" "out = buf @ s" "rest = es"
    | s where "x = Bytes s" "\<not> contains ''> '' (buf @ s)"
        "drain_prompt (left - d) (buf @ s) es = Inr (out, rest)"
proof (cases x)
  case (Bytes s)
  then have "out = buf \<or> (contains ''> '' (buf @ s) \<and> out = buf @ s \<and> rest = es) \<or>
      (\<not> contains ''> '' (buf @ s) \<and> drain_prompt (left - d) (buf @ s) es = Inr (out, rest))"
    using assms by (simp split: if_splits)
  with that Bytes show ?thesis by blast
next
  case (Lost e)
  then have "out = buf" using assms by (simp split: if_splits)
  with that(1) show ?thesis by blast
qed

lemma drain_prompt_stops:
  assumes "drain_prompt left buf es = Inr (out, rest)" and "\<not> contains ''> '' buf"
    and "contains ''> '' out"
  shows "\<exists>consumed. es = consumed @ rest \<and> consumed \<noteq> [] \<and>
    \<not> contains ''> '' (buf @ bytes (butlast consumed))"
  using assms
proof (induction es arbitrary: left buf)
  case (Cons e es)
  obtain d x where e: "e = (d, x)" by (cases e)
  from Cons.prems(1) [unfolded e] show ?case
  proof (cases rule: drain_prompt_cases)
    case 1
    with Cons.prems(2,3) show ?thesis by blast
  next
    case (2 s)
    then have "e # es = [e] @ rest \<and> [e] \<noteq> [] \<and> \<not> contains ''> '' (buf @ bytes (butlast [e]))"
      using Cons.prems(2) by simp
    then show ?thesis by blast
  next
    case (3 s)
    from Cons.IH [OF 3(3,2) Cons.prems(3)] obtain consumed where c: "es = consumed @ rest" "consumed \<noteq> []"
      "\<not> contains ''> '' ((buf @ s) @ bytes (butlast consumed))" by blast
    then have "e # es = (e # consumed) @ rest \<and> \<not> contains ''> '' (buf @ bytes (butlast (e # consumed)))"
      unfolding e 3(1) by simp
    then show ?thesis by blast
  qed
next
  case Nil
  then show ?case by simp
qed

subsection \<open>\<open>show ip\<close> says what the console said\<close>

lemma show_ip_once_parses:
  assumes "show_ip_once decode connect n = (Inr (parsed, text), n')"
  shows "parsed = parse_show_ip text"
proof -
  obtain c where "fst (open_console connect n) = Inr c"
    using assms by (auto simp: show_ip_once_def split: prod.splits sum.splits)
  with assms obtain c1 raw where "reply_show_ip decode c1 = Inr raw"
    "parsed = parse_show_ip (decode raw)" "text = decode raw"
    by (auto simp: show_ip_once_def map_sum_def split: prod.splits sum.splits)
  then show ?thesis by simp
qed

lemma show_ip_loop_parses:
  "show_ip_loop decode connect k n lg = ((Some parsed, text), n') \<Longrightarrow>
   parsed = parse_show_ip text \<and> si_ip parsed \<noteq> []"
proof (induction k arbitrary: n lg)
  case (Suc k)
  then show ?case
    by (auto split: prod.splits sum.splits if_splits dest: show_ip_once_parses)
qed simp

lemma read_show_ip_parses:
  "read_show_ip decode connect n = ((Some parsed, text), n') \<Longrightarrow>
   parsed = parse_show_ip text \<and> si_ip parsed \<noteq> []"
  unfolding read_show_ip_def by (rule show_ip_loop_parses)

lemma parse_show_ip_empty [simp]: "parse_show_ip [] = \<lparr>si_ip = [], si_gateway = []\<rparr>"
  by (simp add: parse_show_ip_def or_empty_def field_here_def prefix_ci_def lower_def)

text \<open>When nobody answers.\<close>

definition refusing :: "connector \<Rightarrow> bool" where
  "refusing connect \<longleftrightarrow> (\<forall>n. \<exists>exc. connect n = Inl exc)"

lemma open_loop_refused: "refusing connect \<Longrightarrow> \<exists>exc. fst (open_loop connect k n last_exc) = Inl exc"
proof (induction k arbitrary: n last_exc)
  case (Suc k)
  from Suc.prems obtain exc where "connect n = Inl exc" unfolding refusing_def by blast
  with Suc show ?case by simp
qed simp

lemma open_console_refused:
  assumes "refusing connect"
  obtains exc n' where "open_console connect n = (Inl exc, n')"
  using open_loop_refused [OF assms, of CONNECT_ATTEMPTS n] unfolding open_console_def
  by (metis prod.collapse)

lemma show_ip_loop_refused: "refusing connect \<Longrightarrow> fst (fst (show_ip_loop decode connect k n lg)) = None"
proof (induction k arbitrary: n lg)
  case (Suc k)
  obtain exc n' where "open_console connect n = (Inl exc, n')" using open_console_refused [OF Suc.prems] .
  with Suc show ?case by (simp add: show_ip_once_def)
qed simp

lemma ping_session_refused: "refusing connect \<Longrightarrow> \<exists>exc. ping_session connect n target = Inl exc"
  using open_console_refused [of connect n] by (metis ping_session_def fst_conv sum.case(1))

subsection \<open>Fields\<close>

lemma lstrip_spaces: "list_all is_space ws \<Longrightarrow> lstrip (ws @ s) = lstrip s"
  by (induction ws) (simp_all add: lstrip_def)

lemma lstrip_split: "\<exists>ws. list_all is_space ws \<and> s = ws @ lstrip s"
  unfolding lstrip_def
  by (intro exI [of _ "takeWhile is_space s"]) (auto simp: list_all_iff dest: set_takeWhileD)

lemma nonspace_run:
  assumes "list_all (\<lambda>c. \<not> is_space c) v" and "rest = [] \<or> is_space (hd rest)"
  shows "nonspace (v @ rest) = v"
  using assms
proof (induction v)
  case Nil
  then show ?case by (cases rest) (auto simp: nonspace_def)
qed (simp add: nonspace_def)

lemma nonspace_split:
  "list_all (\<lambda>c. \<not> is_space c) (nonspace s) \<and>
   (\<exists>rest. s = nonspace s @ rest \<and> (rest = [] \<or> is_space (hd rest)))"
proof
  let ?P = "\<lambda>c. \<not> is_space c"
  show "list_all ?P (nonspace s)" by (auto simp: nonspace_def list_all_iff dest: set_takeWhileD)
  have "s = nonspace s @ dropWhile ?P s" by (simp add: nonspace_def)
  moreover have "dropWhile ?P s = [] \<or> is_space (hd (dropWhile ?P s))"
    using hd_dropWhile [of ?P s] by blast
  ultimately show "\<exists>rest. s = nonspace s @ rest \<and> (rest = [] \<or> is_space (hd rest))" by blast
qed

definition labelled :: "string \<Rightarrow> string \<Rightarrow> string \<Rightarrow> bool" where
  "labelled label s v \<longleftrightarrow> (\<exists>lab ws ws' rest. s = lab @ ws @ CHR '':'' # ws' @ v @ rest \<and>
     lower lab = lower label \<and> list_all is_space ws \<and> list_all is_space ws' \<and>
     v \<noteq> [] \<and> list_all (\<lambda>c. \<not> is_space c) v \<and> (rest = [] \<or> is_space (hd rest)))"

lemma colon_no_space: "\<not> is_space (CHR '':'')"
  by (simp add: is_space_def)

lemma lstrip_stays: "c \<noteq> [] \<Longrightarrow> \<not> is_space (hd c) \<Longrightarrow> lstrip c = c"
  by (cases c) (simp_all add: lstrip_def)

lemma field_here_iff: "field_here label s = Some v \<longleftrightarrow> labelled label s v"
proof
  assume h: "field_here label s = Some v"
  then have lab: "lower (take (length label) s) = lower label"
    by (simp add: field_here_def prefix_ci_def split: if_splits)
  obtain c r where r: "lstrip (drop (length label) s) = c # r"
    using h lab by (auto simp: field_here_def prefix_ci_def split: list.splits)
  with h lab have c: "c = CHR '':''" and v: "nonspace (lstrip r) = v" "v \<noteq> []"
    by (auto simp: field_here_def prefix_ci_def Let_def split: if_splits)
  obtain ws ws' where ws: "list_all is_space ws" "drop (length label) s = ws @ CHR '':'' # r"
    and ws': "list_all is_space ws'" "r = ws' @ lstrip r"
    using lstrip_split [of "drop (length label) s"] lstrip_split [of r] r c by auto
  obtain rest where rest: "lstrip r = v @ rest" "rest = [] \<or> is_space (hd rest)"
    and vs: "list_all (\<lambda>c. \<not> is_space c) v" using nonspace_split [of "lstrip r"] v(1) by auto
  have "s = take (length label) s @ ws @ CHR '':'' # ws' @ v @ rest"
    using ws(2) ws'(2) rest(1) by (metis append_take_drop_id)
  then show "labelled label s v" using lab ws(1) ws'(1) v(2) vs rest(2) unfolding labelled_def by blast
next
  assume "labelled label s v"
  then obtain lab ws ws' rest where s: "s = lab @ ws @ CHR '':'' # ws' @ v @ rest"
    and lab: "lower lab = lower label" and sp: "list_all is_space ws" "list_all is_space ws'"
    and v: "v \<noteq> []" "list_all (\<lambda>c. \<not> is_space c) v" and rest: "rest = [] \<or> is_space (hd rest)"
    unfolding labelled_def by blast
  have len: "length lab = length label" using lab by (rule lower_eq_length)
  have "lstrip (ws @ CHR '':'' # ws' @ v @ rest) = CHR '':'' # ws' @ v @ rest"
    using sp(1) lstrip_stays [of "CHR '':'' # ws' @ v @ rest"] colon_no_space by (simp add: lstrip_spaces)
  moreover have "lstrip (ws' @ v @ rest) = v @ rest"
    using sp(2) v lstrip_stays [of "v @ rest"] by (cases v) (simp_all add: lstrip_spaces)
  ultimately show "field_here label s = Some v"
    using lab len v rest by (simp add: s field_here_def prefix_ci_def Let_def nonspace_run)
qed

lemma field_first:
  "field label s = Some v \<longleftrightarrow>
     (\<exists>i \<le> length s. labelled label (drop i s) v \<and> (\<forall>j < i. \<forall>w. \<not> labelled label (drop j s) w))"
proof (induction s)
  case Nil
  show ?case by (simp add: field_here_iff)
next
  case (Cons c cs)
  show ?case
  proof (cases "field_here label (c # cs)")
    case None
    then have no: "\<not> labelled label (c # cs) w" for w using field_here_iff [of label "c # cs" w] by simp
    have "(\<exists>i \<le> length (c # cs). labelled label (drop i (c # cs)) v \<and>
        (\<forall>j < i. \<forall>w. \<not> labelled label (drop j (c # cs)) w)) \<longleftrightarrow>
      (\<exists>i \<le> length cs. labelled label (drop i cs) v \<and> (\<forall>j < i. \<forall>w. \<not> labelled label (drop j cs) w))"
      (is "?L \<longleftrightarrow> ?R")
    proof
      assume ?L
      then obtain i where i: "i \<le> Suc (length cs)" "labelled label (drop i (c # cs)) v"
        "\<forall>j < i. \<forall>w. \<not> labelled label (drop j (c # cs)) w" by auto
      then obtain k where "i = Suc k" using no by (cases i) auto
      with i show ?R by (intro exI [of _ k]) force
    next
      assume ?R
      then obtain k where k: "k \<le> length cs" "labelled label (drop k cs) v"
        "\<forall>j < k. \<forall>w. \<not> labelled label (drop j cs) w" by blast
      have "\<not> labelled label (drop j (c # cs)) w" if "j < Suc k" for j w
        using that k(3) no by (cases j) auto
      with k(1,2) show ?L by (intro exI [of _ "Suc k"]) auto
    qed
    with None Cons.IH show ?thesis by simp
  next
    case (Some u)
    then have u: "labelled label (c # cs) u" by (simp add: field_here_iff)
    show ?thesis
    proof
      assume "field label (c # cs) = Some v"
      with Some u show "\<exists>i \<le> length (c # cs). labelled label (drop i (c # cs)) v \<and>
          (\<forall>j < i. \<forall>w. \<not> labelled label (drop j (c # cs)) w)" by (intro exI [of _ 0]) simp
    next
      assume "\<exists>i \<le> length (c # cs). labelled label (drop i (c # cs)) v \<and>
          (\<forall>j < i. \<forall>w. \<not> labelled label (drop j (c # cs)) w)"
      then obtain i where i: "labelled label (drop i (c # cs)) v"
        "\<forall>j < i. \<forall>w. \<not> labelled label (drop j (c # cs)) w" by blast
      then have "i = 0" using u by (metis drop0 gr_zeroI)
      with i(1) have "field_here label (c # cs) = Some v" by (simp add: field_here_iff)
      then show "field label (c # cs) = Some v" by simp
    qed
  qed
qed

subsection \<open>Addresses\<close>

lemma bit_netmask: "p \<le> 32 \<Longrightarrow> bit (netmask p) n \<longleftrightarrow> 32 - p \<le> n \<and> n < 32"
  unfolding netmask_def by (subst bit_push_bit_iff) (auto simp: possible_bit_def)

lemma masked_eq_iff:
  fixes w v :: "32 word"
  assumes "p \<le> 32"
  shows "w AND netmask p = v AND netmask p \<longleftrightarrow> drop_bit (32 - p) w = drop_bit (32 - p) v"
proof
  assume eq: "w AND netmask p = v AND netmask p"
  show "drop_bit (32 - p) w = drop_bit (32 - p) v"
  proof (rule bit_word_eqI)
    fix n assume "n < LENGTH(32)"
    have "bit (w AND netmask p) (32 - p + n) = bit (v AND netmask p) (32 - p + n)" by (simp add: eq)
    then have "bit w (32 - p + n) = bit v (32 - p + n)" if "32 - p + n < 32"
      using that bit_netmask [OF assms, of "32 - p + n"] by (simp only: bit_and_iff) simp
    moreover have "\<not> bit w (32 - p + n) \<and> \<not> bit v (32 - p + n)" if "\<not> 32 - p + n < 32"
      using that bit_imp_le_length [of w "32 - p + n"] bit_imp_le_length [of v "32 - p + n"] by auto
    ultimately show "bit (drop_bit (32 - p) w) n = bit (drop_bit (32 - p) v) n"
      by (auto simp: bit_drop_bit_eq)
  qed
next
  assume eq: "drop_bit (32 - p) w = drop_bit (32 - p) v"
  show "w AND netmask p = v AND netmask p"
  proof (rule bit_word_eqI)
    fix n assume n: "n < LENGTH(32)"
    have "bit w n = bit v n" if "32 - p \<le> n"
    proof -
      have "bit (drop_bit (32 - p) w) (n - (32 - p)) = bit (drop_bit (32 - p) v) (n - (32 - p))"
        by (simp add: eq)
      then show ?thesis using that by (simp add: bit_drop_bit_eq)
    qed
    then show "bit (w AND netmask p) n = bit (v AND netmask p) n"
      using assms by (auto simp: bit_and_iff bit_netmask)
  qed
qed

lemma drop_bit_eq_iff: "drop_bit k (w :: 32 word) = drop_bit k v \<longleftrightarrow> unat w div 2 ^ k = unat v div 2 ^ k"
proof -
  have "drop_bit k w = drop_bit k v \<longleftrightarrow> unat (drop_bit k w) = unat (drop_bit k v)" by (simp add: word_unat_eq_iff)
  also have "\<dots> \<longleftrightarrow> unat w div 2 ^ k = unat v div 2 ^ k"
    by (simp only: unat_drop_bit_eq) (simp only: drop_bit_eq_div)
  finally show ?thesis .
qed

lemma in_split_on: "c \<in> set s \<Longrightarrow> c = sep \<or> (\<exists>p \<in> set (split_on sep s). c \<in> set p)"
proof (induction s)
  case (Cons x xs)
  obtain q qs where q: "split_on sep xs = q # qs" by (cases "split_on sep xs") auto
  with Cons show ?case by (cases "c = x") auto
qed simp

lemma split_on_free: "sep \<notin> set s \<Longrightarrow> split_on sep s = [s]"
  by (induction s) auto

lemma split_on_cut: "sep \<notin> set s \<Longrightarrow> split_on sep (s @ sep # t) = s # split_on sep t"
  by (induction s) auto

lemma parse_octet_chars: "parse_octet s = Some n \<Longrightarrow> list_all is_digit s"
  by (auto simp: parse_octet_def is_number_def split: if_splits)

lemma parse_ipv4_octets:
  assumes "parse_ipv4 a = Some w"
  shows "\<exists>n1 n2 n3 n4. map parse_octet (split_on (CHR ''.'') a) = map Some [n1, n2, n3, n4] \<and>
    w = ipv4_of_octets n1 n2 n3 n4"
  using assms unfolding parse_ipv4_def by (simp split: list.splits option.splits)

lemma parse_ipv4_chars:
  assumes "parse_ipv4 a = Some w" and "c \<in> set a"
  shows "is_digit c \<or> c = CHR ''.''"
proof -
  have "\<forall>p \<in> set (split_on (CHR ''.'') a). parse_octet p \<noteq> None"
  proof
    fix p assume "p \<in> set (split_on (CHR ''.'') a)"
    then have "parse_octet p \<in> set (map parse_octet (split_on (CHR ''.'') a))" by simp
    moreover obtain ns where "map parse_octet (split_on (CHR ''.'') a) = map Some ns"
      using parse_ipv4_octets [OF assms(1)] by blast
    then have "None \<notin> set (map parse_octet (split_on (CHR ''.'') a))" by simp
    ultimately show "parse_octet p \<noteq> None" by metis
  qed
  with in_split_on [OF assms(2), of "CHR ''.''"] show ?thesis
    by (fastforce dest: parse_octet_chars simp: list_all_iff)
qed

lemma digit_no_space: "is_digit c \<Longrightarrow> \<not> is_space c \<and> c \<noteq> CHR ''/''"
  by (auto simp: is_digit_def is_space_def)

lemma strip_no_space: "s \<noteq> [] \<Longrightarrow> list_all (\<lambda>c. \<not> is_space c) s \<Longrightarrow> strip s = s"
proof -
  assume s: "s \<noteq> []" "list_all (\<lambda>c. \<not> is_space c) s"
  have "dropWhile is_space t = t" if "list_all (\<lambda>c. \<not> is_space c) t" for t using that by (cases t) auto
  then show ?thesis using s by (simp add: strip_def rstrip_def lstrip_def)
qed

lemma parse_ipv4_plain:
  assumes "parse_ipv4 a = Some w"
  shows "a \<noteq> []" and "strip a = a" and "CHR ''/'' \<notin> set a"
proof -
  show ne: "a \<noteq> []" using assms by (auto simp: parse_ipv4_def parse_octet_def is_number_def)
  have plain: "\<not> is_space c \<and> c \<noteq> CHR ''/''" if "c \<in> set a" for c
    using parse_ipv4_chars [OF assms that] digit_no_space by (auto simp: is_space_def)
  then show "strip a = a" using ne by (intro strip_no_space) (auto simp: list_all_iff)
  show "CHR ''/'' \<notin> set a" using plain by blast
qed

lemma subnet_spec:
  assumes "parse_ipv4 a = Some w" and "parse_ipv4 b = Some v" and "is_number ds" and "nat_of_digits ds \<le> 32"
    and "len_part = [] \<or> hd len_part = CHR ''/''"
  shows "ip_in_subnet ip6 (a @ len_part) (b @ ''/'' @ ds) \<longleftrightarrow>
    unat w div 2 ^ (32 - nat_of_digits ds) = unat v div 2 ^ (32 - nat_of_digits ds)"
proof -
  note a = parse_ipv4_plain [OF assms(1)] and b = parse_ipv4_plain [OF assms(2)]
  have "hd (split_on (CHR ''/'') (a @ len_part)) = a"
    using assms(5) a(3) by (cases len_part) (simp_all add: split_on_free split_on_cut)
  moreover have "CHR ''/'' \<notin> set ds" using assms(3) digit_no_space by (auto simp: is_number_def list_all_iff)
  then have "parse_network4 (b @ ''/'' @ ds) =
      Some (v AND netmask (nat_of_digits ds), nat_of_digits ds)"
    using b(3) assms(2-4) by (simp add: parse_network4_def split_on_cut split_on_free parse_prefix_def)
  ultimately show ?thesis
    using a(1,2) assms(1,4)
    by (simp add: ip_in_subnet_def Let_def in_network_def masked_eq_iff drop_bit_eq_iff)
qed

subsection \<open>Expected numbers\<close>

lemma lstrip_digits:
  "list_all is_space ws \<Longrightarrow> is_number ds \<Longrightarrow> lstrip (ws @ ds @ rest) = ds @ rest"
  using lstrip_stays [of "ds @ rest"] digit_no_space
  by (cases ds) (auto simp: lstrip_spaces is_number_def)

lemma digits_number:
  assumes "is_number ds" and "list_all is_space rest"
  shows "digits (ds @ rest) = ds" and "after_digits (ds @ rest) = rest"
proof -
  have "\<not> is_digit c" if "c \<in> set rest" for c
    using that assms(2) digit_no_space by (auto simp: list_all_iff)
  then have "takeWhile is_digit rest = []" "dropWhile is_digit rest = rest"
    by (cases rest; simp)+
  then show "digits (ds @ rest) = ds" "after_digits (ds @ rest) = rest"
    using assms(1) by (simp_all add: digits_def after_digits_def is_number_def list_all_iff)
qed

lemma lstrip_all_spaces: "list_all is_space ws \<Longrightarrow> lstrip ws = []"
  using lstrip_spaces [of ws "[]"] by (simp add: lstrip_def)

definition OPERATORS :: "string list" where
  "OPERATORS = ['''', ''='', ''=='', ''>='', ''<='', ''>'', ''<'']"

lemma split_operator_simps:
  "split_operator (CHR ''>'' # CHR ''='' # t) = (''>='', t)"
  "split_operator (CHR ''<'' # CHR ''='' # t) = (''<='', t)"
  "split_operator (CHR ''='' # CHR ''='' # t) = (''=='', t)"
  "c \<noteq> CHR ''='' \<Longrightarrow> split_operator (CHR ''='' # c # t) = (''='', c # t)"
  "c \<noteq> CHR ''='' \<Longrightarrow> split_operator (CHR ''>'' # c # t) = (''>'', c # t)"
  "c \<noteq> CHR ''='' \<Longrightarrow> split_operator (CHR ''<'' # c # t) = (''<'', c # t)"
  "c \<notin> {CHR ''='', CHR ''>'', CHR ''<''} \<Longrightarrow> split_operator (c # t) = (''='', c # t)"
  by (simp_all add: split_operator_def starts_with_def)

lemma split_operator_spec:
  assumes "oper \<in> set OPERATORS" and "list_all is_space ws" and "list_all is_space ws'" and "is_number ds"
  shows "split_operator (lstrip (ws @ oper @ ws' @ ds @ rest)) =
    (if oper = [] then (''='', ds @ rest) else (oper, ws' @ ds @ rest))"
proof -
  obtain d ds' where ds: "ds = d # ds'" "is_digit d" using assms(4) by (cases ds) (auto simp: is_number_def)
  have d: "d \<notin> {CHR ''='', CHR ''>'', CHR ''<''}" using ds(2) by (auto simp: is_digit_def)
  obtain c t where ct: "ws' @ ds @ rest = c # t" and c: "c \<noteq> CHR ''=''"
  proof (cases ws')
    case Nil
    with d show ?thesis using that unfolding ds(1) by simp
  next
    case (Cons a list)
    then have "is_space a" using assms(3) by simp
    then have "a \<noteq> CHR ''=''" by (auto simp: is_space_def)
    with Cons show ?thesis using that by simp
  qed
  have "\<not> is_space (CHR ''='') \<and> \<not> is_space (CHR ''>'') \<and> \<not> is_space (CHR ''<'')"
    by (simp add: is_space_def)
  then have start: "lstrip (ws @ oper @ c # t) = oper @ c # t" if "oper \<noteq> []"
    using assms(1) that lstrip_stays [of "oper @ c # t"]
    unfolding lstrip_spaces [OF assms(2)] OPERATORS_def by auto
  show ?thesis
  proof (cases "oper = []")
    case True
    then have "lstrip (ws @ oper @ ws' @ ds @ rest) = ds @ rest"
      using lstrip_digits [OF assms(3,4)] by (simp add: lstrip_spaces [OF assms(2)])
    with True d show ?thesis unfolding ds(1) by (simp add: split_operator_simps)
  next
    case False
    with assms(1) consider "oper = ''=''" | "oper = ''==''" | "oper = ''>=''" | "oper = ''<=''"
      | "oper = ''>''" | "oper = ''<''" unfolding OPERATORS_def by auto
    then show ?thesis unfolding ct start [OF False]
      by cases (simp_all add: split_operator_simps c)
  qed
qed

lemma comparison_spec:
  assumes "oper \<in> set OPERATORS" and "list_all is_space ws" and "list_all is_space ws'"
    and "list_all is_space ws''" and "is_number ds"
  shows "matches (Some n) (Some (JStr (ws @ oper @ ws' @ ds @ ws''))) \<longleftrightarrow>
    compare_op oper n (nat_of_digits ds)"
proof -
  let ?s = "ws @ oper @ ws' @ ds @ ws''"
  have ne: "ds \<noteq> []" using assms(5) by (simp add: is_number_def)
  have "lstrip (snd (split_operator (lstrip ?s))) = ds @ ws''"
    using lstrip_digits [OF assms(3,5)] lstrip_digits [of "[]" ds ws''] assms(5)
    by (simp add: split_operator_spec [OF assms(1-3,5)])
  then have "parse_comparison ?s = Some (if oper = [] then ''='' else oper, nat_of_digits ds)"
    using digits_number [OF assms(5,4)] ne lstrip_all_spaces [OF assms(4)]
    by (simp add: parse_comparison_def Let_def case_prod_beta split_operator_spec [OF assms(1-3,5)])
  then show ?thesis by (simp add: matches_def compare_op_def)
qed

subsection \<open>The contract of the handlers\<close>

text \<open>A check that could not be made has an error to show and never passes, and every result keeps
  what was expected.\<close>

definition answers :: "dict \<Rightarrow> string + check_result \<Rightarrow> bool" where
  "answers expect x \<longleftrightarrow> (case x of Inl _ \<Rightarrow> True
     | Inr r \<Rightarrow> res_expected r = expect \<and> (\<not> res_observed r \<longrightarrow> \<not> res_ok r \<and> res_error_key r \<noteq> []))"

locale honest_checks =
  fixes handlers :: check_handlers
  assumes honest: "handlers kind = Some h \<Longrightarrow> answers expect (h params expect)"
begin

lemma eval_check_honest:
  "res_expected (eval_check handlers c) = dict_obj ''expect'' c \<and>
   (\<not> res_observed (eval_check handlers c) \<longrightarrow> \<not> res_ok (eval_check handlers c))"
proof (cases "handlers (dict_str ''kind'' c)")
  case None
  then show ?thesis by (simp add: eval_check_def failed_result_def Let_def)
next
  case (Some h)
  from honest [OF this, of "dict_obj ''expect'' c" "without [''kind'', ''expect''] c"] Some show ?thesis
    by (auto simp: eval_check_def answers_def failed_result_def Let_def split: sum.splits)
qed

lemma row_honest:
  "cr_expected (run_check handlers msg locale c) = dict_obj ''expect'' c \<and>
   (cr_ok (run_check handlers msg locale c) \<longrightarrow> \<not> cr_unobserved (run_check handlers msg locale c))"
  using eval_check_honest [of c] by (auto simp: run_check_def check_record_def)

lemma passed_step_observed:
  assumes "s \<in> set (evaluate_spec handlers msg spec locale)" and "sr_ok s"
  shows "list_all (\<lambda>r. cr_ok r \<and> \<not> cr_unobserved r) (sr_checks s)"
proof -
  obtain sp where s: "s = evaluate_step handlers msg locale sp" using assms(1) by (auto simp: evaluate_spec_def)
  have "cr_ok (run_check handlers msg locale c)" if "c \<in> set (sp_checks sp)" for c
    using that assms(2) unfolding s
    by (simp add: evaluate_step_def list_all_iff run_check_def check_record_def)
  with row_honest show ?thesis unfolding s by (simp add: evaluate_step_def list_all_iff)
qed

end

lemma answers_simps [simp]:
  "answers expect (Inl e)" "answers expect (Inr (verdict ok expect actual lg))"
  "answers expect (Inr (failed_result expect err))" "answers expect (Inr (missing_param p expect))"
  "answers expect (Inr (unreadable expect lg node n))"
  by (simp_all add: answers_def verdict_def failed_result_def missing_param_def unreadable_def)

lemma answers_read_node_ip:
  "(\<And>node parsed lg n. answers expect (use_ip node parsed lg n)) \<Longrightarrow>
   answers expect (read_node_ip env ctx param params expect use_ip)"
  by (simp add: read_node_ip_def Let_def split: option.splits prod.splits)

lemma answers_router_check:
  assumes "\<And>node r. run node = Inr (Inl r) \<Longrightarrow> answers expect (Inr r)"
    and "\<And>a b out. answers expect (judge a b out)"
  shows "answers expect (router_check env k1 k2 params expect run judge)"
  using assms by (auto simp: router_check_def Let_def split: sum.splits)

lemma frr_exec_failed: "frr_exec env ctx command expect node = Inr (Inl r) \<Longrightarrow> answers expect (Inr r)"
  by (auto simp: frr_exec_def Let_def split: if_splits sum.splits option.splits json.splits)

lemma cisco_exec_failed: "cisco_exec env ctx command expect node = Inr (Inl r) \<Longrightarrow> answers expect (Inr r)"
  by (auto simp: cisco_exec_def map_sum_def split: if_splits sum.splits option.splits prod.splits)

lemma answers_verdicts:
  "answers expect (neighbor_verdict env fold_case parse expect a b out)"
  "answers expect (route_verdict env rparse expect a b out)"
  "answers expect (interface_verdict env expect out p)"
  by (simp_all add: neighbor_verdict_def route_verdict_def interface_verdict_def Let_def
      split: option.splits prod.splits json.splits)

lemma answers_ping: "answers expect (vpcs_ping_from env ctx n params expect)"
  by (simp add: vpcs_ping_from_def Let_def split: option.splits prod.splits sum.splits)

lemma registered_handlers_answer:
  assumes "map_of registry kind = Some h"
  shows "answers expect (h env ctx params expect)"
proof -
  have "answers expect (cisco_interface_brief env ctx params expect)"
    by (auto simp: cisco_interface_brief_def Let_def answers_verdicts dest: cisco_exec_failed
        split: sum.splits option.splits) (simp add: answers_def failed_result_def)
  moreover have "h \<in> snd ` set registry" using map_of_SomeD [OF assms] by force
  ultimately show ?thesis
    unfolding registry_def
    by (auto simp: vpcs_show_ip_def vpcs_ip_in_subnet_def vpcs_ping_def vpcs_ping_node_def
        frr_ospf_neighbor_def frr_route_in_table_def cisco_ospf_neighbor_def cisco_route_in_table_def Let_def
        intro!: answers_read_node_ip answers_router_check answers_verdicts answers_ping
        dest: frr_exec_failed cisco_exec_failed)
qed

interpretation device_checks: honest_checks "get_handler env ctx"
  by unfold_locales (auto simp: get_handler_def intro: registered_handlers_answer)

end
