(* ===== verification/Check_Properties.thy ===== *)
theory Check_Properties
  imports Check_Facts
begin

text \<open>
  Properties of the checks made on devices: what a verdict rests on, and how it differs from
  not having been able to look.
\<close>


text \<open>A \<open>show ip\<close> check passes exactly when it was observed and the text in its log gives the
  address and the gateway that are expected; it is unobserved exactly when its node has a console
  and no attempt read an address from it.\<close>

theorem show_ip_verdict:
  assumes "vpcs_show_ip env ctx params expect = Inr r"
  shows "res_ok r = (res_observed r \<and> si_ip (parse_show_ip (res_log r)) \<noteq> [] \<and>
      map_of expect ''ip'' = Some (JStr (si_ip (parse_show_ip (res_log r)))) \<and>
      map_of expect ''gateway'' = Some (JStr (si_gateway (parse_show_ip (res_log r))))) \<and>
    res_observed r = (\<not> (is_true (map_of params ''node'') \<and>
      (\<exists>host port. console_of env ctx (the (map_of params ''node'')) = Some (host, port) \<and>
        fst (fst (read_show_ip (ce_decode env) (ce_connect env host port) 0)) = None)))"
  using assms
  by (auto simp: vpcs_show_ip_def read_node_ip_def Let_def missing_param_def failed_result_def
      unreadable_def verdict_def dest!: read_show_ip_parses split: if_splits option.splits prod.splits)

abbreviation silent_env :: check_env where
  "silent_env \<equiv> \<lparr>ce_repr = \<lambda>_. [], ce_str = \<lambda>_. [], ce_decode = \<lambda>s. s,
     ce_connect = \<lambda>_ _ _. Inl ''refused'', ce_vtysh = \<lambda>_ _ _. Inl ''refused'',
     ce_raised = [], ce_other_net = \<lambda>_ _. False\<rparr>"

abbreviation answering_env :: check_env where
  "answering_env \<equiv> silent_env\<lparr>ce_connect := \<lambda>_ _ _. Inr (\<lambda>ls.
     if ls \<noteq> [] \<and> last ls = ''show ip'' @ crlf
     then [(0, Bytes ''IP/MASK : 10.0.0.5/24 GATEWAY : 10.0.0.1'')] else [])\<rparr>"

abbreviation one_node :: check_context where
  "one_node \<equiv> \<lparr>cx_gns3_host = ''gns3'', cx_nodes = [(''PC1'', JObj [(''console'', JInt 5000)])],
     cx_project_id = [], cx_frr_client = False\<rparr>"

theorem show_ip_verdict_witness:
  "\<exists>r. vpcs_show_ip silent_env one_node [(''node'', JStr ''PC1'')] [] = Inr r \<and> \<not> res_ok r"
proof -
  have "\<exists>r. vpcs_show_ip silent_env one_node [(''node'', JStr ''PC1'')] [] = Inr r"
    by (simp add: vpcs_show_ip_def read_node_ip_def Let_def unhashable_def split: option.splits prod.splits)
  then obtain r where "vpcs_show_ip silent_env one_node [(''node'', JStr ''PC1'')] [] = Inr r" by blast
  with show_ip_verdict [OF this] show ?thesis by auto
qed

text \<open>A ping check that asks for at least k replies passes exactly when the text in its log shows
  at least k of them; a console that could not be read never passes.\<close>

theorem ping_verdict:
  assumes "vpcs_ping env ctx params [(''received'', JStr (''>='' @ ds))] = Inr r"
    and "is_number ds" and "0 < nat_of_digits ds"
  shows "res_ok r = (nat_of_digits ds \<le> count_replies True (res_log r)) \<and>
    (\<not> res_observed r \<longrightarrow> \<not> res_ok r)"
proof -
  define expect where "expect = [(''received'', JStr (''>='' @ ds))]"
  have "matches (Some n) (map_of expect ''received'') \<longleftrightarrow> nat_of_digits ds \<le> n" for n
    using comparison_spec [of "''>=''" "[]" "[]" "[]" ds n] assms(2)
    unfolding expect_def by (simp add: OPERATORS_def compare_op_def)
  moreover have "''ttl'' \<notin> fst ` set expect" by (simp add: expect_def)
  ultimately have ok: "ping_ok expect p \<longleftrightarrow> nat_of_digits ds \<le> pg_received p" for p
    by (simp add: ping_ok_def)
  have received: "pg_received (parse_ping out) = count_replies True out" for out
    by (simp add: parse_ping_def Let_def)
  from assms(1) [folded expect_def] consider (error) err where "r = failed_result expect err"
    | (unread) out node where "r = unreadable expect out node 1" "count_replies True out = 0"
    | (judged) out actual where
        "r = verdict (nat_of_digits ds \<le> count_replies True out) expect actual out"
    unfolding vpcs_ping_def vpcs_ping_from_def Let_def ok received
    by (auto split: if_splits option.splits prod.splits sum.splits)
  then show ?thesis
    using assms(3) by cases (simp_all add: failed_result_def unreadable_def verdict_def)
qed

theorem ping_verdict_witness:
  "\<exists>r. vpcs_ping silent_env one_node [(''from'', JStr ''PC1''), (''to'', JStr ''10.0.0.2'')]
      [(''received'', JStr ''>=4'')] = Inr r \<and>
    res_ok r = (4 \<le> count_replies True (res_log r))"
proof -
  let ?x = "vpcs_ping silent_env one_node [(''from'', JStr ''PC1''), (''to'', JStr ''10.0.0.2'')]
    [(''received'', JStr (''>='' @ ''4''))]"
  have "\<exists>r. ?x = Inr r"
    by (simp add: vpcs_ping_def vpcs_ping_from_def Let_def unhashable_def split: option.splits prod.splits sum.splits)
  then obtain r where r: "?x = Inr r" by blast
  have four: "is_number ''4''" "nat_of_digits ''4'' = 4"
    by (simp_all add: is_number_def is_digit_def nat_of_digits_def digit_value_def)
  from ping_verdict [OF r four(1)] r four(2) show ?thesis by auto
qed

text \<open>An address check tells subnet membership as CIDR defines it: for addresses written as text,
  the address lies in the subnet exactly when the two numbers agree after division by two to the
  number of host bits, whatever prefix the address itself is shown with.\<close>

theorem subnet_membership:
  assumes "parse_ipv4 a = Some w" and "parse_ipv4 b = Some v" and "is_number ds" and "nat_of_digits ds \<le> 32"
    and "len_part = [] \<or> hd len_part = CHR ''/''"
  shows "ip_in_subnet ip6 (a @ len_part) (b @ ''/'' @ ds) \<longleftrightarrow>
    unat w div 2 ^ (32 - nat_of_digits ds) = unat v div 2 ^ (32 - nat_of_digits ds)"
  using assms by (rule subnet_spec)

theorem subnet_membership_witness:
  "ip_in_subnet (\<lambda>_ _. False) ''10.0.1.9/24'' ''10.0.0.0/23'' \<and>
   \<not> ip_in_subnet (\<lambda>_ _. False) ''10.0.1.9'' ''10.0.0.0/24''"
proof -
  have ips: "parse_ipv4 ''10.0.1.9'' = Some 0x0A000109" "parse_ipv4 ''10.0.0.0'' = Some 0x0A000000"
    by (simp_all add: parse_ipv4_def parse_octet_def is_number_def is_digit_def nat_of_digits_def
        digit_value_def ipv4_of_octets_def)
  have ds: "is_number ''23''" "nat_of_digits ''23'' = 23" "is_number ''24''" "nat_of_digits ''24'' = 24"
    by (simp_all add: is_number_def is_digit_def nat_of_digits_def digit_value_def)
  show ?thesis
    using subnet_membership [OF ips ds(1), of "''/24''"] subnet_membership [OF ips ds(3), of "[]"]
    by (simp add: ds)
qed

text \<open>A node nobody can connect to is not treated alike: \<open>show ip\<close> reports that it could not look,
  but the ping and the Cisco checks report a wrong answer of the learner.\<close>

theorem refused_connection_is_a_verdict:
  assumes "console_of env ctx (JStr node) = Some (host, port)" and "refusing (ce_connect env host port)"
    and "node \<noteq> []" and "target \<noteq> []" and "interface \<noteq> []"
  shows "(\<exists>r. vpcs_show_ip env ctx [(''node'', JStr node)] expect = Inr r \<and> \<not> res_observed r) \<and>
    (\<exists>r. vpcs_ping env ctx [(''from'', JStr node), (''to'', JStr target)] expect = Inr r \<and>
       res_observed r \<and> \<not> res_ok r) \<and>
    (\<exists>r. cisco_interface_brief env ctx [(''node'', JStr node), (''interface'', JStr interface)] expect = Inr r \<and>
       res_observed r \<and> \<not> res_ok r)"
proof (intro conjI)
  have "fst (fst (read_show_ip (ce_decode env) (ce_connect env host port) 0)) = None"
    unfolding read_show_ip_def by (rule show_ip_loop_refused [OF assms(2)])
  then obtain lg n where "read_show_ip (ce_decode env) (ce_connect env host port) 0 = ((None, lg), n)"
    by (metis prod.collapse)
  then show "\<exists>r. vpcs_show_ip env ctx [(''node'', JStr node)] expect = Inr r \<and> \<not> res_observed r"
    using assms(1,3)
    by (simp add: vpcs_show_ip_def read_node_ip_def unhashable_def unreadable_def)
next
  obtain exc where "ping_session (ce_connect env host port) 0 target = Inl exc"
    using ping_session_refused [OF assms(2)] by blast
  then show "\<exists>r. vpcs_ping env ctx [(''from'', JStr node), (''to'', JStr target)] expect = Inr r \<and>
      res_observed r \<and> \<not> res_ok r"
    using assms(1,3,4)
    by (simp add: vpcs_ping_def vpcs_ping_from_def unhashable_def failed_result_def text_of_def)
next
  obtain exc where "ce_connect env host port 0 = Inl exc" using assms(2) unfolding refusing_def by blast
  then show "\<exists>r. cisco_interface_brief env ctx [(''node'', JStr node), (''interface'', JStr interface)] expect =
      Inr r \<and> res_observed r \<and> \<not> res_ok r"
    using assms(1,3,5)
    by (simp add: cisco_interface_brief_def cisco_exec_def unhashable_def failed_result_def)
qed

theorem refused_connection_is_a_verdict_witness:
  "\<exists>r. vpcs_ping silent_env one_node [(''from'', JStr ''PC1''), (''to'', JStr ''10.0.0.2'')] [] = Inr r \<and>
     res_observed r \<and> \<not> res_ok r"
proof -
  have "console_of silent_env one_node (JStr ''PC1'') = Some (''gns3'', JInt 5000)"
    by (simp add: console_of_def node_console_port_def node_console_host_def node_of_def or_json_def)
  from refused_connection_is_a_verdict [OF this, of "''10.0.0.2''" "''e0''" "[]"]
  show ?thesis by (simp add: refusing_def)
qed

text \<open>Reading from a console neither loses nor invents anything: whichever of the three ways of
  reading is used, what it returns followed by what is left is what was there; and a read that ends
  at a prompt has read no piece more than the prompt needed.\<close>

theorem console_reads_conserve:
  assumes "drain \<in> {drain_idle idle left, drain_prompt left [], drain_cisco left []}"
    and "reading drain c = Inr (out, c')"
  shows "bytes (co_pending c) = out @ bytes (co_pending c') \<and> co_written c' = co_written c \<and>
    (drain = drain_prompt left [] \<and> contains ''> '' out \<longrightarrow>
      (\<exists>consumed. co_pending c = consumed @ co_pending c' \<and>
        \<not> contains ''> '' (bytes (butlast consumed))))"
proof -
  obtain rest where r: "drain (co_pending c) = Inr (out, rest)" and c': "c' = c\<lparr>co_pending := rest\<rparr>"
    using assms(2) by (auto simp: reading_def split: sum.splits prod.splits)
  have "bytes (co_pending c) = out @ bytes rest"
    using assms(1) r drains_conserve by fastforce
  moreover have "\<exists>consumed. co_pending c = consumed @ rest \<and> \<not> contains ''> '' (bytes (butlast consumed))"
    if "drain = drain_prompt left []" "contains ''> '' out"
    using drain_prompt_stops [OF r [unfolded that(1)] _ that(2)] by auto
  ultimately show ?thesis unfolding c' by auto
qed

theorem console_reads_conserve_witness:
  "\<exists>out c'. reading (drain_prompt 8 []) (opened (\<lambda>_. [(1, Bytes ''ok ''), (1, Bytes ''> ''), (1, Bytes ''x'')])) =
      Inr (out, c') \<and> ''ok > x'' = out @ bytes (co_pending c')"
proof -
  let ?c = "opened (\<lambda>_. [(1, Bytes ''ok ''), (1, Bytes ''> ''), (1, Bytes ''x'')])"
  have "\<exists>out c'. reading (drain_prompt 8 []) ?c = Inr (out, c')"
    by (simp add: reading_def opened_def starts_with_def)
  then obtain out c' where "reading (drain_prompt 8 []) ?c = Inr (out, c')" by blast
  with console_reads_conserve [OF _ this, of 1 8] show ?thesis by (auto simp: opened_def)
qed

end
