(* ===== verification/Redact.thy ===== *)
theory Redact
  imports Console_Text
begin

text \<open>
  What the console capture of gns3-service removes before anything is stored
  (\<open>src/gns3/gns3-service/src/console_capture.py\<close>): arguments of credential commands and whatever
  is typed at a password prompt.  A byte is a character; the patterns are ASCII, as those of
  Python's \<open>bytes\<close> expressions are.
\<close>

definition CR :: char where "CR = CHR 0x0D"
definition LF :: char where "LF = CHR 0x0A"

definition is_break :: "char \<Rightarrow> bool" where
  "is_break c \<longleftrightarrow> c = CR \<or> c = LF"

text \<open>\<open>[^\S\r\n]\<close>, \<open>\s\<close> and \<open>\w\<close> of a bytes pattern.\<close>

definition is_hspace :: "char \<Rightarrow> bool" where
  "is_hspace c \<longleftrightarrow> of_char c \<in> {9, 11, 12, 32 :: nat}"

definition is_bspace :: "char \<Rightarrow> bool" where
  "is_bspace c \<longleftrightarrow> is_hspace c \<or> is_break c"

definition is_bword :: "char \<Rightarrow> bool" where
  "is_bword c \<longleftrightarrow>
     (let n = of_char c :: nat
      in 48 \<le> n \<and> n \<le> 57 \<or> 65 \<le> n \<and> n \<le> 90 \<or> n = 95 \<or> 97 \<le> n \<and> n \<le> 122)"

subsection \<open>Credential arguments\<close>

definition is_sep :: "char \<Rightarrow> bool" where
  "is_sep c \<longleftrightarrow> is_hspace c \<or> c = CHR '':'' \<or> c = CHR ''=''"

definition SECRET_KEYWORDS :: "string list" where
  "SECRET_KEYWORDS = [''secret'', ''password'', ''passwd'', ''key-string'', ''pre-shared-key'',
     ''authentication-key'', ''key'', ''community'', ''psk'', ''passphrase'', ''auth'', ''priv'']"

definition KEY_COMMANDS :: "string list" where
  "KEY_COMMANDS = [''chain'', ''generate'', ''zeroize'', ''config-key'', ''pair'', ''exchange'',
     ''pubkey-chain'', ''to'', ''id'', ''is'']"

text \<open>The look-ahead after \<open>key\<close>: a command of the \<open>key\<close> family, not a secret.\<close>

definition key_command :: "string \<Rightarrow> bool" where
  "key_command rest \<longleftrightarrow> takeWhile is_hspace rest \<noteq> [] \<and>
     list_ex (\<lambda>w. prefix_ci w (dropWhile is_hspace rest) \<and>
       (case drop (length w) (dropWhile is_hspace rest) of [] \<Rightarrow> True | c # _ \<Rightarrow> is_bspace c)) KEY_COMMANDS"

text \<open>What follows a keyword: the separators, of which the last is given up where nothing else is
  left for the argument.  The result is what is kept of them.\<close>

definition secret_separators :: "string \<Rightarrow> string option" where
  "secret_separators rest =
     (let seps = takeWhile is_sep rest
      in case dropWhile is_sep rest of
           c # _ \<Rightarrow> if \<not> is_break c \<and> seps \<noteq> [] then Some seps
                    else if 2 \<le> length seps then Some (butlast seps) else None
         | [] \<Rightarrow> if 2 \<le> length seps then Some (butlast seps) else None)"

text \<open>\<open>_SECRET_ARG_RE\<close> at the start of a word: the group it keeps.  No two keywords match at one
  place, because a separator follows each.\<close>

definition secret_here :: "string \<Rightarrow> string option" where
  "secret_here s =
     (case List.map_filter (\<lambda>k.
        if prefix_ci k s \<and> \<not> (k = ''key'' \<and> key_command (drop (length k) s))
        then map_option (\<lambda>seps. take (length k) s @ seps) (secret_separators (drop (length k) s))
        else None) SECRET_KEYWORDS of
        [] \<Rightarrow> None | g # _ \<Rightarrow> Some g)"

text \<open>The whole match is the group and the rest of the line.\<close>

function redact_from :: "bool \<Rightarrow> string \<Rightarrow> string" where
  "redact_from after_word [] = []"
| "redact_from after_word (c # cs) =
     (case (if after_word then None else secret_here (c # cs)) of
        None \<Rightarrow> c # redact_from (is_bword c) cs
      | Some kept \<Rightarrow> kept @ ''***'' @ redact_from False (dropWhile (\<lambda>x. \<not> is_break x) cs))"
  by pat_completeness auto
termination
  by (relation "measure (\<lambda>(_, s). length s)") (auto intro: le_imp_less_Suc length_dropWhile_le)

definition redact_secrets :: "string \<Rightarrow> string \<times> bool" where
  "redact_secrets data = (let redacted = redact_from False data in (redacted, redacted \<noteq> data))"

subsection \<open>Password prompts\<close>

text \<open>\<open>_PASSWORD_PROMPT_RE\<close>, anchored at the end of the tail.\<close>

definition password_prompt :: "string \<Rightarrow> bool" where
  "password_prompt tail \<longleftrightarrow>
     (case dropWhile is_hspace (rev tail) of
        [] \<Rightarrow> False
      | c # rest \<Rightarrow> c = CHR '':'' \<and> prefix_ci (rev ''assword'') (dropWhile is_hspace rest))"

text \<open>\<open>_mask_password\<close>: the masked bytes, whether anything was masked, and whether masking goes on.\<close>

function mask_password :: "bool \<Rightarrow> string \<Rightarrow> string \<times> bool \<times> bool" where
  "mask_password mode data =
     (if \<not> mode \<or> data = [] then (data, False, mode)
      else let line = takeWhile (\<lambda>c. \<not> is_break c) data
        in case dropWhile (\<lambda>c. \<not> is_break c) data of
             [] \<Rightarrow> (replicate (length line) (CHR ''*''), True, True)
           | b # rest \<Rightarrow>
               if line \<noteq> [] then (replicate (length line) (CHR ''*'') @ b # rest, True, False)
               else let (masked, redacted, mode') = mask_password True rest
                    in (b # masked, redacted, mode'))"
  by pat_completeness auto
termination
proof (relation "measure (\<lambda>(_, s). length s)")
  fix mode and data line rest :: string and b
  assume "dropWhile (\<lambda>c. \<not> is_break c) data = b # rest"
  then have "length (b # rest) \<le> length data" by (metis length_dropWhile_le)
  then show "((True, rest), mode, data) \<in> measure (\<lambda>(_, s). length s)" by simp
qed simp

declare mask_password.simps [simp del]

end
