(* ===== verification/Reconstruct.thy ===== *)
theory Reconstruct
  imports Redact
begin

text \<open>
  The incremental parser of node output (\<open>src/gns3/gns3-service/src/console_reconstruct.py\<close>): bytes
  come in as they arrive, finished commands with their output come out.  \<open>decode\<close> is the decoding of
  bytes as UTF-8 with replacement; the prompt pattern is over Latin-1.
\<close>

definition MAX_RESPONSE_CHARS :: nat where "MAX_RESPONSE_CHARS = 256 * 1024"
definition MAX_BUFFER_BYTES :: nat where "MAX_BUFFER_BYTES = 8 * 1024"
definition MAX_PROMPT_TAIL_BYTES :: nat where "MAX_PROMPT_TAIL_BYTES = 512"

record reconstructed =
  rc_seq :: nat
  rc_prompt :: string
  rc_command :: string
  rc_response :: string
  rc_ts :: time
  rc_duration_ms :: "real option"

subsection \<open>One line\<close>

text \<open>\<open>_ANSI_RE\<close> after the escape byte: what is left after a match.\<close>

definition byte_in :: "nat \<Rightarrow> nat \<Rightarrow> char \<Rightarrow> bool" where
  "byte_in lo hi c \<longleftrightarrow> lo \<le> of_char c \<and> (of_char c :: nat) \<le> hi"

definition ansi_csi :: "string \<Rightarrow> string option" where
  "ansi_csi s =
     (let s1 = dropWhile (\<lambda>c. byte_in 48 57 c \<or> c = CHR '';'' \<or> c = CHR ''?'') s
      in case dropWhile (byte_in 32 47) s1 of
           [] \<Rightarrow> None | c # rest \<Rightarrow> if byte_in 64 126 c then Some rest else None)"

definition ansi_osc :: "string \<Rightarrow> string option" where
  "ansi_osc s =
     (case dropWhile (\<lambda>c. c \<noteq> CHR 0x07 \<and> c \<noteq> CHR 0x1B) s of
        [] \<Rightarrow> None
      | c # rest \<Rightarrow>
          if c = CHR 0x07 then Some rest
          else case rest of d # rest' \<Rightarrow> if d = CHR 0x5C then Some rest' else None | [] \<Rightarrow> None)"

definition ansi_match :: "string \<Rightarrow> string option" where
  "ansi_match s =
     (case s of
        [] \<Rightarrow> None
      | c # rest \<Rightarrow>
          if c = CHR ''['' then ansi_csi rest
          else if c = CHR '']'' then ansi_osc rest
          else if c = CHR ''('' \<or> c = CHR '')''
          then (case rest of d # rest' \<Rightarrow> if d = CHR ''B'' \<or> d = CHR ''0'' then Some rest' else None
                | [] \<Rightarrow> None)
          else None)"

lemma ansi_csi_shorter: "ansi_csi s = Some r \<Longrightarrow> length r < length s"
proof -
  assume "ansi_csi s = Some r"
  then obtain c where "dropWhile (byte_in 32 47)
      (dropWhile (\<lambda>c. byte_in 48 57 c \<or> c = CHR '';'' \<or> c = CHR ''?'') s) = c # r"
    by (auto simp: ansi_csi_def Let_def split: list.splits if_splits)
  then have "length (c # r) \<le> length s" by (metis length_dropWhile_le le_trans)
  then show "length r < length s" by simp
qed

lemma ansi_osc_shorter: "ansi_osc s = Some r \<Longrightarrow> length r < length s"
proof -
  assume "ansi_osc s = Some r"
  then obtain c t where t: "dropWhile (\<lambda>c. c \<noteq> CHR 0x07 \<and> c \<noteq> CHR 0x1B) s = c # t" "length r \<le> length t"
    by (auto simp: ansi_osc_def split: list.splits if_splits)
  then have "length (c # t) \<le> length s" by (metis length_dropWhile_le)
  with t show "length r < length s" by simp
qed

lemma ansi_match_shorter: "ansi_match s = Some r \<Longrightarrow> length r < length s"
  by (auto simp: ansi_match_def split: list.splits if_splits
      dest: ansi_csi_shorter ansi_osc_shorter)

function strip_ansi :: "string \<Rightarrow> string" where
  "strip_ansi [] = []"
| "strip_ansi (c # cs) =
     (case (if c = CHR 0x1B then ansi_match cs else None) of
        Some rest \<Rightarrow> strip_ansi rest | None \<Rightarrow> c # strip_ansi cs)"
  by pat_completeness auto
termination
  by (relation "measure length") (auto dest!: ansi_match_shorter split: if_splits)

text \<open>\<open>_MORE_RE\<close>: two dashes, \<open>More\<close>, two dashes.\<close>

definition more_match :: "string \<Rightarrow> string option" where
  "more_match s =
     Option.bind (skip_word ''--'' s) (\<lambda>s.
     Option.bind (skip_word ''More'' (dropWhile is_bspace s)) (\<lambda>s.
     skip_word ''--'' (dropWhile is_bspace s)))"

lemma skip_word_shorter: "w \<noteq> [] \<Longrightarrow> skip_word w s = Some r \<Longrightarrow> length r < length s"
  by (cases s; cases w) (auto simp: skip_word_def starts_with_def split: if_splits)

lemma more_match_shorter: "more_match s = Some r \<Longrightarrow> length r < length s"
proof -
  assume "more_match s = Some r"
  then obtain a b where "skip_word ''--'' s = Some a" "skip_word ''More'' (dropWhile is_bspace a) = Some b"
    "skip_word ''--'' (dropWhile is_bspace b) = Some r"
    unfolding more_match_def bind_eq_Some_conv by blast
  then have "length r < length (dropWhile is_bspace b)" "length b < length (dropWhile is_bspace a)"
    "length a < length s" using skip_word_shorter by blast+
  then show ?thesis by (meson length_dropWhile_le less_le_trans less_trans)
qed

function strip_more :: "string \<Rightarrow> string" where
  "strip_more [] = []"
| "strip_more (c # cs) =
     (case more_match (c # cs) of Some rest \<Rightarrow> strip_more rest | None \<Rightarrow> c # strip_more cs)"
  by pat_completeness auto
termination
  by (relation "measure length") (auto dest: more_match_shorter)

text \<open>A backspace takes back the byte before it.\<close>

definition is_backspace :: "char \<Rightarrow> bool" where
  "is_backspace c \<longleftrightarrow> c = CHR 0x08 \<or> c = CHR 0x7F"

definition apply_backspaces :: "string \<Rightarrow> string" where
  "apply_backspaces s = fold (\<lambda>c out. if is_backspace c then butlast out else out @ [c]) s []"

definition is_control :: "char \<Rightarrow> bool" where
  "is_control c \<longleftrightarrow>
     (let n = of_char c :: nat in n \<le> 8 \<or> n = 11 \<or> n = 12 \<or> 14 \<le> n \<and> n \<le> 31 \<or> n = 127)"

definition clean_line :: "(string \<Rightarrow> string) \<Rightarrow> string \<Rightarrow> string" where
  "clean_line decode line =
     rstrip (decode (filter (\<lambda>c. \<not> is_control c) (apply_backspaces (strip_more (strip_ansi line)))))"

text \<open>\<open>_PROMPT_RE\<close>: the prompt and the rest of the line.  The characters of the name, the bracketed
  mode, the space and the final mark cannot be mistaken for each other.\<close>

definition is_name_char :: "char \<Rightarrow> bool" where
  "is_name_char c \<longleftrightarrow> is_word_char c \<or> c \<in> set ''.@:~/-[]''"

definition prompt_mark :: "string \<Rightarrow> string \<Rightarrow> (string \<times> string) option" where
  "prompt_mark name s =
     (let (sp, s1) = (case s of c # cs \<Rightarrow> if is_space c then ([c], cs) else ([], s) | [] \<Rightarrow> ([], s))
      in case s1 of
           [] \<Rightarrow> None
         | m # rest \<Rightarrow>
             if m \<in> {CHR ''#'', CHR ''>'', CHR 0x24}
             then Some (name @ sp @ [m],
               case rest of c # cs \<Rightarrow> if is_space c then cs else rest | [] \<Rightarrow> [])
             else None)"

definition prompt_match :: "string \<Rightarrow> (string \<times> string) option" where
  "prompt_match line =
     (let name = takeWhile is_name_char line; rest = dropWhile is_name_char line
      in if name = [] then None
         else case rest of
           [] \<Rightarrow> None
         | c # cs \<Rightarrow>
             if c \<noteq> CHR ''('' then prompt_mark name rest
             else case dropWhile (\<lambda>x. x \<noteq> CHR '')'') cs of
               [] \<Rightarrow> None
             | p # after \<Rightarrow> prompt_mark (name @ c # takeWhile (\<lambda>x. x \<noteq> CHR '')'') cs @ [p]) after)"

subsection \<open>The parser\<close>

record reconstructor =
  rr_buf :: string
  rr_seq :: nat
  rr_open :: "reconstructed option"
  rr_response :: "string list"
  rr_response_chars :: nat
  rr_last_ts :: "time option"

definition reconstructor_init :: reconstructor where
  "reconstructor_init = \<lparr>rr_buf = [], rr_seq = 0, rr_open = None, rr_response = [],
     rr_response_chars = 0, rr_last_ts = None\<rparr>"

definition strip_newlines :: "string \<Rightarrow> string" where
  "strip_newlines s = rev (dropWhile (\<lambda>c. c = LF) (rev (dropWhile (\<lambda>c. c = LF) s)))"

definition close_open :: "time option \<Rightarrow> reconstructor \<Rightarrow> reconstructed list \<times> reconstructor" where
  "close_open ts r =
     (case rr_open r of
        None \<Rightarrow> ([], r)
      | Some c \<Rightarrow>
          ([c\<lparr>rc_response := strip_newlines (join [LF] (rr_response r)),
              rc_duration_ms := (case ts of None \<Rightarrow> rc_duration_ms c
                | Some t \<Rightarrow> Some (total_seconds (t - rc_ts c) * 1000))\<rparr>],
           r\<lparr>rr_open := None, rr_response := [], rr_response_chars := 0\<rparr>))"

text \<open>Consoles repeat the prompt; every copy before the command is dropped.\<close>

function drop_prompts :: "string \<Rightarrow> string \<Rightarrow> string" where
  "drop_prompts prompt command =
     (if prompt \<noteq> [] \<and> starts_with command prompt
      then drop_prompts prompt (strip (drop (length prompt) command)) else command)"
  by pat_completeness auto
termination
proof (relation "measure (\<lambda>(_, s). length s)")
  fix prompt command :: string
  assume p: "prompt \<noteq> [] \<and> starts_with command prompt"
  have "length (strip s) \<le> length s" for s
    unfolding strip_def rstrip_def lstrip_def
    by (metis length_dropWhile_le length_rev le_trans)
  then have "length (strip (drop (length prompt) command)) \<le> length command - length prompt"
    by (metis length_drop)
  moreover have "length prompt \<le> length command" "0 < length prompt"
    using p by (auto simp: starts_with_iff)
  ultimately have "length (strip (drop (length prompt) command)) < length command" by linarith
  then show "((prompt, strip (drop (length prompt) command)), prompt, command) \<in>
      measure (\<lambda>(_, s). length s)" by simp
qed simp

declare drop_prompts.simps [simp del]

definition consume :: "time option \<Rightarrow> string \<Rightarrow> reconstructor \<Rightarrow> reconstructed list \<times> reconstructor" where
  "consume ts line r =
     (case (if line \<noteq> [] then prompt_match line else None) of
        None \<Rightarrow>
          ([], if rr_open r \<noteq> None \<and> rr_response_chars r < MAX_RESPONSE_CHARS
               then r\<lparr>rr_response := rr_response r @ [line],
                      rr_response_chars := rr_response_chars r + length line + 1\<rparr>
               else r)
      | Some (prompt, rest) \<Rightarrow>
          (let (finished, r1) = close_open ts r; command = drop_prompts prompt (strip rest)
           in (finished,
               case ts of
                 None \<Rightarrow> r1
               | Some t \<Rightarrow>
                   if command \<noteq> []
                   then r1\<lparr>rr_seq := rr_seq r1 + 1,
                     rr_open := Some \<lparr>rc_seq = rr_seq r1 + 1, rc_prompt = prompt, rc_command = command,
                       rc_response = [], rc_ts = t, rc_duration_ms = None\<rparr>\<rparr>
                   else r1)))"

text \<open>The next line break: a carriage return and a line feed right after it are one.\<close>

definition next_break :: "string \<Rightarrow> (string \<times> string) option" where
  "next_break s =
     (case dropWhile (\<lambda>c. \<not> is_break c) s of
        [] \<Rightarrow> None
      | b # rest \<Rightarrow>
          Some (takeWhile (\<lambda>c. \<not> is_break c) s,
            case rest of c # cs \<Rightarrow> if b = CR \<and> c = LF then cs else rest | [] \<Rightarrow> []))"

lemma next_break_shorter: "next_break s = Some (l, r) \<Longrightarrow> length r < length s"
proof -
  assume n: "next_break s = Some (l, r)"
  then obtain b rest where d: "dropWhile (\<lambda>c. \<not> is_break c) s = b # rest"
    by (auto simp: next_break_def split: list.splits)
  with n have "length r \<le> length rest" by (auto simp: next_break_def split: list.splits if_splits)
  moreover have "length (b # rest) \<le> length s" by (metis d length_dropWhile_le)
  ultimately show ?thesis by simp
qed

text \<open>The loop of \<open>feed\<close>: the first \<open>searched\<close> bytes are known to hold no break.\<close>

function feed_lines ::
  "(string \<Rightarrow> string) \<Rightarrow> time \<Rightarrow> nat \<Rightarrow> string \<Rightarrow> reconstructor \<Rightarrow> reconstructed list \<times> string \<times> reconstructor"
  where
  "feed_lines decode ts searched buf r =
     (case next_break (drop searched buf) of
        None \<Rightarrow> ([], buf, r)
      | Some (line, rest) \<Rightarrow>
          (let (fs, r1) = consume (Some ts) (clean_line decode (take searched buf @ line)) r;
               (gs, buf', r2) = feed_lines decode ts 0 rest r1
           in (fs @ gs, buf', r2)))"
  by pat_completeness auto
termination
proof (relation "measure (\<lambda>(_, _, _, buf, _). length buf)")
  fix decode :: "string \<Rightarrow> string" and ts :: time and searched and buf line rest :: string and r x fs r1
    and lr
  assume "next_break (drop searched buf) = Some lr" "(line, rest) = lr"
  then have "length rest < length (drop searched buf)" using next_break_shorter by blast
  then show "((decode, ts, 0, rest, r1), decode, ts, searched, buf, r) \<in>
      measure (\<lambda>(_, _, _, buf, _). length buf)" by simp
qed simp

declare feed_lines.simps [simp del]

definition feed ::
  "(string \<Rightarrow> string) \<Rightarrow> string \<Rightarrow> time \<Rightarrow> reconstructor \<Rightarrow> reconstructed list \<times> reconstructor" where
  "feed decode data ts r =
     (let (finished, rest, r1) = feed_lines decode ts (length (rr_buf r)) (rr_buf r @ data)
            (r\<lparr>rr_last_ts := Some ts\<rparr>);
          buf = (if MAX_BUFFER_BYTES < length rest
                 then drop (length rest - MAX_BUFFER_BYTES div 2) rest else rest);
          r2 = r1\<lparr>rr_buf := buf\<rparr>
      in if length buf \<le> MAX_PROMPT_TAIL_BYTES \<and> clean_line decode buf \<noteq> [] \<and>
            prompt_match (clean_line decode buf) \<noteq> None
         then let (fs, r3) = close_open (Some ts) r2 in (finished @ fs, r3)
         else (finished, r2))"

definition flush :: "(string \<Rightarrow> string) \<Rightarrow> reconstructor \<Rightarrow> reconstructed list \<times> reconstructor" where
  "flush decode r =
     (let (fs, r1) = (if rr_buf r \<noteq> []
            then (let (fs, r1) = consume (rr_last_ts r) (clean_line decode (rr_buf r)) r
                  in (fs, r1\<lparr>rr_buf := []\<rparr>))
            else ([], r));
          (gs, r2) = close_open (rr_last_ts r1) r1
      in (fs @ gs, r2))"

fun reconstruct_from ::
  "(string \<Rightarrow> string) \<Rightarrow> (string \<times> string \<times> time) list \<Rightarrow> reconstructor \<Rightarrow> reconstructed list" where
  "reconstruct_from decode [] r = fst (flush decode r)"
| "reconstruct_from decode ((direction, payload, ts) # frames) r =
     (if direction = ''out''
      then let (fs, r1) = feed decode payload ts r in fs @ reconstruct_from decode frames r1
      else reconstruct_from decode frames r)"

definition reconstruct :: "(string \<Rightarrow> string) \<Rightarrow> (string \<times> string \<times> time) list \<Rightarrow> reconstructed list" where
  "reconstruct decode frames = reconstruct_from decode frames reconstructor_init"

end
