(* ===== verification/Capture.thy ===== *)
theory Capture
  imports Reconstruct
begin

text \<open>
  The capture of console traffic (\<open>src/gns3/gns3-service/src/console_capture.py\<close>): a tap per socket
  turns bytes into frames and reconstructed commands, within budgets of bytes and rows, and a
  queue hands them to the database in batches.  An operation of a tap returns what it submits;
  each operation has one time.  \<open>decode\<close> and \<open>encode\<close> are the UTF-8 codec, and what a commit does
  is an argument of the write.
\<close>

definition MAX_CHUNK_BYTES :: nat where "MAX_CHUNK_BYTES = 64 * 1024"
definition MAX_CONNECTION_BYTES :: nat where "MAX_CONNECTION_BYTES = 8 * 1024 * 1024"
definition MAX_CONNECTION_ROWS :: nat where "MAX_CONNECTION_ROWS = 20000"
definition MAX_QUEUE_BYTES :: nat where "MAX_QUEUE_BYTES = 64 * 1024 * 1024"
definition MAX_PROMPT_CHARS :: nat where "MAX_PROMPT_CHARS = 255"
definition MAX_NODE_ID_CHARS :: nat where "MAX_NODE_ID_CHARS = 64"
definition TAIL_BYTES :: nat where "TAIL_BYTES = 64"
definition LEARNER_ENTER_WINDOW :: time where "LEARNER_ENTER_WINDOW = 2000000"
definition MAX_PENDING_ENTERS :: nat where "MAX_PENDING_ENTERS = 256"

datatype direction = In | Out

record console_frame =
  cf_node_id :: string
  cf_seq :: nat
  cf_direction :: direction
  cf_payload :: string
  cf_truncated :: bool
  cf_redacted :: bool
  cf_ts :: time

record command_record =
  cm_node_id :: string
  cm_seq :: nat
  cm_prompt :: "string option"
  cm_command :: string
  cm_response :: string
  cm_ts :: time
  cm_duration_ms :: "real option"

datatype item = Frame console_frame | Command command_record

fun frame_bytes :: "item \<Rightarrow> nat" where
  "frame_bytes (Frame f) = length (cf_payload f)"
| "frame_bytes (Command c) = length (cm_command c) + length (cm_response c)"

subsection \<open>The queue\<close>

record capture_config =
  cc_queue_size :: nat
  cc_max_queue_bytes :: nat
  cc_batch_size :: nat

definition default_capture :: capture_config where
  "default_capture = \<lparr>cc_queue_size = 10000, cc_max_queue_bytes = MAX_QUEUE_BYTES, cc_batch_size = 200\<rparr>"

record capture =
  cq_queue :: "item list"
  cq_queued_bytes :: nat
  cq_dropped :: nat
  cq_in_flight :: "item list"

definition capture_init :: capture where
  "capture_init = \<lparr>cq_queue = [], cq_queued_bytes = 0, cq_dropped = 0, cq_in_flight = []\<rparr>"

text \<open>A queue of size zero has no bound, as in \<open>asyncio\<close>.\<close>

definition submit :: "capture_config \<Rightarrow> item \<Rightarrow> capture \<Rightarrow> capture" where
  "submit cfg it q =
     (if cc_max_queue_bytes cfg < cq_queued_bytes q + frame_bytes it \<or>
         0 < cc_queue_size cfg \<and> cc_queue_size cfg \<le> length (cq_queue q)
      then q\<lparr>cq_dropped := cq_dropped q + 1\<rparr>
      else q\<lparr>cq_queue := cq_queue q @ [it], cq_queued_bytes := cq_queued_bytes q + frame_bytes it\<rparr>)"

text \<open>What a commit can do: succeed, fail, or be cancelled before or after the rows are stored.\<close>

datatype commit = Committed | Failed | Cancelled bool

record stored =
  st_chunks :: "console_frame list"
  st_commands :: "command_record list"

definition frames_of :: "item list \<Rightarrow> console_frame list" where
  "frames_of = List.map_filter (\<lambda>it. case it of Frame f \<Rightarrow> Some f | Command _ \<Rightarrow> None)"

definition commands_of :: "item list \<Rightarrow> command_record list" where
  "commands_of = List.map_filter (\<lambda>it. case it of Command c \<Rightarrow> Some c | Frame _ \<Rightarrow> None)"

definition is_command :: "item \<Rightarrow> bool" where
  "is_command it \<longleftrightarrow> (case it of Command _ \<Rightarrow> True | Frame _ \<Rightarrow> False)"

text \<open>\<open>_write\<close>: the two commits, the batch that stays in flight and whether the task goes on.\<close>

definition write_batch ::
  "commit \<Rightarrow> commit \<Rightarrow> item list \<Rightarrow> item list \<Rightarrow> stored \<Rightarrow> item list \<times> stored \<times> bool" where
  "write_batch chunk_commit command_commit batch in_flight db =
     (let chunks = frames_of batch; cmds = commands_of batch; records = filter is_command batch;
          (flight1, db1, running1) =
            (if chunks = [] then (in_flight, db, True)
             else case chunk_commit of
               Committed \<Rightarrow> (records, db\<lparr>st_chunks := st_chunks db @ chunks\<rparr>, True)
             | Failed \<Rightarrow> (in_flight, db, True)
             | Cancelled written \<Rightarrow>
                 (in_flight, if written then db\<lparr>st_chunks := st_chunks db @ chunks\<rparr> else db, False))
      in if \<not> running1 then (flight1, db1, False)
         else if cmds = [] then (flight1, db1, True)
         else case command_commit of
           Committed \<Rightarrow> ([], db1\<lparr>st_commands := st_commands db1 @ cmds\<rparr>, True)
         | Failed \<Rightarrow> (flight1, db1, True)
         | Cancelled written \<Rightarrow>
             (flight1, if written then db1\<lparr>st_commands := st_commands db1 @ cmds\<rparr> else db1, False))"

text \<open>\<open>_drain_once\<close>: the n-th batch's commits are \<open>commits n\<close>.  A batch is what was in flight and
  queued items up to the batch size.\<close>

definition take_batch :: "capture_config \<Rightarrow> capture \<Rightarrow> item list \<times> capture" where
  "take_batch cfg q =
     (let k = cc_batch_size cfg - length (cq_in_flight q); taken = take k (cq_queue q)
      in (cq_in_flight q @ taken,
          q\<lparr>cq_in_flight := [], cq_queue := drop k (cq_queue q),
            cq_queued_bytes := cq_queued_bytes q - sum_list (map frame_bytes taken)\<rparr>))"

text \<open>Each round writes at least one item, so one more round than there are items is enough.\<close>

fun drain_rounds ::
  "nat \<Rightarrow> capture_config \<Rightarrow> (nat \<Rightarrow> commit \<times> commit) \<Rightarrow> nat \<Rightarrow> capture \<times> stored \<Rightarrow> (capture \<times> stored) option"
  where
  "drain_rounds 0 cfg commits n s = None"
| "drain_rounds (Suc fuel) cfg commits n (q, db) =
     (let (batch, q1) = take_batch cfg q
      in if batch = [] then Some (q1, db)
         else let (flight, db1, running) = write_batch (fst (commits n)) (snd (commits n)) batch batch db
           in if running then drain_rounds fuel cfg commits (Suc n) (q1\<lparr>cq_in_flight := []\<rparr>, db1)
              else Some (q1\<lparr>cq_in_flight := flight\<rparr>, db1))"

definition drain_once ::
  "capture_config \<Rightarrow> (nat \<Rightarrow> commit \<times> commit) \<Rightarrow> capture \<times> stored \<Rightarrow> (capture \<times> stored) option" where
  "drain_once cfg commits s =
     drain_rounds (length (cq_in_flight (fst s)) + length (cq_queue (fst s)) + 1) cfg commits 0 s"

subsection \<open>Taps\<close>

record dir_buffer =
  bf_data :: string
  bf_ts :: "time option"

record tap =
  tp_node_id :: string
  tp_seq :: nat
  tp_bytes :: nat
  tp_over_budget :: bool
  tp_rows :: nat
  tp_tail :: string
  tp_password_mode :: bool
  tp_reconstructor :: reconstructor
  tp_pending_enters :: "time list"
  tp_last_enter_match :: time
  tp_in :: dir_buffer
  tp_out :: dir_buffer

definition new_tap :: "string \<Rightarrow> time \<Rightarrow> tap" where
  "new_tap node_id now = \<lparr>tp_node_id = take MAX_NODE_ID_CHARS node_id, tp_seq = 0, tp_bytes = 0,
     tp_over_budget = False, tp_rows = 0, tp_tail = [], tp_password_mode = False,
     tp_reconstructor = reconstructor_init, tp_pending_enters = [], tp_last_enter_match = now,
     tp_in = \<lparr>bf_data = [], bf_ts = None\<rparr>, tp_out = \<lparr>bf_data = [], bf_ts = None\<rparr>\<rparr>"

definition buffer_of :: "direction \<Rightarrow> tap \<Rightarrow> dir_buffer" where
  "buffer_of dir t = (case dir of In \<Rightarrow> tp_in t | Out \<Rightarrow> tp_out t)"

definition set_buffer :: "direction \<Rightarrow> dir_buffer \<Rightarrow> tap \<Rightarrow> tap" where
  "set_buffer dir b t = (case dir of In \<Rightarrow> t\<lparr>tp_in := b\<rparr> | Out \<Rightarrow> t\<lparr>tp_out := b\<rparr>)"

definition over_row_budget :: "tap \<Rightarrow> bool \<times> tap" where
  "over_row_budget t =
     (if MAX_CONNECTION_ROWS \<le> tp_rows t then (True, t\<lparr>tp_over_budget := True\<rparr>)
      else (False, t\<lparr>tp_rows := tp_rows t + 1\<rparr>))"

text \<open>\<open>_emit_buffer\<close>: only what the learner types is masked, and only at a password prompt.\<close>

definition masked_payload :: "direction \<Rightarrow> string \<Rightarrow> tap \<Rightarrow> string \<times> bool \<times> tap" where
  "masked_payload dir payload t =
     (if dir = In \<and> tp_password_mode t
      then let (masked, redacted, mode) = mask_password True payload
        in (masked, redacted,
            t\<lparr>tp_password_mode := mode, tp_tail := (if mode then tp_tail t else [])\<rparr>)
      else (payload, False, t))"

definition emit_buffer :: "direction \<Rightarrow> nat \<Rightarrow> bool \<Rightarrow> time \<Rightarrow> tap \<Rightarrow> item list \<times> tap" where
  "emit_buffer dir n_bytes truncated now t =
     (let b = buffer_of dir t;
          payload = take n_bytes (bf_data b);
          ts = (case bf_ts b of None \<Rightarrow> now | Some x \<Rightarrow> x);
          rest = drop n_bytes (bf_data b);
          t1 = set_buffer dir \<lparr>bf_data = rest, bf_ts = (if rest \<noteq> [] then Some now else None)\<rparr> t;
          (payload1, redacted, t2) = masked_payload dir payload t1;
          (payload2, found) = redact_secrets payload1;
          (over, t3) = over_row_budget t2
      in if over then ([], t3)
         else ([Frame \<lparr>cf_node_id = tp_node_id t3, cf_seq = tp_seq t3 + 1, cf_direction = dir,
                  cf_payload = payload2, cf_truncated = truncated, cf_redacted = redacted \<or> found,
                  cf_ts = ts\<rparr>],
               t3\<lparr>tp_seq := tp_seq t3 + 1\<rparr>))"

text \<open>\<open>rfind\<close> of the last break between two positions.\<close>

definition last_break :: "nat \<Rightarrow> nat \<Rightarrow> string \<Rightarrow> nat option" where
  "last_break searched limit data = List.find (\<lambda>i. is_break (data ! i)) (rev [searched..<limit])"

lemma last_break_bounds: "last_break s l data = Some i \<Longrightarrow> s \<le> i \<and> i < l \<and> is_break (data ! i)"
  by (auto simp: last_break_def find_Some_iff rev_nth)

text \<open>Which frame the loop of \<open>_ingest\<close> takes off a buffer next: its size and whether it was cut.\<close>

definition next_frame :: "nat \<Rightarrow> string \<Rightarrow> (nat \<times> bool) option" where
  "next_frame searched data =
     (let limit = min (length data) MAX_CHUNK_BYTES
      in case last_break searched limit data of
           Some i \<Rightarrow> Some (i + 1, False)
         | None \<Rightarrow> if MAX_CHUNK_BYTES \<le> length data then Some (MAX_CHUNK_BYTES, True) else None)"

lemma next_frame_bounds: "next_frame s data = Some (k, trunc) \<Longrightarrow> 0 < k \<and> k \<le> length data"
  by (auto simp: next_frame_def Let_def MAX_CHUNK_BYTES_def dest!: last_break_bounds
      split: option.splits if_splits)

lemma buffer_of_set_buffer [simp]:
  "buffer_of dir (set_buffer dir' b t) = (if dir = dir' then b else buffer_of dir t)"
  by (auto simp: buffer_of_def set_buffer_def split: direction.splits)

lemma masked_payload_buffers [simp]:
  "masked_payload d p t = (p', r, t') \<Longrightarrow> buffer_of dir t' = buffer_of dir t"
  by (auto simp: masked_payload_def buffer_of_def split: if_splits prod.splits direction.splits)

lemma over_row_budget_buffers [simp]: "buffer_of dir (snd (over_row_budget t)) = buffer_of dir t"
  by (simp add: over_row_budget_def buffer_of_def split: direction.splits)

lemma seq_buffers [simp]: "buffer_of dir (t\<lparr>tp_seq := n\<rparr>) = buffer_of dir t"
  by (simp add: buffer_of_def split: direction.splits)

lemma emit_buffer_data:
  "buffer_of dir (snd (emit_buffer dir k trunc now t)) =
     \<lparr>bf_data = drop k (bf_data (buffer_of dir t)),
      bf_ts = (if drop k (bf_data (buffer_of dir t)) \<noteq> [] then Some now else None)\<rparr>"
proof -
  obtain p r t2 where m: "masked_payload dir (take k (bf_data (buffer_of dir t)))
      (set_buffer dir \<lparr>bf_data = drop k (bf_data (buffer_of dir t)),
        bf_ts = (if drop k (bf_data (buffer_of dir t)) \<noteq> [] then Some now else None)\<rparr> t) = (p, r, t2)"
    by (metis prod.collapse)
  from masked_payload_buffers [OF m, of dir] show ?thesis
    unfolding emit_buffer_def Let_def m by (simp add: case_prod_beta)
qed

function ingest_loop :: "direction \<Rightarrow> time \<Rightarrow> nat \<Rightarrow> tap \<Rightarrow> item list \<times> tap" where
  "ingest_loop dir now searched t =
     (if tp_over_budget t then ([], t)
      else case next_frame searched (bf_data (buffer_of dir t)) of
        None \<Rightarrow> ([], t)
      | Some (k, trunc) \<Rightarrow>
          (let (items, t1) = emit_buffer dir k trunc now t;
               (more, t2) = ingest_loop dir now 0 t1
           in (items @ more, t2)))"
  by pat_completeness auto
termination
proof (relation "measure (\<lambda>(dir, _, _, t). length (bf_data (buffer_of dir t)))")
  fix dir now searched t kt k trunc em items t1
  assume "next_frame searched (bf_data (buffer_of dir t)) = Some kt" "(k, trunc) = kt"
    "em = emit_buffer dir k trunc now t" "(items, t1) = em"
  then have "next_frame searched (bf_data (buffer_of dir t)) = Some (k, trunc)"
    "t1 = snd (emit_buffer dir k trunc now t)" by (auto dest: arg_cong [of _ _ snd])
  then show "((dir, now, 0, t1), dir, now, searched, t) \<in>
      measure (\<lambda>(dir, _, _, t). length (bf_data (buffer_of dir t)))"
    using next_frame_bounds [of searched _ k trunc] by (force simp: emit_buffer_data)
qed simp

declare ingest_loop.simps [simp del]

definition ingest :: "direction \<Rightarrow> string \<Rightarrow> time \<Rightarrow> tap \<Rightarrow> item list \<times> tap" where
  "ingest dir data now t =
     (if tp_over_budget t \<or> data = [] then ([], t)
      else let t1 = t\<lparr>tp_bytes := tp_bytes t + length data\<rparr>
        in if MAX_CONNECTION_BYTES < tp_bytes t1 then ([], t1\<lparr>tp_over_budget := True\<rparr>)
           else let b = buffer_of dir t1;
                    b1 = \<lparr>bf_data = bf_data b @ data,
                      bf_ts = (if bf_data b = [] then Some now else bf_ts b)\<rparr>
             in ingest_loop dir now (length (bf_data b)) (set_buffer dir b1 t1))"

subsection \<open>Commands\<close>

function drop_stale :: "time \<Rightarrow> time \<Rightarrow> time list \<Rightarrow> time list" where
  "drop_stale cutoff matched [] = []"
| "drop_stale cutoff matched (e # es) =
     (if max e matched < cutoff then drop_stale cutoff matched es else e # es)"
  by pat_completeness auto
termination by lexicographic_order

definition is_learner_command :: "reconstructed \<Rightarrow> tap \<Rightarrow> bool \<times> tap" where
  "is_learner_command c t =
     (let es = drop_stale (rc_ts c - LEARNER_ENTER_WINDOW) (tp_last_enter_match t) (tp_pending_enters t)
      in case es of
           e # es' \<Rightarrow>
             if e \<le> rc_ts c then (True, t\<lparr>tp_pending_enters := es', tp_last_enter_match := rc_ts c\<rparr>)
             else (False, t\<lparr>tp_pending_enters := es\<rparr>)
         | [] \<Rightarrow> (False, t\<lparr>tp_pending_enters := es\<rparr>))"

definition command_item ::
  "(string \<Rightarrow> string) \<Rightarrow> (string \<Rightarrow> string) \<Rightarrow> reconstructed \<Rightarrow> tap \<Rightarrow> item" where
  "command_item decode encode c t = Command
     \<lparr>cm_node_id = tp_node_id t, cm_seq = rc_seq c,
      cm_prompt = (let p = take MAX_PROMPT_CHARS (rc_prompt c) in if p = [] then None else Some p),
      cm_command = decode (fst (redact_secrets (encode (rc_command c)))),
      cm_response = decode (fst (redact_secrets (encode (rc_response c)))),
      cm_ts = rc_ts c, cm_duration_ms = rc_duration_ms c\<rparr>"

fun emit_commands ::
  "(string \<Rightarrow> string) \<Rightarrow> (string \<Rightarrow> string) \<Rightarrow> reconstructed list \<Rightarrow> tap \<Rightarrow> item list \<times> tap" where
  "emit_commands decode encode [] t = ([], t)"
| "emit_commands decode encode (c # cs) t =
     (let (mine, t1) = is_learner_command c t
      in if \<not> mine \<or> tp_over_budget t1 then emit_commands decode encode cs t1
         else let (over, t2) = over_row_budget t1
           in if over then emit_commands decode encode cs t2
              else let (more, t3) = emit_commands decode encode cs t2
                in (command_item decode encode c t2 # more, t3))"

text \<open>Enter keys in what was typed: a carriage return with its line feed is one.\<close>

fun count_enters :: "string \<Rightarrow> nat" where
  "count_enters [] = 0"
| "count_enters [c] = (if is_break c then 1 else 0)"
| "count_enters (c # d # cs) =
     (if c = CR \<and> d = LF then 1 + count_enters cs
      else (if is_break c then 1 else 0) + count_enters (d # cs))"

definition last_n :: "nat \<Rightarrow> 'a list \<Rightarrow> 'a list" where
  "last_n n xs = drop (length xs - n) xs"

definition from_client :: "string \<Rightarrow> time \<Rightarrow> tap \<Rightarrow> item list \<times> tap" where
  "from_client data now t =
     (let (items, t1) = ingest In data now t
      in (items, t1\<lparr>tp_pending_enters :=
            last_n MAX_PENDING_ENTERS (tp_pending_enters t1 @ replicate (count_enters data) now)\<rparr>))"

definition from_node ::
  "(string \<Rightarrow> string) \<Rightarrow> (string \<Rightarrow> string) \<Rightarrow> string \<Rightarrow> time \<Rightarrow> tap \<Rightarrow> item list \<times> tap" where
  "from_node decode encode data now t =
     (let (items, t1) = ingest Out data now t;
          (commands, r) = feed decode data now (tp_reconstructor t1);
          (records, t2) = emit_commands decode encode commands (t1\<lparr>tp_reconstructor := r\<rparr>);
          tail = last_n TAIL_BYTES (tp_tail t2 @ data)
      in (items @ records,
          t2\<lparr>tp_tail := tail, tp_password_mode := (if password_prompt tail then True else tp_password_mode t2)\<rparr>))"

text \<open>\<open>close\<close>: what is left of a buffer, in frames of at most \<open>MAX_CHUNK_BYTES\<close>.\<close>

function close_buffer :: "direction \<Rightarrow> time \<Rightarrow> tap \<Rightarrow> item list \<times> tap" where
  "close_buffer dir now t =
     (let n = length (bf_data (buffer_of dir t)); k = min n MAX_CHUNK_BYTES
      in if n = 0 \<or> tp_over_budget t then ([], t)
         else let (items, t1) = emit_buffer dir k (k < n) now t;
                  (more, t2) = close_buffer dir now t1
           in (items @ more, t2))"
  by pat_completeness auto
termination
proof (relation "measure (\<lambda>(dir, _, t). length (bf_data (buffer_of dir t)))")
  fix dir now t n k em items t1
  assume "n = length (bf_data (buffer_of dir t))" "k = min n MAX_CHUNK_BYTES"
    "\<not> (n = 0 \<or> tp_over_budget t)" "em = emit_buffer dir k (k < n) now t" "(items, t1) = em"
  then have "t1 = snd (emit_buffer dir k (k < n) now t)" "0 < k" "k \<le> n" "0 < n"
    by (auto simp: MAX_CHUNK_BYTES_def dest: arg_cong [of _ _ snd])
  then show "((dir, now, t1), dir, now, t) \<in> measure (\<lambda>(dir, _, t). length (bf_data (buffer_of dir t)))"
    using \<open>n = _\<close> by (auto simp: emit_buffer_data)
qed simp

declare close_buffer.simps [simp del]

definition close_tap ::
  "(string \<Rightarrow> string) \<Rightarrow> (string \<Rightarrow> string) \<Rightarrow> time \<Rightarrow> tap \<Rightarrow> item list \<times> tap" where
  "close_tap decode encode now t =
     (let (items1, t1) = close_buffer In now t;
          (items2, t2) = close_buffer Out now t1;
          (commands, r) = flush decode (tp_reconstructor t2);
          (records, t3) = emit_commands decode encode commands (t2\<lparr>tp_reconstructor := r\<rparr>)
      in (items1 @ items2 @ records, t3))"

end
