(* ===== verification/Capture_Facts.thy ===== *)
theory Capture_Facts
  imports Capture
begin

text \<open>
  Facts about console capture: what redaction and masking leave of a line, the accounting of the
  queue and of a tap's budgets, and how frames are cut.
\<close>

subsection \<open>Redaction\<close>

lemma secret_separators_cases:
  assumes "secret_separators rest = Some kept"
  shows "kept \<noteq> [] \<and> (\<exists>more. takeWhile is_sep rest = kept @ more) \<and> list_all is_sep kept"
proof -
  let ?seps = "takeWhile is_sep rest"
  have seps: "list_all is_sep ?seps" by (auto simp: list_all_iff dest: set_takeWhileD)
  from assms consider "kept = ?seps" "?seps \<noteq> []" | "kept = butlast ?seps" "2 \<le> length ?seps"
    by (auto simp: secret_separators_def Let_def split: list.splits if_splits)
  then show ?thesis
  proof cases
    case 1
    with seps show ?thesis by simp
  next
    case 2
    then have "?seps \<noteq> []" by auto
    then have "?seps = kept @ [last ?seps]" using 2(1) by simp
    moreover have "kept \<noteq> []" using 2 by (auto simp flip: length_greater_0_conv)
    ultimately show ?thesis using seps by (metis list_all_append)
  qed
qed

lemma keywords_nonempty: "k \<in> set SECRET_KEYWORDS \<Longrightarrow> k \<noteq> [] \<and> list_all (\<lambda>c. \<not> is_break c) k"
  by (auto simp: SECRET_KEYWORDS_def is_break_def CR_def LF_def)

lemma secret_here_cases:
  assumes "secret_here s = Some g"
  obtains k seps where "k \<in> set SECRET_KEYWORDS" "prefix_ci k s" "g = take (length k) s @ seps"
    "secret_separators (drop (length k) s) = Some seps"
proof -
  let ?f = "\<lambda>k. if prefix_ci k s \<and> \<not> (k = ''key'' \<and> key_command (drop (length k) s))
        then map_option (\<lambda>seps. take (length k) s @ seps) (secret_separators (drop (length k) s)) else None"
  have "g \<in> set (List.map_filter ?f SECRET_KEYWORDS)"
    using assms unfolding secret_here_def by (auto split: list.splits)
  then obtain k where k: "k \<in> set SECRET_KEYWORDS" "?f k = Some g"
    by (auto simp: map_filter_def split: if_splits)
  then show ?thesis using that by (auto split: if_splits)
qed

lemma secret_here_prefix:
  assumes "secret_here s = Some g" shows "\<exists>post. s = g @ post"
proof -
  obtain k :: string and seps where k: "g = take (length k) s @ seps" "secret_separators (drop (length k) s) = Some seps"
    by (rule secret_here_cases [OF assms]) blast
  then obtain more where "takeWhile is_sep (drop (length k) s) = seps @ more"
    using secret_separators_cases by blast
  then have "drop (length k) s = seps @ more @ dropWhile is_sep (drop (length k) s)"
    by (metis append_assoc takeWhile_dropWhile_id)
  then show ?thesis unfolding k(1) by (metis append_assoc append_take_drop_id)
qed

text \<open>A line is redacted at its first match and nothing after it is left.\<close>

lemma redact_line:
  assumes "list_all (\<lambda>c. \<not> is_break c) l"
  shows "redact_from w l = l \<and> (\<forall>i < length l. \<not> (if i = 0 then w else is_bword (l ! (i - 1))) \<longrightarrow>
           secret_here (drop i l) = None) \<or>
    (\<exists>i < length l. \<exists>g. secret_here (drop i l) = Some g \<and> redact_from w l = take i l @ g @ ''***'' \<and>
       (\<forall>j < i. \<not> (if j = 0 then w else is_bword (l ! (j - 1))) \<longrightarrow> secret_here (drop j l) = None))"
  using assms
proof (induction l arbitrary: w)
  case (Cons c cs)
  show ?case
  proof (cases "if w then None else secret_here (c # cs)")
    case (Some g)
    have rest: "dropWhile (\<lambda>x. \<not> is_break x) cs = []" using Cons.prems by (simp add: list_all_iff)
    have "redact_from w (c # cs) = g @ ''***''" by (simp only: redact_from.simps Some option.case rest append_Nil2)
    with Some show ?thesis by (intro disjI2 exI [of _ 0]) (auto split: if_splits)
  next
    case None
    have step: "(\<not> (if j = 0 then w else is_bword ((c # cs) ! (j - 1))) \<longrightarrow> secret_here (drop j (c # cs)) = None)
        \<longleftrightarrow> (case j of 0 \<Rightarrow> True
          | Suc i \<Rightarrow> \<not> (if i = 0 then is_bword c else is_bword (cs ! (i - 1))) \<longrightarrow> secret_here (drop i cs) = None)"
      for j using None by (cases j) (auto simp: nth_Cons' split: if_splits)
    have red: "redact_from w (c # cs) = c # redact_from (is_bword c) cs" using None by simp
    from Cons.IH [of "is_bword c"] Cons.prems consider
        (same) "redact_from (is_bword c) cs = cs" "\<forall>i < length cs. \<not> (if i = 0 then is_bword c
          else is_bword (cs ! (i - 1))) \<longrightarrow> secret_here (drop i cs) = None"
      | (cut) i g where "i < length cs" "secret_here (drop i cs) = Some g"
          "redact_from (is_bword c) cs = take i cs @ g @ ''***''"
          "\<forall>j < i. \<not> (if j = 0 then is_bword c else is_bword (cs ! (j - 1))) \<longrightarrow> secret_here (drop j cs) = None"
      by auto
    then show ?thesis
    proof cases
      case same
      then show ?thesis unfolding red step by (intro disjI1) (auto split: nat.splits)
    next
      case cut
      then show ?thesis unfolding red step
        by (intro disjI2 exI [of _ "Suc i"]) (auto split: nat.splits)
    qed
  qed
qed simp

lemma lower_sep: "is_sep (lower_char c) = is_sep c"
proof (cases "65 \<le> (of_char c :: nat) \<and> (of_char c :: nat) \<le> 90")
  case True
  then have n: "of_char (lower_char c) = (of_char c + 32 :: nat)" by (simp add: lower_char_def Let_def)
  have "\<not> is_sep d" if "65 \<le> (of_char d :: nat)" for d
    using that by (auto simp: is_sep_def is_hspace_def)
  then show ?thesis using True n by auto
next
  case False
  then have "lower_char c = c" by (auto simp: lower_char_def Let_def)
  then show ?thesis by simp
qed

lemma keyword_no_sep: "k \<in> set SECRET_KEYWORDS \<Longrightarrow> list_all (\<lambda>c. \<not> is_sep c) k"
  by (auto simp: SECRET_KEYWORDS_def is_sep_def is_hspace_def)

lemma lower_no_sep: "lower a = lower b \<Longrightarrow> list_all (\<lambda>c. \<not> is_sep c) b \<Longrightarrow> list_all (\<lambda>c. \<not> is_sep c) a"
proof -
  assume eq: "lower a = lower b" and b: "list_all (\<lambda>c. \<not> is_sep c) b"
  from b have "list_all (\<lambda>c. \<not> is_sep c) (lower b)" by (simp add: lower_def list_all_iff lower_sep)
  then have "list_all (\<lambda>c. \<not> is_sep c) (lower a)" by (simp add: eq)
  then show ?thesis by (simp add: lower_def list_all_iff lower_sep)
qed

text \<open>A match that starts before the separators of a keyword ends within them.\<close>

lemma match_ends_early:
  assumes "secret_here (drop i l) = Some g" and "i \<le> n" and "n < length l" and "is_sep (l ! n)"
  shows "i + length g \<le> n + length (takeWhile is_sep (drop n l))"
proof (rule ccontr)
  let ?T = "takeWhile is_sep (drop n l)"
  let ?m = "n + length ?T"
  assume far: "\<not> ?thesis"
  obtain k :: string and seps where k: "k \<in> set SECRET_KEYWORDS" "prefix_ci k (drop i l)"
      "g = take (length k) (drop i l) @ seps"
    and seps: "secret_separators (drop (length k) (drop i l)) = Some seps"
    by (rule secret_here_cases [OF assms(1)]) blast
  have "lower (take (length k) (drop i l)) = lower k" using k(2) by (simp add: prefix_ci_def)
  then have nosep: "list_all (\<lambda>c. \<not> is_sep c) (take (length k) (drop i l))"
    using keyword_no_sep [OF k(1)] by (rule lower_no_sep)
  have len: "length (take (length k) (drop i l)) = length k"
    using k(2) lower_eq_length unfolding prefix_ci_def by blast
  obtain post where l: "drop i l = g @ post" using secret_here_prefix [OF assms(1)] by blast
  have e1: "i + length k \<le> n"
  proof (rule ccontr)
    assume "\<not> i + length k \<le> n"
    then have "n - i < length (take (length k) (drop i l))" using assms(2) len by simp
    then have "\<not> is_sep (take (length k) (drop i l) ! (n - i))" using nosep by (simp add: list_all_length)
    moreover have "take (length k) (drop i l) ! (n - i) = l ! n"
      using \<open>n - i < length (take (length k) (drop i l))\<close> assms(2,3) nth_drop [of i l "n - i"] by simp
    ultimately show False using assms(4) by simp
  qed
  have m: "?m < i + length g" using far by simp
  then have "?m - i - length k < length seps" using e1 k(3) len by simp
  moreover have "list_all is_sep seps" using secret_separators_cases [OF seps] by blast
  ultimately have "is_sep (seps ! (?m - i - length k))" by (simp add: list_all_length)
  moreover have "\<not> ?m - i < length k" using e1 by linarith
  then have "g ! (?m - i) = seps ! (?m - i - length k)"
    unfolding k(3) by (simp only: nth_append len if_False)
  moreover have "l ! ?m = g ! (?m - i)"
  proof -
    have "i \<le> length l" "i + (?m - i) = ?m" using assms(2,3) by simp_all
    then have "l ! ?m = drop i l ! (?m - i)" using nth_drop [of i l "?m - i"] by simp
    moreover have "?m - i < length g" using m assms(2) by linarith
    ultimately show ?thesis unfolding l by (simp only: nth_append if_True)
  qed
  ultimately have sep: "is_sep (l ! ?m)" by simp
  have "length l - i = length g + length post" using l by (metis length_append length_drop)
  then have "?m < length l" using m assms(2,3) by linarith
  then have "length ?T < length (drop n l)" by simp
  from nth_length_takeWhile [OF this] have "\<not> is_sep (drop n l ! length ?T)" .
  then show False using sep \<open>?m < length l\<close> by simp
qed

lemma map_filter_nonempty: "x \<in> set xs \<Longrightarrow> f x \<noteq> None \<Longrightarrow> List.map_filter f xs \<noteq> []"
  by (auto simp: map_filter_def filter_empty_conv)

lemma redact_hides:
  assumes "l = pre @ kw @ sep # arg" and "list_all (\<lambda>c. \<not> is_break c) l"
    and "k \<in> set SECRET_KEYWORDS" and "lower kw = lower k" and "is_sep sep" and "arg \<noteq> []"
    and "pre = [] \<or> \<not> is_bword (last pre)" and "\<not> (k = ''key'' \<and> key_command (sep # arg))"
  shows "\<exists>q more. redact_from False l = q @ ''***'' \<and>
    pre @ kw @ takeWhile is_sep (sep # arg) = q @ more"
proof -
  let ?T = "takeWhile is_sep (sep # arg)"
  have len: "length kw = length k" using assms(4) by (rule lower_eq_length)
  have "\<exists>seps. secret_separators (sep # arg) = Some seps"
  proof (cases "dropWhile is_sep (sep # arg)")
    case Nil
    then have "takeWhile is_sep (sep # arg) = sep # arg" by (metis append_Nil2 takeWhile_dropWhile_id)
    then show ?thesis using Nil assms(6) by (cases arg) (simp_all add: secret_separators_def)
  next
    case (Cons c cs)
    then have "c \<in> set l" using assms(1) set_dropWhileD [of c is_sep "sep # arg"] by (metis UnCI list.set_intros(1) set_append)
    then have "\<not> is_break c" using assms(2) by (simp add: list_all_iff)
    then show ?thesis using Cons assms(5) by (simp add: secret_separators_def)
  qed
  then obtain seps where seps: "secret_separators (sep # arg) = Some seps" by blast
  have here: "secret_here (drop (length pre) l) \<noteq> None"
  proof -
    let ?f = "\<lambda>k. if prefix_ci k (kw @ sep # arg) \<and> \<not> (k = ''key'' \<and> key_command (drop (length k) (kw @ sep # arg)))
        then map_option (\<lambda>seps. take (length k) (kw @ sep # arg) @ seps)
          (secret_separators (drop (length k) (kw @ sep # arg))) else None"
    have some: "?f k \<noteq> None" using assms(4,8) len seps by (simp add: prefix_ci_def)
    have "List.map_filter ?f SECRET_KEYWORDS \<noteq> []"
      using map_filter_nonempty [where f = ?f, OF assms(3) some] .
    then obtain g gs where "List.map_filter ?f SECRET_KEYWORDS = g # gs" by (auto simp: neq_Nil_conv)
    moreover have d: "drop (length pre) l = kw @ sep # arg" using assms(1) by simp
    ultimately show ?thesis unfolding secret_here_def d by (simp only: list.case) simp
  qed
  have free: "\<not> (if length pre = 0 then False else is_bword (l ! (length pre - 1)))"
    using assms(1,7) by (auto simp: nth_append last_conv_nth)
  have inside: "length pre < length l" using assms(1) by simp
  obtain i g where
    i: "secret_here (drop i l) = Some g" "redact_from False l = take i l @ g @ ''***''"
    and first: "\<forall>j < i. \<not> (if j = 0 then False else is_bword (l ! (j - 1))) \<longrightarrow> secret_here (drop j l) = None"
    using redact_line [OF assms(2), of False]
  proof (elim disjE conjE exE)
    assume "\<forall>i < length l. \<not> (if i = 0 then False else is_bword (l ! (i - 1))) \<longrightarrow>
      secret_here (drop i l) = None"
    with inside free have "secret_here (drop (length pre) l) = None" by blast
    with here show ?thesis by contradiction
  qed (rule that)
  have "i \<le> length pre"
  proof (rule ccontr)
    assume "\<not> i \<le> length pre"
    then have "length pre < i" by simp
    with first free have "secret_here (drop (length pre) l) = None" by blast
    with here show False by contradiction
  qed
  moreover have n: "l ! (length pre + length kw) = sep" "length pre + length kw < length l"
    "drop (length pre + length kw) l = sep # arg" using assms(1) by (simp_all add: nth_append)
  ultimately have short: "i + length g \<le> length pre + length kw + length ?T"
    using match_ends_early [OF i(1), of "length pre + length kw"] assms(5) by simp
  have q: "take i l @ g = take (i + length g) l"
    using secret_here_prefix [OF i(1)] by (auto simp: take_add)
  have "pre @ kw @ ?T = take (length pre + length kw + length ?T) l"
    unfolding assms(1) by (simp flip: takeWhile_eq_take)
  then have "pre @ kw @ ?T = (take i l @ g) @ drop (i + length g) (pre @ kw @ ?T)"
    using short unfolding q by (metis append_take_drop_id min.absorb1 take_take)
  then show ?thesis using i(2) by (metis append_assoc)
qed

subsection \<open>Masking\<close>

definition starred :: "string \<Rightarrow> bool" where
  "starred s \<longleftrightarrow> list_all (\<lambda>c. c = CHR ''*'' \<or> is_break c) s"

lemma keyword_starts: "k \<in> set SECRET_KEYWORDS \<Longrightarrow> lower_char (hd k) \<noteq> CHR ''*'' \<and> \<not> is_break (lower_char (hd k))"
  by (auto simp: SECRET_KEYWORDS_def is_break_def CR_def LF_def lower_char_def)

lemma lower_char_star: "c = CHR ''*'' \<or> is_break c \<Longrightarrow> lower_char c = c"
  by (auto simp: is_break_def CR_def LF_def lower_char_def)

lemma secret_here_starred:
  assumes "c = CHR ''*'' \<or> is_break c" shows "secret_here (c # cs) = None"
proof (rule ccontr)
  assume "secret_here (c # cs) \<noteq> None"
  then obtain g where g: "secret_here (c # cs) = Some g" by blast
  obtain k :: string and seps where k: "k \<in> set SECRET_KEYWORDS" "prefix_ci k (c # cs)"
    by (rule secret_here_cases [OF g]) blast
  obtain x xs where x: "k = x # xs" using keywords_nonempty [OF k(1)] by (cases k) auto
  have "lower_char c = lower_char (hd k)" using k(2) unfolding x by (simp add: prefix_ci_def lower_def)
  with keyword_starts [OF k(1)] lower_char_star [OF assms] assms show False by metis
qed

lemma redact_starred: "starred s \<Longrightarrow> redact_from w s = s"
  by (induction s arbitrary: w) (auto simp: starred_def secret_here_starred)

text \<open>Input up to the end of its first line that is not empty.\<close>

definition one_line :: "string \<Rightarrow> bool" where
  "one_line s \<longleftrightarrow> length (dropWhile (\<lambda>c. \<not> is_break c) (dropWhile is_break s)) \<le> 1"

lemma one_line_break: "is_break b \<Longrightarrow> one_line (b # s) = one_line s"
  by (simp add: one_line_def)

lemma one_line_end: "\<not> is_break c \<Longrightarrow> list_all (\<lambda>c. \<not> is_break c) cs \<Longrightarrow> is_break b \<Longrightarrow>
  one_line (c # cs @ b # s) \<Longrightarrow> s = []"
  by (simp add: one_line_def dropWhile_append3 list_all_iff)

lemma one_line_rest:
  assumes "list_all (\<lambda>c. \<not> is_break c) l" and "one_line (l @ s)" shows "one_line s"
proof (cases l)
  case (Cons c cs)
  then have "length (dropWhile (\<lambda>c. \<not> is_break c) s) \<le> 1"
    using assms by (simp add: one_line_def list_all_iff dropWhile_append2)
  then show ?thesis by (cases s) (auto simp: one_line_def le_trans [OF length_dropWhile_le])
qed (use assms in simp)

lemma mask_one_line:
  "one_line (data @ rem) \<Longrightarrow> mask_password True data = (masked, redacted, mode) \<Longrightarrow>
   starred masked \<and> (mode \<and> one_line rem \<or> rem = [])"
proof (induction "True" data arbitrary: masked redacted rule: mask_password.induct)
  case (1 data)
  let ?P = "\<lambda>c. \<not> is_break c"
  note def = 1(3) [unfolded mask_password.simps [of True data]]
  show ?case
  proof (cases "data = []")
    case True
    with def 1(2) show ?thesis by (simp add: starred_def)
  next
    case False
    have line: "list_all ?P (takeWhile ?P data)" by (auto simp: list_all_iff dest: set_takeWhileD)
    have split: "data = takeWhile ?P data @ dropWhile ?P data" by simp
    show ?thesis
    proof (cases "dropWhile ?P data")
      case Nil
      then have d: "takeWhile ?P data = data" using split by simp
      with def False Nil have "masked = replicate (length data) (CHR ''*'')" "mode" by auto
      moreover have "one_line rem" using one_line_rest [OF line] 1(2) d by simp
      ultimately show ?thesis by (auto simp: starred_def list_all_iff)
    next
      case (Cons b rest)
      have b: "is_break b" using hd_dropWhile [of ?P data] Cons by simp
      show ?thesis
      proof (cases "takeWhile ?P data")
        case Nil
        then have data: "data = b # rest" using split Cons by simp
        obtain m' r' where m': "mask_password True rest = (m', r', mode)" "masked = b # m'"
          using def False Cons Nil by (auto simp: Let_def split: prod.splits)
        have "one_line (rest @ rem)" using 1(2) b unfolding data by (simp add: one_line_break)
        from 1(1) [OF _ refl Cons _ this m'(1)] Nil False have "starred m' \<and> (mode \<and> one_line rem \<or> rem = [])"
          by simp
        then show ?thesis using m'(2) b by (simp add: starred_def)
      next
        case (Cons c cs)
        note line_cs = this
        then have data: "data = c # cs @ b # rest" using split \<open>dropWhile ?P data = b # rest\<close> by simp
        have "rest @ rem = []"
          using one_line_end [of c cs b "rest @ rem"] line [unfolded line_cs] b 1(2) unfolding data by simp
        moreover have "masked = replicate (length (c # cs)) (CHR ''*'') @ b # rest"
          using def False \<open>dropWhile ?P data = b # rest\<close> line_cs by simp
        ultimately show ?thesis using b by (auto simp: starred_def list_all_iff)
      qed
    qed
  qed
qed

text \<open>A tap that asked for a password: what its input buffer and the input still to come hold is at
  most one line.\<close>

definition awaiting :: "string \<Rightarrow> tap \<Rightarrow> bool" where
  "awaiting rem t \<longleftrightarrow> tp_over_budget t \<or>
     tp_password_mode t \<and> one_line (bf_data (tp_in t) @ rem) \<or> bf_data (tp_in t) = [] \<and> rem = []"

definition starred_item :: "item \<Rightarrow> bool" where
  "starred_item it \<longleftrightarrow> (case it of Frame f \<Rightarrow> starred (cf_payload f) | Command _ \<Rightarrow> False)"

lemma emit_buffer_awaiting:
  assumes "awaiting rem t" and "\<not> tp_over_budget t" and "bf_data (tp_in t) \<noteq> []" and "0 < k"
  shows "list_all starred_item (fst (emit_buffer In k trunc now t)) \<and>
    awaiting rem (snd (emit_buffer In k trunc now t))"
proof -
  let ?data = "bf_data (tp_in t)"
  have mode: "tp_password_mode t" and ol: "one_line (take k ?data @ drop k ?data @ rem)"
    using assms(1-3) unfolding awaiting_def append_assoc [symmetric] append_take_drop_id by blast+
  obtain m r md where m: "mask_password True (take k ?data) = (m, r, md)" by (metis prod_cases3)
  from mask_one_line [OF ol m] have st: "starred m" and md: "md \<and> one_line (drop k ?data @ rem) \<or>
    drop k ?data = [] \<and> rem = []" by auto
  show ?thesis
    using m st md mode
    by (auto simp: emit_buffer_def masked_payload_def buffer_of_def set_buffer_def Let_def over_row_budget_def
        redact_secrets_def redact_starred starred_item_def awaiting_def split: prod.splits)
qed

lemma ingest_loop_awaiting:
  "awaiting rem t \<Longrightarrow> list_all starred_item (fst (ingest_loop In now s t)) \<and>
     awaiting rem (snd (ingest_loop In now s t))"
proof (induction In now s t rule: ingest_loop.induct)
  case (1 now s t)
  show ?case
  proof (cases "tp_over_budget t \<or> next_frame s (bf_data (tp_in t)) = None")
    case True
    then show ?thesis using 1(2) by (auto simp: ingest_loop.simps [of In now s t] buffer_of_def)
  next
    case False
    then obtain k trunc where k: "next_frame s (bf_data (buffer_of In t)) = Some (k, trunc)"
      by (auto simp: buffer_of_def)
    then have "0 < k" "bf_data (tp_in t) \<noteq> []" using next_frame_bounds [OF k] by (auto simp: buffer_of_def)
    with emit_buffer_awaiting [OF 1(2)] False
    have e: "list_all starred_item (fst (emit_buffer In k trunc now t))"
      "awaiting rem (snd (emit_buffer In k trunc now t))" by blast+
    from 1(1) [OF _ k refl refl prod.collapse e(2)] False e(1) show ?thesis
      by (simp add: ingest_loop.simps [of In now s t] k case_prod_beta)
  qed
qed

lemma from_client_awaiting:
  assumes "awaiting (data @ rem) t"
  shows "list_all starred_item (fst (from_client data now t)) \<and> awaiting rem (snd (from_client data now t))"
proof -
  have enters: "awaiting rem (t\<lparr>tp_pending_enters := es\<rparr>) = awaiting rem t" for t es
    by (simp add: awaiting_def)
  have "list_all starred_item (fst (ingest In data now t)) \<and> awaiting rem (snd (ingest In data now t))"
  proof (cases "tp_over_budget t \<or> data = [] \<or> MAX_CONNECTION_BYTES < tp_bytes t + length data")
    case True
    then show ?thesis using assms by (auto simp: ingest_def awaiting_def Let_def)
  next
    case False
    let ?b = "\<lparr>bf_data = bf_data (tp_in t) @ data, bf_ts = if bf_data (tp_in t) = [] then Some now else bf_ts (tp_in t)\<rparr>"
    have "awaiting rem (t\<lparr>tp_bytes := tp_bytes t + length data, tp_in := ?b\<rparr>)"
      using assms False by (auto simp: awaiting_def)
    from ingest_loop_awaiting [OF this] False show ?thesis
      by (simp add: ingest_def Let_def buffer_of_def set_buffer_def)
  qed
  then show ?thesis by (simp add: from_client_def case_prod_beta enters)
qed

fun type_keys :: "(string \<times> time) list \<Rightarrow> tap \<Rightarrow> item list \<times> tap" where
  "type_keys [] t = ([], t)"
| "type_keys ((data, now) # keys) t =
     (let (items, t1) = from_client data now t; (more, t2) = type_keys keys t1 in (items @ more, t2))"

lemma type_keys_awaiting:
  "awaiting (concat (map fst keys)) t \<Longrightarrow> list_all starred_item (fst (type_keys keys t))"
proof (induction keys arbitrary: t)
  case (Cons key keys)
  obtain data now where key: "key = (data, now)" by (cases key)
  from from_client_awaiting [of data "concat (map fst keys)" t now] Cons show ?case
    by (simp add: key case_prod_beta)
qed simp

end
