(* ===== verification/Capture_Flow.thy ===== *)
theory Capture_Flow
  imports Capture_Facts
begin

text \<open>
  The flow of captured items: the queue's accounting as an invariant of every operation, what a
  flush does with the rows it takes, the numbering and the budgets of a tap, and how the output of
  a node is cut into frames.
\<close>

subsection \<open>The queue\<close>

datatype capture_event = Submit item | Drain "nat \<Rightarrow> commit \<times> commit"

definition capture_step :: "capture_config \<Rightarrow> capture_event \<Rightarrow> capture \<times> stored \<Rightarrow> capture \<times> stored" where
  "capture_step cfg e s =
     (case e of
        Submit it \<Rightarrow> (submit cfg it (fst s), snd s)
      | Drain commits \<Rightarrow> (case drain_once cfg commits s of None \<Rightarrow> s | Some s' \<Rightarrow> s'))"

definition queue_ok :: "capture_config \<Rightarrow> capture \<Rightarrow> bool" where
  "queue_ok cfg q \<longleftrightarrow> cq_queued_bytes q = sum_list (map frame_bytes (cq_queue q)) \<and>
     cq_queued_bytes q \<le> cc_max_queue_bytes cfg \<and>
     (cc_queue_size cfg = 0 \<or> length (cq_queue q) \<le> cc_queue_size cfg)"

lemma submit_ok: "queue_ok cfg q \<Longrightarrow> queue_ok cfg (submit cfg it q)"
  by (auto simp: queue_ok_def submit_def)

lemma sum_list_drop: "sum_list (map f (drop k xs)) = sum_list (map f xs) - sum_list (map f (take k xs) :: nat list)"
proof -
  have "sum_list (map f xs) = sum_list (map f (take k xs)) + sum_list (map f (drop k xs))"
    by (metis append_take_drop_id map_append sum_list.append)
  then show ?thesis by simp
qed

lemma take_batch_ok: "queue_ok cfg q \<Longrightarrow> queue_ok cfg (snd (take_batch cfg q))"
  by (auto simp: queue_ok_def take_batch_def Let_def sum_list_drop)

lemma queue_ok_flight [simp]: "queue_ok cfg (q\<lparr>cq_in_flight := its\<rparr>) = queue_ok cfg q"
  by (simp add: queue_ok_def)

lemma drain_rounds_ok:
  "queue_ok cfg q \<Longrightarrow> drain_rounds fuel cfg commits n (q, db) = Some (q', db') \<Longrightarrow> queue_ok cfg q'"
proof (induction fuel arbitrary: n q db)
  case (Suc fuel)
  obtain batch q1 where b: "take_batch cfg q = (batch, q1)" by (cases "take_batch cfg q")
  have q1: "queue_ok cfg q1" using take_batch_ok [OF Suc.prems(1)] b by simp
  show ?case
    using Suc.prems(2) Suc.IH [of "q1\<lparr>cq_in_flight := []\<rparr>"] q1
    by (auto simp: b Let_def split: if_splits prod.splits)
qed simp

interpretation capture: transition_system "capture_step cfg" "\<lambda>s. queue_ok cfg (fst s)"
proof
  fix s :: "capture \<times> stored" and e
  assume ok: "queue_ok cfg (fst s)"
  show "queue_ok cfg (fst (capture_step cfg e s))"
  proof (cases e)
    case (Submit it)
    then show ?thesis using ok by (simp add: capture_step_def submit_ok)
  next
    case (Drain commits)
    then show ?thesis
      using ok drain_rounds_ok [of cfg "fst s" _ commits 0 "snd s"]
      by (cases "drain_once cfg commits s") (auto simp: capture_step_def drain_once_def)
  qed
qed

lemma capture_init_ok: "queue_ok cfg capture_init"
  by (simp add: queue_ok_def capture_init_def)

subsection \<open>A flush\<close>

definition pending :: "capture \<Rightarrow> item list" where
  "pending q = cq_in_flight q @ cq_queue q"

text \<open>A commit that stores the rows and returns, or is cancelled before it stores any.\<close>

definition orderly :: "commit \<times> commit \<Rightarrow> bool" where
  "orderly c \<longleftrightarrow> fst c \<in> {Committed, Cancelled False} \<and> snd c \<in> {Committed, Cancelled False}"

text \<open>The rows stored and those still to be stored, in order.\<close>

definition all_chunks :: "capture \<times> stored \<Rightarrow> console_frame list" where
  "all_chunks s = st_chunks (snd s) @ frames_of (pending (fst s))"

definition all_commands :: "capture \<times> stored \<Rightarrow> command_record list" where
  "all_commands s = st_commands (snd s) @ commands_of (pending (fst s))"

lemma frames_of_append [simp]: "frames_of (a @ b) = frames_of a @ frames_of b"
  by (simp add: frames_of_def map_filter_def)

lemma commands_of_append [simp]: "commands_of (a @ b) = commands_of a @ commands_of b"
  by (simp add: commands_of_def map_filter_def)

lemma frames_of_simps [simp]:
  "frames_of [] = []" "frames_of (Frame f # its) = f # frames_of its" "frames_of (Command c # its) = frames_of its"
  by (simp_all add: frames_of_def map_filter_def)

lemma commands_of_simps [simp]:
  "commands_of [] = []" "commands_of (Command c # its) = c # commands_of its"
  "commands_of (Frame f # its) = commands_of its"
  by (simp_all add: commands_of_def map_filter_def)

lemma filter_commands [simp]:
  "frames_of (filter is_command its) = [] \<and> commands_of (filter is_command its) = commands_of its"
proof (induction its)
  case (Cons it its)
  then show ?case by (cases it) (simp_all add: is_command_def)
qed simp

lemma write_batch_orderly:
  assumes "orderly (c1, c2)" and "write_batch c1 c2 batch batch db = (flight, db', running)"
  shows "(running \<longrightarrow> st_chunks db' = st_chunks db @ frames_of batch \<and>
            st_commands db' = st_commands db @ commands_of batch) \<and>
    (\<not> running \<longrightarrow> st_chunks db' @ frames_of flight = st_chunks db @ frames_of batch \<and>
       st_commands db' @ commands_of flight = st_commands db @ commands_of batch) \<and>
    ((c1, c2) = (Committed, Committed) \<longrightarrow> running)"
  using assms by (auto simp: orderly_def write_batch_def Let_def split: if_splits)

lemma take_batch_pending:
  assumes "take_batch cfg q = (batch, q1)"
  shows "batch @ cq_queue q1 = pending q" and "cq_in_flight q1 = []"
    and "batch = [] \<Longrightarrow> 0 < cc_batch_size cfg \<Longrightarrow> pending q = []"
  using assms by (auto simp: take_batch_def pending_def Let_def)

lemma take_batch_shorter:
  assumes "take_batch cfg q = (batch, q1)" and "batch \<noteq> []"
  shows "length (pending (q1\<lparr>cq_in_flight := []\<rparr>)) < length (pending q)"
proof -
  have "length batch + length (cq_queue q1) = length (pending q)"
    using take_batch_pending(1) [OF assms(1)] by (metis length_append)
  moreover from assms(2) have "length batch \<noteq> 0" by simp
  moreover have "pending (q1\<lparr>cq_in_flight := []\<rparr>) = cq_queue q1" by (simp add: pending_def)
  ultimately show ?thesis by (metis add_less_cancel_right add.left_neutral gr0I)
qed

lemma drain_rounds_orderly:
  assumes "\<forall>n. orderly (commits n)" and "length (pending q) < fuel"
  shows "\<exists>s'. drain_rounds fuel cfg commits n (q, db) = Some s' \<and>
    all_chunks s' = all_chunks (q, db) \<and> all_commands s' = all_commands (q, db) \<and>
    ((\<forall>n. commits n = (Committed, Committed)) \<and> 0 < cc_batch_size cfg \<longrightarrow> pending (fst s') = [])"
  using assms(2)
proof (induction fuel arbitrary: n q db)
  case (Suc fuel)
  obtain batch q1 where b: "take_batch cfg q = (batch, q1)" by (cases "take_batch cfg q")
  note tb = take_batch_pending [OF b]
  have q1: "pending q1 = cq_queue q1" using tb(2) by (simp add: pending_def)
  show ?case
  proof (cases "batch = []")
    case True
    then have "drain_rounds (Suc fuel) cfg commits n (q, db) = Some (q1, db)" by (simp add: b)
    moreover have "pending q1 = pending q" using tb(1) q1 True by simp
    ultimately show ?thesis using tb(3) [OF True] by (simp add: all_chunks_def all_commands_def)
  next
    case False
    obtain c1 c2 where c: "commits n = (c1, c2)" by (cases "commits n")
    obtain flight db1 running where w: "write_batch c1 c2 batch batch db = (flight, db1, running)"
      by (metis prod_cases3)
    have ord: "orderly (c1, c2)" using assms(1) c by metis
    note wb = write_batch_orderly [OF ord w]
    have parts: "frames_of (pending q) = frames_of batch @ frames_of (cq_queue q1)"
      "commands_of (pending q) = commands_of batch @ commands_of (cq_queue q1)"
      by (simp_all flip: tb(1))
    have flight: "pending (q1\<lparr>cq_in_flight := its\<rparr>) = its @ cq_queue q1" for its by (simp add: pending_def)
    show ?thesis
    proof (cases running)
      case True
      have step: "drain_rounds (Suc fuel) cfg commits n (q, db) =
          drain_rounds fuel cfg commits (Suc n) (q1\<lparr>cq_in_flight := []\<rparr>, db1)"
        using False True by (simp add: b c w)
      have "length (pending (q1\<lparr>cq_in_flight := []\<rparr>)) < fuel"
        using take_batch_shorter [OF b False] Suc.prems by linarith
      from Suc.IH [OF this, of "Suc n" db1] obtain s' where
        s': "drain_rounds fuel cfg commits (Suc n) (q1\<lparr>cq_in_flight := []\<rparr>, db1) = Some s'"
        "all_chunks s' = all_chunks (q1\<lparr>cq_in_flight := []\<rparr>, db1)"
        "all_commands s' = all_commands (q1\<lparr>cq_in_flight := []\<rparr>, db1)"
        "(\<forall>n. commits n = (Committed, Committed)) \<and> 0 < cc_batch_size cfg \<longrightarrow> pending (fst s') = []" by blast
      have "all_chunks (q1\<lparr>cq_in_flight := []\<rparr>, db1) = all_chunks (q, db)"
        "all_commands (q1\<lparr>cq_in_flight := []\<rparr>, db1) = all_commands (q, db)"
        using wb True parts by (simp_all add: all_chunks_def all_commands_def flight)
      then show ?thesis using step s' by simp
    next
      case stop: False
      have "drain_rounds (Suc fuel) cfg commits n (q, db) = Some (q1\<lparr>cq_in_flight := flight\<rparr>, db1)"
        using False stop by (simp add: b c w)
      moreover have "all_chunks (q1\<lparr>cq_in_flight := flight\<rparr>, db1) = all_chunks (q, db)"
        "all_commands (q1\<lparr>cq_in_flight := flight\<rparr>, db1) = all_commands (q, db)"
        using wb stop parts by (simp_all add: all_chunks_def all_commands_def flight)
      moreover have "\<not> (\<forall>n. commits n = (Committed, Committed))" using wb stop c by metis
      ultimately show ?thesis by auto
    qed
  qed
qed simp

lemma drain_once_orderly:
  assumes "\<forall>n. orderly (commits n)"
  shows "\<exists>s'. drain_once cfg commits s = Some s' \<and> all_chunks s' = all_chunks s \<and> all_commands s' = all_commands s \<and>
    ((\<forall>n. commits n = (Committed, Committed)) \<and> 0 < cc_batch_size cfg \<longrightarrow> pending (fst s') = [])"
  using drain_rounds_orderly [OF assms, of "fst s" _ cfg 0 "snd s"]
  by (simp add: drain_once_def pending_def)

text \<open>Whatever the commits do, a flush ends.\<close>

lemma drain_rounds_total: "length (pending q) < fuel \<Longrightarrow> drain_rounds fuel cfg commits n (q, db) \<noteq> None"
proof (induction fuel arbitrary: n q db)
  case (Suc fuel)
  obtain batch q1 where b: "take_batch cfg q = (batch, q1)" by (cases "take_batch cfg q")
  have "length (pending (q1\<lparr>cq_in_flight := []\<rparr>)) < fuel" if "batch \<noteq> []"
    using take_batch_shorter [OF b that] Suc.prems by linarith
  then show ?case using Suc.IH by (auto simp: b Let_def split: prod.splits)
qed simp

subsection \<open>A tap's numbers and budgets\<close>

datatype tap_event = Client string | Node string | Close

definition tap_op ::
  "(string \<Rightarrow> string) \<Rightarrow> (string \<Rightarrow> string) \<Rightarrow> tap_event \<times> time \<Rightarrow> tap \<Rightarrow> item list \<times> tap" where
  "tap_op decode encode e t =
     (case fst e of
        Client data \<Rightarrow> from_client data (snd e) t
      | Node data \<Rightarrow> from_node decode encode data (snd e) t
      | Close \<Rightarrow> close_tap decode encode (snd e) t)"

definition tap_step ::
  "(string \<Rightarrow> string) \<Rightarrow> (string \<Rightarrow> string) \<Rightarrow> tap_event \<times> time \<Rightarrow> item list \<times> tap \<Rightarrow> item list \<times> tap" where
  "tap_step decode encode e s =
     (let (new, t) = tap_op decode encode e (snd s) in (fst s @ new, t))"

text \<open>The ledger of a tap: its items, its row and frame counters.  A ledger law looks at nothing
  else, and holds after a frame or a command is booked.\<close>

definition same_ledger :: "tap \<Rightarrow> tap \<Rightarrow> bool" where
  "same_ledger t t' \<longleftrightarrow> tp_rows t' = tp_rows t \<and> tp_seq t' = tp_seq t \<and> tp_node_id t' = tp_node_id t"

locale tap_ledger =
  fixes law :: "item list \<times> tap \<Rightarrow> bool"
  assumes quiet: "law (its, t) \<Longrightarrow> same_ledger t t' \<Longrightarrow> law (its, t')"
    and frame: "law (its, t) \<Longrightarrow> tp_rows t < MAX_CONNECTION_ROWS \<Longrightarrow> cf_node_id f = tp_node_id t \<Longrightarrow>
      cf_seq f = tp_seq t + 1 \<Longrightarrow> law (its @ [Frame f], t\<lparr>tp_rows := tp_rows t + 1, tp_seq := tp_seq t + 1\<rparr>)"
    and booked_command: "law (its, t) \<Longrightarrow> tp_rows t < MAX_CONNECTION_ROWS \<Longrightarrow>
      law (its @ [command_item decode encode c t'], t\<lparr>tp_rows := tp_rows t + 1\<rparr>)
        \<or> tp_node_id t' \<noteq> tp_node_id t"
begin

definition keeps :: "(tap \<Rightarrow> item list \<times> tap) \<Rightarrow> bool" where
  "keeps f \<longleftrightarrow> (\<forall>its t. law (its, t) \<longrightarrow> law (its @ fst (f t), snd (f t)))"

lemma keepsD: "keeps f \<Longrightarrow> law (its, t) \<Longrightarrow> law (its @ fst (f t), snd (f t))"
  by (simp add: keeps_def)

lemma keeps_emit_buffer: "keeps (emit_buffer dir k trunc now)"
  unfolding keeps_def
proof (intro allI impI)
  fix its t
  assume n: "law (its, t)"
  define t1 where "t1 = set_buffer dir \<lparr>bf_data = drop k (bf_data (buffer_of dir t)),
    bf_ts = (if drop k (bf_data (buffer_of dir t)) \<noteq> [] then Some now else None)\<rparr> t"
  obtain p r t2 where m: "masked_payload dir (take k (bf_data (buffer_of dir t))) t1 = (p, r, t2)"
    by (metis prod_cases3)
  then have "same_ledger t t2"
    by (auto simp: masked_payload_def same_ledger_def t1_def set_buffer_def split: if_splits prod.splits direction.splits)
  with n have t2: "law (its, t2)" by (rule quiet)
  then have "law (its, t2\<lparr>tp_over_budget := True\<rparr>)" by (rule quiet) (simp add: same_ledger_def)
  then show "law (its @ fst (emit_buffer dir k trunc now t), snd (emit_buffer dir k trunc now t))"
    using frame [OF t2] unfolding emit_buffer_def Let_def t1_def [symmetric] m
    by (simp add: over_row_budget_def case_prod_beta)
qed

lemma keeps_ingest_loop: "law (its, t) \<Longrightarrow> law (its @ fst (ingest_loop dir now s t), snd (ingest_loop dir now s t))"
proof (induction dir now s t arbitrary: its rule: ingest_loop.induct)
  case (1 dir now s t)
  show ?case
  proof (cases "tp_over_budget t \<or> next_frame s (bf_data (buffer_of dir t)) = None")
    case True
    then show ?thesis using 1(2) by (auto simp: ingest_loop.simps [of dir now s t])
  next
    case False
    then obtain k trunc where k: "next_frame s (bf_data (buffer_of dir t)) = Some (k, trunc)" by auto
    from 1(1) [OF _ k refl refl prod.collapse keepsD [OF keeps_emit_buffer 1(2)]] False show ?thesis
      by (simp add: ingest_loop.simps [of dir now s t] k case_prod_beta)
  qed
qed

lemma keeps_ingest: "keeps (ingest dir data now)"
proof -
  have "law (its @ fst (ingest dir data now t), snd (ingest dir data now t))" if "law (its, t)" for its t
  proof (cases "tp_over_budget t \<or> data = [] \<or> MAX_CONNECTION_BYTES < tp_bytes t + length data")
    case True
    then show ?thesis using that quiet [OF that]
      by (auto simp: ingest_def Let_def same_ledger_def)
  next
    case False
    let ?t = "t\<lparr>tp_bytes := tp_bytes t + length data\<rparr>"
    have "law (its, set_buffer dir b ?t)" for b
      by (rule quiet [OF that]) (simp add: same_ledger_def set_buffer_def split: direction.split)
    from keeps_ingest_loop [OF this] False show ?thesis by (simp add: ingest_def Let_def)
  qed
  then show ?thesis by (simp add: keeps_def)
qed

lemma keeps_emit_commands: "keeps (emit_commands decode encode cs)"
proof -
  have "law (its, t) \<Longrightarrow> law (its @ fst (emit_commands decode encode cs t), snd (emit_commands decode encode cs t))" for its t
  proof (induction cs arbitrary: its t)
    case (Cons c cs)
    obtain mine t1 where m: "is_learner_command c t = (mine, t1)" by (cases "is_learner_command c t")
    then have "same_ledger t t1"
      by (auto simp: is_learner_command_def Let_def same_ledger_def split: list.splits if_splits)
    with Cons.prems have t1: "law (its, t1)" by (rule quiet)
    then have over: "law (its, t1\<lparr>tp_over_budget := True\<rparr>)" by (rule quiet) (simp add: same_ledger_def)
    show ?case
    proof (cases "\<not> mine \<or> tp_over_budget t1 \<or> MAX_CONNECTION_ROWS \<le> tp_rows t1")
      case True
      then show ?thesis using Cons.IH [OF t1] Cons.IH [OF over] by (auto simp: m over_row_budget_def)
    next
      case False
      let ?t2 = "t1\<lparr>tp_rows := tp_rows t1 + 1\<rparr>"
      have "law (its @ [command_item decode encode c ?t2], ?t2)"
        using booked_command [OF t1, of decode encode c ?t2] False by simp
      from Cons.IH [OF this] False show ?thesis by (simp add: m over_row_budget_def case_prod_beta)
    qed
  qed simp
  then show ?thesis by (simp add: keeps_def)
qed

lemma keeps_close_buffer: "law (its, t) \<Longrightarrow> law (its @ fst (close_buffer dir now t), snd (close_buffer dir now t))"
proof (induction dir now t arbitrary: its rule: close_buffer.induct)
  case (1 dir now t)
  show ?case
  proof (cases "length (bf_data (buffer_of dir t)) = 0 \<or> tp_over_budget t")
    case True
    then show ?thesis using 1(2) by (simp add: close_buffer.simps [of dir now t])
  next
    case False
    from 1(1) [OF refl refl False refl prod.collapse keepsD [OF keeps_emit_buffer 1(2)]] False show ?thesis
      by (simp add: close_buffer.simps [of dir now t] Let_def case_prod_beta)
  qed
qed

lemma keeps_op: "keeps (tap_op decode encode e)"
proof -
  obtain ev now where e: "e = (ev, now)" by (cases e)
  have "law (its @ fst (tap_op decode encode e t), snd (tap_op decode encode e t))" if n: "law (its, t)" for its t
  proof (cases ev)
    case (Client data)
    have "law (its @ fst (ingest In data now t), (snd (ingest In data now t))\<lparr>tp_pending_enters := es\<rparr>)" for es
      by (rule quiet [OF keepsD [OF keeps_ingest n]]) (simp add: same_ledger_def)
    then show ?thesis by (simp add: Client e tap_op_def from_client_def case_prod_beta)
  next
    case (Node data)
    let ?i = "ingest Out data now t"
    have "law (its @ fst ?i, (snd ?i)\<lparr>tp_reconstructor := r\<rparr>)" for r
      by (rule quiet [OF keepsD [OF keeps_ingest n]]) (simp add: same_ledger_def)
    from quiet [OF keepsD [OF keeps_emit_commands this]] show ?thesis
      by (simp add: Node e tap_op_def from_node_def Let_def case_prod_beta same_ledger_def)
  next
    case Close
    let ?o = "close_buffer Out now (snd (close_buffer In now t))"
    have "law ((its @ fst (close_buffer In now t)) @ fst ?o, (snd ?o)\<lparr>tp_reconstructor := r\<rparr>)" for r
      by (rule quiet [OF keeps_close_buffer [OF keeps_close_buffer [OF n]]]) (simp add: same_ledger_def)
    from keepsD [OF keeps_emit_commands this] show ?thesis
      by (simp add: Close e tap_op_def close_tap_def case_prod_beta)
  qed
  then show ?thesis by (simp add: keeps_def)
qed

lemma keeps_step: "law s \<Longrightarrow> law (tap_step decode encode e s)"
  using keepsD [OF keeps_op, of "fst s" "snd s" decode encode e] by (simp add: tap_step_def case_prod_beta)

end

text \<open>What was submitted stays within the rows counted, and the frames are numbered from one.\<close>

definition numbered :: "item list \<times> tap \<Rightarrow> bool" where
  "numbered s \<longleftrightarrow> length (fst s) \<le> tp_rows (snd s) \<and> tp_rows (snd s) \<le> MAX_CONNECTION_ROWS \<and>
     map cf_seq (frames_of (fst s)) = [1..<Suc (tp_seq (snd s))]"

text \<open>What was submitted fits the columns of its table.\<close>

fun fits_columns :: "item \<Rightarrow> bool" where
  "fits_columns (Frame f) \<longleftrightarrow> length (cf_node_id f) \<le> MAX_NODE_ID_CHARS"
| "fits_columns (Command c) \<longleftrightarrow> length (cm_node_id c) \<le> MAX_NODE_ID_CHARS \<and>
     (case cm_prompt c of None \<Rightarrow> True | Some p \<Rightarrow> p \<noteq> [] \<and> length p \<le> MAX_PROMPT_CHARS)"

definition fitting :: "item list \<times> tap \<Rightarrow> bool" where
  "fitting s \<longleftrightarrow> length (tp_node_id (snd s)) \<le> MAX_NODE_ID_CHARS \<and> list_all fits_columns (fst s)"

interpretation numbers: tap_ledger numbered
  by unfold_locales (auto simp: numbered_def same_ledger_def command_item_def)

interpretation columns: tap_ledger fitting
  by unfold_locales (auto simp: fitting_def same_ledger_def command_item_def Let_def)

interpretation tap: transition_system "tap_step decode encode" "\<lambda>s. numbered s \<and> fitting s"
  by unfold_locales (simp add: numbers.keeps_step columns.keeps_step)

lemma new_tap_ok: "numbered ([], new_tap node_id now) \<and> fitting ([], new_tap node_id now)"
  by (simp add: numbered_def fitting_def new_tap_def)

subsection \<open>Cutting output into frames\<close>

text \<open>The pieces frames are made of: every piece ends a line or is as long as a frame can be.\<close>

definition well_cut :: "string \<Rightarrow> bool" where
  "well_cut p \<longleftrightarrow> p \<noteq> [] \<and> length p \<le> MAX_CHUNK_BYTES \<and> (is_break (last p) \<or> length p = MAX_CHUNK_BYTES)"

definition frames_from :: "string list \<Rightarrow> item list \<Rightarrow> bool" where
  "frames_from pieces its \<longleftrightarrow> list_all well_cut pieces \<and>
     map cf_payload (frames_of its) = map (\<lambda>p. fst (redact_secrets p)) pieces"

lemma frames_from_append: "frames_from ps a \<Longrightarrow> frames_from qs b \<Longrightarrow> frames_from (ps @ qs) (a @ b)"
  by (simp add: frames_from_def)

lemma next_frame_well_cut:
  assumes "next_frame s data = Some (k, trunc)" shows "well_cut (take k data)"
proof -
  have k: "0 < k" "k \<le> length data" using next_frame_bounds [OF assms] by auto
  have "k = MAX_CHUNK_BYTES \<or> k \<le> MAX_CHUNK_BYTES \<and> is_break (data ! (k - 1))"
    using assms by (auto simp: next_frame_def Let_def dest!: last_break_bounds split: option.splits if_splits)
  moreover have "last (take k data) = data ! (k - 1)" using k by (subst last_conv_nth) auto
  ultimately show ?thesis using k by (auto simp: well_cut_def)
qed

lemma emit_buffer_out:
  assumes "\<not> tp_over_budget (snd (emit_buffer Out k trunc now t))"
  shows "map cf_payload (frames_of (fst (emit_buffer Out k trunc now t))) =
    [fst (redact_secrets (take k (bf_data (tp_out t))))]"
  using assms
  by (auto simp: emit_buffer_def masked_payload_def buffer_of_def over_row_budget_def Let_def case_prod_beta
      split: if_splits)

lemma emit_buffer_over: "tp_over_budget t \<Longrightarrow> tp_over_budget (snd (emit_buffer dir k trunc now t))"
  by (auto simp: emit_buffer_def masked_payload_def over_row_budget_def set_buffer_def Let_def case_prod_beta
      split: direction.splits)

lemma ingest_loop_over:
  "tp_over_budget t \<Longrightarrow> tp_over_budget (snd (ingest_loop dir now s t))"
  by (simp add: ingest_loop.simps [of dir now s t])

lemma no_break_left:
  assumes "next_frame s data = None" and "list_all (\<lambda>c. \<not> is_break c) (take s data)"
  shows "list_all (\<lambda>c. \<not> is_break c) data \<and> length data < MAX_CHUNK_BYTES"
proof -
  have len: "length data < MAX_CHUNK_BYTES"
    using assms(1) by (auto simp: next_frame_def Let_def split: option.splits if_splits)
  then have none: "last_break s (length data) data = None"
    using assms(1) by (auto simp: next_frame_def Let_def min_def split: option.splits if_splits)
  have "\<not> is_break (data ! i)" if "i < length data" for i
  proof (cases "i < s")
    case True
    then have "i < length (take s data)" "take s data ! i = data ! i" using that by simp_all
    then show ?thesis using assms(2) by (metis list_all_length)
  next
    case False
    then have "i \<in> set (rev [s..<length data])" using that by simp
    then show ?thesis using none unfolding last_break_def find_None_iff by blast
  qed
  then show ?thesis using len by (simp add: list_all_length)
qed

lemma ingest_loop_out:
  "\<not> tp_over_budget (snd (ingest_loop Out now s t)) \<Longrightarrow>
   list_all (\<lambda>c. \<not> is_break c) (take s (bf_data (tp_out t))) \<Longrightarrow>
   \<exists>pieces. frames_from pieces (fst (ingest_loop Out now s t)) \<and>
     concat pieces @ bf_data (tp_out (snd (ingest_loop Out now s t))) = bf_data (tp_out t) \<and>
     list_all (\<lambda>c. \<not> is_break c) (bf_data (tp_out (snd (ingest_loop Out now s t)))) \<and>
     length (bf_data (tp_out (snd (ingest_loop Out now s t)))) < MAX_CHUNK_BYTES"
proof (induction Out now s t rule: ingest_loop.induct)
  case (1 now s t)
  have notover: "\<not> tp_over_budget t" using 1(2) ingest_loop_over by blast
  show ?case
  proof (cases "next_frame s (bf_data (tp_out t))")
    case None
    then have "ingest_loop Out now s t = ([], t)"
      by (simp add: ingest_loop.simps [of Out now s t] buffer_of_def)
    then show ?thesis using no_break_left [OF None 1(3)]
      by (intro exI [of _ "[]"]) (simp add: frames_from_def)
  next
    case (Some kt)
    obtain k trunc where kt: "kt = (k, trunc)" by (cases kt)
    have nf: "next_frame s (bf_data (buffer_of Out t)) = Some (k, trunc)" using Some kt by (simp add: buffer_of_def)
    let ?e = "emit_buffer Out k trunc now t"
    let ?l = "ingest_loop Out now 0 (snd ?e)"
    have step: "ingest_loop Out now s t = (fst ?e @ fst ?l, snd ?l)"
      using notover nf by (simp add: ingest_loop.simps [of Out now s t] case_prod_beta)
    have ok: "\<not> tp_over_budget (snd ?l)" using 1(2) by (simp add: step)
    then have ok1: "\<not> tp_over_budget (snd ?e)" using ingest_loop_over by blast
    have data: "bf_data (tp_out (snd ?e)) = drop k (bf_data (tp_out t))"
      using emit_buffer_data [of Out k trunc now t] by (simp add: buffer_of_def)
    from 1(1) [OF notover nf refl refl prod.collapse ok] obtain pieces where
      p: "frames_from pieces (fst ?l)" "concat pieces @ bf_data (tp_out (snd ?l)) = bf_data (tp_out (snd ?e))"
      "list_all (\<lambda>c. \<not> is_break c) (bf_data (tp_out (snd ?l)))" "length (bf_data (tp_out (snd ?l))) < MAX_CHUNK_BYTES"
      by auto
    have "frames_from [take k (bf_data (tp_out t))] (fst ?e)"
      using emit_buffer_out [OF ok1] next_frame_well_cut [OF nf] by (simp add: frames_from_def buffer_of_def)
    then have "frames_from (take k (bf_data (tp_out t)) # pieces) (fst ?e @ fst ?l)"
      using frames_from_append [OF _ p(1)] by fastforce
    moreover have "concat (take k (bf_data (tp_out t)) # pieces) @ bf_data (tp_out (snd ?l)) = bf_data (tp_out t)"
      using p(2) unfolding data by simp
    ultimately show ?thesis unfolding step using p(3,4) by (metis fst_conv snd_conv)
  qed
qed

text \<open>A socket on which only the node speaks.\<close>

fun node_output ::
  "(string \<Rightarrow> string) \<Rightarrow> (string \<Rightarrow> string) \<Rightarrow> (string \<times> time) list \<Rightarrow> tap \<Rightarrow> item list \<times> tap" where
  "node_output decode encode [] t = ([], t)"
| "node_output decode encode ((data, now) # rest) t =
     (let (items, t1) = from_node decode encode data now t; (more, t2) = node_output decode encode rest t1
      in (items @ more, t2))"

lemma emit_commands_frames: "frames_of (fst (emit_commands decode encode cs t)) = []"
proof (induction cs arbitrary: t)
  case (Cons c cs)
  then show ?case by (simp add: case_prod_beta Let_def command_item_def)
qed simp

lemma is_learner_keeps: "tp_out (snd (is_learner_command c t)) = tp_out t \<and>
    tp_over_budget (snd (is_learner_command c t)) = tp_over_budget t"
  by (simp add: is_learner_command_def Let_def split: list.splits)

lemma emit_commands_keeps: "tp_out (snd (emit_commands decode encode cs t)) = tp_out t \<and>
    (tp_over_budget t \<longrightarrow> tp_over_budget (snd (emit_commands decode encode cs t)))"
proof (induction cs arbitrary: t)
  case (Cons c cs)
  obtain mine t1 where m: "is_learner_command c t = (mine, t1)" by (cases "is_learner_command c t")
  have t1: "tp_out t1 = tp_out t" "tp_over_budget t1 = tp_over_budget t" using is_learner_keeps [of c t] m by simp_all
  then show ?case using Cons [of t1] Cons [of "t1\<lparr>tp_over_budget := True\<rparr>"] Cons [of "t1\<lparr>tp_rows := tp_rows t1 + 1\<rparr>"]
    by (auto simp: m over_row_budget_def case_prod_beta)
qed simp

lemma ingest_over: "tp_over_budget t \<Longrightarrow> tp_over_budget (snd (ingest dir data now t))"
  by (simp add: ingest_def)

lemma node_output_over: "tp_over_budget t \<Longrightarrow> tp_over_budget (snd (node_output decode encode evs t))"
proof (induction evs arbitrary: t)
  case (Cons ev evs)
  have "tp_over_budget (snd (from_node decode encode (fst ev) (snd ev) t))"
    using ingest_over [OF Cons.prems, of Out "fst ev" "snd ev"] emit_commands_keeps
    by (simp add: from_node_def Let_def case_prod_beta)
  with Cons.IH show ?case by (cases ev) (simp add: case_prod_beta)
qed simp

lemma ingest_out:
  assumes "\<not> tp_over_budget (snd (ingest Out data now t))" and "list_all (\<lambda>c. \<not> is_break c) (bf_data (tp_out t))"
    and "length (bf_data (tp_out t)) < MAX_CHUNK_BYTES"
  shows "\<exists>pieces. frames_from pieces (fst (ingest Out data now t)) \<and>
     concat pieces @ bf_data (tp_out (snd (ingest Out data now t))) = bf_data (tp_out t) @ data \<and>
     list_all (\<lambda>c. \<not> is_break c) (bf_data (tp_out (snd (ingest Out data now t)))) \<and>
     length (bf_data (tp_out (snd (ingest Out data now t)))) < MAX_CHUNK_BYTES"
proof (cases "data = []")
  case True
  then show ?thesis using assms by (intro exI [of _ "[]"]) (simp add: ingest_def frames_from_def)
next
  case False
  have no: "\<not> tp_over_budget t" using assms(1) ingest_over by blast
  have small: "\<not> MAX_CONNECTION_BYTES < tp_bytes t + length data"
    using assms(1) no False by (auto simp: ingest_def)
  let ?t = "t\<lparr>tp_bytes := tp_bytes t + length data, tp_out := \<lparr>bf_data = bf_data (tp_out t) @ data,
    bf_ts = if bf_data (tp_out t) = [] then Some now else bf_ts (tp_out t)\<rparr>\<rparr>"
  have step: "ingest Out data now t = ingest_loop Out now (length (bf_data (tp_out t))) ?t"
    using no small False by (simp add: ingest_def Let_def buffer_of_def set_buffer_def)
  show ?thesis
    using ingest_loop_out [of now "length (bf_data (tp_out t))" ?t] assms(1,2) unfolding step by simp
qed

lemma node_output_cut:
  "\<not> tp_over_budget (snd (node_output decode encode evs t)) \<Longrightarrow>
   list_all (\<lambda>c. \<not> is_break c) (bf_data (tp_out t)) \<Longrightarrow> length (bf_data (tp_out t)) < MAX_CHUNK_BYTES \<Longrightarrow>
   \<exists>pieces. frames_from pieces (fst (node_output decode encode evs t)) \<and>
     concat pieces @ bf_data (tp_out (snd (node_output decode encode evs t))) =
       bf_data (tp_out t) @ concat (map fst evs) \<and>
     list_all (\<lambda>c. \<not> is_break c) (bf_data (tp_out (snd (node_output decode encode evs t))))"
proof (induction evs arbitrary: t)
  case Nil
  then show ?case by (intro exI [of _ "[]"]) (simp add: frames_from_def)
next
  case (Cons ev evs)
  obtain data now where ev: "ev = (data, now)" by (cases ev)
  let ?i = "ingest Out data now t" and ?f = "from_node decode encode data now t"
  let ?n = "node_output decode encode evs (snd ?f)"
  have step: "node_output decode encode (ev # evs) t = (fst ?f @ fst ?n, snd ?n)"
    by (simp add: ev case_prod_beta)
  have okf: "\<not> tp_over_budget (snd ?f)" using Cons.prems(1) node_output_over unfolding step by fastforce
  then have oki: "\<not> tp_over_budget (snd ?i)"
    using emit_commands_keeps by (auto simp: from_node_def Let_def case_prod_beta)
  have out: "tp_out (snd ?f) = tp_out (snd ?i)" "frames_of (fst ?f) = frames_of (fst ?i)"
    using emit_commands_keeps emit_commands_frames by (simp_all add: from_node_def Let_def case_prod_beta)
  from ingest_out [OF oki Cons.prems(2,3)] obtain ps where
    ps: "frames_from ps (fst ?i)" "concat ps @ bf_data (tp_out (snd ?i)) = bf_data (tp_out t) @ data"
    "list_all (\<lambda>c. \<not> is_break c) (bf_data (tp_out (snd ?i)))" "length (bf_data (tp_out (snd ?i))) < MAX_CHUNK_BYTES"
    by blast
  from Cons.IH [of "snd ?f"] Cons.prems(1) ps(3,4) obtain qs where
    qs: "frames_from qs (fst ?n)" "concat qs @ bf_data (tp_out (snd ?n)) = bf_data (tp_out (snd ?i)) @ concat (map fst evs)"
    "list_all (\<lambda>c. \<not> is_break c) (bf_data (tp_out (snd ?n)))"
    unfolding step out by auto
  have "frames_from ps (fst ?f)" using ps(1) out(2) by (simp add: frames_from_def)
  then have "frames_from (ps @ qs) (fst ?f @ fst ?n)" using qs(1) by (rule frames_from_append)
  moreover have "concat (ps @ qs) @ bf_data (tp_out (snd ?n)) = bf_data (tp_out t) @ concat (map fst (ev # evs))"
    using ps(2) qs(2) by (simp add: ev)
  ultimately show ?case unfolding step using qs(3) by (metis fst_conv snd_conv)
qed

end
