(* ===== verification/Reconstruct_Facts.thy ===== *)
theory Reconstruct_Facts
  imports Reconstruct
begin

text \<open>
  Feeding the parser in pieces: what it finds depends on the bytes alone, not on how they were cut
  into frames, for plain text that is not cut between a carriage return and its line feed.
\<close>

subsection \<open>Lines of a text\<close>

function split_text :: "string \<Rightarrow> string list \<times> string" where
  "split_text s =
     (case next_break s of
        None \<Rightarrow> ([], s) | Some (line, rest) \<Rightarrow> (let (ls, tl') = split_text rest in (line # ls, tl')))"
  by pat_completeness auto
termination
  by (relation "measure length") (auto dest: next_break_shorter)

declare split_text.simps [simp del]

lemma no_break_split:
  "list_all (\<lambda>c. \<not> is_break c) p \<Longrightarrow> dropWhile (\<lambda>c. \<not> is_break c) (p @ s) = dropWhile (\<lambda>c. \<not> is_break c) s"
  "list_all (\<lambda>c. \<not> is_break c) p \<Longrightarrow> takeWhile (\<lambda>c. \<not> is_break c) (p @ s) = p @ takeWhile (\<lambda>c. \<not> is_break c) s"
  by (induction p) auto

lemma next_break_None: "next_break s = None \<longleftrightarrow> list_all (\<lambda>c. \<not> is_break c) s"
proof -
  have "dropWhile (\<lambda>c. \<not> is_break c) s = [] \<longleftrightarrow> list_all (\<lambda>c. \<not> is_break c) s"
    by (simp add: list_all_iff)
  then show ?thesis
    by (cases "dropWhile (\<lambda>c. \<not> is_break c) s") (auto simp: next_break_def simp del: dropWhile_eq_Nil_conv)
qed

lemma split_text_no_break: "list_all (\<lambda>c. \<not> is_break c) s \<Longrightarrow> split_text s = ([], s)"
  by (simp add: split_text.simps [of s] iffD2 [OF next_break_None])

lemma next_break_prefix:
  assumes "list_all (\<lambda>c. \<not> is_break c) p"
  shows "next_break (p @ s) = map_option (\<lambda>(l, r). (p @ l, r)) (next_break s)"
  unfolding next_break_def no_break_split [OF assms]
  by (cases "dropWhile (\<lambda>c. \<not> is_break c) s") (simp_all del: dropWhile_eq_Nil_conv)

lemma dropWhile_at:
  assumes "dropWhile P s = c # rest"
  obtains n where "s = n @ c # rest" "list_all P n" "\<not> P c" "takeWhile P s = n"
proof
  show "s = takeWhile P s @ c # rest" using assms by (metis takeWhile_dropWhile_id)
  show "list_all P (takeWhile P s)" by (auto simp: list_all_iff dest: set_takeWhileD)
  show "\<not> P c" using hd_dropWhile [of P s] assms by simp
qed simp

lemma takeWhile_at:
  assumes "list_all P n" and "\<not> P c"
  shows "takeWhile P (n @ c # rest) = n" "dropWhile P (n @ c # rest) = c # rest"
  using assms by (induction n) auto

definition cut_ok :: "string \<Rightarrow> string \<Rightarrow> bool" where
  "cut_ok a b \<longleftrightarrow> \<not> (a \<noteq> [] \<and> b \<noteq> [] \<and> last a = CR \<and> hd b = LF)"

lemma next_break_append:
  assumes "next_break a = Some (l, r)" and "cut_ok a b"
  shows "next_break (a @ b) = Some (l, r @ b) \<and> cut_ok r b"
proof -
  let ?P = "\<lambda>c. \<not> is_break c"
  obtain c rest where d: "dropWhile ?P a = c # rest" and l: "l = takeWhile ?P a"
    and r: "r = (case rest of x # xs \<Rightarrow> if c = CR \<and> x = LF then xs else rest | [] \<Rightarrow> [])"
    using assms(1) by (auto simp: next_break_def split: list.splits)
  obtain n where a: "a = n @ c # rest" and n: "list_all ?P n" "\<not> ?P c" and "takeWhile ?P a = n"
    using dropWhile_at [OF d] by blast
  then have l: "l = n" using l by simp
  have cut: "cut_ok (c # rest) b" using assms(2) by (auto simp: a cut_ok_def)
  have tail: "(case rest @ b of x # xs \<Rightarrow> if c = CR \<and> x = LF then xs else rest @ b | [] \<Rightarrow> []) = r @ b"
    "cut_ok r b"
    using cut by (cases rest; cases b; auto simp: cut_ok_def r)+
  show ?thesis
    using tail takeWhile_at [of ?P n c "rest @ b", OF n] by (simp add: next_break_def a l)
qed

lemma split_text_append:
  "cut_ok a b \<Longrightarrow> split_text (a @ b) =
     (fst (split_text a) @ fst (split_text (snd (split_text a) @ b)), snd (split_text (snd (split_text a) @ b)))"
proof (induction a rule: split_text.induct)
  case (1 a)
  show ?case
  proof (cases "next_break a")
    case None
    then show ?thesis by (simp add: split_text.simps [of a])
  next
    case (Some lr)
    obtain l r where lr: "lr = (l, r)" by (cases lr)
    have ab: "next_break (a @ b) = Some (l, r @ b)" "cut_ok r b"
      using next_break_append [OF Some [unfolded lr] 1(2)] by auto
    from 1(1) [OF Some] lr ab(2) show ?thesis
      by (simp add: split_text.simps [of a] split_text.simps [of "a @ b"] Some ab(1) case_prod_beta)
  qed
qed

lemma split_text_tail: "list_all (\<lambda>c. \<not> is_break c) (snd (split_text s))"
proof (induction s rule: split_text.induct)
  case (1 s)
  show ?case
  proof (cases "next_break s")
    case None
    moreover have "list_all (\<lambda>c. \<not> is_break c) s" using None next_break_None by blast
    ultimately show ?thesis by (simp add: split_text.simps [of s])
  next
    case (Some lr)
    then show ?thesis using 1 [OF Some, of "fst lr" "snd lr"]
      by (simp add: split_text.simps [of s] case_prod_beta Let_def)
  qed
qed

lemma feed_lines_searched:
  assumes "list_all (\<lambda>c. \<not> is_break c) (take n buf)"
  shows "feed_lines decode ts n buf r = feed_lines decode ts 0 buf r"
  using next_break_prefix [OF assms, of "drop n buf"]
  by (cases "next_break (drop n buf)") (auto simp: feed_lines.simps [of _ _ n] feed_lines.simps [of _ _ 0])

fun consume_all ::
  "time option \<Rightarrow> string list \<Rightarrow> reconstructor \<Rightarrow> reconstructed list \<times> reconstructor" where
  "consume_all ts [] r = ([], r)"
| "consume_all ts (l # ls) r =
     (let (fs, r1) = consume ts l r; (gs, r2) = consume_all ts ls r1 in (fs @ gs, r2))"

lemma feed_lines_split:
  "feed_lines decode ts 0 buf r =
     (let (fs, r') = consume_all (Some ts) (map (clean_line decode) (fst (split_text buf))) r
      in (fs, snd (split_text buf), r'))"
proof (induction buf arbitrary: r rule: split_text.induct)
  case (1 buf)
  show ?case
  proof (cases "next_break buf")
    case None
    then show ?thesis by (simp add: feed_lines.simps [of _ _ 0] split_text.simps [of buf])
  next
    case (Some lr)
    obtain l rest where lr: "lr = (l, rest)" by (cases lr)
    show ?thesis using 1 [OF Some] lr
      by (simp add: feed_lines.simps [of _ _ 0 buf] split_text.simps [of buf] Some case_prod_beta Let_def)
  qed
qed

subsection \<open>Plain text\<close>

definition plain_text :: "string \<Rightarrow> bool" where
  "plain_text s \<longleftrightarrow> list_all (\<lambda>c. \<not> is_control c) s \<and> \<not> contains ''--'' s"

lemma contains_part: "contains w b \<Longrightarrow> contains w (a @ b @ c)"
  unfolding contains_spec by (metis append_assoc)

lemma plain_part: "plain_text (a @ b @ c) \<Longrightarrow> plain_text b"
  using contains_part by (auto simp: plain_text_def)

lemma strip_ansi_plain: "list_all (\<lambda>c. \<not> is_control c) s \<Longrightarrow> strip_ansi s = s"
  by (induction s) (auto simp: is_control_def)

lemma strip_more_plain: "\<not> contains ''--'' s \<Longrightarrow> strip_more s = s"
proof (induction s)
  case (Cons c cs)
  then have "\<not> starts_with (c # cs) ''--''" "\<not> contains ''--'' cs" by auto
  with Cons.IH show ?case by (simp add: more_match_def skip_word_def)
qed simp

lemma apply_backspaces_plain: "list_all (\<lambda>c. \<not> is_control c) s \<Longrightarrow> apply_backspaces s = s"
proof -
  assume s: "list_all (\<lambda>c. \<not> is_control c) s"
  have "fold (\<lambda>c out. if is_backspace c then butlast out else out @ [c]) s acc = acc @ s" for acc
    using s
  proof (induction s arbitrary: acc)
    case (Cons c cs)
    then have "\<not> is_backspace c" by (auto simp: is_backspace_def is_control_def)
    with Cons show ?case by simp
  qed simp
  then show ?thesis by (simp add: apply_backspaces_def)
qed

lemma clean_plain: "plain_text s \<Longrightarrow> clean_line (\<lambda>s. s) s = rstrip s"
  by (simp add: plain_text_def clean_line_def strip_ansi_plain strip_more_plain apply_backspaces_plain
      list_all_iff)

lemma rstrip_prefix: "\<exists>sp. s = rstrip s @ sp \<and> list_all is_space sp"
proof -
  have "rev s = takeWhile is_space (rev s) @ dropWhile is_space (rev s)" by simp
  then have "s = rstrip s @ rev (takeWhile is_space (rev s))"
    unfolding rstrip_def by (metis rev_append rev_rev_ident)
  moreover have "list_all is_space (rev (takeWhile is_space (rev s)))"
    by (auto simp: list_all_iff dest: set_takeWhileD)
  ultimately show ?thesis by blast
qed

lemma rstrip_append: "rstrip a \<noteq> [] \<Longrightarrow> \<exists>t. rstrip (a @ b) = rstrip a @ t"
proof -
  assume ne: "rstrip a \<noteq> []"
  have drop: "dropWhile is_space (rev b @ rev a) =
      (if list_all is_space b then dropWhile is_space (rev a) else dropWhile is_space (rev b) @ rev a)"
    by (induction b rule: rev_induct) (auto simp: list_all_iff)
  show ?thesis
  proof (cases "list_all is_space b")
    case True
    then show ?thesis by (simp add: rstrip_def drop)
  next
    case False
    then have "rstrip (a @ b) = a @ rstrip b" by (simp add: rstrip_def drop)
    with rstrip_prefix [of a] show ?thesis by (metis append_assoc)
  qed
qed

text \<open>A line that shows a prompt goes on showing it, whatever is appended.\<close>

lemma prompt_mark_append:
  assumes "prompt_mark name s \<noteq> None" shows "prompt_mark name' (s @ t) \<noteq> None"
proof -
  obtain c cs where s: "s = c # cs" using assms by (cases s) (auto simp: prompt_mark_def)
  show ?thesis
  proof (cases "is_space c")
    case True
    then show ?thesis using assms unfolding s by (cases cs) (auto simp: prompt_mark_def split: if_splits)
  next
    case False
    then show ?thesis using assms unfolding s by (auto simp: prompt_mark_def split: if_splits)
  qed
qed

lemma prompt_match_append:
  assumes "prompt_match s \<noteq> None" shows "prompt_match (s @ t) \<noteq> None"
proof -
  obtain c cs where d: "dropWhile is_name_char s = c # cs"
    using assms by (auto simp: prompt_match_def Let_def split: if_splits list.splits)
  obtain n where s: "s = n @ c # cs" and n: "list_all is_name_char n" "\<not> is_name_char c"
    using dropWhile_at [OF d] by blast
  note at_s = takeWhile_at [of is_name_char n c, OF n]
  have ne: "n \<noteq> []" using assms by (auto simp: prompt_match_def s at_s split: if_splits)
  show ?thesis
  proof (cases "c = CHR ''(''")
    case False
    then have "prompt_mark n (c # cs) \<noteq> None" using assms ne by (simp add: prompt_match_def s at_s)
    from prompt_mark_append [OF this, of n t] show ?thesis
      using False ne by (simp add: prompt_match_def s at_s)
  next
    case True
    let ?Q = "\<lambda>x. x \<noteq> CHR '')''"
    obtain p after where dp: "dropWhile ?Q cs = p # after"
      using assms ne unfolding prompt_match_def s at_s Let_def by (auto simp: True split: list.splits)
    obtain m where cs: "cs = m @ p # after" and m: "list_all ?Q m" "\<not> ?Q p"
      using dropWhile_at [OF dp] by blast
    note at_cs = takeWhile_at [of ?Q m p, OF m]
    have "prompt_mark (n @ c # m @ [p]) after \<noteq> None"
      using assms ne unfolding prompt_match_def s at_s Let_def by (simp add: True cs at_cs)
    from prompt_mark_append [OF this, of "n @ c # m @ [p]" t] show ?thesis
      using ne unfolding prompt_match_def append_assoc s append_Cons at_s Let_def cs
      by (simp add: True at_cs)
  qed
qed

definition prompty :: "string \<Rightarrow> bool" where
  "prompty s \<longleftrightarrow> clean_line (\<lambda>s. s) s \<noteq> [] \<and> prompt_match (clean_line (\<lambda>s. s) s) \<noteq> None"

lemma prompty_append: "plain_text (a @ b) \<Longrightarrow> prompty a \<Longrightarrow> prompty (a @ b)"
proof -
  assume pl: "plain_text (a @ b)" and p: "prompty a"
  have pa: "plain_text a" using plain_part [of "[]" a b] pl by simp
  obtain t where "rstrip (a @ b) = rstrip a @ t"
    using rstrip_append [of a b] p clean_plain [OF pa] by (auto simp: prompty_def)
  then show ?thesis
    using p clean_plain [OF pa] clean_plain [OF pl] prompt_match_append [of "rstrip a" t]
    by (auto simp: prompty_def)
qed

subsection \<open>The same commands, whatever the times\<close>

definition erase :: "reconstructed \<Rightarrow> reconstructed" where
  "erase c = c\<lparr>rc_ts := 0, rc_duration_ms := None\<rparr>"

definition core :: "reconstructor \<Rightarrow> reconstructor" where
  "core r = r\<lparr>rr_open := map_option erase (rr_open r), rr_buf := [], rr_last_ts := None\<rparr>"

definition same ::
  "reconstructed list \<times> reconstructor \<Rightarrow> reconstructed list \<times> reconstructor \<Rightarrow> bool" where
  "same x y \<longleftrightarrow> map erase (fst x) = map erase (fst y) \<and> core (snd x) = core (snd y)"

lemma core_eq:
  "core r = core r' \<longleftrightarrow> rr_seq r = rr_seq r' \<and> map_option erase (rr_open r) = map_option erase (rr_open r')
     \<and> rr_response r = rr_response r' \<and> rr_response_chars r = rr_response_chars r'"
  by (cases r; cases r') (auto simp: core_def)

lemma erase_eq:
  "erase c = erase c' \<longleftrightarrow> rc_seq c = rc_seq c' \<and> rc_prompt c = rc_prompt c' \<and> rc_command c = rc_command c'
     \<and> rc_response c = rc_response c'"
  by (cases c; cases c') (auto simp: erase_def)

lemma close_same: "core r = core r' \<Longrightarrow> same (close_open t r) (close_open t' r')"
  by (cases "rr_open r"; cases "rr_open r'") (auto simp: close_open_def same_def core_eq erase_eq)

lemma close_closed: "rr_open (snd (close_open t r)) = None"
  by (auto simp: close_open_def split: option.splits)

lemma close_twice: "same (close_open t (snd (close_open t' r))) ([], snd (close_open t' r))"
  using close_closed [of t' r] by (simp add: close_open_def [of t] same_def)

lemma consume_same: "core r = core r' \<Longrightarrow> same (consume (Some t) l r) (consume (Some t') l r')"
proof (cases "if l \<noteq> [] then prompt_match l else None")
  case None
  moreover assume "core r = core r'"
  moreover from this have "rr_open r = None \<longleftrightarrow> rr_open r' = None"
    by (metis core_eq option.map_disc_iff)
  ultimately show ?thesis by (auto simp: consume_def same_def core_eq)
next
  case (Some pr)
  obtain p rest where "pr = (p, rest)" by (cases pr)
  assume "core r = core r'"
  then have "same (close_open (Some t) r) (close_open (Some t') r')" by (rule close_same)
  then show ?thesis unfolding consume_def Some \<open>pr = (p, rest)\<close>
    by (auto simp: same_def core_eq erase_eq Let_def case_prod_beta)
qed

text \<open>A prompt line first closes what is open: it may have been closed before.\<close>

lemma consume_prompt_closed:
  assumes "l \<noteq> []" and "prompt_match l \<noteq> None"
  shows "same (consume (Some t) l r)
     (fst (close_open None r) @ fst (consume (Some t') l (snd (close_open None r))),
      snd (consume (Some t') l (snd (close_open None r))))"
proof -
  obtain p rest where p: "prompt_match l = Some (p, rest)" using assms(2) by auto
  have c: "same (close_open (Some t) r) (close_open None r)" by (rule close_same) simp
  have d: "close_open (Some t') (snd (close_open None r)) = ([], snd (close_open None r))"
    using close_closed [of None r] by (simp add: close_open_def [of "Some t'"])
  show ?thesis using c assms(1)
    by (auto simp: consume_def p d same_def core_eq erase_eq Let_def case_prod_beta)
qed

lemma consume_all_same:
  "core r = core r' \<Longrightarrow> same (consume_all (Some t) ls r) (consume_all (Some t') ls r')"
proof (induction ls arbitrary: r r')
  case (Cons l ls)
  have "same (consume (Some t) l r) (consume (Some t') l r')" using Cons.prems by (rule consume_same)
  moreover from this have "same (consume_all (Some t) ls (snd (consume (Some t) l r)))
      (consume_all (Some t') ls (snd (consume (Some t') l r')))"
    using Cons.IH by (simp add: same_def)
  ultimately show ?case by (simp add: same_def Let_def case_prod_beta)
qed (simp add: same_def)

lemma consume_all_append:
  "consume_all t (ks @ ls) r =
     (fst (consume_all t ks r) @ fst (consume_all t ls (snd (consume_all t ks r))),
      snd (consume_all t ls (snd (consume_all t ks r))))"
  by (induction ks arbitrary: r) (simp_all add: Let_def case_prod_beta)

subsection \<open>Fed in pieces and fed at once\<close>

abbreviation lines_of :: "string \<Rightarrow> string list" where "lines_of p \<equiv> fst (split_text p)"
abbreviation tail_of :: "string \<Rightarrow> string" where "tail_of p \<equiv> snd (split_text p)"

definition whole_run :: "string \<Rightarrow> reconstructed list \<times> reconstructor" where
  "whole_run p = consume_all (Some 0) (map (clean_line (\<lambda>s. s)) (lines_of p)) reconstructor_init"

definition closed_run :: "string \<Rightarrow> reconstructed list \<times> reconstructor" where
  "closed_run p = (fst (whole_run p) @ fst (close_open None (snd (whole_run p))),
     snd (close_open None (snd (whole_run p))))"

text \<open>After the text \<open>p\<close> the parser has what the whole run has, or it has closed the open command
  already, because the unfinished line shows a prompt.\<close>

definition agrees :: "string \<Rightarrow> reconstructed list \<times> reconstructor \<Rightarrow> bool" where
  "agrees p x \<longleftrightarrow> same x (whole_run p) \<or> prompty (tail_of p) \<and> same x (closed_run p)"

lemma same_trans: "same x y \<Longrightarrow> same y z \<Longrightarrow> same x z"
  by (simp add: same_def)

lemma agrees_cong: "agrees p (fs, r) \<Longrightarrow> core r' = core r \<Longrightarrow> agrees p (fs, r')"
  by (simp add: agrees_def same_def)

lemma agrees_close:
  assumes "agrees p (fs, r)" and "prompty (tail_of p)"
  shows "agrees p (fs @ fst (close_open t r), snd (close_open t r))"
proof -
  have "same (fs @ fst (close_open t r), snd (close_open t r)) (closed_run p)"
  proof (cases "same (fs, r) (whole_run p)")
    case True
    then have "same (close_open t r) (close_open None (snd (whole_run p)))"
      by (intro close_same) (simp add: same_def)
    with True show ?thesis by (simp add: same_def closed_run_def)
  next
    case False
    then have c: "same (fs, r) (closed_run p)" using assms(1) by (simp add: agrees_def)
    then have "same (close_open t r) (close_open None (snd (closed_run p)))"
      by (intro close_same) (simp add: same_def)
    with close_twice [of None None "snd (whole_run p)"] c show ?thesis
      by (simp add: same_def closed_run_def)
  qed
  with assms(2) show ?thesis by (simp add: agrees_def)
qed

lemma split_text_grow:
  assumes "list_all (\<lambda>c. \<not> is_break c) p"
  shows "(lines_of (p @ c) = [] \<and> tail_of (p @ c) = p @ c) \<or>
    (\<exists>x ls. lines_of (p @ c) = (p @ x) # ls)"
  using next_break_prefix [OF assms, of c]
  by (cases "next_break c") (auto simp: split_text.simps [of "p @ c"] Let_def case_prod_beta)

lemma split_text_plain: "plain_text s \<Longrightarrow> list_all plain_text (lines_of s) \<and> plain_text (tail_of s)"
proof (induction s rule: split_text.induct)
  case (1 s)
  show ?case
  proof (cases "next_break s")
    case None
    then show ?thesis using 1(2) by (simp add: split_text.simps [of s])
  next
    case (Some lr)
    obtain l rest where lr: "lr = (l, rest)" by (cases lr)
    obtain b mid where "s = l @ b # mid @ rest" "next_break s = Some (l, rest)"
    proof -
      from Some lr obtain b after where d: "dropWhile (\<lambda>c. \<not> is_break c) s = b # after"
        and l: "l = takeWhile (\<lambda>c. \<not> is_break c) s"
        and r: "rest = (case after of x # xs \<Rightarrow> if b = CR \<and> x = LF then xs else after | [] \<Rightarrow> [])"
        by (auto simp: next_break_def split: list.splits)
      have "s = l @ b # after" using d l by (metis takeWhile_dropWhile_id)
      moreover have "after = [] @ rest \<or> after = [LF] @ rest" using r by (cases after) auto
      ultimately show thesis using that Some lr by (metis append_Cons)
    qed
    then have "plain_text l" "plain_text rest"
      using plain_part [of "[]" l "b # mid @ rest"] plain_part [of "l @ b # mid" rest "[]"] 1(2) by simp_all
    with 1(1) [OF Some lr [symmetric]] show ?thesis
      by (simp add: split_text.simps [of s] Some lr Let_def case_prod_beta)
  qed
qed

lemma agrees_lines:
  assumes a: "agrees p (fs, r)" and cut: "cut_ok p c" and pl: "plain_text (p @ c)"
    and run: "consume_all (Some t) (map (clean_line (\<lambda>s. s)) (lines_of (tail_of p @ c))) r = (gs, r')"
  shows "agrees (p @ c) (fs @ gs, r')"
proof -
  let ?cl = "map (clean_line (\<lambda>s. s))"
  have sp: "split_text (p @ c) = (lines_of p @ lines_of (tail_of p @ c), tail_of (tail_of p @ c))"
    using split_text_append [OF cut] .
  have whole: "whole_run (p @ c) =
      (fst (whole_run p) @ fst (consume_all (Some 0) (?cl (lines_of (tail_of p @ c))) (snd (whole_run p))),
       snd (consume_all (Some 0) (?cl (lines_of (tail_of p @ c))) (snd (whole_run p))))"
    by (simp add: whole_run_def sp consume_all_append)
  consider (none) "lines_of (tail_of p @ c) = []" "tail_of (tail_of p @ c) = tail_of p @ c"
    | (some) x ls where "lines_of (tail_of p @ c) = (tail_of p @ x) # ls"
    using split_text_grow [OF split_text_tail [of p], of c] by auto
  then show ?thesis
  proof cases
    case none
    then have "whole_run (p @ c) = whole_run p" "gs = []" "r' = r" using whole run by simp_all
    moreover have "plain_text (tail_of p @ c)" using split_text_plain [OF pl] none by (simp add: sp)
    ultimately show ?thesis using a prompty_append [of "tail_of p" c] none
      by (auto simp: agrees_def sp closed_run_def)
  next
    case some
    show ?thesis
    proof (cases "same (fs, r) (whole_run p)")
      case True
      then have "same (gs, r') (consume_all (Some 0) (?cl (lines_of (tail_of p @ c))) (snd (whole_run p)))"
        using consume_all_same [of r "snd (whole_run p)" t _ 0] run by (metis same_def snd_conv)
      with True show ?thesis by (simp add: agrees_def same_def whole)
    next
      case False
      then have early: "prompty (tail_of p)" "same (fs, r) (closed_run p)" using a by (simp_all add: agrees_def)
      let ?l = "clean_line (\<lambda>s. s) (tail_of p @ x)"
      have "plain_text (tail_of p @ x)" using split_text_plain [OF pl] some by (simp add: sp)
      then have "prompty (tail_of p @ x)" using early(1) by (rule prompty_append)
      then have l: "?l \<noteq> []" "prompt_match ?l \<noteq> None" by (simp_all add: prompty_def)
      let ?R = "snd (whole_run p)"
      have 1: "same (consume (Some 0) ?l ?R) (fst (close_open None ?R) @
          fst (consume (Some t) ?l (snd (close_open None ?R))), snd (consume (Some t) ?l (snd (close_open None ?R))))"
        using consume_prompt_closed [OF l] .
      have 2: "same (consume (Some t) ?l r) (consume (Some t) ?l (snd (close_open None ?R)))"
        using early(2) by (intro consume_same) (simp add: same_def closed_run_def)
      have "core (snd (consume (Some t) ?l r)) = core (snd (consume (Some 0) ?l ?R))"
        using 1 2 by (simp add: same_def)
      from consume_all_same [OF this, of t "?cl ls" 0] 1 2 early(2) run show ?thesis
        by (auto simp: agrees_def same_def whole some closed_run_def Let_def case_prod_beta)
    qed
  qed
qed

subsection \<open>Whole streams\<close>

definition outs :: "(string \<times> string \<times> time) list \<Rightarrow> string list" where
  "outs frames = map (\<lambda>(_, payload, _). payload) (filter (\<lambda>(d, _, _). d = ''out'') frames)"

text \<open>No frame begins with the line feed of a carriage return before it, and the unfinished line
  stays within the buffer.\<close>

fun well_fed :: "string \<Rightarrow> string list \<Rightarrow> bool" where
  "well_fed p [] \<longleftrightarrow> True"
| "well_fed p (c # cs) \<longleftrightarrow>
     cut_ok p c \<and> length (tail_of (p @ c)) \<le> MAX_BUFFER_BYTES \<and> well_fed (p @ c) cs"

definition last_line :: "string \<Rightarrow> reconstructor \<Rightarrow> reconstructed list \<times> reconstructor" where
  "last_line p r = (if tail_of p \<noteq> [] then consume (Some 0) (clean_line (\<lambda>s. s) (tail_of p)) r else ([], r))"

definition whole_result :: "string \<Rightarrow> reconstructed list" where
  "whole_result p = fst (whole_run p) @ fst (last_line p (snd (whole_run p)))
     @ fst (close_open None (snd (last_line p (snd (whole_run p)))))"

lemma flush_agrees:
  assumes a: "agrees p (es, r)" and buf: "rr_buf r = tail_of p" and ts: "rr_last_ts r \<noteq> None \<or> p = []"
  shows "map erase (es @ fst (flush (\<lambda>s. s) r)) = map erase (whole_result p)"
proof (cases "tail_of p = []")
  case True
  then have "\<not> prompty (tail_of p)"
    by (simp add: prompty_def clean_plain plain_text_def rstrip_def contains.simps)
  then have s: "same (es, r) (whole_run p)" using a by (simp add: agrees_def)
  then have "same (close_open (rr_last_ts r) r) (close_open None (snd (whole_run p)))"
    by (intro close_same) (simp add: same_def)
  with s show ?thesis using True buf
    by (simp add: flush_def whole_result_def last_line_def same_def case_prod_beta)
next
  case False
  then have "p \<noteq> []" by (auto simp: split_text.simps [of "[]"] next_break_def)
  then obtain t where t: "rr_last_ts r = Some t" using ts by auto
  let ?l = "clean_line (\<lambda>s. s) (tail_of p)" and ?R = "snd (whole_run p)"
  have "map erase (es @ fst (consume (Some t) ?l r)) = map erase (fst (whole_run p) @ fst (consume (Some 0) ?l ?R))
      \<and> core (snd (consume (Some t) ?l r)) = core (snd (consume (Some 0) ?l ?R))"
  proof (cases "same (es, r) (whole_run p)")
    case True
    then show ?thesis using consume_same [of r ?R t ?l 0] by (simp add: same_def)
  next
    case False
    then have e: "prompty (tail_of p)" "same (es, r) (closed_run p)" using a by (simp_all add: agrees_def)
    then have "same (consume (Some 0) ?l ?R) (fst (close_open None ?R) @
          fst (consume (Some t) ?l (snd (close_open None ?R))), snd (consume (Some t) ?l (snd (close_open None ?R))))"
      using consume_prompt_closed [of ?l] by (simp add: prompty_def)
    moreover have "same (consume (Some t) ?l r) (consume (Some t) ?l (snd (close_open None ?R)))"
      using e(2) by (intro consume_same) (simp add: same_def closed_run_def)
    ultimately show ?thesis using e(2) by (simp add: same_def closed_run_def)
  qed
  moreover from this have "same (close_open u (snd (consume (Some t) ?l r)\<lparr>rr_buf := []\<rparr>))
      (close_open None (snd (consume (Some 0) ?l ?R)))" for u
    by (intro close_same) (simp add: core_eq)
  ultimately show ?thesis using False buf t
    by (simp add: flush_def whole_result_def last_line_def same_def case_prod_beta Let_def)
qed

lemma feed_agrees:
  assumes a: "agrees p (es, r)" and buf: "rr_buf r = tail_of p" and cut: "cut_ok p c"
    and short: "length (tail_of (p @ c)) \<le> MAX_BUFFER_BYTES" and pl: "plain_text (p @ c)"
    and fd: "feed (\<lambda>s. s) c ts r = (fs, r')"
  shows "agrees (p @ c) (es @ fs, r') \<and> rr_buf r' = tail_of (p @ c)"
proof -
  let ?r0 = "r\<lparr>rr_last_ts := Some ts\<rparr>"
  obtain gs r1 where run: "consume_all (Some ts) (map (clean_line (\<lambda>s. s)) (lines_of (tail_of p @ c))) ?r0 = (gs, r1)"
    by fastforce
  have "agrees p (es, ?r0)" using a by (rule agrees_cong) (simp add: core_eq)
  from agrees_lines [OF this cut pl run] have a1: "agrees (p @ c) (es @ gs, r1)" .
  have tail: "tail_of (p @ c) = tail_of (tail_of p @ c)" by (simp add: split_text_append [OF cut])
  have lines: "feed_lines (\<lambda>s. s) ts (length (tail_of p)) (tail_of p @ c) ?r0 = (gs, tail_of (p @ c), r1)"
    using feed_lines_searched [of "length (tail_of p)" "tail_of p @ c" "\<lambda>s. s" ts ?r0] split_text_tail [of p] run
    by (simp add: feed_lines_split tail)
  let ?r2 = "r1\<lparr>rr_buf := tail_of (p @ c)\<rparr>"
  have a2: "agrees (p @ c) (es @ gs, ?r2)" using a1 by (rule agrees_cong) (simp add: core_eq)
  have fd': "(fs, r') =
     (if length (tail_of (p @ c)) \<le> MAX_PROMPT_TAIL_BYTES \<and> prompty (tail_of (p @ c))
      then (gs @ fst (close_open (Some ts) ?r2), snd (close_open (Some ts) ?r2)) else (gs, ?r2))"
    using fd short by (simp add: feed_def buf lines prompty_def case_prod_beta Let_def cong: if_cong)
  have keep: "rr_buf (snd (close_open t x)) = rr_buf x" for t x
    by (simp add: close_open_def split: option.split)
  show ?thesis
    using fd' a2 agrees_close [OF a2, of "Some ts"] keep [of "Some ts" ?r2] by (auto split: if_splits)
qed

lemma feed_last_ts: "rr_last_ts (snd (feed decode c ts r)) = Some ts"
proof -
  have close: "rr_last_ts (snd (close_open t x)) = rr_last_ts x" for t x
    by (simp add: close_open_def split: option.split)
  have cons: "rr_last_ts (snd (consume t l x)) = rr_last_ts x" for t l x
    using close [of t x]
    by (auto simp: consume_def case_prod_beta Let_def split: option.split)
  have "rr_last_ts (snd (consume_all t ls x)) = rr_last_ts x" for t ls x
    by (induction ls arbitrary: x) (simp_all add: cons case_prod_beta Let_def)
  then have lines: "rr_last_ts (snd (snd (feed_lines decode ts n b x))) = rr_last_ts x" if "n = 0" for n b x
    using that by (simp add: feed_lines_split case_prod_beta Let_def)
  have "rr_last_ts (snd (snd (feed_lines decode ts n b x))) = rr_last_ts x" for n b x
    by (cases "next_break (drop n b)")
      (simp_all add: feed_lines.simps [of _ _ n] lines cons case_prod_beta Let_def)
  then show ?thesis by (simp add: feed_def close case_prod_beta Let_def)
qed

lemma stream_agrees:
  assumes "agrees p (es, r)" and "rr_buf r = tail_of p" and "rr_last_ts r \<noteq> None \<or> p = []"
    and "plain_text (p @ concat (outs frames))" and "well_fed p (outs frames)"
  shows "map erase (es @ reconstruct_from (\<lambda>s. s) frames r) = map erase (whole_result (p @ concat (outs frames)))"
  using assms
proof (induction frames arbitrary: p es r)
  case Nil
  then show ?case using flush_agrees [of p es r] by (simp add: outs_def)
next
  case (Cons f frames)
  obtain d c ts where f: "f = (d, c, ts)" by (cases f)
  show ?case
  proof (cases "d = ''out''")
    case False
    then have "outs (f # frames) = outs frames" by (simp add: outs_def f)
    with False Cons.IH [OF Cons.prems(1-3)] Cons.prems(4,5) show ?thesis by (simp add: f)
  next
    case True
    then have f: "f = (''out'', c, ts)" by (simp add: f)
    then have o: "outs ((''out'', c, ts) # frames) = c # outs frames" by (simp add: outs_def)
    obtain fs r' where fd: "feed (\<lambda>s. s) c ts r = (fs, r')" by fastforce
    have pl: "plain_text (p @ c)" using plain_part [of "[]" "p @ c"] Cons.prems(4) by (simp add: f o)
    have "agrees (p @ c) (es @ fs, r') \<and> rr_buf r' = tail_of (p @ c)"
      using feed_agrees [OF Cons.prems(1,2) _ _ pl fd] Cons.prems(5) by (simp add: f o)
    moreover have "rr_last_ts r' = Some ts" using feed_last_ts [of "\<lambda>s. s" c ts r] by (simp add: fd)
    ultimately show ?thesis
      using Cons.IH [of "p @ c" "es @ fs" r'] Cons.prems(4,5) by (simp add: f o fd)
  qed
qed

lemma reconstruct_whole:
  assumes "plain_text (concat (outs frames))" and "well_fed [] (outs frames)"
  shows "map erase (reconstruct (\<lambda>s. s) frames) = map erase (whole_result (concat (outs frames)))"
proof -
  have "agrees [] ([], reconstructor_init)"
    by (simp add: agrees_def whole_run_def same_def split_text.simps [of "[]"] next_break_def)
  moreover have "rr_buf reconstructor_init = tail_of []"
    by (simp add: reconstructor_init_def split_text.simps [of "[]"] next_break_def)
  ultimately show ?thesis
    using stream_agrees [of "[]" "[]" reconstructor_init frames] assms by (simp add: reconstruct_def)
qed

end
