(* ===== verification/Chat_Context.thy ===== *)
theory Chat_Context
  imports Orchestrator Check_Handlers Collector
begin

text \<open>
  What the chat tutor knows and can do (\<open>chat/service.py\<close>, \<open>chat/tools.py\<close>, \<open>chat/prompt.py\<close>,
  \<open>labs/spec.py\<close>): the choice of the model, the two context sections of the prompt, and the tools.
  The MCP client, the consoles, JSON and Python's \<open>str\<close> are in \<open>chat_env\<close>; a call site tells the
  calls of one request apart, so that the environment may change between them.
\<close>

record component =
  cp_id :: string
  cp_name :: string
  cp_type :: string
  cp_status :: string
  cp_summary :: string

record component_detail = component +
  cp_properties :: dict
  cp_configuration :: "string option"
  cp_relationships :: "string list"

datatype site = Preload | PreloadIp string | ToolSite nat nat

record chat_env =
  ch_mcp :: bool
  ch_components :: "site \<Rightarrow> string + component list"
  ch_component :: "site \<Rightarrow> json \<Rightarrow> string + component_detail"
  ch_errors :: "site \<Rightarrow> string + error_entry list"
  ch_connect :: "string \<Rightarrow> json \<Rightarrow> string + device"
  ch_decode :: "string \<Rightarrow> string"
  ch_hostname :: "string option"
  ch_msg :: catalogue
  ch_dumps :: "json \<Rightarrow> string"
  ch_loads :: "string \<Rightarrow> json option"
  ch_str :: "json \<Rightarrow> string"
  ch_str_time :: "time \<Rightarrow> string"
  ch_index_error :: "json \<Rightarrow> string \<Rightarrow> string"

text \<open>Calling a client that is not there raises.\<close>

definition no_client :: "string \<Rightarrow> string" where
  "no_client attr = [CHR 0x27] @ ''NoneType'' @ [CHR 0x27] @ '' object has no attribute '' @
     [CHR 0x27] @ attr @ [CHR 0x27]"

definition list_components :: "chat_env \<Rightarrow> site \<Rightarrow> string + component list" where
  "list_components env s = (if ch_mcp env then ch_components env s else Inl (no_client ''list_components''))"

definition get_component :: "chat_env \<Rightarrow> site \<Rightarrow> json \<Rightarrow> string + component_detail" where
  "get_component env s i = (if ch_mcp env then ch_component env s i else Inl (no_client ''get_component''))"

definition list_errors :: "chat_env \<Rightarrow> site \<Rightarrow> string + error_entry list" where
  "list_errors env s = (if ch_mcp env then ch_errors env s else Inl (no_client ''list_errors''))"

subsection \<open>Models\<close>

definition catalogued :: "agents_config \<Rightarrow> string option \<Rightarrow> bool" where
  "catalogued cfg m \<longleftrightarrow> truthy m \<and> get_entry cfg (the m) \<noteq> None"

definition resolve_chat_model ::
  "agents_config \<Rightarrow> string option \<Rightarrow> string option \<Rightarrow> bool \<Rightarrow> string option \<Rightarrow> string" where
  "resolve_chat_model cfg requested session_model can_select user_default =
     (if can_select \<and> catalogued cfg requested then the requested
      else if can_select \<and> catalogued cfg user_default then the user_default
      else if catalogued cfg session_model then the session_model
      else ag_chat_model cfg)"

record models_response =
  mr_can_select :: bool
  mr_default_model_id :: string
  mr_models :: "(string \<times> string) list"

definition build_models_response :: "agents_config \<Rightarrow> bool \<Rightarrow> string option \<Rightarrow> models_response" where
  "build_models_response cfg can_select user_default =
     \<lparr>mr_can_select = can_select,
      mr_default_model_id =
        (if can_select \<and> catalogued cfg user_default then the user_default else ag_chat_model cfg),
      mr_models =
        (if \<not> can_select then [] else map (\<lambda>m. (me_id m, me_label m)) (filter me_tools (ag_catalog cfg)))\<rparr>"

subsection \<open>\<open>show ip\<close> for the tutor\<close>

definition tool_error :: "chat_env \<Rightarrow> string \<Rightarrow> string \<Rightarrow> dict \<Rightarrow> string" where
  "tool_error env locale key params = ch_msg env (''prompt.tool_error.'' @ key) locale params"

text \<open>The telnet session: wake the console, discard what it prints, ask and read up to a prompt.\<close>

definition console_show_ip :: "device \<Rightarrow> string + string" where
  "console_show_ip dev =
     (case reading (drain_prompt (5 / 10) []) (sleep (3 / 10) (send crlf (opened dev))) of
        Inl e \<Rightarrow> Inl e
      | Inr (_, c) \<Rightarrow> map_sum id fst (reading (drain_prompt 3 []) (send (''show ip'' @ crlf) c)))"

definition console_address :: "chat_env \<Rightarrow> dict \<Rightarrow> string + string" where
  "console_address env props =
     (case map_of props ''console_host'' of
        Some (JStr h) \<Rightarrow>
          if h \<noteq> [] \<and> h \<notin> {''0.0.0.0'', ''::''} then Inr h
          else if truthy (ch_hostname env) then Inr (the (ch_hostname env))
          else Inl ''environment_url has no host''
      | _ \<Rightarrow>
          if truthy (ch_hostname env) then Inr (the (ch_hostname env))
          else Inl ''environment_url has no host'')"

definition run_vpcs_show_ip :: "chat_env \<Rightarrow> string \<Rightarrow> site \<Rightarrow> json \<Rightarrow> string + dict" where
  "run_vpcs_show_ip env locale s node_name =
     (case list_components env s of
        Inl e \<Rightarrow> Inl e
      | Inr cs \<Rightarrow>
          (case List.find (\<lambda>c. JStr (cp_name c) = node_name \<and> cp_type c = ''vpcs'') cs of
             None \<Rightarrow> Inr [(''error'', JStr (tool_error env locale ''vpcs_not_found'' [(''node'', node_name)]))]
           | Some node \<Rightarrow>
               if cp_status node \<noteq> ''started''
               then Inr [(''error'', JStr (tool_error env locale ''node_not_started''
                      [(''node'', node_name), (''status'', JStr (cp_status node))])),
                    (''status'', JStr (cp_status node))]
               else case get_component env s (JStr (cp_id node)) of
                 Inl e \<Rightarrow> Inl e
               | Inr detail \<Rightarrow>
                   if \<not> is_true (map_of (cp_properties detail) ''console'')
                   then Inr [(''error'', JStr (tool_error env locale ''no_console_port'' [(''node'', node_name)]))]
                   else case console_address env (cp_properties detail) of
                     Inl e \<Rightarrow> Inl e
                   | Inr host \<Rightarrow>
                       (case ch_connect env host (the (map_of (cp_properties detail) ''console'')) of
                          Inl exc \<Rightarrow> Inr [(''error'', JStr (tool_error env locale ''console_unreachable''
                            [(''error'', JStr exc)]))]
                        | Inr dev \<Rightarrow>
                            map_sum id (\<lambda>raw. [(''node'', node_name),
                                (''ip'', JStr (si_ip (parse_show_ip (ch_decode env raw)))),
                                (''gateway'', JStr (si_gateway (parse_show_ip (ch_decode env raw))))])
                              (console_show_ip dev))))"

subsection \<open>Tools\<close>

definition ALLOWED_TOOLS :: "string list" where
  "ALLOWED_TOOLS = [''list_components'', ''get_component'', ''get_vpcs_ip'', ''list_errors'']"

text \<open>\<open>model_dump\<close> of what the MCP server answers.\<close>

definition opt_str :: "string option \<Rightarrow> json" where
  "opt_str v = (case v of None \<Rightarrow> JNull | Some s \<Rightarrow> JStr s)"

definition dump_component :: "component \<Rightarrow> json" where
  "dump_component c = JObj [(''id'', JStr (cp_id c)), (''name'', JStr (cp_name c)),
     (''type'', JStr (cp_type c)), (''status'', JStr (cp_status c)), (''summary'', JStr (cp_summary c))]"

definition dump_detail :: "component_detail \<Rightarrow> json" where
  "dump_detail c = JObj [(''id'', JStr (cp_id c)), (''name'', JStr (cp_name c)),
     (''type'', JStr (cp_type c)), (''status'', JStr (cp_status c)), (''summary'', JStr (cp_summary c)),
     (''properties'', JObj (cp_properties c)), (''configuration'', opt_str (cp_configuration c)),
     (''relationships'', JList (map JStr (cp_relationships c)))]"

definition dump_error :: "chat_env \<Rightarrow> error_entry \<Rightarrow> json" where
  "dump_error env e = JObj [(''timestamp'', JStr (ch_str_time env (ee_timestamp e))),
     (''level'', JStr (level_value (ee_level e))), (''component_id'', opt_str (ee_component_id e)),
     (''message'', JStr (ee_message e)), (''details'', opt_str (ee_details e))]"

text \<open>\<open>args[key]\<close>, which raises for a missing key and for arguments that are no object.\<close>

definition argument :: "chat_env \<Rightarrow> json \<Rightarrow> string \<Rightarrow> string + json" where
  "argument env args key =
     (case args of
        JObj d \<Rightarrow> (case map_of d key of Some v \<Rightarrow> Inr v | None \<Rightarrow> Inl (ch_index_error env args key))
      | _ \<Rightarrow> Inl (ch_index_error env args key))"

definition tool_data :: "chat_env \<Rightarrow> string \<Rightarrow> site \<Rightarrow> string \<Rightarrow> json \<Rightarrow> string + json" where
  "tool_data env locale s name args =
     (if name = ''list_components'' then map_sum id (\<lambda>cs. JList (map dump_component cs)) (list_components env s)
      else if name = ''get_component''
      then (case argument env args ''component_id'' of
              Inl e \<Rightarrow> Inl e | Inr i \<Rightarrow> map_sum id dump_detail (get_component env s i))
      else if name = ''get_vpcs_ip''
      then (case argument env args ''node_name'' of
              Inl e \<Rightarrow> Inl e | Inr n \<Rightarrow> map_sum id JObj (run_vpcs_show_ip env locale s n))
      else map_sum id (\<lambda>es. JList (map (dump_error env) es)) (list_errors env s))"

definition execute_tool :: "chat_env \<Rightarrow> string \<Rightarrow> site \<Rightarrow> string \<Rightarrow> json \<Rightarrow> string" where
  "execute_tool env locale s name args =
     (if name \<notin> set ALLOWED_TOOLS then tool_error env locale ''not_allowed'' [(''name'', JStr name)]
      else case tool_data env locale s name args of
        Inl exc \<Rightarrow> tool_error env locale ''failed'' [(''name'', JStr name), (''error'', JStr exc)]
      | Inr data \<Rightarrow> ch_dumps env data)"

subsection \<open>The state of the environment in the prompt\<close>

definition lines :: "string list \<Rightarrow> string" where
  "lines ls = join [CHR 0x0A] ls"

definition expected_vpcs_config :: "spec_step list \<Rightarrow> (string \<times> json option \<times> json option) list" where
  "expected_vpcs_config steps =
     rev (List.map_filter (\<lambda>check.
       if map_of check ''kind'' = Some (JStr ''vpcs.show_ip'')
       then (case map_of check ''node'' of
               Some (JStr n) \<Rightarrow>
                 if n \<noteq> [] then Some (n, map_of (dict_obj ''expect'' check) ''ip'',
                   map_of (dict_obj ''expect'' check) ''gateway'') else None
             | _ \<Rightarrow> None)
       else None) (concat (map sp_checks steps)))"

definition component_line :: "component \<Rightarrow> string" where
  "component_line c = ''  - '' @ cp_name c @ '' ('' @ cp_type c @ ''): '' @ cp_status c @ em_dash @ cp_summary c"

definition vpcs_line ::
  "chat_env \<Rightarrow> string \<Rightarrow> (string \<times> json option \<times> json option) list \<Rightarrow> component \<Rightarrow> string option" where
  "vpcs_line env locale expected c =
     (case run_vpcs_show_ip env locale (PreloadIp (cp_name c)) (JStr (cp_name c)) of
        Inl _ \<Rightarrow> None
      | Inr res \<Rightarrow>
          if map_of res ''error'' \<noteq> None then None
          else let ip = dict_str ''ip'' res; gw = dict_str ''gateway'' res in
            Some (''  - '' @ cp_name c @ '': IP='' @
              (if ip \<noteq> [] then ip else ch_msg env ''prompt.env.ip_unset'' locale []) @
              (if gw \<noteq> [] \<and> gw \<noteq> ''0.0.0.0'' then '', gateway='' @ gw else []) @
              (case map_of expected (cp_name c) of
                 Some (Some want, _) \<Rightarrow>
                   if \<not> is_true (Some want) then []
                   else if want = JStr ip then ch_msg env ''prompt.env.verdict_ok'' locale []
                   else ch_msg env ''prompt.env.verdict_bad'' locale [(''expected'', want)]
               | _ \<Rightarrow> [])))"

definition components_part ::
  "chat_env \<Rightarrow> string \<Rightarrow> (string \<times> json option \<times> json option) list \<Rightarrow> string + component list \<Rightarrow> string list"
  where
  "components_part env locale expected components =
     (case components of
        Inl _ \<Rightarrow> [ch_msg env ''prompt.env.components_unavailable'' locale []]
      | Inr [] \<Rightarrow> [ch_msg env ''prompt.env.components_empty'' locale []]
      | Inr cs \<Rightarrow>
          (let vpcs = List.map_filter (vpcs_line env locale expected)
                 (filter (\<lambda>c. cp_type c = ''vpcs'' \<and> cp_status c = ''started'') cs)
           in [ch_msg env ''prompt.env.components'' locale [] @ [CHR 0x0A] @ lines (map component_line cs)] @
              (if vpcs \<noteq> []
               then [ch_msg env ''prompt.env.vpcs_current'' locale [] @ [CHR 0x0A] @ lines vpcs] else [])))"

definition error_line :: "error_entry \<Rightarrow> string" where
  "error_line e = ''  - ['' @ level_value (ee_level e) @ ''] '' @
     (if truthy (ee_component_id e) then the (ee_component_id e) else ''?'') @ '': '' @ ee_message e"

definition errors_part :: "chat_env \<Rightarrow> string \<Rightarrow> string + error_entry list \<Rightarrow> string" where
  "errors_part env locale errors =
     (case errors of
        Inl _ \<Rightarrow> ch_msg env ''prompt.env.errors_unavailable'' locale []
      | Inr [] \<Rightarrow> ch_msg env ''prompt.env.no_errors'' locale []
      | Inr es \<Rightarrow> ch_msg env ''prompt.env.recent_errors'' locale [] @ [CHR 0x0A] @ lines (map error_line (take 5 es)))"

definition fetch_mcp_context ::
  "chat_env \<Rightarrow> string \<Rightarrow> (string \<times> json option \<times> json option) list \<Rightarrow> string option \<times> nat \<times> nat" where
  "fetch_mcp_context env locale expected =
     (if \<not> ch_mcp env then (None, 0, 0)
      else let components = list_components env Preload; errors = list_errors env Preload in
        (Some (join [CHR 0x0A, CHR 0x0A]
           (components_part env locale expected components @ [errors_part env locale errors])),
         case components of Inl _ \<Rightarrow> 0 | Inr cs \<Rightarrow> length cs,
         case errors of Inl _ \<Rightarrow> 0 | Inr es \<Rightarrow> min 5 (length es)))"

subsection \<open>The task in the prompt\<close>

definition get_or :: "string \<Rightarrow> string \<Rightarrow> dict \<Rightarrow> json" where
  "get_or k d dict = (case map_of dict k of Some v \<Rightarrow> v | None \<Rightarrow> JStr d)"

definition check_line :: "catalogue \<Rightarrow> string \<Rightarrow> dict \<Rightarrow> string option" where
  "check_line msg locale check =
     (let kind = get_or ''kind'' [] check; expect = dict_obj ''expect'' check; gw = map_of expect ''gateway''
      in if kind = JStr ''vpcs.show_ip''
         then Some (msg ''prompt.lab.check_show_ip'' locale
             [(''node'', get_or ''node'' ''?'' check), (''ip'', get_or ''ip'' ''?'' expect)] @
           (if is_true gw \<and> gw \<noteq> Some (JStr ''0.0.0.0'')
            then msg ''prompt.lab.check_gateway'' locale [(''gateway'', the gw)] else []))
         else if kind = JStr ''vpcs.ping''
         then Some (msg ''prompt.lab.check_ping'' locale
           [(''source'', get_or ''from'' ''?'' check), (''target'', get_or ''to'' ''?'' check)])
         else if kind = JStr ''vpcs.ip_in_subnet''
         then Some (msg ''prompt.lab.check_subnet'' locale
           [(''node'', get_or ''node'' ''?'' check), (''subnet'', get_or ''subnet'' ''?'' expect)])
         else None)"

definition step_lines :: "catalogue \<Rightarrow> string \<Rightarrow> spec_step \<Rightarrow> string list" where
  "step_lines msg locale s =
     msg ''prompt.lab.step'' locale [(''title'', JStr (resolve_localized
        (case sp_title s of None \<Rightarrow> Some (JStr (sp_id s)) | Some title \<Rightarrow> Some title) locale))] #
     List.map_filter (check_line msg locale) (sp_checks s)"

text \<open>The lab row is its title and its description; without a row there is no context.\<close>

definition fetch_lab_context ::
  "catalogue \<Rightarrow> (json option \<times> json option) option \<Rightarrow> spec_step list option \<Rightarrow> string \<Rightarrow> string option" where
  "fetch_lab_context msg lab spec locale =
     (case lab of
        None \<Rightarrow> None
      | Some (title, description) \<Rightarrow>
          Some (lines ([msg ''prompt.lab.title'' locale [(''title'', JStr (resolve_localized title locale))]] @
            (if resolve_localized description locale \<noteq> []
             then [msg ''prompt.lab.goal'' locale [(''goal'', JStr (resolve_localized description locale))]] else []) @
            (case spec of
               Some (s # ss) \<Rightarrow>
                 [msg ''prompt.lab.steps_header'' locale [] @ [CHR 0x0A] @
                    lines (concat (map (step_lines msg locale) (s # ss)))]
             | _ \<Rightarrow> []))))"

definition TASK_MARKER :: string where "TASK_MARKER = ''[TASK]''"
definition LAB_STATE_MARKER :: string where "LAB_STATE_MARKER = ''[LAB_STATE]''"

definition build_system_content :: "catalogue \<Rightarrow> string \<Rightarrow> string option \<Rightarrow> string option \<Rightarrow> string" where
  "build_system_content msg locale lab_ctx mcp_ctx =
     join [CHR 0x0A, CHR 0x0A]
       ([system_prompt msg ''prompt.tutor.chat_system'' locale] @
        (if truthy lab_ctx then [TASK_MARKER @ [CHR 0x0A] @ the lab_ctx] else []) @
        (if truthy mcp_ctx then [LAB_STATE_MARKER @ [CHR 0x0A] @ the mcp_ctx] else []))"

end
