(* ===== verification/Chat.thy ===== *)
theory Chat
  imports Chat_Context
begin

text \<open>
  The streaming reply of the chat tutor (\<open>chat/service.py\<close>, \<open>chat/stream_protocol.py\<close>,
  \<open>chat/persistence.py\<close>): rounds of a language model that may call tools, the events sent to the
  browser, the activity log and the message saved at the end.  What the model answers in a round is a
  parameter: the chunks of its stream with whether the client has left when each arrives, or an
  exception.
\<close>

definition MAX_TOOL_ROUNDS :: nat where "MAX_TOOL_ROUNDS = 5"
definition MAX_HISTORY_MESSAGES :: nat where "MAX_HISTORY_MESSAGES = 6"

subsection \<open>Events sent to the browser\<close>

datatype sse =
    Start string
  | TextStart string | TextDelta string string | TextEnd string
  | ToolInputStart string string | ToolInputDelta string string
  | ToolInputAvailable string string json | ToolOutputAvailable string string
  | Finish | Done | ErrorText string

text \<open>The body of an event; the end of the stream is the one that is not JSON.\<close>

fun sse_data :: "sse \<Rightarrow> json" where
  "sse_data (Start i) = JObj [(''type'', JStr ''start''), (''messageId'', JStr i)]"
| "sse_data (TextStart i) = JObj [(''type'', JStr ''text-start''), (''id'', JStr i)]"
| "sse_data (TextDelta i d) = JObj [(''type'', JStr ''text-delta''), (''id'', JStr i), (''delta'', JStr d)]"
| "sse_data (TextEnd i) = JObj [(''type'', JStr ''text-end''), (''id'', JStr i)]"
| "sse_data (ToolInputStart i n) =
     JObj [(''type'', JStr ''tool-input-start''), (''toolCallId'', JStr i), (''toolName'', JStr n)]"
| "sse_data (ToolInputDelta i d) =
     JObj [(''type'', JStr ''tool-input-delta''), (''toolCallId'', JStr i), (''inputTextDelta'', JStr d)]"
| "sse_data (ToolInputAvailable i n v) =
     JObj [(''type'', JStr ''tool-input-available''), (''toolCallId'', JStr i), (''toolName'', JStr n), (''input'', v)]"
| "sse_data (ToolOutputAvailable i out) =
     JObj [(''type'', JStr ''tool-output-available''), (''toolCallId'', JStr i), (''output'', JStr out)]"
| "sse_data Finish = JObj [(''type'', JStr ''finish'')]"
| "sse_data Done = JStr ''[DONE]''"
| "sse_data (ErrorText e) = JObj [(''type'', JStr ''error''), (''errorText'', JStr e)]"

definition sse_event :: "(json \<Rightarrow> string) \<Rightarrow> sse \<Rightarrow> string" where
  "sse_event dumps e =
     ''data: '' @ (case sse_data e of JStr s \<Rightarrow> s | j \<Rightarrow> dumps j) @ [CHR 0x0A, CHR 0x0A]"

subsection \<open>Messages\<close>

record tool_call =
  tc_id :: string
  tc_name :: string
  tc_arguments :: string

datatype chat_msg =
    System string
  | Plain json json
  | ToolCalls "tool_call list"
  | ToolResult string string

text \<open>\<open>to_openai_messages\<close>: a part that is no object, or a text that is no string, raises.\<close>

fun text_pieces :: "json list \<Rightarrow> py_error + string list" where
  "text_pieces [] = Inr []"
| "text_pieces (JObj p # ps) =
     (if map_of p ''type'' = Some (JStr ''text'') \<and> is_true (map_of p ''text'')
      then case map_of p ''text'' of
             Some (JStr s) \<Rightarrow> map_sum id (\<lambda>rest. s # rest) (text_pieces ps)
           | _ \<Rightarrow> Inl TypeError
      else text_pieces ps)"
| "text_pieces (_ # ps) = Inl TypeError"

definition openai_content :: "dict \<Rightarrow> py_error + json" where
  "openai_content m =
     (case map_of m ''parts'' of
        Some (JList (p # ps)) \<Rightarrow> map_sum id (\<lambda>pieces. JStr (lines pieces)) (text_pieces (p # ps))
      | _ \<Rightarrow> Inr (get_or ''content'' [] m))"

fun to_openai_messages :: "dict list \<Rightarrow> py_error + chat_msg list" where
  "to_openai_messages [] = Inr []"
| "to_openai_messages (m # ms) =
     (case openai_content m of
        Inl e \<Rightarrow> Inl e
      | Inr content \<Rightarrow>
          map_sum id (\<lambda>rest. (if is_true (Some content) then [Plain (get_or ''role'' ''user'' m) content] else []) @ rest)
            (to_openai_messages ms))"

record chat_row =
  cw_session_id :: string
  cw_role :: string
  cw_parts :: json
  cw_usage :: "dict option"

definition save_user_message :: "string \<Rightarrow> dict list \<Rightarrow> chat_row list \<Rightarrow> chat_row list" where
  "save_user_message session_id ms rows =
     (if ms = [] \<or> last ms = [] \<or> map_of (last ms) ''role'' \<noteq> Some (JStr ''user'') then rows
      else rows @ [\<lparr>cw_session_id = session_id, cw_role = ''user'',
        cw_parts = (if is_true (map_of (last ms) ''parts'') then the (map_of (last ms) ''parts'')
          else JList [JObj [(''type'', JStr ''text''), (''text'', get_or ''content'' [] (last ms))]]),
        cw_usage = None\<rparr>])"

text \<open>\<open>{**usage, "model_id": model_id}\<close>\<close>

definition with_model :: "string \<Rightarrow> dict option \<Rightarrow> dict" where
  "with_model model_id usage =
     without [''model_id''] (case usage of None \<Rightarrow> [] | Some u \<Rightarrow> u) @ [(''model_id'', JStr model_id)]"

definition save_assistant_message ::
  "string \<Rightarrow> string list \<Rightarrow> dict option \<Rightarrow> string \<Rightarrow> chat_row list \<Rightarrow> chat_row list" where
  "save_assistant_message session_id parts usage model_id rows =
     (if parts = [] then rows
      else rows @ [\<lparr>cw_session_id = session_id, cw_role = ''assistant'',
        cw_parts = JList (map (\<lambda>s. JObj [(''type'', JStr ''text''), (''text'', JStr s)]) parts),
        cw_usage = Some (with_model model_id usage)\<rparr>])"

subsection \<open>One round\<close>

text \<open>\<open>_THINKING_RE\<close>: from a start mark to the first end mark after it.\<close>

fun after_word :: "string \<Rightarrow> string \<Rightarrow> string option" where
  "after_word w [] = (if w = [] then Some [] else None)"
| "after_word w (c # cs) = (if starts_with (c # cs) w then Some (drop (length w) (c # cs)) else after_word w cs)"

lemma after_word_shorter: "after_word w s = Some r \<Longrightarrow> length r \<le> length s"
  by (induction s) (auto split: if_splits)

definition thinking_match :: "string \<Rightarrow> string option" where
  "thinking_match s =
     (if starts_with s ''[START_THINKING]''
      then after_word ''[END_THINKING]'' (drop (length ''[START_THINKING]'') s) else None)"

lemma thinking_match_shorter: "thinking_match (c # cs) = Some r \<Longrightarrow> length r \<le> length cs"
proof -
  assume "thinking_match (c # cs) = Some r"
  then have "after_word ''[END_THINKING]'' (drop (length ''[START_THINKING]'') (c # cs)) = Some r"
    by (simp add: thinking_match_def split: if_splits)
  then have "length r \<le> length (drop (length ''[START_THINKING]'') (c # cs))" by (rule after_word_shorter)
  then show ?thesis by simp
qed

function strip_thinking :: "string \<Rightarrow> string" where
  "strip_thinking [] = []"
| "strip_thinking (c # cs) =
     (case thinking_match (c # cs) of Some rest \<Rightarrow> strip_thinking rest | None \<Rightarrow> c # strip_thinking cs)"
  by pat_completeness auto
termination
  by (relation "measure length") (auto dest!: thinking_match_shorter)

record call_delta =
  dl_index :: int
  dl_id :: "string option"
  dl_function :: "(string option \<times> string option) option"

record delta =
  de_content :: "string option"
  de_calls :: "call_delta list"

datatype stream_item = Chunk bool "delta option" "dict option" | Broken string

datatype ended = Completed | ClientGone | Raised string

datatype activity =
    Fallback string string
  | ModelSelected string string
  | ContextFetched nat nat string
  | ToolCalled string string
  | ToolReturned string string bool
  | ResponseFinished string json

record run =
  ru_out :: "sse list"
  ru_activity :: "activity list"
  ru_messages :: "chat_msg list"
  ru_parts :: "string list"
  ru_usage :: "dict option"
  ru_has_calls :: bool

definition yields :: "sse list \<Rightarrow> run \<Rightarrow> run" where
  "yields es r = r\<lparr>ru_out := ru_out r @ es\<rparr>"

definition emits :: "activity \<Rightarrow> run \<Rightarrow> run" where
  "emits a r = r\<lparr>ru_activity := ru_activity r @ [a]\<rparr>"

record round_state =
  ro_started :: bool
  ro_text :: "string list"
  ro_calls :: "(int \<times> tool_call) list"

definition round_init :: round_state where
  "round_init = \<lparr>ro_started = False, ro_text = [], ro_calls = []\<rparr>"

definition merge_call :: "call_delta \<Rightarrow> tool_call \<Rightarrow> tool_call" where
  "merge_call d c =
     (let c1 = (if truthy (dl_id d) then c\<lparr>tc_id := the (dl_id d)\<rparr> else c)
      in case dl_function d of
           None \<Rightarrow> c1
         | Some (name, args) \<Rightarrow>
             (let c2 = (if truthy name then c1\<lparr>tc_name := the name\<rparr> else c1)
              in if truthy args then c2\<lparr>tc_arguments := tc_arguments c2 @ the args\<rparr> else c2))"

fun add_call :: "call_delta \<Rightarrow> (int \<times> tool_call) list \<Rightarrow> (int \<times> tool_call) list" where
  "add_call d [] = [(dl_index d, merge_call d \<lparr>tc_id = [], tc_name = [], tc_arguments = []\<rparr>)]"
| "add_call d ((i, c) # cs) = (if i = dl_index d then (i, merge_call d c) # cs else (i, c) # add_call d cs)"

text \<open>A delta: a content that is empty once stripped skips the rest of its chunk.\<close>

definition take_delta :: "string \<Rightarrow> delta \<Rightarrow> round_state \<Rightarrow> run \<Rightarrow> round_state \<times> run" where
  "take_delta part_id d s r =
     (let content = (if truthy (de_content d) then strip (strip_thinking (the (de_content d))) else []);
          calls = (\<lambda>s. s\<lparr>ro_calls := fold add_call (de_calls d) (ro_calls s)\<rparr>)
      in if \<not> truthy (de_content d) then (calls s, r)
         else if content = [] then (s, r)
         else (calls (s\<lparr>ro_started := True, ro_text := ro_text s @ [content]\<rparr>),
               yields ((if ro_started s then [] else [TextStart part_id]) @ [TextDelta part_id content]) r))"

fun read_stream :: "string \<Rightarrow> stream_item list \<Rightarrow> round_state \<Rightarrow> run \<Rightarrow> ended \<times> round_state \<times> run" where
  "read_stream part_id [] s r = (Completed, s, r)"
| "read_stream part_id (Broken e # items) s r = (Raised e, s, r)"
| "read_stream part_id (Chunk gone d usage # items) s r =
     (if gone then (ClientGone, s, r)
      else let r1 = (case usage of None \<Rightarrow> r | Some u \<Rightarrow> r\<lparr>ru_usage := Some u\<rparr>)
        in case d of
             None \<Rightarrow> read_stream part_id items s r1
           | Some d' \<Rightarrow> (let (s2, r2) = take_delta part_id d' s r1 in read_stream part_id items s2 r2))"

definition parse_arguments :: "chat_env \<Rightarrow> string \<Rightarrow> json" where
  "parse_arguments env raw =
     (if raw = [] then JObj [] else case ch_loads env raw of Some v \<Rightarrow> v | None \<Rightarrow> JObj [])"

fun run_tools :: "chat_env \<Rightarrow> string \<Rightarrow> nat \<Rightarrow> nat \<Rightarrow> tool_call list \<Rightarrow> run \<Rightarrow> run" where
  "run_tools env locale k n [] r = r"
| "run_tools env locale k n (tc # tcs) r =
     (let parsed = parse_arguments env (tc_arguments tc);
          result = execute_tool env locale (ToolSite k n) (tc_name tc) parsed;
          r1 = yields ([ToolInputStart (tc_id tc) (tc_name tc)] @
            (if tc_arguments tc \<noteq> [] then [ToolInputDelta (tc_id tc) (tc_arguments tc)] else []) @
            [ToolInputAvailable (tc_id tc) (tc_name tc) parsed]) r;
          r2 = emits (ToolCalled (tc_name tc) (take 200 (ch_str env parsed))) r1;
          r3 = emits (ToolReturned (tc_name tc) (take 200 result) (\<not> contains ''error'' (lower result))) r2;
          r4 = yields [ToolOutputAvailable (tc_id tc) result] r3
      in run_tools env locale k (Suc n) tcs
           (r4\<lparr>ru_messages := ru_messages r4 @ [ToolResult (tc_id tc)
              (result @ [CHR 0x0A, CHR 0x0A] @ ''['' @ ch_msg env ''prompt.language_directive'' locale [] @ '']'')]\<rparr>))"

text \<open>\<open>create\<close> is what asking the model answers: an exception or its stream.\<close>

type_synonym llm = "nat \<Rightarrow> bool \<Rightarrow> chat_msg list \<Rightarrow> string + stream_item list"

definition stream_one_round ::
  "chat_env \<Rightarrow> string \<Rightarrow> llm \<Rightarrow> bool \<Rightarrow> (nat \<Rightarrow> string) \<Rightarrow> nat \<Rightarrow> run \<Rightarrow> ended \<times> run" where
  "stream_one_round env locale llm tools part_ids k r =
     (case llm k tools (ru_messages r) of
        Inl e \<Rightarrow> (Raised e, r)
      | Inr items \<Rightarrow>
          (case read_stream (part_ids k) items round_init r of
             (Completed, s, r1) \<Rightarrow>
               (let r2 = (if ro_started s then yields [TextEnd (part_ids k)] r1 else r1);
                    r3 = (if ro_started s \<and> concat (ro_text s) \<noteq> []
                          then r2\<lparr>ru_parts := ru_parts r2 @ [concat (ro_text s)]\<rparr> else r2);
                    r4 = r3\<lparr>ru_has_calls := ro_calls s \<noteq> []\<rparr>;
                    calls = map snd (sort_key fst (ro_calls s))
                in (Completed,
                    if ro_calls s = [] then r4
                    else run_tools env locale k 0 calls (r4\<lparr>ru_messages := ru_messages r4 @ [ToolCalls calls]\<rparr>)))
           | (x, _, r1) \<Rightarrow> (x, r1)))"

subsection \<open>The reply\<close>

text \<open>At most \<open>MAX_TOOL_ROUNDS\<close> rounds; \<open>gone k\<close> is whether the client has left before the k-th.\<close>

fun rounds ::
  "chat_env \<Rightarrow> string \<Rightarrow> llm \<Rightarrow> bool \<Rightarrow> (nat \<Rightarrow> string) \<Rightarrow> (nat \<Rightarrow> bool) \<Rightarrow> nat \<Rightarrow> nat \<Rightarrow> run \<Rightarrow> ended \<times> run" where
  "rounds env locale llm tools part_ids gone 0 k r = (Completed, r)"
| "rounds env locale llm tools part_ids gone (Suc left) k r =
     (if gone k then (Completed, r)
      else case stream_one_round env locale llm tools part_ids k r of
        (Completed, r1) \<Rightarrow>
          if ru_has_calls r1 then rounds env locale llm tools part_ids gone left (Suc k) r1 else (Completed, r1)
      | (x, r1) \<Rightarrow> (x, r1))"

definition total_tokens :: "dict option \<Rightarrow> json" where
  "total_tokens usage =
     (case usage of None \<Rightarrow> JInt 0
      | Some u \<Rightarrow> (case map_of u ''total_tokens'' of Some v \<Rightarrow> v | None \<Rightarrow> JInt 0))"

text \<open>The end of the generator, for each way its loop may end.\<close>

definition finish_reply :: "string \<Rightarrow> ended \<times> run \<Rightarrow> run" where
  "finish_reply model_id er =
     (case er of
        (Completed, r) \<Rightarrow> yields [Finish, Done] (emits (ResponseFinished model_id (total_tokens (ru_usage r))) r)
      | (ClientGone, r) \<Rightarrow> r
      | (Raised e, r) \<Rightarrow> yields [ErrorText e, Done] r)"

record chat_request =
  rq_messages :: "dict list"
  rq_model_id :: "string option"
  rq_can_select :: bool
  rq_user_default :: "string option"

text \<open>What a reply did: its run, the saved rows, the session's model.\<close>

record reply =
  rp_run :: run
  rp_rows :: "chat_row list"
  rp_model :: string

definition provider_of :: "agents_config \<Rightarrow> string \<Rightarrow> string" where
  "provider_of cfg model_id = (case get_entry cfg model_id of Some e \<Rightarrow> me_provider_ref e | None \<Rightarrow> ''unknown'')"

definition last_messages :: "nat \<Rightarrow> 'a list \<Rightarrow> 'a list" where
  "last_messages n xs = drop (length xs - n) xs"

definition first_run ::
  "agents_config \<Rightarrow> chat_env \<Rightarrow> string \<Rightarrow> (json option \<times> json option) option \<Rightarrow> spec_step list option \<Rightarrow>
   chat_request \<Rightarrow> chat_msg list \<Rightarrow> string \<Rightarrow> string \<Rightarrow> run" where
  "first_run cfg env locale lab spec rq history model_id message_id =
     (let lab_ctx = fetch_lab_context (ch_msg env) lab spec locale;
          (mcp_ctx, n_components, n_errors) = fetch_mcp_context env locale
            (expected_vpcs_config (case spec of None \<Rightarrow> [] | Some ss \<Rightarrow> ss))
      in \<lparr>ru_out = [Start message_id],
          ru_activity =
            (if truthy (rq_model_id rq) \<and> model_id \<noteq> the (rq_model_id rq)
             then [Fallback (the (rq_model_id rq)) model_id] else []) @
            [ModelSelected model_id (provider_of cfg model_id),
             ContextFetched n_components n_errors (if truthy mcp_ctx then ''ok'' else ''no_context'')],
          ru_messages = System (build_system_content (ch_msg env) locale lab_ctx mcp_ctx) #
            last_messages MAX_HISTORY_MESSAGES history,
          ru_parts = [], ru_usage = None, ru_has_calls = False\<rparr>)"

definition generate ::
  "agents_config \<Rightarrow> chat_env \<Rightarrow> string \<Rightarrow> llm \<Rightarrow> (nat \<Rightarrow> string) \<Rightarrow> (nat \<Rightarrow> bool) \<Rightarrow>
   (json option \<times> json option) option \<Rightarrow> spec_step list option \<Rightarrow> chat_request \<Rightarrow> chat_msg list \<Rightarrow>
   learning_session \<Rightarrow> string \<Rightarrow> chat_row list \<Rightarrow> string + reply" where
  "generate cfg env locale llm part_ids gone lab spec rq history session message_id rows =
     (let model_id = resolve_chat_model cfg (rq_model_id rq) (ls_model_id session) (rq_can_select rq) (rq_user_default rq)
      in case resolve_model cfg model_id of
           Inl e \<Rightarrow> Inl e
         | Inr (_, entry) \<Rightarrow>
             (let r0 = first_run cfg env locale lab spec rq history model_id message_id;
                  r = finish_reply model_id
                    (rounds env locale llm (me_tools entry) part_ids gone MAX_TOOL_ROUNDS 0 r0)
              in Inr \<lparr>rp_run = r,
                   rp_rows = save_assistant_message (ls_id session) (ru_parts r) (ru_usage r) model_id rows,
                   rp_model = model_id\<rparr>))"

datatype chat_refusal = NoSession | NoMessages | BadRequest py_error | Crashed string

definition stream_reply ::
  "agents_config \<Rightarrow> chat_env \<Rightarrow> string \<Rightarrow> llm \<Rightarrow> (nat \<Rightarrow> string) \<Rightarrow> (nat \<Rightarrow> bool) \<Rightarrow>
   (string \<Rightarrow> (json option \<times> json option) option) \<Rightarrow> (string \<Rightarrow> spec_step list option) \<Rightarrow>
   chat_request \<Rightarrow> string \<Rightarrow> string \<Rightarrow> string \<Rightarrow> db \<Rightarrow> chat_row list \<Rightarrow> chat_refusal + reply" where
  "stream_reply cfg env locale llm part_ids gone lab spec rq session_id user_id message_id d rows =
     (case get_owned_session d session_id user_id of
        None \<Rightarrow> Inl NoSession
      | Some session \<Rightarrow>
          (case to_openai_messages (rq_messages rq) of
             Inl e \<Rightarrow> Inl (BadRequest e)
           | Inr [] \<Rightarrow> Inl NoMessages
           | Inr history \<Rightarrow>
               map_sum Crashed id
                 (generate cfg env locale llm part_ids gone (lab (ls_lab_slug session)) (spec (ls_lab_slug session)) rq
                    history session message_id (save_user_message session_id (rq_messages rq) rows))))"

end
