(* ===== verification/Chat_Facts.thy ===== *)
theory Chat_Facts
  imports Chat
begin

text \<open>
  What a round of the tutor does to a reply, and laws that every round keeps: the protocol of the
  events, the answers to tool calls, and the text that is saved.
\<close>

subsection \<open>The text of a round\<close>

definition opened_part :: "string \<Rightarrow> string list \<Rightarrow> sse list" where
  "opened_part i texts = (if texts = [] then [] else TextStart i # map (TextDelta i) texts)"

definition whole_part :: "string \<Rightarrow> string list \<Rightarrow> sse list" where
  "whole_part i texts = (if texts = [] then [] else opened_part i texts @ [TextEnd i])"

definition streamed :: "string \<Rightarrow> round_state \<Rightarrow> run \<Rightarrow> round_state \<Rightarrow> run \<Rightarrow> bool" where
  "streamed i s r s' r' \<longleftrightarrow>
     (\<exists>texts. list_all (\<lambda>t. t \<noteq> []) texts \<and> ro_text s' = ro_text s @ texts \<and>
        ro_started s' = (ro_started s \<or> texts \<noteq> []) \<and>
        ru_out r' = ru_out r @ (if ro_started s then map (TextDelta i) texts else opened_part i texts)) \<and>
     ru_messages r' = ru_messages r \<and> ru_parts r' = ru_parts r"

lemma streamed_same:
  "ro_text s' = ro_text s \<Longrightarrow> ro_started s' = ro_started s \<Longrightarrow> ru_out r' = ru_out r \<Longrightarrow>
   ru_messages r' = ru_messages r \<Longrightarrow> ru_parts r' = ru_parts r \<Longrightarrow> streamed i s r s' r'"
  by (auto simp: streamed_def opened_part_def intro!: exI [of _ "[]"])

lemma streamed_trans:
  assumes "streamed i s r s1 r1" and "streamed i s1 r1 s2 r2" shows "streamed i s r s2 r2"
proof -
  obtain ts us where
    ts: "list_all (\<lambda>t. t \<noteq> []) ts" "ro_text s1 = ro_text s @ ts" "ro_started s1 = (ro_started s \<or> ts \<noteq> [])"
      "ru_out r1 = ru_out r @ (if ro_started s then map (TextDelta i) ts else opened_part i ts)" and
    us: "list_all (\<lambda>t. t \<noteq> []) us" "ro_text s2 = ro_text s1 @ us" "ro_started s2 = (ro_started s1 \<or> us \<noteq> [])"
      "ru_out r2 = ru_out r1 @ (if ro_started s1 then map (TextDelta i) us else opened_part i us)"
    using assms unfolding streamed_def by blast
  then have "list_all (\<lambda>t. t \<noteq> []) (ts @ us) \<and> ro_text s2 = ro_text s @ (ts @ us) \<and>
      ro_started s2 = (ro_started s \<or> ts @ us \<noteq> []) \<and>
      ru_out r2 = ru_out r @ (if ro_started s then map (TextDelta i) (ts @ us) else opened_part i (ts @ us))"
    by (auto simp: opened_part_def)
  then show ?thesis using assms unfolding streamed_def by metis
qed

lemma take_delta_streamed: "take_delta i d s r = (s', r') \<Longrightarrow> streamed i s r s' r'"
proof (cases "truthy (de_content d) \<and> strip (strip_thinking (the (de_content d))) \<noteq> []")
  case True
  moreover assume "take_delta i d s r = (s', r')"
  ultimately show ?thesis
    by (auto simp: take_delta_def Let_def streamed_def opened_part_def yields_def
        intro!: exI [of _ "[strip (strip_thinking (the (de_content d)))]"])
next
  case False
  moreover assume "take_delta i d s r = (s', r')"
  ultimately show ?thesis by (auto simp: take_delta_def Let_def intro!: streamed_same split: if_splits)
qed

lemma read_stream_streamed: "read_stream i items s r = (x, s', r') \<Longrightarrow> streamed i s r s' r'"
proof (induction i items s r rule: read_stream.induct)
  case (3 i gone d usage items s r)
  define r1 where "r1 = (case usage of None \<Rightarrow> r | Some u \<Rightarrow> r\<lparr>ru_usage := Some u\<rparr>)"
  have r1: "streamed i s r s r1" unfolding r1_def by (rule streamed_same) (auto split: option.splits)
  show ?case
  proof (cases gone)
    case True
    then show ?thesis using 3(3) by (auto intro: streamed_same)
  next
    case False
    show ?thesis
    proof (cases d)
      case None
      then show ?thesis using 3(1) [OF False r1_def None] 3(3) False streamed_trans [OF r1]
        by (simp add: r1_def)
    next
      case (Some d')
      obtain s2 r2 where d: "take_delta i d' s r1 = (s2, r2)" by fastforce
      then have "read_stream i items s2 r2 = (x, s', r')" using 3(3) False Some by (simp add: r1_def)
      from 3(2) [OF False r1_def Some d [symmetric] refl this]
      show ?thesis using streamed_trans [OF r1 streamed_trans [OF take_delta_streamed [OF d]]] by blast
    qed
  qed
qed (auto intro: streamed_same)

subsection \<open>The tools of a round\<close>

fun tool_event :: "sse \<Rightarrow> bool" where
  "tool_event (ToolInputStart _ _) = True"
| "tool_event (ToolInputDelta _ _) = True"
| "tool_event (ToolInputAvailable _ _ _) = True"
| "tool_event (ToolOutputAvailable _ _) = True"
| "tool_event _ = False"

fun answers :: "tool_call list \<Rightarrow> chat_msg list \<Rightarrow> bool" where
  "answers [] [] \<longleftrightarrow> True"
| "answers (c # cs) (ToolResult i _ # ms) \<longleftrightarrow> i = tc_id c \<and> answers cs ms"
| "answers _ _ \<longleftrightarrow> False"

lemma run_tools_effect:
  "\<exists>es ms. ru_out (run_tools env locale k n cs r) = ru_out r @ es \<and> list_all tool_event es \<and>
     ru_messages (run_tools env locale k n cs r) = ru_messages r @ ms \<and> answers cs ms \<and>
     ru_parts (run_tools env locale k n cs r) = ru_parts r \<and>
     ru_has_calls (run_tools env locale k n cs r) = ru_has_calls r"
proof (induction cs arbitrary: n r)
  case (Cons c cs)
  define res where "res = execute_tool env locale (ToolSite k n) (tc_name c) (parse_arguments env (tc_arguments c))"
  define es0 where "es0 = [ToolInputStart (tc_id c) (tc_name c)] @
    (if tc_arguments c \<noteq> [] then [ToolInputDelta (tc_id c) (tc_arguments c)] else []) @
    [ToolInputAvailable (tc_id c) (tc_name c) (parse_arguments env (tc_arguments c)), ToolOutputAvailable (tc_id c) res]"
  define m0 where "m0 = ToolResult (tc_id c)
    (res @ [CHR 0x0A, CHR 0x0A] @ ''['' @ ch_msg env ''prompt.language_directive'' locale [] @ '']'')"
  obtain r1 where step: "run_tools env locale k n (c # cs) r = run_tools env locale k (Suc n) cs r1"
    and r1: "ru_out r1 = ru_out r @ es0" "ru_messages r1 = ru_messages r @ [m0]" "ru_parts r1 = ru_parts r"
      "ru_has_calls r1 = ru_has_calls r"
    by (auto simp: yields_def emits_def Let_def es0_def m0_def res_def)
  obtain es ms where "ru_out (run_tools env locale k (Suc n) cs r1) = ru_out r1 @ es" "list_all tool_event es"
      "ru_messages (run_tools env locale k (Suc n) cs r1) = ru_messages r1 @ ms" "answers cs ms"
      "ru_parts (run_tools env locale k (Suc n) cs r1) = ru_parts r1"
      "ru_has_calls (run_tools env locale k (Suc n) cs r1) = ru_has_calls r1"
    using Cons.IH by blast
  moreover have "list_all tool_event es0" by (simp add: es0_def)
  moreover have "answers (c # cs) (m0 # ms) = answers cs ms" by (simp add: m0_def)
  ultimately show ?case unfolding step using r1
    by (intro exI [of _ "es0 @ es"] exI [of _ "m0 # ms"]) simp
qed simp

subsection \<open>What a round leaves\<close>

text \<open>A round that ends, and one that is cut off in its stream.\<close>

definition round_done :: "run \<Rightarrow> run \<Rightarrow> bool" where
  "round_done r r' \<longleftrightarrow>
     (\<exists>i texts es calls ms. list_all (\<lambda>t. t \<noteq> []) texts \<and> list_all tool_event es \<and> answers calls ms \<and>
        ru_out r' = ru_out r @ whole_part i texts @ es \<and>
        ru_parts r' = ru_parts r @ (if texts = [] then [] else [concat texts]) \<and>
        ru_messages r' = ru_messages r @ (if calls = [] then [] else ToolCalls calls # ms) \<and>
        ru_has_calls r' = (calls \<noteq> []))"

definition round_cut :: "run \<Rightarrow> run \<Rightarrow> bool" where
  "round_cut r r' \<longleftrightarrow>
     (\<exists>i texts. list_all (\<lambda>t. t \<noteq> []) texts \<and> ru_out r' = ru_out r @ opened_part i texts \<and>
        ru_parts r' = ru_parts r \<and> ru_messages r' = ru_messages r)"

lemma stream_one_round_effect:
  assumes "stream_one_round env locale llm tools part_ids k r = (x, r')"
  shows "(x = Completed \<longrightarrow> round_done r r') \<and> (x \<noteq> Completed \<longrightarrow> round_cut r r')"
proof (cases "llm k tools (ru_messages r)")
  case (Inl e)
  then show ?thesis using assms
    by (auto simp: stream_one_round_def round_cut_def opened_part_def intro!: exI [of _ "[]"])
next
  case (Inr items)
  obtain y s r1 where rs: "read_stream (part_ids k) items round_init r = (y, s, r1)" by (metis prod_cases3)
  from read_stream_streamed [OF rs] obtain texts where
    t: "list_all (\<lambda>t. t \<noteq> []) texts" "ro_text s = texts" "ro_started s = (texts \<noteq> [])"
      "ru_out r1 = ru_out r @ opened_part (part_ids k) texts" "ru_messages r1 = ru_messages r" "ru_parts r1 = ru_parts r"
    by (auto simp: streamed_def round_init_def)
  show ?thesis
  proof (cases "y = Completed")
    case False
    then have "(x, r') = (y, r1)"
      using assms unfolding stream_one_round_def Inr sum.case rs prod.case by (cases y) simp_all
    then show ?thesis using False t by (auto simp: round_cut_def)
  next
    case True
    have some_text: "texts \<noteq> [] \<Longrightarrow> concat texts \<noteq> []" using t(1) by (cases texts) auto
    define r3 where "r3 = (if texts = [] then r1 else (yields [TextEnd (part_ids k)] r1)\<lparr>ru_parts :=
      ru_parts r1 @ [concat texts]\<rparr>)\<lparr>ru_has_calls := ro_calls s \<noteq> []\<rparr>"
    have r3: "ru_out r3 = ru_out r @ whole_part (part_ids k) texts"
      "ru_parts r3 = ru_parts r @ (if texts = [] then [] else [concat texts])"
      "ru_has_calls r3 = (ro_calls s \<noteq> [])" "ru_messages r3 = ru_messages r"
      using t by (auto simp: r3_def yields_def whole_part_def opened_part_def)
    define calls where "calls = map snd (sort_key fst (ro_calls s))"
    have calls: "calls = [] \<longleftrightarrow> ro_calls s = []"
      unfolding calls_def by (metis length_0_conv length_map length_sort)
    have r: "r' = (if ro_calls s = [] then r3
        else run_tools env locale k 0 calls (r3\<lparr>ru_messages := ru_messages r3 @ [ToolCalls calls]\<rparr>))"
      and x: "x = Completed"
      using assms True t some_text unfolding stream_one_round_def Inr sum.case rs prod.case
      by (auto simp: r3_def calls_def yields_def Let_def)
    show ?thesis
    proof (cases "ro_calls s = []")
      case True
      then show ?thesis using r x t(1,5) unfolding round_done_def
        by (intro conjI impI exI [of _ "part_ids k"] exI [of _ texts] exI [of _ "[] :: sse list"]
            exI [of _ "[] :: tool_call list"] exI [of _ "[] :: chat_msg list"]) (simp_all add: r3)
    next
      case False
      obtain es ms where e: "ru_out r' = ru_out r3 @ es" "list_all tool_event es"
        "ru_messages r' = (ru_messages r3 @ [ToolCalls calls]) @ ms" "answers calls ms" "ru_parts r' = ru_parts r3"
        "ru_has_calls r' = ru_has_calls r3"
        using run_tools_effect [of env "locale" k 0 calls "r3\<lparr>ru_messages := ru_messages r3 @ [ToolCalls calls]\<rparr>"] r False
        by auto
      then show ?thesis using False calls t(1,5) x unfolding round_done_def
        by (intro conjI impI exI [of _ "part_ids k"] exI [of _ texts] exI [of _ es] exI [of _ calls] exI [of _ ms])
          (simp_all add: r3)
    qed
  qed
qed

subsection \<open>Laws of a reply\<close>

locale reply_law =
  fixes law :: "run \<Rightarrow> bool" and cut_law :: "run \<Rightarrow> bool"
  assumes finished: "law r \<Longrightarrow> round_done r r' \<Longrightarrow> law r'"
    and cut: "law r \<Longrightarrow> round_cut r r' \<Longrightarrow> cut_law r'"
begin

lemma rounds_keep:
  "law r \<Longrightarrow> rounds env locale llm tools part_ids gone left k r = (x, r') \<Longrightarrow>
     (x = Completed \<longrightarrow> law r') \<and> (x \<noteq> Completed \<longrightarrow> cut_law r')"
proof (induction left arbitrary: k r)
  case (Suc left)
  show ?case
  proof (cases "gone k")
    case False
    obtain y r1 where round: "stream_one_round env locale llm tools part_ids k r = (y, r1)" by fastforce
    note effect = stream_one_round_effect [OF round]
    show ?thesis
    proof (cases "y = Completed")
      case True
      then have "law r1" using effect finished [OF Suc.prems(1)] by blast
      then show ?thesis using Suc.IH [of r1 "Suc k"] Suc.prems(2) False True by (auto simp: round split: if_splits)
    next
      case cut_off: False
      then have "cut_law r1" using effect cut [OF Suc.prems(1)] by blast
      then show ?thesis using Suc.prems(2) False cut_off by (cases y) (auto simp: round)
    qed
  qed (use Suc.prems in auto)
qed auto

end

text \<open>The open text part after some events; a part is opened, fed and closed by its own name.\<close>

fun part_after :: "string option \<Rightarrow> sse list \<Rightarrow> string option option" where
  "part_after p [] = Some p"
| "part_after None (TextStart i # es) = part_after (Some i) es"
| "part_after (Some i) (TextDelta j _ # es) = (if i = j then part_after (Some i) es else None)"
| "part_after (Some i) (TextEnd j # es) = (if i = j then part_after None es else None)"
| "part_after None (e # es) = (if tool_event e then part_after None es else None)"
| "part_after p (e # es) = None"

lemma part_after_append: "part_after p (a @ b) = Option.bind (part_after p a) (\<lambda>q. part_after q b)"
  by (induction p a rule: part_after.induct) auto

lemma part_after_deltas: "part_after (Some i) (map (TextDelta i) ts) = Some (Some i)"
  by (induction ts) auto

lemma part_after_opened: "part_after None (opened_part i ts) = Some (if ts = [] then None else Some i)"
  by (simp add: opened_part_def part_after_deltas)

lemma part_after_whole: "part_after None (whole_part i ts) = Some None"
  by (simp add: whole_part_def part_after_append part_after_opened)

lemma part_after_tools: "list_all tool_event es \<Longrightarrow> part_after None es = Some None"
proof (induction es)
  case (Cons e es)
  then show ?case by (cases e) auto
qed simp

definition started_with :: "string \<Rightarrow> (string option \<Rightarrow> bool) \<Rightarrow> run \<Rightarrow> bool" where
  "started_with i P r \<longleftrightarrow> (\<exists>body p. ru_out r = Start i # body \<and> part_after None body = Some p \<and> P p)"

interpretation protocol: reply_law "started_with i (\<lambda>p. p = None)" "started_with i (\<lambda>_. True)"
proof
  fix r r'
  assume l: "started_with i (\<lambda>p. p = None) r"
  then obtain body where b: "ru_out r = Start i # body" "part_after None body = Some None"
    by (auto simp: started_with_def)
  show "started_with i (\<lambda>p. p = None) r'" if "round_done r r'"
    using that b by (auto simp: round_done_def started_with_def part_after_append part_after_whole part_after_tools)
  show "started_with i (\<lambda>_. True) r'" if "round_cut r r'"
    using that b by (auto simp: round_cut_def started_with_def part_after_append part_after_opened)
qed

text \<open>Every request for tools is followed by the answer to each call, in order.\<close>

inductive transcript :: "nat \<Rightarrow> chat_msg list \<Rightarrow> bool" where
  nothing: "transcript n []"
| asked: "transcript n ms \<Longrightarrow> answers calls rs \<Longrightarrow> calls \<noteq> [] \<Longrightarrow> transcript (Suc n) (ms @ ToolCalls calls # rs)"

definition conversation :: "chat_msg list \<Rightarrow> run \<Rightarrow> bool" where
  "conversation first r \<longleftrightarrow> (\<exists>n ms. ru_messages r = first @ ms \<and> transcript n ms)"

interpretation answered: reply_law "conversation first" "conversation first"
proof
  fix r r'
  assume l: "conversation first r"
  then obtain n ms where m: "ru_messages r = first @ ms" "transcript n ms" by (auto simp: conversation_def)
  show "conversation first r'" if "round_done r r'"
  proof -
    from that obtain calls rs where "answers calls rs"
      "ru_messages r' = ru_messages r @ (if calls = [] then [] else ToolCalls calls # rs)"
      unfolding round_done_def by blast
    then show ?thesis using m transcript.asked [OF m(2)]
      by (cases "calls = []") (auto simp: conversation_def)
  qed
  show "conversation first r'" if "round_cut r r'"
    using that m by (auto simp: conversation_def round_cut_def)
qed

text \<open>What was shown: the texts of the deltas.\<close>

fun shown :: "sse list \<Rightarrow> string" where
  "shown [] = []"
| "shown (TextDelta _ t # es) = t @ shown es"
| "shown (_ # es) = shown es"

lemma shown_append: "shown (a @ b) = shown a @ shown b"
  by (induction a rule: shown.induct) auto

lemma shown_deltas: "shown (map (TextDelta i) ts) = concat ts"
  by (induction ts) auto

lemma shown_parts: "shown (opened_part i ts) = concat ts" "shown (whole_part i ts) = concat ts"
  by (simp_all add: opened_part_def whole_part_def shown_append shown_deltas)

lemma shown_tools: "list_all tool_event es \<Longrightarrow> shown es = []"
proof (induction es)
  case (Cons e es)
  then show ?case by (cases e) auto
qed simp

definition saved_is_shown :: "run \<Rightarrow> bool" where
  "saved_is_shown r \<longleftrightarrow> concat (ru_parts r) = shown (ru_out r)"

definition saved_was_shown :: "run \<Rightarrow> bool" where
  "saved_was_shown r \<longleftrightarrow> (\<exists>rest. shown (ru_out r) = concat (ru_parts r) @ rest)"

interpretation saved: reply_law saved_is_shown saved_was_shown
proof
  fix r r' assume "saved_is_shown r"
  then show "saved_is_shown r'" if "round_done r r'"
    using that by (auto simp: round_done_def saved_is_shown_def shown_append shown_parts shown_tools split: if_splits)
  assume "saved_is_shown r"
  then show "saved_was_shown r'" if "round_cut r r'"
    using that by (auto simp: round_cut_def saved_is_shown_def saved_was_shown_def shown_append shown_parts)
qed

text \<open>Requests for tools are bounded by the rounds.\<close>

definition tool_requests :: "chat_msg list \<Rightarrow> nat" where
  "tool_requests ms = count_if (\<lambda>m. case m of ToolCalls _ \<Rightarrow> True | _ \<Rightarrow> False) ms"

lemma tool_requests_append [simp]: "tool_requests (a @ b) = tool_requests a + tool_requests b"
  by (simp add: tool_requests_def count_if_def)

lemma answers_no_requests: "answers calls ms \<Longrightarrow> tool_requests ms = 0"
  by (induction calls ms rule: answers.induct) (auto simp: tool_requests_def count_if_def)

lemma rounds_requests:
  "rounds env locale llm tools part_ids gone left k r = (x, r') \<Longrightarrow>
     tool_requests (ru_messages r') \<le> tool_requests (ru_messages r) + left"
proof (induction left arbitrary: k r)
  case (Suc left)
  show ?case
  proof (cases "gone k")
    case False
    obtain y r1 where round: "stream_one_round env locale llm tools part_ids k r = (y, r1)" by fastforce
    have "tool_requests (ru_messages r1) \<le> tool_requests (ru_messages r) + 1"
    proof (cases "y = Completed")
      case True
      then have "round_done r r1" using stream_one_round_effect [OF round] by blast
      then obtain calls ms where "answers calls ms"
        "ru_messages r1 = ru_messages r @ (if calls = [] then [] else ToolCalls calls # ms)"
        unfolding round_done_def by blast
      then show ?thesis using answers_no_requests [of calls ms]
        by (cases "calls = []") (auto simp: tool_requests_def count_if_def)
    next
      case False
      then have "round_cut r r1" using stream_one_round_effect [OF round] by blast
      then show ?thesis by (auto simp: round_cut_def)
    qed
    then show ?thesis using Suc.prems Suc.IH [of "Suc k" r1] False
      by (cases y) (auto simp: round split: if_splits)
  qed (use Suc.prems in auto)
qed auto

end
