(* ===== verification/Chat_Properties.thy ===== *)
theory Chat_Properties
  imports Chat_Facts Samples "HOL-Library.Code_Target_Nat"
begin

text \<open>
  Properties of the chat tutor: the model a reply uses, the protocol of what is sent to the browser, the
  answers to tool calls and the bound on their rounds, and what of a reply is saved.
\<close>

subsection \<open>The model of a reply\<close>

lemma validated_catalog:
  assumes "validate_refs cfg = Inr cfg'"
  shows "ag_catalog cfg' = ag_catalog cfg" "ag_chat_model cfg' = ag_chat_model cfg"
    "get_entry cfg' (ag_chat_model cfg') \<noteq> None"
    "get_entry cfg' m = Some e \<Longrightarrow> map_of (ag_providers cfg') (me_provider_ref e) \<noteq> None"
proof -
  have ok: "list_all (\<lambda>m. map_of (ag_providers cfg) (me_provider_ref m) \<noteq> None) (ag_catalog cfg)"
    "get_entry cfg (ag_chat_model cfg) \<noteq> None"
    and cfg': "cfg' = cfg\<lparr>ag_providers := map (\<lambda>(r, c). (r, fill_base_url c)) (ag_providers cfg)\<rparr>"
    using assms by (auto simp: validate_refs_def split: if_splits)
  have entry: "get_entry cfg' = get_entry cfg" by (rule ext) (simp add: get_entry_def cfg')
  show "ag_catalog cfg' = ag_catalog cfg" "ag_chat_model cfg' = ag_chat_model cfg"
    "get_entry cfg' (ag_chat_model cfg') \<noteq> None"
    unfolding entry using ok(2) by (simp_all add: cfg')
  assume "get_entry cfg' m = Some e"
  then have "e \<in> set (ag_catalog cfg)" unfolding entry by (auto simp: get_entry_def find_Some_iff)
  then have "map_of (ag_providers cfg) (me_provider_ref e) \<noteq> None" using ok(1) by (simp add: list_all_iff)
  then show "map_of (ag_providers cfg') (me_provider_ref e) \<noteq> None"
    by (simp add: cfg' map_of_map case_prod_unfold map_of_eq_None_iff image_image)
qed

lemma chosen_catalogued:
  assumes "get_entry cfg (ag_chat_model cfg) \<noteq> None"
  shows "get_entry cfg (resolve_chat_model cfg rq sm can ud) \<noteq> None"
  using assms by (simp add: resolve_chat_model_def catalogued_def)

text \<open>Under a configuration that passed its validation the model of a reply is always one of the
  catalogue, so the reply never crashes before its first event; and a user who may not select gets the
  session's model or the default, whatever the request and the preference say.\<close>

theorem chosen_model_is_available:
  assumes "validate_refs cfg = Inr cfg'"
  shows "get_entry cfg' (resolve_chat_model cfg' requested session_model can_select user_default) \<noteq> None \<and>
    resolve_chat_model cfg' requested session_model False user_default = resolve_chat_model cfg' None session_model False None \<and>
    (\<exists>rep. generate cfg' env locale llm part_ids gone lab spec rq history session message_id rows = Inr rep)"
proof (intro conjI)
  note v = validated_catalog [OF assms]
  show "get_entry cfg' (resolve_chat_model cfg' requested session_model can_select user_default) \<noteq> None"
    using v(3) by (rule chosen_catalogued)
  show "resolve_chat_model cfg' requested session_model False user_default =
      resolve_chat_model cfg' None session_model False None"
    by (simp add: resolve_chat_model_def)
  let ?m = "resolve_chat_model cfg' (rq_model_id rq) (ls_model_id session) (rq_can_select rq) (rq_user_default rq)"
  obtain e where e: "get_entry cfg' ?m = Some e" using chosen_catalogued [OF v(3)] by blast
  obtain c where "map_of (ag_providers cfg') (me_provider_ref e) = Some c" using v(4) [OF e] by blast
  then have "resolve_model cfg' ?m = Inr (c, e)" using e by (simp add: resolve_model_def)
  then show "\<exists>rep. generate cfg' env locale llm part_ids gone lab spec rq history session message_id rows = Inr rep"
    by (simp add: generate_def Let_def)
qed

lemma sample_agents_valid: "validate_refs sample_agents = Inr sample_agents"
  by (simp add: validate_refs_def sample_agents_def get_entry_def creds_ok_def fill_base_url_def)

theorem chosen_model_is_available_witness:
  "resolve_chat_model sample_agents (Some ''other'') None False None = ''m'' \<and>
   get_entry sample_agents (resolve_chat_model sample_agents (Some ''other'') None False None) \<noteq> None"
proof -
  have "validate_refs sample_agents = Inr sample_agents" by (rule sample_agents_valid)
  from chosen_model_is_available [OF this, of "Some ''other''" None False None] show ?thesis
    by (simp add: resolve_chat_model_def catalogued_def sample_agents_def)
qed

subsection \<open>A reply\<close>

lemma generate_cases:
  assumes "generate cfg env locale llm part_ids gone lab spec rq history session message_id rows = Inr rep"
  obtains model_id tools x r where
    "rounds env locale llm tools part_ids gone MAX_TOOL_ROUNDS 0
       (first_run cfg env locale lab spec rq history model_id message_id) = (x, r)"
    "rp_run rep = finish_reply model_id (x, r)"
    "rp_rows rep = save_assistant_message (ls_id session) (ru_parts r) (ru_usage r) model_id rows"
proof -
  let ?m = "resolve_chat_model cfg (rq_model_id rq) (ls_model_id session) (rq_can_select rq) (rq_user_default rq)"
  obtain c entry where m: "resolve_model cfg ?m = Inr (c, entry)"
    using assms by (auto simp: generate_def Let_def split: sum.splits)
  obtain x r where r: "rounds env locale llm (me_tools entry) part_ids gone MAX_TOOL_ROUNDS 0
       (first_run cfg env locale lab spec rq history ?m message_id) = (x, r)" by fastforce
  have "rp_run rep = finish_reply ?m (x, r)" "rp_rows rep =
      save_assistant_message (ls_id session) (ru_parts (rp_run rep)) (ru_usage (rp_run rep)) ?m rows"
    using assms by (auto simp: generate_def Let_def m r)
  moreover have "ru_parts (finish_reply ?m (x, r)) = ru_parts r" "ru_usage (finish_reply ?m (x, r)) = ru_usage r"
    by (simp_all add: finish_reply_def yields_def emits_def split: ended.split)
  ultimately show ?thesis using that [OF r] by simp
qed

lemma first_run_fields:
  "ru_out (first_run cfg env locale lab spec rq history model_id message_id) = [Start message_id]"
  "ru_parts (first_run cfg env locale lab spec rq history model_id message_id) = []"
  "\<exists>c. ru_messages (first_run cfg env locale lab spec rq history model_id message_id) =
     System c # last_messages MAX_HISTORY_MESSAGES history"
  by (simp_all add: first_run_def Let_def case_prod_beta)


definition sample_chat :: chat_env where
  "sample_chat = \<lparr>ch_mcp = False, ch_components = (\<lambda>_. Inr []), ch_component = (\<lambda>_ _. Inl ''no''),
     ch_errors = (\<lambda>_. Inr []), ch_connect = (\<lambda>_ _. Inl ''refused''), ch_decode = id, ch_hostname = None,
     ch_msg = (\<lambda>key _ _. key), ch_dumps = (\<lambda>_. ''{}''), ch_loads = (\<lambda>_. None), ch_str = (\<lambda>_. ''{}''),
     ch_str_time = (\<lambda>_. ''t''), ch_index_error = (\<lambda>_ k. k)\<rparr>"

text \<open>A model that asks for its components and then answers in two pieces.\<close>

definition sample_llm :: llm where
  "sample_llm k tools ms = Inr (if k = 0
     then [Chunk False (Some \<lparr>de_content = None, de_calls = [\<lparr>dl_index = 0, dl_id = Some ''c'',
       dl_function = Some (Some ''list_components'', None)\<rparr>]\<rparr>) None]
     else [Chunk False (Some \<lparr>de_content = Some ''Hello'', de_calls = []\<rparr>) None,
       Chunk False (Some \<lparr>de_content = Some '' world'', de_calls = []\<rparr>) None])"

definition sample_request :: chat_request where
  "sample_request = \<lparr>rq_messages = [[(''role'', JStr ''user''), (''content'', JStr ''hi'')]],
     rq_model_id = None, rq_can_select = False, rq_user_default = None\<rparr>"

abbreviation sample_reply :: "string + reply" where
  "sample_reply \<equiv> generate sample_agents sample_chat ''en'' sample_llm (\<lambda>_. ''p'') (\<lambda>_. False) None None
     sample_request [Plain (JStr ''user'') (JStr ''hi'')] sample_session ''m'' []"

lemma sample_reply_runs: "\<exists>rep. sample_reply = Inr rep"
  by (simp add: generate_def Let_def resolve_model_def resolve_chat_model_def catalogued_def sample_agents_def
      get_entry_def sample_session_def sample_request_def)


text \<open>C27. The model is asked for tools at most five times in a reply, what it is given begins with one
  system message and the last six messages of the dialogue, and each of its requests is followed by
  exactly one answer to every call, in the order of the calls.\<close>

theorem tool_calls_are_answered:
  assumes "generate cfg env locale llm part_ids gone lab spec rq history session message_id rows = Inr rep"
    and "tool_requests history = 0"
  shows "\<exists>c n ms. ru_messages (rp_run rep) = System c # last_messages 6 history @ ms \<and> transcript n ms \<and>
    tool_requests (ru_messages (rp_run rep)) \<le> 5 \<and> length (last_messages 6 history) \<le> 6"
proof -
  obtain model_id tools x r where
    r: "rounds env locale llm tools part_ids gone MAX_TOOL_ROUNDS 0
       (first_run cfg env locale lab spec rq history model_id message_id) = (x, r)"
    and run: "rp_run rep = finish_reply model_id (x, r)"
    using generate_cases [OF assms(1)] by metis
  obtain c where c: "ru_messages (first_run cfg env locale lab spec rq history model_id message_id) =
      System c # last_messages 6 history"
    using first_run_fields(3) unfolding MAX_HISTORY_MESSAGES_def by blast
  have msgs: "ru_messages (rp_run rep) = ru_messages r"
    by (simp add: run finish_reply_def yields_def emits_def split: ended.split)
  have "conversation (System c # last_messages 6 history)
      (first_run cfg env locale lab spec rq history model_id message_id)"
    unfolding conversation_def c using transcript.nothing by blast
  then have "conversation (System c # last_messages 6 history) r" using answered.rounds_keep [OF _ r] by blast
  then obtain n ms where ms: "ru_messages r = System c # last_messages 6 history @ ms" "transcript n ms"
    by (auto simp: conversation_def)
  have "tool_requests (last_messages 6 history) \<le> tool_requests history"
    using tool_requests_append [of "take (length history - 6) history" "last_messages 6 history"]
    by (simp add: last_messages_def)
  then have "tool_requests (ru_messages r) \<le> 5"
    using rounds_requests [OF r] assms(2) by (simp add: c tool_requests_def MAX_TOOL_ROUNDS_def)
  with ms show ?thesis unfolding msgs by (intro exI conjI) (auto simp: last_messages_def)
qed

theorem tool_calls_are_answered_witness:
  "\<exists>rep c n ms. sample_reply = Inr rep \<and> ru_messages (rp_run rep) =
     System c # last_messages 6 [Plain (JStr ''user'') (JStr ''hi'')] @ ms \<and> transcript n ms"
proof -
  obtain rep where rep: "sample_reply = Inr rep" using sample_reply_runs by blast
  have "tool_requests [Plain (JStr ''user'') (JStr ''hi'')] = 0" by (simp add: tool_requests_def)
  from tool_calls_are_answered [OF rep this] rep show ?thesis by blast
qed

text \<open>What a reply saves was shown: the saved text is a beginning of the text the browser got, and all
  of it when the reply ended regularly; besides the learner's message at most one row is added.\<close>

theorem saved_reply_was_shown:
  assumes "generate cfg env locale llm part_ids gone lab spec rq history session message_id rows = Inr rep"
  shows "\<exists>parts rest. shown (ru_out (rp_run rep)) = concat parts @ rest \<and>
    (rest = [] \<or> last (ru_out (rp_run rep)) \<noteq> Done \<or> (\<exists>e. ErrorText e \<in> set (ru_out (rp_run rep)))) \<and>
    map cw_parts (rp_rows rep) = map cw_parts rows @ (if parts = [] then []
      else [JList (map (\<lambda>s. JObj [(''type'', JStr ''text''), (''text'', JStr s)]) parts)])"
proof -
  obtain model_id tools x r where
    r: "rounds env locale llm tools part_ids gone MAX_TOOL_ROUNDS 0
       (first_run cfg env locale lab spec rq history model_id message_id) = (x, r)"
    and run: "rp_run rep = finish_reply model_id (x, r)"
    and saved: "rp_rows rep = save_assistant_message (ls_id session) (ru_parts r) (ru_usage r) model_id rows"
    using generate_cases [OF assms] by metis
  have first: "saved_is_shown (first_run cfg env locale lab spec rq history model_id message_id)"
    "started_with message_id (\<lambda>p. p = None) (first_run cfg env locale lab spec rq history model_id message_id)"
    by (simp_all add: saved_is_shown_def started_with_def first_run_fields)
  obtain body p where b: "ru_out r = Start message_id # body" "part_after None body = Some p"
    using protocol.rounds_keep [OF first(2) r] unfolding started_with_def by (cases "x = Completed") blast+
  have no_done: "part_after q es = Some p \<Longrightarrow> Done \<notin> set es" for q es
    by (induction q es rule: part_after.induct) (auto split: if_splits)
  then have "x = ClientGone \<Longrightarrow> last (ru_out (rp_run rep)) \<noteq> Done"
    using b by (auto simp: run finish_reply_def dest: last_in_set)
  moreover obtain rest where rest: "shown (ru_out r) = concat (ru_parts r) @ rest" "x = Completed \<Longrightarrow> rest = []"
    using saved.rounds_keep [OF first(1) r] unfolding saved_is_shown_def saved_was_shown_def
    by (cases "x = Completed") auto
  moreover have "shown (ru_out (rp_run rep)) = shown (ru_out r)"
    by (simp add: run finish_reply_def yields_def emits_def shown_append split: ended.split)
  moreover have "x = Raised e \<Longrightarrow> ErrorText e \<in> set (ru_out (rp_run rep))" for e
    by (simp add: run finish_reply_def yields_def)
  ultimately show ?thesis
    by (intro exI [of _ "ru_parts r"] exI [of _ rest])
      (cases x; auto simp: saved save_assistant_message_def)
qed

theorem saved_reply_was_shown_witness:
  "\<exists>rep parts rest. sample_reply = Inr rep \<and> shown (ru_out (rp_run rep)) = concat parts @ rest"
proof -
  obtain rep where rep: "sample_reply = Inr rep" using sample_reply_runs by blast
  from saved_reply_was_shown [OF rep] rep show ?thesis by blast
qed

subsection \<open>Text that is lost\<close>

text \<open>The text of a round is put together from pieces stripped one by one, so the blanks between the
  pieces of a stream are lost: what was streamed as two words is shown and saved as one.\<close>

fun content_of :: "stream_item \<Rightarrow> string" where
  "content_of (Chunk _ (Some d) _) = (if truthy (de_content d) then the (de_content d) else [])"
| "content_of _ = []"

lemma strip_nothing: "strip [] = []"
  by (simp add: strip_def lstrip_def rstrip_def)

theorem round_text_is_stripped_pieces:
  assumes "read_stream i items round_init r = (Completed, s, r')"
  shows "concat (ro_text s) = concat (map (\<lambda>item. strip (strip_thinking (content_of item))) items)"
proof -
  have "read_stream i items s0 r = (Completed, s, r') \<Longrightarrow> concat (ro_text s) = concat (ro_text s0) @
      concat (map (\<lambda>item. strip (strip_thinking (content_of item))) items)" for s0
  proof (induction i items s0 r rule: read_stream.induct)
    case (3 i gone d usage items s0 r)
    show ?case
    proof (cases d)
      case None
      then show ?thesis using 3 by (auto simp: strip_nothing split: if_splits)
    next
      case (Some d')
      define r1 where "r1 = (case usage of None \<Rightarrow> r | Some u \<Rightarrow> r\<lparr>ru_usage := Some u\<rparr>)"
      obtain s2 r2 where d: "take_delta i d' s0 r1 = (s2, r2)" by fastforce
      have g: "\<not> gone" using 3(3) by (auto split: if_splits)
      then have rec: "read_stream i items s2 r2 = (Completed, s, r')" using 3(3) Some d by (simp add: r1_def)
      have "concat (ro_text s2) = concat (ro_text s0) @ strip (strip_thinking (content_of (Chunk gone d usage)))"
        using d Some by (auto simp: take_delta_def Let_def strip_nothing split: if_splits)
      with 3(2) [OF g r1_def Some d [symmetric] refl rec] show ?thesis by simp
    qed
  qed auto
  from this [OF assms] show ?thesis by (simp add: round_init_def)
qed

definition empty_run :: run where
  "empty_run = \<lparr>ru_out = [], ru_activity = [], ru_messages = [], ru_parts = [], ru_usage = None, ru_has_calls = False\<rparr>"

definition two_words :: "stream_item list" where
  "two_words = [Chunk False (Some \<lparr>de_content = Some ''Hello'', de_calls = []\<rparr>) None,
     Chunk False (Some \<lparr>de_content = Some '' world'', de_calls = []\<rparr>) None]"

theorem round_text_is_stripped_pieces_witness:
  "concat (ro_text (fst (snd (read_stream ''p'' two_words round_init empty_run)))) = ''Helloworld''"
proof -
  have "fst (read_stream ''p'' two_words round_init empty_run) = Completed" by code_simp
  then obtain s r' where ran: "read_stream ''p'' two_words round_init empty_run = (Completed, s, r')"
    by (metis prod.collapse)
  have "concat (map (\<lambda>item. strip (strip_thinking (content_of item))) two_words) = ''Helloworld''" by code_simp
  then show ?thesis using round_text_is_stripped_pieces [OF ran] ran by simp
qed

text \<open>Thoughts that arrive in more than one piece are shown.\<close>

lemma split_thoughts_are_shown:
  "concat (map (\<lambda>t. strip (strip_thinking t)) [''[START_THINKING]so'', ''[END_THINKING]Yes'']) =
     ''[START_THINKING]so[END_THINKING]Yes'' \<and>
   strip (strip_thinking ''[START_THINKING]so[END_THINKING]Yes'') = ''Yes''"
  by code_simp

text \<open>A tool the tutor may not use is reported to the activity log as a success.\<close>

lemma refused_tool_is_a_success:
  assumes "name \<notin> set ALLOWED_TOOLS" and "\<not> contains ''error'' (lower (tool_error env locale ''not_allowed'' [(''name'', JStr name)]))"
  shows "ru_activity (run_tools env locale k n [\<lparr>tc_id = i, tc_name = name, tc_arguments = []\<rparr>] r) =
    ru_activity r @ [ToolCalled name (take 200 (ch_str env (JObj []))),
      ToolReturned name (take 200 (tool_error env locale ''not_allowed'' [(''name'', JStr name)])) True]"
  using assms by (simp add: execute_tool_def parse_arguments_def yields_def emits_def Let_def)

end
