(* ===== verification/Access.thy ===== *)
theory Access
  imports Check_Handlers Orchestrator
begin

text \<open>
  Who may do what: tokens and the dependencies that read them (\<open>auth/dependencies.py\<close>), accounts and
  the endpoints that create and use them (\<open>auth/service.py\<close>, \<open>auth/router.py\<close>), preferences
  (\<open>users/service.py\<close>) and the keys requests are counted under (\<open>kit/rate_limit.py\<close>).  Signing and
  verifying tokens, hashing passwords and the peer address are parameters.
\<close>

subsection \<open>Rights\<close>

definition may_select_model :: "string \<Rightarrow> bool option \<Rightarrow> string list \<Rightarrow> bool" where
  "may_select_model role flag selectable_roles =
     (case flag of Some b \<Rightarrow> b | None \<Rightarrow> role \<in> set selectable_roles)"

definition may_view_agent_logs :: "string \<Rightarrow> bool option \<Rightarrow> string list \<Rightarrow> bool" where
  "may_view_agent_logs role flag viewer_roles =
     (case flag of Some b \<Rightarrow> b | None \<Rightarrow> role \<in> set viewer_roles)"

record current_user =
  cu_id :: json
  cu_role :: json
  cu_can_select :: bool
  cu_can_view_logs :: bool
  cu_is_active :: bool

definition can_view_session_activity :: "current_user \<Rightarrow> string \<Rightarrow> bool" where
  "can_view_session_activity u owner \<longleftrightarrow> cu_can_view_logs u \<and>
     (JStr owner = cu_id u \<or> cu_role u = JStr ''instructor'' \<or> cu_role u = JStr ''admin'')"

subsection \<open>Tokens\<close>

definition TOKEN_EXPIRE_MINUTES :: int where "TOKEN_EXPIRE_MINUTES = 5"

text \<open>The claims of a token; \<open>jwt_encode\<close> and \<open>jwt_decode\<close> sign and verify them with a secret.\<close>

definition token_claims :: "string \<Rightarrow> string \<Rightarrow> bool \<Rightarrow> bool \<Rightarrow> bool \<Rightarrow> time \<Rightarrow> dict" where
  "token_claims user_id role can_select can_view_logs is_active now =
     [(''sub'', JStr user_id), (''role'', JStr role), (''can_select'', JBool can_select),
      (''can_view_logs'', JBool can_view_logs), (''is_active'', JBool is_active),
      (''exp'', JInt (now + timedelta (60 * real_of_int TOKEN_EXPIRE_MINUTES))), (''iat'', JInt now)]"

definition create_backend_token ::
  "(dict \<Rightarrow> string \<Rightarrow> string) \<Rightarrow> string \<Rightarrow> string \<Rightarrow> string \<Rightarrow> bool \<Rightarrow> bool \<Rightarrow> bool \<Rightarrow> time \<Rightarrow> string" where
  "create_backend_token jwt_encode secret user_id role can_select can_view_logs is_active now =
     jwt_encode (token_claims user_id role can_select can_view_logs is_active now) secret"

datatype refusal = Refusal nat string

definition user_of_claims :: "dict \<Rightarrow> current_user option" where
  "user_of_claims payload =
     (if json_or_null (map_of payload ''sub'') = JNull then None
      else Some \<lparr>cu_id = json_or_null (map_of payload ''sub''), cu_role = json_or_null (map_of payload ''role''),
        cu_can_select = is_true (map_of payload ''can_select''),
        cu_can_view_logs = is_true (map_of payload ''can_view_logs''),
        cu_is_active = is_true (map_of payload ''is_active'')\<rparr>)"

definition get_current_user ::
  "(string \<Rightarrow> string \<Rightarrow> dict option) \<Rightarrow> string \<Rightarrow> string \<Rightarrow> refusal + current_user" where
  "get_current_user jwt_decode secret token =
     (case jwt_decode token secret of
        None \<Rightarrow> Inl (Refusal 401 ''Invalid or expired token'')
      | Some payload \<Rightarrow>
          (case user_of_claims payload of
             None \<Rightarrow> Inl (Refusal 401 ''Invalid token'') | Some u \<Rightarrow> Inr u))"

definition get_current_user_optional ::
  "(string \<Rightarrow> string \<Rightarrow> dict option) \<Rightarrow> string \<Rightarrow> string option \<Rightarrow> current_user option" where
  "get_current_user_optional jwt_decode secret credentials =
     Option.bind credentials (\<lambda>token. Option.bind (jwt_decode token secret) user_of_claims)"

definition verify_jwt_for_ws ::
  "(string \<Rightarrow> string \<Rightarrow> dict option) \<Rightarrow> string \<Rightarrow> string option \<Rightarrow> current_user option" where
  "verify_jwt_for_ws jwt_decode secret token =
     (if \<not> truthy token then None else Option.bind (jwt_decode (the token) secret) user_of_claims)"

definition require_admin :: "current_user \<Rightarrow> refusal + current_user" where
  "require_admin u = (if cu_role u \<noteq> JStr ''admin'' then Inl (Refusal 403 ''Admin only'') else Inr u)"

definition require_instructor :: "current_user \<Rightarrow> refusal + current_user" where
  "require_instructor u =
     (if cu_role u \<notin> {JStr ''instructor'', JStr ''admin''} then Inl (Refusal 403 ''Instructor only'') else Inr u)"

text \<open>Authorizes a server by the shared secret; without one nobody is let in.\<close>

definition require_internal_caller :: "string option \<Rightarrow> string \<Rightarrow> refusal + unit" where
  "require_internal_caller expected presented =
     (if \<not> truthy expected \<or> presented \<noteq> the expected then Inl (Refusal 401 ''Invalid internal token'') else Inr ())"

subsection \<open>Accounts\<close>

record oauth_account =
  oa_user_id :: string
  oa_type :: string
  oa_provider :: string
  oa_provider_account_id :: string

record account = user +
  xu_image :: "string option"
  xu_password_hash :: "string option"
  xu_can_select_model :: "bool option"
  xu_can_view_agent_logs :: "bool option"
  xu_default_model_id :: "string option"

record login_session =
  gs_id :: string
  gs_user_id :: string
  gs_expires :: time

record accounts_db =
  ad_users :: "account list"
  ad_participants :: "string list"
  ad_oauth :: "oauth_account list"
  ad_logins :: "login_session list"

definition get_user_by_email :: "accounts_db \<Rightarrow> string \<Rightarrow> account option" where
  "get_user_by_email d email = List.find (\<lambda>u. us_email u = Some email) (ad_users d)"

definition get_user :: "accounts_db \<Rightarrow> string \<Rightarrow> account option" where
  "get_user d i = List.find (\<lambda>u. us_id u = i) (ad_users d)"

text \<open>A new row; \<open>new_id\<close> is the identifier it is given.\<close>

definition new_account :: "string \<Rightarrow> string \<Rightarrow> string option \<Rightarrow> string option \<Rightarrow> string option \<Rightarrow> account" where
  "new_account new_id email password_hash name picture =
     \<lparr>us_id = new_id, us_email = Some email, us_name = name, us_role = ''student'', us_experiment_group = None,
      us_control_arm = None, us_is_simulated = False, us_is_active = False, xu_image = picture,
      xu_password_hash = password_hash, xu_can_select_model = None, xu_can_view_agent_logs = None,
      xu_default_model_id = None\<rparr>"

text \<open>The e-mail is unique: a second row of it is refused and nothing is stored.\<close>

definition create_user ::
  "string \<Rightarrow> string \<Rightarrow> string \<Rightarrow> string option \<Rightarrow> accounts_db \<Rightarrow> (string + account) \<times> accounts_db" where
  "create_user new_id email password_hash name d =
     (if get_user_by_email d email \<noteq> None then (Inl email, d)
      else let u = new_account new_id email (Some password_hash) name None
        in (Inr u, d\<lparr>ad_users := ad_users d @ [u], ad_participants := ad_participants d @ [new_id]\<rparr>))"

text \<open>Deleting a user cascades to the rows that reference it.\<close>

definition delete_user :: "string \<Rightarrow> accounts_db \<Rightarrow> bool \<times> accounts_db" where
  "delete_user i d =
     (if get_user d i = None then (False, d)
      else (True, d\<lparr>ad_users := filter (\<lambda>u. us_id u \<noteq> i) (ad_users d),
        ad_participants := filter (\<lambda>p. p \<noteq> i) (ad_participants d),
        ad_oauth := filter (\<lambda>a. oa_user_id a \<noteq> i) (ad_oauth d),
        ad_logins := filter (\<lambda>s. gs_user_id s \<noteq> i) (ad_logins d)\<rparr>))"

definition is_github :: "string \<Rightarrow> oauth_account \<Rightarrow> bool" where
  "is_github i a \<longleftrightarrow> oa_user_id a = i \<and> oa_provider a = ''github''"

fun update_first :: "('a \<Rightarrow> bool) \<Rightarrow> ('a \<Rightarrow> 'a) \<Rightarrow> 'a list \<Rightarrow> 'a list" where
  "update_first P f [] = []"
| "update_first P f (x # xs) = (if P x then f x # xs else x # update_first P f xs)"

definition link_github :: "string \<Rightarrow> string \<Rightarrow> accounts_db \<Rightarrow> accounts_db" where
  "link_github i provider_account_id d =
     (if list_ex (is_github i) (ad_oauth d)
      then d\<lparr>ad_oauth := update_first (is_github i) (\<lambda>a. a\<lparr>oa_provider_account_id := provider_account_id\<rparr>) (ad_oauth d)\<rparr>
      else d\<lparr>ad_oauth := ad_oauth d @ [\<lparr>oa_user_id = i, oa_type = ''oauth'', oa_provider = ''github'',
        oa_provider_account_id = provider_account_id\<rparr>]\<rparr>)"

definition upsert_github_user ::
  "string \<Rightarrow> string \<Rightarrow> string option \<Rightarrow> string option \<Rightarrow> string \<Rightarrow> accounts_db \<Rightarrow> string \<times> accounts_db" where
  "upsert_github_user new_id email name picture provider_account_id d =
     (let (i, d1) = (case get_user_by_email d email of
            Some u \<Rightarrow> (us_id u, d)
          | None \<Rightarrow> (new_id, d\<lparr>ad_users := ad_users d @ [new_account new_id email None name picture],
              ad_participants := ad_participants d @ [new_id]\<rparr>));
          d2 = link_github i provider_account_id d1
      in (i, d2\<lparr>ad_users := map (\<lambda>u. if us_id u = i
           then u\<lparr>us_name := (if truthy name then name else us_name u),
             xu_image := (if truthy picture then picture else xu_image u)\<rparr> else u) (ad_users d2)\<rparr>))"

subsection \<open>Endpoints\<close>

definition DUMMY_PASSWORD_HASH :: string where
  "DUMMY_PASSWORD_HASH = ''$2b$12$TeB0zzsK5D5Talyf.5zzxeZVfC3LYKj6tfMwI8vTkkRageTwLWMRe''"

text \<open>An exception no handler of the application renders.\<close>

datatype 'a answer = Answered 'a | Refused refusal | Unhandled string

text \<open>Between the look-up and the insertion the password is hashed in a thread: the insertion meets the
  database \<open>d'\<close>.\<close>

definition register ::
  "(string \<Rightarrow> string) \<Rightarrow> string \<Rightarrow> string \<Rightarrow> string \<Rightarrow> string option \<Rightarrow> accounts_db \<Rightarrow> accounts_db \<Rightarrow>
   account answer \<times> accounts_db" where
  "register bcrypt_hash new_id email password name d d' =
     (if get_user_by_email d email \<noteq> None then (Refused (Refusal 409 ''error.auth.email_taken''), d')
      else case create_user new_id email (bcrypt_hash password) name d' of
        (Inl e, d1) \<Rightarrow> (Unhandled e, d1)
      | (Inr u, d1) \<Rightarrow> (Answered u, d1))"

text \<open>\<open>login\<close>, with how many passwords were checked.\<close>

definition login ::
  "(string \<Rightarrow> string \<Rightarrow> bool) \<Rightarrow> string \<Rightarrow> string \<Rightarrow> accounts_db \<Rightarrow> account answer \<times> string list" where
  "login bcrypt_check email password d =
     (let refused = Refused (Refusal 401 ''error.auth.invalid_credentials'')
      in case get_user_by_email d email of
           None \<Rightarrow> (refused, [DUMMY_PASSWORD_HASH])
         | Some u \<Rightarrow>
             if \<not> truthy (xu_password_hash u) then (refused, [DUMMY_PASSWORD_HASH])
             else (if bcrypt_check password (the (xu_password_hash u)) then Answered u else refused,
               [the (xu_password_hash u)]))"

definition exchange ::
  "(dict \<Rightarrow> string \<Rightarrow> string) \<Rightarrow> string \<Rightarrow> string list \<Rightarrow> string list \<Rightarrow> time \<Rightarrow> string \<Rightarrow> accounts_db \<Rightarrow> string answer"
  where
  "exchange jwt_encode secret selectable_roles viewer_roles now email d =
     (case get_user_by_email d email of
        None \<Rightarrow> Refused (Refusal 401 ''error.user.not_found'')
      | Some u \<Rightarrow> Answered (create_backend_token jwt_encode secret (us_id u) (us_role u)
          (may_select_model (us_role u) (xu_can_select_model u) selectable_roles)
          (may_view_agent_logs (us_role u) (xu_can_view_agent_logs u) viewer_roles) (us_is_active u) now))"

definition activate :: "string \<Rightarrow> accounts_db \<Rightarrow> refusal option \<times> accounts_db" where
  "activate email d =
     (if get_user_by_email d email = None then (Some (Refusal 404 ''error.user.not_found''), d)
      else (None, d\<lparr>ad_users := update_first (\<lambda>u. us_email u = Some email) (\<lambda>u. u\<lparr>us_is_active := True\<rparr>) (ad_users d)\<rparr>))"

text \<open>A token that says active is believed; otherwise the row decides.\<close>

definition require_active_user :: "accounts_db \<Rightarrow> current_user \<Rightarrow> refusal + current_user" where
  "require_active_user d u =
     (if cu_is_active u then Inr u
      else if \<exists>row \<in> set (ad_users d). JStr (us_id row) = cu_id u \<and> us_is_active row
      then Inr (u\<lparr>cu_is_active := True\<rparr>)
      else Inl (Refusal 403 ''error.auth.inactive_account''))"

subsection \<open>Preferences and logins\<close>

definition set_default_model ::
  "agents_config \<Rightarrow> string \<Rightarrow> string option \<Rightarrow> bool \<Rightarrow> accounts_db \<Rightarrow> refusal option \<times> accounts_db" where
  "set_default_model cfg user_id model_id can_select d =
     (if get_user d user_id = None then (Some (Refusal 404 ''error.user.not_found''), d)
      else if model_id \<noteq> None \<and> \<not> can_select then (Some (Refusal 403 ''error.user.model_selection_denied''), d)
      else if model_id \<noteq> None \<and> get_entry cfg (the model_id) = None
      then (Some (Refusal 422 ''error.user.unknown_model''), d)
      else (None, d\<lparr>ad_users := map (\<lambda>u. if us_id u = user_id then u\<lparr>xu_default_model_id := model_id\<rparr> else u)
        (ad_users d)\<rparr>))"

definition list_login_sessions :: "string \<Rightarrow> accounts_db \<Rightarrow> login_session list" where
  "list_login_sessions user_id d =
     sort_key (\<lambda>s. - gs_expires s) (filter (\<lambda>s. gs_user_id s = user_id) (ad_logins d))"

definition revoke_login_session :: "string \<Rightarrow> string \<Rightarrow> accounts_db \<Rightarrow> (refusal + nat) \<times> accounts_db" where
  "revoke_login_session user_id session_id d =
     (if \<not> list_ex (\<lambda>s. gs_id s = session_id \<and> gs_user_id s = user_id) (ad_logins d)
      then (Inl (Refusal 404 ''error.session.not_found''), d)
      else (Inr 1, d\<lparr>ad_logins := filter (\<lambda>s. \<not> (gs_id s = session_id \<and> gs_user_id s = user_id)) (ad_logins d)\<rparr>))"

definition revoke_all_login_sessions :: "string \<Rightarrow> accounts_db \<Rightarrow> nat \<times> accounts_db" where
  "revoke_all_login_sessions user_id d =
     (count_if (\<lambda>s. gs_user_id s = user_id) (ad_logins d),
      d\<lparr>ad_logins := filter (\<lambda>s. gs_user_id s \<noteq> user_id) (ad_logins d)\<rparr>)"

subsection \<open>Keys of the rate limits\<close>

definition TRUSTED_PROXY_HOPS :: nat where "TRUSTED_PROXY_HOPS = 1"

record request =
  rq_forwarded :: string
  rq_authorization :: string
  rq_remote :: string
  rq_user :: "string option"
  rq_session_id :: "string option"
  rq_subject :: "string option"

definition client_ip :: "request \<Rightarrow> string" where
  "client_ip r =
     (let parts = filter (\<lambda>p. p \<noteq> []) (map strip (split_on (CHR '','') (rq_forwarded r)))
      in if TRUSTED_PROXY_HOPS \<le> length parts then parts ! (length parts - TRUSTED_PROXY_HOPS) else rq_remote r)"

definition presented_token :: "string \<Rightarrow> string" where
  "presented_token header = (if lower (take 7 header) = ''bearer '' then drop 7 header else [])"

definition is_trusted_relay :: "string option \<Rightarrow> request \<Rightarrow> bool" where
  "is_trusted_relay expected r \<longleftrightarrow>
     truthy expected \<and> presented_token (rq_authorization r) \<noteq> [] \<and> presented_token (rq_authorization r) = the expected"

definition trusted_client_ip :: "string option \<Rightarrow> request \<Rightarrow> string" where
  "trusted_client_ip expected r = (if is_trusted_relay expected r then client_ip r else rq_remote r)"

definition rate_limit_key :: "request \<Rightarrow> string" where
  "rate_limit_key r =
     (let sid = (case rq_session_id r of Some s \<Rightarrow> s | None \<Rightarrow> ''unknown'')
      in case rq_user r of
           None \<Rightarrow> ''ip:'' @ client_ip r @ '':'' @ sid
         | Some u \<Rightarrow> ''user:'' @ u @ '':'' @ sid)"

definition exchange_rate_limit_key :: "request \<Rightarrow> string" where
  "exchange_rate_limit_key r =
     (if truthy (rq_subject r) then ''exchange:user:'' @ the (rq_subject r) else ''exchange:ip:'' @ client_ip r)"

definition credentials_rate_limit_key :: "string option \<Rightarrow> request \<Rightarrow> string" where
  "credentials_rate_limit_key expected r =
     ''credentials:'' @ trusted_client_ip expected r @ '':'' @ (if truthy (rq_subject r) then the (rq_subject r) else ''-'')"

definition address_rate_limit_key :: "string option \<Rightarrow> request \<Rightarrow> string" where
  "address_rate_limit_key expected r = ''address:'' @ trusted_client_ip expected r"

end
