(* ===== verification/Access_Properties.thy ===== *)
theory Access_Properties
  imports Access
begin

text \<open>
  Properties of access: what a token says, what a refused login reveals, whose address a request is
  counted under, and that nobody is let in who was not activated.
\<close>

subsection \<open>Tokens\<close>

text \<open>C29. Where the library verifies what it signed, a token exchanged for an e-mail tells every reader
  exactly the rights of the account with that e-mail: its role, the activation, and each toggle with the
  role's default where it is not set.\<close>

theorem token_tells_the_rights:
  assumes "exchange jwt_encode secret selectable viewers now email d = Answered token"
    and jwt: "\<forall>p. jwt_encode p secret = token \<longrightarrow> jwt_decode token secret = Some p" and "token \<noteq> []"
  shows "\<exists>u. get_user_by_email d email = Some u \<and>
    (let rights = \<lparr>cu_id = JStr (us_id u), cu_role = JStr (us_role u),
       cu_can_select = (case xu_can_select_model u of Some b \<Rightarrow> b | None \<Rightarrow> us_role u \<in> set selectable),
       cu_can_view_logs = (case xu_can_view_agent_logs u of Some b \<Rightarrow> b | None \<Rightarrow> us_role u \<in> set viewers),
       cu_is_active = us_is_active u\<rparr>
     in get_current_user jwt_decode secret token = Inr rights \<and>
        verify_jwt_for_ws jwt_decode secret (Some token) = Some rights)"
proof -
  obtain u where u: "get_user_by_email d email = Some u" and t: "create_backend_token jwt_encode secret
      (us_id u) (us_role u) (may_select_model (us_role u) (xu_can_select_model u) selectable)
      (may_view_agent_logs (us_role u) (xu_can_view_agent_logs u) viewers) (us_is_active u) now = token"
    using assms(1) by (auto simp: exchange_def split: option.splits)
  have "jwt_decode token secret = Some (token_claims (us_id u) (us_role u)
      (may_select_model (us_role u) (xu_can_select_model u) selectable)
      (may_view_agent_logs (us_role u) (xu_can_view_agent_logs u) viewers) (us_is_active u) now)"
    using jwt t unfolding create_backend_token_def by blast
  then show ?thesis using u assms(3)
    by (simp add: get_current_user_def verify_jwt_for_ws_def user_of_claims_def token_claims_def
        json_or_null_def may_select_model_def may_view_agent_logs_def Let_def)
qed

definition sample_account :: account where
  "sample_account = new_account ''1'' ''a@b.c'' (Some ''hash'') None None"

definition sample_accounts :: accounts_db where
  "sample_accounts = \<lparr>ad_users = [sample_account], ad_participants = [''1''], ad_oauth = [], ad_logins = []\<rparr>"

lemmas sample_account_defs = sample_accounts_def sample_account_def new_account_def get_user_by_email_def

abbreviation sample_claims :: dict where
  "sample_claims \<equiv> token_claims ''1'' ''student'' True False False 0"

abbreviation sample_encode :: "dict \<Rightarrow> string \<Rightarrow> string" where
  "sample_encode \<equiv> \<lambda>p _. if p = sample_claims then ''x'' else ''y''"

theorem token_tells_the_rights_witness:
  "exchange sample_encode ''k'' [''student''] [] 0 ''a@b.c'' sample_accounts = Answered ''x'' \<and>
   map_sum id cu_can_select (get_current_user (\<lambda>_ _. Some sample_claims) ''k'' ''x'') = Inr True"
proof -
  have e: "exchange sample_encode ''k'' [''student''] [] 0 ''a@b.c'' sample_accounts = Answered ''x''"
    by (simp add: exchange_def sample_account_defs create_backend_token_def may_select_model_def
        may_view_agent_logs_def)
  from token_tells_the_rights [OF e, of "\<lambda>_ _. Some sample_claims"] e show ?thesis
    by (auto simp: sample_account_defs Let_def)
qed

subsection \<open>Logging in\<close>

text \<open>A login answers with the account exactly when the e-mail has one with a password and the password
  matches; every other login gets one and the same refusal, and either way exactly one password is
  checked, so neither the answer nor the work tells whether the e-mail is known.\<close>

theorem refused_logins_look_alike:
  "(fst (login check email password d) = Answered u \<longleftrightarrow>
      (get_user_by_email d email = Some u \<and> truthy (xu_password_hash u) \<and> check password (the (xu_password_hash u)))) \<and>
   (fst (login check email password d) = Refused (Refusal 401 ''error.auth.invalid_credentials'') \<or>
      (\<exists>v. fst (login check email password d) = Answered v)) \<and>
   length (snd (login check email password d)) = 1"
  by (auto simp: login_def Let_def split: option.split)

subsection \<open>Addresses\<close>

lemma split_on_whole: "c \<notin> set b \<Longrightarrow> split_on c b = [b]"
  by (induction b) auto

lemma split_on_last:
  "c \<notin> set b \<Longrightarrow> tl (split_on c (a @ c # b)) \<noteq> [] \<and> last (split_on c (a @ c # b)) = b"
proof (induction a)
  case (Cons x a)
  then show ?case by (cases "split_on c (a @ c # b)") (auto split: if_splits)
qed (simp add: split_on_whole)

lemma last_filter: "xs \<noteq> [] \<Longrightarrow> P (last xs) \<Longrightarrow> filter P xs \<noteq> [] \<and> last (filter P xs) = last xs"
  by (induction xs rule: rev_induct) auto

text \<open>What a client writes into the forwarding header itself does not change the address it is counted
  under: only the entry the proxy appended counts; and for a caller without the internal token no part
  of the header counts.\<close>

theorem forwarded_address_not_forgeable:
  assumes "rq_forwarded r = claimed @ '','' @ peer" and "CHR '','' \<notin> set peer" and "strip peer \<noteq> []"
  shows "client_ip r = strip peer \<and>
    (\<not> is_trusted_relay expected r \<longrightarrow> address_rate_limit_key expected r = ''address:'' @ rq_remote r)"
proof -
  define parts where "parts = map strip (split_on (CHR '','') (rq_forwarded r))"
  have "parts \<noteq> [] \<and> last parts = strip peer"
    using split_on_last [OF assms(2), of claimed] by (simp add: parts_def assms(1) last_map)
  then have l: "filter (\<lambda>p. p \<noteq> []) parts \<noteq> []" "last (filter (\<lambda>p. p \<noteq> []) parts) = strip peer"
    using last_filter [of parts "\<lambda>p. p \<noteq> []"] assms(3) by auto
  then have "client_ip r = strip peer"
    unfolding client_ip_def Let_def TRUSTED_PROXY_HOPS_def parts_def [symmetric]
    by (simp add: last_conv_nth Suc_le_eq)
  then show ?thesis by (simp add: address_rate_limit_key_def trusted_client_ip_def)
qed

abbreviation sample_request :: request where
  "sample_request \<equiv> \<lparr>rq_forwarded = ''9.9.9.9, 10.0.0.1'', rq_authorization = [], rq_remote = ''172.16.0.1'',
     rq_user = None, rq_session_id = None, rq_subject = None\<rparr>"

theorem forwarded_address_not_forgeable_witness:
  "client_ip sample_request = ''10.0.0.1'' \<and> address_rate_limit_key (Some ''t'') sample_request = ''address:172.16.0.1''"
proof -
  have "strip '' 10.0.0.1'' = ''10.0.0.1''" by code_simp
  moreover have "\<not> is_trusted_relay (Some ''t'') sample_request" by (simp add: is_trusted_relay_def presented_token_def)
  ultimately show ?thesis
    using forwarded_address_not_forgeable [of sample_request "''9.9.9.9''" "'' 10.0.0.1''" "Some ''t''"] by simp
qed

subsection \<open>Accounts\<close>

datatype account_event =
    Register string string string "string option"
  | GitHub string string "string option" "string option" string
  | Activate string
  | Delete string
  | Prefer agents_config string "string option" bool

definition account_step :: "account_event \<Rightarrow> accounts_db \<Rightarrow> accounts_db" where
  "account_step e d =
     (case e of
        Register i email h name \<Rightarrow> snd (create_user i email h name d)
      | GitHub i email name img p \<Rightarrow> snd (upsert_github_user i email name img p d)
      | Activate email \<Rightarrow> snd (activate email d)
      | Delete i \<Rightarrow> snd (delete_user i d)
      | Prefer cfg i m can \<Rightarrow> snd (set_default_model cfg i m can d))"

text \<open>E-mails are unique, and whoever is active was activated.\<close>

definition emails :: "accounts_db \<Rightarrow> string option list" where
  "emails d = map us_email (ad_users d)"

definition accounts_ok :: "string set \<Rightarrow> accounts_db \<Rightarrow> bool" where
  "accounts_ok activated d \<longleftrightarrow> distinct (emails d) \<and>
     (\<forall>u \<in> set (ad_users d). us_is_active u \<longrightarrow> (\<exists>e \<in> activated. us_email u = Some e))"

lemma no_email: "get_user_by_email d e = None \<longleftrightarrow> Some e \<notin> set (emails d)"
  by (force simp: get_user_by_email_def emails_def find_None_iff)

lemma add_account_ok:
  assumes "accounts_ok s d" and "get_user_by_email d e = None"
  shows "accounts_ok s (d\<lparr>ad_users := ad_users d @ [new_account i e h n g], ad_participants := ps\<rparr>)"
  using assms no_email [of d e] by (auto simp: accounts_ok_def emails_def new_account_def)

lemma change_accounts_ok:
  assumes "accounts_ok s d" and "\<And>u. us_email (f u) = us_email u" and "\<And>u. us_is_active (f u) = us_is_active u"
  shows "accounts_ok s (d\<lparr>ad_users := map f (ad_users d)\<rparr>)"
proof -
  have "map us_email (map f (ad_users d)) = map us_email (ad_users d)" using assms(2) by simp
  then have "emails (d\<lparr>ad_users := map f (ad_users d)\<rparr>) = emails d" by (simp add: emails_def)
  with assms show ?thesis by (auto simp: accounts_ok_def)
qed

lemma accounts_ok_oauth: "accounts_ok s (d\<lparr>ad_oauth := x\<rparr>) = accounts_ok s d"
  by (simp add: accounts_ok_def emails_def)

lemma link_github_ok: "accounts_ok s (link_github i p d) = accounts_ok s d"
  by (simp add: link_github_def accounts_ok_oauth)

lemma upsert_ok: "accounts_ok s d \<Longrightarrow> accounts_ok s (snd (upsert_github_user i email name img p d))"
proof (cases "get_user_by_email d email")
  case None
  assume "accounts_ok s d"
  from change_accounts_ok [OF link_github_ok [THEN iffD2, OF add_account_ok [OF this None]]] show ?thesis
    using None by (simp add: upsert_github_user_def Let_def)
next
  case (Some u)
  assume "accounts_ok s d"
  from change_accounts_ok [OF link_github_ok [THEN iffD2, OF this]] show ?thesis
    using Some by (simp add: upsert_github_user_def Let_def)
qed

lemma activate_emails: "map us_email (update_first P (\<lambda>u. u\<lparr>us_is_active := True\<rparr>) us) = map us_email us"
  by (induction us) auto

lemma activate_members: "u \<in> set (update_first P (\<lambda>u. u\<lparr>us_is_active := True\<rparr>) us) \<Longrightarrow>
  u \<in> set us \<or> (\<exists>v \<in> set us. P v \<and> us_email u = us_email v)"
  by (induction us) (auto split: if_splits)

lemma activate_ok: "accounts_ok s d \<Longrightarrow> accounts_ok (insert email s) (snd (activate email d))"
proof -
  assume ok: "accounts_ok s d"
  let ?us = "update_first (\<lambda>u. us_email u = Some email) (\<lambda>u. u\<lparr>us_is_active := True\<rparr>) (ad_users d)"
  have "accounts_ok (insert email s) (d\<lparr>ad_users := ?us\<rparr>)"
    using ok activate_members unfolding accounts_ok_def emails_def
    by (fastforce simp: activate_emails)
  moreover have "accounts_ok (insert email s) d" using ok by (auto simp: accounts_ok_def)
  ultimately show ?thesis by (simp add: activate_def)
qed

fun activated :: "account_event list \<Rightarrow> string set" where
  "activated [] = {}"
| "activated (Activate e # es) = insert e (activated es)"
| "activated (_ # es) = activated es"

lemma account_step_ok: "accounts_ok s d \<Longrightarrow> accounts_ok (activated [e] \<union> s) (account_step e d)"
proof (cases e)
  case (Register i email h name)
  moreover assume "accounts_ok s d"
  ultimately show ?thesis using add_account_ok by (simp add: account_step_def create_user_def Let_def)
next
  case (Delete i)
  moreover assume "accounts_ok s d"
  moreover have "distinct (map us_email (filter P us))" if "distinct (map us_email us)" for P us
    using that by (simp add: distinct_map_filter)
  ultimately show ?thesis by (auto simp: account_step_def delete_user_def accounts_ok_def emails_def)
next
  case (Prefer cfg i m can)
  moreover assume ok: "accounts_ok s d"
  ultimately show ?thesis
    using change_accounts_ok [OF ok, of "\<lambda>u. if us_id u = i then u\<lparr>xu_default_model_id := m\<rparr> else u"]
    by (simp add: account_step_def set_default_model_def)
qed (simp_all add: account_step_def upsert_ok activate_ok)

lemma account_run_ok: "accounts_ok s d \<Longrightarrow> accounts_ok (activated es \<union> s) (fold account_step es d)"
proof (induction es arbitrary: s d)
  case (Cons e es)
  have "activated (e # es) = activated es \<union> activated [e]" by (cases e) auto
  then show ?case using Cons.IH [OF account_step_ok [OF Cons.prems, of e]] by (simp add: Un_assoc)
qed simp


abbreviation sample_events :: "account_event list" where
  "sample_events \<equiv> [Register ''1'' ''a@b.c'' ''h'' None, Activate ''a@b.c'']"


text \<open>A registration that loses the race for an e-mail is not answered with the conflict.\<close>

lemma lost_registration_unhandled:
  assumes "get_user_by_email d email = None" and "get_user_by_email d' email \<noteq> None"
  shows "fst (register hash i email password name d d') = Unhandled email"
  using assms by (simp add: register_def create_user_def)

end
