(* ===== verification/Data_Registry.thy ===== *)
theory Data_Registry
  imports Validation
begin

text \<open>
  The registry of tables an administrator may read and a learner's data is exported from and erased
  with (\<open>admin/data_registry.py\<close>, \<open>users/data_export.py\<close>), over a database of generic rows: every
  table has the columns and foreign keys its class declares (\<open>models/*.py\<close>).
\<close>

datatype cell =
    CNull | CBool bool | CInt int | CReal real | CStr string | CTime time | CEnum string
  | CUuid string | CJson json

type_synonym row = "(string \<times> cell) list"
type_synonym store = "string \<Rightarrow> row list"

definition cell_of :: "row \<Rightarrow> string \<Rightarrow> cell" where
  "cell_of r c = (case map_of r c of Some v \<Rightarrow> v | None \<Rightarrow> CNull)"

definition set_null :: "string \<Rightarrow> row \<Rightarrow> row" where
  "set_null c r = map (\<lambda>(k, v). (k, if k = c then CNull else v)) r"

subsection \<open>The tables\<close>

datatype on_delete = Cascade | SetNull

record table_model =
  tb_columns :: "string list"
  tb_keys :: "(string \<times> string \<times> on_delete) list"

definition models_identity :: "(string \<times> table_model) list" where
  "models_identity =
     [(''users'', \<lparr>tb_columns = [''id'', ''name'', ''email'', ''email_verified'', ''image'',
        ''password_hash'', ''role'', ''experiment_group'', ''control_arm'', ''can_select_model'',
        ''can_view_agent_logs'', ''is_simulated'', ''default_model_id'', ''is_active''],
        tb_keys = []\<rparr>),
      (''accounts'', \<lparr>tb_columns = [''id'', ''user_id'', ''type'', ''provider'',
        ''provider_account_id'', ''refresh_token'', ''access_token'', ''expires_at'', ''token_type'',
        ''scope'', ''id_token'', ''session_state''],
        tb_keys = [(''user_id'', ''users'', Cascade)]\<rparr>),
      (''sessions'', \<lparr>tb_columns = [''id'', ''session_token'', ''user_id'', ''expires''],
        tb_keys = [(''user_id'', ''users'', Cascade)]\<rparr>),
      (''verification_tokens'', \<lparr>tb_columns = [''identifier'', ''token'', ''expires''],
        tb_keys = []\<rparr>),
      (''study_participants'', \<lparr>tb_columns = [''id'', ''user_id'', ''pseudonym'', ''enrolled_at'',
        ''withdrawn_at''],
        tb_keys = [(''user_id'', ''users'', Cascade)]\<rparr>)]"

definition models_learning :: "(string \<times> table_model) list" where
  "models_learning =
     [(''learning_sessions'', \<lparr>tb_columns = [''id'', ''user_id'', ''lab_slug'', ''status'',
        ''started_at'', ''ended_at'', ''last_seen_at'', ''paused_at'', ''expires_at'', ''research_id'',
        ''meta'', ''model_id'', ''locale''],
        tb_keys = [(''user_id'', ''users'', Cascade), (''lab_slug'', ''labs'',
        Cascade)]\<rparr>),
      (''course_progress'', \<lparr>tb_columns = [''id'', ''user_id'', ''course_slug'', ''status'', ''score'',
        ''started_at'', ''completed_at'', ''updated_at''],
        tb_keys = [(''user_id'', ''users'', Cascade), (''course_slug'', ''courses'',
        Cascade)]\<rparr>),
      (''lab_progress'', \<lparr>tb_columns = [''id'', ''user_id'', ''lab_slug'', ''status'', ''score'',
        ''current_step'', ''started_at'', ''completed_at'', ''updated_at''],
        tb_keys = [(''user_id'', ''users'', Cascade), (''lab_slug'', ''labs'',
        Cascade)]\<rparr>),
      (''step_attempts'', \<lparr>tb_columns = [''id'', ''user_id'', ''lab_slug'', ''step_slug'',
        ''attempt_number'', ''result'', ''score'', ''error_details'', ''started_at'', ''ended_at''],
        tb_keys = [(''user_id'', ''users'', Cascade), (''lab_slug'', ''labs'',
        Cascade)]\<rparr>),
      (''validation_runs'', \<lparr>tb_columns = [''id'', ''session_id'', ''lab_slug'', ''status'', ''steps'',
        ''started_at'', ''finished_at''],
        tb_keys = [(''session_id'', ''learning_sessions'', Cascade)]\<rparr>),
      (''chat_messages'', \<lparr>tb_columns = [''id'', ''session_id'', ''role'', ''parts'', ''usage'',
        ''created_at''],
        tb_keys = [(''session_id'', ''learning_sessions'', Cascade)]\<rparr>)]"

definition models_research :: "(string \<times> table_model) list" where
  "models_research =
     [(''behavioral_events'', \<lparr>tb_columns = [''id'', ''session_id'', ''user_id'', ''lab_slug'',
        ''timestamp'', ''event_type'', ''component_id'', ''component_type'', ''action'',
        ''raw_command'', ''success'', ''severity'', ''message'', ''extra_data'', ''created_at''],
        tb_keys = [(''session_id'', ''learning_sessions'', Cascade), (''user_id'', ''users'',
        Cascade), (''lab_slug'', ''labs'', Cascade)]\<rparr>),
      (''process_state_samples'', \<lparr>tb_columns = [''id'', ''session_id'', ''user_id'', ''lab_slug'',
        ''ts'', ''regime'', ''dwell_seconds'', ''created_at''],
        tb_keys = [(''session_id'', ''learning_sessions'', Cascade), (''user_id'', ''users'',
        Cascade)]\<rparr>),
      (''intervention_decisions'', \<lparr>tb_columns = [''id'', ''session_id'', ''user_id'', ''lab_slug'',
        ''spell_id'', ''ts'', ''regime'', ''dwell_seconds'', ''t_k_applied'', ''assignment'',
        ''subsequent_exit_ts'', ''censored'', ''created_at''],
        tb_keys = [(''session_id'', ''learning_sessions'', Cascade), (''user_id'', ''users'',
        Cascade)]\<rparr>),
      (''regime_annotations'', \<lparr>tb_columns = [''id'', ''session_id'', ''coder_id'', ''window_index'',
        ''regime_label'', ''is_gold'', ''created_at''],
        tb_keys = [(''session_id'', ''learning_sessions'', Cascade)]\<rparr>),
      (''grounding_comparisons'', \<lparr>tb_columns = [''id'', ''session_id'', ''grounded_text'',
        ''ungrounded_text'', ''ts'', ''created_at''],
        tb_keys = [(''session_id'', ''learning_sessions'', Cascade)]\<rparr>),
      (''cycle_latency_samples'', \<lparr>tb_columns = [''id'', ''session_id'', ''stage'', ''duration_ms'',
        ''ts'', ''created_at''],
        tb_keys = [(''session_id'', ''learning_sessions'', Cascade)]\<rparr>),
      (''session_evidence_snapshots'', \<lparr>tb_columns = [''id'', ''session_id'', ''user_id'',
        ''lab_slug'', ''ts'', ''kind'', ''payload'', ''created_at''],
        tb_keys = [(''session_id'', ''learning_sessions'', Cascade), (''user_id'', ''users'',
        Cascade)]\<rparr>),
      (''experiment_metrics'', \<lparr>tb_columns = [''id'', ''session_id'', ''user_id'', ''lab_slug'',
        ''experiment_group'', ''agent_backend'', ''total_time_seconds'', ''steps_completed'',
        ''total_errors'', ''repeated_errors'', ''unique_error_types'', ''interventions_received'',
        ''interventions_succeeded'', ''interventions_failed'', ''interventions_accepted'',
        ''control_arm'', ''base_arm'', ''escalations'', ''would_interventions'', ''l1_interventions'',
        ''l2_unassisted_pass'', ''final_score'', ''completed'', ''completed_at'', ''created_at''],
        tb_keys = [(''session_id'', ''learning_sessions'', Cascade), (''user_id'', ''users'',
        Cascade)]\<rparr>)]"

definition models_audit :: "(string \<times> table_model) list" where
  "models_audit =
     [(''mcp_audit'', \<lparr>tb_columns = [''id'', ''user_id'', ''session_id'', ''tool'', ''kind'', ''ts'',
        ''success'', ''error'', ''consent_ref'', ''lab_slug''],
        tb_keys = []\<rparr>),
      (''platform_events'', \<lparr>tb_columns = [''id'', ''event_name'', ''user_id'', ''session_id'',
        ''device_id'', ''properties'', ''client_ts'', ''server_ts''],
        tb_keys = [(''user_id'', ''users'', SetNull), (''session_id'', ''learning_sessions'',
        SetNull)]\<rparr>),
      (''agent_activity_events'', \<lparr>tb_columns = [''id'', ''session_id'', ''user_id'', ''ts'',
        ''source'', ''kind'', ''agent'', ''severity'', ''summary'', ''detail''],
        tb_keys = []\<rparr>),
      (''consents'', \<lparr>tb_columns = [''id'', ''user_id'', ''scope'', ''decision'', ''policy_version'',
        ''observe'', ''act'', ''granted_at'', ''revoked_at'', ''data_policy''],
        tb_keys = []\<rparr>)]"

definition MODELS :: "(string \<times> table_model) list" where
  "MODELS = models_identity @ models_learning @ models_research @ models_audit"

definition columns_of :: "string \<Rightarrow> string list" where
  "columns_of t = (case map_of MODELS t of Some m \<Rightarrow> tb_columns m | None \<Rightarrow> [])"

text \<open>\<open>hasattr(model, c)\<close> for a column's name.\<close>

definition has_column :: "string \<Rightarrow> string \<Rightarrow> bool" where
  "has_column t c \<longleftrightarrow> c \<in> set (columns_of t)"

subsection \<open>The registry\<close>

record table_spec =
  ts_columns :: "string list"
  ts_sortable :: "string list"
  ts_searchable :: "string list"
  ts_masked :: "string list"
  ts_default_sort :: string

definition LOG_TABLES :: "(string \<times> table_spec) list" where
  "LOG_TABLES =
    [(''mcp_audit'',
      \<lparr>ts_columns = [''id'', ''user_id'', ''session_id'', ''tool'', ''kind'', ''ts'',
        ''success'', ''error'', ''consent_ref'', ''lab_slug''],
       ts_sortable = [''id'', ''ts'', ''user_id'', ''session_id'', ''kind'', ''tool''],
       ts_searchable = [''id'', ''user_id'', ''session_id'', ''tool'', ''kind'', ''lab_slug''],
       ts_masked = [], ts_default_sort = ''ts''\<rparr>),
     (''agent_activity_events'',
      \<lparr>ts_columns = [''id'', ''session_id'', ''user_id'', ''ts'', ''source'', ''kind'',
        ''agent'', ''severity'', ''summary''],
       ts_sortable = [''id'', ''ts'', ''session_id'', ''user_id'', ''severity''],
       ts_searchable = [''id'', ''session_id'', ''user_id'', ''source'', ''kind'', ''agent'',
         ''severity'', ''summary''],
       ts_masked = [], ts_default_sort = ''ts''\<rparr>),
     (''platform_events'',
      \<lparr>ts_columns = [''id'', ''event_name'', ''user_id'', ''session_id'', ''device_id'',
        ''properties'', ''client_ts'', ''server_ts''],
       ts_sortable = [''id'', ''server_ts'', ''user_id'', ''session_id'', ''event_name''],
       ts_searchable = [''id'', ''event_name'', ''user_id'', ''session_id'', ''device_id''],
       ts_masked = [], ts_default_sort = ''server_ts''\<rparr>),
     (''behavioral_events'',
      \<lparr>ts_columns = [''id'', ''session_id'', ''user_id'', ''lab_slug'', ''timestamp'',
        ''event_type'', ''component_id'', ''component_type'', ''action'', ''raw_command'',
        ''success'', ''severity'', ''message''],
       ts_sortable = [''id'', ''timestamp'', ''session_id'', ''user_id'', ''event_type''],
       ts_searchable = [''id'', ''session_id'', ''user_id'', ''lab_slug'', ''event_type'',
         ''component_id'', ''component_type'', ''action'', ''raw_command'', ''severity'',
         ''message''],
       ts_masked = [], ts_default_sort = ''timestamp''\<rparr>),
     (''chat_messages'',
      \<lparr>ts_columns = [''id'', ''session_id'', ''role'', ''created_at''],
       ts_sortable = [''id'', ''created_at'', ''session_id'', ''role''],
       ts_searchable = [''id'', ''session_id'', ''role''],
       ts_masked = [], ts_default_sort = ''created_at''\<rparr>),
     (''validation_runs'',
      \<lparr>ts_columns = [''id'', ''session_id'', ''lab_slug'', ''status'', ''started_at'',
        ''finished_at''],
       ts_sortable = [''id'', ''started_at'', ''session_id'', ''status''],
       ts_searchable = [''id'', ''session_id'', ''lab_slug'', ''status''],
       ts_masked = [], ts_default_sort = ''started_at''\<rparr>)]"

definition PROGRESS_TABLES :: "(string \<times> table_spec) list" where
  "PROGRESS_TABLES =
    [(''learning_sessions'',
      \<lparr>ts_columns = [''id'', ''user_id'', ''lab_slug'', ''status'', ''started_at'',
        ''ended_at'', ''model_id''],
       ts_sortable = [''id'', ''started_at'', ''user_id'', ''status''],
       ts_searchable = [''id'', ''user_id'', ''lab_slug'', ''status'', ''model_id''],
       ts_masked = [], ts_default_sort = ''started_at''\<rparr>),
     (''consents'',
      \<lparr>ts_columns = [''id'', ''user_id'', ''scope'', ''observe'', ''act'', ''granted_at'',
        ''revoked_at'', ''data_policy''],
       ts_sortable = [''id'', ''granted_at'', ''user_id'', ''scope''],
       ts_searchable = [''id'', ''user_id'', ''scope'', ''data_policy''],
       ts_masked = [], ts_default_sort = ''granted_at''\<rparr>),
     (''lab_progress'',
      \<lparr>ts_columns = [''id'', ''user_id'', ''lab_slug'', ''status'', ''score'',
        ''current_step'', ''started_at'', ''completed_at'', ''updated_at''],
       ts_sortable = [''id'', ''updated_at'', ''user_id'', ''status''],
       ts_searchable = [''id'', ''user_id'', ''lab_slug'', ''status''],
       ts_masked = [], ts_default_sort = ''updated_at''\<rparr>),
     (''course_progress'',
      \<lparr>ts_columns = [''id'', ''user_id'', ''course_slug'', ''status'', ''score'',
        ''started_at'', ''completed_at'', ''updated_at''],
       ts_sortable = [''id'', ''updated_at'', ''user_id'', ''status''],
       ts_searchable = [''id'', ''user_id'', ''course_slug'', ''status''],
       ts_masked = [], ts_default_sort = ''updated_at''\<rparr>),
     (''step_attempts'',
      \<lparr>ts_columns = [''id'', ''user_id'', ''lab_slug'', ''step_slug'', ''attempt_number'',
        ''result'', ''score'', ''started_at'', ''ended_at''],
       ts_sortable = [''id'', ''started_at'', ''user_id'', ''result''],
       ts_searchable = [''id'', ''user_id'', ''lab_slug'', ''step_slug'', ''result''],
       ts_masked = [], ts_default_sort = ''started_at''\<rparr>)]"

definition RESEARCH_TABLES :: "(string \<times> table_spec) list" where
  "RESEARCH_TABLES =
    [(''process_state_samples'',
      \<lparr>ts_columns = [''id'', ''session_id'', ''user_id'', ''lab_slug'', ''ts'', ''regime'',
        ''dwell_seconds'', ''created_at''],
       ts_sortable = [''id'', ''ts'', ''session_id'', ''user_id''],
       ts_searchable = [''id'', ''session_id'', ''user_id'', ''lab_slug'', ''regime''],
       ts_masked = [], ts_default_sort = ''ts''\<rparr>),
     (''experiment_metrics'',
      \<lparr>ts_columns = [''id'', ''session_id'', ''user_id'', ''lab_slug'', ''experiment_group'',
        ''agent_backend'', ''total_time_seconds'', ''steps_completed'', ''total_errors'',
        ''repeated_errors'', ''unique_error_types'', ''interventions_received'',
        ''interventions_succeeded'', ''interventions_failed'', ''interventions_accepted'',
        ''control_arm'', ''base_arm'', ''escalations'', ''would_interventions'',
        ''l1_interventions'', ''l2_unassisted_pass'', ''final_score'', ''completed'',
        ''completed_at'', ''created_at''],
       ts_sortable = [''id'', ''created_at'', ''session_id'', ''user_id'', ''final_score''],
       ts_searchable = [''id'', ''session_id'', ''user_id'', ''lab_slug'', ''experiment_group'',
         ''agent_backend'', ''control_arm'', ''base_arm''],
       ts_masked = [], ts_default_sort = ''created_at''\<rparr>),
     (''intervention_decisions'',
      \<lparr>ts_columns = [''id'', ''session_id'', ''user_id'', ''lab_slug'', ''spell_id'', ''ts'',
        ''regime'', ''dwell_seconds'', ''t_k_applied'', ''assignment'', ''subsequent_exit_ts'',
        ''censored'', ''created_at''],
       ts_sortable = [''id'', ''ts'', ''user_id'', ''session_id'', ''regime''],
       ts_searchable = [''id'', ''user_id'', ''session_id'', ''lab_slug'', ''regime'',
         ''assignment''],
       ts_masked = [], ts_default_sort = ''ts''\<rparr>),
     (''session_evidence_snapshots'',
      \<lparr>ts_columns = [''id'', ''session_id'', ''user_id'', ''lab_slug'', ''ts'', ''kind'',
        ''payload'', ''created_at''],
       ts_sortable = [''id'', ''ts'', ''user_id'', ''session_id'', ''kind''],
       ts_searchable = [''id'', ''user_id'', ''session_id'', ''lab_slug'', ''kind''],
       ts_masked = [], ts_default_sort = ''ts''\<rparr>),
     (''regime_annotations'',
      \<lparr>ts_columns = [''id'', ''session_id'', ''coder_id'', ''window_index'',
        ''regime_label'', ''is_gold'', ''created_at''],
       ts_sortable = [''id'', ''created_at'', ''session_id'', ''regime_label''],
       ts_searchable = [''id'', ''session_id'', ''coder_id'', ''regime_label''],
       ts_masked = [], ts_default_sort = ''created_at''\<rparr>),
     (''grounding_comparisons'',
      \<lparr>ts_columns = [''id'', ''session_id'', ''grounded_text'', ''ungrounded_text'', ''ts'',
        ''created_at''],
       ts_sortable = [''id'', ''ts'', ''session_id''],
       ts_searchable = [''id'', ''session_id''],
       ts_masked = [], ts_default_sort = ''ts''\<rparr>),
     (''cycle_latency_samples'',
      \<lparr>ts_columns = [''id'', ''session_id'', ''stage'', ''duration_ms'', ''ts'',
        ''created_at''],
       ts_sortable = [''id'', ''ts'', ''session_id'', ''stage''],
       ts_searchable = [''id'', ''session_id'', ''stage''],
       ts_masked = [], ts_default_sort = ''ts''\<rparr>),
     (''study_participants'',
      \<lparr>ts_columns = [''id'', ''user_id'', ''pseudonym'', ''enrolled_at'', ''withdrawn_at''],
       ts_sortable = [''id'', ''enrolled_at'', ''user_id''],
       ts_searchable = [''id'', ''user_id'', ''pseudonym''],
       ts_masked = [], ts_default_sort = ''enrolled_at''\<rparr>)]"

definition ADMIN_TABLES :: "(string \<times> table_spec) list" where
  "ADMIN_TABLES = LOG_TABLES @ PROGRESS_TABLES @ RESEARCH_TABLES"

definition secret_column :: "string \<Rightarrow> bool" where
  "secret_column col \<longleftrightarrow>
     list_ex (\<lambda>w. contains w (lower col)) [''token'', ''secret'', ''key'', ''jwt'', ''password'']"

text \<open>The ellipsis, in UTF-8.\<close>

definition ellipsis :: string where
  "ellipsis = [CHR 0xE2, CHR 0x80, CHR 0xA6]"

definition truncated :: "string \<Rightarrow> string" where
  "truncated s = (if 200 < length s then take 200 s @ ellipsis else s)"

text \<open>How values are written: \<open>isoformat\<close> and \<open>str\<close> of a dict or a list.\<close>

record writer =
  wr_isoformat :: "time \<Rightarrow> string"
  wr_str :: "json \<Rightarrow> string"

fun written :: "writer \<Rightarrow> cell \<Rightarrow> cell" where
  "written w (CTime t) = CStr (truncated (wr_isoformat w t))"
| "written w (CEnum s) = CStr (truncated s)"
| "written w (CUuid s) = CStr (truncated s)"
| "written w (CJson j) = CStr (truncated (wr_str w j))"
| "written w (CStr s) = CStr (truncated s)"
| "written w v = v"

definition serialize_row :: "writer \<Rightarrow> table_spec \<Rightarrow> row \<Rightarrow> row" where
  "serialize_row w spec r =
     map (\<lambda>col. (col, if col \<in> set (ts_masked spec) \<or> secret_column col then CStr ''***''
       else written w (cell_of r col))) (ts_columns spec)"

subsection \<open>Deleting rows\<close>

text \<open>The keys that point at a table: the table that has them, the column, what a deletion does.\<close>

definition children :: "string \<Rightarrow> (string \<times> string \<times> on_delete) list" where
  "children t = concat (map (\<lambda>(child, m).
     List.map_filter (\<lambda>(c, parent, a). if parent = t then Some (child, c, a) else None) (tb_keys m)) MODELS)"

text \<open>What the database does to the rows that point at deleted ones; \<open>depth\<close> bounds the chain of keys.\<close>

fun drop_children :: "nat \<Rightarrow> string \<Rightarrow> cell list \<Rightarrow> store \<Rightarrow> store" where
  "drop_children 0 t ids d = d"
| "drop_children (Suc depth) t ids d =
     fold (\<lambda>(child, c, a) d.
       case a of
         Cascade \<Rightarrow>
           drop_children depth child
             (map (\<lambda>r. cell_of r ''id'') (filter (\<lambda>r. cell_of r c \<in> set ids) (d child)))
             (d(child := filter (\<lambda>r. cell_of r c \<notin> set ids) (d child)))
       | SetNull \<Rightarrow>
           d(child := map (\<lambda>r. if cell_of r c \<in> set ids then set_null c r else r) (d child)))
       (children t) d"

definition MAX_DEPTH :: nat where "MAX_DEPTH = 3"

definition delete_rows :: "string \<Rightarrow> (row \<Rightarrow> bool) \<Rightarrow> store \<Rightarrow> nat \<times> store" where
  "delete_rows t cond d =
     (count_if cond (d t),
      drop_children MAX_DEPTH t (map (\<lambda>r. cell_of r ''id'') (filter cond (d t)))
        (d(t := filter (\<lambda>r. \<not> cond r) (d t))))"

subsection \<open>One learner's data\<close>

definition DEFERRED :: "string list" where
  "DEFERRED = [''learning_sessions'', ''study_participants'']"

text \<open>A condition on rows, or nothing when the table cannot say whose they are.\<close>

definition subject_filter :: "string \<Rightarrow> string \<Rightarrow> cell list \<Rightarrow> (row \<Rightarrow> bool) option" where
  "subject_filter t user_id session_ids =
     (if has_column t ''user_id'' then Some (\<lambda>r. cell_of r ''user_id'' = CStr user_id)
      else if has_column t ''session_id''
      then (if session_ids = [] then None else Some (\<lambda>r. cell_of r ''session_id'' \<in> set session_ids))
      else None)"

definition unattributable_tables :: "string list" where
  "unattributable_tables =
     filter (\<lambda>t. \<not> has_column t ''user_id'' \<and> \<not> has_column t ''session_id'') (map fst ADMIN_TABLES)"

definition session_ids :: "store \<Rightarrow> string \<Rightarrow> cell list" where
  "session_ids d user_id =
     map (\<lambda>r. cell_of r ''id'') (filter (\<lambda>r. cell_of r ''user_id'' = CStr user_id) (d ''learning_sessions''))"

definition subject_rows :: "store \<Rightarrow> string \<Rightarrow> string \<Rightarrow> row list" where
  "subject_rows d user_id t =
     (case subject_filter t user_id (session_ids d user_id) of None \<Rightarrow> [] | Some cond \<Rightarrow> filter cond (d t))"

definition collect_subject_data :: "writer \<Rightarrow> store \<Rightarrow> string \<Rightarrow> (string \<times> row list) list" where
  "collect_subject_data w d user_id =
     map (\<lambda>(t, spec). (t, map (serialize_row w spec) (subject_rows d user_id t))) ADMIN_TABLES"

definition erase_table ::
  "string \<Rightarrow> cell list \<Rightarrow> string \<Rightarrow> (string \<times> nat) list \<times> store \<Rightarrow> (string \<times> nat) list \<times> store" where
  "erase_table user_id sids t rd =
     (case subject_filter t user_id sids of
        None \<Rightarrow> (fst rd @ [(t, 0)], snd rd)
      | Some cond \<Rightarrow>
          (case delete_rows t cond (snd rd) of (n, d) \<Rightarrow> (fst rd @ [(t, n)], d)))"

definition erase_subject :: "store \<Rightarrow> string \<Rightarrow> bool \<Rightarrow> (string \<times> nat) list \<times> store" where
  "erase_subject d user_id delete_account =
     (let sids = session_ids d user_id;
          rd1 = fold (erase_table user_id sids)
            (filter (\<lambda>t. t \<notin> set DEFERRED) (map fst ADMIN_TABLES)) ([], d);
          rd2 = fold (erase_table user_id sids) DEFERRED rd1
      in if delete_account
         then (case delete_rows ''users'' (\<lambda>r. cell_of r ''id'' = CStr user_id) (snd rd2) of
                 (n, d3) \<Rightarrow> (fst rd2 @ [(''users'', n)], d3))
         else rd2)"

end
