(* ===== verification/Admin.thy ===== *)
theory Admin
  imports Data_Registry Access "HOL-Library.Sublist"
begin

text \<open>
  The administrator's console over users and tables (\<open>admin/service.py\<close>, \<open>admin/router.py\<close>): search,
  order, pages with a capped count, and the change of a user's role and rights.  How the database
  orders rows and writes values as text is a parameter.
\<close>

subsection \<open>Searching\<close>

text \<open>SQL's pattern matching, with its wildcards and its escape; the case-insensitive one.\<close>

fun like :: "string \<Rightarrow> string \<Rightarrow> bool" where
  "like [] s = (s = [])"
| "like (p # ps) s =
     (if p = CHR ''%'' then list_ex (like ps) (suffixes s)
      else if p = CHR ''_'' then s \<noteq> [] \<and> like ps (tl s)
      else if p = CHR 0x5C
      then (case ps of [] \<Rightarrow> False | q # qs \<Rightarrow> s \<noteq> [] \<and> hd s = q \<and> like qs (tl s))
      else s \<noteq> [] \<and> hd s = p \<and> like ps (tl s))"

definition ilike :: "string \<Rightarrow> string \<Rightarrow> bool" where
  "ilike pattern s = like (lower pattern) (lower s)"

definition search_pattern :: "string \<Rightarrow> string" where
  "search_pattern search = ''%'' @ search @ ''%''"

text \<open>A column that is null matches nothing.\<close>

definition matches_search :: "string \<Rightarrow> string option \<Rightarrow> bool" where
  "matches_search search v = (case v of None \<Rightarrow> False | Some s \<Rightarrow> ilike (search_pattern search) s)"

subsection \<open>Pages\<close>

definition COUNT_CAP :: nat where "COUNT_CAP = 10000"

record 'a page =
  pg_rows :: "'a list"
  pg_total :: nat
  pg_exact :: bool

definition page_of :: "nat \<Rightarrow> nat \<Rightarrow> 'a list \<Rightarrow> 'a list" where
  "page_of page page_size xs = take page_size (drop ((page - 1) * page_size) xs)"

definition USER_SORTABLE :: "string list" where
  "USER_SORTABLE = [''name'', ''email'', ''role'']"

definition list_users ::
  "(string \<Rightarrow> bool \<Rightarrow> account list \<Rightarrow> account list) \<Rightarrow> nat \<Rightarrow> nat \<Rightarrow> string \<Rightarrow> bool \<Rightarrow> string option \<Rightarrow>
   string option \<Rightarrow> bool option \<Rightarrow> accounts_db \<Rightarrow> account page" where
  "list_users order_by page page_size sort_by asc search role is_active d =
     (let found = filter (\<lambda>u.
            (truthy search \<longrightarrow> matches_search (the search) (us_name u) \<or> matches_search (the search) (us_email u)) \<and>
            (role \<noteq> None \<longrightarrow> us_role u = the role) \<and> (is_active \<noteq> None \<longrightarrow> us_is_active u = the is_active))
          (ad_users d)
      in \<lparr>pg_rows = page_of page page_size
            (order_by (if sort_by \<in> set USER_SORTABLE then sort_by else ''name'') asc found),
          pg_total = length found, pg_exact = True\<rparr>)"

definition searched :: "(cell \<Rightarrow> string option) \<Rightarrow> table_spec \<Rightarrow> string option \<Rightarrow> row \<Rightarrow> bool" where
  "searched cast_text spec search r \<longleftrightarrow>
     (truthy search \<longrightarrow> list_ex (\<lambda>c. matches_search (the search) (cast_text (cell_of r c))) (ts_searchable spec))"

definition browse_table ::
  "writer \<Rightarrow> (cell \<Rightarrow> string option) \<Rightarrow> (string \<Rightarrow> bool \<Rightarrow> row list \<Rightarrow> row list) \<Rightarrow> table_spec \<Rightarrow>
   nat \<Rightarrow> nat \<Rightarrow> string option \<Rightarrow> bool \<Rightarrow> string option \<Rightarrow> row list \<Rightarrow> row page" where
  "browse_table w cast_text order_by spec page page_size sort_by asc search rows =
     (let found = filter (searched cast_text spec search) rows;
          column = (case sort_by of Some c \<Rightarrow> if c \<in> set (ts_sortable spec) then c else ts_default_sort spec
            | None \<Rightarrow> ts_default_sort spec);
          total = length (take COUNT_CAP found)
      in \<lparr>pg_rows = (if (page - 1) * page_size < COUNT_CAP
            then map (serialize_row w spec) (page_of page page_size (order_by column asc found)) else []),
          pg_total = total, pg_exact = (total < COUNT_CAP)\<rparr>)"

definition get_admin_data ::
  "writer \<Rightarrow> (cell \<Rightarrow> string option) \<Rightarrow> (string \<Rightarrow> bool \<Rightarrow> row list \<Rightarrow> row list) \<Rightarrow>
   string \<Rightarrow> nat \<Rightarrow> nat \<Rightarrow> string option \<Rightarrow> bool \<Rightarrow> string option \<Rightarrow> store \<Rightarrow> refusal + row page" where
  "get_admin_data w cast_text order_by t page page_size sort_by asc search d =
     (case map_of ADMIN_TABLES t of
        None \<Rightarrow> Inl (Refusal 404 ''error.admin.unknown_table'')
      | Some spec \<Rightarrow> Inr (browse_table w cast_text order_by spec page page_size sort_by asc search (d t)))"

subsection \<open>Changing a user\<close>

record user_update =
  up_role :: "string option"
  up_can_select_model :: "bool option"
  up_can_view_agent_logs :: "bool option"
  up_is_active :: "bool option"

definition updated_user :: "user_update \<Rightarrow> account \<Rightarrow> account" where
  "updated_user b u = u\<lparr>
     us_role := (case up_role b of Some r \<Rightarrow> r | None \<Rightarrow> us_role u),
     xu_can_select_model := (case up_can_select_model b of Some v \<Rightarrow> Some v | None \<Rightarrow> xu_can_select_model u),
     xu_can_view_agent_logs := (case up_can_view_agent_logs b of Some v \<Rightarrow> Some v | None \<Rightarrow> xu_can_view_agent_logs u),
     us_is_active := (case up_is_active b of Some v \<Rightarrow> v | None \<Rightarrow> us_is_active u)\<rparr>"

definition update_user ::
  "current_user \<Rightarrow> string \<Rightarrow> user_update \<Rightarrow> accounts_db \<Rightarrow> (refusal + account) \<times> accounts_db" where
  "update_user caller user_id b d =
     (case require_admin caller of
        Inl e \<Rightarrow> (Inl e, d)
      | Inr _ \<Rightarrow>
          (case get_user d user_id of
             None \<Rightarrow> (Inl (Refusal 404 ''error.user.not_found''), d)
           | Some u \<Rightarrow>
               if up_role b \<noteq> None \<and> JStr user_id = cu_id caller
               then (Inl (Refusal 400 ''error.admin.own_role''), d)
               else (Inr (updated_user b u),
                 d\<lparr>ad_users := map (\<lambda>x. if us_id x = user_id then updated_user b x else x) (ad_users d)\<rparr>)))"

end
