(* ===== verification/Erasure.thy ===== *)
theory Erasure
  imports Data_Registry
begin

text \<open>
  What exporting and erasing a learner's data does to the database as a whole: the foreign keys are
  followed to the end, the tables of the registry are filtered, nothing else changes.
\<close>

subsection \<open>The registry and its keys\<close>

lemma registry_distinct: "distinct (map fst ADMIN_TABLES)" by code_simp

lemma deferred_registered: "set DEFERRED \<subseteq> set (map fst ADMIN_TABLES)" by code_simp

lemma every_table_attributable: "unattributable_tables = []" by code_simp

lemma session_children:
  "list_all (\<lambda>(t, c, a). t \<in> set (map fst ADMIN_TABLES) \<and> t \<notin> set DEFERRED \<and> c = ''session_id'' \<and>
     (has_column t ''user_id'' \<or> has_column t ''session_id'')) (children ''learning_sessions'')" by code_simp

lemma user_children:
  "list_all (\<lambda>(t, c, a). c = ''user_id'' \<and> has_column t ''user_id'' \<and>
     (t \<in> set (map fst ADMIN_TABLES) \<or> t \<in> {''accounts'', ''sessions''} \<and> a = Cascade))
     (children ''users'')" by code_simp

lemma user_children_distinct: "distinct (map fst (children ''users''))" by code_simp

lemma only_sessions_and_users_have_children:
  "list_all (\<lambda>t. t = ''learning_sessions'' \<or> t = ''users'' \<or> children t = []) (map fst MODELS)" by code_simp


lemma leaf_tables:
  "list_all (\<lambda>t. t = ''learning_sessions'' \<or> children t = []) (map fst ADMIN_TABLES)" by code_simp

lemma leaves: "children ''accounts'' = []" "children ''sessions'' = []" by code_simp+

subsection \<open>Following the keys\<close>

text \<open>One key of a table: what following it does.\<close>

abbreviation key_step ::
  "nat \<Rightarrow> cell list \<Rightarrow> string \<times> string \<times> on_delete \<Rightarrow> store \<Rightarrow> store" where
  "key_step depth ids \<equiv> \<lambda>(child, c, a) d.
     case a of
       Cascade \<Rightarrow>
         drop_children depth child
           (map (\<lambda>r. cell_of r ''id'') (filter (\<lambda>r. cell_of r c \<in> set ids) (d child)))
           (d(child := filter (\<lambda>r. cell_of r c \<notin> set ids) (d child)))
     | SetNull \<Rightarrow>
         d(child := map (\<lambda>r. if cell_of r c \<in> set ids then set_null c r else r) (d child))"

lemma drop_leaf: "children t = [] \<Longrightarrow> drop_children k t ids d = d"
  by (cases k) simp_all

lemma fold_nothing: "(\<And>x. x \<in> set xs \<Longrightarrow> f x d = d) \<Longrightarrow> fold f xs d = d"
  by (induction xs) auto

lemma drop_nobody: "drop_children k t [] d = d"
proof (induction k arbitrary: t)
  case (Suc k)
  then show ?case by (auto intro!: fold_nothing simp: fun_upd_idem_iff split: on_delete.split)
qed simp

text \<open>Keys that nothing matches do nothing.\<close>

lemma key_step_nothing:
  assumes "\<And>r. r \<in> set (d child) \<Longrightarrow> cell_of r c \<notin> set ids"
  shows "key_step k ids (child, c, a) d = d"
proof -
  have "filter (\<lambda>r. cell_of r c \<notin> set ids) (d child) = d child"
    and "filter (\<lambda>r. cell_of r c \<in> set ids) (d child) = []"
    and "map (\<lambda>r. if cell_of r c \<in> set ids then set_null c r else r) (d child) = d child"
    using assms by (auto simp: filter_id_conv filter_empty_conv map_idI)
  then show ?thesis by (simp add: drop_nobody split: on_delete.split)
qed

lemma drop_nothing:
  assumes "\<And>child c a r. (child, c, a) \<in> set (children t) \<Longrightarrow> r \<in> set (d child) \<Longrightarrow> cell_of r c \<notin> set ids"
  shows "drop_children k t ids d = d"
proof (cases k)
  case (Suc k')
  have "key_step k' ids x d = d" if "x \<in> set (children t)" for x
    by (cases x) (use key_step_nothing assms that in blast)
  then show ?thesis by (simp add: Suc fold_nothing)
qed simp

text \<open>A property of the rows of a table that survives setting columns to null survives a deletion.\<close>

lemma drop_children_all:
  assumes null: "\<And>r c. P r \<Longrightarrow> P (set_null c r)"
  shows "(\<And>r. r \<in> set (d t') \<Longrightarrow> P r) \<Longrightarrow> r \<in> set (drop_children k t ids d t') \<Longrightarrow> P r"
proof (induction k arbitrary: t ids d r)
  case (Suc k)
  define ok where "ok d \<longleftrightarrow> (\<forall>r \<in> set (d t'). P r)" for d :: store
  have step: "ok (key_step k ids x d)" if "ok d" for x d
  proof (cases x)
    case (fields child c a)
    show ?thesis
    proof (cases a)
      case Cascade
      let ?d = "d(child := filter (\<lambda>r. cell_of r c \<notin> set ids) (d child))"
      have "\<And>r. r \<in> set (?d t') \<Longrightarrow> P r"
        using that by (auto simp: ok_def split: if_splits)
      then have "\<And>t ids r. r \<in> set (drop_children k t ids ?d t') \<Longrightarrow> P r"
        by (rule Suc.IH)
      then show ?thesis by (simp add: ok_def fields Cascade)
    next
      case SetNull
      with that show ?thesis by (auto simp: ok_def fields null)
    qed
  qed
  have "ok (fold (key_step k ids) xs d)" if "ok d" for xs d
    using that by (induction xs arbitrary: d) (simp_all add: step del: split_paired_All)
  moreover have "ok d" using Suc.prems(1) by (simp add: ok_def)
  ultimately have "ok (fold (key_step k ids) (children t) d)" .
  with Suc.prems(2) show ?case by (simp add: ok_def)
qed simp


subsection \<open>Deletions, table by table\<close>

lemma delete_leaf:
  "children t = [] \<Longrightarrow> delete_rows t cond d = (count_if cond (d t), d(t := filter (\<lambda>r. \<not> cond r) (d t)))"
  by (simp add: delete_rows_def drop_leaf)

text \<open>Whether a row of a table is a learner's, by the sessions the learner has.\<close>

definition about :: "cell list \<Rightarrow> string \<Rightarrow> string \<Rightarrow> row \<Rightarrow> bool" where
  "about sids u t r \<longleftrightarrow>
     (if has_column t ''user_id'' then cell_of r ''user_id'' = CStr u
      else has_column t ''session_id'' \<and> cell_of r ''session_id'' \<in> set sids)"

lemma filter_of_subject:
  "case subject_filter t u sids of None \<Rightarrow> (\<forall>r. \<not> about sids u t r) | Some cond \<Rightarrow> cond = about sids u t"
  by (auto simp: subject_filter_def about_def fun_eq_iff)

lemma subject_rows_about: "subject_rows d u t = filter (about (session_ids d u) u t) (d t)"
  using filter_of_subject [where t = t and u = u and sids = "session_ids d u"]
  by (auto simp: subject_rows_def split: option.splits)

definition without_subject :: "cell list \<Rightarrow> string \<Rightarrow> string set \<Rightarrow> store \<Rightarrow> store" where
  "without_subject sids u ts d = (\<lambda>t. if t \<in> ts then filter (\<lambda>r. \<not> about sids u t r) (d t) else d t)"

lemma erase_leaf:
  assumes "children t = []"
  shows "erase_table u sids t (ns, d) =
    (ns @ [(t, count_if (about sids u t) (d t))], without_subject sids u {t} d)"
proof -
  have "d(t := filter (\<lambda>r. \<not> about sids u t r) (d t)) = without_subject sids u {t} d"
    by (simp add: without_subject_def fun_eq_iff)
  moreover have "without_subject sids u {t} d = d \<and> count_if (about sids u t) (d t) = 0"
    if "\<forall>r. \<not> about sids u t r"
    using that by (simp add: without_subject_def count_if_def fun_eq_iff)
  ultimately show ?thesis
    using filter_of_subject [where t = t and u = u and sids = sids]
    by (auto simp: erase_table_def delete_leaf [OF assms] split: option.splits)
qed

lemma without_subject_Un:
  "without_subject sids u ts (without_subject sids u ts' d) = without_subject sids u (ts \<union> ts') d"
  by (auto simp: without_subject_def fun_eq_iff filter_filter intro!: filter_cong)

lemma erase_leaves:
  assumes "\<forall>t \<in> set ts. children t = []" and "distinct ts"
  shows "fold (erase_table u sids) ts (ns, d) =
    (ns @ map (\<lambda>t. (t, count_if (about sids u t) (d t))) ts, without_subject sids u (set ts) d)"
  using assms
proof (induction ts arbitrary: ns d)
  case Nil
  then show ?case by (simp add: without_subject_def)
next
  case (Cons t ts)
  have "map (\<lambda>t'. (t', count_if (about sids u t') (without_subject sids u {t} d t'))) ts =
      map (\<lambda>t'. (t', count_if (about sids u t') (d t'))) ts"
    using Cons.prems(2) by (auto simp: without_subject_def)
  moreover have "without_subject sids u (set ts) (without_subject sids u {t} d) = without_subject sids u (set (t # ts)) d"
    by (simp add: without_subject_Un Un_commute)
  ultimately show ?case
    using Cons by (simp add: erase_leaf)
qed


subsection \<open>The whole erasure\<close>

text \<open>The rows name the owner of their session, where the key to it is declared.\<close>

definition names_owner :: "store \<Rightarrow> bool" where
  "names_owner d \<longleftrightarrow>
     (\<forall>(t, c, a) \<in> set (children ''learning_sessions''). has_column t ''user_id'' \<longrightarrow>
        (\<forall>r \<in> set (d t). \<forall>s \<in> set (d ''learning_sessions'').
           cell_of r c = cell_of s ''id'' \<longrightarrow> cell_of r ''user_id'' = cell_of s ''user_id''))"

definition registered :: "string set" where "registered = set (map fst ADMIN_TABLES)"

lemma not_registered: "''users'' \<notin> registered" "''accounts'' \<notin> registered" "''sessions'' \<notin> registered"
  unfolding registered_def by code_simp+

definition leaf_phase :: "string list" where
  "leaf_phase = filter (\<lambda>t. t \<notin> set DEFERRED) (map fst ADMIN_TABLES)"

lemma leaf_phase_leaves: "\<forall>t \<in> set leaf_phase. children t = []"
  using leaf_tables by (auto simp: list_all_iff DEFERRED_def leaf_phase_def)

lemma leaf_phase_distinct: "distinct leaf_phase"
  using registry_distinct by (simp add: leaf_phase_def)

lemma no_deferred_leaf: "''learning_sessions'' \<notin> set leaf_phase" "''study_participants'' \<notin> set leaf_phase"
  by (simp_all add: leaf_phase_def DEFERRED_def)

lemma phases: "{''study_participants''} \<union> ({''learning_sessions''} \<union> set leaf_phase) = registered"
  using deferred_registered by (auto simp: DEFERRED_def leaf_phase_def registered_def)

text \<open>Deleting the sessions reaches no further row.\<close>

lemma sessions_reach_nothing:
  assumes d: "names_owner d" and sids: "sids = session_ids d u"
    and kept: "d' = without_subject sids u ts d" and ts: "set leaf_phase \<subseteq> ts"
    and own: "about sids u ''learning_sessions'' = (\<lambda>r. cell_of r ''user_id'' = CStr u)"
  shows "drop_children k ''learning_sessions'' sids (d'(''learning_sessions'' := x)) = d'(''learning_sessions'' := x)"
proof (rule drop_nothing)
  fix child c a r
  assume child: "(child, c, a) \<in> set (children ''learning_sessions'')"
    and r: "r \<in> set ((d'(''learning_sessions'' := x)) child)"
  from session_children child have c: "c = ''session_id''" and "child \<in> set leaf_phase"
    and cols: "has_column child ''user_id'' \<or> has_column child ''session_id''"
    by (auto simp: list_all_iff leaf_phase_def)
  then have "child \<in> ts" and "child \<noteq> ''learning_sessions''" using ts no_deferred_leaf by auto
  with r kept have r: "r \<in> set (d child)" "\<not> about sids u child r" by (auto simp: without_subject_def)
  show "cell_of r c \<notin> set sids"
  proof
    assume "cell_of r c \<in> set sids"
    then obtain s where s: "s \<in> set (d ''learning_sessions'')" "cell_of s ''user_id'' = CStr u"
      "cell_of r c = cell_of s ''id''" by (auto simp: sids session_ids_def)
    show False
    proof (cases "has_column child ''user_id''")
      case True
      with d child s r(1) have "cell_of r ''user_id'' = CStr u" unfolding names_owner_def by fastforce
      with True r(2) show False by (simp add: about_def)
    next
      case False
      with cols r(2) \<open>cell_of r c \<in> set sids\<close> c show False by (simp add: about_def)
    qed
  qed
qed

lemma own_sessions: "about sids u ''learning_sessions'' = (\<lambda>r. cell_of r ''user_id'' = CStr u)"
proof -
  have "has_column ''learning_sessions'' ''user_id''" by code_simp
  then show ?thesis by (simp add: about_def fun_eq_iff)
qed

lemma erase_sessions:
  assumes d: "names_owner d" and sids: "sids = session_ids d u"
    and kept: "d' = without_subject sids u ts d"
    and ts: "set leaf_phase \<subseteq> ts" "''learning_sessions'' \<notin> ts"
  shows "erase_table u sids ''learning_sessions'' (ns, d') =
    (ns @ [(''learning_sessions'', count_if (about sids u ''learning_sessions'') (d ''learning_sessions''))],
     without_subject sids u {''learning_sessions''} d')"
proof -
  have here: "d' ''learning_sessions'' = d ''learning_sessions''"
    using ts by (simp add: kept without_subject_def)
  have "has_column ''learning_sessions'' ''user_id''" by code_simp
  then have filt: "subject_filter ''learning_sessions'' u sids = Some (about sids u ''learning_sessions'')"
    by (simp add: subject_filter_def own_sessions)
  have ids: "map (\<lambda>r. cell_of r ''id'') (filter (about sids u ''learning_sessions'') (d ''learning_sessions'')) = sids"
    by (simp add: own_sessions session_ids_def sids)
  have d2: "d'(''learning_sessions'' := filter (\<lambda>r. \<not> about sids u ''learning_sessions'' r) (d ''learning_sessions'')) =
      without_subject sids u {''learning_sessions''} d'"
    by (simp add: without_subject_def fun_eq_iff here)
  show ?thesis
    using sessions_reach_nothing [OF d sids kept ts(1) own_sessions, where k = MAX_DEPTH]
    by (simp add: erase_table_def filt delete_rows_def here ids d2 [symmetric])
qed

lemma erase_registry:
  assumes "names_owner d"
  shows "erase_subject d u False =
    (map (\<lambda>t. (t, count_if (about (session_ids d u) u t) (d t))) (leaf_phase @ DEFERRED),
     without_subject (session_ids d u) u registered d)"
proof -
  let ?sids = "session_ids d u"
  let ?d1 = "without_subject ?sids u (set leaf_phase) d"
  let ?d2 = "without_subject ?sids u {''learning_sessions''} ?d1"
  have phase1: "fold (erase_table u ?sids) leaf_phase ([], d) =
      (map (\<lambda>t. (t, count_if (about ?sids u t) (d t))) leaf_phase, ?d1)"
    using erase_leaves [OF leaf_phase_leaves leaf_phase_distinct, where ns = "[]"] by simp
  note step = erase_sessions [OF assms refl refl order_refl no_deferred_leaf(1)]
  have leaf: "children ''study_participants'' = []" by code_simp
  have same: "?d2 ''study_participants'' = d ''study_participants''"
    by (simp add: without_subject_def no_deferred_leaf)
  have d3: "without_subject ?sids u {''study_participants''} ?d2 = without_subject ?sids u registered d"
    unfolding without_subject_Un phases ..
  have "erase_subject d u False =
      erase_table u ?sids ''study_participants'' (erase_table u ?sids ''learning_sessions''
        (fold (erase_table u ?sids) leaf_phase ([], d)))"
    by (simp add: erase_subject_def leaf_phase_def DEFERRED_def Let_def)
  then show ?thesis
    unfolding phase1 step erase_leaf [OF leaf] same d3 by (simp add: DEFERRED_def)
qed


text \<open>Deleting the account reaches the tables of its logins only.\<close>

definition untouchable :: "cell list \<Rightarrow> store \<Rightarrow> bool" where
  "untouchable ids d \<longleftrightarrow>
     (\<forall>t \<in> registered. has_column t ''user_id'' \<longrightarrow> (\<forall>r \<in> set (d t). cell_of r ''user_id'' \<notin> set ids))"

lemma user_key:
  assumes "c = ''user_id'' \<and> has_column child ''user_id'' \<and>
      (child \<in> registered \<or> child \<in> {''accounts'', ''sessions''} \<and> a = Cascade)"
    and "untouchable ids d" and "t \<noteq> ''accounts''" and "t \<noteq> ''sessions''"
  shows "key_step k ids (child, c, a) d t = d t"
proof (cases "child \<in> registered")
  case True
  with assms(1,2) have "key_step k ids (child, c, a) d = d"
    by (intro key_step_nothing) (simp add: untouchable_def)
  then show ?thesis by simp
next
  case False
  with assms(1) have "child \<in> {''accounts'', ''sessions''}" "a = Cascade" by auto
  then show ?thesis using assms(3,4) leaves by (auto simp: drop_leaf)
qed

lemma user_keys:
  assumes "list_all (\<lambda>(t, c, a). c = ''user_id'' \<and> has_column t ''user_id'' \<and>
      (t \<in> registered \<or> t \<in> {''accounts'', ''sessions''} \<and> a = Cascade)) xs"
    and "untouchable ids d" and t: "t \<noteq> ''accounts''" "t \<noteq> ''sessions''"
  shows "fold (key_step k ids) xs d t = d t"
  using assms(1,2)
proof (induction xs arbitrary: d)
  case (Cons x xs)
  obtain child c a where x: "x = (child, c, a)" by (cases x)
  have same: "key_step k ids x d t' = d t'" if "t' \<noteq> ''accounts''" "t' \<noteq> ''sessions''" for t'
    using Cons.prems that user_key unfolding x list.pred_inject(2) prod.case by blast
  have "untouchable ids (key_step k ids x d)"
    unfolding untouchable_def
  proof
    fix t' assume "t' \<in> registered"
    with not_registered have "key_step k ids x d t' = d t'" by (intro same) blast+
    with Cons.prems(2) \<open>t' \<in> registered\<close>
    show "has_column t' ''user_id'' \<longrightarrow>
        (\<forall>r \<in> set (key_step k ids x d t'). cell_of r ''user_id'' \<notin> set ids)"
      unfolding untouchable_def by simp
  qed
  with Cons.IH Cons.prems(1) have "fold (key_step k ids) xs (key_step k ids x d) t = key_step k ids x d t"
    by (simp only: list.pred_inject(2))
  then show ?case by (simp only: fold_Cons comp_apply same [OF t])
qed simp

lemma no_trace:
  "t \<in> registered \<Longrightarrow> r \<in> set (without_subject sids u registered d t) \<Longrightarrow> \<not> about sids u t r"
  by (simp add: without_subject_def)

lemma erase_account:
  assumes "names_owner d" and "t \<noteq> ''accounts''" and "t \<noteq> ''sessions''"
  shows "snd (erase_subject d u True) t =
    (if t = ''users'' then filter (\<lambda>r. cell_of r ''id'' \<noteq> CStr u) (d t)
     else snd (erase_subject d u False) t)"
proof -
  let ?d = "without_subject (session_ids d u) u registered d"
  let ?ids = "map (\<lambda>r. cell_of r ''id'') (filter (\<lambda>r. cell_of r ''id'' = CStr u) (?d ''users''))"
  let ?d' = "?d(''users'' := filter (\<lambda>r. cell_of r ''id'' \<noteq> CStr u) (?d ''users''))"
  note users = not_registered(1)
  have "untouchable ?ids ?d'"
    unfolding untouchable_def
  proof (intro ballI impI notI)
    fix t r
    assume t: "t \<in> registered" "has_column t ''user_id''" and r: "r \<in> set (?d' t)"
      and "cell_of r ''user_id'' \<in> set ?ids"
    then have "cell_of r ''user_id'' = CStr u" by auto
    moreover from t(1) users r have "r \<in> set (?d t)" by (auto split: if_splits)
    then have "\<not> about (session_ids d u) u t r" by (rule no_trace [OF t(1)])
    ultimately show False using t(2) by (simp add: about_def)
  qed
  from user_keys [OF user_children [folded registered_def] this assms(2,3), where k = 2]
  have "drop_children 3 ''users'' ?ids ?d' t = ?d' t"
    by (simp only: numeral_3_eq_3 numeral_2_eq_2 drop_children.simps(2))
  moreover have "snd (erase_subject d u True) = drop_children 3 ''users'' ?ids ?d'"
    using erase_registry [OF assms(1), of u]
    by (simp add: erase_subject_def Let_def delete_rows_def MAX_DEPTH_def case_prod_beta)
  moreover have "?d ''users'' = d ''users''" using users by (simp add: without_subject_def)
  ultimately show ?thesis by (simp add: erase_registry [OF assms(1)])
qed

end
