(* ===== verification/Admin_Properties.thy ===== *)
theory Admin_Properties
  imports Admin Erasure "HOL-Library.Code_Target_Nat"
begin

text \<open>
  Properties of the administrator's console and of one learner's data: erasure leaves nothing behind
  and spares everyone else, what is exported is what is erased; a search without wildcards finds what
  contains it; pages tile the result; nobody changes their own role.
\<close>

subsection \<open>Erasure\<close>

lemma delete_keeps:
  assumes "\<And>r c. P r \<Longrightarrow> P (set_null c r)" and "\<And>r. r \<in> set (d t') \<Longrightarrow> P r"
    and "r \<in> set (snd (delete_rows t cond d) t')"
  shows "P r"
proof -
  let ?d = "d(t := filter (\<lambda>r. \<not> cond r) (d t))"
  have clean: "\<And>r. r \<in> set (?d t') \<Longrightarrow> P r" using assms(2) by (auto split: if_splits)
  show ?thesis
    using assms(3) unfolding delete_rows_def snd_conv
    by (rule drop_children_all [where P = P and d = ?d and t' = t', rotated 2])
      (use assms(1) clean in blast)+
qed

lemma delete_clears:
  assumes "\<And>r c. \<not> cond r \<Longrightarrow> \<not> cond (set_null c r)" and "r \<in> set (snd (delete_rows t cond d) t)"
  shows "\<not> cond r"
proof -
  let ?d = "d(t := filter (\<lambda>r. \<not> cond r) (d t))"
  have clean: "\<And>r. r \<in> set (?d t) \<Longrightarrow> \<not> cond r" by simp
  show ?thesis
    using assms(2) unfolding delete_rows_def snd_conv
    by (rule drop_children_all [where P = "\<lambda>r. \<not> cond r" and d = ?d and t' = t, rotated 2])
      (use assms(1) clean in blast)+
qed

text \<open>Columns set to null make no row a learner's.\<close>

lemma cell_of_set_null: "cell_of (set_null c r) k = (if k = c then CNull else cell_of r k)"
proof -
  have "map_of (set_null c r) k = map_option (\<lambda>v. if k = c then CNull else v) (map_of r k)"
    by (induction r) (auto simp: set_null_def)
  then show ?thesis by (simp add: cell_of_def split: option.split)
qed

definition owned :: "string \<Rightarrow> cell list \<Rightarrow> string \<Rightarrow> row \<Rightarrow> bool" where
  "owned u sids t r \<longleftrightarrow> about (filter (\<lambda>i. i \<noteq> CNull) sids) u t r"

lemma null_owns_nothing: "\<not> owned u sids t r \<Longrightarrow> \<not> owned u sids t (set_null c r)"
  by (auto simp: owned_def about_def cell_of_set_null)


lemma erase_keeps_clean:
  assumes "\<And>r. r \<in> set (d t) \<Longrightarrow> \<not> owned u sids t r"
    and "r \<in> set (snd (erase_table u sids t' (ns, d)) t)"
  shows "\<not> owned u sids t r"
proof (cases "subject_filter t' u sids")
  case (Some cond)
  with assms(2) have "r \<in> set (snd (delete_rows t' cond d) t)"
    by (simp add: erase_table_def case_prod_beta)
  with assms(1) show ?thesis
    using delete_keeps [where P = "\<lambda>r. \<not> owned u sids t r"] null_owns_nothing by blast
qed (use assms in \<open>auto simp: erase_table_def\<close>)

lemma erase_cleans:
  assumes "r \<in> set (snd (erase_table u sids t (ns, d)) t)"
  shows "\<not> owned u sids t r"
proof -
  have mono: "owned u sids t r \<Longrightarrow> about sids u t r" for r
    by (auto simp: owned_def about_def split: if_splits)
  show ?thesis
  proof (cases "subject_filter t u sids")
    case None
    then show ?thesis using filter_of_subject [where t = t and u = u and sids = sids] mono by auto
  next
    case (Some cond)
    then have cond: "cond = about sids u t"
      using filter_of_subject [where t = t and u = u and sids = sids] by simp
    let ?d = "d(t := filter (\<lambda>r. \<not> cond r) (d t))"
    have clean: "\<And>r. r \<in> set (?d t) \<Longrightarrow> \<not> owned u sids t r" using mono by (auto simp: cond)
    have "snd (erase_table u sids t (ns, d)) =
        drop_children MAX_DEPTH t (map (\<lambda>r. cell_of r ''id'') (filter cond (d t))) ?d"
      by (simp add: erase_table_def Some delete_rows_def)
    with assms have "r \<in> set (drop_children MAX_DEPTH t (map (\<lambda>r. cell_of r ''id'') (filter cond (d t))) ?d t)"
      by simp
    then show ?thesis
      by (rule drop_children_all [where P = "\<lambda>r. \<not> owned u sids t r" and d = ?d and t' = t, rotated 2])
        (use clean null_owns_nothing in blast)+
  qed
qed

lemma erase_tables_clean:
  "t \<in> set ts \<or> (\<forall>r \<in> set (d t). \<not> owned u sids t r) \<Longrightarrow>
   \<forall>r \<in> set (snd (fold (erase_table u sids) ts (ns, d)) t). \<not> owned u sids t r"
proof (induction ts arbitrary: ns d)
  case (Cons t' ts)
  obtain ns' d' where e: "erase_table u sids t' (ns, d) = (ns', d')" by fastforce
  have "t \<in> set ts \<or> (\<forall>r \<in> set (d' t). \<not> owned u sids t r)"
    using Cons.prems erase_cleans [where t = t' and d = d and ns = ns and u = u and sids = sids]
      erase_keeps_clean [where t' = t' and t = t and d = d and ns = ns and u = u and sids = sids]
    by (auto simp: e)
  then have "\<forall>r \<in> set (snd (fold (erase_table u sids) ts (ns', d')) t). \<not> owned u sids t r"
    by (rule Cons.IH)
  then show ?case by (simp add: e)
qed auto

lemma erased_clean:
  assumes "t \<in> registered" and "r \<in> set (snd (erase_subject d u b) t)"
  shows "\<not> owned u (session_ids d u) t r"
proof -
  let ?sids = "session_ids d u"
  let ?rd1 = "fold (erase_table u ?sids) leaf_phase ([], d)"
  let ?rd2 = "fold (erase_table u ?sids) DEFERRED (fst ?rd1, snd ?rd1)"
  have "t \<in> set leaf_phase \<or> t \<in> set DEFERRED" using assms(1) by (auto simp: registered_def leaf_phase_def)
  then have clean: "\<forall>r \<in> set (snd ?rd2 t). \<not> owned u ?sids t r"
    by (intro erase_tables_clean)
      (use erase_tables_clean [where ns = "[]" and d = d and t = t and ts = leaf_phase and u = u and sids = ?sids] in auto)
  have erased: "snd (erase_subject d u b) =
      (if b then snd (delete_rows ''users'' (\<lambda>r. cell_of r ''id'' = CStr u) (snd ?rd2)) else snd ?rd2)"
    by (simp add: erase_subject_def Let_def leaf_phase_def case_prod_beta)
  show ?thesis
  proof (cases b)
    case True
    with assms(2) erased have "r \<in> set (snd (delete_rows ''users'' (\<lambda>r. cell_of r ''id'' = CStr u) (snd ?rd2)) t)"
      by simp
    then show ?thesis
      by (rule delete_keeps [where P = "\<lambda>r. \<not> owned u ?sids t r", rotated 2])
        (use clean null_owns_nothing in auto)
  qed (use assms(2) erased clean in auto)
qed


lemma known_sessions: "''learning_sessions'' \<in> registered" "has_column ''learning_sessions'' ''user_id''"
  unfolding registered_def by code_simp+

lemma erased_rows:
  assumes "names_owner d" and "t \<in> registered"
  shows "snd (erase_subject d u b) t = filter (\<lambda>r. \<not> about (session_ids d u) u t r) (d t)"
proof -
  have "t \<noteq> ''users''" "t \<noteq> ''accounts''" "t \<noteq> ''sessions''" using assms(2) not_registered by auto
  then have "snd (erase_subject d u b) t = snd (erase_subject d u False) t"
    by (cases b) (simp_all add: erase_account [OF assms(1)])
  with assms(2) show ?thesis by (simp add: erase_registry [OF assms(1)] without_subject_def)
qed

lemma filter_implied: "(\<And>x. P x \<Longrightarrow> Q x) \<Longrightarrow> filter P (filter Q xs) = filter P xs"
  by (induction xs) auto

lemma erased_sessions:
  assumes "names_owner d" and "u \<noteq> v"
  shows "session_ids (snd (erase_subject d u b)) v = session_ids d v"
  unfolding session_ids_def erased_rows [OF assms(1) known_sessions(1)]
  using assms(2) known_sessions(2) by (subst filter_implied) (auto simp: about_def)

lemma sessions_apart:
  assumes "distinct (map (\<lambda>r. cell_of r ''id'') (d ''learning_sessions''))" and "u \<noteq> v"
    and "i \<in> set (session_ids d u)"
  shows "i \<notin> set (session_ids d v)"
proof
  assume "i \<in> set (session_ids d v)"
  then obtain r s where "r \<in> set (d ''learning_sessions'')" "s \<in> set (d ''learning_sessions'')"
    "cell_of r ''id'' = cell_of s ''id''" "cell_of r ''user_id'' = CStr u" "cell_of s ''user_id'' = CStr v"
    using assms(3) by (auto simp: session_ids_def)
  moreover from this assms(1) have "r = s" by (auto simp: distinct_map dest: inj_onD)
  ultimately show False using assms(2) by simp
qed

text \<open>C30. Once a learner's data is erased, an export of the learner finds nothing in any table of the
  registry, and no row of a table keyed by session belongs to a session the learner had.\<close>

theorem erasure_is_complete:
  "collect_subject_data w (snd (erase_subject d u b)) u = map (\<lambda>(t, _). (t, [])) ADMIN_TABLES \<and>
   list_all (\<lambda>t. filter (\<lambda>r. cell_of r ''session_id'' \<in> set (session_ids d u) - {CNull})
       (snd (erase_subject d u b) t) = [])
     (filter (\<lambda>t. \<not> has_column t ''user_id'') (map fst ADMIN_TABLES))"
proof -
  let ?d = "snd (erase_subject d u b)"
  have clean: "\<not> owned u (session_ids d u) t r" if "t \<in> registered" "r \<in> set (?d t)" for t r
    using that by (rule erased_clean)
  have "cell_of r ''user_id'' \<noteq> CStr u" if "r \<in> set (?d ''learning_sessions'')" for r
    using clean [OF known_sessions(1) that] known_sessions(2) by (simp add: owned_def about_def)
  then have sids: "session_ids ?d u = []" by (simp add: session_ids_def filter_empty_conv)
  have none: "subject_rows ?d u t = []" if "t \<in> registered" for t
    unfolding subject_rows_about sids
    using clean [OF that] by (auto simp: owned_def about_def filter_empty_conv)
  have "collect_subject_data w ?d u = map (\<lambda>(t, _). (t, [])) ADMIN_TABLES"
    using none by (force simp: collect_subject_data_def registered_def)
  moreover have attributable: "has_column t ''user_id'' \<or> has_column t ''session_id''" if "t \<in> registered" for t
    using every_table_attributable that by (auto simp: unattributable_tables_def filter_empty_conv registered_def)
  have "list_all (\<lambda>t. filter (\<lambda>r. cell_of r ''session_id'' \<in> set (session_ids d u) - {CNull}) (?d t) = [])
      (filter (\<lambda>t. \<not> has_column t ''user_id'') (map fst ADMIN_TABLES))"
  proof (unfold list_all_iff, intro ballI)
    fix t assume t: "t \<in> set (filter (\<lambda>t. \<not> has_column t ''user_id'') (map fst ADMIN_TABLES))"
    then have reg: "t \<in> registered" by (auto simp: registered_def)
    show "filter (\<lambda>r. cell_of r ''session_id'' \<in> set (session_ids d u) - {CNull}) (?d t) = []"
      using t attributable [OF reg] clean [OF reg] by (auto simp: filter_empty_conv owned_def about_def)
  qed
  ultimately show ?thesis by blast
qed


text \<open>Two learners with a session, a chat message and an audit entry each.\<close>

definition sample_store :: store where
  "sample_store = (\<lambda>_. [])(
     ''users'' := [[(''id'', CStr ''u'')], [(''id'', CStr ''v'')]],
     ''learning_sessions'' := [[(''id'', CStr ''s''), (''user_id'', CStr ''u'')], [(''id'', CStr ''t''), (''user_id'', CStr ''v'')]],
     ''chat_messages'' := [[(''id'', CStr ''1''), (''session_id'', CStr ''s'')], [(''id'', CStr ''2''), (''session_id'', CStr ''t'')]],
     ''mcp_audit'' := [[(''id'', CStr ''3''), (''user_id'', CStr ''u''), (''session_id'', CStr ''s'')]])"

definition sample_writer :: writer where
  "sample_writer = \<lparr>wr_isoformat = (\<lambda>_. ''now''), wr_str = (\<lambda>_. ''{}'')\<rparr>"


subsection \<open>The registry\<close>

text \<open>Every table of the registry exists, its columns are columns of its class, it can be sorted and
  searched by what it shows only, and an export or an erasure can tell whose its rows are.\<close>

theorem registry_well_formed:
  "distinct (map fst ADMIN_TABLES) \<and> unattributable_tables = [] \<and>
   list_all (\<lambda>(t, spec).
     list_all (has_column t) (ts_columns spec) \<and> distinct (ts_columns spec) \<and>
     list_all (\<lambda>c. c \<in> set (ts_columns spec)) (ts_sortable spec @ ts_searchable spec) \<and>
     ts_default_sort spec \<in> set (ts_sortable spec)) ADMIN_TABLES"
  by code_simp

text \<open>What the export leaves out of each table, though it is meant to show everything that is held.\<close>

lemma export_omits:
  "List.map_filter (\<lambda>(t, spec). case filter (\<lambda>c. c \<notin> set (ts_columns spec)) (columns_of t) of
       [] \<Rightarrow> None | cs \<Rightarrow> Some (t, cs)) ADMIN_TABLES =
   [(''agent_activity_events'', [''detail'']),
    (''behavioral_events'', [''extra_data'', ''created_at'']),
    (''chat_messages'', [''parts'', ''usage'']),
    (''validation_runs'', [''steps'']),
    (''learning_sessions'', [''last_seen_at'', ''paused_at'', ''expires_at'', ''research_id'', ''meta'', ''locale'']),
    (''consents'', [''decision'', ''policy_version'']),
    (''step_attempts'', [''error_details''])]"
  by code_simp

text \<open>A serialized row has the columns of its table, whatever the row, and no string of it is longer
  than two hundred characters and the ellipsis.\<close>

lemma truncated_length: "length (truncated s) \<le> 200 + length ellipsis"
  by (simp add: truncated_def)

fun short :: "cell \<Rightarrow> bool" where
  "short (CStr s) \<longleftrightarrow> length s \<le> 200 + length ellipsis"
| "short (CTime _) = False"
| "short (CEnum _) = False"
| "short (CUuid _) = False"
| "short (CJson _) = False"
| "short _ = True"

lemma written_short: "short (written w v)"
  by (cases v) (simp_all add: truncated_length)

theorem serialized_rows_are_plain:
  "map fst (serialize_row w spec r) = ts_columns spec \<and>
   list_all (\<lambda>(c, v). short v \<and> (if secret_column c then v = CStr ''***'' else True)) (serialize_row w spec r)"
  by (auto simp: serialize_row_def list_all_iff comp_def ellipsis_def intro: written_short)

subsection \<open>Searching\<close>

definition plain :: "string \<Rightarrow> bool" where
  "plain s \<longleftrightarrow> (\<forall>c \<in> set s. c \<notin> {CHR ''%'', CHR ''_'', CHR 0x5C})"

lemma like_everything: "like ''%'' s"
  by (auto simp: list_ex_iff intro: exI [of _ "[]"])

lemma like_prefix: "plain p \<Longrightarrow> like (p @ ''%'') s \<longleftrightarrow> starts_with s p"
proof (induction p arbitrary: s)
  case Nil
  then show ?case using like_everything by (simp add: starts_with_def)
next
  case (Cons c p)
  then show ?case by (cases s) (auto simp: plain_def starts_with_def)
qed


lemma like_contains: "plain p \<Longrightarrow> like (''%'' @ p @ ''%'') s \<longleftrightarrow> contains p s"
  by (auto simp: list_ex_iff like_prefix contains_spec starts_with_iff suffix_def Bex_def)

lemma lower_char_meta: "lower_char c \<in> {CHR ''%'', CHR ''_'', CHR 0x5C} \<Longrightarrow> lower_char c = c"
proof (cases "65 \<le> (of_char c :: nat) \<and> (of_char c :: nat) \<le> 90")
  case True
  then have "of_char (lower_char c) = (of_char c + 32 :: nat)" by (simp add: lower_char_def Let_def)
  moreover assume "lower_char c \<in> {CHR ''%'', CHR ''_'', CHR 0x5C}"
  ultimately show ?thesis using True by auto
next
  case False
  then show ?thesis by (auto simp: lower_char_def Let_def)
qed

lemma lower_plain: "plain p \<Longrightarrow> plain (lower p)"
  using lower_char_meta by (fastforce simp: plain_def lower_def)

text \<open>A search without wildcards finds the values that contain it, in either case.\<close>

theorem search_finds_substrings:
  assumes "plain search"
  shows "matches_search search v \<longleftrightarrow> (case v of None \<Rightarrow> False | Some s \<Rightarrow> contains (lower search) (lower s))"
proof -
  have "lower (search_pattern search) = ''%'' @ lower search @ ''%''"
    by (simp add: search_pattern_def lower_def lower_char_def)
  then show ?thesis
    using like_contains [OF lower_plain [OF assms]]
    by (simp add: matches_search_def ilike_def split: option.split)
qed

theorem search_finds_substrings_witness:
  "matches_search ''PC1'' (Some ''node pc1 is up'') = contains (lower ''PC1'') (lower ''node pc1 is up'')"
  using search_finds_substrings [of "''PC1''" "Some ''node pc1 is up''"] by (simp add: plain_def)

text \<open>Wildcards of the pattern are not escaped: an underscore finds everything that is not empty.\<close>

lemma underscore_finds_anything: "s \<noteq> [] \<Longrightarrow> matches_search ''_'' (Some s)"
  by (cases s) (auto simp: matches_search_def ilike_def search_pattern_def lower_def lower_char_def list_ex_iff
      intro!: exI [of _ "map lower_char s"])

subsection \<open>Pages\<close>

lemma pages_tile: "concat (map (\<lambda>p. page_of p n xs) [1..<Suc k]) = take (k * n) xs"
proof (induction k)
  case (Suc k)
  have "concat (map (\<lambda>p. page_of p n xs) [1..<Suc (Suc k)]) = take (k * n) xs @ take n (drop (k * n) xs)"
    using Suc.IH by (simp add: page_of_def)
  also have "\<dots> = take (k * n + n) xs" by (simp only: take_add)
  finally show ?case by (simp only: mult_Suc add.commute)
qed simp

lemma browsed_page:
  assumes "length (filter (searched cast_text spec search) rows) < COUNT_CAP"
    and "\<And>c a xs. length (order_by c a xs) = length xs"
  shows "pg_rows (browse_table w cast_text order_by spec p n sort_by asc search rows) =
    map (serialize_row w spec) (page_of p n (order_by (case sort_by of
      Some c \<Rightarrow> if c \<in> set (ts_sortable spec) then c else ts_default_sort spec | None \<Rightarrow> ts_default_sort spec)
      asc (filter (searched cast_text spec search) rows)))"
  using assms by (simp add: browse_table_def Let_def page_of_def)

text \<open>While fewer rows match than are counted at most, the count is exact and the pages together show
  every matching row exactly once, however the database orders them.\<close>

theorem pages_show_every_row_once:
  assumes "length (filter (searched cast_text spec search) rows) < COUNT_CAP"
    and "\<And>c a xs. mset (order_by c a xs) = mset xs"
    and "length (filter (searched cast_text spec search) rows) \<le> k * n"
  shows "mset (concat (map (\<lambda>p. pg_rows (browse_table w cast_text order_by spec p n sort_by asc search rows)) [1..<Suc k])) =
      mset (map (serialize_row w spec) (filter (searched cast_text spec search) rows)) \<and>
    pg_total (browse_table w cast_text order_by spec 1 n sort_by asc search rows) =
      length (filter (searched cast_text spec search) rows)"
proof -
  let ?found = "filter (searched cast_text spec search) rows"
  let ?c = "case sort_by of Some c \<Rightarrow> if c \<in> set (ts_sortable spec) then c else ts_default_sort spec
    | None \<Rightarrow> ts_default_sort spec"
  have len: "\<And>c a xs. length (order_by c a xs) = length xs" using assms(2) by (metis size_mset)
  have "concat (map (\<lambda>p. pg_rows (browse_table w cast_text order_by spec p n sort_by asc search rows)) [1..<Suc k]) =
      map (serialize_row w spec) (concat (map (\<lambda>p. page_of p n (order_by ?c asc ?found)) [1..<Suc k]))"
    by (simp only: browsed_page [where order_by = order_by, OF assms(1) len] map_concat map_map comp_def)
  also have "\<dots> = map (serialize_row w spec) (order_by ?c asc ?found)"
    unfolding pages_tile using assms(3) by (simp add: len)
  finally have "mset (concat (map (\<lambda>p. pg_rows (browse_table w cast_text order_by spec p n sort_by asc search rows)) [1..<Suc k])) =
      mset (map (serialize_row w spec) ?found)"
    by (simp only: mset_map assms(2))
  moreover have "pg_total (browse_table w cast_text order_by spec 1 n sort_by asc search rows) = length ?found"
    using assms(1) by (simp add: browse_table_def Let_def)
  ultimately show ?thesis by blast
qed

text \<open>The same query over a table of three rows, two to a page.\<close>

abbreviation audit_row :: "string \<Rightarrow> row" where
  "audit_row i \<equiv> [(''id'', CStr i), (''user_id'', CStr ''u'')]"

definition audit_spec :: table_spec where "audit_spec = the (map_of ADMIN_TABLES ''mcp_audit'')"

theorem pages_show_every_row_once_witness:
  "mset (concat (map (\<lambda>p. pg_rows (browse_table sample_writer (\<lambda>_. None) (\<lambda>_ _ xs. rev xs) audit_spec p 2 None True None
       [audit_row ''1'', audit_row ''2'', audit_row ''3''])) [1..<3])) =
     mset (map (serialize_row sample_writer audit_spec) [audit_row ''1'', audit_row ''2'', audit_row ''3''])"
proof -
  let ?rows = "[audit_row ''1'', audit_row ''2'', audit_row ''3'']"
  have all: "filter (searched (\<lambda>_. None) audit_spec None) ?rows = ?rows" by (simp add: searched_def)
  have "length (filter (searched (\<lambda>_. None) audit_spec None) ?rows) < COUNT_CAP"
    and "length (filter (searched (\<lambda>_. None) audit_spec None) ?rows) \<le> 2 * 2"
    unfolding all by (simp_all add: COUNT_CAP_def)
  from pages_show_every_row_once [where order_by = "\<lambda>_ _ xs. rev xs", OF this(1) _ this(2)] show ?thesis
    unfolding all by (simp only: mset_rev simp_thms numeral_3_eq_3 numeral_2_eq_2)
qed

subsection \<open>Changing users\<close>

text \<open>Nobody changes their own role, and whoever is no administrator changes nothing.\<close>

lemma own_role_is_kept:
  assumes "JStr (us_id u) = cu_id caller" and "u \<in> set (ad_users d)"
  shows "\<exists>u' \<in> set (ad_users (snd (update_user caller i b d))). us_id u' = us_id u \<and> us_role u' = us_role u"
proof (cases "snd (update_user caller i b d) = d")
  case False
  then have role: "us_id u = i \<longrightarrow> up_role b = None"
    and d: "ad_users (snd (update_user caller i b d)) = map (\<lambda>x. if us_id x = i then updated_user b x else x) (ad_users d)"
    using assms(1) by (auto simp: update_user_def split: sum.splits option.splits if_splits)
  have "(if us_id u = i then updated_user b u else u) \<in> set (ad_users (snd (update_user caller i b d)))"
    unfolding d using assms(2) by simp
  moreover have "us_id (if us_id u = i then updated_user b u else u) = us_id u"
    and "us_role (if us_id u = i then updated_user b u else u) = us_role u"
    using role by (simp_all add: updated_user_def)
  ultimately show ?thesis by blast
qed (use assms in auto)

lemma only_administrators_update: "cu_role caller \<noteq> JStr ''admin'' \<Longrightarrow> snd (update_user caller i b d) = d"
  by (simp add: update_user_def require_admin_def)

end
