(* ===== verification/Environment.thy ===== *)
theory Environment
  imports Validation
begin

text \<open>
  The life of a lab environment in the GNS3 service (\<open>services/session_lifecycle.py\<close>,
  \<open>services/node_actions.py\<close>, \<open>services/state_cache.py\<close>, \<open>services/state_snapshot.py\<close>).  The GNS3
  server is a parameter: its calls may fail and they change a state of their own; what the service
  relies on is \<open>gns3_laws\<close>.  Calls that run at the same time are modelled in the order copy, account.
\<close>

subsection \<open>The server\<close>

text \<open>Each call answers an exception or a value, and leaves a state.\<close>

type_synonym ('g, 'a) remote = "'g \<Rightarrow> (string + 'a) \<times> 'g"

record 'g gns3 =
  gn_duplicate :: "string \<Rightarrow> string \<Rightarrow> ('g, string) remote"
  gn_open :: "string \<Rightarrow> ('g, unit) remote"
  gn_delete_project :: "string \<Rightarrow> ('g, unit) remote"
  gn_find_user :: "string \<Rightarrow> ('g, string option) remote"
  gn_create_user :: "string \<Rightarrow> string \<Rightarrow> ('g, string) remote"
  gn_delete_user :: "string \<Rightarrow> ('g, unit) remote"
  gn_role :: "string \<Rightarrow> ('g, string) remote"
  gn_acl :: "string \<Rightarrow> string \<Rightarrow> string \<Rightarrow> ('g, unit) remote"
  gn_token :: "string \<Rightarrow> string \<Rightarrow> ('g, string) remote"
  gn_node_action :: "string \<Rightarrow> string \<Rightarrow> string \<Rightarrow> ('g, unit) remote"
  gn_bulk :: "string \<Rightarrow> string \<Rightarrow> ('g, unit) remote"
  gn_nodes :: "string \<Rightarrow> ('g, dict list) remote"
  gn_links :: "string \<Rightarrow> ('g, dict list) remote"

definition and_then :: "(string + 'a) \<times> 'g \<Rightarrow> ('a \<Rightarrow> ('g, 'b) remote) \<Rightarrow> (string + 'b) \<times> 'g" where
  "and_then x f = (case x of (Inl e, g) \<Rightarrow> (Inl e, g) | (Inr a, g) \<Rightarrow> f a g)"

subsection \<open>Rows, cache, forwarders\<close>

record env_session =
  ns_id :: string
  ns_user :: string
  ns_username :: string
  ns_project :: string
  ns_student :: string
  ns_active :: bool
  ns_created_at :: time
  ns_closed_at :: "time option"

text \<open>\<open>StateCache\<close>: a value per session with the time it was stored.\<close>

type_synonym 'v cache = "string \<rightharpoonup> real \<times> 'v"

definition STATE_TTL :: real where "STATE_TTL = 5"

definition cache_get :: "real \<Rightarrow> real \<Rightarrow> string \<Rightarrow> 'v cache \<Rightarrow> 'v option" where
  "cache_get ttl now k c =
     (case c k of None \<Rightarrow> None | Some (ts, v) \<Rightarrow> if ttl \<le> now - ts then None else Some v)"

definition cache_set :: "real \<Rightarrow> string \<Rightarrow> 'v \<Rightarrow> 'v cache \<Rightarrow> 'v cache" where
  "cache_set now k v c = c(k \<mapsto> (now, v))"

definition cache_invalidate :: "string \<Rightarrow> 'v cache \<Rightarrow> 'v cache" where
  "cache_invalidate k c = c(k := None)"

definition sweep_stale :: "real \<Rightarrow> real \<Rightarrow> real \<Rightarrow> 'v cache \<Rightarrow> 'v cache" where
  "sweep_stale ttl factor now c =
     (\<lambda>k. case c k of None \<Rightarrow> None | Some (ts, v) \<Rightarrow> if ttl * factor < now - ts then None else Some (ts, v))"

record snapshot_metrics =
  sm_nodes_total :: nat
  sm_nodes_started :: nat
  sm_links_count :: nat
  sm_uptime :: int

record session_state =
  ss_session_id :: string
  ss_project_id :: string
  ss_active :: bool
  ss_started_at :: time
  ss_nodes :: "dict list"
  ss_links :: "dict list"
  ss_metrics :: snapshot_metrics

record 'g service =
  sv_server :: 'g
  sv_rows :: "env_session list"
  sv_cache :: "session_state cache"
  sv_streams :: "(string \<times> string) list"

text \<open>\<open>ws_proxy\<close> may be missing, and starting a forwarder may fail or find another owner.\<close>

definition start_stream :: "bool \<Rightarrow> string \<Rightarrow> string \<Rightarrow> (string \<times> string) list \<Rightarrow> (string \<times> string) list" where
  "start_stream starts project session streams =
     (if starts \<and> project \<notin> fst ` set streams then streams @ [(project, session)] else streams)"

definition stop_stream :: "string \<Rightarrow> (string \<times> string) list \<Rightarrow> (string \<times> string) list" where
  "stop_stream project streams = filter (\<lambda>s. fst s \<noteq> project) streams"

definition find_row :: "string \<Rightarrow> env_session list \<Rightarrow> env_session option" where
  "find_row i rows = List.find (\<lambda>r. ns_id r = i) rows"

definition change_row :: "string \<Rightarrow> (env_session \<Rightarrow> env_session) \<Rightarrow> env_session list \<Rightarrow> env_session list" where
  "change_row i f rows = map (\<lambda>r. if ns_id r = i then f r else r) rows"

subsection \<open>Creating\<close>

text \<open>The username of a session; \<open>sha\<close> is the hex digest, cut to sixteen digits.\<close>

definition gns3_username_for :: "(string \<Rightarrow> string) \<Rightarrow> string \<Rightarrow> string" where
  "gns3_username_for sha session_id = ''student-'' @ take 16 (sha session_id)"

definition project_name :: "string \<Rightarrow> string" where
  "project_name username = ''session-'' @ username"

definition acl_path :: "string \<Rightarrow> string" where
  "acl_path project_id = ''/projects/'' @ project_id"

text \<open>Inside the gate: a left-over account is removed, or at least tried to be, then the account is made.\<close>

definition make_account :: "'g gns3 \<Rightarrow> string \<Rightarrow> string \<Rightarrow> ('g, string) remote" where
  "make_account srv username password g =
     and_then (gn_find_user srv username g) (\<lambda>orphan g1.
       gn_create_user srv username password
         (case orphan of None \<Rightarrow> g1 | Some i \<Rightarrow> snd (gn_delete_user srv i g1)))"

text \<open>What is left once both resources exist.\<close>

definition open_access ::
  "'g gns3 \<Rightarrow> string \<Rightarrow> string \<Rightarrow> string \<Rightarrow> string \<Rightarrow> ('g, string) remote" where
  "open_access srv username password user_id project_id g =
     and_then (gn_open srv project_id g) (\<lambda>_ g1.
     and_then (gn_role srv ''User'' g1) (\<lambda>user_role g2.
     and_then (gn_role srv ''Auditor'' g2) (\<lambda>auditor_role g3.
     and_then (gn_acl srv (acl_path project_id) user_role user_id g3) (\<lambda>_ g4.
     and_then (gn_acl srv ''/projects'' auditor_role user_id g4) (\<lambda>_ g5.
       gn_token srv username password g5)))))"

definition rollback_created :: "'g gns3 \<Rightarrow> string \<Rightarrow> string \<Rightarrow> 'g \<Rightarrow> 'g" where
  "rollback_created srv user_id project_id g =
     snd (gn_delete_user srv user_id (snd (gn_delete_project srv project_id g)))"

record created =
  cr_session_id :: string
  cr_jwt :: string
  cr_project :: string
  cr_user :: string
  cr_username :: string
  cr_password :: string
  cr_url :: string
  cr_deep_url :: string

record launch_env =
  le_id :: string
  le_password :: string
  le_now :: time
  le_commits :: bool
  le_starts :: bool
  le_public_url :: string

text \<open>\<open>rstrip('/')\<close> and the address of the project in the web client.\<close>

definition build_deep_url :: "string \<Rightarrow> string \<Rightarrow> string" where
  "build_deep_url public_url project_id =
     rev (dropWhile (\<lambda>c. c = CHR ''/'') (rev public_url)) @ ''/static/web-ui/controller/1/project/'' @ project_id"

definition create_session ::
  "'g gns3 \<Rightarrow> (string \<Rightarrow> string) \<Rightarrow> launch_env \<Rightarrow> string \<Rightarrow> string \<Rightarrow> 'g service \<Rightarrow>
   (string + created) \<times> 'g service" where
  "create_session srv sha env student template s =
     (let username = gns3_username_for sha (le_id env);
          (project, g1) = gn_duplicate srv template (project_name username) (sv_server s);
          (account, g2) = make_account srv username (le_password env) g1
      in case account of
           Inl e \<Rightarrow> (Inl e, s\<lparr>sv_server := g2\<rparr>)
         | Inr u \<Rightarrow>
         case project of
           Inl e \<Rightarrow> (Inl e, s\<lparr>sv_server := g2\<rparr>)
         | Inr p \<Rightarrow>
         case open_access srv username (le_password env) u p g2 of
           (Inl e, g3) \<Rightarrow> (Inl e, s\<lparr>sv_server := rollback_created srv u p g3\<rparr>)
         | (Inr jwt, g3) \<Rightarrow>
             if \<not> le_commits env then (Inl ''commit'', s\<lparr>sv_server := rollback_created srv u p g3\<rparr>)
             else (Inr \<lparr>cr_session_id = le_id env, cr_jwt = jwt, cr_project = p, cr_user = u,
                 cr_username = username, cr_password = le_password env, cr_url = le_public_url env,
                 cr_deep_url = build_deep_url (le_public_url env) p\<rparr>,
               s\<lparr>sv_server := g3,
                 sv_rows := sv_rows s @ [\<lparr>ns_id = le_id env, ns_user = u, ns_username = username,
                   ns_project = p, ns_student = student, ns_active = True, ns_created_at = le_now env,
                   ns_closed_at = None\<rparr>],
                 sv_streams := start_stream (le_starts env) p (le_id env) (sv_streams s)\<rparr>))"

subsection \<open>Using and ending\<close>

datatype env_error = SessionNotFound | SessionClosed | Failed string

text \<open>Resetting copies the template again; the row moves to the copy and the old project goes.\<close>

definition copy_for_reset :: "'g gns3 \<Rightarrow> env_session \<Rightarrow> string \<Rightarrow> ('g, string) remote" where
  "copy_for_reset srv row template g =
     and_then (gn_duplicate srv template (project_name (ns_username row)) g) (\<lambda>p g1.
     and_then (gn_open srv p g1) (\<lambda>_ g2.
     and_then (gn_role srv ''User'' g2) (\<lambda>user_role g3.
     and_then (gn_acl srv (acl_path p) user_role (ns_user row) g3) (\<lambda>_ g4. (Inr p, g4)))))"

definition reset_project ::
  "'g gns3 \<Rightarrow> launch_env \<Rightarrow> string \<Rightarrow> string \<Rightarrow> 'g service \<Rightarrow> (env_error + string) \<times> 'g service" where
  "reset_project srv env session_id template s =
     (case find_row session_id (sv_rows s) of
        None \<Rightarrow> (Inl SessionNotFound, s)
      | Some row \<Rightarrow>
          if \<not> ns_active row then (Inl SessionClosed, s)
          else case copy_for_reset srv row template (sv_server s) of
            (Inl e, g) \<Rightarrow> (Inl (Failed e), s\<lparr>sv_server := g\<rparr>)
          | (Inr p, g) \<Rightarrow>
              if \<not> le_commits env then (Inl (Failed ''commit''), s\<lparr>sv_server := g\<rparr>)
              else (Inr p,
                s\<lparr>sv_server := snd (gn_delete_project srv (ns_project row) g),
                  sv_rows := change_row session_id (\<lambda>r. r\<lparr>ns_project := p\<rparr>) (sv_rows s),
                  sv_streams := start_stream (le_starts env) p session_id
                    (stop_stream (ns_project row) (sv_streams s))\<rparr>))"

definition issue_user_token ::
  "'g gns3 \<Rightarrow> string \<Rightarrow> string \<Rightarrow> 'g service \<Rightarrow> (env_error + string) \<times> 'g service" where
  "issue_user_token srv session_id password s =
     (case find_row session_id (sv_rows s) of
        None \<Rightarrow> (Inl SessionNotFound, s)
      | Some row \<Rightarrow>
          if \<not> ns_active row then (Inl SessionClosed, s)
          else (case gn_token srv (ns_username row) password (sv_server s) of
            (r, g) \<Rightarrow> (map_sum Failed id r, s\<lparr>sv_server := g\<rparr>)))"

text \<open>Every step of the clean-up may fail; the row is closed all the same.\<close>

definition clean_up :: "'g gns3 \<Rightarrow> env_session \<Rightarrow> 'g \<Rightarrow> 'g" where
  "clean_up srv row g =
     snd (gn_delete_project srv (ns_project row)
       (snd (gn_delete_user srv (ns_user row) (snd (gn_bulk srv (ns_project row) ''stop'' g)))))"

definition delete_session ::
  "'g gns3 \<Rightarrow> launch_env \<Rightarrow> string \<Rightarrow> 'g service \<Rightarrow> (env_error + unit) \<times> 'g service" where
  "delete_session srv env session_id s =
     (case find_row session_id (sv_rows s) of
        None \<Rightarrow> (Inl SessionNotFound, s)
      | Some row \<Rightarrow>
          if \<not> ns_active row then (Inr (), s)
          else (let s1 = s\<lparr>sv_server := clean_up srv row (sv_server s),
                  sv_cache := cache_invalidate session_id (sv_cache s),
                  sv_streams := stop_stream (ns_project row) (sv_streams s)\<rparr>
            in if \<not> le_commits env then (Inl (Failed ''commit''), s1)
               else (Inr (), s1\<lparr>sv_rows := change_row session_id
                 (\<lambda>r. r\<lparr>ns_active := False, ns_closed_at := Some (le_now env)\<rparr>) (sv_rows s)\<rparr>)))"

definition VALID_NODE_ACTIONS :: "string list" where
  "VALID_NODE_ACTIONS = [''start'', ''stop'', ''suspend'', ''reload'']"

definition on_active ::
  "string \<Rightarrow> string \<Rightarrow> (env_session \<Rightarrow> ('g, unit) remote) \<Rightarrow> 'g service \<Rightarrow> (env_error + unit) \<times> 'g service" where
  "on_active session_id action call s =
     (case find_row session_id (sv_rows s) of
        None \<Rightarrow> (Inl SessionNotFound, s)
      | Some row \<Rightarrow>
          if \<not> ns_active row then (Inl SessionClosed, s)
          else if action \<notin> set VALID_NODE_ACTIONS then (Inl (Failed ''Invalid action''), s)
          else (case call row (sv_server s) of
            (Inl e, g) \<Rightarrow> (Inl (Failed e), s\<lparr>sv_server := g\<rparr>)
          | (Inr _, g) \<Rightarrow> (Inr (), s\<lparr>sv_server := g, sv_cache := cache_invalidate session_id (sv_cache s)\<rparr>)))"

definition node_action ::
  "'g gns3 \<Rightarrow> string \<Rightarrow> string \<Rightarrow> string \<Rightarrow> 'g service \<Rightarrow> (env_error + unit) \<times> 'g service" where
  "node_action srv session_id node_id action =
     on_active session_id action (\<lambda>row. gn_node_action srv (ns_project row) node_id action)"

definition bulk_node_action ::
  "'g gns3 \<Rightarrow> string \<Rightarrow> string \<Rightarrow> 'g service \<Rightarrow> (env_error + unit) \<times> 'g service" where
  "bulk_node_action srv session_id action =
     on_active session_id action (\<lambda>row. gn_bulk srv (ns_project row) action)"

subsection \<open>The state of a session\<close>

text \<open>A node or link of the server, with the defaults of a closed project; a missing key raises.\<close>

definition with_default :: "string \<Rightarrow> json \<Rightarrow> dict \<Rightarrow> string \<times> json" where
  "with_default k v d = (k, case map_of d k of Some x \<Rightarrow> x | None \<Rightarrow> v)"

definition node_view :: "dict \<Rightarrow> string + dict" where
  "node_view n =
     (case (map_of n ''node_id'', map_of n ''name'', map_of n ''node_type'') of
        (Some i, Some name, Some kind) \<Rightarrow>
          Inr [(''id'', i), (''name'', name), (''node_type'', kind),
            with_default ''status'' (JStr ''stopped'') n, with_default ''console'' JNull n,
            with_default ''console_type'' JNull n, with_default ''console_host'' (JStr []) n,
            with_default ''symbol'' (JStr []) n]
      | _ \<Rightarrow> Inl ''KeyError'')"

text \<open>An end of a link: three fields of the right types, further keys are dropped.\<close>

definition endpoint_view :: "json \<Rightarrow> string + json" where
  "endpoint_view e =
     (case e of
        JObj d \<Rightarrow>
          (case (map_of d ''node_id'', map_of d ''adapter_number'', map_of d ''port_number'') of
             (Some (JStr n), Some (JInt a), Some (JInt p)) \<Rightarrow>
               Inr (JObj [(''node_id'', JStr n), (''adapter_number'', JInt a), (''port_number'', JInt p)])
           | _ \<Rightarrow> Inl ''ValidationError'')
      | _ \<Rightarrow> Inl ''TypeError'')"

fun views :: "('a \<Rightarrow> string + 'b) \<Rightarrow> 'a list \<Rightarrow> string + 'b list" where
  "views f [] = Inr []"
| "views f (d # ds) = (case f d of Inl e \<Rightarrow> Inl e | Inr v \<Rightarrow> map_sum id ((#) v) (views f ds))"

definition link_view :: "dict \<Rightarrow> string + dict" where
  "link_view l =
     (case (map_of l ''link_id'', map_of l ''nodes'') of
        (Some i, Some (JList ends)) \<Rightarrow>
          map_sum id (\<lambda>es. [(''id'', i), (''nodes'', JList es)]) (views endpoint_view ends)
      | _ \<Rightarrow> Inl ''KeyError'')"

definition node_started :: "dict \<Rightarrow> bool" where
  "node_started n \<longleftrightarrow> map_of n ''status'' = Some (JStr ''started'')"

text \<open>\<open>int\<close> of the seconds since the session began; it cuts towards zero.\<close>

definition uptime_seconds :: "time \<Rightarrow> env_session \<Rightarrow> int" where
  "uptime_seconds now row =
     (let d = total_seconds (now - ns_created_at row) in if 0 \<le> d then \<lfloor>d\<rfloor> else \<lceil>d\<rceil>)"

definition state_of :: "env_session \<Rightarrow> time \<Rightarrow> dict list \<Rightarrow> dict list \<Rightarrow> session_state" where
  "state_of row now nodes links =
     \<lparr>ss_session_id = ns_id row, ss_project_id = ns_project row, ss_active = ns_active row,
      ss_started_at = ns_created_at row,
      ss_nodes = nodes, ss_links = links,
      ss_metrics = \<lparr>sm_nodes_total = length nodes, sm_nodes_started = count_if node_started nodes,
        sm_links_count = length links, sm_uptime = uptime_seconds now row\<rparr>\<rparr>"

text \<open>Both lists are asked for, whatever the first answers.\<close>

definition project_view :: "'g gns3 \<Rightarrow> string \<Rightarrow> ('g, dict list \<times> dict list) remote" where
  "project_view srv project_id g =
     (let (nodes, g1) = gn_nodes srv project_id g; (links, g2) = gn_links srv project_id g1
      in and_then (nodes, g2) (\<lambda>nodes_raw g3. and_then (links, g3) (\<lambda>links_raw g4.
         and_then (views node_view nodes_raw, g4) (\<lambda>ns g5.
         and_then (views link_view links_raw, g5) (\<lambda>ls g6. (Inr (ns, ls), g6))))))"

definition fetch_state ::
  "'g gns3 \<Rightarrow> real \<Rightarrow> time \<Rightarrow> string \<Rightarrow> 'g service \<Rightarrow> (env_error + session_state) \<times> 'g service" where
  "fetch_state srv clock_now now session_id s =
     (case cache_get STATE_TTL clock_now session_id (sv_cache s) of
        Some state \<Rightarrow> (Inr state, s)
      | None \<Rightarrow>
          (case find_row session_id (sv_rows s) of
             None \<Rightarrow> (Inl SessionNotFound, s)
           | Some row \<Rightarrow>
               (case project_view srv (ns_project row) (sv_server s) of
                  (Inl e, g) \<Rightarrow> (Inl (Failed e), s\<lparr>sv_server := g\<rparr>)
                | (Inr (nodes, links), g) \<Rightarrow>
                    (let state = state_of row now nodes links
                     in (Inr state, s\<lparr>sv_server := g,
                           sv_cache := cache_set clock_now session_id state (sv_cache s)\<rparr>)))))"

end
