(* ===== verification/Admin_Client.thy ===== *)
theory Admin_Client
  imports Environment
begin

text \<open>
  The client of the GNS3 server (\<open>clients/admin/\<close>): requests with the administrator's token, one new
  login after a 401, three tries of a call whose failure may pass, five of a copy of a locked project.
  The HTTP transport is a parameter.  The waits between tries are left out, and a login happens in one
  piece, so the lock around it is, too; so is the task that renews the token ahead of time.
\<close>

subsection \<open>Transport\<close>

datatype client_error =
    ConnectError | ReadTimeout | WriteTimeout | RemoteProtocolError
  | TransportError
  | HTTPStatusError nat
  | BadAnswer

datatype http_method = GET | POST | DELETE

text \<open>A request has a method, a path, a body and the headers' token; it answers a status and a JSON value.\<close>

type_synonym 'g http = "http_method \<Rightarrow> string \<Rightarrow> json \<Rightarrow> string option \<Rightarrow> 'g \<Rightarrow> (client_error + nat \<times> json) \<times> 'g"

record 'g client =
  ac_server :: 'g
  ac_token :: "string option"
  ac_roles :: "(string \<times> json) list"

type_synonym ('g, 'a) call = "'g client \<Rightarrow> (client_error + 'a) \<times> 'g client"

definition is_transient :: "client_error \<Rightarrow> bool" where
  "is_transient e =
     (case e of
        HTTPStatusError code \<Rightarrow> 500 \<le> code \<and> code < 600
      | TransportError \<Rightarrow> False
      | BadAnswer \<Rightarrow> False
      | _ \<Rightarrow> True)"

definition bind_call :: "('g, 'a) call \<Rightarrow> ('a \<Rightarrow> ('g, 'b) call) \<Rightarrow> ('g, 'b) call" where
  "bind_call m f c = (case m c of (Inl e, c1) \<Rightarrow> (Inl e, c1) | (Inr x, c1) \<Rightarrow> f x c1)"

definition give :: "'a \<Rightarrow> ('g, 'a) call" where
  "give x c = (Inr x, c)"

text \<open>A request with the token of the moment, and \<open>raise_for_status\<close> on its answer.\<close>

definition send :: "'g http \<Rightarrow> http_method \<Rightarrow> string \<Rightarrow> json \<Rightarrow> ('g, nat \<times> json) call" where
  "send http m path body c =
     (case http m path body (ac_token c) (ac_server c) of (r, g) \<Rightarrow> (r, c\<lparr>ac_server := g\<rparr>))"

definition raise_for_status :: "nat \<times> json \<Rightarrow> ('g, json) call" where
  "raise_for_status r c =
     (if 200 \<le> fst r \<and> fst r < 300 then (Inr (snd r), c) else (Inl (HTTPStatusError (fst r)), c))"

definition send_ok :: "'g http \<Rightarrow> http_method \<Rightarrow> string \<Rightarrow> json \<Rightarrow> ('g, json) call" where
  "send_ok http m path body = bind_call (send http m path body) raise_for_status"

text \<open>A key the answer must have.\<close>

definition str_field :: "string \<Rightarrow> json \<Rightarrow> ('g, string) call" where
  "str_field k v c =
     (case v of
        JObj d \<Rightarrow> (case map_of d k of Some (JStr s) \<Rightarrow> (Inr s, c) | _ \<Rightarrow> (Inl BadAnswer, c))
      | _ \<Rightarrow> (Inl BadAnswer, c))"

definition authenticate :: "'g http \<Rightarrow> json \<Rightarrow> ('g, unit) call" where
  "authenticate http login =
     bind_call (bind_call (send_ok http POST ''/v3/access/users/authenticate'' login) (str_field ''access_token''))
       (\<lambda>token c. (Inr (), c\<lparr>ac_token := Some token\<rparr>))"

subsection \<open>Trying again\<close>

definition retry_on_401 :: "'g http \<Rightarrow> json \<Rightarrow> ('g, 'a) call \<Rightarrow> ('g, 'a) call" where
  "retry_on_401 http login m c =
     (case m c of
        (Inl (HTTPStatusError code), c1) \<Rightarrow>
          if code = 401 then bind_call (authenticate http login) (\<lambda>_. m) c1
          else (Inl (HTTPStatusError code), c1)
      | r \<Rightarrow> r)"

definition STOP_AFTER_ATTEMPT :: nat where "STOP_AFTER_ATTEMPT = 3"

fun tries :: "nat \<Rightarrow> ('g, 'a) call \<Rightarrow> ('g, 'a) call" where
  "tries 0 m c = m c"
| "tries (Suc n) m c =
     (case m c of
        (Inl e, c1) \<Rightarrow> if is_transient e then tries n m c1 else (Inl e, c1)
      | r \<Rightarrow> r)"

definition transient_retry :: "('g, 'a) call \<Rightarrow> ('g, 'a) call" where
  "transient_retry = tries (STOP_AFTER_ATTEMPT - 1)"

subsection \<open>Projects\<close>

text \<open>409 says that the source is still opening; the last answer counts.\<close>

fun duplicate_posts :: "nat \<Rightarrow> ('g, nat \<times> json) call \<Rightarrow> ('g, nat \<times> json) call" where
  "duplicate_posts 0 m c = m c"
| "duplicate_posts (Suc n) m c =
     (case m c of
        (Inr r, c1) \<Rightarrow> if fst r = 409 then duplicate_posts n m c1 else (Inr r, c1)
      | r \<Rightarrow> r)"

definition project_path :: "string \<Rightarrow> string" where
  "project_path project_id = ''/v3/projects/'' @ project_id"

definition duplicate_project :: "'g http \<Rightarrow> json \<Rightarrow> string \<Rightarrow> string \<Rightarrow> ('g, json) call" where
  "duplicate_project http login project_id name =
     transient_retry (retry_on_401 http login
       (bind_call (duplicate_posts 4 (send http POST (project_path project_id @ ''/duplicate'')
          (JObj (if name = [] then [] else [(''name'', JStr name)])))) raise_for_status))"

definition open_project :: "'g http \<Rightarrow> json \<Rightarrow> string \<Rightarrow> ('g, json) call" where
  "open_project http login project_id =
     transient_retry (retry_on_401 http login (send_ok http POST (project_path project_id @ ''/open'') JNull))"

definition delete_project :: "'g http \<Rightarrow> json \<Rightarrow> string \<Rightarrow> ('g, json) call" where
  "delete_project http login project_id =
     retry_on_401 http login (send_ok http DELETE (project_path project_id) JNull)"

subsection \<open>Accounts, roles and access\<close>

definition user_body :: "string \<Rightarrow> string \<Rightarrow> json" where
  "user_body username password = JObj [(''username'', JStr username), (''password'', JStr password)]"

definition create_user :: "'g http \<Rightarrow> json \<Rightarrow> string \<Rightarrow> string \<Rightarrow> ('g, json) call" where
  "create_user http login username password =
     transient_retry (retry_on_401 http login (send_ok http POST ''/v3/access/users'' (user_body username password)))"

definition delete_user :: "'g http \<Rightarrow> json \<Rightarrow> string \<Rightarrow> ('g, json) call" where
  "delete_user http login user_id =
     retry_on_401 http login (send_ok http DELETE (''/v3/access/users/'' @ user_id) JNull)"

definition entries :: "json \<Rightarrow> ('g, dict list) call" where
  "entries v c =
     (case v of
        JList xs \<Rightarrow>
          if list_all (\<lambda>x. case x of JObj _ \<Rightarrow> True | _ \<Rightarrow> False) xs
          then (Inr (map (\<lambda>x. case x of JObj d \<Rightarrow> d | _ \<Rightarrow> []) xs), c) else (Inl BadAnswer, c)
      | _ \<Rightarrow> (Inl BadAnswer, c))"

definition find_user_by_name :: "'g http \<Rightarrow> json \<Rightarrow> string \<Rightarrow> ('g, dict option) call" where
  "find_user_by_name http login username =
     retry_on_401 http login
       (bind_call (bind_call (send_ok http GET ''/v3/access/users'' JNull) entries)
         (\<lambda>us. give (List.find (\<lambda>u. map_of u ''username'' = Some (JStr username)) us)))"

definition get_user_token :: "'g http \<Rightarrow> json \<Rightarrow> string \<Rightarrow> string \<Rightarrow> ('g, string) call" where
  "get_user_token http login username password =
     transient_retry (retry_on_401 http login
       (bind_call (send_ok http POST ''/v3/access/users/authenticate'' (user_body username password))
         (str_field ''access_token'')))"

text \<open>Built-in roles are looked up once.\<close>

definition builtin_role :: "string \<Rightarrow> dict \<Rightarrow> bool" where
  "builtin_role name d \<longleftrightarrow> map_of d ''is_builtin'' = Some (JBool True) \<and> map_of d ''name'' = Some (JStr name)"

definition get_builtin_role :: "'g http \<Rightarrow> json \<Rightarrow> string \<Rightarrow> ('g, json) call" where
  "get_builtin_role http login name =
     retry_on_401 http login (\<lambda>c.
       case map_of (ac_roles c) name of
         Some role \<Rightarrow> (Inr role, c)
       | None \<Rightarrow>
           bind_call (bind_call (send_ok http GET ''/v3/access/roles'' JNull) entries)
             (\<lambda>roles c1. case List.find (builtin_role name) roles of
                None \<Rightarrow> (Inl BadAnswer, c1)
              | Some d \<Rightarrow> (Inr (JObj d), c1\<lparr>ac_roles := (name, JObj d) # ac_roles c1\<rparr>)) c)"

definition create_acl :: "'g http \<Rightarrow> json \<Rightarrow> string \<Rightarrow> string \<Rightarrow> string \<Rightarrow> ('g, json) call" where
  "create_acl http login path role_id user_id =
     transient_retry (retry_on_401 http login (send_ok http POST ''/v3/access/acl''
       (JObj [(''path'', JStr path), (''role_id'', JStr role_id), (''user_id'', JStr user_id),
          (''ace_type'', JStr ''user''), (''allowed'', JBool True)])))"

subsection \<open>Nodes\<close>

definition get_nodes :: "'g http \<Rightarrow> json \<Rightarrow> string \<Rightarrow> ('g, json) call" where
  "get_nodes http login project_id =
     retry_on_401 http login (send_ok http GET (project_path project_id @ ''/nodes'') JNull)"

definition get_links :: "'g http \<Rightarrow> json \<Rightarrow> string \<Rightarrow> ('g, json) call" where
  "get_links http login project_id =
     retry_on_401 http login (send_ok http GET (project_path project_id @ ''/links'') JNull)"

definition post_node :: "'g http \<Rightarrow> json \<Rightarrow> string \<Rightarrow> string \<Rightarrow> string \<Rightarrow> ('g, json) call" where
  "post_node http login project_id node_id action =
     (if action \<notin> set VALID_NODE_ACTIONS then (\<lambda>c. (Inl BadAnswer, c))
      else retry_on_401 http login
        (send_ok http POST (project_path project_id @ ''/nodes/'' @ node_id @ ''/'' @ action) (JObj [])))"

definition post_nodes :: "'g http \<Rightarrow> json \<Rightarrow> string \<Rightarrow> string \<Rightarrow> ('g, json) call" where
  "post_nodes http login project_id action =
     (if action \<notin> set VALID_NODE_ACTIONS then (\<lambda>c. (Inl BadAnswer, c))
      else retry_on_401 http login
        (send_ok http POST (project_path project_id @ ''/nodes/'' @ action) (JObj [])))"

subsection \<open>The client as the service uses it\<close>

definition told :: "(client_error + 'a) \<times> 'c \<Rightarrow> (string + 'a) \<times> 'c" where
  "told r = (map_sum (\<lambda>_. ''error'') id (fst r), snd r)"

definition admin_client :: "'g http \<Rightarrow> json \<Rightarrow> 'g client gns3" where
  "admin_client http login =
     \<lparr>gn_duplicate = (\<lambda>t n c. told (bind_call (duplicate_project http login t n) (str_field ''project_id'') c)),
      gn_open = (\<lambda>p c. told (bind_call (open_project http login p) (\<lambda>_. give ()) c)),
      gn_delete_project = (\<lambda>p c. told (bind_call (delete_project http login p) (\<lambda>_. give ()) c)),
      gn_find_user = (\<lambda>n c. told (bind_call (find_user_by_name http login n)
        (\<lambda>u. case u of None \<Rightarrow> give None | Some d \<Rightarrow> bind_call (str_field ''user_id'' (JObj d)) (\<lambda>i. give (Some i))) c)),
      gn_create_user = (\<lambda>n pw c. told (bind_call (create_user http login n pw) (str_field ''user_id'') c)),
      gn_delete_user = (\<lambda>i c. told (bind_call (delete_user http login i) (\<lambda>_. give ()) c)),
      gn_role = (\<lambda>r c. told (bind_call (get_builtin_role http login r) (str_field ''role_id'') c)),
      gn_acl = (\<lambda>path r i c. told (bind_call (create_acl http login path r i) (\<lambda>_. give ()) c)),
      gn_token = (\<lambda>n pw c. told (get_user_token http login n pw c)),
      gn_node_action = (\<lambda>p n a c. told (bind_call (post_node http login p n a) (\<lambda>_. give ()) c)),
      gn_bulk = (\<lambda>p a c. told (bind_call (post_nodes http login p a) (\<lambda>_. give ()) c)),
      gn_nodes = (\<lambda>p c. told (bind_call (get_nodes http login p) entries c)),
      gn_links = (\<lambda>p c. told (bind_call (get_links http login p) entries c))\<rparr>"

end
