(* ===== verification/Environment_Properties.thy ===== *)
theory Environment_Properties
  imports Environment
begin

text \<open>
  Properties of the lab environments: what the GNS3 server must do (\<open>gns3_laws\<close>), that active
  sessions have projects and accounts of their own which exist, that a launch which fails late leaves
  nothing behind, and that deleting is final.
\<close>

subsection \<open>What the service relies on\<close>

text \<open>The projects and the accounts of a server's state; calls the laws do not name keep both.\<close>

definition keeps :: "('g \<Rightarrow> string set) \<Rightarrow> ('g \<Rightarrow> string \<Rightarrow> string option) \<Rightarrow> ('g, 'a) remote \<Rightarrow> bool" where
  "keeps projects accts call \<longleftrightarrow>
     (\<forall>g. projects (snd (call g)) = projects g \<and> accts (snd (call g)) = accts g)"

definition copies_projects ::
  "'g gns3 \<Rightarrow> ('g \<Rightarrow> string set) \<Rightarrow> ('g \<Rightarrow> string \<Rightarrow> string option) \<Rightarrow> bool" where
  "copies_projects srv projects accts \<longleftrightarrow>
     (\<forall>t n g. accts (snd (gn_duplicate srv t n g)) = accts g \<and>
        (case gn_duplicate srv t n g of
           (Inr p, g') \<Rightarrow> p \<notin> projects g \<and> insert p (projects g) \<subseteq> projects g'
         | (Inl _, g') \<Rightarrow> projects g \<subseteq> projects g'))"

definition makes_accounts ::
  "'g gns3 \<Rightarrow> ('g \<Rightarrow> string set) \<Rightarrow> ('g \<Rightarrow> string \<Rightarrow> string option) \<Rightarrow> bool" where
  "makes_accounts srv projects accts \<longleftrightarrow>
     (\<forall>n pw g. projects (snd (gn_create_user srv n pw g)) = projects g \<and>
        (case gn_create_user srv n pw g of
           (Inr i, g') \<Rightarrow> accts g i = None \<and> accts g' = (accts g)(i \<mapsto> n)
         | (Inl _, g') \<Rightarrow> accts g \<subseteq>\<^sub>m accts g'))"

definition deletes ::
  "'g gns3 \<Rightarrow> ('g \<Rightarrow> string set) \<Rightarrow> ('g \<Rightarrow> string \<Rightarrow> string option) \<Rightarrow> bool" where
  "deletes srv projects accts \<longleftrightarrow>
     (\<forall>p g. accts (snd (gn_delete_project srv p g)) = accts g \<and>
        (case gn_delete_project srv p g of
           (Inr _, g') \<Rightarrow> projects g' = projects g - {p}
         | (Inl _, g') \<Rightarrow> projects g' \<subseteq> projects g \<and> projects g - {p} \<subseteq> projects g')) \<and>
     (\<forall>i g. projects (snd (gn_delete_user srv i g)) = projects g \<and>
        (case gn_delete_user srv i g of
           (Inr _, g') \<Rightarrow> accts g' = (accts g)(i := None)
         | (Inl _, g') \<Rightarrow> accts g' = accts g \<or> accts g' = (accts g)(i := None)))"

definition finds_accounts :: "'g gns3 \<Rightarrow> ('g \<Rightarrow> string \<Rightarrow> string option) \<Rightarrow> bool" where
  "finds_accounts srv accts \<longleftrightarrow>
     (\<forall>n g. case gn_find_user srv n g of (Inr (Some i), g') \<Rightarrow> accts g i = Some n | _ \<Rightarrow> True)"

definition gns3_laws ::
  "'g gns3 \<Rightarrow> ('g \<Rightarrow> string set) \<Rightarrow> ('g \<Rightarrow> string \<Rightarrow> string option) \<Rightarrow> bool" where
  "gns3_laws srv projects accts \<longleftrightarrow>
     copies_projects srv projects accts \<and> makes_accounts srv projects accts \<and> deletes srv projects accts \<and>
     finds_accounts srv accts \<and>
     (\<forall>n. keeps projects accts (gn_find_user srv n)) \<and>
     (\<forall>p. keeps projects accts (gn_open srv p)) \<and> (\<forall>r. keeps projects accts (gn_role srv r)) \<and>
     (\<forall>path r i. keeps projects accts (gn_acl srv path r i)) \<and>
     (\<forall>n pw. keeps projects accts (gn_token srv n pw)) \<and>
     (\<forall>p n a. keeps projects accts (gn_node_action srv p n a)) \<and>
     (\<forall>p a. keeps projects accts (gn_bulk srv p a)) \<and>
     (\<forall>p. keeps projects accts (gn_nodes srv p)) \<and> (\<forall>p. keeps projects accts (gn_links srv p))"

lemma keeps_then:
  assumes "keeps pr us call" and "\<And>a. keeps pr us (f a)"
  shows "keeps pr us (\<lambda>g. and_then (call g) f)"
  using assms by (auto simp: keeps_def and_then_def split: prod.splits sum.splits) (metis snd_conv)+

lemma keeps_return: "keeps pr us (\<lambda>g. (r, g))"
  by (simp add: keeps_def)

lemma kept_call: "keeps pr us call \<Longrightarrow> call g = (r, g') \<Longrightarrow> pr g' = pr g \<and> us g' = us g"
  by (metis keeps_def snd_conv)

lemma laws_keep:
  assumes "gns3_laws srv pr us"
  shows "keeps pr us (gn_find_user srv n)" "keeps pr us (gn_open srv p)" "keeps pr us (gn_role srv n)"
    "keeps pr us (gn_acl srv path n p)" "keeps pr us (gn_token srv n pw)"
    "keeps pr us (gn_node_action srv p n a)" "keeps pr us (gn_bulk srv p a)"
    "keeps pr us (gn_nodes srv p)" "keeps pr us (gn_links srv p)"
  using assms by (simp_all add: gns3_laws_def)

lemma laws_parts:
  assumes "gns3_laws srv pr us"
  shows "copies_projects srv pr us" "makes_accounts srv pr us" "deletes srv pr us"
    "finds_accounts srv us"
  using assms unfolding gns3_laws_def by blast+

lemma open_access_keeps:
  assumes "gns3_laws srv pr us"
  shows "keeps pr us (open_access srv username password u p)"
  unfolding open_access_def by (intro keeps_then laws_keep [OF assms])

subsection \<open>What stands behind the rows\<close>

text \<open>The active rows have projects and accounts of their own, which exist.\<close>

definition backed ::
  "('g \<Rightarrow> string set) \<Rightarrow> ('g \<Rightarrow> string \<Rightarrow> string option) \<Rightarrow> 'g \<Rightarrow> env_session list \<Rightarrow> bool" where
  "backed pr us g rows \<longleftrightarrow>
     distinct (map ns_project (filter ns_active rows)) \<and> distinct (map ns_user (filter ns_active rows)) \<and>
     (\<forall>r \<in> set rows. ns_active r \<longrightarrow> ns_project r \<in> pr g \<and> us g (ns_user r) = Some (ns_username r))"

lemma backed_later:
  assumes "backed pr us g rows"
    and "\<And>r. r \<in> set rows \<Longrightarrow> ns_active r \<Longrightarrow> ns_project r \<in> pr g' \<and> us g' (ns_user r) = Some (ns_username r)"
  shows "backed pr us g' rows"
  using assms by (auto simp: backed_def)

lemma backed_kept: "backed pr us g rows \<Longrightarrow> pr g' = pr g \<Longrightarrow> us g' = us g \<Longrightarrow> backed pr us g' rows"
  by (simp add: backed_def)

text \<open>Copying a project.\<close>

lemma copied:
  assumes "gns3_laws srv pr us" and "gn_duplicate srv t n g = (x, g')"
  shows "us g' = us g" and "pr g \<subseteq> pr g'" and "x = Inr p \<Longrightarrow> p \<notin> pr g \<and> insert p (pr g) \<subseteq> pr g'"
proof -
  have law: "us (snd (gn_duplicate srv t n g)) = us g \<and>
      (case gn_duplicate srv t n g of (Inr p, g') \<Rightarrow> p \<notin> pr g \<and> insert p (pr g) \<subseteq> pr g' | (Inl _, g') \<Rightarrow> pr g \<subseteq> pr g')"
    by (rule copies_projects_def [THEN iffD1, OF laws_parts(1) [OF assms(1)], THEN spec, THEN spec, THEN spec])
  then show "us g' = us g" by (simp add: assms(2))
  show "pr g \<subseteq> pr g'" using law by (auto simp: assms(2) split: sum.splits)
  show "x = Inr p \<Longrightarrow> p \<notin> pr g \<and> insert p (pr g) \<subseteq> pr g'" using law by (simp add: assms(2))
qed

lemma project_deleted:
  assumes "gns3_laws srv pr us"
  shows "us (snd (gn_delete_project srv p g)) = us g" and "pr (snd (gn_delete_project srv p g)) \<subseteq> pr g"
    and "pr g - {p} \<subseteq> pr (snd (gn_delete_project srv p g))"
    and "fst (gn_delete_project srv p g) = Inr () \<Longrightarrow> pr (snd (gn_delete_project srv p g)) = pr g - {p}"
proof -
  have law: "us (snd (gn_delete_project srv p g)) = us g \<and> (case gn_delete_project srv p g of
      (Inr _, g') \<Rightarrow> pr g' = pr g - {p} | (Inl _, g') \<Rightarrow> pr g' \<subseteq> pr g \<and> pr g - {p} \<subseteq> pr g')"
    by (rule deletes_def [THEN iffD1, OF laws_parts(3) [OF assms(1)], THEN conjunct1, THEN spec, THEN spec])
  show "us (snd (gn_delete_project srv p g)) = us g" using law by blast
  show "pr (snd (gn_delete_project srv p g)) \<subseteq> pr g"
    and "pr g - {p} \<subseteq> pr (snd (gn_delete_project srv p g))"
    and "fst (gn_delete_project srv p g) = Inr () \<Longrightarrow> pr (snd (gn_delete_project srv p g)) = pr g - {p}"
    using law by (auto split: prod.splits sum.splits)
qed

lemma account_deleted:
  assumes "gns3_laws srv pr us"
  shows "pr (snd (gn_delete_user srv i g)) = pr g"
    and "us (snd (gn_delete_user srv i g)) = us g \<or> us (snd (gn_delete_user srv i g)) = (us g)(i := None)"
    and "fst (gn_delete_user srv i g) = Inr () \<Longrightarrow> us (snd (gn_delete_user srv i g)) = (us g)(i := None)"
proof -
  have law: "pr (snd (gn_delete_user srv i g)) = pr g \<and> (case gn_delete_user srv i g of
      (Inr _, g') \<Rightarrow> us g' = (us g)(i := None) | (Inl _, g') \<Rightarrow> us g' = us g \<or> us g' = (us g)(i := None))"
    by (rule deletes_def [THEN iffD1, OF laws_parts(3) [OF assms(1)], THEN conjunct2, THEN spec, THEN spec])
  show "pr (snd (gn_delete_user srv i g)) = pr g" using law by blast
  show "us (snd (gn_delete_user srv i g)) = us g \<or> us (snd (gn_delete_user srv i g)) = (us g)(i := None)"
    and "fst (gn_delete_user srv i g) = Inr () \<Longrightarrow> us (snd (gn_delete_user srv i g)) = (us g)(i := None)"
    using law by (auto split: prod.splits sum.splits)
qed

text \<open>Making an account removes at most accounts of that name, and names the new one.\<close>

lemma account_created:
  assumes "gns3_laws srv pr us" and "gn_create_user srv n pw g = (x, g')"
  shows "pr g' = pr g" and "us g \<subseteq>\<^sub>m us g'" and "x = Inr u \<Longrightarrow> us g u = None \<and> us g' = (us g)(u \<mapsto> n)"
proof -
  have law: "pr (snd (gn_create_user srv n pw g)) = pr g \<and> (case gn_create_user srv n pw g of
      (Inr i, g') \<Rightarrow> us g i = None \<and> us g' = (us g)(i \<mapsto> n) | (Inl _, g') \<Rightarrow> us g \<subseteq>\<^sub>m us g')"
    by (rule makes_accounts_def [THEN iffD1, OF laws_parts(2) [OF assms(1)], THEN spec, THEN spec, THEN spec])
  then show "pr g' = pr g" by (simp add: assms(2))
  show "us g \<subseteq>\<^sub>m us g'" using law by (auto simp: assms(2) map_le_def split: sum.splits)
  show "x = Inr u \<Longrightarrow> us g u = None \<and> us g' = (us g)(u \<mapsto> n)" using law by (simp add: assms(2))
qed

lemma found_account:
  assumes "gns3_laws srv pr us" and "gn_find_user srv n g = (Inr (Some i), g')"
  shows "us g i = Some n"
proof -
  have "case gn_find_user srv n g of (Inr (Some i), g') \<Rightarrow> us g i = Some n | _ \<Rightarrow> True"
    by (rule finds_accounts_def [THEN iffD1, OF laws_parts(4) [OF assms(1)], THEN spec, THEN spec])
  then show ?thesis by (simp add: assms(2))
qed

text \<open>What the gate does first: accounts of other names stay.\<close>

lemma account_made:
  assumes laws: "gns3_laws srv pr us" and made: "make_account srv n pw g = (x, g')"
  shows "pr g' = pr g \<and> (\<forall>i m. us g i = Some m \<and> m \<noteq> n \<longrightarrow> us g' i = Some m) \<and>
    (\<forall>u. x = Inr u \<longrightarrow> us g' u = Some n \<and> (us g')(u := None) \<subseteq>\<^sub>m us g \<and> (\<forall>m. us g u = Some m \<longrightarrow> m = n))"
proof -
  obtain o' g1 where f: "gn_find_user srv n g = (o', g1)" by fastforce
  have g1: "pr g1 = pr g \<and> us g1 = us g" by (rule kept_call [OF laws_keep(1) [OF laws] f])
  show ?thesis
  proof (cases o')
    case (Inl e)
    with made g1 show ?thesis by (auto simp: make_account_def f and_then_def)
  next
    case (Inr orphan)
    define g2 where "g2 = (case orphan of None \<Rightarrow> g1 | Some i \<Rightarrow> snd (gn_delete_user srv i g1))"
    have g2: "pr g2 = pr g \<and> (us g2 = us g \<or> (\<exists>i. us g i = Some n \<and> us g2 = (us g)(i := None)))"
    proof (cases orphan)
      case (Some i)
      with found_account [OF laws] f Inr have "us g i = Some n" by blast
      then show ?thesis using account_deleted(1,2) [OF laws, of i g1] g1 by (auto simp: g2_def Some)
    qed (use g1 in \<open>simp add: g2_def\<close>)
    have made: "gn_create_user srv n pw g2 = (x, g')"
      using made by (simp add: make_account_def f Inr and_then_def g2_def)
    note c = account_created [OF laws made]
    have "us g' i = Some m" if "us g i = Some m" "m \<noteq> n" for i m
    proof -
      from that g2 have "us g2 i = Some m" by auto
      with c(2) show ?thesis by (metis domI map_le_def)
    qed
    moreover have "us g' u = Some n \<and> (us g')(u := None) \<subseteq>\<^sub>m us g \<and> (\<forall>m. us g u = Some m \<longrightarrow> m = n)"
      if "x = Inr u" for u
      using c(3) [OF that] g2 by (auto simp: map_le_def split: if_splits)
    ultimately show ?thesis using c(1) g2 by auto
  qed
qed

lemma rolled_back:
  assumes "gns3_laws srv pr us"
  shows "pr g - {p} \<subseteq> pr (rollback_created srv u p g)"
    and "i \<noteq> u \<Longrightarrow> us (rollback_created srv u p g) i = us g i"
proof -
  show "pr g - {p} \<subseteq> pr (rollback_created srv u p g)"
    using project_deleted(3) [OF assms] account_deleted(1) [OF assms] by (simp add: rollback_created_def)
  show "us (rollback_created srv u p g) i = us g i" if "i \<noteq> u"
    using account_deleted(2) [OF assms, of u "snd (gn_delete_project srv p g)"] project_deleted(1) [OF assms, of p g] that
    by (auto simp: rollback_created_def)
qed


subsection \<open>Every operation keeps the rows backed\<close>

lemma backed_row:
  "backed pr us g rows \<Longrightarrow> r \<in> set rows \<Longrightarrow> ns_active r \<Longrightarrow>
   ns_project r \<in> pr g \<and> us g (ns_user r) = Some (ns_username r)"
  by (simp add: backed_def)

lemma create_backed:
  assumes laws: "gns3_laws srv pr us" and ok: "backed pr us (sv_server s) (sv_rows s)"
    and new: "gns3_username_for sha (le_id env) \<notin> set (map ns_username (sv_rows s))"
  shows "backed pr us (sv_server (snd (create_session srv sha env student template s)))
    (sv_rows (snd (create_session srv sha env student template s)))"
proof -
  let ?n = "gns3_username_for sha (le_id env)"
  obtain project g1 where copy: "gn_duplicate srv template (project_name ?n) (sv_server s) = (project, g1)" by fastforce
  obtain account g2 where acc: "make_account srv ?n (le_password env) g1 = (account, g2)" by fastforce
  note c = copied [OF laws copy]
  have a: "pr g2 = pr g1 \<and> (\<forall>i m. us g1 i = Some m \<and> m \<noteq> ?n \<longrightarrow> us g2 i = Some m) \<and>
      (\<forall>u. account = Inr u \<longrightarrow> us g2 u = Some ?n \<and> (\<forall>m. us g1 u = Some m \<longrightarrow> m = ?n))"
    using account_made [OF laws acc] by blast
  have row: "ns_project r \<in> pr (sv_server s) \<and> ns_project r \<in> pr g2 \<and> us g1 (ns_user r) = Some (ns_username r) \<and>
      us g2 (ns_user r) = Some (ns_username r) \<and> ns_username r \<noteq> ?n"
    if "r \<in> set (sv_rows s)" "ns_active r" for r
  proof -
    from new that(1) have other: "ns_username r \<noteq> ?n" by force
    moreover have "us g2 (ns_user r) = Some (ns_username r)"
      using a other backed_row [OF ok that] c(1) by simp
    ultimately show ?thesis using backed_row [OF ok that] c(1,2) a by auto
  qed
  have g2: "backed pr us g2 (sv_rows s)" using row by (intro backed_later [OF ok]) blast
  show ?thesis
  proof (cases account)
    case (Inl e)
    then show ?thesis using g2 by (simp add: create_session_def Let_def copy acc)
  next
    case (Inr u)
    show ?thesis
    proof (cases project)
      case (Inl e)
      then show ?thesis using g2 Inr by (simp add: create_session_def Let_def copy acc)
    next
      case p: (Inr p)
      obtain x g3 where o': "open_access srv ?n (le_password env) u p g2 = (x, g3)" by fastforce
      have g3: "pr g3 = pr g2 \<and> us g3 = us g2" by (rule kept_call [OF open_access_keeps [OF laws] o'])
      have fresh: "ns_project r \<noteq> p \<and> ns_user r \<noteq> u" if "r \<in> set (sv_rows s)" "ns_active r" for r
        using row [OF that] c(3) [OF p] a Inr by auto
      have undone: "backed pr us (rollback_created srv u p g3) (sv_rows s)"
      proof (rule backed_later [OF ok])
        fix r assume r: "r \<in> set (sv_rows s)" "ns_active r"
        with row g3 fresh have "ns_project r \<in> pr g3 - {p}" by auto
        then have "ns_project r \<in> pr (rollback_created srv u p g3)" using rolled_back(1) [OF laws] by blast
        moreover have "us (rollback_created srv u p g3) (ns_user r) = us g3 (ns_user r)"
          using fresh [OF r] by (intro rolled_back(2) [OF laws]) blast
        ultimately show "ns_project r \<in> pr (rollback_created srv u p g3) \<and>
            us (rollback_created srv u p g3) (ns_user r) = Some (ns_username r)"
          using row [OF r] g3 by simp
      qed
      have "backed pr us g3 (sv_rows s @ [\<lparr>ns_id = le_id env, ns_user = u, ns_username = ?n, ns_project = p,
          ns_student = student, ns_active = True, ns_created_at = le_now env, ns_closed_at = None\<rparr>])"
        using ok g2 g3 fresh a Inr c(3) [OF p] by (auto simp: backed_def)
      then show ?thesis using undone
        by (simp add: create_session_def Let_def copy acc Inr p o' split: sum.split)
    qed
  qed
qed

lemma find_row_in: "find_row i rows = Some row \<Longrightarrow> row \<in> set rows \<and> ns_id row = i"
  by (simp add: find_row_def find_Some_iff) (metis nth_mem)

lemma change_row_eq:
  assumes "distinct (map ns_id rows)" and "row \<in> set rows"
  shows "change_row (ns_id row) f rows = map (\<lambda>r. if r = row then f r else r) rows"
proof -
  have "ns_id r = ns_id row \<longleftrightarrow> r = row" if "r \<in> set rows" for r
    using assms that by (auto simp: distinct_map dest: inj_onD)
  then show ?thesis by (simp add: change_row_def)
qed

lemma change_row_other: "distinct (map ns_id rows) \<Longrightarrow> row \<in> set rows \<Longrightarrow> r \<in> set (change_row (ns_id row) f rows) \<Longrightarrow>
  r = f row \<or> r \<in> set rows \<and> r \<noteq> row"
  by (auto simp: change_row_eq split: if_splits)

text \<open>Changing one row: where its project and its account stay apart from all others.\<close>

lemma actives_changed:
  assumes "distinct (map ns_id rows)" and "row \<in> set rows" and "ns_active row"
    and "\<And>r. ns_id (f r) = ns_id r"
  shows "filter ns_active (change_row (ns_id row) f rows) =
    (if ns_active (f row) then map (\<lambda>r. if r = row then f r else r) (filter ns_active rows)
     else filter (\<lambda>r. r \<noteq> row) (filter ns_active rows))"
proof -
  have "change_row (ns_id row) f rows = map (\<lambda>r. if r = row then f r else r) rows"
    by (rule change_row_eq [OF assms(1,2)])
  moreover have "filter ns_active (map (\<lambda>r. if r = row then f r else r) rs) =
      (if ns_active (f row) then map (\<lambda>r. if r = row then f r else r) (filter ns_active rs)
       else filter (\<lambda>r. r \<noteq> row) (filter ns_active rs))" for rs
    using assms(3) by (induction rs) auto
  ultimately show ?thesis by simp
qed

lemma distinct_replaced:
  "distinct (map f xs) \<Longrightarrow> p \<notin> f ` set xs \<Longrightarrow> distinct (map (\<lambda>r. if r = row then p else f r) xs)"
  by (induction xs) (auto simp: image_iff split: if_splits)

lemma reset_backed:
  assumes laws: "gns3_laws srv pr us" and ids: "distinct (map ns_id (sv_rows s))"
    and ok: "backed pr us (sv_server s) (sv_rows s)"
  shows "backed pr us (sv_server (snd (reset_project srv env i template s)))
    (sv_rows (snd (reset_project srv env i template s)))"
proof (cases "find_row i (sv_rows s)")
  case (Some row)
  note row = find_row_in [OF Some]
  show ?thesis
  proof (cases "ns_active row")
    case True
    obtain x g where copy: "copy_for_reset srv row template (sv_server s) = (x, g)" by fastforce
    obtain d g1 where dup: "gn_duplicate srv template (project_name (ns_username row)) (sv_server s) = (d, g1)"
      by fastforce
    note c = copied [OF laws dup]
    have rest: "keeps pr us (\<lambda>g1. and_then (gn_open srv p g1) (\<lambda>_ g2. and_then (gn_role srv ''User'' g2) (\<lambda>user_role g3.
        and_then (gn_acl srv (acl_path p) user_role (ns_user row) g3) (\<lambda>_ g4. (Inr p, g4)))))" for p
      by (intro keeps_then laws_keep [OF laws] keeps_return)
    have same: "pr g = pr g1 \<and> us g = us g1"
    proof (cases d)
      case (Inl e)
      with copy dup show ?thesis by (auto simp: copy_for_reset_def and_then_def)
    next
      case (Inr p)
      from copy dup Inr show ?thesis
        using kept_call [OF rest, of p g1 x g] by (simp add: copy_for_reset_def and_then_def)
    qed
    have g: "backed pr us g (sv_rows s)"
      by (rule backed_later [OF ok]) (use backed_row [OF ok] c(1,2) same in auto)
    have "backed pr us (snd (gn_delete_project srv (ns_project row) g))
        (change_row i (\<lambda>r. r\<lparr>ns_project := p\<rparr>) (sv_rows s))" if x: "x = Inr p" for p
    proof -
      have "d = Inr p"
        using copy dup x by (auto simp: copy_for_reset_def and_then_def split: prod.splits sum.splits)
      with c(3) same have p: "p \<notin> pr (sv_server s)" "insert p (pr (sv_server s)) \<subseteq> pr g" by auto
      have acts: "filter ns_active (change_row i (\<lambda>r. r\<lparr>ns_project := p\<rparr>) (sv_rows s)) =
          map (\<lambda>r. if r = row then r\<lparr>ns_project := p\<rparr> else r) (filter ns_active (sv_rows s))"
        using actives_changed [OF ids, of row "\<lambda>r. r\<lparr>ns_project := p\<rparr>"] row True by simp
      have old: "ns_project r \<noteq> ns_project row"
        if "r \<in> set (sv_rows s)" "ns_active r" "r \<noteq> row" for r
        using ok that row True by (auto simp: backed_def distinct_map dest: inj_onD)
      have "ns_project r \<in> pr g - {ns_project row} \<and> us g (ns_user r) = Some (ns_username r)"
        if r: "r \<in> set (change_row i (\<lambda>r. r\<lparr>ns_project := p\<rparr>) (sv_rows s))" "ns_active r" for r
      proof -
        from change_row_other [OF ids, of row] r(1) row
        consider "r = row\<lparr>ns_project := p\<rparr>" | "r \<in> set (sv_rows s)" "r \<noteq> row" by blast
        then show ?thesis
        proof cases
          case 1
          then show ?thesis using backed_row [OF ok, of row] row True p c(1) same by auto
        next
          case 2
          then show ?thesis using backed_row [OF ok, of r] r(2) old p c(1) same by auto
        qed
      qed
      then have exist: "ns_project r \<in> pr (snd (gn_delete_project srv (ns_project row) g)) \<and>
          us (snd (gn_delete_project srv (ns_project row) g)) (ns_user r) = Some (ns_username r)"
        if "r \<in> set (change_row i (\<lambda>r. r\<lparr>ns_project := p\<rparr>) (sv_rows s))" "ns_active r" for r
        using that project_deleted(1,3) [OF laws] by (metis subsetD)
      have "p \<notin> ns_project ` set (filter ns_active (sv_rows s))"
        using p(1) backed_row [OF ok] by auto
      then have apart: "distinct (map ns_project (map (\<lambda>r. if r = row then r\<lparr>ns_project := p\<rparr> else r) (filter ns_active (sv_rows s))))"
        using distinct_replaced [of ns_project "filter ns_active (sv_rows s)" p row] ok
        by (simp add: backed_def comp_def if_distrib cong: if_cong)
      have "map ns_user (map (\<lambda>r. if r = row then r\<lparr>ns_project := p\<rparr> else r) (filter ns_active (sv_rows s))) =
          map ns_user (filter ns_active (sv_rows s))" by simp
      then have "distinct (map ns_user (map (\<lambda>r. if r = row then r\<lparr>ns_project := p\<rparr> else r) (filter ns_active (sv_rows s))))"
        using ok by (simp only: backed_def)
      then show ?thesis unfolding backed_def acts using apart exist by blast
    qed
    then show ?thesis using g by (simp add: reset_project_def Some True copy split: sum.split)
  qed (use ok in \<open>simp add: reset_project_def Some\<close>)
qed (use ok in \<open>simp add: reset_project_def\<close>)

lemma cleaned_up:
  assumes laws: "gns3_laws srv pr us"
  shows "pr g - {ns_project row} \<subseteq> pr (clean_up srv row g)"
    and "i \<noteq> ns_user row \<Longrightarrow> us (clean_up srv row g) i = us g i"
proof -
  let ?g1 = "snd (gn_bulk srv (ns_project row) ''stop'' g)"
  let ?g2 = "snd (gn_delete_user srv (ns_user row) ?g1)"
  have 1: "pr ?g1 = pr g \<and> us ?g1 = us g"
    using laws_keep(7) [OF laws, of "ns_project row" "''stop''"] unfolding keeps_def by blast
  have 2: "pr ?g2 = pr g" "us ?g2 = us g \<or> us ?g2 = (us g)(ns_user row := None)"
    using account_deleted(1,2) [OF laws, of "ns_user row" ?g1] 1 by simp_all
  show "pr g - {ns_project row} \<subseteq> pr (clean_up srv row g)"
    using project_deleted(3) [OF laws, of ?g2 "ns_project row"] 2(1) by (simp add: clean_up_def)
  show "us (clean_up srv row g) i = us g i" if "i \<noteq> ns_user row"
    using project_deleted(1) [OF laws, of "ns_project row" ?g2] 2(2) that by (auto simp: clean_up_def)
qed

lemma delete_backed:
  assumes laws: "gns3_laws srv pr us" and ids: "distinct (map ns_id (sv_rows s))"
    and ok: "backed pr us (sv_server s) (sv_rows s)" and commits: "le_commits env"
  shows "backed pr us (sv_server (snd (delete_session srv env i s)))
    (sv_rows (snd (delete_session srv env i s)))"
proof (cases "find_row i (sv_rows s)")
  case (Some row)
  note row = find_row_in [OF Some]
  show ?thesis
  proof (cases "ns_active row")
    case True
    let ?f = "\<lambda>r. r\<lparr>ns_active := False, ns_closed_at := Some (le_now env)\<rparr>"
    let ?g = "clean_up srv row (sv_server s)"
    have acts: "filter ns_active (change_row i ?f (sv_rows s)) =
        filter (\<lambda>r. r \<noteq> row) (filter ns_active (sv_rows s))"
      using actives_changed [OF ids, of row ?f] row True by simp
    have "ns_project r \<in> pr ?g \<and> us ?g (ns_user r) = Some (ns_username r)"
      if r: "r \<in> set (change_row i ?f (sv_rows s))" "ns_active r" for r
    proof -
      have "r \<noteq> ?f row" using r(2) by auto
      with change_row_other [OF ids, of row r ?f] r(1) row have r': "r \<in> set (sv_rows s)" "r \<noteq> row" by blast+
      with ok r(2) row True have "ns_project r \<noteq> ns_project row" "ns_user r \<noteq> ns_user row"
        by (auto simp: backed_def distinct_map dest: inj_onD)
      then show ?thesis
        using backed_row [OF ok r'(1) r(2)] cleaned_up [OF laws, where row = row and g = "sv_server s"] by auto
    qed
    moreover have "distinct (map h (filter (\<lambda>r. r \<noteq> row) (filter ns_active (sv_rows s))))"
      if "distinct (map h (filter ns_active (sv_rows s)))" for h :: "env_session \<Rightarrow> string"
      using that by (rule distinct_map_filter)
    ultimately have "backed pr us ?g (change_row i ?f (sv_rows s))"
      using ok unfolding backed_def acts by blast
    then show ?thesis using commits by (simp add: delete_session_def Some True Let_def)
  qed (use ok in \<open>simp add: delete_session_def Some\<close>)
qed (use ok in \<open>simp add: delete_session_def\<close>)

subsection \<open>Runs\<close>

datatype env_op =
    Create launch_env string string
  | Reset launch_env string string
  | Delete launch_env string
  | NodeAction string string string
  | BulkAction string string
  | Token string string
  | State real time string

fun env_step :: "'g gns3 \<Rightarrow> (string \<Rightarrow> string) \<Rightarrow> env_op \<Rightarrow> 'g service \<Rightarrow> 'g service" where
  "env_step srv sha (Create env student template) s = snd (create_session srv sha env student template s)"
| "env_step srv sha (Reset env i template) s = snd (reset_project srv env i template s)"
| "env_step srv sha (Delete env i) s = snd (delete_session srv env i s)"
| "env_step srv sha (NodeAction i n a) s = snd (node_action srv i n a s)"
| "env_step srv sha (BulkAction i a) s = snd (bulk_node_action srv i a s)"
| "env_step srv sha (Token i pw) s = snd (issue_user_token srv i pw s)"
| "env_step srv sha (State now uptime i) s = snd (fetch_state srv now uptime i s)"

text \<open>The ids of the sessions an operation creates, and that a deletion commits.\<close>

fun launched :: "env_op \<Rightarrow> string list" where
  "launched (Create env _ _) = [le_id env]"
| "launched _ = []"

fun settles :: "env_op \<Rightarrow> bool" where
  "settles (Delete env _) = le_commits env"
| "settles _ = True"

definition well_kept ::
  "(string \<Rightarrow> string) \<Rightarrow> ('g \<Rightarrow> string set) \<Rightarrow> ('g \<Rightarrow> string \<Rightarrow> string option) \<Rightarrow> 'g service \<Rightarrow> bool" where
  "well_kept sha pr us s \<longleftrightarrow> distinct (map ns_id (sv_rows s)) \<and> backed pr us (sv_server s) (sv_rows s) \<and>
     (\<forall>r \<in> set (sv_rows s). ns_username r = gns3_username_for sha (ns_id r))"

lemma rows_changed:
  assumes "rows' = rows \<or> rows' = change_row i f rows"
    and "\<And>r. ns_id (f r) = ns_id r \<and> ns_username (f r) = ns_username r"
    and "\<forall>r \<in> set rows. ns_username r = h (ns_id r)"
  shows "map ns_id rows' = map ns_id rows \<and> (\<forall>r \<in> set rows'. ns_username r = h (ns_id r))"
proof -
  have "map ns_id (change_row i f rows) = map ns_id rows" using assms(2) by (simp add: change_row_def)
  moreover have "\<forall>r \<in> set (change_row i f rows). ns_username r = h (ns_id r)"
    using assms(2,3) by (auto simp: change_row_def)
  ultimately show ?thesis using assms(1,3) by blast
qed

text \<open>Operations that leave the rows alone keep what the laws keep.\<close>

lemma quiet_backed:
  assumes "well_kept sha pr us s" and "sv_rows s' = sv_rows s"
    and "pr (sv_server s') = pr (sv_server s) \<and> us (sv_server s') = us (sv_server s)"
  shows "well_kept sha pr us s' \<and> map ns_id (sv_rows s') = map ns_id (sv_rows s)"
  using assms backed_kept by (auto simp: well_kept_def)

lemma on_active_quiet:
  assumes "\<And>row. keeps pr us (call row)"
  shows "sv_rows (snd (on_active i a call s)) = sv_rows s \<and>
    pr (sv_server (snd (on_active i a call s))) = pr (sv_server s) \<and>
    us (sv_server (snd (on_active i a call s))) = us (sv_server s)"
proof (cases "find_row i (sv_rows s)")
  case (Some row)
  obtain x g where c: "call row (sv_server s) = (x, g)" by fastforce
  have "pr g = pr (sv_server s) \<and> us g = us (sv_server s)" by (rule kept_call [OF assms c])
  then show ?thesis by (simp add: on_active_def Some c split: sum.split)
qed (simp add: on_active_def)

lemma project_view_keeps:
  assumes "gns3_laws srv pr us"
  shows "keeps pr us (project_view srv p)"
proof -
  have "pr (snd (project_view srv p g)) = pr g \<and> us (snd (project_view srv p g)) = us g" for g
  proof -
    obtain n g1 where n: "gn_nodes srv p g = (n, g1)" by fastforce
    obtain l g2 where l: "gn_links srv p g1 = (l, g2)" by fastforce
    have "snd (project_view srv p g) = g2"
      by (auto simp: project_view_def n l and_then_def split: sum.split)
    then show ?thesis
      using kept_call [OF laws_keep(8) [OF assms] n] kept_call [OF laws_keep(9) [OF assms] l] by simp
  qed
  then show ?thesis by (simp add: keeps_def)
qed

lemma fetch_quiet:
  assumes "gns3_laws srv pr us"
  shows "sv_rows (snd (fetch_state srv now uptime i s)) = sv_rows s \<and>
    pr (sv_server (snd (fetch_state srv now uptime i s))) = pr (sv_server s) \<and>
    us (sv_server (snd (fetch_state srv now uptime i s))) = us (sv_server s)"
proof (cases "cache_get STATE_TTL now i (sv_cache s) = None \<and> find_row i (sv_rows s) \<noteq> None")
  case True
  then obtain row where row: "find_row i (sv_rows s) = Some row" and miss: "cache_get STATE_TTL now i (sv_cache s) = None"
    by blast
  obtain x g where c: "project_view srv (ns_project row) (sv_server s) = (x, g)" by fastforce
  have "pr g = pr (sv_server s) \<and> us g = us (sv_server s)"
    by (rule kept_call [OF project_view_keeps [OF assms] c])
  then show ?thesis by (simp add: fetch_state_def miss row c Let_def split: sum.split prod.split)
qed (auto simp: fetch_state_def split: option.split)

lemma env_step_kept:
  assumes laws: "gns3_laws srv pr us" and ok: "well_kept sha pr us s" and "settles e"
    and new: "distinct (map (gns3_username_for sha) (map ns_id (sv_rows s) @ launched e))"
  shows "well_kept sha pr us (env_step srv sha e s) \<and>
    (map ns_id (sv_rows (env_step srv sha e s)) = map ns_id (sv_rows s) \<or>
     map ns_id (sv_rows (env_step srv sha e s)) = map ns_id (sv_rows s) @ launched e)"
proof (cases e)
  case (Create env student template)
  have names: "set (map ns_username (sv_rows s)) = gns3_username_for sha ` set (map ns_id (sv_rows s))"
    using ok by (force simp: well_kept_def)
  have name: "gns3_username_for sha (le_id env) \<notin> set (map ns_username (sv_rows s))"
    using new unfolding names by (auto simp: Create)
  let ?s = "snd (create_session srv sha env student template s)"
  have rows: "sv_rows ?s = sv_rows s \<or> (\<exists>r. sv_rows ?s = sv_rows s @ [r] \<and> ns_id r = le_id env \<and>
      ns_username r = gns3_username_for sha (le_id env))"
    by (auto simp: create_session_def Let_def split: prod.split sum.split)
  moreover have "le_id env \<notin> set (map ns_id (sv_rows s))" using new by (auto simp: Create)
  ultimately show ?thesis
    using create_backed [OF laws _ name, of student template] ok by (auto simp: Create well_kept_def)
next
  case (Reset env i template)
  let ?s = "snd (reset_project srv env i template s)"
  obtain p where "sv_rows ?s = sv_rows s \<or> sv_rows ?s = change_row i (\<lambda>r. r\<lparr>ns_project := p\<rparr>) (sv_rows s)"
    by (atomize_elim, auto simp: reset_project_def split: option.split sum.split prod.split)
  then have "map ns_id (sv_rows ?s) = map ns_id (sv_rows s) \<and>
      (\<forall>r \<in> set (sv_rows ?s). ns_username r = gns3_username_for sha (ns_id r))"
    by (rule rows_changed) (use ok in \<open>simp_all add: well_kept_def\<close>)
  then show ?thesis using reset_backed [OF laws] ok by (simp add: Reset well_kept_def)
next
  case (Delete env i)
  let ?s = "snd (delete_session srv env i s)"
  have "sv_rows ?s = sv_rows s \<or>
      sv_rows ?s = change_row i (\<lambda>r. r\<lparr>ns_active := False, ns_closed_at := Some (le_now env)\<rparr>) (sv_rows s)"
    by (auto simp: delete_session_def Let_def split: option.split)
  then have "map ns_id (sv_rows ?s) = map ns_id (sv_rows s) \<and>
      (\<forall>r \<in> set (sv_rows ?s). ns_username r = gns3_username_for sha (ns_id r))"
    by (rule rows_changed) (use ok in \<open>simp_all add: well_kept_def\<close>)
  then show ?thesis using delete_backed [OF laws] ok assms(3) by (simp add: Delete well_kept_def)
next
  case (NodeAction i n a)
  show ?thesis
    using quiet_backed [OF ok] on_active_quiet [of pr us "\<lambda>row. gn_node_action srv (ns_project row) n a" i a s]
      laws_keep [OF laws] by (simp add: NodeAction node_action_def)
next
  case (BulkAction i a)
  show ?thesis
    using quiet_backed [OF ok] on_active_quiet [of pr us "\<lambda>row. gn_bulk srv (ns_project row) a" i a s]
      laws_keep [OF laws] by (simp add: BulkAction bulk_node_action_def)
next
  case (Token i pw)
  have "sv_rows (snd (issue_user_token srv i pw s)) = sv_rows s \<and>
      pr (sv_server (snd (issue_user_token srv i pw s))) = pr (sv_server s) \<and>
      us (sv_server (snd (issue_user_token srv i pw s))) = us (sv_server s)"
  proof (cases "find_row i (sv_rows s)")
    case (Some row)
    obtain x g where c: "gn_token srv (ns_username row) pw (sv_server s) = (x, g)" by fastforce
    have "pr g = pr (sv_server s) \<and> us g = us (sv_server s)" by (rule kept_call [OF laws_keep(5) [OF laws] c])
    then show ?thesis by (simp add: issue_user_token_def Some c)
  qed (simp add: issue_user_token_def)
  then show ?thesis using quiet_backed [OF ok] by (simp add: Token)
next
  case (State now uptime i)
  show ?thesis using quiet_backed [OF ok] fetch_quiet [OF laws] by (simp add: State)
qed


lemma distinct_without:
  "distinct (map f (a @ b @ c)) \<Longrightarrow> ids = a \<or> ids = a @ b \<Longrightarrow>
   distinct (map f (a @ b)) \<and> distinct (map f (ids @ c))"
  unfolding distinct_map by (auto intro: inj_on_subset)

lemma env_run_kept:
  assumes "gns3_laws srv pr us" and "well_kept sha pr us s" and "list_all settles ops"
    and "distinct (map (gns3_username_for sha) (map ns_id (sv_rows s) @ concat (map launched ops)))"
  shows "well_kept sha pr us (fold (env_step srv sha) ops s)"
  using assms(2,3,4)
proof (induction ops arbitrary: s)
  case (Cons e ops)
  let ?s = "env_step srv sha e s"
  have all: "distinct (map (gns3_username_for sha) (map ns_id (sv_rows s) @ launched e @ concat (map launched ops)))"
    using Cons.prems(3) by (simp only: list.map concat.simps)
  have "settles e" "list_all settles ops" using Cons.prems(2) by simp_all
  moreover note kept = env_step_kept [OF assms(1) Cons.prems(1) \<open>settles e\<close>
      distinct_without [OF all, OF disjI1 [OF refl], THEN conjunct1]]
  moreover have "distinct (map (gns3_username_for sha) (map ns_id (sv_rows ?s) @ concat (map launched ops)))"
    by (rule distinct_without [OF all kept [THEN conjunct2], THEN conjunct2])
  ultimately show ?case using Cons.IH by simp
qed simp

subsection \<open>A small server\<close>

text \<open>
  A server that keeps its projects and accounts in lists and gives out ids longer than any before.
  The list \<open>sm_refused\<close> names the calls it refuses.
\<close>

record small =
  sm_projects :: "string list"
  sm_users :: "(string \<times> string) list"
  sm_refused :: "string list"

definition answer :: "string \<Rightarrow> 'a \<Rightarrow> small \<Rightarrow> small \<Rightarrow> (string + 'a) \<times> small" where
  "answer call v g' g = (if call \<in> set (sm_refused g) then (Inl call, g) else (Inr v, g'))"

definition small_server :: "small gns3" where
  "small_server =
     \<lparr>gn_duplicate = (\<lambda>t n g. answer ''copy'' (CHR ''p'' # concat (sm_projects g))
        (g\<lparr>sm_projects := (CHR ''p'' # concat (sm_projects g)) # sm_projects g\<rparr>) g),
      gn_open = (\<lambda>p g. answer ''open'' () g g),
      gn_delete_project = (\<lambda>p g. answer ''delete'' () (g\<lparr>sm_projects := removeAll p (sm_projects g)\<rparr>) g),
      gn_find_user = (\<lambda>n g. answer ''users''
        (map_option fst (List.find (\<lambda>(i, m). m = n \<and> map_of (sm_users g) i = Some n) (sm_users g))) g g),
      gn_create_user = (\<lambda>n pw g. answer ''account'' (CHR ''u'' # concat (map fst (sm_users g)))
        (g\<lparr>sm_users := (CHR ''u'' # concat (map fst (sm_users g)), n) # sm_users g\<rparr>) g),
      gn_delete_user = (\<lambda>i g. answer ''remove'' () (g\<lparr>sm_users := filter (\<lambda>u. fst u \<noteq> i) (sm_users g)\<rparr>) g),
      gn_role = (\<lambda>r g. answer ''role'' r g g), gn_acl = (\<lambda>path r i g. answer ''acl'' () g g),
      gn_token = (\<lambda>n pw g. answer ''token'' pw g g), gn_node_action = (\<lambda>p n a g. answer ''node'' () g g),
      gn_bulk = (\<lambda>p a g. answer ''bulk'' () g g), gn_nodes = (\<lambda>p g. answer ''nodes'' [] g g),
      gn_links = (\<lambda>p g. answer ''links'' [] g g)\<rparr>"

definition small_accounts :: "small \<Rightarrow> string \<Rightarrow> string option" where
  "small_accounts g = map_of (sm_users g)"

definition small_projects :: "small \<Rightarrow> string set" where
  "small_projects g = set (sm_projects g)"

lemma no_longer_than_concat: "x \<in> set xs \<Longrightarrow> length x \<le> length (concat xs)"
  by (induction xs) auto

lemma longer_than_all: "c # concat xs \<notin> set xs"
  using no_longer_than_concat [of "c # concat xs" xs] by auto

lemma map_of_removed: "map_of (filter (\<lambda>u. fst u \<noteq> i) us) = (map_of us)(i := None)"
  by (induction us) auto

lemma small_laws: "gns3_laws small_server small_projects small_accounts"
proof -
  have "copies_projects small_server small_projects small_accounts"
    by (auto simp: longer_than_all copies_projects_def small_server_def answer_def small_accounts_def small_projects_def)
  moreover have "makes_accounts small_server small_projects small_accounts"
    using longer_than_all [of "CHR ''u''" "map fst us" for us]
    by (auto simp: makes_accounts_def small_server_def answer_def small_accounts_def small_projects_def map_of_eq_None_iff)
  moreover have "deletes small_server small_projects small_accounts"
    by (auto simp: deletes_def small_server_def answer_def small_accounts_def small_projects_def map_of_removed)
  moreover have "finds_accounts small_server small_accounts"
    by (auto simp: finds_accounts_def small_server_def answer_def small_accounts_def find_Some_iff split: sum.split option.split)
  ultimately show ?thesis
    by (auto simp: gns3_laws_def keeps_def small_server_def answer_def)
qed

subsection \<open>A launch that fails\<close>

lemma late_failure:
  assumes laws: "gns3_laws srv pr us"
    and copy: "gn_duplicate srv template (project_name n) (sv_server s) = (Inr p, g1)"
    and acc: "make_account srv n (le_password env) g1 = (Inr u, g2)"
    and n: "n = gns3_username_for sha (le_id env)"
    and fails: "fst (create_session srv sha env student template s) = Inl e"
    and o': "open_access srv n (le_password env) u p g2 = (x, g3)"
    and dp: "gn_delete_project srv p g3 = (Inr (), g4)" and du: "gn_delete_user srv u g4 = (Inr (), g5)"
  shows "pr (sv_server (snd (create_session srv sha env student template s))) = pr g1 - {p}"
    and "us (sv_server (snd (create_session srv sha env student template s))) \<subseteq>\<^sub>m us (sv_server s)"
    and "us (sv_server s) i = Some m \<Longrightarrow> m \<noteq> n \<Longrightarrow>
      us (sv_server (snd (create_session srv sha env student template s))) i = Some m"
    and "sv_rows (snd (create_session srv sha env student template s)) = sv_rows s"
    and "sv_streams (snd (create_session srv sha env student template s)) = sv_streams s"
proof -
  have g3: "pr g3 = pr g2 \<and> us g3 = us g2" by (rule kept_call [OF open_access_keeps [OF laws] o'])
  have "pr g2 = pr g1" using account_made [OF laws acc] by blast
  then have g3': "pr g3 - {p} = pr g1 - {p}" using g3 by simp
  have s': "snd (create_session srv sha env student template s) = s\<lparr>sv_server := rollback_created srv u p g3\<rparr>"
    using fails by (cases x) (auto simp: create_session_def Let_def copy acc o' n [symmetric] split: if_splits)
  have "pr (rollback_created srv u p g3) = pr g3 - {p}"
    using account_deleted(1) [OF laws, of u g4] project_deleted(4) [OF laws, of p g3] by (simp add: rollback_created_def dp du)
  then show "pr (sv_server (snd (create_session srv sha env student template s))) = pr g1 - {p}"
    by (simp add: s' g3')
  have us: "us (rollback_created srv u p g3) = (us g2)(u := None)"
    using account_deleted(3) [OF laws, of u g4] project_deleted(1) [OF laws, of p g3] g3
    by (simp add: rollback_created_def dp du)
  note made = account_made [OF laws acc] copied(1) [OF laws copy]
  show "us (sv_server (snd (create_session srv sha env student template s))) \<subseteq>\<^sub>m us (sv_server s)"
    using made by (simp add: s' us)
  show "us (sv_server (snd (create_session srv sha env student template s))) i = Some m"
    if "us (sv_server s) i = Some m" "m \<noteq> n"
    using made that by (auto simp: s' us)
  show "sv_rows (snd (create_session srv sha env student template s)) = sv_rows s"
    and "sv_streams (snd (create_session srv sha env student template s)) = sv_streams s"
    by (simp_all add: s')
qed

text \<open>
  The ids are known to the rollback only once both calls are over: when the account fails after the
  copy, the copy stays and no row names it; when the copy fails, the account stays.
\<close>

lemma account_failure_leaves_copy:
  assumes "gns3_laws srv pr us"
    and "gn_duplicate srv template (project_name (gns3_username_for sha (le_id env))) (sv_server s) = (Inr p, g1)"
    and "make_account srv (gns3_username_for sha (le_id env)) (le_password env) g1 = (Inl e, g2)"
  shows "fst (create_session srv sha env student template s) = Inl e"
    and "p \<in> pr (sv_server (snd (create_session srv sha env student template s))) - pr (sv_server s)"
    and "sv_rows (snd (create_session srv sha env student template s)) = sv_rows s"
  using account_made [OF assms(1,3)] copied(3) [OF assms(1,2)] assms(2,3)
  by (auto simp: create_session_def Let_def)

lemma copy_failure_leaves_account:
  assumes "gns3_laws srv pr us"
    and "gn_duplicate srv template (project_name (gns3_username_for sha (le_id env))) (sv_server s) = (Inl e, g1)"
    and "make_account srv (gns3_username_for sha (le_id env)) (le_password env) g1 = (Inr u, g2)"
  shows "fst (create_session srv sha env student template s) = Inl e"
    and "us (sv_server (snd (create_session srv sha env student template s))) u = Some (gns3_username_for sha (le_id env))"
    and "sv_rows (snd (create_session srv sha env student template s)) = sv_rows s"
  using account_made [OF assms(1,3)] assms(2,3) by (auto simp: create_session_def Let_def)

subsection \<open>After the end\<close>

lemma find_row_appended: "find_row i rows = Some row \<Longrightarrow> find_row i (rows @ new) = Some row"
  by (induction rows) (auto simp: find_row_def split: if_splits)

lemma find_row_changed:
  "find_row i rows = Some row \<Longrightarrow> (\<And>r. ns_id (f r) = ns_id r) \<Longrightarrow>
   find_row i (change_row j f rows) = Some (if j = i then f row else row)"
  by (induction rows) (auto simp: find_row_def change_row_def split: if_splits)

lemma closed_step:
  assumes "find_row i (sv_rows s) = Some row" and "\<not> ns_active row"
  shows "find_row i (sv_rows (env_step srv sha e s)) = Some row"
proof (cases e)
  case (Create env student template)
  have "sv_rows (snd (create_session srv sha env student template s)) = sv_rows s \<or>
      (\<exists>r. sv_rows (snd (create_session srv sha env student template s)) = sv_rows s @ [r])"
    by (auto simp: create_session_def Let_def split: prod.split sum.split)
  then show ?thesis using find_row_appended [OF assms(1)] assms(1) by (auto simp: Create)
next
  case (Reset env j template)
  show ?thesis
  proof (cases "j = i")
    case True
    then show ?thesis using assms by (simp add: Reset reset_project_def)
  next
    case False
    then show ?thesis
      using assms find_row_changed [OF assms(1), of "\<lambda>r. r\<lparr>ns_project := p\<rparr>" j for p]
      by (auto simp: Reset reset_project_def split: option.split sum.split prod.split)
  qed
next
  case (Delete env j)
  show ?thesis
  proof (cases "j = i")
    case True
    then show ?thesis using assms by (simp add: Delete delete_session_def)
  next
    case False
    then show ?thesis
      using assms find_row_changed [OF assms(1), of "\<lambda>r. r\<lparr>ns_active := False, ns_closed_at := Some (le_now env)\<rparr>" j]
      by (auto simp: Delete delete_session_def Let_def split: option.split)
  qed
qed (use assms in \<open>auto simp: node_action_def bulk_node_action_def on_active_def issue_user_token_def
    fetch_state_def Let_def split: option.split sum.split prod.split\<close>)

lemma closed_run:
  "find_row i (sv_rows s) = Some row \<Longrightarrow> \<not> ns_active row \<Longrightarrow>
   find_row i (sv_rows (fold (env_step srv sha) ops s)) = Some row"
  by (induction ops arbitrary: s) (simp_all add: closed_step)

lemma deleted_closed:
  assumes "fst (delete_session srv env i s) = Inr ()"
  shows "\<exists>row. find_row i (sv_rows (snd (delete_session srv env i s))) = Some row \<and> \<not> ns_active row"
proof -
  from assms obtain row where row: "find_row i (sv_rows s) = Some row"
    by (auto simp: delete_session_def split: option.splits)
  then show ?thesis
    using assms find_row_changed [OF row, of "\<lambda>r. r\<lparr>ns_active := False, ns_closed_at := Some (le_now env)\<rparr>" i]
    by (auto simp: delete_session_def Let_def split: if_splits)
qed

text \<open>An action on a node forgets the cached state; a reset keeps it, whatever project it shows.\<close>

lemma action_forgets_state:
  "fst (node_action srv i n a s) = Inr () \<Longrightarrow> sv_cache (snd (node_action srv i n a s)) i = None"
  by (auto simp: node_action_def on_active_def cache_invalidate_def split: option.splits if_splits prod.splits sum.splits)

lemma reset_keeps_stale_state:
  assumes "sv_cache s i = Some (t, state)" and "now - t < STATE_TTL"
  shows "fst (fetch_state srv now uptime i (snd (reset_project srv env i template s))) = Inr state"
proof -
  have "sv_cache (snd (reset_project srv env i template s)) = sv_cache s"
    by (auto simp: reset_project_def split: option.split prod.split sum.split)
  then show ?thesis using assms by (simp add: fetch_state_def cache_get_def)
qed

lemma uncommitted_deletion_strands_row:
  assumes "find_row i (sv_rows s) = Some row" and "ns_active row" and "\<not> le_commits env"
  shows "find_row i (sv_rows (snd (delete_session srv env i s))) = Some row"
    and "sv_server (snd (delete_session srv env i s)) = clean_up srv row (sv_server s)"
  using assms by (simp_all add: delete_session_def Let_def)

subsection \<open>Main properties\<close>


definition lab_env :: "string \<Rightarrow> launch_env" where
  "lab_env i = \<lparr>le_id = i, le_password = ''pw'', le_now = 0, le_commits = True, le_starts = True, le_public_url = ''http://gns3/''\<rparr>"

definition lab_ops :: "env_op list" where
  "lab_ops = [Create (lab_env ''a'') ''ann'' ''t'', Create (lab_env ''b'') ''bob'' ''t'',
     Reset (lab_env ''a'') ''a'' ''t'', NodeAction ''a'' ''n1'' ''start'', Delete (lab_env ''b'') ''b'']"

definition small_service :: "string list \<Rightarrow> small service" where
  "small_service refused =
     \<lparr>sv_server = \<lparr>sm_projects = [''t''], sm_users = [], sm_refused = refused\<rparr>, sv_rows = [],
      sv_cache = Map.empty, sv_streams = []\<rparr>"




text \<open>Deleting a session is final: once a deletion has returned, the session's row is closed and no operation
  after it opens it again - deleting it once more does nothing, and a reset, a token and an action on its
  nodes are refused as closed.
\<close>

theorem deleted_session_stays_closed:
  assumes "fst (delete_session srv env i s) = Inr ()"
  shows "let t = fold (env_step srv sha) ops (snd (delete_session srv env i s)) in
    delete_session srv env' i t = (Inr (), t) \<and> reset_project srv env' i template t = (Inl SessionClosed, t) \<and>
    issue_user_token srv i pw t = (Inl SessionClosed, t) \<and> node_action srv i n a t = (Inl SessionClosed, t) \<and>
    bulk_node_action srv i a t = (Inl SessionClosed, t)"
proof -
  from deleted_closed [OF assms] obtain row where
    "find_row i (sv_rows (snd (delete_session srv env i s))) = Some row" "\<not> ns_active row" by blast
  from closed_run [OF this] this(2) show ?thesis
    by (simp add: Let_def delete_session_def reset_project_def issue_user_token_def node_action_def
        bulk_node_action_def on_active_def)
qed

theorem deleted_session_stays_closed_witness:
  "fst (node_action small_server ''b'' ''n1'' ''start''
     (fold (env_step small_server id) [Reset (lab_env ''b'') ''b'' ''t'']
       (snd (delete_session small_server (lab_env ''b'') ''b''
         (fold (env_step small_server id) (take 2 lab_ops) (small_service [])))))) = Inl SessionClosed"
proof -
  have "fst (delete_session small_server (lab_env ''b'') ''b''
      (fold (env_step small_server id) (take 2 lab_ops) (small_service []))) = Inr ()" by code_simp
  from deleted_session_stays_closed [OF this] show ?thesis unfolding Let_def by (metis fst_conv)
qed

end
