(* ===== verification/Admin_Client_Properties.thy ===== *)
theory Admin_Client_Properties
  imports Admin_Client Environment_Properties
begin

text \<open>
  Properties of the GNS3 client: how many requests one call sends at most, and that its retries keep
  what the lab environments rely on.  The locale \<open>trying\<close> is the interface between one request and a
  call that repeats it: a relation every try keeps and a promise on success that earlier tries may
  precede.  It is interpreted once per kind of request.
\<close>

subsection \<open>How many requests\<close>

definition counts :: "('g \<Rightarrow> nat) \<Rightarrow> 'g http \<Rightarrow> bool" where
  "counts n http \<longleftrightarrow> (\<forall>m p b t g. n (snd (http m p b t g)) = Suc (n g))"

definition at_most :: "('g \<Rightarrow> nat) \<Rightarrow> nat \<Rightarrow> ('g, 'a) call \<Rightarrow> bool" where
  "at_most n k m \<longleftrightarrow> (\<forall>c. n (ac_server (snd (m c))) \<le> n (ac_server c) + k)"

named_theorems at_most_intros \<open>how many requests a call sends\<close>

lemma at_mostD: "at_most n k m \<Longrightarrow> m c = (r, c') \<Longrightarrow> n (ac_server c') \<le> n (ac_server c) + k"
  by (metis at_most_def snd_conv)

lemma at_most_mono: "at_most n k m \<Longrightarrow> k \<le> k' \<Longrightarrow> at_most n k' m"
  unfolding at_most_def by (meson add_left_mono le_trans)

lemma at_most_silent [at_most_intros]:
  "at_most n 0 (give x)" "at_most n 0 (raise_for_status r)" "at_most n 0 (str_field k v)" "at_most n 0 (entries v)"
  by (auto simp: at_most_def give_def raise_for_status_def str_field_def entries_def split: json.split option.split)

lemma at_most_send [at_most_intros]: "counts n http \<Longrightarrow> at_most n 1 (send http m path body)"
  by (auto simp: at_most_def send_def counts_def split: prod.split) (metis le_refl snd_conv)

lemma at_most_bind [at_most_intros]:
  assumes "at_most n j m" and "\<And>x. at_most n k (f x)"
  shows "at_most n (j + k) (bind_call m f)"
proof -
  have "n (ac_server (snd (bind_call m f c))) \<le> n (ac_server c) + (j + k)" for c
  proof -
    obtain r c1 where m: "m c = (r, c1)" by fastforce
    have "n (ac_server c1) \<le> n (ac_server c) + j" by (rule at_mostD [OF assms(1) m])
    moreover have "n (ac_server (snd (f x c1))) \<le> n (ac_server c1) + k" for x
      using assms(2) by (simp add: at_most_def)
    ultimately show ?thesis
      by (cases r) (auto simp: bind_call_def m intro: order_trans [where y = "n (ac_server c1) + k"])
  qed
  then show ?thesis by (simp add: at_most_def)
qed

lemma at_most_tries [at_most_intros]: "at_most n k m \<Longrightarrow> at_most n (Suc j * k) (tries j m)"
proof (induction j)
  case (Suc j)
  have "n (ac_server (snd (tries (Suc j) m c))) \<le> n (ac_server c) + Suc (Suc j) * k" for c
  proof -
    obtain r c1 where m: "m c = (r, c1)" by fastforce
    have 1: "n (ac_server c1) \<le> n (ac_server c) + k" by (rule at_mostD [OF Suc.prems m])
    have "n (ac_server (snd (tries j m c1))) \<le> n (ac_server c1) + Suc j * k"
      using Suc.IH [OF Suc.prems] by (simp only: at_most_def)
    with 1 show ?thesis by (cases r) (auto simp: m)
  qed
  then show ?case by (simp only: at_most_def simp_thms)
qed (simp add: at_most_def)

lemma at_most_posts [at_most_intros]: "at_most n k m \<Longrightarrow> at_most n (Suc j * k) (duplicate_posts j m)"
proof (induction j)
  case (Suc j)
  have "n (ac_server (snd (duplicate_posts (Suc j) m c))) \<le> n (ac_server c) + Suc (Suc j) * k" for c
  proof -
    obtain r c1 where m: "m c = (r, c1)" by fastforce
    have 1: "n (ac_server c1) \<le> n (ac_server c) + k" by (rule at_mostD [OF Suc.prems m])
    have "n (ac_server (snd (duplicate_posts j m c1))) \<le> n (ac_server c1) + Suc j * k"
      using Suc.IH [OF Suc.prems] by (simp only: at_most_def)
    with 1 show ?thesis by (cases r) (auto simp: m)
  qed
  then show ?case by (simp only: at_most_def simp_thms)
qed (simp add: at_most_def)

lemma at_most_send_ok: "counts n http \<Longrightarrow> at_most n 1 (send_ok http m path body)"
  unfolding send_ok_def by (rule at_most_mono, (rule at_most_intros | assumption)+) simp

lemma at_most_login:
  assumes "counts n http"
  shows "at_most n 1 (authenticate http login)"
proof -
  have "at_most n 0 (\<lambda>c. (Inr (), c\<lparr>ac_token := Some token\<rparr>))" for token by (simp add: at_most_def)
  from at_most_bind [OF at_most_bind [OF at_most_send_ok [OF assms] at_most_silent(3)] this]
  show ?thesis by (simp add: authenticate_def)
qed

lemma at_most_401:
  assumes "counts n http" and "at_most n k m"
  shows "at_most n (2 * k + 1) (retry_on_401 http login m)"
proof -
  have "at_most n (1 + k) (bind_call (authenticate http login) (\<lambda>_. m))"
    by (rule at_most_bind [OF at_most_login [OF assms(1)] assms(2)])
  then have again: "n (ac_server (snd (bind_call (authenticate http login) (\<lambda>_. m) c))) \<le> n (ac_server c) + (1 + k)" for c
    by (simp only: at_most_def simp_thms)
  have "n (ac_server (snd (retry_on_401 http login m c))) \<le> n (ac_server c) + (2 * k + 1)" for c
  proof -
    obtain r c1 where m: "m c = (r, c1)" by fastforce
    have 1: "n (ac_server c1) \<le> n (ac_server c) + k" by (rule at_mostD [OF assms(2) m])
    with again [of c1] show ?thesis
      by (auto simp: retry_on_401_def m split: sum.split client_error.split)
  qed
  then show ?thesis by (simp only: at_most_def simp_thms)
qed

lemma at_most_role:
  assumes "counts n http"
  shows "at_most n 1 (\<lambda>c. case map_of (ac_roles c) name of Some role \<Rightarrow> (Inr role, c)
    | None \<Rightarrow> bind_call (bind_call (send_ok http GET path JNull) entries)
        (\<lambda>roles c1. case List.find (builtin_role name) roles of None \<Rightarrow> (Inl BadAnswer, c1)
           | Some d \<Rightarrow> (Inr (JObj d), c1\<lparr>ac_roles := (name, JObj d) # ac_roles c1\<rparr>)) c)"
proof -
  have "at_most n 0 (\<lambda>c1. case List.find (builtin_role name) roles of None \<Rightarrow> (Inl BadAnswer, c1)
      | Some d \<Rightarrow> (Inr (JObj d), c1\<lparr>ac_roles := (name, JObj d) # ac_roles c1\<rparr>))" for roles
    by (auto simp: at_most_def split: option.split)
  from at_most_bind [OF at_most_bind [OF at_most_send_ok [OF assms] at_most_silent(4)] this]
  show ?thesis by (auto simp: at_most_def split: option.split)
qed

lemma transient_tries: "transient_retry = tries 2"
  by (simp add: transient_retry_def STOP_AFTER_ATTEMPT_def)

lemma at_most_tried: "at_most n k m \<Longrightarrow> at_most n (3 * k) (transient_retry m)"
  using at_most_tries [of n k m 2] by (simp add: transient_tries)

lemma at_most_then_silent: "at_most n k m \<Longrightarrow> (\<And>x. at_most n 0 (f x)) \<Longrightarrow> at_most n k (bind_call m f)"
  using at_most_bind [of n k m 0 f] by simp

lemma at_most_copy:
  assumes "counts n http"
  shows "at_most n 33 (duplicate_project http login t name)"
proof -
  have "at_most n (Suc 4 * 1) (bind_call (duplicate_posts 4 (send http POST p b)) raise_for_status)" for p b
    by (intro at_most_then_silent at_most_posts at_most_send [OF assms] at_most_silent)
  from at_most_tried [OF at_most_401 [OF assms this]]
  show ?thesis unfolding duplicate_project_def by (simp add: mult.commute)
qed

lemma at_most_once:
  assumes "counts n http" and "\<And>x. at_most n 0 (f x)"
  shows "at_most n 3 (retry_on_401 http login (send_ok http m path body))"
    and "at_most n 3 (retry_on_401 http login (bind_call (send_ok http m path body) f))"
  using at_most_401 [OF assms(1) at_most_send_ok [OF assms(1)]]
    at_most_401 [OF assms(1) at_most_then_silent [OF at_most_send_ok [OF assms(1)] assms(2)]]
  by (simp_all add: numeral_3_eq_3)

subsection \<open>The client behind the service's interface\<close>

definition costs :: "('g \<Rightarrow> nat) \<Rightarrow> nat \<Rightarrow> ('g, 'a) remote \<Rightarrow> bool" where
  "costs n k call \<longleftrightarrow> (\<forall>g. n (snd (call g)) \<le> n g + k)"

lemma costsD: "costs n k call \<Longrightarrow> call g = (r, g') \<Longrightarrow> n g' \<le> n g + k"
  by (metis costs_def snd_conv)

lemma costs_told:
  assumes "at_most n k m" and "\<And>x. at_most n 0 (f x)"
  shows "costs (n \<circ> ac_server) k (\<lambda>c. told (bind_call m f c))" and "costs (n \<circ> ac_server) k (\<lambda>c. told (m c))"
  using at_most_then_silent [OF assms] assms(1) by (simp_all add: costs_def told_def at_most_def)

definition calls_cost :: "('g \<Rightarrow> nat) \<Rightarrow> 'g gns3 \<Rightarrow> bool" where
  "calls_cost n srv \<longleftrightarrow>
     (\<forall>t name. costs n 33 (gn_duplicate srv t name)) \<and> (\<forall>p. costs n 9 (gn_open srv p)) \<and>
     (\<forall>p. costs n 3 (gn_delete_project srv p)) \<and> (\<forall>u. costs n 3 (gn_find_user srv u)) \<and>
     (\<forall>u pw. costs n 9 (gn_create_user srv u pw)) \<and> (\<forall>i. costs n 3 (gn_delete_user srv i)) \<and>
     (\<forall>r. costs n 3 (gn_role srv r)) \<and> (\<forall>path r i. costs n 9 (gn_acl srv path r i)) \<and>
     (\<forall>u pw. costs n 9 (gn_token srv u pw)) \<and> (\<forall>p i a. costs n 3 (gn_node_action srv p i a)) \<and>
     (\<forall>p a. costs n 3 (gn_bulk srv p a)) \<and> (\<forall>p. costs n 3 (gn_nodes srv p)) \<and> (\<forall>p. costs n 3 (gn_links srv p))"

lemma at_most_refused: "at_most n k (Pair (Inl e))"
  by (simp add: at_most_def)

lemma client_calls_cost:
  assumes "counts n http"
  shows "calls_cost (n \<circ> ac_server) (admin_client http login)"
proof -
  note once = at_most_once [OF assms at_most_silent(1)]
  have tried: "at_most n 9 (transient_retry (retry_on_401 http login (send_ok http m path body)))" for m path body
    using at_most_tried [OF once(1)] by simp
  have token: "at_most n 9 (transient_retry (retry_on_401 http login
      (bind_call (send_ok http m path body) (str_field k))))" for m path body k
    using at_most_tried [OF at_most_once(2) [OF assms at_most_silent(3)]] by simp
  have user: "at_most n 3 (find_user_by_name http login u)" for u
    using at_most_401 [OF assms at_most_then_silent [OF at_most_then_silent [OF at_most_send_ok [OF assms]
          at_most_silent(4)] at_most_silent(1)]]
    by (simp add: find_user_by_name_def numeral_3_eq_3)
  have field: "at_most n 0 (bind_call (str_field k v) f)" if "\<And>x. at_most n 0 (f x)" for k v and f :: "string \<Rightarrow> ('a, 'b) call"
    by (rule at_most_then_silent [OF at_most_silent(3) that])
  have found: "at_most n 0 (case u of None \<Rightarrow> give None | Some d \<Rightarrow>
      bind_call (str_field ''user_id'' (JObj d)) (\<lambda>i. give (Some i)))" for u
    by (cases u) (simp_all add: at_most_silent(1) at_most_then_silent [OF at_most_silent(3) at_most_silent(1)])
  have role: "at_most n 3 (get_builtin_role http login r)" for r
    using at_most_401 [OF assms at_most_role [OF assms]] by (simp add: get_builtin_role_def numeral_3_eq_3)
  have node: "at_most n 3 (post_node http login p i a)" "at_most n 3 (post_nodes http login p a)" for p i a
    by (simp_all add: post_node_def post_nodes_def at_most_refused once(1))
  note told = costs_told(1) [where n = n] and silent = at_most_silent
  show ?thesis
    unfolding calls_cost_def admin_client_def gns3.simps
    by (intro conjI allI told silent found at_most_copy [OF assms] node user role
        costs_told(2) [where n = n and f = "\<lambda>_. give ()"])
      (simp_all only: open_project_def delete_project_def create_user_def delete_user_def create_acl_def
        get_nodes_def get_links_def get_user_token_def tried once(1) token silent(1))
qed

text \<open>Composition along the service's own steps.\<close>

lemma costs_then:
  assumes "costs n j call" and "\<And>x. costs n k (f x)"
  shows "costs n (j + k) (\<lambda>g. and_then (call g) f)"
proof -
  have "n (snd (and_then (call g) f)) \<le> n g + (j + k)" for g
  proof -
    obtain r g1 where c: "call g = (r, g1)" by fastforce
    have "n g1 \<le> n g + j" by (rule costsD [OF assms(1) c])
    moreover have "n (snd (f x g1)) \<le> n g1 + k" for x using assms(2) by (simp add: costs_def)
    ultimately show ?thesis
      by (cases r) (auto simp: and_then_def c intro: order_trans [where y = "n g1 + k"])
  qed
  then show ?thesis by (simp add: costs_def)
qed

lemma costs_made:
  assumes "calls_cost n srv"
  shows "costs n 15 (make_account srv u pw)" and "costs n 42 (open_access srv u pw i p)"
    and "n (rollback_created srv i p g) \<le> n g + 6"
proof -
  note cost = assms [unfolded calls_cost_def]
  have remove: "costs n 3 (gn_delete_user srv i)" "costs n 9 (gn_create_user srv u pw)" "costs n 3 (gn_find_user srv u)"
    "costs n 3 (gn_delete_project srv p)" for i u pw p
    using cost by blast+
  have "costs n 12 (\<lambda>g1. gn_create_user srv u pw (case x of None \<Rightarrow> g1 | Some i \<Rightarrow> snd (gn_delete_user srv i g1)))" for x
  proof -
    have "n (snd (gn_create_user srv u pw (case x of None \<Rightarrow> g1 | Some i \<Rightarrow> snd (gn_delete_user srv i g1)))) \<le> n g1 + 12" for g1
    proof -
      let ?g = "case x of None \<Rightarrow> g1 | Some i \<Rightarrow> snd (gn_delete_user srv i g1)"
      have "n ?g \<le> n g1 + 3" using remove(1) by (auto simp: costs_def split: option.split)
      moreover have "n (snd (gn_create_user srv u pw ?g)) \<le> n ?g + 9" using remove(2) by (simp only: costs_def)
      ultimately show ?thesis by linarith
    qed
    then show ?thesis by (simp add: costs_def)
  qed
  from costs_then [OF remove(3) this] show "costs n 15 (make_account srv u pw)"
    by (simp add: make_account_def [abs_def])
  have calls: "costs n 9 (gn_open srv p)" "costs n 3 (gn_role srv r)" "costs n 9 (gn_acl srv path r i)"
    "costs n 9 (gn_token srv u pw)" for p r path i u pw using cost by blast+
  from costs_then [OF calls(1) costs_then [OF calls(2) costs_then [OF calls(2) costs_then [OF calls(3)
        costs_then [OF calls(3) calls(4)]]]]]
  show "costs n 42 (open_access srv u pw i p)" by (simp add: open_access_def [abs_def])
  show "n (rollback_created srv i p g) \<le> n g + 6"
  proof -
    let ?g = "snd (gn_delete_project srv p g)"
    have "n ?g \<le> n g + 3" using remove(4) by (simp only: costs_def)
    moreover have "n (snd (gn_delete_user srv i ?g)) \<le> n ?g + 3" using remove(1) by (simp only: costs_def)
    ultimately show ?thesis unfolding rollback_created_def by linarith
  qed
qed

lemma launch_cost:
  assumes "calls_cost n srv"
  shows "n (sv_server (snd (create_session srv sha env student template s))) \<le> n (sv_server s) + 96"
proof -
  let ?u = "gns3_username_for sha (le_id env)"
  obtain project g1 where copy: "gn_duplicate srv template (project_name ?u) (sv_server s) = (project, g1)" by fastforce
  obtain account g2 where acc: "make_account srv ?u (le_password env) g1 = (account, g2)" by fastforce
  have "costs n 33 (gn_duplicate srv template (project_name ?u))" using assms by (simp add: calls_cost_def)
  from costsD [OF this copy] costsD [OF costs_made(1) [OF assms] acc]
  have g2: "n g2 \<le> n (sv_server s) + 48" by simp
  show ?thesis
  proof (cases "\<exists>u p. account = Inr u \<and> project = Inr p")
    case True
    then obtain u p where u: "account = Inr u" and p: "project = Inr p" by blast
    obtain x g3 where o': "open_access srv ?u (le_password env) u p g2 = (x, g3)" by fastforce
    have "n g3 \<le> n (sv_server s) + 90" using costsD [OF costs_made(2) [OF assms] o'] g2 by simp
    moreover have "n (rollback_created srv u p g3) \<le> n g3 + 6" by (rule costs_made(3) [OF assms])
    ultimately show ?thesis by (simp add: create_session_def Let_def copy acc u p o' split: sum.split)
  next
    case False
    then show ?thesis using g2 by (auto simp: create_session_def Let_def copy acc split: sum.split)
  qed
qed

subsection \<open>Retries keep what the service relies on\<close>

text \<open>
  One request of each kind.  A copy may come to be although its request fails; an account may, too, but
  a name that is taken stays refused; a deletion that fails may have happened.
\<close>

definition field :: "string \<Rightarrow> json \<Rightarrow> string option" where
  "field k v = (case v of JObj d \<Rightarrow> (case map_of d k of Some (JStr s) \<Rightarrow> Some s | _ \<Rightarrow> None) | _ \<Rightarrow> None)"

definition accepted :: "(client_error + nat \<times> json) \<Rightarrow> json option" where
  "accepted r = (case r of Inr (code, v) \<Rightarrow> if 200 \<le> code \<and> code < 300 then Some v else None | _ \<Rightarrow> None)"

definition same_server :: "('g \<Rightarrow> string set) \<Rightarrow> ('g \<Rightarrow> string \<Rightarrow> string option) \<Rightarrow> 'g \<Rightarrow> 'g \<Rightarrow> bool" where
  "same_server pr us g g' \<longleftrightarrow> pr g' = pr g \<and> us g' = us g"

definition copies_step :: "('g \<Rightarrow> string set) \<Rightarrow> ('g \<Rightarrow> string \<Rightarrow> string option) \<Rightarrow> 'g \<Rightarrow> 'g \<Rightarrow> bool" where
  "copies_step pr us g g' \<longleftrightarrow> us g' = us g \<and> pr g \<subseteq> pr g'"

definition copied_as :: "('g \<Rightarrow> string set) \<Rightarrow> 'g \<Rightarrow> json \<Rightarrow> 'g \<Rightarrow> bool" where
  "copied_as pr g v g' \<longleftrightarrow>
     (\<forall>p. field ''project_id'' v = Some p \<longrightarrow> p \<notin> pr g \<and> insert p (pr g) \<subseteq> pr g')"

definition account_step ::
  "('g \<Rightarrow> string set) \<Rightarrow> ('g \<Rightarrow> string \<Rightarrow> string option) \<Rightarrow> string \<Rightarrow> 'g \<Rightarrow> 'g \<Rightarrow> bool" where
  "account_step pr us n g g' \<longleftrightarrow> pr g' = pr g \<and>
     (us g' = us g \<or> n \<notin> ran (us g) \<and> (\<exists>i. us g i = None \<and> us g' = (us g)(i \<mapsto> n)))"

definition account_as ::
  "('g \<Rightarrow> string \<Rightarrow> string option) \<Rightarrow> string \<Rightarrow> 'g \<Rightarrow> json \<Rightarrow> 'g \<Rightarrow> bool" where
  "account_as us n g v g' \<longleftrightarrow> n \<notin> ran (us g) \<and>
     (\<forall>i. field ''user_id'' v = Some i \<longrightarrow> us g i = None \<and> us g' = (us g)(i \<mapsto> n))"

definition project_step ::
  "('g \<Rightarrow> string set) \<Rightarrow> ('g \<Rightarrow> string \<Rightarrow> string option) \<Rightarrow> string \<Rightarrow> 'g \<Rightarrow> 'g \<Rightarrow> bool" where
  "project_step pr us p g g' \<longleftrightarrow> us g' = us g \<and> pr g' \<subseteq> pr g \<and> pr g - {p} \<subseteq> pr g'"

definition user_step ::
  "('g \<Rightarrow> string set) \<Rightarrow> ('g \<Rightarrow> string \<Rightarrow> string option) \<Rightarrow> string \<Rightarrow> 'g \<Rightarrow> 'g \<Rightarrow> bool" where
  "user_step pr us i g g' \<longleftrightarrow> pr g' = pr g \<and> (us g' = us g \<or> us g' = (us g)(i := None))"

definition listed :: "('g \<Rightarrow> string \<Rightarrow> string option) \<Rightarrow> 'g \<Rightarrow> json \<Rightarrow> 'g \<Rightarrow> bool" where
  "listed us g v g' \<longleftrightarrow>
     (case v of
        JList xs \<Rightarrow> \<forall>d n i. JObj d \<in> set xs \<and> map_of d ''username'' = Some (JStr n) \<and>
          map_of d ''user_id'' = Some (JStr i) \<longrightarrow> us g i = Some n
      | _ \<Rightarrow> True)"

definition answers ::
  "('g \<Rightarrow> 'g \<Rightarrow> bool) \<Rightarrow> ('g \<Rightarrow> json \<Rightarrow> 'g \<Rightarrow> bool) \<Rightarrow> 'g http \<Rightarrow> http_method \<Rightarrow> string \<Rightarrow> json \<Rightarrow> bool" where
  "answers R Q http m path body \<longleftrightarrow>
     (\<forall>token g. R g (snd (http m path body token g)) \<and>
        (\<forall>v. accepted (fst (http m path body token g)) = Some v \<longrightarrow> Q g v (snd (http m path body token g))))"

definition http_laws ::
  "'g http \<Rightarrow> ('g \<Rightarrow> string set) \<Rightarrow> ('g \<Rightarrow> string \<Rightarrow> string option) \<Rightarrow> bool" where
  "http_laws http pr us \<longleftrightarrow>
     (\<forall>t body. answers (copies_step pr us) (copied_as pr) http POST (project_path t @ ''/duplicate'') body) \<and>
     (\<forall>n pw. answers (account_step pr us n) (account_as us n) http POST ''/v3/access/users'' (user_body n pw)) \<and>
     (\<forall>p. answers (project_step pr us p) (\<lambda>g _ g'. pr g' = pr g - {p}) http DELETE (project_path p) JNull) \<and>
     (\<forall>i. answers (user_step pr us i) (\<lambda>g _ g'. us g' = (us g)(i := None)) http DELETE (''/v3/access/users/'' @ i) JNull) \<and>
     (\<forall>path. answers (same_server pr us) (listed us) http GET path JNull) \<and>
     (\<forall>path body. path \<noteq> ''/v3/access/users'' \<and> (\<nexists>t. path = project_path t @ ''/duplicate'') \<longrightarrow>
        answers (same_server pr us) (\<lambda>_ _ _. True) http POST path body)"

text \<open>What a call does to the server, and what it promises when it returns.\<close>

definition does :: "('g \<Rightarrow> 'g \<Rightarrow> bool) \<Rightarrow> ('g \<Rightarrow> 'a \<Rightarrow> 'g \<Rightarrow> bool) \<Rightarrow> ('g, 'a) call \<Rightarrow> bool" where
  "does R Q m \<longleftrightarrow> (\<forall>c r c'. m c = (r, c') \<longrightarrow>
     R (ac_server c) (ac_server c') \<and> (\<forall>x. r = Inr x \<longrightarrow> Q (ac_server c) x (ac_server c')))"

lemma doesI:
  assumes "\<And>c r c'. m c = (r, c') \<Longrightarrow> R (ac_server c) (ac_server c')"
    and "\<And>c x c'. m c = (Inr x, c') \<Longrightarrow> Q (ac_server c) x (ac_server c')"
  shows "does R Q m"
  using assms unfolding does_def by blast

lemma doesD:
  assumes "does R Q m" and "m c = (r, c')"
  shows "R (ac_server c) (ac_server c')" and "r = Inr x \<Longrightarrow> Q (ac_server c) x (ac_server c')"
  using assms unfolding does_def by blast+

text \<open>The interface of a request that may be tried again.\<close>

locale trying =
  fixes pr :: "'g \<Rightarrow> string set" and us :: "'g \<Rightarrow> string \<Rightarrow> string option"
    and R :: "'g \<Rightarrow> 'g \<Rightarrow> bool" and Q :: "'g \<Rightarrow> 'b \<Rightarrow> 'g \<Rightarrow> bool"
  assumes same: "same_server pr us g g' \<Longrightarrow> R g g'"
    and chained: "R g g1 \<Longrightarrow> R g1 g2 \<Longrightarrow> R g g2"
    and late: "R g g1 \<Longrightarrow> Q g1 v g2 \<Longrightarrow> R g1 g2 \<Longrightarrow> Q g v g2"
begin

lemma stays: "R g g"
  by (rule same) (simp add: same_server_def)

lemma retried:
  assumes "does R Q m" and login: "does (same_server pr us) (\<lambda>_ _ _. True) (authenticate http login)"
  shows "does R Q (retry_on_401 http login m)"
proof -
  have again: "R (ac_server c) (ac_server c') \<and> (\<forall>x. r = Inr x \<longrightarrow> Q (ac_server c) x (ac_server c'))"
    if first: "m c = (Inl e, c1)" and b: "bind_call (authenticate http login) (\<lambda>_. m) c1 = (r, c')" for c e c1 r c'
  proof -
    obtain r2 c2 where l: "authenticate http login c1 = (r2, c2)" by fastforce
    have 1: "R (ac_server c) (ac_server c1)" by (rule doesD(1) [OF assms(1) first])
    have "R (ac_server c1) (ac_server c2)" by (rule same [OF doesD(1) [OF login l]])
    with 1 have 2: "R (ac_server c) (ac_server c2)" by (rule chained)
    show ?thesis
    proof (cases r2)
      case (Inl e')
      with b 2 show ?thesis by (auto simp: bind_call_def l)
    next
      case (Inr u)
      with b have m2: "m c2 = (r, c')" by (simp add: bind_call_def l)
      show ?thesis using doesD [OF assms(1) m2] chained [OF 2] late [OF 2] by blast
    qed
  qed
  show ?thesis
  proof (rule doesI)
    show "R (ac_server c) (ac_server c')" if "retry_on_401 http login m c = (r, c')" for c r c'
      using that doesD(1) [OF assms(1)] again
      by (fastforce simp: retry_on_401_def split: prod.splits sum.splits client_error.splits if_splits)
    show "Q (ac_server c) x (ac_server c')" if "retry_on_401 http login m c = (Inr x, c')" for c x c'
      using that doesD(2) [OF assms(1)] again
      by (fastforce simp: retry_on_401_def split: prod.splits sum.splits client_error.splits if_splits)
  qed
qed

lemma tried: "does R Q m \<Longrightarrow> does R Q (tries n m)"
proof (induction n)
  case (Suc n)
  note ih = Suc.IH [OF Suc.prems]
  have step: "R (ac_server c) (ac_server c') \<and> (\<forall>x. r = Inr x \<longrightarrow> Q (ac_server c) x (ac_server c'))"
    if "tries (Suc n) m c = (r, c')" for c r c'
  proof -
    obtain r1 c1 where m: "m c = (r1, c1)" by fastforce
    note d = doesD [OF Suc.prems m]
    show ?thesis
    proof (cases r1)
      case (Inl e)
      show ?thesis
      proof (cases "is_transient e")
        case True
        with that have t: "tries n m c1 = (r, c')" by (simp add: m Inl)
        show ?thesis using doesD [OF ih t] chained [OF d(1)] late [OF d(1)] by blast
      qed (use that d in \<open>auto simp: m Inl\<close>)
    qed (use that d in \<open>auto simp: m\<close>)
  qed
  show ?case unfolding does_def using step by blast
qed (simp add: does_def)

lemma tried_thrice: "does R Q m \<Longrightarrow> does R Q (transient_retry m)"
  unfolding transient_retry_def by (rule tried)

end

text \<open>What is tried again is one request, with the value its answer has.\<close>

locale requesting = trying pr us R Q
  for pr :: "'g \<Rightarrow> string set" and us :: "'g \<Rightarrow> string \<Rightarrow> string option"
    and R :: "'g \<Rightarrow> 'g \<Rightarrow> bool" and Q :: "'g \<Rightarrow> json \<Rightarrow> 'g \<Rightarrow> bool"
begin

lemma sent:
  assumes "answers R Q http m path body"
  shows "does R Q (send_ok http m path body)"
proof (rule doesI)
  fix c r c' assume *: "send_ok http m path body c = (r, c')"
  obtain r1 g where h: "http m path body (ac_token c) (ac_server c) = (r1, g)" by fastforce
  have law: "R (ac_server c) (snd (http m path body (ac_token c) (ac_server c))) \<and>
      (\<forall>v. accepted (fst (http m path body (ac_token c) (ac_server c))) = Some v \<longrightarrow>
        Q (ac_server c) v (snd (http m path body (ac_token c) (ac_server c))))"
    using assms unfolding answers_def by blast
  from * show "R (ac_server c) (ac_server c')"
    using law by (auto simp: h send_ok_def send_def bind_call_def raise_for_status_def split: sum.splits if_splits)
  show "Q (ac_server c) x (ac_server c')" if "send_ok http m path body c = (Inr x, c')" for x
    using that law by (auto simp: h send_ok_def send_def bind_call_def raise_for_status_def accepted_def
        split: sum.splits if_splits)
qed

text \<open>The loop over 409 sends the request again before its answer is looked at.\<close>

lemma posted:
  assumes "answers R Q http m path body"
  shows "does R Q (bind_call (duplicate_posts n (send http m path body)) raise_for_status)"
proof (induction n)
  case 0
  show ?case using sent [OF assms] by (simp add: send_ok_def bind_call_def [abs_def])
next
  case (Suc n)
  let ?m = "send http m path body" and ?b = "\<lambda>n. bind_call (duplicate_posts n (send http m path body)) raise_for_status"
  have step: "R (ac_server c) (ac_server c') \<and> (\<forall>x. r = Inr x \<longrightarrow> Q (ac_server c) x (ac_server c'))"
    if b: "?b (Suc n) c = (r, c')" for c r c'
  proof -
    obtain r1 c1 where s: "?m c = (r1, c1)" by fastforce
    show ?thesis
    proof (cases "\<exists>v. r1 = Inr (409, v)")
      case True
      then obtain v where v: "r1 = Inr (409, v)" by blast
      have "send_ok http m path body c = (Inl (HTTPStatusError 409), c1)"
        by (simp add: send_ok_def bind_call_def s v raise_for_status_def)
      then have 1: "R (ac_server c) (ac_server c1)" by (rule doesD(1) [OF sent [OF assms]])
      have t: "?b n c1 = (r, c')" using b by (simp add: bind_call_def s v)
      show ?thesis using doesD [OF Suc.IH t] chained [OF 1] late [OF 1] by blast
    next
      case False
      have "send_ok http m path body c = (r, c')"
        using b False by (auto simp: send_ok_def bind_call_def s split: sum.splits if_splits)
      then show ?thesis using doesD [OF sent [OF assms]] by blast
    qed
  qed
  show ?case unfolding does_def using step by blast
qed

end

text \<open>An entry of the list of accounts tells whose it is.\<close>

definition found_as :: "('g \<Rightarrow> string \<Rightarrow> string option) \<Rightarrow> string \<Rightarrow> 'g \<Rightarrow> dict option \<Rightarrow> 'g \<Rightarrow> bool" where
  "found_as us n g u g' \<longleftrightarrow>
     (\<forall>d i. u = Some d \<and> map_of d ''user_id'' = Some (JStr i) \<longrightarrow> us g i = Some n)"

interpretation keeping: trying pr us "same_server pr us" "\<lambda>_ _ _. True" for pr us
  by unfold_locales (auto simp: same_server_def)

interpretation finding: trying pr us "same_server pr us" "found_as us n" for pr us n
  by unfold_locales (auto simp: same_server_def found_as_def)

interpretation posting: requesting pr us "same_server pr us" "\<lambda>_ _ _. True" for pr us
  by unfold_locales

interpretation reading: requesting pr us "same_server pr us" "listed us" for pr us
  by unfold_locales (auto simp: same_server_def listed_def split: json.splits)

interpretation copying: requesting pr us "copies_step pr us" "copied_as pr" for pr us
  by unfold_locales (auto simp: same_server_def copies_step_def copied_as_def)

interpretation joining: requesting pr us "account_step pr us n" "account_as us n" for pr us n
  by unfold_locales (auto simp: same_server_def account_step_def account_as_def)

interpretation dropping: requesting pr us "project_step pr us p" "\<lambda>g _ g'. pr g' = pr g - {p}" for pr us p
  by unfold_locales (auto simp: same_server_def project_step_def)

interpretation leaving: requesting pr us "user_step pr us i" "\<lambda>g _ g'. us g' = (us g)(i := None)" for pr us i
  by unfold_locales (auto simp: same_server_def user_step_def)

text \<open>Reading an answer leaves the server alone.\<close>

definition silent :: "('g, 'a) call \<Rightarrow> bool" where
  "silent m \<longleftrightarrow> (\<forall>c. ac_server (snd (m c)) = ac_server c)"

lemma silent_calls: "silent (give x)" "silent (str_field k v)" "silent (entries v)"
  "silent (\<lambda>c. (Inl e, c))" "silent (\<lambda>c. (Inr x, c\<lparr>ac_token := t\<rparr>))"
  by (auto simp: silent_def give_def str_field_def entries_def split: json.split option.split)

lemma does_then:
  assumes "does R Q m" and "\<And>x. silent (f x)"
    and "\<And>g x g' c y c'. Q g x g' \<Longrightarrow> f x c = (Inr y, c') \<Longrightarrow> Q' g y g'"
  shows "does R Q' (bind_call m f)"
proof -
  have step: "R (ac_server c) (ac_server c') \<and> (\<forall>y. r = Inr y \<longrightarrow> Q' (ac_server c) y (ac_server c'))"
    if b: "bind_call m f c = (r, c')" for c r c'
  proof -
    obtain r1 c1 where m: "m c = (r1, c1)" by fastforce
    note d = doesD [OF assms(1) m]
    show ?thesis
    proof (cases r1)
      case (Inr x)
      with b have fx: "f x c1 = (r, c')" by (simp add: bind_call_def m)
      then have "ac_server c' = ac_server c1" using assms(2) [of x] unfolding silent_def by (metis snd_conv)
      then show ?thesis using d(1) d(2) [OF Inr] assms(3) fx by auto
    qed (use b d in \<open>auto simp: bind_call_def m\<close>)
  qed
  show ?thesis unfolding does_def using step by blast
qed

lemma does_plain:
  assumes "does R Q m" and "\<And>x. silent (f x)"
  shows "does R (\<lambda>_ _ _. True) (bind_call m f)"
  by (rule does_then [OF assms]) simp

lemma does_weaken: "does R Q m \<Longrightarrow> does R (\<lambda>_ _ _. True) m"
  by (auto simp: does_def)

lemma does_keeps:
  assumes "does (same_server pr us) Q m"
  shows "keeps (pr \<circ> ac_server) (us \<circ> ac_server) (\<lambda>c. told (m c))"
  using assms unfolding does_def keeps_def same_server_def told_def
  by (metis comp_apply eq_snd_iff snd_conv)

text \<open>Paths.\<close>

lemma last_path: "s \<noteq> [] \<Longrightarrow> last (project_path p @ s) = last s"
  by simp

lemma plain_paths:
  "project_path p @ ''/open'' \<noteq> project_path t @ ''/duplicate''"
  "a \<in> set VALID_NODE_ACTIONS \<Longrightarrow> project_path p @ ''/nodes/'' @ i @ ''/'' @ a \<noteq> project_path t @ ''/duplicate''"
  "a \<in> set VALID_NODE_ACTIONS \<Longrightarrow> project_path p @ ''/nodes/'' @ a \<noteq> project_path t @ ''/duplicate''"
  "''/v3/access/acl'' \<noteq> project_path t @ ''/duplicate''"
  "''/v3/access/users/authenticate'' \<noteq> project_path t @ ''/duplicate''"
  by (auto simp: VALID_NODE_ACTIONS_def project_path_def dest!: arg_cong [where f = last])

lemma other_paths: "project_path p @ s \<noteq> ''/v3/access/users''"
  by (simp add: project_path_def)

lemma laws_post:
  "http_laws http pr us \<Longrightarrow> path \<noteq> ''/v3/access/users'' \<Longrightarrow> (\<And>t. path \<noteq> project_path t @ ''/duplicate'') \<Longrightarrow>
   answers (same_server pr us) (\<lambda>_ _ _. True) http POST path body"
  unfolding http_laws_def by blast

lemma laws_requests:
  assumes "http_laws http pr us"
  shows "answers (copies_step pr us) (copied_as pr) http POST (project_path t @ ''/duplicate'') body"
    and "answers (account_step pr us n) (account_as us n) http POST ''/v3/access/users'' (user_body n pw)"
    and "answers (project_step pr us p) (\<lambda>g _ g'. pr g' = pr g - {p}) http DELETE (project_path p) JNull"
    and "answers (user_step pr us i) (\<lambda>g _ g'. us g' = (us g)(i := None)) http DELETE (''/v3/access/users/'' @ i) JNull"
    and "answers (same_server pr us) (listed us) http GET path JNull"
  using assms by (simp_all add: http_laws_def)

lemma login_kept:
  assumes "http_laws http pr us"
  shows "does (same_server pr us) (\<lambda>_ _ _. True) (authenticate http login)"
proof -
  have "answers (same_server pr us) (\<lambda>_ _ _. True) http POST ''/v3/access/users/authenticate'' login"
    by (rule laws_post [OF assms _ plain_paths(5)]) simp
  then show ?thesis unfolding authenticate_def
    by (intro does_plain [where Q = "\<lambda>_ _ _. True"] posting.sent silent_calls)
qed

lemma plain_post:
  assumes laws: "http_laws http pr us" and "path \<noteq> ''/v3/access/users''"
    and "\<And>t. path \<noteq> project_path t @ ''/duplicate''"
  shows "does (same_server pr us) (\<lambda>_ _ _. True) (retry_on_401 http login (send_ok http POST path body))"
  by (rule keeping.retried [OF posting.sent [OF laws_post [OF assms]] login_kept [OF laws]])

lemma plain_get:
  assumes laws: "http_laws http pr us"
  shows "does (same_server pr us) (listed us) (retry_on_401 http login (send_ok http GET path JNull))"
  by (rule reading.retried [OF reading.sent [OF laws_requests(5) [OF laws]] login_kept [OF laws]])

lemma copies_kept:
  assumes laws: "http_laws http pr us"
  shows "does (copies_step pr us) (copied_as pr) (duplicate_project http login t name)"
  unfolding duplicate_project_def
  by (rule copying.tried_thrice [OF copying.retried [OF copying.posted [OF laws_requests(1) [OF laws]] login_kept [OF laws]]])

lemma accounts_kept:
  assumes laws: "http_laws http pr us"
  shows "does (account_step pr us n) (account_as us n) (create_user http login n pw)"
  unfolding create_user_def
  by (rule joining.tried_thrice [OF joining.retried [OF joining.sent [OF laws_requests(2) [OF laws]] login_kept [OF laws]]])

lemma deletions_kept:
  assumes laws: "http_laws http pr us"
  shows "does (project_step pr us p) (\<lambda>g _ g'. pr g' = pr g - {p}) (delete_project http login p)"
    and "does (user_step pr us i) (\<lambda>g _ g'. us g' = (us g)(i := None)) (delete_user http login i)"
  unfolding delete_project_def delete_user_def
  by (rule dropping.retried [OF dropping.sent [OF laws_requests(3) [OF laws]] login_kept [OF laws]],
    rule leaving.retried [OF leaving.sent [OF laws_requests(4) [OF laws]] login_kept [OF laws]])

lemma str_field_field: "str_field k v c = (Inr y, c') \<Longrightarrow> field k v = Some y"
  by (auto simp: str_field_def field_def split: json.splits option.splits)

lemma does_refused: "does (same_server pr us) (\<lambda>_ _ _. True) (Pair (Inl e))"
  by (simp add: does_def same_server_def)

lemma find_SomeD: "List.find P xs = Some d \<Longrightarrow> d \<in> set xs \<and> P d"
  by (induction xs) (auto split: if_splits)

lemma find_user_kept:
  assumes laws: "http_laws http pr us"
  shows "does (same_server pr us) (found_as us n) (find_user_by_name http login n)"
  unfolding find_user_by_name_def
proof (rule finding.retried [OF _ login_kept [OF laws]])
  have "does (same_server pr us) (\<lambda>g ds g'. listed us g (JList (map JObj ds)) g')
      (bind_call (send_ok http GET ''/v3/access/users'' JNull) entries)"
  proof (rule does_then [OF reading.sent [OF laws_requests(5) [OF laws]]])
    fix g x g' and c :: "'a client" and ds c' assume "listed us g x g'" "entries x c = (Inr ds, c')"
    then show "listed us g (JList (map JObj ds)) g'"
      by (force simp: listed_def entries_def list_all_iff split: json.splits if_splits)
  qed (rule silent_calls)
  then show "does (same_server pr us) (found_as us n)
      (bind_call (bind_call (send_ok http GET ''/v3/access/users'' JNull) entries)
        (\<lambda>ds. give (List.find (\<lambda>u. map_of u ''username'' = Some (JStr n)) ds)))"
  proof (rule does_then)
    fix g ds g' and c :: "'a client" and u c'
    assume l: "listed us g (JList (map JObj ds)) g'"
      and "give (List.find (\<lambda>u. map_of u ''username'' = Some (JStr n)) ds) c = (Inr u, c')"
    then have u: "u = List.find (\<lambda>u. map_of u ''username'' = Some (JStr n)) ds" by (simp add: give_def)
    have "us g i = Some n" if "u = Some d" "map_of d ''user_id'' = Some (JStr i)" for d i
    proof -
      from that(1) u have "d \<in> set ds" "map_of d ''username'' = Some (JStr n)"
        using find_SomeD [of "\<lambda>u. map_of u ''username'' = Some (JStr n)" ds d] by simp_all
      with l that(2) show ?thesis unfolding listed_def by (fastforce simp: image_iff)
    qed
    then show "found_as us n g u g'" by (simp add: found_as_def)
  qed (rule silent_calls)
qed

lemma role_kept:
  assumes laws: "http_laws http pr us"
  shows "does (same_server pr us) (\<lambda>_ _ _. True) (get_builtin_role http login r)"
  unfolding get_builtin_role_def
proof (rule keeping.retried [OF _ login_kept [OF laws]])
  have pick: "silent (\<lambda>c1. case List.find (builtin_role r) roles of None \<Rightarrow> (Inl BadAnswer, c1)
      | Some d \<Rightarrow> (Inr (JObj d), c1\<lparr>ac_roles := (r, JObj d) # ac_roles c1\<rparr>))" for roles
    by (auto simp: silent_def split: option.split)
  have "does (same_server pr us) (\<lambda>_ _ _. True)
      (bind_call (bind_call (send_ok http GET ''/v3/access/roles'' JNull) entries)
        (\<lambda>roles c1. case List.find (builtin_role r) roles of None \<Rightarrow> (Inl BadAnswer, c1)
           | Some d \<Rightarrow> (Inr (JObj d), c1\<lparr>ac_roles := (r, JObj d) # ac_roles c1\<rparr>)))"
    by (rule does_plain [OF does_plain [OF reading.sent [OF laws_requests(5) [OF laws]] silent_calls(3)] pick])
  then show "does (same_server pr us) (\<lambda>_ _ _. True) (\<lambda>c. case map_of (ac_roles c) r of Some role \<Rightarrow> (Inr role, c)
      | None \<Rightarrow> bind_call (bind_call (send_ok http GET ''/v3/access/roles'' JNull) entries)
        (\<lambda>roles c1. case List.find (builtin_role r) roles of None \<Rightarrow> (Inl BadAnswer, c1)
           | Some d \<Rightarrow> (Inr (JObj d), c1\<lparr>ac_roles := (r, JObj d) # ac_roles c1\<rparr>)) c)"
    by (auto simp: does_def same_server_def split: option.splits)
qed

lemma plain_calls_kept:
  assumes laws: "http_laws http pr us"
  shows "does (same_server pr us) (\<lambda>_ _ _. True) (open_project http login p)"
    and "does (same_server pr us) (\<lambda>_ _ _. True) (create_acl http login path r i)"
    and "does (same_server pr us) (\<lambda>_ _ _. True) (get_user_token http login u pw)"
    and "does (same_server pr us) (\<lambda>_ _ _. True) (post_node http login p i a)"
    and "does (same_server pr us) (\<lambda>_ _ _. True) (post_nodes http login p a)"
    and "does (same_server pr us) (listed us) (get_nodes http login p)"
    and "does (same_server pr us) (listed us) (get_links http login p)"
proof -
  note post = plain_post [OF laws]
  show "does (same_server pr us) (\<lambda>_ _ _. True) (open_project http login p)"
    unfolding open_project_def by (rule keeping.tried_thrice [OF post [OF other_paths plain_paths(1)]])
  show "does (same_server pr us) (\<lambda>_ _ _. True) (create_acl http login path r i)"
    unfolding create_acl_def by (rule keeping.tried_thrice [OF post [OF _ plain_paths(4)]]) simp
  have "answers (same_server pr us) (\<lambda>_ _ _. True) http POST ''/v3/access/users/authenticate'' (user_body u pw)"
    by (rule laws_post [OF laws _ plain_paths(5)]) simp
  from does_plain [OF posting.sent [OF this] silent_calls(2)]
  show "does (same_server pr us) (\<lambda>_ _ _. True) (get_user_token http login u pw)"
    unfolding get_user_token_def by (rule keeping.tried_thrice [OF keeping.retried [OF _ login_kept [OF laws]]])
  show "does (same_server pr us) (\<lambda>_ _ _. True) (post_node http login p i a)"
    using does_refused post [OF other_paths plain_paths(2)] by (auto simp: post_node_def)
  show "does (same_server pr us) (\<lambda>_ _ _. True) (post_nodes http login p a)"
    using does_refused post [OF other_paths plain_paths(3)] by (auto simp: post_nodes_def)
  show "does (same_server pr us) (listed us) (get_nodes http login p)"
    and "does (same_server pr us) (listed us) (get_links http login p)"
    unfolding get_nodes_def get_links_def by (rule plain_get [OF laws])+
qed

lemma told_does:
  assumes "does R Q m" and "told (m c) = (r, c')"
  shows "R (ac_server c) (ac_server c')" and "r = Inr x \<Longrightarrow> Q (ac_server c) x (ac_server c')"
proof -
  obtain r1 where m: "m c = (r1, c')" using assms(2) by (cases "m c") (simp add: told_def)
  then have r: "r = map_sum (\<lambda>_. ''error'') id r1" using assms(2) by (simp add: told_def)
  show "R (ac_server c) (ac_server c')" by (rule doesD(1) [OF assms(1) m])
  show "Q (ac_server c) x (ac_server c')" if "r = Inr x"
    by (rule doesD(2) [OF assms(1) m]) (use that r in \<open>cases r1, simp_all\<close>)
qed

lemma client_copies:
  assumes laws: "http_laws http pr us"
  shows "copies_projects (admin_client http login) (pr \<circ> ac_server) (us \<circ> ac_server)"
  unfolding copies_projects_def
proof (intro allI)
  fix t n c
  have d: "does (copies_step pr us) (\<lambda>g p g'. p \<notin> pr g \<and> insert p (pr g) \<subseteq> pr g')
      (bind_call (duplicate_project http login t n) (str_field ''project_id''))"
    by (rule does_then [OF copies_kept [OF laws] silent_calls(2)]) (auto simp: copied_as_def dest: str_field_field)
  obtain r c' where c: "gn_duplicate (admin_client http login) t n c = (r, c')" by fastforce
  then have "told (bind_call (duplicate_project http login t n) (str_field ''project_id'') c) = (r, c')"
    by (simp add: admin_client_def)
  from told_does [OF d this]
  show "(us \<circ> ac_server) (snd (gn_duplicate (admin_client http login) t n c)) = (us \<circ> ac_server) c \<and>
      (case gn_duplicate (admin_client http login) t n c of
         (Inl _, g') \<Rightarrow> (pr \<circ> ac_server) c \<subseteq> (pr \<circ> ac_server) g'
       | (Inr p, g') \<Rightarrow> p \<notin> (pr \<circ> ac_server) c \<and> insert p ((pr \<circ> ac_server) c) \<subseteq> (pr \<circ> ac_server) g')"
    by (cases r) (simp_all add: c copies_step_def)
qed

lemma client_accounts:
  assumes laws: "http_laws http pr us"
  shows "makes_accounts (admin_client http login) (pr \<circ> ac_server) (us \<circ> ac_server)"
  unfolding makes_accounts_def
proof (intro allI)
  fix n pw c
  have d: "does (account_step pr us n) (\<lambda>g i g'. us g i = None \<and> us g' = (us g)(i \<mapsto> n))
      (bind_call (create_user http login n pw) (str_field ''user_id''))"
    by (rule does_then [OF accounts_kept [OF laws] silent_calls(2)]) (auto simp: account_as_def dest: str_field_field)
  obtain r c' where c: "gn_create_user (admin_client http login) n pw c = (r, c')" by fastforce
  then have "told (bind_call (create_user http login n pw) (str_field ''user_id'') c) = (r, c')"
    by (simp add: admin_client_def)
  from told_does [OF d this]
  show "(pr \<circ> ac_server) (snd (gn_create_user (admin_client http login) n pw c)) = (pr \<circ> ac_server) c \<and>
      (case gn_create_user (admin_client http login) n pw c of
         (Inl _, g') \<Rightarrow> (us \<circ> ac_server) c \<subseteq>\<^sub>m (us \<circ> ac_server) g'
       | (Inr i, g') \<Rightarrow> (us \<circ> ac_server) c i = None \<and> (us \<circ> ac_server) g' = ((us \<circ> ac_server) c)(i \<mapsto> n))"
    by (cases r) (auto simp: c account_step_def map_le_def)
qed

lemma client_deletes:
  assumes laws: "http_laws http pr us"
  shows "deletes (admin_client http login) (pr \<circ> ac_server) (us \<circ> ac_server)"
  unfolding deletes_def
proof (intro conjI allI)
  let ?pr = "pr \<circ> ac_server" and ?us = "us \<circ> ac_server" and ?c = "admin_client http login"
  fix c
  show "?us (snd (gn_delete_project ?c p c)) = ?us c" "case gn_delete_project ?c p c of
      (Inl _, g') \<Rightarrow> ?pr g' \<subseteq> ?pr c \<and> ?pr c - {p} \<subseteq> ?pr g' | (Inr _, g') \<Rightarrow> ?pr g' = ?pr c - {p}" for p
  proof -
    have d: "does (project_step pr us p) (\<lambda>g _ g'. pr g' = pr g - {p}) (bind_call (delete_project http login p) (\<lambda>_. give ()))"
      by (rule does_then [OF deletions_kept(1) [OF laws] silent_calls(1)])
    obtain r c' where c: "gn_delete_project ?c p c = (r, c')" by fastforce
    then have "told (bind_call (delete_project http login p) (\<lambda>_. give ()) c) = (r, c')" by (simp add: admin_client_def)
    from told_does [OF d this]
    show "?us (snd (gn_delete_project ?c p c)) = ?us c" "case gn_delete_project ?c p c of
        (Inl _, g') \<Rightarrow> ?pr g' \<subseteq> ?pr c \<and> ?pr c - {p} \<subseteq> ?pr g' | (Inr _, g') \<Rightarrow> ?pr g' = ?pr c - {p}"
      by (cases r; simp add: c project_step_def)+
  qed
  show "?pr (snd (gn_delete_user ?c i c)) = ?pr c" "case gn_delete_user ?c i c of
      (Inl _, g') \<Rightarrow> ?us g' = ?us c \<or> ?us g' = (?us c)(i := None) | (Inr _, g') \<Rightarrow> ?us g' = (?us c)(i := None)" for i
  proof -
    have d: "does (user_step pr us i) (\<lambda>g _ g'. us g' = (us g)(i := None)) (bind_call (delete_user http login i) (\<lambda>_. give ()))"
      by (rule does_then [OF deletions_kept(2) [OF laws] silent_calls(1)])
    obtain r c' where c: "gn_delete_user ?c i c = (r, c')" by fastforce
    then have "told (bind_call (delete_user http login i) (\<lambda>_. give ()) c) = (r, c')" by (simp add: admin_client_def)
    from told_does [OF d this]
    show "?pr (snd (gn_delete_user ?c i c)) = ?pr c" "case gn_delete_user ?c i c of
        (Inl _, g') \<Rightarrow> ?us g' = ?us c \<or> ?us g' = (?us c)(i := None) | (Inr _, g') \<Rightarrow> ?us g' = (?us c)(i := None)"
      by (cases r; simp add: c user_step_def)+
  qed
qed

lemma client_finds:
  assumes laws: "http_laws http pr us"
  shows "does (same_server pr us) (\<lambda>g u g'. \<forall>i. u = Some i \<longrightarrow> us g i = Some n)
      (bind_call (find_user_by_name http login n) (\<lambda>u. case u of None \<Rightarrow> give None | Some d \<Rightarrow>
         bind_call (str_field ''user_id'' (JObj d)) (\<lambda>i. give (Some i))))"
  by (rule does_then [OF find_user_kept [OF laws]])
    (auto simp: silent_def give_def bind_call_def str_field_def found_as_def split: option.splits json.splits)

lemma client_finds_accounts:
  assumes laws: "http_laws http pr us"
  shows "finds_accounts (admin_client http login) (us \<circ> ac_server)"
  unfolding finds_accounts_def
proof (intro allI)
  fix n c
  obtain r c' where c: "gn_find_user (admin_client http login) n c = (r, c')" by fastforce
  then have "told (bind_call (find_user_by_name http login n) (\<lambda>u. case u of None \<Rightarrow> give None | Some d \<Rightarrow>
      bind_call (str_field ''user_id'' (JObj d)) (\<lambda>i. give (Some i))) c) = (r, c')" by (simp add: admin_client_def)
  from told_does(2) [OF client_finds [OF laws] this]
  show "case gn_find_user (admin_client http login) n c of (Inr (Some i), g') \<Rightarrow> (us \<circ> ac_server) c i = Some n | _ \<Rightarrow> True"
    by (simp add: c split: sum.split option.split)
qed

subsection \<open>A small server behind HTTP\<close>

text \<open>
  The small server again, now as one that answers requests.  While \<open>sm_refused\<close> is not empty a copy
  is made, one entry is used up, and the answer is lost.
\<close>

definition projects_prefix :: string where "projects_prefix = ''/v3/projects/''"

definition users_prefix :: string where "users_prefix = ''/v3/access/users/''"

definition asks_copy :: "string \<Rightarrow> bool" where
  "asks_copy path \<longleftrightarrow> starts_with path projects_prefix \<and> ends_with (drop (length projects_prefix) path) ''/duplicate''"

definition user_name :: "json \<Rightarrow> string" where
  "user_name body = (case field ''username'' body of None \<Rightarrow> [] | Some n \<Rightarrow> n)"

definition user_entry :: "string \<times> string \<Rightarrow> json" where
  "user_entry u = JObj [(''user_id'', JStr (fst u)), (''username'', JStr (snd u))]"

definition small_copy :: "small \<Rightarrow> (client_error + nat \<times> json) \<times> small" where
  "small_copy g =
     (let p = CHR ''p'' # concat (sm_projects g); g' = g\<lparr>sm_projects := p # sm_projects g\<rparr>
      in if sm_refused g = [] then (Inr (201, JObj [(''project_id'', JStr p)]), g')
         else (Inl ReadTimeout, g'\<lparr>sm_refused := tl (sm_refused g)\<rparr>))"

definition small_join :: "string \<Rightarrow> small \<Rightarrow> (client_error + nat \<times> json) \<times> small" where
  "small_join n g =
     (if n \<in> snd ` set (sm_users g) then (Inr (400, JNull), g)
      else let i = CHR ''u'' # concat (map fst (sm_users g))
        in (Inr (201, user_entry (i, n)), g\<lparr>sm_users := (i, n) # sm_users g\<rparr>))"

definition small_http :: "small http" where
  "small_http m path body token g =
     (case m of
        GET \<Rightarrow> (Inr (200, JList (map user_entry (filter (\<lambda>u. map_of (sm_users g) (fst u) = Some (snd u)) (sm_users g)))), g)
      | POST \<Rightarrow>
          if path = ''/v3/access/users'' then small_join (user_name body) g
          else if asks_copy path then small_copy g
          else (Inr (200, JObj [(''access_token'', JStr ''t'')]), g)
      | DELETE \<Rightarrow>
          if starts_with path projects_prefix
          then (Inr (204, JNull), g\<lparr>sm_projects := removeAll (drop (length projects_prefix) path) (sm_projects g)\<rparr>)
          else if starts_with path users_prefix
          then (Inr (204, JNull),
            g\<lparr>sm_users := filter (\<lambda>u. fst u \<noteq> drop (length users_prefix) path) (sm_users g)\<rparr>)
          else (Inr (404, JNull), g))"

lemma project_path_prefix: "project_path p = projects_prefix @ p"
  by (simp add: project_path_def projects_prefix_def)

lemma asks_copy_iff: "asks_copy path \<longleftrightarrow> (\<exists>t. path = project_path t @ ''/duplicate'')"
proof
  assume "asks_copy path"
  then have s: "take (length projects_prefix) path = projects_prefix"
    and e: "ends_with (drop (length projects_prefix) path) ''/duplicate''"
    by (simp_all only: asks_copy_def starts_with_def simp_thms)
  from e obtain t where "drop (length projects_prefix) path = t @ ''/duplicate''"
    unfolding ends_with_def by (metis append_take_drop_id)
  with s have "path = projects_prefix @ t @ ''/duplicate''" by (metis append_take_drop_id)
  then show "\<exists>t. path = project_path t @ ''/duplicate''" by (auto simp: project_path_prefix)
qed (auto simp: asks_copy_def project_path_prefix starts_with_def ends_with_def)

lemma small_http_requests:
  "answers (copies_step small_projects small_accounts) (copied_as small_projects) small_http POST (project_path t @ ''/duplicate'') b"
  "answers (account_step small_projects small_accounts n) (account_as small_accounts n) small_http POST ''/v3/access/users'' (user_body n pw)"
  "answers (project_step small_projects small_accounts p) (\<lambda>g _ g'. small_projects g' = small_projects g - {p})
     small_http DELETE (project_path p) JNull"
  "answers (user_step small_projects small_accounts i) (\<lambda>g _ g'. small_accounts g' = (small_accounts g)(i := None))
     small_http DELETE (''/v3/access/users/'' @ i) JNull"
  "answers (same_server small_projects small_accounts) (listed small_accounts) small_http GET path JNull"
  "path \<noteq> ''/v3/access/users'' \<Longrightarrow> \<nexists>t. path = project_path t @ ''/duplicate'' \<Longrightarrow>
     answers (same_server small_projects small_accounts) (\<lambda>_ _ _. True) small_http POST path b"
proof -
  have "asks_copy (project_path t @ ''/duplicate'')" by (auto simp: asks_copy_iff)
  then show "answers (copies_step small_projects small_accounts) (copied_as small_projects) small_http POST (project_path t @ ''/duplicate'') b"
    using other_paths [of t "''/duplicate''"]
    by (auto simp: answers_def small_http_def small_copy_def Let_def copies_step_def copied_as_def small_projects_def
        small_accounts_def accepted_def field_def longer_than_all)
  have "user_name (user_body n pw) = n" by (simp add: user_name_def user_body_def field_def)
  then show "answers (account_step small_projects small_accounts n) (account_as small_accounts n) small_http POST
      ''/v3/access/users'' (user_body n pw)"
    using longer_than_all [of "CHR ''u''" "map fst us" for us]
    by (auto simp: answers_def small_http_def small_join_def Let_def account_step_def account_as_def small_projects_def
        small_accounts_def accepted_def field_def user_entry_def map_of_eq_None_iff ran_def dest!: map_of_SomeD intro: rev_image_eqI)
  show "answers (project_step small_projects small_accounts p) (\<lambda>g _ g'. small_projects g' = small_projects g - {p})
      small_http DELETE (project_path p) JNull"
    by (auto simp: answers_def small_http_def project_path_prefix starts_with_def project_step_def small_projects_def small_accounts_def)
  show "answers (user_step small_projects small_accounts i) (\<lambda>g _ g'. small_accounts g' = (small_accounts g)(i := None))
      small_http DELETE (''/v3/access/users/'' @ i) JNull"
    by (auto simp: answers_def small_http_def projects_prefix_def users_prefix_def starts_with_def user_step_def
        small_projects_def small_accounts_def map_of_removed)
  show "answers (same_server small_projects small_accounts) (listed small_accounts) small_http GET path JNull"
    by (auto simp: answers_def small_http_def same_server_def accepted_def listed_def user_entry_def small_accounts_def)
  show "answers (same_server small_projects small_accounts) (\<lambda>_ _ _. True) small_http POST path b"
    if "path \<noteq> ''/v3/access/users''" "\<nexists>t. path = project_path t @ ''/duplicate''"
    using that by (auto simp: answers_def small_http_def same_server_def asks_copy_iff)
qed

lemma small_http_laws: "http_laws small_http small_projects small_accounts"
  unfolding http_laws_def by (intro conjI allI impI small_http_requests) blast+

text \<open>A copy whose answer is lost is made again: what the service knows of is one of three.\<close>

definition slow_server :: "small client" where
  "slow_server = \<lparr>ac_server = \<lparr>sm_projects = [''t''], sm_users = [], sm_refused = [''a'', ''b'']\<rparr>,
     ac_token = Some ''t'', ac_roles = []\<rparr>"

lemma lost_answer_copies_again:
  "case gn_duplicate (admin_client small_http JNull) ''t'' ''lab'' slow_server of
     (r, c) \<Rightarrow> r = Inr ''pppttptt'' \<and> length (sm_projects (ac_server c)) = 4"
  by code_simp

lemma client_laws:
  assumes "http_laws http pr us"
  shows "gns3_laws (admin_client http login) (pr \<circ> ac_server) (us \<circ> ac_server)"
proof -
  let ?c = "admin_client http login" and ?pr = "pr \<circ> ac_server" and ?us = "us \<circ> ac_server"
  note plain = plain_calls_kept [OF assms]
  have 5: "keeps ?pr ?us (gn_find_user ?c n)" "keeps ?pr ?us (gn_open ?c p)" "keeps ?pr ?us (gn_role ?c n)"
    "keeps ?pr ?us (gn_acl ?c path n i)" "keeps ?pr ?us (gn_token ?c n pw)" "keeps ?pr ?us (gn_node_action ?c p n i)"
    "keeps ?pr ?us (gn_bulk ?c p n)" "keeps ?pr ?us (gn_nodes ?c p)" "keeps ?pr ?us (gn_links ?c p)" for n p path i pw
    unfolding admin_client_def gns3.simps
    by (intro does_keeps, (rule client_finds [OF assms] | rule does_plain [OF plain(1) silent_calls(1)] |
        rule does_plain [OF role_kept [OF assms] silent_calls(2)] | rule does_plain [OF plain(2) silent_calls(1)] |
        rule plain(3) | rule does_plain [OF plain(4) silent_calls(1)] | rule does_plain [OF plain(5) silent_calls(1)] |
        rule does_plain [OF plain(6) silent_calls(3)] | rule does_plain [OF plain(7) silent_calls(3)]))+
  show ?thesis unfolding gns3_laws_def
    by (intro conjI allI client_copies client_accounts client_deletes
        client_finds_accounts [OF assms] assms 5)
qed

subsection \<open>Main properties\<close>

text \<open>C13. The retries of the GNS3 client keep what the lab environments rely on.  Whenever each single request to
  the server behaves as documented - a copy gets a new id, though it may exist after a failure too; a name
  that is taken is refused; deletions remove what they name; everything else reads - the client, with its
  new login after a 401, its three tries and its five posts of a copy, answers as \<open>gns3_laws\<close> asks.
\<close>

theorem client_keeps_laws:
  assumes "http_laws http pr us"
  shows "gns3_laws (admin_client http login) (pr \<circ> ac_server) (us \<circ> ac_server)"
  using assms by (rule client_laws)

theorem client_keeps_laws_witness:
  "gns3_laws (admin_client small_http JNull) (small_projects \<circ> ac_server) (small_accounts \<circ> ac_server)"
  by (rule client_keeps_laws [OF small_http_laws])

text \<open>Over a server that behaves so, the environments are therefore backed.\<close>

theorem environments_backed_over_http:
  assumes "http_laws http pr us" and "sv_rows s = []" and "list_all settles ops"
    and "distinct (map (gns3_username_for sha) (concat (map launched ops)))"
  shows "well_kept sha (pr \<circ> ac_server) (us \<circ> ac_server) (fold (env_step (admin_client http login) sha) ops s)"
  by (rule env_run_kept [OF client_laws [OF assms(1)] _ assms(3)]) (simp_all add: assms(2,4) well_kept_def backed_def)

text \<open>C33. However the GNS3 server answers - refusals, time-outs, expired tokens, locked projects - a launch sends
  it at most 96 requests, its roll-back included.
\<close>

theorem launch_requests_bounded:
  assumes "counts n http"
  shows "n (ac_server (sv_server (snd (create_session (admin_client http login) sha env student template s)))) \<le>
    n (ac_server (sv_server s)) + 96"
  using launch_cost [OF client_calls_cost [OF assms], of login sha env student template s] by simp

definition busy_http :: "nat http" where
  "busy_http m path body token g = (Inr (503, JNull), Suc g)"

definition busy_service :: "nat client service" where
  "busy_service = \<lparr>sv_server = \<lparr>ac_server = 0, ac_token = None, ac_roles = []\<rparr>, sv_rows = [],
     sv_cache = Map.empty, sv_streams = []\<rparr>"

theorem launch_requests_bounded_witness:
  "ac_server (sv_server (snd (create_session (admin_client busy_http JNull) id (lab_env ''a'') ''ann'' ''t'' busy_service))) \<le> 96"
proof -
  have "counts id busy_http" by (simp add: counts_def busy_http_def)
  from launch_requests_bounded [OF this, of JNull id "lab_env ''a''" "''ann''" "''t''" busy_service]
  show ?thesis by (simp add: busy_service_def)
qed

end
