(* ===== verification/Paging.thy ===== *)
theory Paging
  imports Prelude
begin

text \<open>
  Reading a table newest first in pages: the order, the rows older than a cursor, and that the rows older
  than the last one of a page are those after it.  The activity of the GNS3 service
  (\<open>routers/history.py\<close>) and the audit of the backend (\<open>instructor/service.py\<close>) are read so.
\<close>

text \<open>\<open>ORDER BY ts DESC\<close>; rows of one instant keep the order they are stored in.\<close>

definition latest_first :: "('a \<Rightarrow> time) \<Rightarrow> 'a list \<Rightarrow> 'a list" where
  "latest_first ts rows = sort_key (\<lambda>r. - ts r) rows"

definition older :: "('a \<Rightarrow> time) \<Rightarrow> time option \<Rightarrow> 'a list \<Rightarrow> 'a list" where
  "older ts cursor rows = filter (\<lambda>r. case cursor of None \<Rightarrow> True | Some t \<Rightarrow> ts r < t) rows"

text \<open>
  Distinct times make the order strict; the rows older than the last one of a page are then exactly
  those after it.
\<close>

lemma latest_first_strict:
  assumes "distinct (map ts rows)"
  shows "sorted_wrt (\<lambda>a b. ts b < ts a) (latest_first ts rows)"
proof -
  let ?s = "latest_first ts rows"
  have "sorted (map (\<lambda>r. - ts r) ?s)" by (simp add: latest_first_def)
  moreover have "distinct (map (\<lambda>r. - ts r) ?s)"
    using assms by (simp add: latest_first_def distinct_map inj_on_def)
  ultimately have "sorted_wrt (<) (map (\<lambda>r. - ts r) ?s)" by (simp add: strict_sorted_iff)
  then show ?thesis by (simp add: sorted_wrt_map)
qed

lemma older_latest_first: "latest_first ts (older ts c rows) = older ts c (latest_first ts rows)"
  by (simp add: latest_first_def older_def filter_sort)

lemma older_than_page:
  assumes "sorted_wrt (\<lambda>a b. ts b < (ts a :: int)) C" and "0 < k" and "k \<le> length C"
  shows "older ts (Some (ts (last (take k C)))) C = drop k C"
proof -
  from assms(2,3) have ne: "take k C \<noteq> []" by auto
  have "older ts (Some (ts (last (take k C)))) (take k C) = []"
  proof -
    have "\<not> ts r < ts (last (take k C))" if "r \<in> set (take k C)" for r
    proof -
      have "sorted_wrt (\<lambda>a b. ts b < ts a) (butlast (take k C) @ [last (take k C)])"
        using ne sorted_wrt_take [OF assms(1)] by simp
      then have "\<forall>r \<in> set (butlast (take k C)). ts (last (take k C)) < ts r" by (simp add: sorted_wrt_append)
      then show ?thesis using that ne by (metis append_butlast_last_id in_set_conv_decomp_last less_asym
            less_irrefl rotate1.simps(2) set_ConsD set_rotate1)
    qed
    then show ?thesis by (simp add: older_def filter_empty_conv)
  qed
  moreover have "older ts (Some (ts (last (take k C)))) (drop k C) = drop k C"
  proof -
    have "ts r < ts a" if "a \<in> set (take k C)" "r \<in> set (drop k C)" for a r
      using assms(1) that by (metis append_take_drop_id sorted_wrt_append)
    then show ?thesis using ne by (simp add: older_def filter_id_conv)
  qed
  ultimately show ?thesis
    unfolding older_def by (metis append_Nil append_take_drop_id filter_append)
qed

lemma older_older: "older ts (Some t) (older ts c rows) = older ts (Some t) rows"
  if "\<And>r. r \<in> set rows \<Longrightarrow> ts r < t \<Longrightarrow> (case c of None \<Rightarrow> True | Some u \<Rightarrow> ts r < u)"
  unfolding older_def filter_filter using that by (intro filter_cong) (auto split: option.splits)

end
