(* ===== verification/Streams.thy ===== *)
theory Streams
  imports Environment Paging
begin

text \<open>
  What else the GNS3 service runs: the forwarders of project events and the lock that keeps one of them
  per project (\<open>gns3_ws_proxy.py\<close>), the listener that publishes history rows (\<open>history_listener_pg.py\<close>),
  the gate around access writes (\<open>rbac_gate.py\<close>), the purge of console rows (\<open>console_retention.py\<close>),
  the templates made at startup (\<open>templates_bootstrap.py\<close>), commands on FRR nodes (\<open>routers/exec.py\<close>),
  the activity pages (\<open>routers/history.py\<close>) and the event socket (\<open>routers/ws.py\<close>).
  Redis is modelled by its keys with owner and end; tasks are steps of the processes they run in.
\<close>

subsection \<open>Locks in Redis\<close>

type_synonym leases = "string \<rightharpoonup> string \<times> real"

definition lease_owner :: "real \<Rightarrow> leases \<Rightarrow> string \<Rightarrow> string option" where
  "lease_owner now l k = (case l k of None \<Rightarrow> None | Some (o', until) \<Rightarrow> if now < until then Some o' else None)"

text \<open>\<open>SET key owner NX EX ttl\<close>, and the two scripts.\<close>

definition set_nx_ex :: "real \<Rightarrow> real \<Rightarrow> string \<Rightarrow> string \<Rightarrow> leases \<Rightarrow> bool \<times> leases" where
  "set_nx_ex now ttl k owner l =
     (if lease_owner now l k = None then (True, l(k \<mapsto> (owner, now + ttl))) else (False, l))"

definition lua_renew :: "real \<Rightarrow> real \<Rightarrow> string \<Rightarrow> string \<Rightarrow> leases \<Rightarrow> bool \<times> leases" where
  "lua_renew now ttl k owner l =
     (if lease_owner now l k = Some owner then (True, l(k \<mapsto> (owner, now + ttl))) else (False, l))"

definition lua_release :: "real \<Rightarrow> string \<Rightarrow> string \<Rightarrow> leases \<Rightarrow> leases" where
  "lua_release now k owner l = (if lease_owner now l k = Some owner then l(k := None) else l)"

text \<open>A call of Redis answers, loses its answer, or does not arrive.\<close>

datatype redis_reply = Answered | AnswerLost | Unreached

subsection \<open>Forwarders\<close>

definition LOCK_TTL_SECONDS :: real where "LOCK_TTL_SECONDS = 90"

definition HEARTBEAT_INTERVAL_SECONDS :: real where "HEARTBEAT_INTERVAL_SECONDS = 30"

definition lock_key :: "string \<Rightarrow> string" where
  "lock_key project_id = ''lock:ws_proxy:'' @ project_id"

record proxy =
  px_instance :: string
  px_redis :: bool
  px_tasks :: "(string \<times> string) list"
  px_heartbeats :: "string list"

definition running :: "proxy \<Rightarrow> string \<Rightarrow> bool" where
  "running x p \<longleftrightarrow> p \<in> fst ` set (px_tasks x)"

definition start_project ::
  "real \<Rightarrow> redis_reply \<Rightarrow> string \<Rightarrow> string \<Rightarrow> proxy \<Rightarrow> leases \<Rightarrow> proxy \<times> leases" where
  "start_project now reply project_id session_id x l =
     (if running x project_id then (x, l)
      else if \<not> px_redis x then (x\<lparr>px_tasks := px_tasks x @ [(project_id, session_id)]\<rparr>, l)
      else (let (got, l1) = if reply = Unreached then (False, l)
              else set_nx_ex now LOCK_TTL_SECONDS (lock_key project_id) (px_instance x) l
            in if reply = Answered \<and> got
               then (x\<lparr>px_tasks := px_tasks x @ [(project_id, session_id)],
                 px_heartbeats := px_heartbeats x @ [project_id]\<rparr>, l1)
               else (x, l1)))"

definition stop_project :: "real \<Rightarrow> redis_reply \<Rightarrow> string \<Rightarrow> proxy \<Rightarrow> leases \<Rightarrow> proxy \<times> leases" where
  "stop_project now reply project_id x l =
     (x\<lparr>px_tasks := filter (\<lambda>t. fst t \<noteq> project_id) (px_tasks x),
        px_heartbeats := filter (\<lambda>p. p \<noteq> project_id) (px_heartbeats x)\<rparr>,
      if px_redis x \<and> reply \<noteq> Unreached then lua_release now (lock_key project_id) (px_instance x) l else l)"

text \<open>One beat of a heartbeat: only a lock known to be lost ends the forwarder.\<close>

definition heartbeat :: "real \<Rightarrow> redis_reply \<Rightarrow> string \<Rightarrow> proxy \<Rightarrow> leases \<Rightarrow> proxy \<times> leases" where
  "heartbeat now reply project_id x l =
     (if project_id \<notin> set (px_heartbeats x) \<or> \<not> px_redis x then (x, l)
      else (let (renewed, l1) = if reply = Unreached then (False, l)
              else lua_renew now LOCK_TTL_SECONDS (lock_key project_id) (px_instance x) l
            in if reply = Answered \<and> \<not> renewed then stop_project now reply project_id x l1 else (x, l1)))"

definition stop_all :: "real \<Rightarrow> redis_reply \<Rightarrow> proxy \<Rightarrow> leases \<Rightarrow> proxy \<times> leases" where
  "stop_all now reply x l =
     fold (\<lambda>p (x, l). stop_project now reply p x l) (map fst (px_tasks x)) (x, l)"

text \<open>At startup a process takes up the projects of the active sessions.\<close>

definition reattach :: "real \<Rightarrow> redis_reply \<Rightarrow> env_session list \<Rightarrow> proxy \<Rightarrow> leases \<Rightarrow> proxy \<times> leases" where
  "reattach now reply rows x l =
     fold (\<lambda>r (x, l). start_project now reply (ns_project r) (ns_id r) x l) (filter ns_active rows) (x, l)"

definition backoff_delay :: "nat \<Rightarrow> nat" where
  "backoff_delay attempt = (if attempt = 0 then 1 else min 30 (2 ^ attempt))"

subsection \<open>What a forwarder does with messages\<close>

definition HISTORY_ACTIONS :: "string list" where
  "HISTORY_ACTIONS = [''node.created'', ''node.updated'', ''node.deleted'', ''link.created'', ''link.deleted'']"

record history_row =
  hr_session :: string
  hr_event_type :: string
  hr_component :: json
  hr_data :: dict

datatype broker_event =
    StatusChanged json json
  | StreamDegraded nat
  | HistoryEvent json json json

datatype forwarded =
    Published string broker_event
  | Persisted history_row
  | Waited nat

definition get_json :: "string \<Rightarrow> dict \<Rightarrow> json" where
  "get_json k d = (case map_of d k of None \<Rightarrow> JNull | Some v \<Rightarrow> v)"

text \<open>Python's truth of a JSON value.\<close>

fun json_true :: "json \<Rightarrow> bool" where
  "json_true JNull = False"
| "json_true (JBool b) = b"
| "json_true (JInt i) = (i \<noteq> 0)"
| "json_true (JFloat s) = (s \<notin> {''0.0'', ''-0.0''})"
| "json_true (JStr s) = (s \<noteq> [])"
| "json_true (JList xs) = (xs \<noteq> [])"
| "json_true (JObj d) = (d \<noteq> [])"

definition history_entry :: "string \<Rightarrow> string \<Rightarrow> dict \<Rightarrow> history_row" where
  "history_entry session_id action event =
     \<lparr>hr_session = session_id, hr_event_type = action,
      hr_component = (if json_true (get_json ''node_id'' event) then get_json ''node_id'' event
                      else get_json ''link_id'' event),
      hr_data = event\<rparr>"

definition translate :: "string \<Rightarrow> dict \<Rightarrow> broker_event option" where
  "translate action event =
     (if action = ''node.updated'' then Some (StatusChanged (get_json ''node_id'' event) (get_json ''status'' event))
      else None)"

definition action_of :: "dict \<Rightarrow> string" where
  "action_of msg = (case map_of msg ''action'' of Some (JStr a) \<Rightarrow> a | _ \<Rightarrow> [])"

definition event_of :: "dict \<Rightarrow> dict" where
  "event_of msg = (case map_of msg ''event'' of Some (JObj e) \<Rightarrow> e | _ \<Rightarrow> [])"

definition handle_message :: "string \<Rightarrow> bool \<Rightarrow> dict \<Rightarrow> forwarded list" where
  "handle_message session_id stores msg =
     (let action = action_of msg; event = event_of msg
      in (if action \<in> set HISTORY_ACTIONS \<and> stores then [Persisted (history_entry session_id action event)] else []) @
         (case translate action event of None \<Rightarrow> [] | Some e \<Rightarrow> [Published session_id e]))"

text \<open>
  The messages of one connection: \<open>None\<close> is text that is no JSON, the flag tells whether the history row
  can be stored.  A JSON value that is no object raises, which ends the connection like any failure.
\<close>

type_synonym messages = "(json option \<times> bool) list"

fun forward_loop :: "string \<Rightarrow> messages \<Rightarrow> forwarded list \<times> bool" where
  "forward_loop session_id [] = ([], True)"
| "forward_loop session_id ((raw, stores) # ms) =
     (case raw of
        None \<Rightarrow> forward_loop session_id ms
      | Some (JObj msg) \<Rightarrow> apfst ((@) (handle_message session_id stores msg)) (forward_loop session_id ms)
      | Some _ \<Rightarrow> ([], False))"

text \<open>Connections until the task is cancelled; the flag tells whether the server closed gracefully.\<close>

fun supervised_forward :: "string \<Rightarrow> nat \<Rightarrow> (messages \<times> bool) list \<Rightarrow> forwarded list" where
  "supervised_forward session_id attempt [] = []"
| "supervised_forward session_id attempt ((ms, graceful) # conns) =
     (let (done, read_all) = forward_loop session_id ms;
          attempt' = (if read_all \<and> graceful then 0 else attempt) + 1
      in (if attempt = 0 then [] else [Published session_id (StreamDegraded attempt)]) @ done @
         [Waited (backoff_delay attempt')] @ supervised_forward session_id attempt' conns)"

text \<open>A stored row is announced by the database; the listener publishes it.\<close>

definition on_notify :: "json option \<Rightarrow> (json \<times> broker_event) option" where
  "on_notify payload =
     (case payload of
        Some (JObj d) \<Rightarrow>
          if json_true (get_json ''session_id'' d)
          then Some (get_json ''session_id'' d,
            HistoryEvent (get_json ''event_type'' d) (get_json ''component_id'' d) (get_json ''data'' d))
          else None
      | _ \<Rightarrow> None)"

fun listener_backoff :: "nat \<Rightarrow> bool list \<Rightarrow> nat list" where
  "listener_backoff backoff [] = []"
| "listener_backoff backoff (subscribed # cs) =
     (let b = if subscribed then 1 else backoff in min 30 b # listener_backoff (min 30 (b * 2)) cs)"

subsection \<open>The gate around access writes\<close>

definition RBAC_LOCK_TTL :: real where "RBAC_LOCK_TTL = 30"

definition RBAC_WAIT_TIMEOUT :: real where "RBAC_WAIT_TIMEOUT = 60"

definition RBAC_LOCK_KEY :: string where "RBAC_LOCK_KEY = ''lock:gns3_rbac_write''"

datatype entry = WithLock | WithoutLock | StillWaiting

text \<open>Polls at given times: whether Redis was reached.  Past the deadline the writer goes on without.\<close>

fun acquire_distributed :: "real \<Rightarrow> string \<Rightarrow> (real \<times> bool) list \<Rightarrow> leases \<Rightarrow> entry \<times> leases" where
  "acquire_distributed deadline token [] l = (StillWaiting, l)"
| "acquire_distributed deadline token ((now, reached) # polls) l =
     (if \<not> reached then (WithoutLock, l)
      else (let (got, l1) = set_nx_ex now RBAC_LOCK_TTL RBAC_LOCK_KEY token l
            in if got then (WithLock, l1)
               else if deadline \<le> now then (WithoutLock, l1)
               else acquire_distributed deadline token polls l1))"

definition release_distributed :: "real \<Rightarrow> bool \<Rightarrow> string option \<Rightarrow> leases \<Rightarrow> leases" where
  "release_distributed now reached token l =
     (case token of
        None \<Rightarrow> l
      | Some t \<Rightarrow> if reached \<and> lease_owner now l RBAC_LOCK_KEY = Some t then l(RBAC_LOCK_KEY := None) else l)"

subsection \<open>Purging console rows\<close>

record console_row =
  co_id :: string
  co_session :: string
  co_ts :: time

definition BATCH_SIZE :: nat where "BATCH_SIZE = 10000"

definition doomed :: "time \<Rightarrow> string list \<Rightarrow> console_row \<Rightarrow> bool" where
  "doomed cutoff live r \<longleftrightarrow> co_ts r < cutoff \<and> co_session r \<notin> set live"

text \<open>One batch deletes the rows whose ids are among the first of the doomed ones; the loop ends with a short one
  (and, so that it ends for a batch size of zero too, with an empty one).\<close>

definition purge_batch :: "nat \<Rightarrow> time \<Rightarrow> string list \<Rightarrow> console_row list \<Rightarrow> console_row list" where
  "purge_batch sz cutoff live rows =
     filter (\<lambda>r. co_id r \<notin> co_id ` set (take sz (filter (doomed cutoff live) rows))) rows"

function purge_model :: "nat \<Rightarrow> time \<Rightarrow> string list \<Rightarrow> console_row list \<Rightarrow> nat \<times> console_row list" where
  "purge_model sz cutoff live rows =
     (let rows' = purge_batch sz cutoff live rows; batch = length rows - length rows'
      in if batch < sz \<or> batch = 0 then (batch, rows')
         else apfst ((+) batch) (purge_model sz cutoff live rows'))"
  by pat_completeness auto

termination
  by (relation "measure (\<lambda>(sz, cutoff, live, rows). length rows)") auto

declare purge_model.simps [simp del]

definition active_ids :: "env_session list \<Rightarrow> string list" where
  "active_ids rows = map ns_id (filter ns_active rows)"

definition purge_console_history ::
  "time \<Rightarrow> env_session list \<Rightarrow> console_row list \<Rightarrow> console_row list \<Rightarrow> nat \<times> console_row list \<times> console_row list" where
  "purge_console_history cutoff rows chunks commands =
     (let (n, chunks') = purge_model BATCH_SIZE cutoff (active_ids rows) chunks;
          (m, commands') = purge_model BATCH_SIZE cutoff (active_ids rows) commands
      in (n + m, chunks', commands'))"

subsection \<open>Templates\<close>

definition FRR_ROUTER_TEMPLATE :: dict where
  "FRR_ROUTER_TEMPLATE =
     [(''name'', JStr ''FRR Router''), (''template_type'', JStr ''docker''), (''compute_id'', JStr ''local''),
      (''image'', JStr ''onlinetlabs/frr-role:9.1.0''), (''adapters'', JInt 4),
      (''start_command'', JStr ''/sbin/tini -- /usr/lib/frr/docker-start''), (''console_type'', JStr ''telnet''),
      (''console_resolution'', JStr ''1024x768''), (''console_http_port'', JInt 80),
      (''console_http_path'', JStr ''/''), (''memory'', JInt 96), (''category'', JStr ''router''),
      (''symbol'', JStr '':/symbols/affinity/square/blue/router.svg''),
      (''default_name_format'', JStr ''R{0}''),
      (''environment'', JStr (''FRR_ZEBRA=yes'' @ [CHR 10] @ ''FRR_OSPFD=no'')),
      (''usage'', JStr ''Console: telnet to console port, then run `vtysh` for FRR CLI'')]"

definition DHCP_SERVER_TEMPLATE :: dict where
  "DHCP_SERVER_TEMPLATE =
     [(''name'', JStr ''DHCP Server''), (''template_type'', JStr ''docker''), (''compute_id'', JStr ''local''),
      (''image'', JStr ''onlinetlabs/dhcp-role:latest''), (''adapters'', JInt 1), (''console_type'', JStr ''none''),
      (''memory'', JInt 48), (''category'', JStr ''guest''),
      (''symbol'', JStr '':/symbols/affinity/square/blue/server.svg''),
      (''default_name_format'', JStr ''DHCP{0}''),
      (''environment'', JStr (''DHCP_SUBNET=192.168.10.0/24'' @ [CHR 10] @
        ''DHCP_RANGE=192.168.10.100,192.168.10.200'' @ [CHR 10] @ ''DHCP_GATEWAY=192.168.10.1'')),
      (''usage'', JStr ''Headless dnsmasq DHCP server. Configure via DHCP_* env vars.'')]"

definition LAB_TEMPLATES :: "dict list" where
  "LAB_TEMPLATES = [FRR_ROUTER_TEMPLATE, DHCP_SERVER_TEMPLATE]"

text \<open>
  \<open>listing\<close> is what the server answers to the list request; \<open>post\<close> creates a template or fails.  The
  result is the server and the names that were posted.
\<close>

definition ensure_lab_templates ::
  "('g \<Rightarrow> dict list option) \<Rightarrow> (dict \<Rightarrow> 'g \<Rightarrow> 'g) \<Rightarrow> 'g \<Rightarrow> 'g \<times> json list" where
  "ensure_lab_templates listing post g =
     (case listing g of
        None \<Rightarrow> (g, [])
      | Some ts \<Rightarrow>
          fold (\<lambda>t (g, posted). if get_json ''name'' t \<in> get_json ''name'' ` set ts then (g, posted)
              else (post t g, posted @ [get_json ''name'' t])) LAB_TEMPLATES (g, []))"

subsection \<open>Commands on FRR nodes\<close>

text \<open>An HTTP error status, or the container.\<close>

definition fetch_container_id :: "nat \<times> dict \<Rightarrow> nat + json" where
  "fetch_container_id answer =
     (if fst answer = 404 then Inl 404
      else if \<not> (200 \<le> fst answer \<and> fst answer < 300) then Inl 500
      else if get_json ''node_type'' (snd answer) \<noteq> JStr ''docker'' then Inl 400
      else (let i = get_json ''container_id'' (dict_obj ''properties'' (snd answer))
            in if json_true i then Inr i else Inl 409))"

datatype process_end = TimedOut | NoDocker | Ended "int option" string string

definition DOCKER_INFRA_EXIT_CODES :: "int list" where
  "DOCKER_INFRA_EXIT_CODES = [125, 126, 127]"

definition DOCKER_UNREACHABLE_MARKERS :: "string list" where
  "DOCKER_UNREACHABLE_MARKERS =
     [''cannot connect to the docker daemon'',
      ''permission denied while trying to connect to the docker daemon'',
      ''is the docker daemon running'']"

definition exec_vtysh :: "nat \<times> dict \<Rightarrow> (json \<Rightarrow> process_end) \<Rightarrow> nat + string \<times> string \<times> int" where
  "exec_vtysh answer docker =
     (case fetch_container_id answer of
        Inl code \<Rightarrow> Inl code
      | Inr container \<Rightarrow>
          (case docker container of
             TimedOut \<Rightarrow> Inl 504
           | NoDocker \<Rightarrow> Inl 500
           | Ended returncode out err \<Rightarrow>
               (let exit_code = (case returncode of None \<Rightarrow> -1 | Some c \<Rightarrow> c)
                in if exit_code \<in> set DOCKER_INFRA_EXIT_CODES \<or>
                      list_ex (\<lambda>m. contains m (lower err)) DOCKER_UNREACHABLE_MARKERS
                   then Inl 503 else Inr (out, err, exit_code))))"

subsection \<open>Activity pages\<close>

record activity_event =
  ae_session :: string
  ae_type :: string
  ae_component :: "string option"
  ae_data :: dict
  ae_timestamp :: time

definition get_history_actions :: "string \<Rightarrow> nat \<Rightarrow> activity_event list \<Rightarrow> activity_event list" where
  "get_history_actions session_id limit rows =
     take limit (latest_first ae_timestamp (filter (\<lambda>r. ae_session r = session_id) rows))"

definition get_session_activity ::
  "string \<Rightarrow> nat \<Rightarrow> time option \<Rightarrow> activity_event list \<Rightarrow> activity_event list \<times> time option" where
  "get_session_activity session_id limit cursor rows =
     (let found = take (limit + 1) (latest_first ae_timestamp
            (older ae_timestamp cursor (filter (\<lambda>r. ae_session r = session_id) rows)));
          has_more = limit < length found;
          page = (if has_more then take limit found else found)
      in (page, if has_more \<and> page \<noteq> [] then Some (ae_timestamp (last page)) else None))"

subsection \<open>The event socket\<close>

datatype connected = Closed nat | Accepted string

text \<open>\<open>None\<close>: the id is no UUID.  An empty expected token asks for none; a closed session is not refused.\<close>

definition ws_session_events ::
  "string option \<Rightarrow> string option \<Rightarrow> bool \<Rightarrow> string \<Rightarrow> bool \<Rightarrow> 'g service \<Rightarrow> connected \<times> 'g service" where
  "ws_session_events expected token is_uuid session_id starts s =
     (if truthy expected \<and> (\<not> truthy token \<or> token \<noteq> expected) then (Closed 1008, s)
      else if \<not> is_uuid then (Closed 4404, s)
      else (case find_row session_id (sv_rows s) of
         None \<Rightarrow> (Closed 4404, s)
       | Some row \<Rightarrow>
           (Accepted session_id,
            s\<lparr>sv_streams := start_stream starts (ns_project row) session_id (sv_streams s)\<rparr>)))"

definition verify_service_token :: "string option \<Rightarrow> string option \<Rightarrow> nat option" where
  "verify_service_token expected authorization =
     (if \<not> truthy expected then Some 503
      else case authorization of
        None \<Rightarrow> Some 403
      | Some a \<Rightarrow>
          if \<not> starts_with a ''Bearer '' then Some 403
          else if strip (drop 7 a) \<noteq> the expected then Some 403 else None)"

end
