(* ===== verification/Streams_Properties.thy ===== *)
theory Streams_Properties
  imports Streams Environment_Properties
begin

text \<open>
  Properties of the GNS3 service's background work: one forwarder per project as long as the heartbeats
  get through, what a forwarder delivers of the messages it reads, the purge of console rows, and that
  paging through a session's activity shows all of it.
\<close>

subsection \<open>One forwarder per project\<close>

text \<open>
  Processes share Redis and a clock.  \<open>sw_renewed\<close> remembers when a process last got its lock or had it
  renewed; no step reads it.
\<close>

record streams_world =
  sw_now :: real
  sw_leases :: leases
  sw_procs :: "string \<Rightarrow> proxy option"
  sw_renewed :: "string \<Rightarrow> string \<Rightarrow> real"

datatype stream_op =
    Tick real
  | Boot string
  | Attach string redis_reply string string
  | Beat string redis_reply string
  | Detach string redis_reply string
  | Shutdown string redis_reply
  | Kill string

definition put_proc :: "string \<Rightarrow> proxy \<times> leases \<Rightarrow> streams_world \<Rightarrow> streams_world" where
  "put_proc i xl w = w\<lparr>sw_procs := (sw_procs w)(i := Some (fst xl)), sw_leases := snd xl\<rparr>"

definition note_renewal :: "bool \<Rightarrow> string \<Rightarrow> string \<Rightarrow> streams_world \<Rightarrow> streams_world" where
  "note_renewal b i p w =
     (if b then w\<lparr>sw_renewed := (sw_renewed w)(i := (sw_renewed w i)(p := sw_now w))\<rparr> else w)"

fun stream_step :: "stream_op \<Rightarrow> streams_world \<Rightarrow> streams_world" where
  "stream_step (Tick d) w = w\<lparr>sw_now := sw_now w + max 0 d\<rparr>"
| "stream_step (Boot i) w =
     (if sw_procs w i = None
      then w\<lparr>sw_procs := (sw_procs w)(i := Some \<lparr>px_instance = i, px_redis = True, px_tasks = [], px_heartbeats = []\<rparr>)\<rparr>
      else w)"
| "stream_step (Attach i reply p s) w =
     (case sw_procs w i of
        None \<Rightarrow> w
      | Some x \<Rightarrow>
          (let xl = start_project (sw_now w) reply p s x (sw_leases w)
           in note_renewal (\<not> running x p \<and> running (fst xl) p) i p (put_proc i xl w)))"
| "stream_step (Beat i reply p) w =
     (case sw_procs w i of
        None \<Rightarrow> w
      | Some x \<Rightarrow>
          note_renewal (p \<in> set (px_heartbeats x) \<and> reply \<noteq> Unreached \<and>
              lease_owner (sw_now w) (sw_leases w) (lock_key p) = Some i) i p
            (put_proc i (heartbeat (sw_now w) reply p x (sw_leases w)) w))"
| "stream_step (Detach i reply p) w =
     (case sw_procs w i of
        None \<Rightarrow> w
      | Some x \<Rightarrow> put_proc i (stop_project (sw_now w) reply p x (sw_leases w)) w)"
| "stream_step (Shutdown i reply) w =
     (case sw_procs w i of
        None \<Rightarrow> w
      | Some x \<Rightarrow> put_proc i (stop_all (sw_now w) reply x (sw_leases w)) w)"
| "stream_step (Kill i) w = w\<lparr>sw_procs := (sw_procs w)(i := None)\<rparr>"

text \<open>A forwarder whose lock has been renewed in time.\<close>

definition fresh_forwarder :: "streams_world \<Rightarrow> string \<Rightarrow> string \<Rightarrow> bool" where
  "fresh_forwarder w i p \<longleftrightarrow>
     (\<exists>x. sw_procs w i = Some x \<and> running x p) \<and> sw_now w < sw_renewed w i p + LOCK_TTL_SECONDS"

definition locks_held :: "streams_world \<Rightarrow> bool" where
  "locks_held w \<longleftrightarrow>
     (\<forall>i x. sw_procs w i = Some x \<longrightarrow> px_instance x = i \<and> px_redis x) \<and>
     (\<forall>i p. fresh_forwarder w i p \<longrightarrow>
        sw_leases w (lock_key p) = Some (i, sw_renewed w i p + LOCK_TTL_SECONDS))"

lemma lock_key_inj [simp]: "lock_key p = lock_key q \<longleftrightarrow> p = q"
  by (simp add: lock_key_def)

lemma held_owner:
  "locks_held w \<Longrightarrow> fresh_forwarder w i p \<Longrightarrow> lease_owner (sw_now w) (sw_leases w) (lock_key p) = Some i"
  by (auto simp: locks_held_def lease_owner_def fresh_forwarder_def)

lemma proc_named: "locks_held w \<Longrightarrow> sw_procs w i = Some x \<Longrightarrow> px_instance x = i \<and> px_redis x"
  by (simp add: locks_held_def)

text \<open>
  What a process may do with its own tasks and with the leases: it adds a lease only where none is live
  or it owns the live one, and drops only what it owns, together with the task.
\<close>

lemma held_after:
  assumes held: "locks_held w" and x: "sw_procs w i = Some x"
    and same: "px_instance x' = px_instance x" "px_redis x' = px_redis x"
    and mine: "\<And>p. running x' p \<Longrightarrow> sw_now w < r p + LOCK_TTL_SECONDS \<Longrightarrow>
      l (lock_key p) = Some (i, r p + LOCK_TTL_SECONDS)"
    and theirs: "\<And>j p. j \<noteq> i \<Longrightarrow> fresh_forwarder w j p \<Longrightarrow> l (lock_key p) = sw_leases w (lock_key p)"
  shows "locks_held (w\<lparr>sw_procs := (sw_procs w)(i := Some x'), sw_leases := l,
    sw_renewed := (sw_renewed w)(i := r)\<rparr>)"
proof -
  let ?w = "w\<lparr>sw_procs := (sw_procs w)(i := Some x'), sw_leases := l, sw_renewed := (sw_renewed w)(i := r)\<rparr>"
  have "l (lock_key p) = Some (j, sw_renewed ?w j p + LOCK_TTL_SECONDS)" if "fresh_forwarder ?w j p" for j p
  proof (cases "j = i")
    case True
    with that mine [of p] show ?thesis by (auto simp: fresh_forwarder_def)
  next
    case False
    with that have f: "fresh_forwarder w j p" by (auto simp: fresh_forwarder_def)
    with held have "sw_leases w (lock_key p) = Some (j, sw_renewed w j p + LOCK_TTL_SECONDS)"
      by (simp add: locks_held_def)
    with theirs [OF False f] False show ?thesis by simp
  qed
  moreover have "px_instance x' = i \<and> px_redis x'" using proc_named [OF held x] same by simp
  ultimately show ?thesis using held by (simp add: locks_held_def)
qed

lemma ttl_positive [simp]: "0 < LOCK_TTL_SECONDS"
  by (simp add: LOCK_TTL_SECONDS_def)

lemma own_lease:
  "locks_held w \<Longrightarrow> sw_procs w i = Some x \<Longrightarrow> running x p \<Longrightarrow> sw_now w < sw_renewed w i p + LOCK_TTL_SECONDS \<Longrightarrow>
   sw_leases w (lock_key p) = Some (i, sw_renewed w i p + LOCK_TTL_SECONDS)"
  by (auto simp: locks_held_def fresh_forwarder_def)

lemma running_added: "running (x\<lparr>px_tasks := px_tasks x @ [(q, s)], px_heartbeats := hs\<rparr>) p \<longleftrightarrow> running x p \<or> p = q"
  by (auto simp: running_def)

lemma attach_held:
  assumes held: "locks_held w"
  shows "locks_held (stream_step (Attach i reply q s) w)"
proof (cases "sw_procs w i")
  case (Some x)
  have owner: "lease_owner (sw_now w) (sw_leases w) (lock_key p) \<noteq> None" if "fresh_forwarder w j p" for j p
    using held_owner [OF held that] by simp
  have mine: "sw_leases w (lock_key p) = Some (i, sw_renewed w i p + LOCK_TTL_SECONDS)"
    if "running x p" "sw_now w < sw_renewed w i p + LOCK_TTL_SECONDS" for p
    by (rule own_lease [OF held Some that])
  have fresh: "fresh_forwarder w i p" if "running x p" "sw_now w < sw_renewed w i p + LOCK_TTL_SECONDS" for p
    using that Some by (auto simp: fresh_forwarder_def)
  note named = proc_named [OF held Some]
  obtain x' l where xl: "start_project (sw_now w) reply q s x (sw_leases w) = (x', l)" by fastforce
  let ?b = "\<not> running x q \<and> running x' q"
  let ?r = "if ?b then (sw_renewed w i)(q := sw_now w) else sw_renewed w i"
  have x': "px_instance x' = px_instance x" "px_redis x' = px_redis x"
    using xl by (auto simp: start_project_def split: if_splits prod.splits)
  have l: "l = sw_leases w \<or> lease_owner (sw_now w) (sw_leases w) (lock_key q) = None \<and>
      l = (sw_leases w)(lock_key q \<mapsto> (i, sw_now w + LOCK_TTL_SECONDS))"
    using xl named by (auto simp: start_project_def set_nx_ex_def split: if_splits)
  have tasks: "running x' p \<longleftrightarrow> running x p \<or> p = q \<and> ?b" for p
    using xl by (auto simp: start_project_def running_def split: if_splits prod.splits)
  have got: "l (lock_key q) = Some (i, sw_now w + LOCK_TTL_SECONDS)" if ?b
    using xl named that by (auto simp: start_project_def set_nx_ex_def split: if_splits)
  have "locks_held (w\<lparr>sw_procs := (sw_procs w)(i := Some x'), sw_leases := l, sw_renewed := (sw_renewed w)(i := ?r)\<rparr>)"
  proof (rule held_after [OF held Some x'])
    show "l (lock_key p) = Some (i, ?r p + LOCK_TTL_SECONDS)"
      if "running x' p" "sw_now w < ?r p + LOCK_TTL_SECONDS" for p
    proof (cases "p = q \<and> ?b")
      case False
      then have r: "?r p = sw_renewed w i p" by auto
      from False tasks [of p] that(1) have "running x p" by blast
      moreover have "sw_now w < sw_renewed w i p + LOCK_TTL_SECONDS" using that(2) unfolding r .
      ultimately have p: "running x p" "sw_now w < sw_renewed w i p + LOCK_TTL_SECONDS" .
      from l owner [OF fresh [OF p]] have "l (lock_key p) = sw_leases w (lock_key p)" by (elim disjE conjE) auto
      then show ?thesis unfolding r using mine [OF p] by (rule trans)
    qed (use got in simp)
    show "l (lock_key p) = sw_leases w (lock_key p)" if "fresh_forwarder w j p" for j p
      using l owner [OF that] by auto
  qed
  then show ?thesis
    by (cases "running x q"; cases "running x' q") (simp_all add: Some xl put_proc_def note_renewal_def Let_def)
qed (use held in simp)

lemma detach_held:
  assumes held: "locks_held w" and x: "sw_procs w i = Some x"
    and step: "stop_project (sw_now w) reply q x (sw_leases w) = (x', l)"
  shows "locks_held (put_proc i (x', l) w)"
proof -
  note named = proc_named [OF held x]
  have l: "l = sw_leases w \<or> lease_owner (sw_now w) (sw_leases w) (lock_key q) = Some i \<and>
      l = (sw_leases w)(lock_key q := None)"
    using step named by (auto simp: stop_project_def lua_release_def)
  have tasks: "running x' p \<longleftrightarrow> running x p \<and> p \<noteq> q" for p
    using step by (auto simp: stop_project_def running_def)
  have "locks_held (w\<lparr>sw_procs := (sw_procs w)(i := Some x'), sw_leases := l, sw_renewed := (sw_renewed w)(i := sw_renewed w i)\<rparr>)"
  proof (rule held_after [OF held x])
    show "px_instance x' = px_instance x" "px_redis x' = px_redis x" using step by (auto simp: stop_project_def)
    show "l (lock_key p) = Some (i, sw_renewed w i p + LOCK_TTL_SECONDS)"
      if "running x' p" "sw_now w < sw_renewed w i p + LOCK_TTL_SECONDS" for p
    proof -
      from that(1) tasks have p: "running x p" "p \<noteq> q" by simp_all
      with l have "l (lock_key p) = sw_leases w (lock_key p)" by (elim disjE conjE) simp_all
      then show ?thesis using own_lease [OF held x p(1) that(2)] by (rule trans)
    qed
    show "l (lock_key p) = sw_leases w (lock_key p)" if "j \<noteq> i" "fresh_forwarder w j p" for j p
      using l held_owner [OF held that(2)] that(1) by auto
  qed
  then show ?thesis by (simp add: put_proc_def)
qed

lemma beat_held:
  assumes held: "locks_held w"
  shows "locks_held (stream_step (Beat i reply q) w)"
proof (cases "sw_procs w i")
  case (Some x)
  note named = proc_named [OF held Some]
  let ?mine = "lease_owner (sw_now w) (sw_leases w) (lock_key q) = Some i"
  consider (off) "q \<notin> set (px_heartbeats x)" | (unreached) "q \<in> set (px_heartbeats x)" "reply = Unreached"
    | (renewed) "q \<in> set (px_heartbeats x)" "reply \<noteq> Unreached" ?mine
    | (lost) "q \<in> set (px_heartbeats x)" "reply = Answered" "\<not> ?mine"
    | (unsure) "q \<in> set (px_heartbeats x)" "reply = AnswerLost" "\<not> ?mine"
    by (cases reply) auto
  then show ?thesis
  proof cases
    case lost
    obtain x' l where s: "stop_project (sw_now w) reply q x (sw_leases w) = (x', l)" by fastforce
    have "heartbeat (sw_now w) reply q x (sw_leases w) = (x', l)"
      using lost named s by (simp add: heartbeat_def lua_renew_def)
    then show ?thesis using detach_held [OF held Some s] lost by (simp add: Some note_renewal_def)
  next
    case renewed
    let ?l = "(sw_leases w)(lock_key q \<mapsto> (i, sw_now w + LOCK_TTL_SECONDS))"
    let ?r = "(sw_renewed w i)(q := sw_now w)"
    have h: "heartbeat (sw_now w) reply q x (sw_leases w) = (x, ?l)"
      using renewed named by (simp add: heartbeat_def lua_renew_def)
    have "locks_held (w\<lparr>sw_procs := (sw_procs w)(i := Some x), sw_leases := ?l, sw_renewed := (sw_renewed w)(i := ?r)\<rparr>)"
    proof (rule held_after [OF held Some refl refl])
      show "?l (lock_key p) = Some (i, ?r p + LOCK_TTL_SECONDS)"
        if "running x p" "sw_now w < ?r p + LOCK_TTL_SECONDS" for p
        using that own_lease [OF held Some, of p] by auto
      show "?l (lock_key p) = sw_leases w (lock_key p)" if "j \<noteq> i" "fresh_forwarder w j p" for j p
        using held_owner [OF held that(2)] renewed(3) that(1) by auto
    qed
    then show ?thesis using renewed h by (simp add: Some put_proc_def note_renewal_def)
  qed (use held Some named in \<open>simp_all add: heartbeat_def lua_renew_def put_proc_def note_renewal_def fun_upd_idem\<close>)
qed (use held in simp)

lemma put_same: "sw_procs w i = Some x \<Longrightarrow> put_proc i (x, sw_leases w) w = w"
  by (simp add: put_proc_def fun_upd_idem)

lemma shutdown_held:
  assumes "locks_held w" and "sw_procs w i = Some x"
  shows "locks_held (put_proc i (fold (\<lambda>p (x, l). stop_project (sw_now w) reply p x l) ps (x, sw_leases w)) w)"
  using assms
proof (induction ps arbitrary: w x)
  case (Cons p ps)
  obtain x' l where s: "stop_project (sw_now w) reply p x (sw_leases w) = (x', l)" by fastforce
  let ?w = "put_proc i (x', l) w"
  have "locks_held ?w" by (rule detach_held [OF Cons.prems s])
  then have "locks_held (put_proc i (fold (\<lambda>p (x, l). stop_project (sw_now ?w) reply p x l) ps (x', sw_leases ?w)) ?w)"
    by (rule Cons.IH) (simp add: put_proc_def)
  then show ?case by (simp add: s put_proc_def)
qed (simp add: put_same)

lemma step_held:
  assumes held: "locks_held w"
  shows "locks_held (stream_step e w)"
proof (cases e)
  case (Tick d)
  then show ?thesis using held by (auto simp: locks_held_def fresh_forwarder_def)
next
  case (Boot i)
  then show ?thesis using held by (auto simp: locks_held_def fresh_forwarder_def running_def)
next
  case (Attach i reply p s)
  then show ?thesis using attach_held [OF held] by simp
next
  case (Beat i reply p)
  then show ?thesis using beat_held [OF held] by simp
next
  case (Detach i reply p)
  then show ?thesis using held detach_held [OF held] by (auto split: option.split) (metis prod.collapse)
next
  case (Shutdown i reply)
  then show ?thesis using held shutdown_held [OF held] by (auto simp: stop_all_def split: option.split)
next
  case (Kill i)
  then show ?thesis using held by (auto simp: locks_held_def fresh_forwarder_def)
qed

lemma run_held: "locks_held w \<Longrightarrow> locks_held (fold stream_step ops w)"
  by (induction ops arbitrary: w) (simp_all add: step_held)

lemma empty_held: "sw_procs w = (\<lambda>_. None) \<Longrightarrow> locks_held w"
  by (simp add: locks_held_def fresh_forwarder_def)

text \<open>A new process has a new name: the lease of the old one keeps it out until it ends.\<close>

lemma restart_kept_out:
  assumes "lease_owner now l (lock_key p) = Some old" and "px_redis x" and "old \<noteq> px_instance x"
  shows "start_project now reply p s x l = (x, l)"
  using assms by (simp add: start_project_def set_nx_ex_def)

lemma abandoned_lease_ends:
  assumes "l (lock_key p) = Some (old, until)" and "until \<le> now" and "px_redis x" and "\<not> running x p"
  shows "running (fst (start_project now Answered p s x l)) p"
  using assms by (simp add: start_project_def set_nx_ex_def lease_owner_def running_def)

subsection \<open>What a forwarder delivers\<close>

definition status_of :: "forwarded \<Rightarrow> (json \<times> json) list" where
  "status_of e = (case e of Published _ (StatusChanged n v) \<Rightarrow> [(n, v)] | _ \<Rightarrow> [])"

definition row_of :: "forwarded \<Rightarrow> history_row list" where
  "row_of e = (case e of Persisted r \<Rightarrow> [r] | _ \<Rightarrow> [])"

definition degraded_of :: "forwarded \<Rightarrow> nat list" where
  "degraded_of e = (case e of Published _ (StreamDegraded n) \<Rightarrow> [n] | _ \<Rightarrow> [])"

definition wait_of :: "forwarded \<Rightarrow> nat list" where
  "wait_of e = (case e of Waited n \<Rightarrow> [n] | _ \<Rightarrow> [])"

text \<open>The messages a connection reads: up to a JSON value that is no object, text that is no JSON left out.\<close>

fun read_objects :: "messages \<Rightarrow> (dict \<times> bool) list" where
  "read_objects [] = []"
| "read_objects ((None, _) # ms) = read_objects ms"
| "read_objects ((Some (JObj d), b) # ms) = (d, b) # read_objects ms"
| "read_objects (_ # ms) = []"

definition status_changes :: "(dict \<times> bool) list \<Rightarrow> (json \<times> json) list" where
  "status_changes os = map (\<lambda>(d, _). (get_json ''node_id'' (event_of d), get_json ''status'' (event_of d)))
     (filter (\<lambda>(d, _). action_of d = ''node.updated'') os)"

definition history_of :: "string \<Rightarrow> (dict \<times> bool) list \<Rightarrow> history_row list" where
  "history_of session_id os = map (\<lambda>(d, _). history_entry session_id (action_of d) (event_of d))
     (filter (\<lambda>(d, stores). action_of d \<in> set HISTORY_ACTIONS \<and> stores) os)"

lemma handled_message:
  "concat (map status_of (handle_message sid b d)) = status_changes [(d, b)]"
  "concat (map row_of (handle_message sid b d)) = history_of sid [(d, b)]"
  "concat (map degraded_of (handle_message sid b d)) = []"
  "concat (map wait_of (handle_message sid b d)) = []"
  by (auto simp: handle_message_def Let_def translate_def status_of_def row_of_def degraded_of_def wait_of_def
      status_changes_def history_of_def HISTORY_ACTIONS_def)

lemma status_changes_Cons: "status_changes (x # xs) = status_changes [x] @ status_changes xs"
  by (cases x) (simp add: status_changes_def)

lemma history_of_Cons: "history_of sid (x # xs) = history_of sid [x] @ history_of sid xs"
  by (cases x) (simp add: history_of_def)

lemma forwarded_messages:
  "concat (map status_of (fst (forward_loop sid ms))) = status_changes (read_objects ms) \<and>
   concat (map row_of (fst (forward_loop sid ms))) = history_of sid (read_objects ms) \<and>
   concat (map degraded_of (fst (forward_loop sid ms))) = [] \<and> concat (map wait_of (fst (forward_loop sid ms))) = []"
proof (induction ms rule: read_objects.induct)
  case (3 d b ms)
  then show ?case
    by (simp add: handled_message status_changes_Cons [of "(d, b)" "read_objects ms"]
        history_of_Cons [of _ "(d, b)" "read_objects ms"])
qed (simp_all add: status_changes_def history_of_def)

lemma supervised_counts:
  "let out = supervised_forward sid n conns in
     concat (map status_of out) = concat (map (\<lambda>(ms, _). status_changes (read_objects ms)) conns) \<and>
     concat (map row_of out) = concat (map (\<lambda>(ms, _). history_of sid (read_objects ms)) conns) \<and>
     length (concat (map degraded_of out)) = length conns - (if n = 0 then 1 else 0) \<and>
     length (concat (map wait_of out)) = length conns \<and>
     (\<forall>k \<in> set (concat (map wait_of out)). 2 \<le> k \<and> k \<le> 30)"
proof (induction conns arbitrary: n)
  case (Cons c conns)
  obtain ms g where c: "c = (ms, g)" by fastforce
  obtain k w where eq: "supervised_forward sid n ((ms, g) # conns) =
      (if n = 0 then [] else [Published sid (StreamDegraded n)]) @ fst (forward_loop sid ms) @ [Waited w] @
      supervised_forward sid (Suc k) conns" and w: "2 \<le> w" "w \<le> 30"
  proof -
    have "(2::nat) \<le> 2 ^ Suc k" for k by simp
    then have "2 \<le> backoff_delay (Suc k) \<and> backoff_delay (Suc k) \<le> 30" for k by (simp add: backoff_delay_def)
    then show ?thesis
      by (intro that [of "backoff_delay (Suc (if snd (forward_loop sid ms) \<and> g then 0 else n))"
            "if snd (forward_loop sid ms) \<and> g then 0 else n"])
        (auto simp: Let_def split: prod.split)
  qed
  have one: "status_of (Published sid (StreamDegraded n)) = []" "row_of (Published sid (StreamDegraded n)) = []"
    "wait_of (Published sid (StreamDegraded n)) = []" "degraded_of (Published sid (StreamDegraded n)) = [n]"
    "status_of (Waited w) = []" "row_of (Waited w) = []" "wait_of (Waited w) = [w]" "degraded_of (Waited w) = []"
    by (simp_all add: status_of_def row_of_def wait_of_def degraded_of_def)
  show ?case
    using Cons.IH [of "Suc k"] forwarded_messages [of sid ms] w
    unfolding c eq Let_def map_append concat_append list.map concat.simps prod.case
    by (cases "n = 0") (auto simp: one simp del: concat_eq_Nil_conv)
qed simp

subsection \<open>The purge\<close>

lemma purge_batch_subset: "set (purge_batch k cutoff live rows) \<subseteq> set rows"
  by (auto simp: purge_batch_def)

lemma purged_all:
  assumes "distinct (map co_id rows)" and "0 < k"
  shows "purge_model k cutoff live rows =
    (count_if (doomed cutoff live) rows, filter (\<lambda>r. \<not> doomed cutoff live r) rows)"
  using assms
proof (induction k cutoff live rows rule: purge_model.induct)
  case (1 k cutoff live rows)
  let ?D = "filter (doomed cutoff live) rows"
  let ?gone = "take k ?D"
  let ?rows = "purge_batch k cutoff live rows"
  have inj: "inj_on co_id (set rows)" using 1(2) by (simp add: distinct_map)
  have sub: "set ?gone \<subseteq> set rows" by (auto dest: in_set_takeD)
  have gone: "co_id r \<in> co_id ` set ?gone \<longleftrightarrow> r \<in> set ?gone" if "r \<in> set rows" for r
    using inj_on_image_mem_iff [OF inj that sub] .
  then have rows: "?rows = filter (\<lambda>r. r \<notin> set ?gone) rows" by (simp add: purge_batch_def cong: filter_cong)
  have dist: "distinct rows" using 1(2) by (simp add: distinct_map)
  have "length ?rows + length (filter (\<lambda>r. r \<in> set ?gone) rows) = length rows"
    unfolding rows using sum_length_filter_compl [of "\<lambda>r. r \<in> set ?gone" rows] by simp
  moreover have "length (filter (\<lambda>r. r \<in> set ?gone) rows) = length ?gone"
  proof -
    have "set (filter (\<lambda>r. r \<in> set ?gone) rows) = set ?gone" using sub by auto
    then show ?thesis using dist by (metis distinct_card distinct_filter distinct_take)
  qed
  ultimately have n: "length rows - length ?rows = length ?gone" by simp
  have left: "filter (doomed cutoff live) ?rows = drop k ?D"
  proof -
    have "filter (doomed cutoff live) ?rows = filter (\<lambda>r. r \<notin> set ?gone) ?D"
      unfolding rows by (simp add: conj_commute)
    also have "\<dots> = filter (\<lambda>r. r \<notin> set ?gone) (take k ?D @ drop k ?D)" by simp
    also have "\<dots> = filter (\<lambda>r. r \<notin> set ?gone) (drop k ?D)" by (simp only: filter_append) simp
    also have "\<dots> = drop k ?D"
    proof (rule filter_True, rule ballI)
      fix r assume "r \<in> set (drop k ?D)"
      moreover have "set (take k ?D) \<inter> set (drop k ?D) = {}"
        using dist set_take_disj_set_drop_if_distinct [of ?D k k] by simp
      ultimately show "r \<notin> set ?gone" by blast
    qed
    finally show ?thesis .
  qed
  have kept: "filter (\<lambda>r. \<not> doomed cutoff live r) ?rows = filter (\<lambda>r. \<not> doomed cutoff live r) rows"
    unfolding rows filter_filter by (rule filter_cong) (auto dest: in_set_takeD)
  show ?case
  proof (cases "length ?gone < k \<or> length ?gone = 0")
    case True
    then have "?gone = ?D" using 1(3) by auto
    then have "drop k ?D = []" by (metis append_take_drop_id append_self_conv)
    with left have "\<forall>r \<in> set ?rows. \<not> doomed cutoff live r" by (simp add: filter_empty_conv)
    then have "?rows = filter (\<lambda>r. \<not> doomed cutoff live r) rows" using kept by (metis filter_True)
    moreover have "purge_model k cutoff live rows = (length ?gone, ?rows)"
      by (subst purge_model.simps) (simp only: Let_def n True if_True)
    ultimately show ?thesis using \<open>?gone = ?D\<close> by (simp add: count_if_def)
  next
    case False
    have "distinct (map co_id ?rows)" using 1(2) unfolding purge_batch_def by (rule distinct_map_filter)
    from 1(1) [OF refl n [symmetric] _ this 1(3)] False
    have "purge_model k cutoff live ?rows = (count_if (doomed cutoff live) ?rows, filter (\<lambda>r. \<not> doomed cutoff live r) ?rows)"
      by (simp add: n)
    moreover have "count_if (doomed cutoff live) rows = length ?gone + count_if (doomed cutoff live) ?rows"
      using left by (simp add: count_if_def)
    moreover have "purge_model k cutoff live rows = apfst ((+) (length ?gone)) (purge_model k cutoff live ?rows)"
      using False by (subst purge_model.simps) (simp only: Let_def n if_False)
    ultimately show ?thesis using kept by simp
  qed
qed

subsection \<open>Pages\<close>

text \<open>A client that follows the cursors.\<close>

fun all_pages :: "nat \<Rightarrow> string \<Rightarrow> nat \<Rightarrow> time option \<Rightarrow> activity_event list \<Rightarrow> activity_event list" where
  "all_pages 0 sid limit cursor rows = []"
| "all_pages (Suc n) sid limit cursor rows =
     (case get_session_activity sid limit cursor rows of
        (page, None) \<Rightarrow> page
      | (page, Some t) \<Rightarrow> page @ all_pages n sid limit (Some t) rows)"

lemma pages_from:
  assumes dist: "distinct (map ae_timestamp (filter (\<lambda>r. ae_session r = sid) rows))" and limit: "0 < limit"
  defines "own \<equiv> latest_first ae_timestamp (filter (\<lambda>r. ae_session r = sid) rows)"
  shows "length (older ae_timestamp cursor own) < n \<Longrightarrow> all_pages n sid limit cursor rows = older ae_timestamp cursor own"
proof (induction n arbitrary: cursor)
  case (Suc n)
  let ?C = "older ae_timestamp cursor own"
  have strict: "sorted_wrt (\<lambda>a b. ae_timestamp b < ae_timestamp a) ?C"
    using latest_first_strict [OF dist] unfolding own_def older_def by (rule sorted_wrt_filter)
  have page: "get_session_activity sid limit cursor rows =
      (if limit < length ?C then (take limit ?C, Some (ae_timestamp (last (take limit ?C)))) else (?C, None))"
    using limit by (auto simp: get_session_activity_def Let_def older_latest_first own_def min_def)
  show ?case
  proof (cases "limit < length ?C")
    case True
    let ?t = "ae_timestamp (last (take limit ?C))"
    have rest: "older ae_timestamp (Some ?t) ?C = drop limit ?C"
      using older_than_page [OF strict limit] True by simp
    have "last (take limit ?C) \<in> set (take limit ?C)" using True limit by (intro last_in_set) auto
    then have "last (take limit ?C) \<in> set ?C" by (rule in_set_takeD)
    then have "older ae_timestamp (Some ?t) ?C = older ae_timestamp (Some ?t) own"
      by (intro older_older) (auto simp: older_def split: option.splits)
    with rest have again: "older ae_timestamp (Some ?t) own = drop limit ?C" by simp
    have "all_pages n sid limit (Some ?t) rows = older ae_timestamp (Some ?t) own"
      using Suc.prems limit True by (intro Suc.IH) (simp add: again)
    then show ?thesis using True by (simp add: page again)
  next
    case False
    then show ?thesis by (simp add: page)
  qed
qed simp

text \<open>Rows of one instant that a page boundary separates are never shown.\<close>

lemma equal_times_lost:
  "let e = \<lambda>t k. \<lparr>ae_session = ''s'', ae_type = k, ae_component = None, ae_data = [], ae_timestamp = t\<rparr>;
     rows = [e 5 ''a'', e 5 ''b'', e 1 ''c''] in
   map ae_type (all_pages 9 ''s'' 1 None rows) = [''a'', ''c'']"
  by code_simp

subsection \<open>The gate and the socket\<close>

text \<open>A writer that stays inside longer than thirty seconds is not alone.\<close>

lemma gate_lets_in_two:
  "case acquire_distributed 60 ''a'' [(0, True)] Map.empty of
     (first, l) \<Rightarrow> first = WithLock \<and> fst (acquire_distributed 91 ''b'' [(30, True)] l) = WithLock"
  by (simp add: set_nx_ex_def lease_owner_def RBAC_LOCK_TTL_def)

lemma gate_gives_up:
  assumes "lease_owner now l RBAC_LOCK_KEY = Some other" and "deadline \<le> now"
  shows "fst (acquire_distributed deadline token [(now, True)] l) = WithoutLock"
  using assms by (simp add: set_nx_ex_def)

lemma gate_exclusive:
  assumes "acquire_distributed d1 t1 polls1 l = (WithLock, l1)" and "lease_owner now l1 RBAC_LOCK_KEY \<noteq> None"
    and "now < d2"
  shows "fst (acquire_distributed d2 t2 [(now, True)] l1) = StillWaiting"
  using assms by (simp add: set_nx_ex_def)

text \<open>The event socket of a closed session starts a forwarder for the project that was deleted.\<close>

lemma closed_session_streams_again:
  assumes "find_row i (sv_rows s) = Some row" and "\<not> ns_active row" and "ns_project row \<notin> fst ` set (sv_streams s)"
    and "truthy expected" and "token = expected"
  shows "fst (ws_session_events expected token True i True s) = Accepted i \<and>
    (ns_project row, i) \<in> set (sv_streams (snd (ws_session_events expected token True i True s)))"
  using assms by (simp add: ws_session_events_def start_stream_def)

text \<open>Without a configured token the sockets are open and the other routes are shut.\<close>

lemma no_token_configured:
  "\<not> truthy expected \<Longrightarrow> verify_service_token expected authorization = Some 503 \<and>
   (find_row i (sv_rows s) \<noteq> None \<longrightarrow> fst (ws_session_events expected token True i starts s) = Accepted i)"
  by (auto simp: verify_service_token_def ws_session_events_def)

text \<open>A status that is an answer of vtysh, not of docker.\<close>

lemma vtysh_answered:
  assumes "exec_vtysh ans docker = Inr (out, err, code)"
  shows "code \<notin> set DOCKER_INFRA_EXIT_CODES \<and> \<not> list_ex (\<lambda>m. contains m (lower err)) DOCKER_UNREACHABLE_MARKERS \<and>
    get_json ''node_type'' (snd ans) = JStr ''docker''"
  using assms by (auto simp: exec_vtysh_def fetch_container_id_def Let_def split: sum.splits process_end.splits if_splits)

text \<open>The templates are made once.\<close>

lemma templates_idempotent:
  assumes "\<And>t g ts. listing g = Some ts \<Longrightarrow> listing (post t g) = Some (ts @ [t])" and "listing g = Some ts"
  shows "snd (ensure_lab_templates listing post (fst (ensure_lab_templates listing post g))) = []"
proof -
  have names: "get_json ''name'' FRR_ROUTER_TEMPLATE \<noteq> get_json ''name'' DHCP_SERVER_TEMPLATE"
    by (simp add: get_json_def FRR_ROUTER_TEMPLATE_def DHCP_SERVER_TEMPLATE_def)
  show ?thesis
    using names assms(1) [of g ts FRR_ROUTER_TEMPLATE] assms(1) [of g ts DHCP_SERVER_TEMPLATE]
      assms(1) [of "post FRR_ROUTER_TEMPLATE g" "ts @ [FRR_ROUTER_TEMPLATE]" DHCP_SERVER_TEMPLATE] assms(2)
    by (auto simp: ensure_lab_templates_def LAB_TEMPLATES_def)
qed

subsection \<open>Main properties\<close>


definition quiet_world :: streams_world where
  "quiet_world = \<lparr>sw_now = 0, sw_leases = Map.empty, sw_procs = (\<lambda>_. None), sw_renewed = (\<lambda>_ _. 0)\<rparr>"

definition two_replicas :: "stream_op list" where
  "two_replicas = [Boot ''a'', Boot ''b'', Attach ''a'' Answered ''p'' ''s'', Attach ''b'' Answered ''p'' ''s'',
     Tick 30, Beat ''a'' Answered ''p'', Tick 80, Attach ''b'' Answered ''p'' ''s'']"


text \<open>Over any series of connections a forwarder publishes the status changes it reads, each once and in
  order, stores one history row per stored history message, announces every connection after the first
  as degraded, and waits two to thirty seconds between connections.
\<close>

theorem forwarder_delivers:
  "let out = supervised_forward sid 0 conns in
     concat (map status_of out) = concat (map (\<lambda>(ms, _). status_changes (read_objects ms)) conns) \<and>
     concat (map row_of out) = concat (map (\<lambda>(ms, _). history_of sid (read_objects ms)) conns) \<and>
     length (concat (map degraded_of out)) = length conns - 1 \<and>
     length (concat (map wait_of out)) = length conns \<and>
     list_all (\<lambda>k. 2 \<le> k \<and> k \<le> 30) (concat (map wait_of out))"
  using supervised_counts [of sid 0 conns] by (simp add: Let_def list_all_iff)

text \<open>The purge of the console tables ends; it removes exactly the rows older than the cutoff whose session is
  not active, from both tables, and reports how many those are.
\<close>

theorem purge_removes_the_aged:
  assumes "distinct (map co_id chunks)" and "distinct (map co_id commands)"
  shows "purge_console_history cutoff rows chunks commands =
    (count_if (doomed cutoff (active_ids rows)) chunks + count_if (doomed cutoff (active_ids rows)) commands,
     filter (\<lambda>r. \<not> doomed cutoff (active_ids rows) r) chunks,
     filter (\<lambda>r. \<not> doomed cutoff (active_ids rows) r) commands)"
  using purged_all [OF assms(1), of BATCH_SIZE] purged_all [OF assms(2), of BATCH_SIZE]
  by (simp add: purge_console_history_def BATCH_SIZE_def)

theorem purge_removes_the_aged_witness:
  "fst (purge_console_history 10 [] [\<lparr>co_id = ''1'', co_session = ''s'', co_ts = 3\<rparr>,
     \<lparr>co_id = ''2'', co_session = ''s'', co_ts = 11\<rparr>] []) = 1"
  using purge_removes_the_aged [of "[\<lparr>co_id = ''1'', co_session = ''s'', co_ts = 3\<rparr>,
     \<lparr>co_id = ''2'', co_session = ''s'', co_ts = 11\<rparr>]" "[]" 10 "[]"]
  by (simp add: doomed_def active_ids_def)

text \<open>C34. Where no two events of a session share a time, a client that follows the cursors of the activity pages
  reads every event of the session once, newest first, whatever the page size.
\<close>

theorem activity_pages_complete:
  assumes "distinct (map ae_timestamp (filter (\<lambda>r. ae_session r = sid) rows))" and "0 < limit"
    and "length rows < n"
  shows "all_pages n sid limit None rows = latest_first ae_timestamp (filter (\<lambda>r. ae_session r = sid) rows)"
proof -
  have none: "older ae_timestamp None xs = xs" for xs by (simp add: older_def)
  have "length (latest_first ae_timestamp (filter (\<lambda>r. ae_session r = sid) rows)) \<le> length rows"
    by (simp add: latest_first_def)
  with pages_from [OF assms(1,2), of None n] assms(3) show ?thesis by (simp add: none)
qed

theorem activity_pages_complete_witness:
  "map ae_type (all_pages 3 ''s'' 1 None
     [\<lparr>ae_session = ''s'', ae_type = ''a'', ae_component = None, ae_data = [], ae_timestamp = 5\<rparr>,
      \<lparr>ae_session = ''s'', ae_type = ''b'', ae_component = None, ae_data = [], ae_timestamp = 7\<rparr>]) = [''b'', ''a'']"
  using activity_pages_complete [of "''s''" "[\<lparr>ae_session = ''s'', ae_type = ''a'', ae_component = None, ae_data = [], ae_timestamp = 5\<rparr>,
      \<lparr>ae_session = ''s'', ae_type = ''b'', ae_component = None, ae_data = [], ae_timestamp = 7\<rparr>]" 1 3]
  by (simp add: latest_first_def)

end
