(* ===== verification/Reports.thy ===== *)
theory Reports
  imports Cohort Experiment Evaluation Chat Paging
begin

text \<open>
  What instructors, administrators and researchers read: the outcomes the cohort metrics are computed from
  (\<open>analytics/cohort/service.py\<close>), the instructor's overview, student card, timeline and audit
  (\<open>instructor/service.py\<close>), the reports (\<open>admin/reports.py\<close>) and the roster of the experiment
  (\<open>experiment/service.py\<close>).  Tables are in insertion order, which is the order of \<open>created_at\<close>;
  the collation that orders names is the parameter \<open>by_name\<close>.
\<close>

subsection \<open>Outcomes\<close>

definition skill_of :: "db \<Rightarrow> string \<Rightarrow> string option" where
  "skill_of d slug = Option.bind (find_lab d slug) lab_skill"

definition first_metrics :: "db \<Rightarrow> string \<Rightarrow> string \<Rightarrow> experiment_metrics option" where
  "first_metrics d user_id slug = find (\<lambda>m. em_user_id m = user_id \<and> em_lab_slug m = slug) (metrics d)"

definition skill_sessions :: "db \<Rightarrow> string \<Rightarrow> string \<Rightarrow> learning_session list" where
  "skill_sessions d user_id skill =
     filter (\<lambda>s. ls_user_id s = user_id \<and> skill_of d (ls_lab_slug s) = Some skill) (sessions d)"

text \<open>The keys of \<open>grouped\<close>, in the order they are first met, and what is under a key.\<close>

definition learner_skill :: "db \<Rightarrow> lab_progress \<Rightarrow> (string \<times> string) option" where
  "learner_skill d p =
     (case skill_of d (lp_lab_slug p) of
        None \<Rightarrow> None
      | Some skill \<Rightarrow> if skill = [] then None else Some (lp_user_id p, skill))"

definition learner_skills :: "db \<Rightarrow> (string \<times> string) list" where
  "learner_skills d = first_occurrences (List.map_filter (learner_skill d) (progress d))"

definition begun_at :: "lab_progress \<Rightarrow> time" where
  "begun_at p = (case lp_started_at p of Some t \<Rightarrow> t | None \<Rightarrow> lp_updated_at p)"

definition skill_labs :: "db \<Rightarrow> string \<times> string \<Rightarrow> lab_progress list" where
  "skill_labs d key = sort_key begun_at (filter (\<lambda>p. learner_skill d p = Some key) (progress d))"

definition passed_unassisted :: "db \<Rightarrow> string \<Rightarrow> lab_progress \<Rightarrow> bool" where
  "passed_unassisted d user_id p =
     (case first_metrics d user_id (lp_lab_slug p) of
        None \<Rightarrow> False
      | Some m \<Rightarrow> em_l2_unassisted_pass m = Some True)"

text \<open>The last lab in time order counts as L2 only if it is not the first one again.\<close>

definition l2_progress :: "db \<Rightarrow> string \<Rightarrow> lab_progress list \<Rightarrow> lab_progress option" where
  "l2_progress d user_id ps =
     find (\<lambda>p. lp_lab_slug p \<noteq> lp_lab_slug (hd ps) \<and> passed_unassisted d user_id p) ps"

definition session_seconds :: "learning_session \<Rightarrow> real" where
  "session_seconds s = (case ls_ended_at s of None \<Rightarrow> 0 | Some e \<Rightarrow> total_seconds (e - ls_started_at s))"

definition latest_end :: "learning_session list \<Rightarrow> time option" where
  "latest_end ss = (case List.map_filter ls_ended_at ss of [] \<Rightarrow> None | t # ts \<Rightarrow> Some (Max (set (t # ts))))"

definition learner_outcome_of :: "db \<Rightarrow> string \<times> string \<Rightarrow> learner_outcome" where
  "learner_outcome_of d key =
     (let (user_id, skill) = key;
          ps = skill_labs d key;
          l1 = hd ps;
          l2 = l2_progress d user_id ps;
          reached = (l2 \<noteq> None);
          own = skill_sessions d user_id skill;
          l2_time = Option.bind l2 lp_completed_at;
          rel = filter (\<lambda>s. case l2_time of None \<Rightarrow> True | Some t \<Rightarrow> ls_started_at s \<le> t) own;
          worked = (\<Sum>s\<leftarrow>rel. session_seconds s);
          obs_ref = (case or_else (latest_end own) (lp_completed_at l1) of
                       Some t \<Rightarrow> t | None \<Rightarrow> lp_updated_at l1);
          m1 = first_metrics d user_id (lp_lab_slug l1);
          m2 = Option.bind l2 (\<lambda>p. first_metrics d user_id (lp_lab_slug p));
          arm1 = Option.bind m1 em_base_arm
      in \<lparr>lo_user_id = user_id, lo_skill = skill,
          lo_arm = (if truthy arm1 then arm1 else Option.bind m2 em_base_arm),
          lo_reached_l2 = reached,
          lo_time_to_l2 = (case (lp_started_at l1, l2_time) of
             (Some t1, Some t2) \<Rightarrow> Some (total_seconds (t2 - t1)) | _ \<Rightarrow> None),
          lo_active = (if worked = 0 then None else Some worked),
          lo_sessions_to_l2 = (if reached then Some (int (length rel)) else None),
          lo_l1_interventions = (case m1 of None \<Rightarrow> 0 | Some m \<Rightarrow> em_interventions_received m),
          lo_l2_interventions = map_option em_interventions_received m2,
          lo_l1_escalations = (case m1 of None \<Rightarrow> 0 | Some m \<Rightarrow> em_escalations m),
          lo_l2_escalations = map_option em_escalations m2,
          lo_l1_repeated_errors = (case m1 of None \<Rightarrow> 0 | Some m \<Rightarrow> em_repeated_errors m),
          lo_l2_repeated_errors = map_option em_repeated_errors m2,
          lo_observation = (case lp_started_at l1 of None \<Rightarrow> 0 | Some t1 \<Rightarrow> total_seconds (obs_ref - t1)),
          lo_censored = (\<not> reached)\<rparr>)"

definition cohort_records :: "db \<Rightarrow> learner_outcome list" where
  "cohort_records d = map (learner_outcome_of d) (learner_skills d)"

definition compute_cohort_metrics :: "db \<Rightarrow> real \<Rightarrow> bool \<Rightarrow> cohort" where
  "compute_cohort_metrics d horizon_seconds by_arm = aggregate_cohort (cohort_records d) horizon_seconds by_arm"

subsection \<open>The instructor's overview\<close>

definition HINT_EVENT_TYPE :: string where "HINT_EVENT_TYPE = ''intervention''"

definition average :: "real list \<Rightarrow> real option" where
  "average scores = (if scores = [] then None else Some (py_round 2 (sum_list scores / real (length scores))))"

text \<open>A \<open>GROUP BY\<close> with its count, as the dict it is read into.\<close>

definition bump :: "'k \<Rightarrow> ('k \<times> nat) list \<Rightarrow> ('k \<times> nat) list" where
  "bump k d = dict_set k (Suc (case map_of d k of None \<Rightarrow> 0 | Some n \<Rightarrow> n)) d"

definition tally :: "('a \<Rightarrow> 'k) \<Rightarrow> 'a list \<Rightarrow> ('k \<times> nat) list" where
  "tally f rows = fold (\<lambda>r. bump (f r)) rows []"

definition tallied :: "('k \<times> nat) list \<Rightarrow> 'k \<Rightarrow> nat" where
  "tallied d k = (case map_of d k of None \<Rightarrow> 0 | Some n \<Rightarrow> n)"

definition is_hint :: "behavioral_event \<Rightarrow> bool" where
  "is_hint e \<longleftrightarrow> ev_type e = HINT_EVENT_TYPE"

definition last_started :: "learning_session list \<Rightarrow> time option" where
  "last_started ss = (case map ls_started_at ss of [] \<Rightarrow> None | t # ts \<Rightarrow> Some (Max (set (t # ts))))"

record student_overview =
  so_user_id :: string
  so_name :: "string option"
  so_email :: "string option"
  so_labs_total :: nat
  so_labs_completed :: nat
  so_labs_in_progress :: nat
  so_avg_score :: "real option"
  so_total_hints :: nat
  so_total_sessions :: nat
  so_last_active_at :: "time option"

record overview =
  ov_students :: "student_overview list"
  ov_total_students :: nat
  ov_total_hints :: nat

definition get_students_overview :: "(user list \<Rightarrow> user list) \<Rightarrow> db \<Rightarrow> overview" where
  "get_students_overview by_name d =
     (let students = by_name (filter (\<lambda>u. us_role u = ''student'') (users d));
          mine = (\<lambda>u. u \<in> us_id ` set students);
          rows = filter (\<lambda>p. mine (lp_user_id p)) (progress d);
          total_labs = tally lp_user_id rows;
          completed = tally lp_user_id (filter (\<lambda>p. lp_status p = ''completed'') rows);
          in_progress = tally lp_user_id (filter (\<lambda>p. lp_status p = ''in_progress'') rows);
          hints = tally ev_user_id (filter (\<lambda>e. mine (ev_user_id e) \<and> is_hint e) (events d));
          launched = filter (\<lambda>s. mine (ls_user_id s)) (sessions d);
          counts = tally ls_user_id launched
      in if students = [] then \<lparr>ov_students = [], ov_total_students = 0, ov_total_hints = 0\<rparr>
         else \<lparr>ov_students = map (\<lambda>u.
               \<lparr>so_user_id = us_id u, so_name = us_name u, so_email = us_email u,
                so_labs_total = tallied total_labs (us_id u),
                so_labs_completed = tallied completed (us_id u),
                so_labs_in_progress = tallied in_progress (us_id u),
                so_avg_score = average (List.map_filter lp_score (filter (\<lambda>p. lp_user_id p = us_id u) rows)),
                so_total_hints = tallied hints (us_id u),
                so_total_sessions = tallied counts (us_id u),
                so_last_active_at = last_started (filter (\<lambda>s. ls_user_id s = us_id u) launched)\<rparr>) students,
             ov_total_students = length students,
             ov_total_hints = (\<Sum>(k, n)\<leftarrow>hints. n)\<rparr>)"

subsection \<open>The card of a student\<close>

record lab_row =
  lr_lab_slug :: string
  lr_lab_title :: string
  lr_status :: string
  lr_score :: "real option"
  lr_current_step :: "int option"
  lr_hints :: nat
  lr_sessions :: nat
  lr_attempts :: nat
  lr_started_at :: "time option"
  lr_completed_at :: "time option"
  lr_last_active_at :: "time option"

record session_row =
  sw_session_id :: string
  sw_lab_slug :: string
  sw_lab_title :: string
  sw_status :: string
  sw_started_at :: time
  sw_ended_at :: "time option"
  sw_message_count :: nat
  sw_hint_count :: nat

record student_detail =
  sd_user_id :: string
  sd_name :: "string option"
  sd_email :: "string option"
  sd_role :: string
  sd_labs_completed :: nat
  sd_labs_in_progress :: nat
  sd_avg_score :: "real option"
  sd_total_hints :: nat
  sd_total_sessions :: nat
  sd_labs :: "lab_row list"
  sd_sessions :: "session_row list"

definition title_in :: "db \<Rightarrow> string \<Rightarrow> string" where
  "title_in d slug =
     (case find_lab d slug of None \<Rightarrow> slug | Some l \<Rightarrow> resolve_localized (lab_title l) DEFAULT_LOCALE)"

definition get_student_detail :: "db \<Rightarrow> chat_row list \<Rightarrow> string \<Rightarrow> student_detail option" where
  "get_student_detail d chat user_id =
     (case find_user d user_id of
        None \<Rightarrow> None
      | Some u \<Rightarrow>
          (let rows = latest_first lp_updated_at (filter (\<lambda>p. lp_user_id p = user_id) (progress d));
               own_events = filter (\<lambda>e. ev_user_id e = user_id \<and> is_hint e) (events d);
               hints_by_lab = tally ev_lab_slug own_events;
               own = filter (\<lambda>s. ls_user_id s = user_id) (sessions d);
               sessions_by_lab = tally ls_lab_slug own;
               attempts_by_lab = tally sa_lab_slug (filter (\<lambda>a. sa_user_id a = user_id) (attempts d));
               msg_counts = tally cw_session_id (filter (\<lambda>m. cw_session_id m \<in> ls_id ` set own) chat);
               hint_counts = tally ev_session_id own_events
           in Some \<lparr>sd_user_id = us_id u, sd_name = us_name u, sd_email = us_email u, sd_role = us_role u,
                sd_labs_completed = count_if (\<lambda>p. lp_status p = ''completed'') rows,
                sd_labs_in_progress = count_if (\<lambda>p. lp_status p = ''in_progress'') rows,
                sd_avg_score = average (List.map_filter lp_score rows),
                sd_total_hints = (\<Sum>(k, n)\<leftarrow>hints_by_lab. n),
                sd_total_sessions = (\<Sum>(k, n)\<leftarrow>sessions_by_lab. n),
                sd_labs = map (\<lambda>p.
                  \<lparr>lr_lab_slug = lp_lab_slug p, lr_lab_title = title_in d (lp_lab_slug p), lr_status = lp_status p,
                   lr_score = lp_score p, lr_current_step = lp_current_step p,
                   lr_hints = tallied hints_by_lab (lp_lab_slug p),
                   lr_sessions = tallied sessions_by_lab (lp_lab_slug p),
                   lr_attempts = tallied attempts_by_lab (lp_lab_slug p),
                   lr_started_at = lp_started_at p, lr_completed_at = lp_completed_at p,
                   lr_last_active_at = last_started (filter (\<lambda>s. ls_lab_slug s = lp_lab_slug p) own)\<rparr>) rows,
                sd_sessions = map (\<lambda>s.
                  \<lparr>sw_session_id = ls_id s, sw_lab_slug = ls_lab_slug s, sw_lab_title = title_in d (ls_lab_slug s),
                   sw_status = ls_status s, sw_started_at = ls_started_at s, sw_ended_at = ls_ended_at s,
                   sw_message_count = tallied msg_counts (ls_id s),
                   sw_hint_count = tallied hint_counts (ls_id s)\<rparr>) (latest_first ls_started_at own)\<rparr>))"

text \<open>Chat messages, each with the time it was written, and interventions on one time line.\<close>

datatype timeline_item =
    Message string time json
  | Intervention time "string option" string "string option" "json option" "json option"

fun item_ts :: "timeline_item \<Rightarrow> time" where
  "item_ts (Message k t p) = t"
| "item_ts (Intervention t m a s h st) = t"

definition extra_field :: "string \<Rightarrow> behavioral_event \<Rightarrow> json option" where
  "extra_field k e = (case ev_extra_data e of Some (JObj kvs) \<Rightarrow> map_of kvs k | _ \<Rightarrow> None)"

definition build_session_timeline :: "db \<Rightarrow> (time \<times> chat_row) list \<Rightarrow> string \<Rightarrow> timeline_item list" where
  "build_session_timeline d chat session_id =
     sort_key item_ts
       (map (\<lambda>(t, m). Message (if cw_role m = ''user'' then ''student'' else ''tutor'') t (cw_parts m))
          (filter (\<lambda>(t, m). cw_session_id m = session_id) chat) @
        map (\<lambda>e. Intervention (ev_timestamp e) (ev_message e) (ev_action e) (ev_severity e)
             (extra_field ''hint_level'' e) (extra_field ''struggle_type'' e))
          (filter (\<lambda>e. ev_session_id e = session_id \<and> is_hint e) (events d)))"

text \<open>Calls of one instant come in the order of their random ids; here in the order they are stored.\<close>

definition get_mcp_audit ::
  "db \<Rightarrow> string option \<Rightarrow> string option \<Rightarrow> time option \<Rightarrow> nat \<Rightarrow> mcp_audit list" where
  "get_mcp_audit d session_id kind before limit =
     take limit (latest_first au_ts (older au_ts before (filter (\<lambda>a.
       (case session_id of None \<Rightarrow> True | Some s \<Rightarrow> au_session_id a = s) \<and>
       (case kind of None \<Rightarrow> True | Some k \<Rightarrow> au_kind a = k)) (audits d))))"

definition get_student_session :: "db \<Rightarrow> string \<Rightarrow> string \<Rightarrow> learning_session option" where
  "get_student_session d user_id session_id =
     (case find (\<lambda>s. ls_id s = session_id) (sessions d) of
        None \<Rightarrow> None
      | Some s \<Rightarrow> if ls_user_id s = user_id then Some s else None)"

subsection \<open>Reports\<close>

record identifier_eval =
  ie_curve :: "operating_point list"
  ie_j_optimal_t_k :: real
  ie_confusion :: "ProcessRegime \<Rightarrow> ProcessRegime \<Rightarrow> nat"
  ie_first_match :: "nat \<times> real \<times> real"
  ie_costs :: "real \<times> real \<times> real"
  ie_preliminary :: bool

definition build_identifier_eval :: "(nat \<Rightarrow> nat \<Rightarrow> nat) \<Rightarrow> la_config \<Rightarrow> py_error + identifier_eval" where
  "build_identifier_eval choice cfg =
     (let scns = build_synthetic_scenarios
      in case operating_curve choice scns (eval_t_k_grid cfg) cfg (costs_from_config cfg) of
           Inl e \<Rightarrow> Inl e
         | Inr curve \<Rightarrow>
             (case j_optimal curve of
                Inl e \<Rightarrow> Inl e
              | Inr opt \<Rightarrow>
                  (case map_err (\<lambda>scn. run_identifier scn (op_t_k opt) cfg) scns of
                     Inl e \<Rightarrow> Inl e
                   | Inr ds \<Rightarrow>
                       Inr \<lparr>ie_curve = curve, ie_j_optimal_t_k = op_t_k opt,
                         ie_confusion = confusion_matrix (zip scns ds),
                         ie_first_match = first_match_diagnostics scns cfg,
                         ie_costs = (cost_stuck cfg, cost_intervention cfg, cost_false_intervention cfg),
                         ie_preliminary = True\<rparr>)))"

definition RATIOS :: "real list" where "RATIOS = [1 / 5, 1 / 2, 1, 2, 5]"

definition build_tk_sensitivity :: "la_config \<Rightarrow> py_error + (real \<times> real \<times> real) list" where
  "build_tk_sensitivity cfg =
     map_sum id (map (\<lambda>(ratio, tk, j). (ratio, (case map_of tk ''stuck_on_step'' of None \<Rightarrow> 0 | Some t \<Rightarrow> t), j)))
       (sensitivity_curve build_synthetic_sessions RATIOS [(''stuck_on_step'', eval_t_k_grid cfg)]
          (cost_intervention cfg) (cost_false_intervention cfg) (cooldown_period cfg) 60 truncate_at_interventions)"

record admin_overview =
  ao_l2_pass_closed :: real
  ao_l2_pass_open :: real
  ao_mentor_hours_saved :: real
  ao_pooled_reach_rate :: real
  ao_pooled_n :: nat
  ao_j_optimal_t_k :: real
  ao_recall_at_opt :: real
  ao_active_sessions :: nat
  ao_total_interventions :: int
  ao_finished_sessions :: nat

definition build_overview :: "(real \<Rightarrow> real) \<Rightarrow> (nat \<Rightarrow> nat \<Rightarrow> nat) \<Rightarrow> db \<Rightarrow> py_error + admin_overview" where
  "build_overview erfc choice d =
     (let cfg = default_la_config;
          ab = compute_arm_analysis erfc (metrics d) (mentor_handling_seconds cfg);
          pooled = co_pooled (compute_cohort_metrics d (cohort_horizon_days cfg * 86400) False)
      in case build_identifier_eval choice cfg of
           Inl e \<Rightarrow> Inl e
         | Inr ie \<Rightarrow>
             Inr \<lparr>ao_l2_pass_closed = aa_l2_closed ab, ao_l2_pass_open = aa_l2_open ab,
               ao_mentor_hours_saved = aa_mentor_hours_saved ab,
               ao_pooled_reach_rate = tc_reach_rate (cc_time pooled), ao_pooled_n = cc_n pooled,
               ao_j_optimal_t_k = ie_j_optimal_t_k ie,
               ao_recall_at_opt = (case find (\<lambda>p. op_t_k p = ie_j_optimal_t_k ie) (ie_curve ie) of
                 None \<Rightarrow> 0 | Some p \<Rightarrow> op_recall p),
               ao_active_sessions = count_if (\<lambda>s. ls_status s = ''active'') (sessions d),
               ao_total_interventions = (\<Sum>m\<leftarrow>metrics d. em_interventions_received m),
               ao_finished_sessions = length (metrics d)\<rparr>)"

subsection \<open>The experiment's roster\<close>

record export_row =
  xr_user_id :: string
  xr_session_id :: string
  xr_experiment_group :: string
  xr_agent_backend :: "string option"
  xr_total_time :: real
  xr_steps_completed :: int
  xr_errors :: "int \<times> int \<times> int"
  xr_interventions :: "int \<times> int \<times> int"
  xr_final_score :: real
  xr_completed :: bool

definition metric_to_export_row :: "experiment_metrics \<Rightarrow> export_row" where
  "metric_to_export_row m =
     \<lparr>xr_user_id = em_user_id m, xr_session_id = em_session_id m, xr_experiment_group = em_experiment_group m,
      xr_agent_backend = em_agent_backend m, xr_total_time = em_total_time_seconds m,
      xr_steps_completed = em_steps_completed m,
      xr_errors = (em_total_errors m, em_repeated_errors m, em_unique_error_types m),
      xr_interventions = (em_interventions_received m, em_interventions_succeeded m, em_interventions_failed m),
      xr_final_score = em_final_score m, xr_completed = em_completed m\<rparr>"

record participant =
  pt_user_id :: string
  pt_email :: "string option"
  pt_name :: "string option"
  pt_control_arm :: "string option"
  pt_sessions_count :: nat
  pt_completed :: bool
  pt_total_time :: "real option"

text \<open>Rows come per user from the oldest to the newest, so the last one written stays.\<close>

definition latest_metrics :: "experiment_metrics list \<Rightarrow> string \<Rightarrow> experiment_metrics option" where
  "latest_metrics rows = fold (\<lambda>m latest. latest(em_user_id m \<mapsto> m)) rows Map.empty"

definition get_participants :: "db \<Rightarrow> participant list" where
  "get_participants d =
     (let enrolled = filter (\<lambda>u. us_control_arm u \<noteq> None) (users d);
          mine = (\<lambda>u. u \<in> us_id ` set enrolled);
          counts = tally ls_user_id (filter (\<lambda>s. mine (ls_user_id s)) (sessions d));
          latest = latest_metrics (filter (\<lambda>m. mine (em_user_id m)) (metrics d))
      in map (\<lambda>u.
           \<lparr>pt_user_id = us_id u, pt_email = us_email u, pt_name = us_name u, pt_control_arm = us_control_arm u,
            pt_sessions_count = tallied counts (us_id u),
            pt_completed = (case latest (us_id u) of None \<Rightarrow> False | Some m \<Rightarrow> em_completed m),
            pt_total_time = map_option em_total_time_seconds (latest (us_id u))\<rparr>) enrolled)"

definition get_session_timeline :: "db \<Rightarrow> string \<Rightarrow> behavioral_event list" where
  "get_session_timeline d session_id =
     sort_key ev_timestamp (filter (\<lambda>e. ev_session_id e = session_id) (events d))"

definition get_all_metrics :: "db \<Rightarrow> experiment_metrics list" where
  "get_all_metrics d = metrics d"

end
