(* ===== verification/Reports_Properties.thy ===== *)
theory Reports_Properties
  imports Reports Samples Feature_Facts
begin

text \<open>
  Properties of the reports: the cohort metrics count every learner once per skill, the overview's batched
  counts are what the students' cards show, and the time line loses nothing.
\<close>

subsection \<open>Grouping\<close>

lemma dict_set_map_of: "map_of (dict_set k v d) = (map_of d)(k \<mapsto> v)"
proof -
  have old: "map_of (map (\<lambda>(k', v'). (k', if k' = k then v else v')) d) x =
      (if x = k then (if k \<in> set (map fst d) then Some v else None) else map_of d x)" for x
    by (induction d) (auto simp: image_iff Bex_def)
  have new: "k \<notin> set (map fst d) \<Longrightarrow> map_of (d @ [(k, v)]) x = (if x = k then Some v else map_of d x)" for x
    by (induction d) auto
  show ?thesis
    by (rule ext) (simp add: dict_set_def old new del: map_of_append)
qed

lemma bump_sum: "(\<Sum>(k, n)\<leftarrow>bump x d. n) = Suc (\<Sum>(k, n)\<leftarrow>d. n)" if "distinct (map fst d)"
  using that
proof (induction d)
  case (Cons e d)
  obtain k n where e: "e = (k, n)" by fastforce
  show ?case
  proof (cases "k = x")
    case True
    with Cons.prems have "x \<notin> fst ` set d" by (simp add: e)
    then have "map (\<lambda>(k', v'). (k', if k' = x then Suc n else v')) d = d"
      by (intro map_idI) (auto simp: image_iff split: prod.splits)
    then show ?thesis using True by (simp add: e bump_def dict_set_def)
  next
    case False
    have "bump x (e # d) = e # bump x d" using False by (auto simp: e bump_def dict_set_def)
    then show ?thesis using Cons by (simp add: e)
  qed
qed (simp add: bump_def dict_set_def)

lemma bump_keys: "distinct (map fst d) \<Longrightarrow> distinct (map fst (bump x d))"
  by (auto simp: bump_def dict_set_def comp_def case_prod_beta)

lemma bumped: "tallied (bump k d) x = tallied d x + (if x = k then 1 else 0)"
  by (simp add: tallied_def bump_def dict_set_map_of)

lemma tally_fold:
  "distinct (map fst d) \<Longrightarrow>
   distinct (map fst (fold (\<lambda>r. bump (f r)) rows d)) \<and>
   tallied (fold (\<lambda>r. bump (f r)) rows d) k = tallied d k + count_if (\<lambda>r. f r = k) rows \<and>
   (\<Sum>(k, n)\<leftarrow>fold (\<lambda>r. bump (f r)) rows d. n) = (\<Sum>(k, n)\<leftarrow>d. n) + length rows"
  by (induction rows arbitrary: d) (auto simp: bumped bump_sum bump_keys)

lemma tally_count: "tallied (tally f rows) k = count_if (\<lambda>r. f r = k) rows"
  using tally_fold [of "[]" f rows k] by (simp add: tally_def tallied_def)

lemma tally_total: "(\<Sum>(k, n)\<leftarrow>tally f rows. n) = length rows"
  using tally_fold [of "[]" f rows] by (simp add: tally_def)

lemma count_if_filter: "count_if P (filter Q xs) = count_if (\<lambda>x. Q x \<and> P x) xs"
  by (simp add: count_if_def)

lemma count_if_sort_key: "count_if P (sort_key f xs) = count_if P xs"
  unfolding count_if_def by (metis filter_sort length_sort)

lemma average_sort_key: "average (List.map_filter g (sort_key f xs)) = average (List.map_filter g xs)"
proof -
  have "mset (List.map_filter g (sort_key f xs)) = mset (List.map_filter g xs)"
    by (simp add: map_filter_def)
  then show ?thesis unfolding average_def by (metis mset_zero_iff size_mset sum_mset_sum_list)
qed

subsection \<open>Cohort outcomes\<close>

lemma learner_skills_set: "set (learner_skills d) = {k. \<exists>p \<in> set (progress d). learner_skill d p = Some k}"
  by (auto simp: learner_skills_def set_first_occurrences map_filter_def image_iff)
    (metis option.sel)

lemma first_metrics_stay:
  "first_metrics d u slug = Some m \<Longrightarrow> first_metrics (d\<lparr>metrics := metrics d @ ms\<rparr>) u slug = Some m"
  by (auto simp: first_metrics_def find_Some_iff nth_append)

text \<open>Whether a lab was passed unassisted is decided by its first session: a later pass is ignored.\<close>

lemma later_pass_ignored:
  assumes "first_metrics d u (lp_lab_slug p) = Some m" and "em_l2_unassisted_pass m \<noteq> Some True"
  shows "\<not> passed_unassisted (d\<lparr>metrics := metrics d @ ms\<rparr>) u p"
  using assms first_metrics_stay [OF assms(1)] by (simp add: passed_unassisted_def)

lemma outcome_fields:
  "lo_user_id (learner_outcome_of d (u, s)) = u" "lo_skill (learner_outcome_of d (u, s)) = s"
  "lo_reached_l2 (learner_outcome_of d (u, s)) \<longleftrightarrow> l2_progress d u (skill_labs d (u, s)) \<noteq> None"
  "lo_censored (learner_outcome_of d (u, s)) \<longleftrightarrow> \<not> lo_reached_l2 (learner_outcome_of d (u, s))"
  by (simp_all add: learner_outcome_of_def Let_def)

lemma skill_labs_first:
  assumes "p \<in> set (skill_labs d key)"
  shows "hd (skill_labs d key) \<in> set (skill_labs d key) \<and> begun_at (hd (skill_labs d key)) \<le> begun_at p"
proof -
  have "sorted (map begun_at (skill_labs d key))" by (simp add: skill_labs_def)
  then show ?thesis using assms by (cases "skill_labs d key") auto
qed

subsection \<open>The time line\<close>

lemma timeline_items:
  "mset (build_session_timeline d chat sid) =
     image_mset (\<lambda>(t, m). Message (if cw_role m = ''user'' then ''student'' else ''tutor'') t (cw_parts m))
       (mset (filter (\<lambda>(t, m). cw_session_id m = sid) chat)) +
     image_mset (\<lambda>e. Intervention (ev_timestamp e) (ev_message e) (ev_action e) (ev_severity e)
         (extra_field ''hint_level'' e) (extra_field ''struggle_type'' e))
       (mset (filter (\<lambda>e. ev_session_id e = sid \<and> is_hint e) (events d)))"
  by (simp add: build_session_timeline_def)

lemma timeline_sorted: "sorted (map item_ts (build_session_timeline d chat sid))"
  by (simp add: build_session_timeline_def)

lemma audit_page_bounded: "length (get_mcp_audit d s k b limit) \<le> limit"
  by (simp add: get_mcp_audit_def)

lemma student_session_owned: "get_student_session d u sid = Some s \<Longrightarrow> ls_user_id s = u \<and> ls_id s = sid"
  by (auto simp: get_student_session_def find_Some_iff split: option.splits if_splits)

lemma latest_metrics_last: "latest_metrics (rows @ [m]) (em_user_id m) = Some m"
  by (simp add: latest_metrics_def)

subsection \<open>Counting per student\<close>

lemma find_distinct: "distinct (map f xs) \<Longrightarrow> u \<in> set xs \<Longrightarrow> find (\<lambda>x. f x = f u) xs = Some u"
  by (induction xs) (auto intro: rev_image_eqI)

lemma grouped_total:
  assumes "distinct ids" "\<forall>e \<in> set es. f e \<in> set ids"
  shows "(\<Sum>i\<leftarrow>ids. count_if (\<lambda>e. f e = i) es) = length es"
  using assms(2)
proof (induction es)
  case Nil
  show ?case by (induction ids) (simp_all add: count_if_def)
next
  case (Cons e es)
  have "(\<Sum>i\<leftarrow>ids. count_if (\<lambda>e'. f e' = i) (e # es)) =
      (\<Sum>i\<leftarrow>ids. (if f e = i then 1 else 0) + count_if (\<lambda>e'. f e' = i) es)"
    by (intro arg_cong [where f = sum_list] map_cong) (auto simp: count_if_def)
  also have "\<dots> = (\<Sum>i\<leftarrow>ids. if f e = i then 1 else 0) + length es"
    using Cons by (simp add: sum_list_addf)
  also have "(\<Sum>i\<leftarrow>ids. if f e = i then 1 else 0) = (1 :: nat)"
    using assms(1) Cons.prems by (simp add: sum_list_distinct_conv_sum_set)
  finally show ?case by simp
qed

lemma count_mine:
  "u \<in> S \<Longrightarrow> count_if (\<lambda>r. f r = u) (filter (\<lambda>r. f r \<in> S \<and> Q r) rows) = count_if (\<lambda>r. f r = u \<and> Q r) rows"
  "u \<in> S \<Longrightarrow> count_if (\<lambda>r. f r = u) (filter (\<lambda>r. f r \<in> S) rows) = count_if (\<lambda>r. f r = u) rows"
  by (auto simp: count_if_def intro!: arg_cong [where f = length] filter_cong)

lemma rows_mine:
  "u \<in> S \<Longrightarrow> filter (\<lambda>r. f r \<in> S \<and> f r = u) rows = filter (\<lambda>r. f r = u) rows"
  by (auto intro!: filter_cong)

lemma length_as_count: "length (filter P xs) = count_if P xs"
  by (simp add: count_if_def)

subsection \<open>Main properties\<close>


text \<open>C40. The instructor's overview and the students' cards agree: the overview lists exactly the students, its
  batched counts and averages of a student are those of the student's own card, and its total of hints is
  the sum over the rows.
\<close>

theorem overview_agrees_with_cards:
  assumes "distinct (map us_id (users d))" and "\<And>us. mset (by_name us) = mset us"
  shows "let o' = get_students_overview by_name d in
    mset (map so_user_id (ov_students o')) = mset (map us_id (filter (\<lambda>u. us_role u = ''student'') (users d))) \<and>
    ov_total_hints o' = (\<Sum>r\<leftarrow>ov_students o'. so_total_hints r) \<and>
    (\<forall>r \<in> set (ov_students o'). \<exists>c. get_student_detail d chat (so_user_id r) = Some c \<and>
       sd_name c = so_name r \<and> sd_labs_completed c = so_labs_completed r \<and>
       sd_labs_in_progress c = so_labs_in_progress r \<and> sd_avg_score c = so_avg_score r \<and>
       sd_total_hints c = so_total_hints r \<and> sd_total_sessions c = so_total_sessions r \<and>
       length (sd_labs c) = so_labs_total r)"
proof -
  define students where "students = by_name (filter (\<lambda>u. us_role u = ''student'') (users d))"
  have ms: "mset students = mset (filter (\<lambda>u. us_role u = ''student'') (users d))"
    unfolding students_def by (rule assms(2))
  then have in_users: "set students \<subseteq> set (users d)" by (metis filter_is_subset set_mset_mset)
  have ids: "distinct (map us_id students)"
  proof -
    have "mset (map us_id students) = mset (map us_id (filter (\<lambda>u. us_role u = ''student'') (users d)))"
      using ms by simp
    then show ?thesis using distinct_map_filter [OF assms(1)] by (metis mset_eq_imp_distinct_iff)
  qed
  let ?mine = "\<lambda>u. u \<in> us_id ` set students"
  let ?hints = "filter (\<lambda>e. ?mine (ev_user_id e) \<and> is_hint e) (events d)"
  have total: "(\<Sum>u\<leftarrow>students. count_if (\<lambda>e. ev_user_id e = us_id u) ?hints) = length ?hints"
    using grouped_total [of "map us_id students" ?hints ev_user_id] ids by (simp add: comp_def)
  define row where "row u = \<lparr>so_user_id = us_id u, so_name = us_name u, so_email = us_email u,
      so_labs_total = count_if (\<lambda>p. lp_user_id p = us_id u) (progress d),
      so_labs_completed = count_if (\<lambda>p. lp_user_id p = us_id u \<and> lp_status p = ''completed'') (progress d),
      so_labs_in_progress = count_if (\<lambda>p. lp_user_id p = us_id u \<and> lp_status p = ''in_progress'') (progress d),
      so_avg_score = average (List.map_filter lp_score (filter (\<lambda>p. lp_user_id p = us_id u) (progress d))),
      so_total_hints = count_if (\<lambda>e. ev_user_id e = us_id u \<and> is_hint e) (events d),
      so_total_sessions = count_if (\<lambda>s. ls_user_id s = us_id u) (sessions d),
      so_last_active_at = last_started (filter (\<lambda>s. ls_user_id s = us_id u) (sessions d))\<rparr>" for u :: user
  have rows: "ov_students (get_students_overview by_name d) = map row students"
    by (auto simp: get_students_overview_def Let_def students_def [symmetric] row_def tally_count count_mine
        rows_mine)
  have "ov_total_hints (get_students_overview by_name d) = length ?hints"
    by (simp add: get_students_overview_def Let_def students_def [symmetric] tally_total)
  also have "\<dots> = (\<Sum>u\<leftarrow>students. so_total_hints (row u))"
    unfolding total [symmetric] by (intro arg_cong [where f = sum_list] map_cong) (simp_all add: row_def count_mine)
  finally have hints: "ov_total_hints (get_students_overview by_name d) = (\<Sum>u\<leftarrow>students. so_total_hints (row u))" .
  have card: "\<exists>c. get_student_detail d chat (us_id u) = Some c \<and>
       sd_name c = so_name (row u) \<and> sd_labs_completed c = so_labs_completed (row u) \<and>
       sd_labs_in_progress c = so_labs_in_progress (row u) \<and> sd_avg_score c = so_avg_score (row u) \<and>
       sd_total_hints c = so_total_hints (row u) \<and> sd_total_sessions c = so_total_sessions (row u) \<and>
       length (sd_labs c) = so_labs_total (row u)" if "u \<in> set students" for u
  proof -
    have "find_user d (us_id u) = Some u"
      unfolding find_user_def using find_distinct [OF assms(1)] that in_users by blast
    then show ?thesis
      by (simp add: get_student_detail_def Let_def row_def latest_first_def average_sort_key tally_total
          count_if_sort_key count_if_filter length_as_count)
  qed
  have ids_row: "map so_user_id (map row students) = map us_id students" by (simp add: comp_def row_def)
  have listed: "mset (map so_user_id (map row students)) =
      mset (map us_id (filter (\<lambda>u. us_role u = ''student'') (users d)))"
    unfolding ids_row by (simp only: mset_map ms)
  have same_sum: "(\<Sum>u\<leftarrow>students. so_total_hints (row u)) = (\<Sum>r\<leftarrow>map row students. so_total_hints r)"
    by (simp add: comp_def)
  have each: "\<exists>c. get_student_detail d chat (so_user_id r) = Some c \<and>
       sd_name c = so_name r \<and> sd_labs_completed c = so_labs_completed r \<and>
       sd_labs_in_progress c = so_labs_in_progress r \<and> sd_avg_score c = so_avg_score r \<and>
       sd_total_hints c = so_total_hints r \<and> sd_total_sessions c = so_total_sessions r \<and>
       length (sd_labs c) = so_labs_total r" if r: "r \<in> set (map row students)" for r
  proof -
    obtain u where u: "u \<in> set students" "r = row u" using r by auto
    have "so_user_id (row u) = us_id u" by (simp add: row_def)
    then show ?thesis unfolding u(2) using card [OF u(1)] by (simp only:)
  qed
  show ?thesis
    unfolding Let_def rows hints same_sum
    by (intro conjI ballI, rule listed, rule refl, erule each)
qed

definition sample_student :: user where
  "sample_student = \<lparr>us_id = ''u'', us_email = None, us_name = Some ''U'', us_role = ''student'',
     us_experiment_group = None, us_control_arm = None, us_is_simulated = False, us_is_active = True\<rparr>"

lemma overview_agrees_with_cards_witness:
  "\<exists>c. get_student_detail (sample_db\<lparr>users := [sample_student]\<rparr>) [] ''u'' = Some c \<and> sd_total_sessions c =
     so_total_sessions (hd (ov_students (get_students_overview (\<lambda>us. us) (sample_db\<lparr>users := [sample_student]\<rparr>)))) \<and>
     sd_total_sessions c = 1"
proof -
  let ?d = "sample_db\<lparr>users := [sample_student]\<rparr>"
  have h: "hd (ov_students (get_students_overview (\<lambda>us. us) ?d)) \<in> set (ov_students (get_students_overview (\<lambda>us. us) ?d))"
    "so_user_id (hd (ov_students (get_students_overview (\<lambda>us. us) ?d))) = ''u''"
    "so_total_sessions (hd (ov_students (get_students_overview (\<lambda>us. us) ?d))) = 1"
    by (simp_all add: get_students_overview_def Let_def sample_student_def sample_db_def empty_db_def
        sample_session_def tally_count count_if_def)
  show ?thesis
    using overview_agrees_with_cards [of ?d "\<lambda>us. us" "[]"] h by (auto simp: Let_def)
qed

end
