(* ===== verification/Mcp_Pool.thy ===== *)
theory Mcp_Pool
  imports Prelude
begin

text \<open>
  The pool of connections of an MCP server (\<open>mcp_sdk/connection.py\<close>, \<open>context.py\<close>) and the connections
  the GNS3 server keeps in it (\<open>gns3-mcp/src/connection.py\<close>).  The calls of several students interleave
  where the code awaits a health check or an open; in between a call runs in one piece, so closing a
  connection takes no time.  A call that finds its key's lock taken has not begun yet.  The hash of a
  credential and the answers of the target system are parameters.  The monotonic clock counts seconds.
\<close>

subsection \<open>Contexts and connections\<close>

record session_context =
  sx_user_id :: string
  sx_session_id :: string
  sx_environment_url :: string
  sx_project_id :: "string option"
  sx_metadata :: "(string \<times> string) list"

type_synonym pool_key = "string \<times> string \<times> string"

text \<open>\<open>digest\<close> is the first sixteen hexadecimal digits of SHA-256.\<close>

definition credential_fingerprint :: "(string \<Rightarrow> string) \<Rightarrow> session_context \<Rightarrow> string" where
  "credential_fingerprint digest ctx =
     (let jwt = map_of (sx_metadata ctx) ''gns3_jwt'';
          raw = (if truthy jwt then jwt else map_of (sx_metadata ctx) ''token'')
      in if truthy raw then digest (the raw) else [])"

definition pool_key :: "(string \<Rightarrow> string) \<Rightarrow> session_context \<Rightarrow> pool_key" where
  "pool_key digest ctx = (sx_environment_url ctx, sx_user_id ctx, credential_fingerprint digest ctx)"

text \<open>A client is an object of its own with the address and the header it was made with.\<close>

record gns3_client =
  gc_object :: nat
  gc_base_url :: string
  gc_authorization :: "string option"

definition connect :: "session_context \<Rightarrow> nat \<Rightarrow> gns3_client" where
  "connect ctx object =
     (let jwt = map_of (sx_metadata ctx) ''gns3_jwt''
      in \<lparr>gc_object = object, gc_base_url = sx_environment_url ctx,
          gc_authorization = (if truthy jwt then Some (''Bearer '' @ the jwt) else None)\<rparr>)"

text \<open>The answer of \<open>GET /v3/version\<close>: its keys, or an exception.\<close>

definition health_check :: "string + string list \<Rightarrow> bool" where
  "health_check version = (case version of Inl e \<Rightarrow> False | Inr ks \<Rightarrow> ''version'' \<in> set ks)"

subsection \<open>The pool\<close>

record pool_config =
  pl_max_size :: nat
  pl_idle_ttl :: real
  pl_health_check_interval :: real
  pl_min_evict_idle :: real

definition default_pool :: pool_config where
  "default_pool = \<lparr>pl_max_size = 50, pl_idle_ttl = 600, pl_health_check_interval = 60, pl_min_evict_idle = 30\<rparr>"

record pool_entry =
  en_conn :: gns3_client
  en_last_used :: real
  en_last_checked :: real

text \<open>Where a call that holds its key's lock waits, with the time it began.\<close>

datatype waiting = Checking pool_entry session_context real | Opening session_context real

text \<open>
  Entries stand least recently used first.  Beside them: the calls under way, every client opened so far with
  the key it was opened for, and every client that was disconnected.
\<close>

record pool =
  po_entries :: "(pool_key \<times> pool_entry) list"
  po_waiting :: "(pool_key \<times> waiting) list"
  po_opened :: "(pool_key \<times> gns3_client) list"
  po_disconnected :: "gns3_client list"

definition empty_pool :: pool where
  "empty_pool = \<lparr>po_entries = [], po_waiting = [], po_opened = [], po_disconnected = []\<rparr>"

definition pop_key :: "'k \<Rightarrow> ('k \<times> 'v) list \<Rightarrow> ('k \<times> 'v) list" where
  "pop_key k d = filter (\<lambda>(k', v). k' \<noteq> k) d"

definition close_key :: "pool_key \<Rightarrow> pool \<Rightarrow> pool" where
  "close_key k p =
     (case map_of (po_entries p) k of
        None \<Rightarrow> p
      | Some e \<Rightarrow> p\<lparr>po_entries := pop_key k (po_entries p),
          po_disconnected := po_disconnected p @ [en_conn e]\<rparr>)"

definition drop_idle :: "pool_config \<Rightarrow> real \<Rightarrow> pool \<Rightarrow> pool" where
  "drop_idle cfg now p =
     fold close_key (map fst (filter (\<lambda>(k, e). pl_idle_ttl cfg < now - en_last_used e) (po_entries p))) p"

datatype pool_error = Exhausted nat | NoEntries | ConnectFailed

text \<open>An empty pool that is full, of size zero, lets \<open>next\<close> run out.\<close>

function make_room :: "pool_config \<Rightarrow> real \<Rightarrow> pool \<Rightarrow> pool_error option \<times> pool" where
  "make_room cfg now p =
     (if length (po_entries p) < pl_max_size cfg then (None, p)
      else case po_entries p of
          [] \<Rightarrow> (Some NoEntries, p)
        | (k, e) # _ \<Rightarrow>
            if now - en_last_used e < pl_min_evict_idle cfg
            then (Some (Exhausted (length (po_entries p))), p)
            else make_room cfg now (close_key k p))"
  by pat_completeness auto

termination make_room
  by (relation "measure (\<lambda>(cfg, now, p). length (po_entries p))")
    (auto simp: close_key_def pop_key_def intro: le_less_trans [OF length_filter_le])

declare make_room.simps [simp del]

text \<open>The entry was used: it goes to the end, unless it was evicted in the meantime.\<close>

definition touch :: "pool_key \<Rightarrow> pool_entry \<Rightarrow> pool \<Rightarrow> pool" where
  "touch k e p =
     (if k \<in> set (map fst (po_entries p))
      then p\<lparr>po_entries := pop_key k (po_entries p) @ [(k, e)]\<rparr> else p)"

datatype pool_answer = Given session_context gns3_client | Failed session_context pool_error

definition wait_at :: "pool_key \<Rightarrow> waiting \<Rightarrow> pool \<Rightarrow> pool" where
  "wait_at k w p = p\<lparr>po_waiting := (k, w) # pop_key k (po_waiting p)\<rparr>"

definition resume :: "pool_key \<Rightarrow> pool \<Rightarrow> pool" where
  "resume k p = p\<lparr>po_waiting := pop_key k (po_waiting p)\<rparr>"

text \<open>\<open>_make_room\<close>, then the call waits for the new connection.\<close>

definition start_open ::
  "pool_config \<Rightarrow> pool_key \<Rightarrow> session_context \<Rightarrow> real \<Rightarrow> pool \<Rightarrow> pool_answer option \<times> pool" where
  "start_open cfg k ctx now p =
     (case make_room cfg now p of
        (Some e, p1) \<Rightarrow> (Some (Failed ctx e), resume k p1)
      | (None, p1) \<Rightarrow> (None, wait_at k (Opening ctx now) p1))"

text \<open>\<open>get_connection\<close> up to its first wait, after the wait for a health check, and after the wait for an open.\<close>

definition get_connection ::
  "(string \<Rightarrow> string) \<Rightarrow> pool_config \<Rightarrow> session_context \<Rightarrow> real \<Rightarrow> pool \<Rightarrow> pool_answer option \<times> pool" where
  "get_connection digest cfg ctx now p =
     (let k = pool_key digest ctx; p1 = drop_idle cfg now p
      in case map_of (po_entries p1) k of
           None \<Rightarrow> start_open cfg k ctx now p1
         | Some e \<Rightarrow>
             if now - en_last_checked e < pl_health_check_interval cfg
             then (Some (Given ctx (en_conn e)), touch k (e\<lparr>en_last_used := now\<rparr>) p1)
             else (None, wait_at k (Checking e ctx now) p1))"

definition after_check ::
  "pool_config \<Rightarrow> pool_key \<Rightarrow> pool_entry \<Rightarrow> session_context \<Rightarrow> real \<Rightarrow> bool \<Rightarrow> pool \<Rightarrow> pool_answer option \<times> pool" where
  "after_check cfg k e ctx now alive p =
     (if alive
      then (Some (Given ctx (en_conn e)), resume k (touch k (e\<lparr>en_last_used := now, en_last_checked := now\<rparr>) p))
      else start_open cfg k ctx now (close_key k p))"

definition after_open :: "pool_key \<Rightarrow> session_context \<Rightarrow> real \<Rightarrow> bool \<Rightarrow> pool \<Rightarrow> pool_answer option \<times> pool" where
  "after_open k ctx now ok p =
     (if ok
      then let conn = connect ctx (length (po_opened p)) in
        (Some (Given ctx conn),
         resume k (p\<lparr>po_entries := pop_key k (po_entries p) @
             [(k, \<lparr>en_conn = conn, en_last_used = now, en_last_checked = now\<rparr>)],
           po_opened := po_opened p @ [(k, conn)]\<rparr>))
      else (Some (Failed ctx ConnectFailed), resume k p))"

definition release_key :: "(string \<Rightarrow> string) \<Rightarrow> session_context \<Rightarrow> pool \<Rightarrow> pool" where
  "release_key digest ctx p = close_key (pool_key digest ctx) p"

definition close_all :: "pool \<Rightarrow> pool" where
  "close_all p = fold close_key (map fst (po_entries p)) p"

text \<open>A health check or an open that answers, for the call that waits under a key; a call that begins.\<close>

datatype pool_event =
    Get session_context real
  | HealthAnswered pool_key "string + string list"
  | ConnectAnswered pool_key bool
  | Release session_context

definition pool_step ::
  "(string \<Rightarrow> string) \<Rightarrow> pool_config \<Rightarrow> pool_event \<Rightarrow> pool \<Rightarrow> pool_answer option \<times> pool" where
  "pool_step digest cfg ev p =
     (case ev of
        Get ctx now \<Rightarrow>
          (if pool_key digest ctx \<in> set (map fst (po_waiting p)) then (None, p)
           else get_connection digest cfg ctx now p)
      | HealthAnswered k version \<Rightarrow>
          (case map_of (po_waiting p) k of
             Some (Checking e ctx now) \<Rightarrow> after_check cfg k e ctx now (health_check version) p
           | _ \<Rightarrow> (None, p))
      | ConnectAnswered k ok \<Rightarrow>
          (case map_of (po_waiting p) k of
             Some (Opening ctx now) \<Rightarrow> after_open k ctx now ok p
           | _ \<Rightarrow> (None, p))
      | Release ctx \<Rightarrow>
          (if pool_key digest ctx \<in> set (map fst (po_waiting p)) then (None, p)
           else (None, release_key digest ctx p)))"

text \<open>The answers of a run, each with the pool it was given from.\<close>

fun pool_run ::
  "(string \<Rightarrow> string) \<Rightarrow> pool_config \<Rightarrow> pool_event list \<Rightarrow> pool \<Rightarrow> (pool_answer \<times> pool) list \<times> pool" where
  "pool_run digest cfg [] p = ([], p)"
| "pool_run digest cfg (ev # evs) p =
     (let (a, p1) = pool_step digest cfg ev p; (answers, p2) = pool_run digest cfg evs p1
      in (case a of None \<Rightarrow> answers | Some x \<Rightarrow> (x, p1) # answers, p2))"

end
