(* ===== verification/Mcp_Pool_Properties.thy ===== *)
theory Mcp_Pool_Properties
  imports Mcp_Pool "HOL-Library.Multiset"
begin

text \<open>
  Properties of the connection pool: whose connection a caller gets, that none is lost, and how many there
  are at once.
\<close>

subsection \<open>Entries by key\<close>

lemma pop_key_fst: "map fst (pop_key k d) = filter (\<lambda>k'. k' \<noteq> k) (map fst d)"
  by (induction d) (auto simp: pop_key_def)

lemma pop_key_distinct [simp]: "distinct (map fst d) \<Longrightarrow> distinct (map fst (pop_key k d))"
  by (simp add: pop_key_fst)

lemma pop_key_set: "x \<in> set (pop_key k d) \<longleftrightarrow> x \<in> set d \<and> fst x \<noteq> k"
  by (auto simp: pop_key_def)

lemma pop_key_keys: "fst ` set (pop_key k d) = fst ` set d - {k}"
  by (auto simp: pop_key_set image_iff)

lemma pop_key_absent [simp]: "k \<notin> fst ` set d \<Longrightarrow> pop_key k d = d"
  by (induction d) (auto simp: pop_key_def)

lemma pop_key_mset:
  "distinct (map fst d) \<Longrightarrow> map_of d k = Some v \<Longrightarrow> mset d = add_mset (k, v) (mset (pop_key k d))"
proof (induction d)
  case (Cons x d)
  obtain k' v' where x: "x = (k', v')" by fastforce
  show ?case
  proof (cases "k' = k")
    case True
    with Cons.prems x have "k \<notin> fst ` set d" "v' = v" by auto
    then have "pop_key k (x # d) = d" using x True pop_key_absent [of k d] by (simp add: pop_key_def)
    then show ?thesis using x True \<open>v' = v\<close> by simp
  next
    case False
    with Cons.prems x have "map_of d k = Some v" "distinct (map fst d)" by auto
    then show ?thesis using Cons.IH x False by (simp add: pop_key_def)
  qed
qed simp

lemma pop_key_map_of: "map_of (pop_key k d) k' = (if k' = k then None else map_of d k')"
  by (induction d) (auto simp: pop_key_def)

lemma pop_key_length:
  "distinct (map fst d) \<Longrightarrow> map_of d k = Some v \<Longrightarrow> length d = Suc (length (pop_key k d))"
  using pop_key_mset [of d k v] by (metis size_add_mset size_mset)

subsection \<open>The invariant\<close>

text \<open>
  Keys are distinct; every entry's client was opened for its key; a call that waits waits under the key of
  its context, and one that opens has no entry; clients are objects of their own, made for a context of
  \<open>C\<close>; each is either in the pool or was disconnected, once.
\<close>

definition waiting_ok :: "(string \<Rightarrow> string) \<Rightarrow> session_context set \<Rightarrow> pool \<Rightarrow> pool_key \<times> waiting \<Rightarrow> bool" where
  "waiting_ok digest C p kw =
     (case snd kw of
        Checking e ctx now \<Rightarrow> ctx \<in> C \<and> fst kw = pool_key digest ctx \<and> (fst kw, en_conn e) \<in> set (po_opened p) \<and>
          (\<forall>e'. map_of (po_entries p) (fst kw) = Some e' \<longrightarrow> e' = e)
      | Opening ctx now \<Rightarrow> ctx \<in> C \<and> fst kw = pool_key digest ctx \<and> map_of (po_entries p) (fst kw) = None)"

definition made_for :: "(string \<Rightarrow> string) \<Rightarrow> session_context set \<Rightarrow> pool_key \<times> gns3_client \<Rightarrow> bool" where
  "made_for digest C kc \<longleftrightarrow> (\<exists>ctx \<in> C. fst kc = pool_key digest ctx \<and> snd kc = connect ctx (gc_object (snd kc)))"

definition opened_ok :: "(string \<Rightarrow> string) \<Rightarrow> session_context set \<Rightarrow> (pool_key \<times> gns3_client) list \<Rightarrow> bool" where
  "opened_ok digest C os \<longleftrightarrow>
     (\<forall>kc \<in> set os. made_for digest C kc) \<and> map (gc_object \<circ> snd) os = [0..<length os]"

definition entries_ok :: "pool \<Rightarrow> bool" where
  "entries_ok p \<longleftrightarrow> distinct (map fst (po_entries p)) \<and>
     (\<forall>(k, e) \<in> set (po_entries p). (k, en_conn e) \<in> set (po_opened p)) \<and>
     mset (map snd (po_opened p)) = mset (map (en_conn \<circ> snd) (po_entries p)) + mset (po_disconnected p)"

definition pool_ok :: "(string \<Rightarrow> string) \<Rightarrow> session_context set \<Rightarrow> pool \<Rightarrow> bool" where
  "pool_ok digest C p \<longleftrightarrow> entries_ok p \<and> opened_ok digest C (po_opened p) \<and>
     distinct (map fst (po_waiting p)) \<and> (\<forall>kw \<in> set (po_waiting p). waiting_ok digest C p kw)"

lemma empty_pool_ok: "pool_ok digest C empty_pool"
  by (simp add: pool_ok_def empty_pool_def entries_ok_def opened_ok_def)

text \<open>Closing only removes an entry.\<close>

lemma close_key_frame [simp]:
  "po_waiting (close_key k p) = po_waiting p" "po_opened (close_key k p) = po_opened p"
  "po_entries (close_key k p) = pop_key k (po_entries p)"
  by (auto simp: close_key_def map_of_eq_None_iff split: option.split)

lemma close_key_entries_ok: "entries_ok p \<Longrightarrow> entries_ok (close_key k p)"
proof (cases "map_of (po_entries p) k")
  case None
  assume "entries_ok p"
  with None show ?thesis by (simp add: close_key_def)
next
  case (Some e)
  assume ok: "entries_ok p"
  then have "mset (po_entries p) = add_mset (k, e) (mset (pop_key k (po_entries p)))"
    using Some by (intro pop_key_mset) (simp_all add: entries_ok_def)
  then have "mset (map (en_conn \<circ> snd) (po_entries p)) =
      add_mset (en_conn e) (mset (map (en_conn \<circ> snd) (pop_key k (po_entries p))))" by simp
  with ok Some show ?thesis by (auto simp: entries_ok_def close_key_def pop_key_set)
qed

lemma fewer_entries_waiting_ok:
  assumes "waiting_ok digest C p kw" "set (po_opened p) \<subseteq> set (po_opened p')"
    and "\<And>v. map_of (po_entries p') (fst kw) = Some v \<Longrightarrow> map_of (po_entries p) (fst kw) = Some v"
  shows "waiting_ok digest C p' kw"
proof (cases "snd kw")
  case (Checking e ctx now)
  with assms(1) have "ctx \<in> C \<and> fst kw = pool_key digest ctx \<and> (fst kw, en_conn e) \<in> set (po_opened p) \<and>
      (\<forall>e'. map_of (po_entries p) (fst kw) = Some e' \<longrightarrow> e' = e)"
    unfolding waiting_ok_def Checking waiting.case by blast
  then show ?thesis unfolding waiting_ok_def Checking waiting.case using assms(2,3) by blast
next
  case (Opening ctx now)
  have h: "ctx \<in> C \<and> fst kw = pool_key digest ctx \<and> map_of (po_entries p) (fst kw) = None"
    using assms(1) unfolding waiting_ok_def Opening waiting.case .
  then have "map_of (po_entries p') (fst kw) = None" using assms(3) by (metis not_None_eq)
  with h show ?thesis unfolding waiting_ok_def Opening waiting.case by blast
qed

lemma close_key_ok:
  assumes "pool_ok digest C p"
  shows "pool_ok digest C (close_key k p)"
proof -
  have "waiting_ok digest C (close_key k p) kw" if "kw \<in> set (po_waiting p)" for kw
    by (rule fewer_entries_waiting_ok [where p = p])
      (use assms that in \<open>auto simp: pool_ok_def pop_key_map_of split: if_splits\<close>)
  then show ?thesis using assms by (simp add: pool_ok_def close_key_entries_ok)
qed

lemma fold_close_key_ok: "pool_ok digest C p \<Longrightarrow> pool_ok digest C (fold close_key ks p)"
  by (induction ks arbitrary: p) (simp_all add: close_key_ok)

lemma fold_close_key_frame [simp]:
  "po_waiting (fold close_key ks p) = po_waiting p" "po_opened (fold close_key ks p) = po_opened p"
  by (induction ks arbitrary: p) simp_all

lemma drop_idle_ok: "pool_ok digest C p \<Longrightarrow> pool_ok digest C (drop_idle cfg now p)"
  by (simp add: drop_idle_def fold_close_key_ok)

lemma drop_idle_frame [simp]: "po_waiting (drop_idle cfg now p) = po_waiting p"
  by (simp add: drop_idle_def)

text \<open>Whatever closing keeps, making room keeps.\<close>

lemma make_room_keeps:
  assumes "\<And>k p. I p \<Longrightarrow> I (close_key k p)" and "I p"
  shows "I (snd (make_room cfg now p))"
  using assms(2)
proof (induction cfg now p rule: make_room.induct)
  case (1 cfg now p)
  show ?case
  proof (cases "po_entries p")
    case Nil
    then show ?thesis using "1.prems" by (subst make_room.simps) simp
  next
    case (Cons x rest)
    obtain k e where x: "x = (k, e)" by (rule prod.exhaust)
    have "I (snd (make_room cfg now (close_key k p)))"
      if "\<not> length (po_entries p) < pl_max_size cfg" "\<not> now - en_last_used e < pl_min_evict_idle cfg"
      using "1.IH" [OF that(1) Cons x [symmetric] that(2)] assms(1) [OF "1.prems"] .
    then show ?thesis using "1.prems" Cons x by (subst make_room.simps) simp
  qed
qed

lemma make_room_ok: "pool_ok digest C p \<Longrightarrow> pool_ok digest C (snd (make_room cfg now p))"
  by (rule make_room_keeps [where I = "pool_ok digest C"]) (rule close_key_ok)

lemma make_room_frame [simp]: "po_waiting (snd (make_room cfg now p)) = po_waiting p"
  by (rule make_room_keeps [where I = "\<lambda>q. po_waiting q = po_waiting p"]) simp_all

lemma make_room_keys:
  "map_of (po_entries p) k = None \<Longrightarrow> map_of (po_entries (snd (make_room cfg now p))) k = None"
  by (rule make_room_keeps [where I = "\<lambda>q. map_of (po_entries q) k = None"]) (simp_all add: pop_key_map_of)

lemma make_room_room:
  "fst (make_room cfg now p) = None \<Longrightarrow> length (po_entries (snd (make_room cfg now p))) < pl_max_size cfg"
proof (induction cfg now p rule: make_room.induct)
  case (1 cfg now p)
  show ?case
  proof (cases "po_entries p")
    case Nil
    then show ?thesis using "1.prems" by (subst make_room.simps, subst (asm) make_room.simps) (simp split: if_splits)
  next
    case (Cons x rest)
    obtain k e where x: "x = (k, e)" by (rule prod.exhaust)
    show ?thesis
    proof (cases "length (po_entries p) < pl_max_size cfg \<or> now - en_last_used e < pl_min_evict_idle cfg")
      case True
      then show ?thesis using "1.prems" Cons x
        by (subst make_room.simps, subst (asm) make_room.simps) (simp split: if_splits)
    next
      case False
      then have "make_room cfg now p = make_room cfg now (close_key k p)"
        using Cons x by (subst make_room.simps) simp
      then show ?thesis using "1.IH" [OF _ Cons x [symmetric]] "1.prems" False by simp
    qed
  qed
qed

subsection \<open>Every step keeps it\<close>

text \<open>The contexts a step's call comes with, or resumes with.\<close>

fun event_contexts :: "pool_event \<Rightarrow> session_context set" where
  "event_contexts (Get ctx now) = {ctx}"
| "event_contexts (Release ctx) = {ctx}"
| "event_contexts (HealthAnswered k v) = {}"
| "event_contexts (ConnectAnswered k ok) = {}"

lemma resume_ok: "pool_ok digest C p \<Longrightarrow> pool_ok digest C (resume k p)"
proof -
  assume ok: "pool_ok digest C p"
  have same: "waiting_ok digest C (resume k p) kw = waiting_ok digest C p kw" for kw
    by (simp add: waiting_ok_def resume_def split: waiting.split)
  show ?thesis using ok by (simp add: pool_ok_def same) (simp add: resume_def entries_ok_def pop_key_set)
qed

lemma wait_at_ok:
  assumes "pool_ok digest C p" "waiting_ok digest C p (k, w)"
  shows "pool_ok digest C (wait_at k w p)"
proof -
  have same: "waiting_ok digest C (wait_at k w p) kw = waiting_ok digest C p kw" for kw
    by (simp add: waiting_ok_def wait_at_def split: waiting.split)
  have "k \<notin> fst ` set (pop_key k (po_waiting p))" by (simp add: pop_key_keys)
  then show ?thesis
    using assms by (simp add: pool_ok_def same) (simp add: wait_at_def entries_ok_def pop_key_set)
qed

lemma touch_ok:
  assumes "pool_ok digest C p" "(k, en_conn e) \<in> set (po_opened p)" "k \<notin> fst ` set (po_waiting p)"
    and "\<And>e'. map_of (po_entries p) k = Some e' \<Longrightarrow> en_conn e' = en_conn e"
  shows "pool_ok digest C (touch k e p)"
proof (cases "map_of (po_entries p) k")
  case None
  then show ?thesis using assms(1) by (auto simp: touch_def map_of_eq_None_iff)
next
  case (Some e')
  have d: "distinct (map fst (po_entries p))" using assms(1) by (simp add: pool_ok_def entries_ok_def)
  have in_k: "k \<in> set (map fst (po_entries p))" using Some by (metis map_of_eq_None_iff option.distinct(1) set_map)
  have "mset (po_entries p) = add_mset (k, e') (mset (pop_key k (po_entries p)))"
    by (rule pop_key_mset [OF d Some])
  then have "mset (map (en_conn \<circ> snd) (po_entries (touch k e p))) = mset (map (en_conn \<circ> snd) (po_entries p))"
    using in_k assms(4) [OF Some] by (simp add: touch_def)
  then have "entries_ok (touch k e p)"
    using assms(1,2) d in_k unfolding pool_ok_def entries_ok_def
    by (auto simp: touch_def pop_key_set pop_key_keys)
  moreover have "waiting_ok digest C (touch k e p) kw" if kw: "kw \<in> set (po_waiting p)" for kw
  proof (rule fewer_entries_waiting_ok [where p = p])
    show "waiting_ok digest C p kw" using assms(1) kw by (simp add: pool_ok_def)
    show "set (po_opened p) \<subseteq> set (po_opened (touch k e p))" by (simp add: touch_def)
    have "fst kw \<noteq> k" using assms(3) kw by blast
    then show "map_of (po_entries p) (fst kw) = Some v"
      if "map_of (po_entries (touch k e p)) (fst kw) = Some v" for v
      using that by (auto simp: touch_def pop_key_map_of map_add_def split: if_splits option.splits)
  qed
  moreover have "po_waiting (touch k e p) = po_waiting p" "po_opened (touch k e p) = po_opened p"
    by (simp_all add: touch_def)
  ultimately show ?thesis using assms(1) by (simp add: pool_ok_def)
qed

lemma start_open_ok:
  assumes "pool_ok digest C p" "ctx \<in> C" "k = pool_key digest ctx" "map_of (po_entries p) k = None"
  shows "pool_ok digest C (snd (start_open cfg k ctx now p))"
proof -
  let ?p = "snd (make_room cfg now p)"
  have ok: "pool_ok digest C ?p" by (rule make_room_ok [OF assms(1)])
  have "map_of (po_entries ?p) k = None" by (rule make_room_keys [OF assms(4)])
  then have "waiting_ok digest C ?p (k, Opening ctx now)" using assms(2,3) by (simp add: waiting_ok_def)
  then show ?thesis
    using ok by (auto simp: start_open_def split: prod.split option.split intro: wait_at_ok resume_ok)
qed

lemma key_entry:
  assumes "pool_ok digest C p" "map_of (po_entries p) k = Some e"
  shows "(k, en_conn e) \<in> set (po_opened p)"
  using assms(1) map_of_SomeD [OF assms(2)] unfolding pool_ok_def entries_ok_def by blast

lemma get_connection_ok:
  assumes "pool_ok digest C p" "ctx \<in> C" "pool_key digest ctx \<notin> fst ` set (po_waiting p)"
  shows "pool_ok digest C (snd (get_connection digest cfg ctx now p))"
proof -
  let ?k = "pool_key digest ctx" and ?p = "drop_idle cfg now p"
  have ok: "pool_ok digest C ?p" by (rule drop_idle_ok [OF assms(1)])
  show ?thesis
  proof (cases "map_of (po_entries ?p) ?k")
    case None
    then show ?thesis using start_open_ok [OF ok assms(2) refl None] by (simp add: get_connection_def)
  next
    case (Some e)
    have e: "(?k, en_conn e) \<in> set (po_opened ?p)" by (rule key_entry [OF ok Some])
    have "pool_ok digest C (touch ?k (e\<lparr>en_last_used := now\<rparr>) ?p)"
      by (rule touch_ok) (use ok e Some assms(3) in simp_all)
    moreover have "pool_ok digest C (wait_at ?k (Checking e ctx now) ?p)"
      by (rule wait_at_ok) (use ok e Some assms(2) in \<open>simp_all add: waiting_ok_def\<close>)
    ultimately show ?thesis using Some by (simp add: get_connection_def Let_def)
  qed
qed

lemma resume_touch: "resume k (touch k e p) = touch k e (resume k p)"
  by (simp add: resume_def touch_def)

lemma waiting_facts:
  assumes "pool_ok digest C p" "map_of (po_waiting p) k = Some w"
  shows "waiting_ok digest C p (k, w)"
  using assms(1) map_of_SomeD [OF assms(2)] by (simp add: pool_ok_def)

lemma after_check_ok:
  assumes "pool_ok digest C p" "map_of (po_waiting p) k = Some (Checking e ctx now)"
  shows "pool_ok digest C (snd (after_check cfg k e ctx now alive p))"
proof -
  have w: "ctx \<in> C" "k = pool_key digest ctx" "(k, en_conn e) \<in> set (po_opened p)"
    "\<And>e'. map_of (po_entries p) k = Some e' \<Longrightarrow> e' = e"
    using waiting_facts [OF assms] unfolding waiting_ok_def fst_conv snd_conv waiting.case by blast+
  have "pool_ok digest C (touch k (e\<lparr>en_last_used := now, en_last_checked := now\<rparr>) (resume k p))"
    by (rule touch_ok) (use resume_ok [OF assms(1)] w(3,4) in \<open>auto simp: resume_def pop_key_keys\<close>)
  moreover have "pool_ok digest C (snd (start_open cfg k ctx now (close_key k p)))"
    by (rule start_open_ok [OF close_key_ok [OF assms(1)] w(1,2)]) (simp add: pop_key_map_of)
  ultimately show ?thesis by (simp add: after_check_def resume_touch)
qed

lemma after_open_ok:
  assumes "pool_ok digest C p" "map_of (po_waiting p) k = Some (Opening ctx now)"
  shows "pool_ok digest C (snd (after_open k ctx now ok p))"
proof -
  have w: "ctx \<in> C" "k = pool_key digest ctx" "map_of (po_entries p) k = None"
    using waiting_facts [OF assms] unfolding waiting_ok_def fst_conv snd_conv waiting.case by blast+
  then have absent: "k \<notin> fst ` set (po_entries p)" by (simp add: map_of_eq_None_iff)
  let ?c = "connect ctx (length (po_opened p))"
  let ?p = "p\<lparr>po_entries := po_entries p @ [(k, \<lparr>en_conn = ?c, en_last_used = now, en_last_checked = now\<rparr>)],
           po_opened := po_opened p @ [(k, ?c)]\<rparr>"
  have "entries_ok ?p"
    using assms(1) absent unfolding pool_ok_def entries_ok_def by (auto simp: image_iff)
  moreover have "made_for digest C (k, ?c)" using w(1,2) by (auto simp: made_for_def connect_def Let_def)
  then have "opened_ok digest C (po_opened ?p)"
    using assms(1) by (simp add: pool_ok_def opened_ok_def connect_def Let_def)
  moreover have "waiting_ok digest C (resume k ?p) kw" if kw: "kw \<in> set (pop_key k (po_waiting p))" for kw
  proof (rule fewer_entries_waiting_ok [where p = p])
    show "waiting_ok digest C p kw" using assms(1) kw by (simp add: pool_ok_def pop_key_set)
    show "set (po_opened p) \<subseteq> set (po_opened (resume k ?p))" by (auto simp: resume_def)
    show "map_of (po_entries p) (fst kw) = Some v" if "map_of (po_entries (resume k ?p)) (fst kw) = Some v" for v
      using that kw by (auto simp: resume_def pop_key_set map_add_def split: if_splits option.splits)
  qed
  ultimately have "pool_ok digest C (resume k ?p)"
    using assms(1) unfolding pool_ok_def by (simp add: resume_def entries_ok_def)
  then show ?thesis
    using resume_ok [OF assms(1)] absent by (simp add: after_open_def Let_def)
qed

lemma pool_step_ok:
  assumes "pool_ok digest C p" "event_contexts ev \<subseteq> C"
  shows "pool_ok digest C (snd (pool_step digest cfg ev p))"
proof (cases ev)
  case (Get ctx now)
  with assms show ?thesis by (simp add: pool_step_def get_connection_ok)
next
  case (HealthAnswered k v)
  with assms show ?thesis by (auto simp: pool_step_def after_check_ok split: option.split waiting.split)
next
  case (ConnectAnswered k ok)
  with assms show ?thesis by (auto simp: pool_step_def after_open_ok split: option.split waiting.split)
next
  case (Release ctx)
  with assms show ?thesis by (simp add: pool_step_def release_key_def close_key_ok)
qed

text \<open>A client a step gives was opened for the caller's key.\<close>

lemma given_made_for:
  assumes "pool_ok digest C p" "event_contexts ev \<subseteq> C" "fst (pool_step digest cfg ev p) = Some (Given ctx c)"
  shows "ctx \<in> C \<and> (pool_key digest ctx, c) \<in> set (po_opened (snd (pool_step digest cfg ev p)))"
proof (cases ev)
  case (Get ctx' now)
  let ?k = "pool_key digest ctx'" and ?p = "drop_idle cfg now p"
  have step: "pool_step digest cfg ev p = get_connection digest cfg ctx' now p"
    using assms(3) Get by (auto simp: pool_step_def split: if_splits)
  then obtain e where e: "map_of (po_entries ?p) ?k = Some e" "ctx = ctx'" "c = en_conn e"
      "snd (get_connection digest cfg ctx' now p) = touch ?k (e\<lparr>en_last_used := now\<rparr>) ?p"
    using assms(3) by (auto simp: get_connection_def start_open_def Let_def split: option.splits if_splits prod.splits)
  have "(?k, en_conn e) \<in> set (po_opened ?p)" by (rule key_entry [OF drop_idle_ok [OF assms(1)] e(1)])
  then show ?thesis using assms(2) Get step e(2-4) by (simp add: touch_def)
next
  case (HealthAnswered k v)
  then obtain e now where w: "map_of (po_waiting p) k = Some (Checking e ctx now)" and h: "health_check v" "c = en_conn e"
    using assms(3) by (auto simp: pool_step_def after_check_def start_open_def
        split: option.splits waiting.splits if_splits prod.splits)
  have "ctx \<in> C" "k = pool_key digest ctx" "(k, en_conn e) \<in> set (po_opened p)"
    using waiting_facts [OF assms(1) w] unfolding waiting_ok_def fst_conv snd_conv waiting.case by blast+
  then show ?thesis using HealthAnswered w h by (simp add: pool_step_def after_check_def resume_def touch_def)
next
  case (ConnectAnswered k ok)
  then obtain now where w: "map_of (po_waiting p) k = Some (Opening ctx now)" and h: "ok" "c = connect ctx (length (po_opened p))"
    using assms(3) by (auto simp: pool_step_def after_open_def Let_def split: option.splits waiting.splits if_splits)
  have "ctx \<in> C" "k = pool_key digest ctx"
    using waiting_facts [OF assms(1) w] unfolding waiting_ok_def fst_conv snd_conv waiting.case by blast+
  then show ?thesis using ConnectAnswered w h by (simp add: pool_step_def after_open_def Let_def resume_def)
next
  case (Release ctx')
  then show ?thesis using assms(3) by (simp add: pool_step_def split: if_splits)
qed

lemma pool_run_facts:
  assumes "pool_ok digest C p" "\<And>ev. ev \<in> set evs \<Longrightarrow> event_contexts ev \<subseteq> C"
  shows "pool_ok digest C (snd (pool_run digest cfg evs p)) \<and>
    (\<forall>(a, p') \<in> set (fst (pool_run digest cfg evs p)). \<forall>ctx c. a = Given ctx c \<longrightarrow>
       ctx \<in> C \<and> made_for digest C (pool_key digest ctx, c))"
  using assms
proof (induction evs arbitrary: p)
  case (Cons ev evs)
  let ?s = "pool_step digest cfg ev p"
  have ok: "pool_ok digest C (snd ?s)" by (rule pool_step_ok) (use Cons.prems in auto)
  have ih: "pool_ok digest C (snd (pool_run digest cfg evs (snd ?s))) \<and>
    (\<forall>(a, p') \<in> set (fst (pool_run digest cfg evs (snd ?s))). \<forall>ctx c. a = Given ctx c \<longrightarrow>
       ctx \<in> C \<and> made_for digest C (pool_key digest ctx, c))"
    by (rule Cons.IH [OF ok]) (use Cons.prems(2) in auto)
  have now: "ctx \<in> C \<and> made_for digest C (pool_key digest ctx, c)" if "fst ?s = Some (Given ctx c)" for ctx c
  proof -
    have "ctx \<in> C \<and> (pool_key digest ctx, c) \<in> set (po_opened (snd ?s))"
      by (rule given_made_for [OF Cons.prems(1) _ that]) (use Cons.prems(2) in auto)
    then show ?thesis using ok by (auto simp: pool_ok_def opened_ok_def)
  qed
  show ?case
    using ih now by (auto simp: Let_def case_prod_beta split: option.splits)
qed simp

lemma close_all_empties: "po_entries (close_all p) = []"
proof -
  have "map_of (po_entries (fold close_key ks p)) k = (if k \<in> set ks then None else map_of (po_entries p) k)" for ks k
    by (induction ks arbitrary: p) (auto simp: pop_key_map_of)
  then have "map_of (po_entries (close_all p)) k = None" for k
    unfolding close_all_def by (auto simp: map_of_eq_None_iff)
  then show ?thesis by (metis map_of_eq_None_iff list.set_intros(1) list.simps(9) neq_Nil_conv set_map)
qed

subsection \<open>How many at once\<close>

definition is_opening :: "pool_key \<times> waiting \<Rightarrow> bool" where
  "is_opening kw = (case snd kw of Opening ctx now \<Rightarrow> True | Checking e ctx now \<Rightarrow> False)"

lemma is_opening_simps [simp]:
  "is_opening (k, Opening ctx now)" "\<not> is_opening (k, Checking e ctx now)"
  by (simp_all add: is_opening_def)

definition openings :: "pool \<Rightarrow> nat" where
  "openings p = count_if is_opening (po_waiting p)"

lemma pop_key_shorter: "length (pop_key k d) \<le> length d"
  by (simp add: pop_key_def)

lemma openings_pop: "count_if is_opening (pop_key k d) \<le> count_if is_opening d"
  by (induction d) (auto simp: pop_key_def)

lemma openings_pop_opening:
  "map_of d k = Some (Opening ctx now) \<Longrightarrow> Suc (count_if is_opening (pop_key k d)) \<le> count_if is_opening d"
proof (induction d)
  case (Cons x d)
  show ?case
  proof (cases "fst x = k")
    case True
    then have "x = (k, Opening ctx now)" "pop_key k (x # d) = pop_key k d"
      using Cons.prems by (cases x; simp add: pop_key_def)+
    then show ?thesis using openings_pop [of k d] by simp
  next
    case False
    then have "map_of d k = Some (Opening ctx now)" "pop_key k (x # d) = x # pop_key k d"
      using Cons.prems by (auto simp: pop_key_def split: if_splits)
    then show ?thesis using Cons.IH by simp
  qed
qed simp

lemma resume_frame [simp]: "po_entries (resume k p) = po_entries p"
  by (simp add: resume_def)

lemma wait_at_frame [simp]: "po_entries (wait_at k w p) = po_entries p"
  by (simp add: wait_at_def)

lemma openings_resume: "openings (resume k p) \<le> openings p"
  by (simp add: openings_def resume_def openings_pop)

lemma openings_touch [simp]: "openings (touch k e p) = openings p"
  by (simp add: openings_def touch_def)

lemma touch_length:
  assumes "distinct (map fst (po_entries p))"
  shows "length (po_entries (touch k e p)) = length (po_entries p)"
proof (cases "map_of (po_entries p) k")
  case (Some e')
  have "length (po_entries p) = Suc (length (pop_key k (po_entries p)))" by (rule pop_key_length [OF assms Some])
  moreover have "k \<in> set (map fst (po_entries p))" using Some by (metis map_of_eq_None_iff option.distinct(1) set_map)
  ultimately show ?thesis unfolding touch_def by (simp only: if_P) simp
next
  case None
  then have "k \<notin> set (map fst (po_entries p))" by (simp add: map_of_eq_None_iff)
  then show ?thesis unfolding touch_def by (simp only: if_not_P if_False)
qed

lemma drop_idle_shorter: "length (po_entries (drop_idle cfg now p)) \<le> length (po_entries p)"
proof -
  have "length (po_entries (fold close_key ks p)) \<le> length (po_entries p)" for ks
  proof (induction ks arbitrary: p)
    case (Cons k ks)
    show ?case using Cons [of "close_key k p"] pop_key_shorter [of k "po_entries p"] by simp
  qed simp
  then show ?thesis by (simp add: drop_idle_def)
qed

lemma make_room_shorter: "length (po_entries (snd (make_room cfg now p))) \<le> length (po_entries p)"
  by (rule make_room_keeps [where I = "\<lambda>q. length (po_entries q) \<le> length (po_entries p)"])
    (auto intro: le_trans [OF pop_key_shorter])

text \<open>A step adds no entry or finds room for the one it will add.\<close>

definition places :: "pool \<Rightarrow> nat" where
  "places p = length (po_entries p) + openings p"

definition roomy :: "pool_config \<Rightarrow> pool \<Rightarrow> pool \<Rightarrow> bool" where
  "roomy cfg p p' \<longleftrightarrow> places p' \<le> places p \<or> length (po_entries p') < pl_max_size cfg"

lemma start_open_roomy:
  assumes "length (po_entries q) \<le> length (po_entries p)" "po_waiting q = po_waiting p"
  shows "roomy cfg p (snd (start_open cfg k ctx now q))"
proof (cases "make_room cfg now q")
  case (Pair r q')
  have q': "length (po_entries q') \<le> length (po_entries q)" "po_waiting q' = po_waiting q"
    using make_room_shorter [of cfg now q] make_room_frame [of cfg now q] Pair by simp_all
  show ?thesis
  proof (cases r)
    case None
    then have "length (po_entries q') < pl_max_size cfg" using make_room_room [of cfg now q] Pair by simp
    then show ?thesis using Pair None by (simp add: start_open_def roomy_def)
  next
    case (Some e)
    have "openings (resume k q') \<le> openings p"
      using openings_resume [of k q'] q'(2) assms(2) by (simp add: openings_def)
    then show ?thesis using Pair Some q'(1) assms(1) by (simp add: start_open_def roomy_def places_def)
  qed
qed

lemma pool_step_roomy:
  assumes "pool_ok digest C p"
  shows "roomy cfg p (snd (pool_step digest cfg ev p))"
proof (cases ev)
  case (Get ctx now)
  let ?k = "pool_key digest ctx" and ?p = "drop_idle cfg now p"
  have d: "distinct (map fst (po_entries ?p))"
    using drop_idle_ok [OF assms] by (simp add: pool_ok_def entries_ok_def)
  have op: "openings ?p = openings p" "length (po_entries ?p) \<le> length (po_entries p)"
    using drop_idle_shorter by (simp_all add: openings_def)
  have "roomy cfg p (touch ?k e ?p)" for e
    using op touch_length [OF d, of ?k e] by (simp add: roomy_def places_def)
  moreover have "roomy cfg p (wait_at ?k (Checking e ctx now) ?p)" for e
    using op openings_pop [of ?k "po_waiting p"]
    by (simp add: roomy_def places_def openings_def wait_at_def)
  moreover have "roomy cfg p (snd (start_open cfg ?k ctx now ?p))"
    by (rule start_open_roomy) (use op in simp_all)
  ultimately show ?thesis
    using Get by (simp add: pool_step_def get_connection_def Let_def roomy_def [of _ p p] split: option.split)
next
  case (HealthAnswered k v)
  have d: "distinct (map fst (po_entries p))" using assms by (simp add: pool_ok_def entries_ok_def)
  have "roomy cfg p (resume k (touch k e p))" for e
    using openings_resume [of k "touch k e p"] touch_length [OF d, of k e]
    by (simp add: roomy_def places_def)
  moreover have "roomy cfg p (snd (start_open cfg k ctx now (close_key k p)))" for ctx now
    by (rule start_open_roomy) (simp_all add: pop_key_shorter)
  ultimately show ?thesis
    using HealthAnswered by (simp add: pool_step_def after_check_def roomy_def [of _ p p] split: option.split waiting.split)
next
  case (ConnectAnswered k ok)
  have "roomy cfg p (snd (after_open k ctx now ok p))" if "map_of (po_waiting p) k = Some (Opening ctx now)" for ctx now
    using openings_pop_opening [OF that] pop_key_shorter [of k "po_entries p"]
    by (simp add: after_open_def Let_def roomy_def places_def openings_def resume_def)
  then show ?thesis
    using ConnectAnswered by (simp add: pool_step_def roomy_def [of _ p p] split: option.split waiting.split)
next
  case (Release ctx)
  then show ?thesis
    using pop_key_shorter [of "pool_key digest ctx" "po_entries p"]
    by (simp add: pool_step_def release_key_def roomy_def places_def openings_def)
qed

text \<open>The pools a run passes through.\<close>

definition pool_after :: "(string \<Rightarrow> string) \<Rightarrow> pool_config \<Rightarrow> pool_event list \<Rightarrow> pool" where
  "pool_after digest cfg evs = snd (pool_run digest cfg evs empty_pool)"

lemma pool_run_fold: "snd (pool_run digest cfg evs p) = fold (\<lambda>ev q. snd (pool_step digest cfg ev q)) evs p"
  by (induction evs arbitrary: p) (simp_all add: Let_def case_prod_beta)

lemma pool_after_snoc:
  "pool_after digest cfg (evs @ [ev]) = snd (pool_step digest cfg ev (pool_after digest cfg evs))"
  by (simp add: pool_after_def pool_run_fold)

interpretation pooling: transition_system "\<lambda>ev p. snd (pool_step digest cfg ev p)" "pool_ok digest UNIV"
  for digest cfg
  by unfold_locales (rule pool_step_ok, simp_all)

lemma pool_after_ok: "pool_ok digest UNIV (pool_after digest cfg evs)"
  unfolding pool_after_def pool_run_fold by (rule pooling.run_inv [OF empty_pool_ok])

subsection \<open>Main properties\<close>

text \<open>C35. Whatever calls interleave, a caller is given a connection to the caller's own address that carries the
  caller's own token, never one opened for somebody else, as long as no two tokens in use have one digest.
\<close>

theorem pool_serves_own_credential:
  assumes "inj_on digest ((\<lambda>ctx. the (map_of (sx_metadata ctx) ''gns3_jwt'')) ` C)"
    and "\<forall>ctx \<in> C. truthy (map_of (sx_metadata ctx) ''gns3_jwt'')"
    and "\<forall>ev \<in> set evs. event_contexts ev \<subseteq> C"
    and "(Given ctx c, p) \<in> set (fst (pool_run digest cfg evs empty_pool))"
  shows "gc_base_url c = sx_environment_url ctx \<and>
    gc_authorization c = Some (''Bearer '' @ the (map_of (sx_metadata ctx) ''gns3_jwt''))"
proof -
  have "ctx \<in> C \<and> made_for digest C (pool_key digest ctx, c)"
    using pool_run_facts [OF empty_pool_ok, of evs C digest cfg] assms(3,4) by blast
  then obtain ctx' where ctx: "ctx \<in> C" "ctx' \<in> C" "pool_key digest ctx = pool_key digest ctx'"
      "c = connect ctx' (gc_object c)"
    by (auto simp: made_for_def)
  have t: "truthy (map_of (sx_metadata ctx) ''gns3_jwt'')" "truthy (map_of (sx_metadata ctx') ''gns3_jwt'')"
    using assms(2) ctx(1,2) by blast+
  then have "digest (the (map_of (sx_metadata ctx) ''gns3_jwt'')) = digest (the (map_of (sx_metadata ctx') ''gns3_jwt''))"
    and u: "sx_environment_url ctx = sx_environment_url ctx'"
    using ctx(3) by (simp_all add: pool_key_def credential_fingerprint_def Let_def)
  then have "the (map_of (sx_metadata ctx) ''gns3_jwt'') = the (map_of (sx_metadata ctx') ''gns3_jwt'')"
    using assms(1) ctx(1,2) by (auto dest: inj_onD)
  moreover have "gc_base_url c = sx_environment_url ctx'"
    "gc_authorization c = Some (''Bearer '' @ the (map_of (sx_metadata ctx') ''gns3_jwt''))"
    using t(2) by (subst ctx(4), simp add: connect_def Let_def)+
  ultimately show ?thesis using u by simp
qed


text \<open>C37. The pool holds at most \<open>max_size\<close> connections while one call at a time opens one; with \<open>c\<close> calls opening
  at once it holds at most \<open>c - 1\<close> more.
\<close>

theorem pool_size_bounded:
  assumes "\<forall>n \<le> length evs. openings (pool_after digest cfg (take n evs)) \<le> c" and "1 \<le> c"
  shows "length (po_entries (pool_after digest cfg evs)) \<le> pl_max_size cfg + (c - 1)"
proof -
  have "places (pool_after digest cfg (take n evs)) \<le> pl_max_size cfg + (c - 1)" if "n \<le> length evs" for n
    using that
  proof (induction n)
    case 0
    then show ?case by (simp add: pool_after_def empty_pool_def places_def openings_def)
  next
    case (Suc n)
    let ?p = "pool_after digest cfg (take n evs)" and ?q = "pool_after digest cfg (take (Suc n) evs)"
    have "?q = snd (pool_step digest cfg (evs ! n) ?p)"
      using Suc.prems by (simp add: take_Suc_conv_app_nth pool_after_snoc)
    then have "roomy cfg ?p ?q" using pool_step_roomy [OF pool_after_ok] by metis
    moreover have "places ?p \<le> pl_max_size cfg + (c - 1)" by (rule Suc.IH) (use Suc.prems in simp)
    moreover have "openings ?q \<le> c" using assms(1) Suc.prems by blast
    ultimately show ?case unfolding roomy_def places_def by linarith
  qed
  from this [of "length evs"] show ?thesis by (simp add: places_def)
qed

subsection \<open>Concrete runs\<close>

definition student :: "string \<Rightarrow> session_context" where
  "student u = \<lparr>sx_user_id = u, sx_session_id = u, sx_environment_url = ''http://gns3'', sx_project_id = Some u,
     sx_metadata = [(''gns3_jwt'', u)]\<rparr>"

definition small_pool :: pool_config where
  "small_pool = \<lparr>pl_max_size = 1, pl_idle_ttl = 600, pl_health_check_interval = 60, pl_min_evict_idle = 30\<rparr>"

definition key_of :: "string \<Rightarrow> pool_key" where
  "key_of u = pool_key (\<lambda>t. t) (student u)"

lemmas pool_computation =
  pool_run.simps pool_step_def get_connection_def after_check_def after_open_def start_open_def Let_def drop_idle_def
  close_key_def pop_key_def touch_def wait_at_def resume_def make_room.simps connect_def pool_key_def
  credential_fingerprint_def student_def key_of_def small_pool_def empty_pool_def health_check_def

lemma pool_serves_own_credential_witness:
  "\<exists>p c. (Given (student ''b'') c, p) \<in> set (fst (pool_run (\<lambda>t. t) small_pool
     [Get (student ''b'') 0, ConnectAnswered (key_of ''b'') True] empty_pool)) \<and>
     gc_base_url c = ''http://gns3'' \<and> gc_authorization c = Some ''Bearer b''"
proof -
  let ?evs = "[Get (student ''b'') 0, ConnectAnswered (key_of ''b'') True]"
  have e: "\<exists>p c. (Given (student ''b'') c, p) \<in> set (fst (pool_run (\<lambda>t. t) small_pool ?evs empty_pool))"
    by (simp add: pool_computation)
  then obtain p c where g: "(Given (student ''b'') c, p) \<in> set (fst (pool_run (\<lambda>t. t) small_pool ?evs empty_pool))"
    by blast
  have "gc_base_url c = sx_environment_url (student ''b'') \<and>
      gc_authorization c = Some (''Bearer '' @ the (map_of (sx_metadata (student ''b'')) ''gns3_jwt''))"
    by (rule pool_serves_own_credential [where C = "{student ''b''}" and evs = ?evs and digest = "\<lambda>t. t"
          and cfg = small_pool and p = p])
      (use g in \<open>simp_all add: student_def\<close>)
  then have "gc_base_url c = ''http://gns3'' \<and> gc_authorization c = Some ''Bearer b''" by (simp add: student_def)
  with g show ?thesis by blast
qed

lemma pool_size_bounded_witness:
  "length (po_entries (pool_after (\<lambda>t. t) small_pool [Get (student ''b'') 0, ConnectAnswered (key_of ''b'') True])) \<le> 1"
proof -
  let ?evs = "[Get (student ''b'') 0, ConnectAnswered (key_of ''b'') True]"
  have "openings (pool_after (\<lambda>t. t) small_pool (take n ?evs)) \<le> 1" if "n \<le> length ?evs" for n
  proof -
    from that consider "n = 0" | "n = 1" | "n = 2" by force
    then show ?thesis
      by cases (simp_all add: pool_after_def openings_def pool_computation numeral_2_eq_2)
  qed
  then show ?thesis
    using pool_size_bounded [of ?evs "\<lambda>t. t" small_pool 1] by (simp add: small_pool_def)
qed

text \<open>
  The room is checked before the connection is awaited, so two calls that open at once both find the one
  place free.
\<close>

lemma pool_overshoots:
  "length (po_entries (pool_after (\<lambda>t. t) small_pool
     [Get (student ''a'') 0, Get (student ''b'') 0, ConnectAnswered (key_of ''a'') True,
      ConnectAnswered (key_of ''b'') True])) = 2"
  by (simp add: pool_after_def pool_computation)

text \<open>
  While a caller's old connection is being checked another student's call may evict it as the least recently
  used one; the check succeeds and the caller is given a connection that has been closed.
\<close>

lemma evicted_connection_handed_out:
  "case last (fst (pool_run (\<lambda>t. t) small_pool
     [Get (student ''a'') 0, ConnectAnswered (key_of ''a'') True, Get (student ''a'') 100, Get (student ''b'') 100,
      HealthAnswered (key_of ''a'') (Inr [''version''])] empty_pool)) of
     (Given ctx c, p) \<Rightarrow> ctx = student ''a'' \<and> c \<in> set (po_disconnected p)
   | (Failed ctx e, p) \<Rightarrow> False"
  by (simp add: pool_computation)

end
