(* ===== verification/Mcp_Server.thy ===== *)
theory Mcp_Server
  imports Mcp_Pool Collector Criterion
begin

text \<open>
  The MCP server of the GNS3 labs (\<open>gns3-mcp/src/\<close>): its REST client (\<open>api_client.py\<close>), the protocols it
  implements (\<open>server.py\<close>, \<open>mappers.py\<close>), the buffers of log messages (\<open>log_buffer.py\<close>), its tools
  (\<open>domain_tools.py\<close>) and the one place where exceptions become MCP errors (\<open>mcp_sdk/server.py\<close>).  The HTTP
  transport is a parameter, and so is \<open>fmt\<close>, Python's \<open>str\<close> of a JSON value.
\<close>

subsection \<open>Errors\<close>

datatype mcp_error =
    TargetSystemConnectionError string
  | TargetSystemAPIError nat string
  | ComponentNotFoundError string
  | ActionExecutionError string string
  | SessionContextError string
  | MCPServerError string

datatype exn = Validation string | Mcp mcp_error | Unexpected string

text \<open>What \<open>str\<close> makes of an exception.\<close>

fun show_nat :: "(json \<Rightarrow> string) \<Rightarrow> nat \<Rightarrow> string" where
  "show_nat fmt n = fmt (JInt (int n))"

fun mcp_text :: "(json \<Rightarrow> string) \<Rightarrow> mcp_error \<Rightarrow> string" where
  "mcp_text fmt (TargetSystemConnectionError e) = e"
| "mcp_text fmt (TargetSystemAPIError code body) = ''Target system API error: '' @ show_nat fmt code"
| "mcp_text fmt (ComponentNotFoundError i) = ''Component not found: '' @ i"
| "mcp_text fmt (ActionExecutionError a r) = ''Action '' @ [CHR 39] @ a @ [CHR 39] @ '' failed: '' @ r"
| "mcp_text fmt (SessionContextError e) = e"
| "mcp_text fmt (MCPServerError e) = e"

fun exn_text :: "(json \<Rightarrow> string) \<Rightarrow> exn \<Rightarrow> string" where
  "exn_text fmt (Validation e) = e"
| "exn_text fmt (Mcp e) = mcp_text fmt e"
| "exn_text fmt (Unexpected e) = e"

text \<open>\<open>_tool_errors\<close>: what leaves a tool of the SDK.\<close>

fun tool_errors :: "exn + 'a \<Rightarrow> mcp_error + 'a" where
  "tool_errors (Inr x) = Inr x"
| "tool_errors (Inl (Validation e)) = Inl (SessionContextError (''Invalid session context: '' @ e))"
| "tool_errors (Inl (Mcp e)) = Inl e"
| "tool_errors (Inl (Unexpected e)) = Inl (MCPServerError ''Internal server error'')"

subsection \<open>Requests\<close>

datatype verb = VGet | VPost | VPut | VDelete

datatype transport_error = NoConnection string | OtherFailure string

text \<open>A request answers a failure, or a status with the text and the JSON of its body.\<close>

type_synonym 'g transport =
  "verb \<Rightarrow> string \<Rightarrow> json option \<Rightarrow> 'g \<Rightarrow> (transport_error + nat \<times> string \<times> json) \<times> 'g"

type_synonym ('g, 'a) api = "'g \<Rightarrow> (exn + 'a) \<times> 'g"

definition request :: "'g transport \<Rightarrow> verb \<times> string \<times> json option \<Rightarrow> ('g, json) api" where
  "request http r g =
     (case r of (m, path, body) \<Rightarrow>
      case http m path body g of
        (Inl (NoConnection e), g1) \<Rightarrow> (Inl (Mcp (TargetSystemConnectionError e)), g1)
      | (Inl (OtherFailure e), g1) \<Rightarrow> (Inl (Unexpected e), g1)
      | (Inr (code, text, v), g1) \<Rightarrow>
          (if 400 \<le> code then Inl (Mcp (TargetSystemAPIError code text))
           else if code = 204 then Inr JNull else Inr v, g1))"

definition bind_api :: "('g, 'a) api \<Rightarrow> ('a \<Rightarrow> ('g, 'b) api) \<Rightarrow> ('g, 'b) api" where
  "bind_api m f g = (case m g of (Inl e, g1) \<Rightarrow> (Inl e, g1) | (Inr x, g1) \<Rightarrow> f x g1)"

definition yields_value :: "exn + 'a \<Rightarrow> ('g, 'a) api" where
  "yields_value r g = (r, g)"

definition in_project :: "string \<Rightarrow> string \<Rightarrow> string" where
  "in_project pid rest = ''/v3/projects/'' @ pid @ rest"

definition no_body :: "json option" where "no_body = None"
definition empty_body :: "json option" where "empty_body = Some (JObj [])"

text \<open>The methods of \<open>GNS3ApiClient\<close> by name, with the arguments that follow the project.\<close>

definition NODE_CALLS :: "(string \<times> string) list" where
  "NODE_CALLS = [(''start_node'', ''start''), (''stop_node'', ''stop''), (''reload_node'', ''reload''),
     (''suspend_node'', ''suspend''), (''isolate_node'', ''isolate''), (''unisolate_node'', ''unisolate'')]"

definition PROJECT_CALLS :: "(string \<times> string) list" where
  "PROJECT_CALLS = [(''open_project'', ''/open''), (''close_project'', ''/close''), (''lock_project'', ''/lock''),
     (''unlock_project'', ''/unlock''), (''duplicate_project'', ''/duplicate'')]"

fun api_method :: "(json \<Rightarrow> string) \<Rightarrow> string \<Rightarrow> string \<Rightarrow> json list \<Rightarrow> (verb \<times> string \<times> json option) option" where
  "api_method fmt name pid [] =
     (case map_of PROJECT_CALLS name of
        Some op \<Rightarrow> Some (VPost, in_project pid op, no_body)
      | None \<Rightarrow>
          if name = ''get_project'' then Some (VGet, in_project pid [], no_body)
          else if name = ''list_nodes'' then Some (VGet, in_project pid ''/nodes'', no_body)
          else if name = ''list_links'' then Some (VGet, in_project pid ''/links'', no_body)
          else if name = ''list_snapshots'' then Some (VGet, in_project pid ''/snapshots'', no_body)
          else if name = ''start_all_nodes'' then Some (VPost, in_project pid ''/nodes/start'', empty_body)
          else if name = ''stop_all_nodes'' then Some (VPost, in_project pid ''/nodes/stop'', empty_body)
          else None)"
| "api_method fmt name pid [a] =
     (case map_of NODE_CALLS name of
        Some op \<Rightarrow> Some (VPost, in_project pid (''/nodes/'' @ fmt a @ ''/'' @ op), empty_body)
      | None \<Rightarrow>
          if name = ''get_node'' then Some (VGet, in_project pid (''/nodes/'' @ fmt a), no_body)
          else if name = ''reset_console''
          then Some (VPost, in_project pid (''/nodes/'' @ fmt a @ ''/console/reset''), no_body)
          else if name = ''create_link'' then Some (VPost, in_project pid ''/links'', Some (JObj [(''nodes'', a)]))
          else if name = ''delete_link'' then Some (VDelete, in_project pid (''/links/'' @ fmt a), no_body)
          else if name = ''start_capture''
          then Some (VPost, in_project pid (''/links/'' @ fmt a @ ''/capture/start''), no_body)
          else if name = ''stop_capture''
          then Some (VPost, in_project pid (''/links/'' @ fmt a @ ''/capture/stop''), no_body)
          else if name = ''create_snapshot''
          then Some (VPost, in_project pid ''/snapshots'', Some (JObj [(''name'', a)]))
          else if name = ''restore_snapshot''
          then Some (VPost, in_project pid (''/snapshots/'' @ fmt a @ ''/restore''), no_body)
          else None)"
| "api_method fmt name pid [a, b] =
     (if name = ''set_link_filter''
      then Some (VPut, in_project pid (''/links/'' @ fmt a), Some (JObj [(''filters'', b)])) else None)"
| "api_method fmt name pid [a, b, c] =
     (if name = ''create_node_from_template''
      then Some (VPost, in_project pid (''/templates/'' @ fmt a), Some (JObj [(''x'', b), (''y'', c)])) else None)"
| "api_method fmt name pid _ = None"

definition call_method :: "(json \<Rightarrow> string) \<Rightarrow> 'g transport \<Rightarrow> string \<Rightarrow> string \<Rightarrow> json list \<Rightarrow> ('g, json) api" where
  "call_method fmt http name pid args =
     (case api_method fmt name pid args of
        None \<Rightarrow> yields_value (Inl (Unexpected name))
      | Some r \<Rightarrow> request http r)"

definition get_version :: "'g transport \<Rightarrow> ('g, json) api" where
  "get_version http = request http (VGet, ''/v3/version'', no_body)"

definition list_templates :: "'g transport \<Rightarrow> ('g, json) api" where
  "list_templates http = request http (VGet, ''/v3/templates'', no_body)"

subsection \<open>Components\<close>

record component =
  cv_id :: string
  cv_name :: string
  cv_type :: string
  cv_status :: string
  cv_summary :: string

record component_detail = component +
  cv_properties :: "(string \<times> json) list"
  cv_relationships :: "string list"

text \<open>\<open>d[k]\<close>, \<open>d.get(k, default)\<close>, and a value that must be a string.\<close>

definition item :: "string \<Rightarrow> json \<Rightarrow> exn + json" where
  "item k j =
     (case j of
        JObj d \<Rightarrow> (case map_of d k of None \<Rightarrow> Inl (Unexpected k) | Some v \<Rightarrow> Inr v)
      | _ \<Rightarrow> Inl (Unexpected k))"

definition item_or :: "string \<Rightarrow> json \<Rightarrow> json \<Rightarrow> json" where
  "item_or k d0 j =
     (case j of JObj d \<Rightarrow> (case map_of d k of None \<Rightarrow> d0 | Some v \<Rightarrow> v) | _ \<Rightarrow> d0)"

definition bind_exn :: "exn + 'a \<Rightarrow> ('a \<Rightarrow> exn + 'b) \<Rightarrow> exn + 'b" where
  "bind_exn r f = (case r of Inl e \<Rightarrow> Inl e | Inr x \<Rightarrow> f x)"

fun map_exn :: "('a \<Rightarrow> exn + 'b) \<Rightarrow> 'a list \<Rightarrow> exn + 'b list" where
  "map_exn f [] = Inr []"
| "map_exn f (x # xs) = bind_exn (f x) (\<lambda>y. bind_exn (map_exn f xs) (\<lambda>ys. Inr (y # ys)))"

definition elements :: "json \<Rightarrow> exn + json list" where
  "elements j = (case j of JList xs \<Rightarrow> Inr xs | _ \<Rightarrow> Inl (Unexpected ''not a list''))"

definition as_string :: "json \<Rightarrow> exn + string" where
  "as_string v = (case v of JStr s \<Rightarrow> Inr s | _ \<Rightarrow> Inl (Validation ''not a string''))"

definition as_bool :: "json \<Rightarrow> bool" where
  "as_bool v = (case v of JNull \<Rightarrow> False | JBool b \<Rightarrow> b | JInt i \<Rightarrow> i \<noteq> 0 | JFloat f \<Rightarrow> f \<noteq> ''0.0''
     | JStr s \<Rightarrow> s \<noteq> [] | JList xs \<Rightarrow> xs \<noteq> [] | JObj d \<Rightarrow> d \<noteq> [])"

text \<open>Every key is read before the values are validated.\<close>

definition node_to_component :: "json \<Rightarrow> exn + component" where
  "node_to_component node =
     bind_exn (map_exn (\<lambda>k. item k node) [''node_id'', ''name'', ''node_type'', ''status'']) (\<lambda>vs.
     bind_exn (map_exn as_string vs) (\<lambda>ss. case ss of
         [i, n, t, s] \<Rightarrow> Inr \<lparr>cv_id = i, cv_name = n, cv_type = t, cv_status = s,
           cv_summary = t @ '' '' @ n @ '' ('' @ s @ '')''\<rparr>
       | _ \<Rightarrow> Inl (Validation [])))"

definition detail_of :: "component \<Rightarrow> (string \<times> json) list \<Rightarrow> json list \<Rightarrow> exn + component_detail" where
  "detail_of c properties relationships =
     bind_exn (map_exn as_string relationships) (\<lambda>rs. Inr
       \<lparr>cv_id = cv_id c, cv_name = cv_name c, cv_type = cv_type c, cv_status = cv_status c,
        cv_summary = cv_summary c, cv_properties = properties, cv_relationships = rs\<rparr>)"

definition node_to_component_detail :: "json \<Rightarrow> json list \<Rightarrow> exn + component_detail" where
  "node_to_component_detail node peers =
     bind_exn (node_to_component node) (\<lambda>c. detail_of c
       (map (\<lambda>(k, d). (k, item_or k d node))
          [(''console'', JNull), (''console_type'', JNull), (''console_host'', JNull), (''ports'', JList []),
           (''compute_id'', JNull)]) peers)"

text \<open>The ends of a link, each with the name of its node and its port.\<close>

definition end_name :: "(json \<Rightarrow> string) \<Rightarrow> (json \<times> json) list \<Rightarrow> json \<Rightarrow> exn + string" where
  "end_name fmt names e =
     bind_exn (item ''node_id'' e) (\<lambda>i. Inr (fmt (case map_of names i of None \<Rightarrow> i | Some n \<Rightarrow> n)))"

definition end_port :: "(json \<Rightarrow> string) \<Rightarrow> json \<Rightarrow> exn + string" where
  "end_port fmt e =
     bind_exn (item ''adapter_number'' e) (\<lambda>a. bind_exn (item ''port_number'' e) (\<lambda>p. Inr (fmt a @ ''/'' @ fmt p)))"

definition link_to_component :: "(json \<Rightarrow> string) \<Rightarrow> json \<Rightarrow> (json \<times> json) list \<Rightarrow> exn + component" where
  "link_to_component fmt link names =
     bind_exn (bind_exn (item ''nodes'' link) elements) (\<lambda>nodes.
     bind_exn (case nodes of
          a # b # _ \<Rightarrow>
            bind_exn (end_name fmt names a) (\<lambda>an. bind_exn (end_name fmt names b) (\<lambda>bn.
            bind_exn (end_port fmt a) (\<lambda>ap. bind_exn (end_port fmt b) (\<lambda>bp.
              Inr (an @ '':'' @ ap @ '' <-> '' @ bn @ '':'' @ bp, ''Link between '' @ an @ '' and '' @ bn)))))
        | _ \<Rightarrow> bind_exn (item ''link_id'' link) (\<lambda>i. Inr (''link-'' @ fmt i, ''Partial link''))) (\<lambda>(name, summary).
     bind_exn (bind_exn (item ''link_id'' link) as_string) (\<lambda>i.
       Inr \<lparr>cv_id = i, cv_name = name, cv_type = ''link'',
            cv_status = (if as_bool (item_or ''capturing'' JNull link) then ''capturing'' else ''active''),
            cv_summary = summary\<rparr>)))"

definition link_to_component_detail ::
  "(json \<Rightarrow> string) \<Rightarrow> json \<Rightarrow> (json \<times> json) list \<Rightarrow> exn + component_detail" where
  "link_to_component_detail fmt link names =
     bind_exn (link_to_component fmt link names) (\<lambda>c.
     bind_exn (bind_exn (item ''nodes'' link) elements) (\<lambda>nodes.
     bind_exn (map_exn (item ''node_id'') nodes) (\<lambda>ends.
       detail_of c [(''nodes'', JList nodes), (''filters'', item_or ''filters'' (JObj []) link),
          (''link_type'', item_or ''link_type'' JNull link), (''capturing'', item_or ''capturing'' (JBool False) link)]
         ends)))"

text \<open>\<open>{id: name}\<close>; the last of two equal ids wins.\<close>

definition node_names :: "json list \<Rightarrow> exn + (json \<times> json) list" where
  "node_names nodes =
     bind_exn (map_exn (\<lambda>n. bind_exn (item ''node_id'' n) (\<lambda>i. bind_exn (item ''name'' n) (\<lambda>m. Inr (i, m)))) nodes)
       (\<lambda>ps. Inr (rev ps))"

record system_overview =
  sv_version :: json
  sv_component_count :: nat
  sv_by_type :: "(json \<times> nat) list"
  sv_by_status :: "(json \<times> nat) list"
  sv_summary :: string

definition counter :: "json list \<Rightarrow> (json \<times> nat) list" where
  "counter xs = map (\<lambda>k. (k, count_if (\<lambda>x. x = k) xs)) (first_occurrences xs)"

definition build_system_overview ::
  "(json \<Rightarrow> string) \<Rightarrow> json list \<Rightarrow> json list \<Rightarrow> json \<Rightarrow> string \<Rightarrow> exn + system_overview" where
  "build_system_overview fmt nodes links version project_name =
     bind_exn (map_exn (item ''node_type'') nodes) (\<lambda>types. bind_exn (map_exn (item ''status'') nodes) (\<lambda>sts.
       Inr \<lparr>sv_version = item_or ''version'' JNull version, sv_component_count = length nodes + length links,
         sv_by_type = dict_set (JStr ''link'') (length links) (counter types),
         sv_by_status = counter (sts @ map (\<lambda>l. JStr (if as_bool (item_or ''capturing'' JNull l) then ''capturing''
           else ''active'')) links),
         sv_summary = ''Project '' @ [CHR 39] @ project_name @ [CHR 39] @ '': '' @ show_nat fmt (length nodes) @
           '' nodes, '' @ show_nat fmt (length links) @ '' links''\<rparr>))"

subsection \<open>Log buffers\<close>

text \<open>A \<open>deque\<close> of at most \<open>max_entries\<close>, and whether the listener runs.\<close>

record log_buffer =
  lb_entries :: "log_entry list"
  lb_listening :: bool

definition new_buffer :: log_buffer where
  "new_buffer = \<lparr>lb_entries = [], lb_listening = False\<rparr>"

definition keep_last :: "nat \<Rightarrow> 'a list \<Rightarrow> 'a list" where
  "keep_last n xs = drop (length xs - n) xs"

definition add_entry :: "nat \<Rightarrow> time \<Rightarrow> LogLevel \<Rightarrow> string \<Rightarrow> log_buffer \<Rightarrow> log_buffer" where
  "add_entry max_entries now level message b =
     b\<lparr>lb_entries := keep_last max_entries (lb_entries b @
        [\<lparr>le_timestamp = now, le_level = level, le_source = ''gns3'', le_message = message\<rparr>])\<rparr>"

definition ensure_connected :: "log_buffer \<Rightarrow> log_buffer" where
  "ensure_connected b = b\<lparr>lb_listening := True\<rparr>"

text \<open>
  One message of the socket; one that is not JSON is skipped, one that is no object or whose text is no
  string ends the listener.
\<close>

definition level_of :: "json \<Rightarrow> LogLevel option" where
  "level_of event =
     (if event = JStr ''log.error'' then Some ERROR
      else if event = JStr ''log.warning'' then Some WARNING
      else if event = JStr ''log.info'' then Some INFO else None)"

definition hear :: "nat \<Rightarrow> time \<Rightarrow> json option \<Rightarrow> log_buffer \<Rightarrow> log_buffer" where
  "hear max_entries now raw b =
     (if \<not> lb_listening b then b
      else case raw of
          None \<Rightarrow> b
        | Some (JObj d) \<Rightarrow>
            (case level_of (item_or ''event'' (JStr []) (JObj d)) of
               None \<Rightarrow> b
             | Some level \<Rightarrow>
                 (case item_or ''message'' (JStr []) (JObj d) of
                    JStr s \<Rightarrow> add_entry max_entries now level s b
                  | _ \<Rightarrow> b\<lparr>lb_listening := False\<rparr>))
        | Some _ \<Rightarrow> b\<lparr>lb_listening := False\<rparr>)"

definition get_errors :: "time option \<Rightarrow> log_buffer \<Rightarrow> error_entry list" where
  "get_errors since b =
     map (\<lambda>e. \<lparr>ee_timestamp = le_timestamp e, ee_level = le_level e, ee_component_id = None,
                ee_message = le_message e, ee_details = None\<rparr>)
       (filter (\<lambda>e. (le_level e = ERROR \<or> le_level e = WARNING) \<and>
                   (case since of None \<Rightarrow> True | Some t \<Rightarrow> t \<le> le_timestamp e)) (lb_entries b))"

text \<open>\<open>entries[-limit:]\<close>: with a limit of zero that is everything.\<close>

definition from_minus :: "int \<Rightarrow> 'a list \<Rightarrow> 'a list" where
  "from_minus limit xs = (if 0 < limit then keep_last (nat limit) xs else drop (nat (- limit)) xs)"

definition get_logs :: "LogLevel \<Rightarrow> int \<Rightarrow> log_buffer \<Rightarrow> log_entry list" where
  "get_logs level limit b =
     from_minus limit (if level = ALL_LEVELS then lb_entries b else filter (\<lambda>e. le_level e = level) (lb_entries b))"

definition close_buffer :: "log_buffer \<Rightarrow> log_buffer" where
  "close_buffer b = \<lparr>lb_entries = [], lb_listening = False\<rparr>"

subsection \<open>The server\<close>

text \<open>\<open>_project_id\<close>, \<open>_resolve_api\<close>; the pool's answer is an argument.\<close>

definition project_id_of :: "session_context \<Rightarrow> exn + string" where
  "project_id_of ctx =
     (if truthy (sx_project_id ctx) then Inr (the (sx_project_id ctx))
      else Inl (Mcp (SessionContextError ''project_id is required in SessionContext'')))"

definition resolve_api :: "'c option \<Rightarrow> (exn + 'c) option \<Rightarrow> exn + 'c" where
  "resolve_api api pooled =
     (case api of
        Some c \<Rightarrow> Inr c
      | None \<Rightarrow> (case pooled of
          Some r \<Rightarrow> r
        | None \<Rightarrow> Inl (Mcp (SessionContextError ''No api_client or pool configured''))))"

definition list_of :: "(json \<Rightarrow> string) \<Rightarrow> 'g transport \<Rightarrow> string \<Rightarrow> string \<Rightarrow> ('g, json list) api" where
  "list_of fmt http name pid = bind_api (call_method fmt http name pid []) (\<lambda>v. yields_value (elements v))"

definition list_components ::
  "(json \<Rightarrow> string) \<Rightarrow> exn + 'g transport \<Rightarrow> session_context \<Rightarrow> ('g, component list) api" where
  "list_components fmt api ctx =
     bind_api (yields_value (project_id_of ctx)) (\<lambda>pid. bind_api (yields_value api) (\<lambda>http.
     bind_api (list_of fmt http ''list_nodes'' pid) (\<lambda>nodes. bind_api (list_of fmt http ''list_links'' pid) (\<lambda>ls.
       yields_value (bind_exn (node_names nodes) (\<lambda>names.
         bind_exn (map_exn node_to_component nodes) (\<lambda>ns.
         bind_exn (map_exn (\<lambda>l. link_to_component fmt l names) ls) (\<lambda>lcs. Inr (ns @ lcs)))))))))"

text \<open>The other ends of the links a node is on.\<close>

definition peers_of :: "string \<Rightarrow> json list \<Rightarrow> exn + json list" where
  "peers_of component_id ls =
     bind_exn (map_exn (\<lambda>l. bind_exn (bind_exn (item ''nodes'' l) elements) (map_exn (item ''node_id''))) ls) (\<lambda>ids.
       Inr (concat (map (\<lambda>is. if JStr component_id \<in> set is then filter (\<lambda>i. i \<noteq> JStr component_id) is else []) ids)))"

fun find_link :: "string \<Rightarrow> json list \<Rightarrow> exn + json option" where
  "find_link component_id [] = Inr None"
| "find_link component_id (l # ls) =
     bind_exn (item ''link_id'' l) (\<lambda>i. if i = JStr component_id then Inr (Some l) else find_link component_id ls)"

definition get_component ::
  "(json \<Rightarrow> string) \<Rightarrow> exn + 'g transport \<Rightarrow> session_context \<Rightarrow> string \<Rightarrow> ('g, component_detail) api" where
  "get_component fmt api ctx component_id =
     bind_api (yields_value (project_id_of ctx)) (\<lambda>pid. bind_api (yields_value api) (\<lambda>http g.
       let as_link = bind_api (list_of fmt http ''list_links'' pid) (\<lambda>ls.
             bind_api (list_of fmt http ''list_nodes'' pid) (\<lambda>nodes.
             yields_value (bind_exn (node_names nodes) (\<lambda>names. bind_exn (find_link component_id ls) (\<lambda>r. case r of
                 Some l \<Rightarrow> link_to_component_detail fmt l names
               | None \<Rightarrow> Inl (Mcp (ComponentNotFoundError component_id)))))))
       in case bind_api (call_method fmt http ''get_node'' pid [JStr component_id]) (\<lambda>node.
                bind_api (list_of fmt http ''list_links'' pid) (\<lambda>ls.
                yields_value (bind_exn (peers_of component_id ls) (\<lambda>peers. node_to_component_detail node peers)))) g of
            (Inl (Mcp (TargetSystemAPIError code body)), g1) \<Rightarrow> as_link g1
          | r \<Rightarrow> r))"

definition get_system_overview ::
  "(json \<Rightarrow> string) \<Rightarrow> exn + 'g transport \<Rightarrow> session_context \<Rightarrow> ('g, system_overview) api" where
  "get_system_overview fmt api ctx =
     bind_api (yields_value (project_id_of ctx)) (\<lambda>pid. bind_api (yields_value api) (\<lambda>http.
     bind_api (list_of fmt http ''list_nodes'' pid) (\<lambda>nodes. bind_api (list_of fmt http ''list_links'' pid) (\<lambda>ls.
     bind_api (get_version http) (\<lambda>version. bind_api (call_method fmt http ''get_project'' pid []) (\<lambda>project.
       yields_value (build_system_overview fmt nodes ls version (fmt (item_or ''name'' (JStr pid) project)))))))))"

subsection \<open>Logs of a caller\<close>

text \<open>One buffer per user and project.\<close>

type_synonym buffers = "string \<times> string \<rightharpoonup> log_buffer"

definition ensure_log_buffer :: "session_context \<Rightarrow> buffers \<Rightarrow> (exn + string \<times> string) \<times> buffers" where
  "ensure_log_buffer ctx bs =
     (case project_id_of ctx of
        Inl e \<Rightarrow> (Inl e, bs)
      | Inr pid \<Rightarrow>
          (let k = (sx_user_id ctx, pid); b = (case bs k of None \<Rightarrow> new_buffer | Some b \<Rightarrow> b)
           in (Inr k, bs(k \<mapsto> ensure_connected b))))"

definition list_errors :: "session_context \<Rightarrow> time option \<Rightarrow> buffers \<Rightarrow> (exn + error_entry list) \<times> buffers" where
  "list_errors ctx since bs =
     (case ensure_log_buffer ctx bs of
        (Inl e, bs1) \<Rightarrow> (Inl e, bs1)
      | (Inr k, bs1) \<Rightarrow> (Inr (get_errors since (the (bs1 k))), bs1))"

definition logs_of :: "session_context \<Rightarrow> LogLevel \<Rightarrow> int \<Rightarrow> buffers \<Rightarrow> (exn + log_entry list) \<times> buffers" where
  "logs_of ctx level limit bs =
     (case ensure_log_buffer ctx bs of
        (Inl e, bs1) \<Rightarrow> (Inl e, bs1)
      | (Inr k, bs1) \<Rightarrow> (Inr (get_logs level limit (the (bs1 k))), bs1))"

text \<open>A message on the socket of one buffer, or a question of a caller.\<close>

datatype log_event =
    Heard "string \<times> string" time "json option"
  | AsksErrors session_context "time option"
  | AsksLogs session_context LogLevel int

definition log_step :: "nat \<Rightarrow> log_event \<Rightarrow> buffers \<Rightarrow> buffers" where
  "log_step max_entries ev bs =
     (case ev of
        Heard k now raw \<Rightarrow> (case bs k of None \<Rightarrow> bs | Some b \<Rightarrow> bs(k \<mapsto> hear max_entries now raw b))
      | AsksErrors ctx since \<Rightarrow> snd (list_errors ctx since bs)
      | AsksLogs ctx level limit \<Rightarrow> snd (logs_of ctx level limit bs))"

subsection \<open>Actions\<close>

record action_spec =
  as_name :: string
  as_description :: string
  as_parameters :: "(string \<times> string) list"
  as_types :: "string list"

definition an_action :: "string \<Rightarrow> string \<Rightarrow> (string \<times> string) list \<Rightarrow> string list \<Rightarrow> action_spec" where
  "an_action n d ps ts = \<lparr>as_name = n, as_description = d, as_parameters = ps, as_types = ts\<rparr>"

definition NODE_TYPES :: "string list" where
  "NODE_TYPES = [''vpcs'', ''qemu'', ''dynamips'', ''docker'']"

definition ACTIONS :: "action_spec list" where
  "ACTIONS = [
     an_action ''start_all_nodes'' ''Start all nodes'' [] [],
     an_action ''stop_all_nodes'' ''Stop all nodes'' [] [],
     an_action ''start_node'' ''Start a node'' [(''node_id'', ''string'')] NODE_TYPES,
     an_action ''stop_node'' ''Stop a node'' [(''node_id'', ''string'')] NODE_TYPES,
     an_action ''reload_node'' ''Reload a node'' [(''node_id'', ''string'')] NODE_TYPES,
     an_action ''suspend_node'' ''Suspend a node'' [(''node_id'', ''string'')] NODE_TYPES,
     an_action ''isolate_node'' ''Disable all node links'' [(''node_id'', ''string'')] NODE_TYPES,
     an_action ''unisolate_node'' ''Restore node links'' [(''node_id'', ''string'')] NODE_TYPES,
     an_action ''create_link'' ''Create a link'' [(''nodes'', ''array'')] [''link''],
     an_action ''delete_link'' ''Delete a link'' [(''link_id'', ''string'')] [''link''],
     an_action ''start_capture'' ''Start packet capture'' [(''link_id'', ''string'')] [''link''],
     an_action ''stop_capture'' ''Stop packet capture'' [(''link_id'', ''string'')] [''link''],
     an_action ''set_link_filter'' ''Set filters'' [(''link_id'', ''string''), (''filters'', ''object'')] [''link''],
     an_action ''open_project'' ''Open the project'' [] [],
     an_action ''close_project'' ''Close the project'' [] [],
     an_action ''create_snapshot'' ''Save state'' [(''name'', ''string'')] [],
     an_action ''restore_snapshot'' ''Restore state'' [(''snapshot_id'', ''string'')] []]"

definition list_available_actions ::
  "(json \<Rightarrow> string) \<Rightarrow> exn + 'g transport \<Rightarrow> session_context \<Rightarrow> string option \<Rightarrow> 'g \<Rightarrow> action_spec list \<times> 'g" where
  "list_available_actions fmt api ctx component_id g =
     (if truthy component_id
      then case get_component fmt api ctx (the component_id) g of (r, g1) \<Rightarrow>
        (let comp_type = (case r of Inl e \<Rightarrow> None | Inr d \<Rightarrow> Some (cv_type d))
         in (filter (\<lambda>a. as_types a = [] \<or> truthy comp_type \<and> the comp_type \<in> set (as_types a)) ACTIONS, g1))
      else (ACTIONS, g))"

text \<open>The branches of \<open>execute_action\<close>: the parameters each reads before its request.\<close>

definition ACTION_ARMS :: "(string \<times> string list) list" where
  "ACTION_ARMS = [
     (''start_node'', [''node_id'']),
     (''stop_node'', [''node_id'']),
     (''reload_node'', [''node_id'']),
     (''suspend_node'', [''node_id'']),
     (''isolate_node'', [''node_id'']),
     (''unisolate_node'', [''node_id'']),
     (''start_all_nodes'', []),
     (''stop_all_nodes'', []),
     (''create_link'', [''nodes'']),
     (''delete_link'', [''link_id'']),
     (''start_capture'', [''link_id'']),
     (''stop_capture'', [''link_id'']),
     (''set_link_filter'', [''link_id'', ''filters'']),
     (''open_project'', []),
     (''close_project'', []),
     (''create_snapshot'', [''name'']),
     (''restore_snapshot'', [''snapshot_id''])]"

definition action_params :: "string \<Rightarrow> string list option" where
  "action_params name = map_of ACTION_ARMS name"

definition missing_parameter :: "string \<Rightarrow> exn" where
  "missing_parameter k = Unexpected (''Missing parameter: '' @ [CHR 39] @ k @ [CHR 39])"

fun read_params :: "(string \<times> json) list \<Rightarrow> string list \<Rightarrow> exn + json list" where
  "read_params params [] = Inr []"
| "read_params params (k # ks) =
     (case map_of params k of
        None \<Rightarrow> Inl (missing_parameter k)
      | Some v \<Rightarrow> bind_exn (read_params params ks) (\<lambda>vs. Inr (v # vs)))"

definition execute_action ::
  "(json \<Rightarrow> string) \<Rightarrow> exn + 'g transport \<Rightarrow> session_context \<Rightarrow> string \<Rightarrow> (string \<times> json) list \<Rightarrow> ('g, string) api" where
  "execute_action fmt api ctx action_name params =
     bind_api (yields_value (project_id_of ctx)) (\<lambda>pid. bind_api (yields_value api) (\<lambda>http g.
       case action_params action_name of
         None \<Rightarrow> (Inl (Mcp (ActionExecutionError action_name (''Unknown action: '' @ action_name))), g)
       | Some ks \<Rightarrow>
           (case bind_api (yields_value (read_params params ks)) (call_method fmt http action_name pid) g of
              (Inl e, g1) \<Rightarrow> (Inl (Mcp (ActionExecutionError action_name (exn_text fmt e))), g1)
            | (Inr v, g1) \<Rightarrow>
                (Inr (''Action '' @ [CHR 39] @ action_name @ [CHR 39] @ '' executed successfully''), g1))))"

subsection \<open>Tools of the domain\<close>

datatype piece = Lit string | Arg string

record simple_tool =
  st_name :: string
  st_api_method :: string
  st_message :: "piece list"
  st_has_data :: bool
  st_params :: "(string \<times> json option) list"

definition a_tool ::
  "string \<Rightarrow> string \<Rightarrow> piece list \<Rightarrow> bool \<Rightarrow> (string \<times> json option) list \<Rightarrow> simple_tool" where
  "a_tool n a m h ps = \<lparr>st_name = n, st_api_method = a, st_message = m, st_has_data = h, st_params = ps\<rparr>"

definition SIMPLE_TOOLS :: "simple_tool list" where
  "SIMPLE_TOOLS = [
     a_tool ''start_node'' ''start_node'' [Lit ''Node '', Arg ''node_id'', Lit '' started''] True [(''node_id'', None)],
     a_tool ''stop_node'' ''stop_node'' [Lit ''Node '', Arg ''node_id'', Lit '' stopped''] True [(''node_id'', None)],
     a_tool ''reload_node'' ''reload_node'' [Lit ''Node '', Arg ''node_id'', Lit '' reloaded''] True [(''node_id'', None)],
     a_tool ''suspend_node'' ''suspend_node'' [Lit ''Node '', Arg ''node_id'', Lit '' suspended''] True [(''node_id'', None)],
     a_tool ''isolate_node'' ''isolate_node'' [Lit ''Node '', Arg ''node_id'', Lit '' isolated''] True [(''node_id'', None)],
     a_tool ''unisolate_node'' ''unisolate_node'' [Lit ''Node '', Arg ''node_id'', Lit '' unisolated''] True [(''node_id'', None)],
     a_tool ''start_all_nodes'' ''start_all_nodes'' [Lit ''All nodes started''] False [],
     a_tool ''stop_all_nodes'' ''stop_all_nodes'' [Lit ''All nodes stopped''] False [],
     a_tool ''create_link'' ''create_link'' [Lit ''Link created''] True [(''nodes'', None)],
     a_tool ''delete_link'' ''delete_link'' [Lit ''Link '', Arg ''link_id'', Lit '' deleted''] False [(''link_id'', None)],
     a_tool ''start_capture'' ''start_capture'' [Lit ''Capture started on '', Arg ''link_id''] True [(''link_id'', None)],
     a_tool ''stop_capture'' ''stop_capture'' [Lit ''Capture stopped on '', Arg ''link_id''] True [(''link_id'', None)],
     a_tool ''set_link_filter'' ''set_link_filter'' [Lit ''Filter set on '', Arg ''link_id''] True [(''link_id'', None), (''filters'', None)],
     a_tool ''reset_console'' ''reset_console'' [Lit ''Console reset for '', Arg ''node_id''] False [(''node_id'', None)],
     a_tool ''create_node_from_template'' ''create_node_from_template'' [Lit ''Node created from template''] True [(''template_id'', None), (''x'', Some (JInt 0)), (''y'', Some (JInt 0))],
     a_tool ''open_project'' ''open_project'' [Lit ''Project opened''] True [],
     a_tool ''close_project'' ''close_project'' [Lit ''Project closed''] True [],
     a_tool ''lock_project'' ''lock_project'' [Lit ''Project locked''] True [],
     a_tool ''unlock_project'' ''unlock_project'' [Lit ''Project unlocked''] True [],
     a_tool ''duplicate_project'' ''duplicate_project'' [Lit ''Project duplicated''] True [],
     a_tool ''create_snapshot'' ''create_snapshot'' [Lit ''Snapshot '', Lit [CHR 39], Arg ''name'', Lit [CHR 39], Lit '' created''] True [(''name'', None)],
     a_tool ''restore_snapshot'' ''restore_snapshot'' [Lit ''Snapshot '', Arg ''snapshot_id'', Lit '' restored''] True [(''snapshot_id'', None)]]"

text \<open>The protocol layer fills in defaults and refuses a call that lacks a required parameter: \<open>None\<close>.\<close>

fun bind_params :: "(string \<times> json) list \<Rightarrow> (string \<times> json option) list \<Rightarrow> (string \<times> json) list option" where
  "bind_params given [] = Some []"
| "bind_params given ((p, d) # ps) =
     (case or_else (map_of given p) d of
        None \<Rightarrow> None
      | Some v \<Rightarrow> map_option (\<lambda>kvs. (p, v) # kvs) (bind_params given ps))"

fun format_message :: "(json \<Rightarrow> string) \<Rightarrow> (string \<times> json) list \<Rightarrow> piece list \<Rightarrow> exn + string" where
  "format_message fmt kwargs [] = Inr []"
| "format_message fmt kwargs (Lit s # ps) = bind_exn (format_message fmt kwargs ps) (\<lambda>r. Inr (s @ r))"
| "format_message fmt kwargs (Arg p # ps) =
     (case map_of kwargs p of
        None \<Rightarrow> Inl (Unexpected p)
      | Some v \<Rightarrow> bind_exn (format_message fmt kwargs ps) (\<lambda>r. Inr (fmt v @ r)))"

text \<open>The answer is the message, with the data where the tool has some.\<close>

definition run_tool ::
  "(json \<Rightarrow> string) \<Rightarrow> exn + 'g transport \<Rightarrow> simple_tool \<Rightarrow> session_context \<Rightarrow> (string \<times> json) list \<Rightarrow>
   ('g, string \<times> json option) api" where
  "run_tool fmt api t ctx kwargs =
     bind_api (yields_value api) (\<lambda>http. bind_api (yields_value (project_id_of ctx)) (\<lambda>pid.
     bind_api (call_method fmt http (st_api_method t) pid (map snd kwargs)) (\<lambda>v.
     yields_value (bind_exn (format_message fmt kwargs (st_message t)) (\<lambda>m.
       Inr (m, if st_has_data t then Some v else None))))))"

text \<open>The reply of the exec service: a status and JSON.\<close>

datatype exec_reply = ExecRefused string | ExecOk json

definition exec_vtysh ::
  "(json \<Rightarrow> string) \<Rightarrow> string option \<Rightarrow> string option \<Rightarrow> (json \<Rightarrow> 'g \<Rightarrow> (exn + nat \<times> json) \<times> 'g) \<Rightarrow>
   session_context \<Rightarrow> string \<Rightarrow> string \<Rightarrow> ('g, exec_reply) api" where
  "exec_vtysh fmt service_url token post ctx node_id command =
     (if \<not> truthy service_url then yields_value (Inr (ExecRefused ''gns3-service URL not configured''))
      else bind_api (yields_value (project_id_of ctx)) (\<lambda>pid.
        if \<not> truthy token
        then yields_value (Inr (ExecRefused ''INTERNAL_API_TOKEN not configured for gns3-service exec''))
        else bind_api (post (JObj [(''project_id'', JStr pid), (''node_id'', JStr node_id), (''command'', JStr command)]))
          (\<lambda>(code, v). yields_value (Inr (if code \<noteq> 200 then ExecRefused (''exec failed: HTTP '' @ show_nat fmt code)
             else ExecOk v)))))"

definition get_console_info ::
  "(json \<Rightarrow> string) \<Rightarrow> exn + 'g transport \<Rightarrow> session_context \<Rightarrow> string \<Rightarrow> ('g, json) api" where
  "get_console_info fmt api ctx node_id =
     bind_api (yields_value api) (\<lambda>http. bind_api (yields_value (project_id_of ctx)) (\<lambda>pid.
     bind_api (call_method fmt http ''get_node'' pid [JStr node_id]) (\<lambda>node.
     yields_value (Inr (JObj ((''node_id'', JStr node_id) #
       map (\<lambda>k. (k, item_or k JNull node)) [''console'', ''console_type'', ''console_host'']))))))"

text \<open>The history of the GNS3 service: a status and JSON; \<open>parse\<close> reads a time.\<close>

definition action_of_event :: "(json \<Rightarrow> time option) \<Rightarrow> json \<Rightarrow> exn + user_action" where
  "action_of_event parse event =
     bind_exn (item ''timestamp'' event) (\<lambda>t. bind_exn (item ''event_type'' event) (\<lambda>a.
     case (parse t, as_string a, item_or ''component_id'' JNull event) of
       (Some ts, Inr kind, JNull) \<Rightarrow>
         Inr \<lparr>ua_timestamp = ts, ua_component_id = None, ua_action = kind, ua_raw_command = None, ua_success = True\<rparr>
     | (Some ts, Inr kind, JStr c) \<Rightarrow>
         Inr \<lparr>ua_timestamp = ts, ua_component_id = Some c, ua_action = kind, ua_raw_command = None, ua_success = True\<rparr>
     | _ \<Rightarrow> Inl (Validation ''UserAction'')))"

definition list_user_actions ::
  "(json \<Rightarrow> time option) \<Rightarrow> string option \<Rightarrow> (string \<Rightarrow> int \<Rightarrow> exn + nat \<times> json) \<Rightarrow> session_context \<Rightarrow> int \<Rightarrow>
   exn + user_action list" where
  "list_user_actions parse history_url history ctx limit =
     (if \<not> truthy history_url then Inr []
      else let sid = map_of (sx_metadata ctx) ''gns3_session_id'' in
        bind_exn (history (if truthy sid then the sid else sx_session_id ctx) limit) (\<lambda>(code, v).
          if code \<noteq> 200 then Inl (Unexpected ''gns3-service history'')
          else bind_exn (elements v) (map_exn (action_of_event parse))))"

end
