(* ===== verification/Mcp_Server_Properties.thy ===== *)
theory Mcp_Server_Properties
  imports Mcp_Server "HOL-Library.Sublist"
begin

text \<open>
  Properties of the MCP server: whose log messages a caller sees, that what it advertises is what it does,
  and that every request of a tool concerns the caller's project.
\<close>

subsection \<open>Log buffers\<close>

text \<open>The text a message of the socket carries, and where it was heard.\<close>

definition message_of :: "json option \<Rightarrow> string option" where
  "message_of raw =
     (case raw of
        Some (JObj d) \<Rightarrow> (case item_or ''message'' (JStr []) (JObj d) of JStr s \<Rightarrow> Some s | _ \<Rightarrow> None)
      | _ \<Rightarrow> None)"

definition heard_at :: "string \<times> string \<Rightarrow> log_entry \<Rightarrow> log_event \<Rightarrow> bool" where
  "heard_at k e ev =
     (case ev of
        Heard k' now raw \<Rightarrow> k' = k \<and> now = le_timestamp e \<and> message_of raw = Some (le_message e)
      | _ \<Rightarrow> False)"

definition buffers_ok :: "nat \<Rightarrow> log_event list \<Rightarrow> buffers \<Rightarrow> bool" where
  "buffers_ok n evs bs \<longleftrightarrow>
     (\<forall>k b. bs k = Some b \<longrightarrow> length (lb_entries b) \<le> n \<and>
        (\<forall>e \<in> set (lb_entries b). \<exists>ev \<in> set evs. heard_at k e ev))"

lemma keep_last_length: "length (keep_last n xs) \<le> n"
  by (simp add: keep_last_def)

lemma keep_last_set: "set (keep_last n xs) \<subseteq> set xs"
  by (simp add: keep_last_def set_drop_subset)

lemma from_minus_part: "set (from_minus n xs) \<subseteq> set xs \<and> length (from_minus n xs) \<le> length xs"
  by (auto simp: from_minus_def keep_last_def dest: in_set_dropD)

lemma hear_entries:
  "lb_entries (hear n now raw b) = lb_entries b \<or>
   (\<exists>level s. message_of raw = Some s \<and> lb_entries (hear n now raw b) = keep_last n (lb_entries b @
      [\<lparr>le_timestamp = now, le_level = level, le_source = ''gns3'', le_message = s\<rparr>]))"
  by (auto simp: hear_def add_entry_def message_of_def split: option.split json.split)

lemma buffers_ok_mono: "buffers_ok n evs bs \<Longrightarrow> set evs \<subseteq> set evs' \<Longrightarrow> buffers_ok n evs' bs"
  unfolding buffers_ok_def by blast

lemma ensure_log_buffer_ok:
  assumes "buffers_ok n evs bs"
  shows "buffers_ok n evs (snd (ensure_log_buffer ctx bs))"
  using assms by (auto simp: buffers_ok_def ensure_log_buffer_def Let_def new_buffer_def ensure_connected_def
      split: sum.split option.splits)

lemma log_step_ok:
  assumes "buffers_ok n evs bs"
  shows "buffers_ok n (evs @ [ev]) (log_step n ev bs)"
proof (cases ev)
  case (Heard k now raw)
  show ?thesis
  proof (cases "bs k")
    case None
    then show ?thesis using buffers_ok_mono [OF assms, of "evs @ [ev]"] Heard
      by (simp add: log_step_def subset_insertI)
  next
    case (Some b)
    have new: "length (lb_entries (hear n now raw b)) \<le> n \<and>
        (\<forall>e \<in> set (lb_entries (hear n now raw b)). \<exists>x \<in> set (evs @ [ev]). heard_at k e x)"
    proof -
      have old: "length (lb_entries b) \<le> n" "\<forall>e \<in> set (lb_entries b). \<exists>x \<in> set evs. heard_at k e x"
        using assms Some unfolding buffers_ok_def by blast+
      consider "lb_entries (hear n now raw b) = lb_entries b"
        | level s where "message_of raw = Some s" "lb_entries (hear n now raw b) = keep_last n (lb_entries b @
            [\<lparr>le_timestamp = now, le_level = level, le_source = ''gns3'', le_message = s\<rparr>])"
        using hear_entries [of n now raw b] by blast
      then show ?thesis
      proof cases
        case 1
        then show ?thesis using old by auto
      next
        case 2
        let ?e = "\<lparr>le_timestamp = now, le_level = level, le_source = ''gns3'', le_message = s\<rparr>"
        have "heard_at k ?e ev" using 2(1) Heard by (simp add: heard_at_def)
        then have "\<forall>e \<in> set (lb_entries b @ [?e]). \<exists>x \<in> set (evs @ [ev]). heard_at k e x"
          using old(2) by auto
        then show ?thesis
          unfolding 2(2) using keep_last_length keep_last_set by (meson subsetD)
      qed
    qed
    have "buffers_ok n (evs @ [ev]) (bs(k \<mapsto> hear n now raw b))"
      unfolding buffers_ok_def
    proof (intro allI impI)
      fix k' b'
      assume b': "(bs(k \<mapsto> hear n now raw b)) k' = Some b'"
      show "length (lb_entries b') \<le> n \<and> (\<forall>e \<in> set (lb_entries b'). \<exists>x \<in> set (evs @ [ev]). heard_at k' e x)"
      proof (cases "k' = k")
        case True
        then show ?thesis using b' new by simp
      next
        case False
        then have "bs k' = Some b'" using b' by simp
        then show ?thesis using assms unfolding buffers_ok_def by fastforce
      qed
    qed
    then show ?thesis using Heard Some by (simp add: log_step_def)
  qed
next
  case (AsksErrors ctx since)
  have "snd (list_errors ctx since bs) = snd (ensure_log_buffer ctx bs)"
    by (simp add: list_errors_def split: prod.split sum.split)
  then show ?thesis
    using AsksErrors ensure_log_buffer_ok [OF buffers_ok_mono [OF assms, of "evs @ [ev]"]]
    by (simp add: log_step_def subset_insertI)
next
  case (AsksLogs ctx level limit)
  have "snd (logs_of ctx level limit bs) = snd (ensure_log_buffer ctx bs)"
    by (simp add: logs_of_def split: prod.split sum.split)
  then show ?thesis
    using AsksLogs ensure_log_buffer_ok [OF buffers_ok_mono [OF assms, of "evs @ [ev]"]]
    by (simp add: log_step_def subset_insertI)
qed

lemma log_run_ok: "buffers_ok n evs (fold (log_step n) evs Map.empty)"
proof (induction evs rule: rev_induct)
  case Nil
  show ?case by (simp add: buffers_ok_def)
next
  case (snoc ev evs)
  show ?case using log_step_ok [OF snoc] by simp
qed

text \<open>A limit of zero asks for the last zero messages and gets all of them.\<close>

lemma zero_limit_shows_all: "get_logs ALL_LEVELS 0 b = lb_entries b"
  by (simp add: get_logs_def from_minus_def)

subsection \<open>Actions and tools\<close>

lemma actions_coherent:
  "map_of (map (\<lambda>a. (as_name a, map fst (as_parameters a))) ACTIONS) name = action_params name"
  by (simp add: ACTIONS_def an_action_def action_params_def ACTION_ARMS_def)

lemma find_action:
  "action_params name = map_option (\<lambda>a. map fst (as_parameters a)) (find (\<lambda>a. as_name a = name) ACTIONS)"
proof -
  have "map_of (map (\<lambda>a. (as_name a, f a)) xs) name = map_option f (find (\<lambda>a. as_name a = name) xs)"
    for f :: "action_spec \<Rightarrow> string list" and xs
    by (induction xs) auto
  then show ?thesis using actions_coherent by metis
qed

lemma read_params_length: "read_params params ks = Inr vs \<Longrightarrow> length vs = length ks"
  by (induction ks arbitrary: vs) (auto simp: bind_exn_def split: option.splits sum.splits)

lemma bind_params_keys: "bind_params given ps = Some kvs \<Longrightarrow> map fst kvs = map fst ps"
  by (induction given ps arbitrary: kvs rule: bind_params.induct) (auto split: option.splits)

text \<open>Every method a project's tools call makes a request under the project's path.\<close>

lemma api_method_path:
  "api_method fmt name pid args = Some (m, path, body) \<Longrightarrow> prefix (''/v3/projects/'' @ pid) path"
  by (induction fmt name pid args rule: api_method.induct)
    (auto simp: in_project_def prefix_def split: option.splits if_splits)

lemma all_of_length:
  "(\<forall>vs. length vs = 0 \<longrightarrow> P vs) \<longleftrightarrow> P []"
  "(\<forall>vs. length vs = Suc 0 \<longrightarrow> Q vs) \<longleftrightarrow> (\<forall>a. Q [a])"
  "(\<forall>vs. length vs = Suc (Suc 0) \<longrightarrow> R vs) \<longleftrightarrow> (\<forall>a b. R [a, b])"
  "(\<forall>vs. length vs = Suc (Suc (Suc 0)) \<longrightarrow> S vs) \<longleftrightarrow> (\<forall>a b c. S [a, b, c])"
  by (simp, (metis length_0_conv length_Suc_conv length_Cons list.size(3))+)

lemma arms_have_methods:
  "list_all (\<lambda>(n, ks). \<forall>vs. length vs = length ks \<longrightarrow> api_method fmt n pid vs \<noteq> None) ACTION_ARMS"
  by (simp add: ACTION_ARMS_def all_of_length NODE_CALLS_def PROJECT_CALLS_def)

lemma action_method:
  assumes "action_params name = Some ks" "length vs = length ks"
  shows "api_method fmt name pid vs \<noteq> None"
proof -
  have "(name, ks) \<in> set ACTION_ARMS" using assms(1) unfolding action_params_def by (rule map_of_SomeD)
  then show ?thesis using arms_have_methods [of fmt pid] assms(2) unfolding list_all_iff by blast
qed

subsection \<open>Main properties\<close>

text \<open>C38. Whatever messages arrive on the sockets and whoever asks in between, the log a caller reads holds only
  messages heard on the socket of the caller's own user and project, at the time and with the text they had
  there, and no more than a buffer holds.
\<close>

theorem logs_stay_with_their_project:
  "case logs_of ctx level limit (fold (log_step n) evs Map.empty) of
     (Inr es, bs) \<Rightarrow> length es \<le> n \<and>
       list_all (\<lambda>e. list_ex (heard_at (sx_user_id ctx, the (sx_project_id ctx)) e) evs) es
   | (Inl e, bs) \<Rightarrow> \<not> truthy (sx_project_id ctx)"
proof (cases "truthy (sx_project_id ctx)")
  case False
  then show ?thesis by (simp add: logs_of_def ensure_log_buffer_def project_id_of_def)
next
  case True
  let ?bs = "fold (log_step n) evs Map.empty"
  let ?k = "(sx_user_id ctx, the (sx_project_id ctx))"
  have ok: "buffers_ok n evs (snd (ensure_log_buffer ctx ?bs))" by (rule ensure_log_buffer_ok [OF log_run_ok])
  obtain b bs1 where b: "ensure_log_buffer ctx ?bs = (Inr ?k, bs1)" "bs1 ?k = Some b"
    using True by (simp add: ensure_log_buffer_def project_id_of_def Let_def)
  then have r: "logs_of ctx level limit ?bs = (Inr (get_logs level limit b), bs1)"
    by (simp add: logs_of_def)
  have held: "length (lb_entries b) \<le> n" "\<forall>e \<in> set (lb_entries b). \<exists>ev \<in> set evs. heard_at ?k e ev"
    using ok b by (auto simp: buffers_ok_def)
  have "set (get_logs level limit b) \<subseteq> set (lb_entries b)" "length (get_logs level limit b) \<le> length (lb_entries b)"
    using from_minus_part [of limit "lb_entries b"]
      from_minus_part [of limit "filter (\<lambda>e. le_level e = level) (lb_entries b)"]
      length_filter_le [of "\<lambda>e. le_level e = level" "lb_entries b"]
    by (auto simp: get_logs_def intro: le_trans)
  then show ?thesis using r held by (auto simp: list_all_iff list_ex_iff)
qed

text \<open>What the server advertises is what it executes: an action runs exactly when it is in the list the caller
  is shown; it then needs just the parameters shown there, sends one request, below the caller's project,
  and answers a success exactly when that request is answered without an error.
\<close>

theorem advertised_actions_run:
  assumes "truthy (sx_project_id ctx)"
  shows "execute_action fmt (Inr http) ctx name params g =
    (case find (\<lambda>a. as_name a = name) ACTIONS of
       None \<Rightarrow> (Inl (Mcp (ActionExecutionError name (''Unknown action: '' @ name))), g)
     | Some a \<Rightarrow>
         (case read_params params (map fst (as_parameters a)) of
            Inl e \<Rightarrow> (Inl (Mcp (ActionExecutionError name (exn_text fmt e))), g)
          | Inr vs \<Rightarrow>
              (case request http (the (api_method fmt name (the (sx_project_id ctx)) vs)) g of
                 (Inl e, g1) \<Rightarrow> (Inl (Mcp (ActionExecutionError name (exn_text fmt e))), g1)
               | (Inr v, g1) \<Rightarrow>
                   (Inr (''Action '' @ [CHR 39] @ name @ [CHR 39] @ '' executed successfully''), g1)))) \<and>
    (\<forall>a vs. find (\<lambda>a. as_name a = name) ACTIONS = Some a \<and> length vs = length (as_parameters a) \<longrightarrow>
       (\<exists>m path body. api_method fmt name (the (sx_project_id ctx)) vs = Some (m, path, body) \<and>
          prefix (''/v3/projects/'' @ the (sx_project_id ctx)) path))"
proof -
  let ?pid = "the (sx_project_id ctx)"
  have reached: "\<exists>m path body. api_method fmt name ?pid vs = Some (m, path, body) \<and>
      prefix (''/v3/projects/'' @ ?pid) path"
    if "find (\<lambda>a. as_name a = name) ACTIONS = Some a" "length vs = length (as_parameters a)" for a vs
  proof -
    have "action_params name = Some (map fst (as_parameters a))" using that(1) by (simp add: find_action)
    then have "api_method fmt name ?pid vs \<noteq> None" using action_method that(2) by simp
    then show ?thesis using api_method_path by (metis option.exhaust prod_cases3)
  qed
  have pid: "project_id_of ctx = Inr ?pid" using assms by (simp add: project_id_of_def)
  show ?thesis
  proof (cases "find (\<lambda>a. as_name a = name) ACTIONS")
    case None
    then show ?thesis
      by (simp add: execute_action_def bind_api_def yields_value_def pid find_action)
  next
    case (Some a)
    show ?thesis
    proof (cases "read_params params (map fst (as_parameters a))")
      case (Inl e)
      then show ?thesis using Some reached
        by (simp add: execute_action_def bind_api_def yields_value_def pid find_action)
    next
      case (Inr vs)
      then have "length vs = length (as_parameters a)" using read_params_length by fastforce
      then obtain r where "api_method fmt name ?pid vs = Some r" using reached [OF Some] by blast
      then show ?thesis using Some Inr reached
        by (simp add: execute_action_def bind_api_def yields_value_def pid find_action call_method_def)
    qed
  qed
qed

lemma advertised_actions_run_witness:
  "let ctx = \<lparr>sx_user_id = ''u'', sx_session_id = ''s'', sx_environment_url = ''e'', sx_project_id = Some ''p'',
       sx_metadata = []\<rparr>;
       http = (\<lambda>(m :: verb) path (body :: json option) g. (Inr (200, [], JNull), path # g))
   in snd (execute_action (\<lambda>_. ''n'') (Inr http) ctx ''start_node'' [(''node_id'', JStr ''n'')] []) =
        [''/v3/projects/p/nodes/n/start''] \<and>
      snd (execute_action (\<lambda>_. ''n'') (Inr http) ctx ''format_disk'' [] []) = []"
proof -
  let ?ctx = "\<lparr>sx_user_id = ''u'', sx_session_id = ''s'', sx_environment_url = ''e'', sx_project_id = Some ''p'',
       sx_metadata = []\<rparr>"
  let ?http = "\<lambda>(m :: verb) path (body :: json option) g. (Inr (200 :: nat, [] :: string, JNull), path # g)"
  have t: "truthy (sx_project_id ?ctx)" by simp
  show ?thesis
    using advertised_actions_run [OF t, of "\<lambda>_. ''n''" ?http "''start_node''" "[(''node_id'', JStr ''n'')]" "[]"]
      advertised_actions_run [OF t, of "\<lambda>_. ''n''" ?http "''format_disk''" "[]" "[]"]
    by (simp add: Let_def ACTIONS_def an_action_def bind_exn_def NODE_CALLS_def request_def in_project_def)
qed

text \<open>Every tool of the table names a method and needs nothing but its own parameters for its message.\<close>

lemma simple_tools_ready:
  "list_all (\<lambda>t. list_all (\<lambda>p. case p of Lit s \<Rightarrow> True | Arg k \<Rightarrow> k \<in> set (map fst (st_params t))) (st_message t) \<and>
     (\<forall>vs. length vs = length (st_params t) \<longrightarrow> api_method fmt (st_api_method t) pid vs \<noteq> None)) SIMPLE_TOOLS"
  by (simp add: SIMPLE_TOOLS_def a_tool_def all_of_length NODE_CALLS_def PROJECT_CALLS_def)

end
