(* ===== verification/Spec2Isabelle.thy ===== *)
theory Spec2Isabelle
  imports Loop_Properties Data_Properties Session_Properties Evaluation_Properties Check_Properties Capture_Properties
    Chat_Properties Access_Properties Admin_Properties Admin_Client_Properties Streams_Properties Reports_Properties
    Mcp_Pool_Properties Mcp_Server_Properties
begin

text \<open>
  A verification library of the onlinetlabs platform: learners work in GNS3 network labs, a monitor watches
  their work, an identifier names the struggle it sees, and a control law decides when a language model may
  help; consent, admission, validation, chat, administration and evaluation surround that loop.  Paths
  below \<open>src/backend\<close> are given without that prefix.

  The program.  A learner signs in, launches a lab through the admission queue, and the GNS3 service copies a
  project and makes an account for it.  The monitor of the session polls the environment through the governed
  seam, which asks for ownership, consent and rate; its collector stores events, features are computed from them,
  the identifier gives a regime, the dwell tracker counts how long it lasts, and the control law of the
  learner's arm delivers an intervention, withholds it or escalates.  The orchestrator writes the text.  Lab
  validation runs checks on the devices and feeds the score and the progress observer.  The chat tutor answers
  questions with tools.  Finalized sessions become rows of metrics, which cohort curves, reports and the
  offline choice of thresholds read.

  Shared vocabulary.  Prelude: time in microseconds, Python rounding, JSON, the interface \<open>transition_system\<close>
  of a step function with an invariant.  Py_Strings and Py_Stats: the string and statistics functions of Python
  the program uses.  Paging: reading a table newest first by a cursor.  Samples: the concrete deployment most
  witnesses are evaluated on.

  Theories and sources.
  Config: \<open>config/config_model.py\<close>.  Identifier: \<open>agents/identifier\<close>.  Control:
  \<open>analytics/runtime/process_state.py\<close>, \<open>control_law.py\<close>, the arms of \<open>experiment/assignment.py\<close>.
  Records: the tables of \<open>models\<close>.  Features: \<open>analytics/runtime/features.py\<close>.  Governance: \<open>consent\<close>.
  Collector: \<open>analytics/runtime/collector.py\<close>, \<open>evidence.py\<close>.  I18n: \<open>i18n\<close>.  Validation:
  \<open>validation/runner.py\<close>, \<open>service.py\<close>, \<open>progress/service.py\<close>.  Observer:
  \<open>analytics/runtime/progress_observer.py\<close>.  Console_Text, Console, Check_Handlers: \<open>validation/checks\<close>.
  Orchestrator: \<open>agents/orchestrator\<close>, hint and tutor agents, \<open>analytics/runtime/context.py\<close>.  Monitor:
  \<open>analytics/runtime/monitor.py\<close>, \<open>mrt.py\<close>, \<open>sessions/services/escalation.py\<close>.  Queue:
  \<open>sessions/queue.py\<close>, \<open>ticket.py\<close>.  Experiment: \<open>experiment/finalizer.py\<close>, \<open>assignment.py\<close>.
  Sessions: \<open>labs/readiness.py\<close>, \<open>sessions/services\<close>, \<open>sessions/routers/commands.py\<close>, \<open>worker\<close>.
  Cohort, Criterion, Evaluation: \<open>analytics/cohort/metrics.py\<close>, \<open>criterion.py\<close>, \<open>thresholds.py\<close>,
  \<open>analytics/metrics\<close>.  Reports: \<open>analytics/cohort/service.py\<close>, \<open>instructor/service.py\<close>,
  \<open>admin/reports.py\<close>, \<open>experiment/service.py\<close>.  Chat_Context, Chat: \<open>chat\<close>.  Access: \<open>auth\<close>,
  \<open>users/service.py\<close>, \<open>kit/rate_limit.py\<close>.  Data_Registry, Erasure, Admin: \<open>admin/data_registry.py\<close>,
  \<open>users/data_export.py\<close>, \<open>admin/service.py\<close>.
  Of \<open>src/gns3/gns3-service/src\<close>: Redact, Reconstruct, Capture (\<open>console_capture.py\<close>,
  \<open>console_reconstruct.py\<close>), Environment (\<open>services\<close>), Admin_Client (\<open>clients/admin\<close>), Streams
  (forwarders, listener, access gate, purge, templates, routers).  Of \<open>src/mcp-sdk\<close> and
  \<open>src/gns3/gns3-mcp\<close>: Mcp_Pool (\<open>connection.py\<close>) and Mcp_Server (\<open>server.py\<close>, \<open>api_client.py\<close>,
  \<open>mappers.py\<close>, \<open>log_buffer.py\<close>, \<open>domain_tools.py\<close>).

  State and operations.  A row is a record, a table a list in insertion order, the database the record \<open>db\<close>;
  a Redis value carries its expiry.  A handler is a function of the state that returns it updated, with every
  exception a value of a sum or option type.  Interleavings are sequences of events: where the code awaits,
  a step ends, and what a step leaves out of an interleaving is said at its definition.

  Lemma groups.  A theory named \<open>_Facts\<close> holds the laws of the operations of its component, one named
  \<open>_Properties\<close> the theorems about the program, each with a witness that applies it where it has hypotheses.
  Loop_Properties: the control loop, its gates, its spacing and its records.  Data_Properties: collection under
  consent, audit, the two validation runners, progress.  Session_Properties: one live session, slots, ending.
  Evaluation_Properties: survival curves, the criterion, thresholds.  Check_Properties: what a verdict rests on.
  Capture_Properties: secrets, accounting and framing of console traffic.  Chat_Properties: the protocol of a
  reply.  Access_Properties, Admin_Properties: accounts, tokens, erasure and export.  Environment_Properties,
  Admin_Client_Properties, Streams_Properties: rows against the server's resources, retries, leases, paging.
  Reports_Properties: cohort outcomes and the overview.  Mcp_Pool_Properties, Mcp_Server_Properties: whose
  connection and whose logs.  This theory holds what spans several of them.

  Interfaces.  \<open>transition_system\<close> (Prelude) is interpreted by the poll cycle, the admission counters, the
  monitor, the capture queue and tap, progress and the connection pool.  \<open>gated_call\<close> (Governance) is the
  contract of a call behind the seam, \<open>honest_checks\<close> (Check_Facts) that of check handlers, \<open>tap_ledger\<close>
  (Capture_Flow) that of a tap's accounting, \<open>reply_law\<close> (Chat_Facts) that of a round of a reply, and
  \<open>trying\<close> with its extension \<open>requesting\<close> (Admin_Client_Properties) carries a law from one HTTP request to
  a call with its retries; each is interpreted on the model's own definitions.  The GNS3 server itself is
  not code of this repository: \<open>gns3_laws\<close> states what the service relies on and a simulated server shows that
  it can hold.

  Bounds and fuel.  A deletion follows the foreign keys for \<open>MAX_DEPTH\<close> 3 levels, as deep as the schema's
  references go; \<open>MAX_TOOL_ROUNDS\<close> is 5 rounds of tools, as in the code.  A call of the GNS3 client is tried three times and logs in at most once per try, so the theorems
  about it count requests and never assume success; a launch sends at most 96.  Loops over finite data recurse on
  it; eviction from the pool and the console parsers end by a measure on what is left.  Paging and flushing carry
  fuel, and the theorems show that one more step than there are rows suffices.

  Parameters.  Language models, HTTP transports, Redis, the hash of credentials, GNS3 answers, random draws,
  clocks, \<open>erfc\<close> and the collation of names are arguments of the definitions that use them.

  Not modelled.  The user interface, migrations and tests; the simulation of students, which drives the
  deployed program; loading of configuration and encryption of environment files; logging, metrics
  exporters and command-line scripts; the plain routing of REST and socket handlers and the registration
  of tools with FastMCP; the relay loops of web sockets; lab administration and the bundle endpoint.  They
  only pass values to what is modelled, or are interfaces to libraries whose sources are not here.
\<close>

section \<open>Properties that span components\<close>

text \<open>The micro-randomized branch does not ask for consent: replacing the learner's consents by any
  others changes nothing of what a decision of it delivers.\<close>

theorem randomized_branch_ignores_consent:
  "w_sent (snd (mrt_step cfg env a f regime dwell now (m, on_db (\<lambda>d. d\<lparr>consents := cs\<rparr>) w))) =
     w_sent (snd (mrt_step cfg env a f regime dwell now (m, w)))"
  using mrt_step_consents [of cfg env a f regime dwell now m cs w]
  by (simp add: set_consents_def)

text \<open>The record of an intervention that was withheld counts as a new action of the student: it
  wakes the next analysis cycle and the feature extractor keeps it.\<close>

theorem withheld_intervention_wakes_the_loop:
  assumes "\<forall>t. mo_last_event m = Some t \<longrightarrow> t < t_would env"
  shows "load_new_events m (w_db (log_would_intervene env a why m w)) \<noteq> [] \<and>
    is_student (would_event env m a why)"
  using would_event_wakes [OF assms] would_event_is_student by blast

theorem withheld_intervention_wakes_the_loop_witness:
  "load_new_events (sample_monitor OPEN) (w_db (log_would_intervene (sample_env 9) stuck_analysis ''open_arm''
     (sample_monitor OPEN) (sample_world sample_db))) \<noteq> []"
  using withheld_intervention_wakes_the_loop [of "sample_monitor OPEN" "sample_env 9" stuck_analysis
      "''open_arm''" "sample_world sample_db"]
  by (simp add: sample_monitor_def start_session_def latest_of_def sample_db_def empty_db_def own_rows_def
      split: option.splits)

text \<open>The grounding ablation compares against nothing: every comparison row it writes, one per
  successful dispatch while it is on, has an empty ungrounded text.\<close>

theorem grounding_pair_has_no_baseline:
  "\<exists>rows. comparisons (w_db (grounding_ablation cfg env p r m w)) = comparisons (w_db w) @ rows \<and>
     length rows = (if grounding_ablation_enabled cfg \<and> rs_success r then 1 else 0) \<and>
     list_all (\<lambda>g. gc_ungrounded_text g = []) rows"
  using grounding_ungrounded_empty [of cfg env p r m w] by (simp add: list_all_iff)

text \<open>A failing lab that nobody touches is never reclaimed as idle: an observer cycle that finds the
  very snapshot it found before still counts as the learner's activity.\<close>

theorem failing_lab_never_idle:
  assumes "oe_spec env = Some spec"
    and "snap = evaluate_spec (oe_handlers env) (oe_msg env) spec (cycle_locale env ob d)"
    and "ob_prev ob = Some snap"
    and "inj_on (check_key (oe_dumps env)) (set (concat (map sr_checks snap)))"
    and "\<not> list_all cr_ok (concat (map sr_checks snap))"
    and "s \<in> set (sessions (snd (observer_cycle env (ob, d))))" and "ls_id s = ob_session ob"
  shows "\<not> reclaimable (oe_now env) gns3 s"
  using assms by (rule unchanged_failing_touches)

abbreviation stuck_snapshot :: "step_row list" where
  "stuck_snapshot \<equiv> evaluate_spec (\<lambda>_. None) (\<lambda>k _ _. k) broken_spec
    (cycle_locale observing_env sample_observer sample_db)"

theorem failing_lab_never_idle_witness:
  "\<not> reclaimable 9 (\<lambda>_. None) (hd (sessions (snd (observer_cycle observing_env
     (sample_observer\<lparr>ob_prev := Some stuck_snapshot\<rparr>, sample_db)))))"
proof -
  let ?ob = "sample_observer\<lparr>ob_prev := Some stuck_snapshot\<rparr>"
  let ?ss = "sessions (snd (observer_cycle observing_env (?ob, sample_db)))"
  have same: "cycle_locale observing_env ?ob sample_db = cycle_locale observing_env sample_observer sample_db"
    by (simp add: cycle_locale_def)
  have checks: "length (concat (map sr_checks stuck_snapshot)) = 1 \<and>
      \<not> list_all cr_ok (concat (map sr_checks stuck_snapshot))"
    by (simp add: evaluate_spec_def evaluate_step_def run_check_def check_record_def eval_check_def
        failed_result_def Let_def)
  then obtain c where c: "concat (map sr_checks stuck_snapshot) = [c]" by (auto simp: length_Suc_conv)
  obtain s where s: "?ss = [s]" "ls_id s = ''s''"
    using observer_cycle_ids [of observing_env "(?ob, sample_db)"]
    by (auto simp: sample_db_def sample_session_def map_eq_Cons_conv)
  have "oe_spec observing_env = Some broken_spec" by simp
  moreover have "stuck_snapshot = evaluate_spec (oe_handlers observing_env) (oe_msg observing_env)
      broken_spec (cycle_locale observing_env ?ob sample_db)" unfolding same by simp
  moreover have "ob_prev ?ob = Some stuck_snapshot" by simp
  moreover have "inj_on (check_key (oe_dumps observing_env)) (set (concat (map sr_checks stuck_snapshot)))"
    unfolding c by simp
  moreover have "s \<in> set ?ss" unfolding s(1) by simp
  moreover have "ls_id s = ob_session ?ob" using s(2) by (simp add: observer_start_def)
  ultimately have "\<not> reclaimable (oe_now observing_env) (\<lambda>_. None) s"
    using checks failing_lab_never_idle by blast
  then show ?thesis by (simp add: s)
qed

text \<open>Whatever a client sends as its locale, the program works in a supported one, and negotiating
  the result again changes nothing.\<close>

theorem negotiated_locale_supported:
  "negotiate raw \<in> set LOCALES \<and> negotiate (Some (negotiate raw)) = negotiate raw"
  by (simp only: negotiate_supported negotiate_idem simp_thms)

text \<open>Once the agents' configuration has been validated, the model that writes interventions can be
  built: whatever the session, its entry and its provider's credentials are found.\<close>

theorem validated_configuration_resolves:
  assumes "validate_refs cfg0 = Inr cfg"
  shows "\<exists>c e. resolve_model cfg (resolve_intervention_model cfg sid) = Inr (c, e)"
  using assms by (rule validated_model_resolves)

theorem validated_configuration_resolves_witness:
  "\<exists>cfg c e. validate_refs sample_agents = Inr cfg \<and>
     resolve_model cfg (resolve_intervention_model cfg None) = Inr (c, e)"
proof -
  have "\<exists>cfg. validate_refs sample_agents = Inr cfg"
    by (simp add: validate_refs_def sample_agents_def get_entry_def creds_ok_def)
  then obtain cfg where "validate_refs sample_agents = Inr cfg" by blast
  with validated_configuration_resolves [OF this] show ?thesis by blast
qed

end
